(* ===== verification/MCL_Prelude.thy ===== *)
theory MCL_Prelude
  imports Main "HOL-Library.Word" "HOL-Library.Monad_Syntax"
begin

text \<open>
  The types, collections and generic lemmas every component of the MindConnect
  Library model shares.  The result codes are the enumeration of
  \<^verbatim>\<open>include/mcl/mcl_common.h\<close>; \<^verbatim>\<open>mcl_size_t\<close> is a 64 bit word; a pointer that may
  be \<^verbatim>\<open>NULL\<close> is an option; a computation that may run into undefined behaviour of C
  (a read or write outside of a block, a dereference of \<^verbatim>\<open>NULL\<close>) is an option whose
  value \<open>None\<close> is that undefined behaviour, so that a theorem that a function returns
  \<open>Some\<close> is a theorem that it is memory safe.
\<close>

section \<open>Result codes\<close>

datatype E_MCL_ERROR_CODE
    = MCL_OK | MCL_FAIL | MCL_TRIGGERED_WITH_NULL | MCL_OUT_OF_MEMORY | MCL_INVALID_PARAMETER
    | MCL_NO_FILE_SUPPORT | MCL_NO_STORAGE_MEDIUM | MCL_INVALID_LOG_LEVEL
    | MCL_OPERATION_IS_NOT_SUPPORTED | MCL_FILE_CANNOT_BE_OPENED | MCL_JSON_NAME_DUPLICATION
    | MCL_INDEX_OUT_OF_RANGE | MCL_ITEM_ALREADY_EXISTS | MCL_INVALID_EVENT_SEVERITY_LEVEL
    | MCL_NO_SERVER_TIME | MCL_NO_ACCESS_TOKEN_EXISTS | MCL_INVALID_HOST_NAME
    | MCL_INVALID_CERTIFICATE | MCL_INVALID_PROXY_HOST_NAME | MCL_INVALID_PROXY_USER_NAME
    | MCL_INVALID_PROXY_PASSWORD | MCL_INVALID_PROXY_DOMAIN | MCL_INVALID_SECURITY_PROFILE
    | MCL_INVALID_USER_AGENT | MCL_INVALID_TENANT | MCL_INVALID_MAX_HTTP_PAYLOAD_SIZE
    | MCL_NO_ACCESS_TOKEN_PROVIDED | MCL_PATH_NOT_ACCESSIBLE | MCL_COULD_NOT_RESOLVE_PROXY
    | MCL_COULD_NOT_RESOLVE_HOST | MCL_COULD_NOT_CONNECT | MCL_SSL_HANDSHAKE_FAIL
    | MCL_NETWORK_SEND_FAIL | MCL_NETWORK_RECEIVE_FAIL | MCL_SERVER_CERTIFICATE_NOT_VERIFIED
    | MCL_CA_CERTIFICATE_AUTHENTICATION_FAIL | MCL_IMPROPER_CERTIFICATE | MCL_REQUEST_TIMEOUT
    | MCL_SERVER_FAIL | MCL_CREATED | MCL_PARTIAL_CONTENT | MCL_BAD_REQUEST
    | MCL_UNAUTHORIZED | MCL_FORBIDDEN | MCL_NOT_FOUND | MCL_CONFLICT | MCL_PRECONDITION_FAIL
    | MCL_REQUEST_PAYLOAD_TOO_LARGE | MCL_UNEXPECTED_RESULT_CODE | MCL_NOT_INITIALIZED
    | MCL_NOT_ONBOARDED | MCL_ALREADY_ONBOARDED | MCL_STORE_IS_EMPTY
    | MCL_EXCHANGE_STREAMING_IS_ACTIVE | MCL_SECURITY_UP_TO_DATE
    | MCL_CANNOT_ENTER_CRITICAL_SECTION | MCL_INITIALIZATION_FAIL
    | MCL_STORE_ITEM_EXCEEDS_MAX_HTTP_REQUEST_SIZE | MCL_UNDEFINED_ENDPOINT
    | MCL_BAD_CONTENT_ENCODING | MCL_NON_EXISTING_JSON_CHILD | MCL_SHA256_CALCULATION_FAIL
    | MCL_SERVER_PROOF_FAIL | MCL_REGISTRATION_INFO_IS_NOT_SAVED
    | MCL_REGISTRATION_INFO_IS_NOT_LOADED | MCL_BUFFER_OVERFLOW_ERROR
    | MCL_HTTP_REQUEST_NO_MORE_SPACE | MCL_LIMIT_EXCEEDED | MCL_ARRAY_IS_EMPTY
    | MCL_PARTIALLY_WRITTEN | MCL_HTTP_REQUEST_FINALIZE_FAILED

definition error_codes :: "E_MCL_ERROR_CODE list" where
  "error_codes = [
    MCL_OK, MCL_FAIL, MCL_TRIGGERED_WITH_NULL, MCL_OUT_OF_MEMORY, MCL_INVALID_PARAMETER,
    MCL_NO_FILE_SUPPORT, MCL_NO_STORAGE_MEDIUM, MCL_INVALID_LOG_LEVEL,
    MCL_OPERATION_IS_NOT_SUPPORTED, MCL_FILE_CANNOT_BE_OPENED, MCL_JSON_NAME_DUPLICATION,
    MCL_INDEX_OUT_OF_RANGE, MCL_ITEM_ALREADY_EXISTS, MCL_INVALID_EVENT_SEVERITY_LEVEL,
    MCL_NO_SERVER_TIME, MCL_NO_ACCESS_TOKEN_EXISTS, MCL_INVALID_HOST_NAME,
    MCL_INVALID_CERTIFICATE, MCL_INVALID_PROXY_HOST_NAME, MCL_INVALID_PROXY_USER_NAME,
    MCL_INVALID_PROXY_PASSWORD, MCL_INVALID_PROXY_DOMAIN, MCL_INVALID_SECURITY_PROFILE,
    MCL_INVALID_USER_AGENT, MCL_INVALID_TENANT, MCL_INVALID_MAX_HTTP_PAYLOAD_SIZE,
    MCL_NO_ACCESS_TOKEN_PROVIDED, MCL_PATH_NOT_ACCESSIBLE, MCL_COULD_NOT_RESOLVE_PROXY,
    MCL_COULD_NOT_RESOLVE_HOST, MCL_COULD_NOT_CONNECT, MCL_SSL_HANDSHAKE_FAIL,
    MCL_NETWORK_SEND_FAIL, MCL_NETWORK_RECEIVE_FAIL, MCL_SERVER_CERTIFICATE_NOT_VERIFIED,
    MCL_CA_CERTIFICATE_AUTHENTICATION_FAIL, MCL_IMPROPER_CERTIFICATE, MCL_REQUEST_TIMEOUT,
    MCL_SERVER_FAIL, MCL_CREATED, MCL_PARTIAL_CONTENT, MCL_BAD_REQUEST, MCL_UNAUTHORIZED,
    MCL_FORBIDDEN, MCL_NOT_FOUND, MCL_CONFLICT, MCL_PRECONDITION_FAIL,
    MCL_REQUEST_PAYLOAD_TOO_LARGE, MCL_UNEXPECTED_RESULT_CODE, MCL_NOT_INITIALIZED,
    MCL_NOT_ONBOARDED, MCL_ALREADY_ONBOARDED, MCL_STORE_IS_EMPTY,
    MCL_EXCHANGE_STREAMING_IS_ACTIVE, MCL_SECURITY_UP_TO_DATE,
    MCL_CANNOT_ENTER_CRITICAL_SECTION, MCL_INITIALIZATION_FAIL,
    MCL_STORE_ITEM_EXCEEDS_MAX_HTTP_REQUEST_SIZE, MCL_UNDEFINED_ENDPOINT,
    MCL_BAD_CONTENT_ENCODING, MCL_NON_EXISTING_JSON_CHILD, MCL_SHA256_CALCULATION_FAIL,
    MCL_SERVER_PROOF_FAIL, MCL_REGISTRATION_INFO_IS_NOT_SAVED,
    MCL_REGISTRATION_INFO_IS_NOT_LOADED, MCL_BUFFER_OVERFLOW_ERROR,
    MCL_HTTP_REQUEST_NO_MORE_SPACE, MCL_LIMIT_EXCEEDED, MCL_ARRAY_IS_EMPTY,
    MCL_PARTIALLY_WRITTEN, MCL_HTTP_REQUEST_FINALIZE_FAILED]"

definition error_code_strings :: "string list" where
  "error_code_strings = [
    ''MCL_OK'', ''MCL_FAIL'', ''MCL_TRIGGERED_WITH_NULL'', ''MCL_OUT_OF_MEMORY'',
    ''MCL_INVALID_PARAMETER'', ''MCL_NO_FILE_SUPPORT'', ''MCL_NO_STORAGE_MEDIUM'',
    ''MCL_INVALID_LOG_LEVEL'', ''MCL_OPERATION_IS_NOT_SUPPORTED'',
    ''MCL_FILE_CANNOT_BE_OPENED'', ''MCL_JSON_NAME_DUPLICATION'', ''MCL_INDEX_OUT_OF_RANGE'',
    ''MCL_ITEM_ALREADY_EXISTS'', ''MCL_INVALID_EVENT_SEVERITY_LEVEL'',
    ''MCL_NO_SERVER_TIME'', ''MCL_NO_ACCESS_TOKEN_EXISTS'', ''MCL_INVALID_HOST_NAME'',
    ''MCL_INVALID_CERTIFICATE'', ''MCL_INVALID_PROXY_HOST_NAME'',
    ''MCL_INVALID_PROXY_USER_NAME'', ''MCL_INVALID_PROXY_PASSWORD'',
    ''MCL_INVALID_PROXY_DOMAIN'', ''MCL_INVALID_SECURITY_PROFILE'',
    ''MCL_INVALID_USER_AGENT'', ''MCL_INVALID_TENANT'',
    ''MCL_INVALID_MAX_HTTP_PAYLOAD_SIZE'', ''MCL_NO_ACCESS_TOKEN_PROVIDED'',
    ''MCL_PATH_NOT_ACCESSIBLE'', ''MCL_COULD_NOT_RESOLVE_PROXY'',
    ''MCL_COULD_NOT_RESOLVE_HOST'', ''MCL_COULD_NOT_CONNECT'', ''MCL_SSL_HANDSHAKE_FAIL'',
    ''MCL_NETWORK_SEND_FAIL'', ''MCL_NETWORK_RECEIVE_FAIL'',
    ''MCL_SERVER_CERTIFICATE_NOT_VERIFIED'', ''MCL_CA_CERTIFICATE_AUTHENTICATION_FAIL'',
    ''MCL_IMPROPER_CERTIFICATE'', ''MCL_REQUEST_TIMEOUT'', ''MCL_SERVER_FAIL'',
    ''MCL_CREATED'', ''MCL_PARTIAL_CONTENT'', ''MCL_BAD_REQUEST'', ''MCL_UNAUTHORIZED'',
    ''MCL_FORBIDDEN'', ''MCL_NOT_FOUND'', ''MCL_CONFLICT'', ''MCL_PRECONDITION_FAIL'',
    ''MCL_REQUEST_PAYLOAD_TOO_LARGE'', ''MCL_UNEXPECTED_RESULT_CODE'',
    ''MCL_NOT_INITIALIZED'', ''MCL_NOT_ONBOARDED'', ''MCL_ALREADY_ONBOARDED'',
    ''MCL_STORE_IS_EMPTY'', ''MCL_EXCHANGE_STREAMING_IS_ACTIVE'',
    ''MCL_SECURITY_UP_TO_DATE'', ''MCL_CANNOT_ENTER_CRITICAL_SECTION'',
    ''MCL_INITIALIZATION_FAIL'', ''MCL_STORE_ITEM_EXCEEDS_MAX_HTTP_REQUEST_SIZE'',
    ''MCL_UNDEFINED_ENDPOINT'', ''MCL_BAD_CONTENT_ENCODING'',
    ''MCL_NON_EXISTING_JSON_CHILD'', ''MCL_SHA256_CALCULATION_FAIL'',
    ''MCL_SERVER_PROOF_FAIL'', ''MCL_REGISTRATION_INFO_IS_NOT_SAVED'',
    ''MCL_REGISTRATION_INFO_IS_NOT_LOADED'', ''MCL_BUFFER_OVERFLOW_ERROR'',
    ''MCL_HTTP_REQUEST_NO_MORE_SPACE'', ''MCL_LIMIT_EXCEEDED'', ''MCL_ARRAY_IS_EMPTY'',
    ''MCL_PARTIALLY_WRITTEN'', ''MCL_HTTP_REQUEST_FINALIZE_FAILED'']"

text \<open>The value of a code as the C enumeration numbers it.\<close>

fun index_in :: "'a \<Rightarrow> 'a list \<Rightarrow> nat" where
  "index_in x [] = 0"
| "index_in x (y # ys) = (if x = y then 0 else Suc (index_in x ys))"

lemma nth_index_in: "x \<in> set xs \<Longrightarrow> index_in x xs < length xs \<and> xs ! index_in x xs = x"
  by (induction xs) auto

definition code_value :: "E_MCL_ERROR_CODE \<Rightarrow> nat" where
  "code_value c = index_in c error_codes"

definition mcl_log_util_convert_error_code_to_string :: "int \<Rightarrow> string option" where
  "mcl_log_util_convert_error_code_to_string error_code =
    (if 0 \<le> error_code \<and> error_code < int (length error_codes) then Some (error_code_strings ! nat error_code) else None)"

text \<open>Every code has a name of its own: the strings are in step with the enumeration.\<close>

lemma length_error_code_strings: "length error_code_strings = length error_codes"
  by (simp add: error_codes_def error_code_strings_def)

lemma in_error_codes: "c \<in> set error_codes"
  by (cases c) (simp_all add: error_codes_def)

lemma nth_code_value: "error_codes ! code_value c = c"
  using nth_index_in [OF in_error_codes] by (simp add: code_value_def)

lemma code_value_less: "code_value c < length error_codes"
  using nth_index_in [OF in_error_codes] by (simp add: code_value_def)

lemma code_value_inj: "code_value c = code_value d \<longleftrightarrow> c = d"
  by (metis nth_code_value)

text \<open>The codes are ordered as their numbers.\<close>

instantiation E_MCL_ERROR_CODE :: linorder
begin

definition less_eq_E_MCL_ERROR_CODE :: "E_MCL_ERROR_CODE \<Rightarrow> E_MCL_ERROR_CODE \<Rightarrow> bool" where
  "less_eq_E_MCL_ERROR_CODE c d \<longleftrightarrow> code_value c \<le> code_value d"

definition less_E_MCL_ERROR_CODE :: "E_MCL_ERROR_CODE \<Rightarrow> E_MCL_ERROR_CODE \<Rightarrow> bool" where
  "less_E_MCL_ERROR_CODE c d \<longleftrightarrow> code_value c < code_value d"

instance
  by standard (auto simp: less_eq_E_MCL_ERROR_CODE_def less_E_MCL_ERROR_CODE_def code_value_inj)

end

section \<open>Sizes\<close>

type_synonym mcl_size_t = "64 word"
type_synonym addr = nat

definition MCL_SIZE_MAX :: mcl_size_t where
  "MCL_SIZE_MAX = - 1"

lemma unat_MCL_SIZE_MAX: "unat MCL_SIZE_MAX = 2 ^ 64 - 1"
  by (simp add: MCL_SIZE_MAX_def unsigned_minus_1_eq_mask mask_eq_exp_minus_1)

text \<open>The size a C object of \<open>n\<close> elements has, and the index arithmetic on it.\<close>

abbreviation size_of_nat :: "nat \<Rightarrow> mcl_size_t" where
  "size_of_nat n \<equiv> word_of_nat n"

lemma unat_size_of_nat: "n < 2 ^ 64 \<Longrightarrow> unat (size_of_nat n) = n"
  by (simp add: unat_of_nat take_bit_nat_eq_self)

lemma unat_less_64: "unat (x :: mcl_size_t) < 2 ^ 64"
  using unsigned_less [of x] by simp

lemma unat_add_less:
  "unat x + unat y < 2 ^ 64 \<Longrightarrow> unat (x + y :: mcl_size_t) = unat x + unat y"
  by (simp add: unat_word_ariths)

lemma unat_mult_less:
  "unat x * unat y < 2 ^ 64 \<Longrightarrow> unat (x * y :: mcl_size_t) = unat x * unat y"
  by (simp add: unat_word_ariths)

lemma unat_diff_le: "y \<le> x \<Longrightarrow> unat (x - y :: mcl_size_t) = unat x - unat y"
  by (simp add: unat_sub)

lemma unat_add_one: "unat x + 1 < 2 ^ 64 \<Longrightarrow> unat (x + 1 :: mcl_size_t) = unat x + 1"
  by (simp add: unat_word_ariths)

lemma size_pos_iff: "0 < (x :: mcl_size_t) \<longleftrightarrow> 0 < unat x"
  by (simp add: word_less_nat_alt)

lemma size_less_iff: "(x :: mcl_size_t) < y \<longleftrightarrow> unat x < unat y"
  by (simp add: word_less_nat_alt)

lemma size_le_iff: "(x :: mcl_size_t) \<le> y \<longleftrightarrow> unat x \<le> unat y"
  by (simp add: word_le_nat_alt)

lemma size_eq_iff: "(x :: mcl_size_t) = y \<longleftrightarrow> unat x = unat y"
  by (auto intro: unsigned_word_eqI)

section \<open>Undefined behaviour as a missing value\<close>

text \<open>\<open>guard c\<close> is a step that is defined only when \<open>c\<close> holds; \<open>read_at\<close> reads
  an array inside its bounds, \<open>write_at\<close> writes a block at an offset inside them.\<close>

definition guard :: "bool \<Rightarrow> unit option" where
  "guard c = (if c then Some () else None)"

definition read_at :: "'a list \<Rightarrow> nat \<Rightarrow> 'a option" where
  "read_at xs i = (if i < length xs then Some (xs ! i) else None)"

definition write_at :: "'a list \<Rightarrow> nat \<Rightarrow> 'a list \<Rightarrow> 'a list option" where
  "write_at xs i ys =
    (if i + length ys \<le> length xs
     then Some (take i xs @ ys @ drop (i + length ys) xs) else None)"

named_theorems ub_simps
  \<open>evaluation of guarded steps\<close>

lemma guard_bind [ub_simps]:
  "(guard c \<bind> f) = Some r \<longleftrightarrow> c \<and> f () = Some r"
  by (simp add: guard_def)

lemma guard_True [simp]: "guard True = Some ()"
  by (simp add: guard_def)

lemma guard_False [simp]: "guard False = None"
  by (simp add: guard_def)

lemma read_at_Some [ub_simps]: "read_at xs i = Some x \<longleftrightarrow> i < length xs \<and> xs ! i = x"
  by (auto simp: read_at_def)

lemma read_at_in [simp]: "i < length xs \<Longrightarrow> read_at xs i = Some (xs ! i)"
  by (simp add: read_at_def)

lemma write_at_in: "i + length ys \<le> length xs
    \<Longrightarrow> write_at xs i ys = Some (take i xs @ ys @ drop (i + length ys) xs)"
  by (simp add: write_at_def)

lemma length_write_at: "write_at xs i ys = Some zs \<Longrightarrow> length zs = length xs"
  by (auto simp: write_at_def split: if_splits)

lemma write_at_iff [ub_simps]:
  "write_at xs i ys = Some zs \<longleftrightarrow>
    i + length ys \<le> length xs \<and> zs = take i xs @ ys @ drop (i + length ys) xs"
  by (auto simp: write_at_def)

lemma take_write_at:
  "write_at xs i ys = Some zs \<Longrightarrow> take (i + length ys) zs = take i xs @ ys"
  by (auto simp: write_at_def split: if_splits)

lemma drop_write_at:
  "write_at xs i ys = Some zs \<Longrightarrow> drop (i + length ys) zs = drop (i + length ys) xs"
  by (auto simp: write_at_def split: if_splits)

lemma read_at_drop:
  "drop i xs = y # ys \<Longrightarrow> read_at xs i = Some y"
  "drop i xs = y # z # zs \<Longrightarrow> read_at xs (i + 1) = Some z"
proof -
  have one: "read_at xs i = Some y \<and> drop (Suc i) xs = ys" if d: "drop i xs = y # ys" for i y ys
  proof -
    have "i < length xs" using d by (metis drop_eq_Nil leI list.distinct(1))
    then show ?thesis using Cons_nth_drop_Suc [of i xs] d by simp
  qed
  show "read_at xs i = Some y" if "drop i xs = y # ys" using one [OF that] by blast
  show "read_at xs (i + 1) = Some z" if "drop i xs = y # z # zs"
    using one [of "Suc i" z zs] one [OF that] by simp
qed

end
