(* ===== verification/MCL_Double.thy ===== *)
theory MCL_Double
  imports Complex_Main MCL_Prelude
begin

text \<open>
  The \<^verbatim>\<open>double\<close> arithmetic the growth of buffers uses: numbers are rationals, and the result of
  every operation is rounded to the nearest number of 53 significant bits, ties to even.
  Only numbers that are not negative and far from the limits of the exponent occur.
\<close>

section \<open>Rounding\<close>

fun bit_length :: "nat \<Rightarrow> nat" where
  "bit_length n = (if n = 0 then 0 else Suc (bit_length (n div 2)))"

declare bit_length.simps [simp del]

text \<open>The nearest integer, the even one of two.\<close>

definition round_even :: "rat \<Rightarrow> int" where
  "round_even y =
    (let n = \<lfloor>y\<rfloor>; d = y - of_int n
     in if d < 1 / 2 \<or> d = 1 / 2 \<and> even n then n else n + 1)"

text \<open>The exponent \<open>e\<close> for which the number is between \<open>2 ^ (e + 52)\<close> and \<open>2 ^ (e + 53)\<close>.\<close>

definition exponent_of :: "rat \<Rightarrow> int" where
  "exponent_of x =
    (case quotient_of x of (p, q) \<Rightarrow>
      let k = int (bit_length (nat p)) - int (bit_length (nat q))
      in if x < 2 powi k then k - 53 else k - 52)"

definition fl :: "rat \<Rightarrow> rat" where
  "fl x = (if x \<le> 0 then 0
    else let e = exponent_of x in of_int (round_even (x / 2 powi e)) * 2 powi e)"

text \<open>The conversion to \<^verbatim>\<open>mcl_size_t\<close> cuts the fraction off; it is undefined for a number the type
  does not hold.\<close>

definition size_of_double :: "rat \<Rightarrow> mcl_size_t option" where
  "size_of_double x = (if 0 \<le> x \<and> x < 2 ^ 64 then Some (word_of_int \<lfloor>x\<rfloor>) else None)"

section \<open>The error of rounding\<close>

lemma bit_length_bounds: "0 < n \<Longrightarrow> 2 ^ (bit_length n - 1) \<le> n \<and> n < 2 ^ bit_length n"
proof (induction n rule: bit_length.induct)
  case (1 n)
  show ?case
  proof (cases "n div 2 = 0")
    case True
    then have "n = 1" using "1.prems" by linarith
    then show ?thesis by (simp add: bit_length.simps)
  next
    case False
    then have b: "bit_length n = Suc (bit_length (n div 2))" "bit_length (n div 2) \<noteq> 0"
      using "1.prems" by (auto simp: bit_length.simps [of n] bit_length.simps [of "n div 2"])
    obtain m where m: "bit_length (n div 2) = Suc m" using b(2) not0_implies_Suc by blast
    have "2 ^ m \<le> n div 2 \<and> n div 2 < 2 ^ Suc m" using "1.IH" "1.prems" False m by simp
    then show ?thesis by (simp add: b(1) m) linarith
  qed
qed

lemma round_even_error: "\<bar>of_int (round_even y) - y\<bar> \<le> (1 / 2 :: rat)"
proof -
  obtain n :: rat where n: "n = of_int \<lfloor>y\<rfloor>" "n \<le> y" "y < n + 1"
    by (rule that [OF refl]) linarith+
  have "of_int (round_even y) = (if y - n < 1 / 2 \<or> y - n = 1 / 2 \<and> even \<lfloor>y\<rfloor> then n else n + 1)"
    by (simp add: round_even_def Let_def n(1))
  then show ?thesis using n(2,3) by (auto simp: abs_if)
qed

lemma exponent_of_lower: "0 < x \<Longrightarrow> 2 powi (exponent_of x + 52) \<le> x"
proof -
  assume x: "0 < x"
  obtain p q where pq: "quotient_of x = (p, q)" by (cases "quotient_of x")
  have q: "0 < q" and eq: "x = of_int p / of_int q"
    using quotient_of_denom_pos [OF pq] quotient_of_div [OF pq] by auto
  have p: "0 < p" using x q unfolding eq by (simp add: zero_less_divide_iff)
  let ?k = "int (bit_length (nat p)) - int (bit_length (nat q))"
  show ?thesis
  proof (cases "x < 2 powi ?k")
    case False
    then show ?thesis by (simp add: exponent_of_def pq Let_def)
  next
    case True
    obtain b where b: "bit_length (nat p) = Suc b"
      using p by (cases "bit_length (nat p)") (simp_all add: bit_length.simps [of "nat p"])
    have "(2 :: nat) ^ b \<le> nat p" "nat q < 2 ^ bit_length (nat q)"
      using bit_length_bounds [of "nat p"] bit_length_bounds [of "nat q"] p q b by auto
    then have "(2 :: int) ^ b \<le> p" "q < 2 ^ bit_length (nat q)"
      using p q by (simp_all add: le_nat_iff nat_less_iff)
    then have "(2 :: rat) ^ b \<le> of_int p" "of_int q \<le> (2 :: rat) ^ bit_length (nat q)"
      by (metis of_int_le_iff of_int_numeral of_int_power, metis less_imp_le of_int_le_iff of_int_numeral of_int_power)
    then have "2 ^ b / 2 ^ bit_length (nat q) \<le> x"
      unfolding eq using q p by (intro frac_le) simp_all
    moreover have "(2 :: rat) ^ b / 2 ^ bit_length (nat q) = 2 powi (?k - 1)"
      unfolding b by (simp add: power_int_diff)
    ultimately show ?thesis using True by (simp add: exponent_of_def pq Let_def)
  qed
qed

lemma fl_error: "0 \<le> x \<Longrightarrow> \<bar>fl x - x\<bar> \<le> x / 2 ^ 53"
proof (cases "x = 0")
  case False
  assume "0 \<le> x"
  then have x: "0 < x" using False by simp
  let ?u = "2 powi exponent_of x :: rat" and ?y = "x / 2 powi exponent_of x"
  have u: "0 < ?u" by simp
  have "2 ^ 52 * ?u \<le> x"
    using exponent_of_lower [OF x] by (simp add: power_int_add)
  then have half: "?u / 2 \<le> x / 2 ^ 53" by simp
  have "fl x - x = (of_int (round_even ?y) - ?y) * ?u"
    using x u by (simp add: fl_def Let_def field_simps)
  then have "\<bar>fl x - x\<bar> = \<bar>of_int (round_even ?y) - ?y\<bar> * ?u"
    using u by (simp add: abs_mult)
  also have "\<dots> \<le> 1 / 2 * ?u"
    using round_even_error [of ?y] u by (intro mult_right_mono) simp_all
  finally show ?thesis using half by simp
qed (simp add: fl_def)

text \<open>The bounds the growth of buffers needs.\<close>

lemma fl_lower: "0 \<le> x \<Longrightarrow> x * (1 - 1 / 2 ^ 53) \<le> fl x"
proof -
  assume "0 \<le> x"
  then have "\<bar>fl x - x\<bar> \<le> x / 2 ^ 53" by (rule fl_error)
  then have "fl x - x \<le> x / 2 ^ 53" "x - fl x \<le> x / 2 ^ 53" by linarith+
  then show ?thesis by (simp add: field_simps)
qed

lemma fl_upper: "0 \<le> x \<Longrightarrow> fl x \<le> x * (1 + 1 / 2 ^ 53)"
proof -
  assume "0 \<le> x"
  then have "\<bar>fl x - x\<bar> \<le> x / 2 ^ 53" by (rule fl_error)
  then have "fl x - x \<le> x / 2 ^ 53" "x - fl x \<le> x / 2 ^ 53" by linarith+
  then show ?thesis by (simp add: field_simps)
qed

lemma fl_nonneg: "0 \<le> x \<Longrightarrow> 0 \<le> fl x"
proof -
  assume x: "0 \<le> x"
  then have "0 \<le> x * (1 - 1 / 2 ^ 53)" by simp
  then show ?thesis using fl_lower [OF x] by linarith
qed

end
