(* ===== verification/MCL_Memory.thy ===== *)
theory MCL_Memory
  imports MCL_Prelude
begin

text \<open>
  \<^verbatim>\<open>memory.c\<close>.  The world a computation runs in holds what the system decides and
  what the library leaves behind: whether each of the coming allocations succeeds, the
  number of blocks that are allocated and not yet freed, the address the next block gets
  and the contents of memory nobody has written yet.
\<close>

record world =
  upcoming :: "bool list"
  live :: int
  fresh :: addr
  junk :: "nat \<Rightarrow> char"

text \<open>\<^verbatim>\<open>malloc\<close>, \<^verbatim>\<open>calloc\<close> and \<^verbatim>\<open>free\<close> of the C library: a request is granted or refused
  as the world says; when the world says nothing more, it is granted.\<close>

definition memory_malloc :: "mcl_size_t \<Rightarrow> world \<Rightarrow> addr option \<times> world" where
  "memory_malloc bytes w =
    (if upcoming w \<noteq> [] \<and> \<not> hd (upcoming w)
     then (None, w\<lparr>upcoming := tl (upcoming w)\<rparr>)
     else (Some (fresh w),
           w\<lparr>upcoming := tl (upcoming w), live := live w + 1, fresh := fresh w + 1\<rparr>))"

definition memory_calloc :: "mcl_size_t \<Rightarrow> mcl_size_t \<Rightarrow> world \<Rightarrow> addr option \<times> world" where
  "memory_calloc count bytes w = memory_malloc (count * bytes) w"

definition memory_free :: "world \<Rightarrow> world" where
  "memory_free w = w\<lparr>live := live w - 1\<rparr>"

text \<open>\<^verbatim>\<open>realloc\<close> of a block that is allocated: the block moves, or the request is refused
  and the block stays.\<close>

definition memory_realloc :: "addr \<Rightarrow> mcl_size_t \<Rightarrow> world \<Rightarrow> addr option \<times> world" where
  "memory_realloc p bytes w =
    (if upcoming w \<noteq> [] \<and> \<not> hd (upcoming w)
     then (None, w\<lparr>upcoming := tl (upcoming w)\<rparr>)
     else (Some (fresh w), w\<lparr>upcoming := tl (upcoming w), fresh := fresh w + 1\<rparr>))"

definition memory_allocate :: "mcl_size_t \<Rightarrow> world \<Rightarrow> addr option \<times> world" where
  "memory_allocate bytes w =
    (if bytes = 0 then (None, w) else memory_malloc bytes w)"

definition memory_allocate_with_zero ::
    "mcl_size_t \<Rightarrow> mcl_size_t \<Rightarrow> world \<Rightarrow> addr option \<times> world" where
  "memory_allocate_with_zero count bytes w =
    (if count = 0 then (None, w) else if bytes = 0 then (None, w)
     else memory_calloc count bytes w)"

definition memory_release :: "addr option \<Rightarrow> world \<Rightarrow> world" where
  "memory_release p w = (case p of None \<Rightarrow> w | Some a \<Rightarrow> memory_free w)"

definition memory_reallocate :: "addr option \<Rightarrow> mcl_size_t \<Rightarrow> world \<Rightarrow> addr option \<times> world" where
  "memory_reallocate p bytes w =
    (if bytes = 0 then (None, w)
     else (case (case p of None \<Rightarrow> memory_malloc bytes w
                 | Some a \<Rightarrow> memory_realloc a bytes w) of
        (Some temp, w1) \<Rightarrow> (Some temp, w1)
      | (None, w1) \<Rightarrow> (None, memory_release p w1)))"

text \<open>The contents of a block of \<open>n\<close> characters nobody has written yet, and of one that
  \<^verbatim>\<open>calloc\<close> cleared.\<close>

definition unwritten :: "world \<Rightarrow> nat \<Rightarrow> char list" where
  "unwritten w n = map (junk w) [0..<n]"

definition zeroed :: "nat \<Rightarrow> char list" where
  "zeroed n = replicate n (CHR 0x00)"

lemma length_unwritten [simp]: "length (unwritten w n) = n"
  by (simp add: unwritten_def)

lemma length_zeroed [simp]: "length (zeroed n) = n"
  by (simp add: zeroed_def)

section \<open>What allocation does to the world\<close>

lemma memory_malloc_Some:
  "memory_malloc n w = (Some a, w') \<Longrightarrow>
    a = fresh w \<and> live w' = live w + 1 \<and> fresh w' = fresh w + 1 \<and> junk w' = junk w"
  by (auto simp: memory_malloc_def split: if_splits)

lemma memory_malloc_None:
  "memory_malloc n w = (None, w') \<Longrightarrow>
    live w' = live w \<and> fresh w' = fresh w \<and> junk w' = junk w"
  by (auto simp: memory_malloc_def split: if_splits)

lemma memory_allocate_Some:
  "memory_allocate n w = (Some a, w') \<Longrightarrow>
    n \<noteq> 0 \<and> a = fresh w \<and> live w' = live w + 1 \<and> fresh w' = fresh w + 1 \<and> junk w' = junk w"
  by (auto simp: memory_allocate_def dest: memory_malloc_Some split: if_splits)

lemma memory_allocate_None:
  "memory_allocate n w = (None, w') \<Longrightarrow>
    live w' = live w \<and> fresh w' = fresh w \<and> junk w' = junk w"
  by (auto simp: memory_allocate_def dest: memory_malloc_None split: if_splits)

lemma memory_allocate_unbounded:
  "upcoming w = [] \<Longrightarrow> n \<noteq> 0 \<Longrightarrow>
    memory_allocate n w = (Some (fresh w), w\<lparr>live := live w + 1, fresh := fresh w + 1\<rparr>)"
  by (simp add: memory_allocate_def memory_malloc_def)

lemma memory_allocate_with_zero_Some:
  "memory_allocate_with_zero c n w = (Some a, w') \<Longrightarrow>
    c \<noteq> 0 \<and> n \<noteq> 0 \<and> a = fresh w \<and> live w' = live w + 1 \<and> fresh w' = fresh w + 1 \<and> junk w' = junk w"
  by (auto simp: memory_allocate_with_zero_def memory_calloc_def
      dest: memory_malloc_Some split: if_splits)

lemma memory_allocate_with_zero_None:
  "memory_allocate_with_zero c n w = (None, w') \<Longrightarrow>
    live w' = live w \<and> fresh w' = fresh w \<and> junk w' = junk w"
  by (auto simp: memory_allocate_with_zero_def memory_calloc_def
      dest: memory_malloc_None split: if_splits)

lemma live_memory_free [simp]: "live (memory_free w) = live w - 1"
  by (simp add: memory_free_def)

lemma fresh_memory_free [simp]: "fresh (memory_free w) = fresh w"
  by (simp add: memory_free_def)

lemma junk_memory_free [simp]: "junk (memory_free w) = junk w"
  by (simp add: memory_free_def)

lemma upcoming_memory_free [simp]: "upcoming (memory_free w) = upcoming w"
  by (simp add: memory_free_def)

lemma memory_release_Some [simp]: "memory_release (Some a) w = memory_free w"
  by (simp add: memory_release_def)

lemma memory_release_None [simp]: "memory_release None w = w"
  by (simp add: memory_release_def)

lemmas allocation_dests =
  memory_allocate_Some memory_allocate_None
  memory_allocate_with_zero_Some memory_allocate_with_zero_None

text \<open>A refused reallocation frees the block it was given: nothing stays allocated.\<close>

lemma memory_reallocate_refused:
  "bytes \<noteq> 0 \<Longrightarrow> memory_reallocate (Some a) bytes w = (None, w') \<Longrightarrow> live w' = live w - 1"
  by (auto simp: memory_reallocate_def memory_realloc_def split: if_splits)

lemma memory_reallocate_granted:
  "memory_reallocate (Some a) bytes w = (Some b, w') \<Longrightarrow> live w' = live w"
  by (auto simp: memory_reallocate_def memory_realloc_def split: if_splits)

end
