(* ===== verification/MCL_List.thy ===== *)
theory MCL_List
  imports MCL_Memory
begin

text \<open>
  \<^verbatim>\<open>list.c\<close>: the doubly linked list with a cursor that holds every collection of the
  library.  The nodes live in an explicit store of addresses, because the operations
  relink them in place and the callers keep pointers to nodes; the header is the structure
  the list's owner holds.  The second half states what a list means (a list of entries
  split at the cursor) and that every operation implements its abstract counterpart.
\<close>

section \<open>Nodes, headers and the store\<close>

record 'd list_node =
  node_data :: "'d option"
  node_prev :: "addr option"
  node_next :: "addr option"

type_synonym 'd list_heap = "addr \<Rightarrow> 'd list_node option"

record list_t =
  list_head :: "addr option"
  list_last :: "addr option"
  list_current :: "addr option"
  list_count :: mcl_size_t

definition sizeof_list_node :: mcl_size_t where "sizeof_list_node = 24"
definition sizeof_list :: mcl_size_t where "sizeof_list = 32"

definition set_next :: "'d list_heap \<Rightarrow> addr \<Rightarrow> addr option \<Rightarrow> 'd list_heap option" where
  "set_next h a p = (case h a of None \<Rightarrow> None | Some n \<Rightarrow> Some (h(a \<mapsto> n\<lparr>node_next := p\<rparr>)))"

definition set_prev :: "'d list_heap \<Rightarrow> addr \<Rightarrow> addr option \<Rightarrow> 'd list_heap option" where
  "set_prev h a p = (case h a of None \<Rightarrow> None | Some n \<Rightarrow> Some (h(a \<mapsto> n\<lparr>node_prev := p\<rparr>)))"

section \<open>The operations\<close>

definition list_initialize :: "world \<Rightarrow> E_MCL_ERROR_CODE \<times> list_t option \<times> world" where
  "list_initialize w =
    (case memory_allocate sizeof_list w of
      (None, w1) \<Rightarrow> (MCL_OUT_OF_MEMORY, None, w1)
    | (Some a, w1) \<Rightarrow>
        (MCL_OK,
         Some \<lparr>list_head = None, list_last = None, list_current = None, list_count = 0\<rparr>, w1))"

definition list_add ::
    "list_t \<Rightarrow> 'd option \<Rightarrow> 'd list_heap \<Rightarrow> world
      \<Rightarrow> (E_MCL_ERROR_CODE \<times> list_t \<times> 'd list_heap \<times> world) option" where
  "list_add l d h w =
    (if \<not> list_count l < MCL_SIZE_MAX then Some (MCL_LIMIT_EXCEEDED, l, h, w)
     else case memory_allocate sizeof_list_node w of
        (None, w1) \<Rightarrow> Some (MCL_OUT_OF_MEMORY, l, h, w1)
      | (Some new_node, w1) \<Rightarrow>
          let h1 = h(new_node \<mapsto>
                \<lparr>node_data = d, node_prev = list_last l, node_next = None\<rparr>)
          in if list_count l = 0
             then Some (MCL_OK,
                l\<lparr>list_head := Some new_node, list_last := Some new_node,
                   list_current := Some new_node, list_count := list_count l + 1\<rparr>, h1, w1)
             else do {
                last \<leftarrow> list_last l;
                h2 \<leftarrow> set_next h1 last (Some new_node);
                Some (MCL_OK,
                  l\<lparr>list_last := Some new_node, list_count := list_count l + 1\<rparr>, h2, w1)
             })"

text \<open>The four ways \<^verbatim>\<open>list_remove\<close> unhooks a node from its neighbours.\<close>

definition unhook :: "addr \<Rightarrow> 'd list_heap \<Rightarrow> 'd list_heap option" where
  "unhook node h = do {
    n \<leftarrow> h node;
    (case node_prev n of
      None \<Rightarrow>
        (case node_next n of
          None \<Rightarrow> Some h
        | Some next \<Rightarrow> set_prev h next None)
    | Some prev \<Rightarrow>
        (case node_next n of
          None \<Rightarrow> set_next h prev None
        | Some next \<Rightarrow> do {
            h1 \<leftarrow> set_next h prev (Some next);
            set_prev h1 next (Some prev)
          }))
  }"

definition list_remove ::
    "list_t \<Rightarrow> addr \<Rightarrow> 'd list_heap \<Rightarrow> world
      \<Rightarrow> (E_MCL_ERROR_CODE \<times> list_t \<times> 'd list_heap \<times> world) option" where
  "list_remove l node h w =
    (if \<not> list_count l > 0 then Some (MCL_ARRAY_IS_EMPTY, l, h, w)
     else do {
       h1 \<leftarrow> unhook node h;
       n \<leftarrow> h1 node;
       let l1 = (if list_head l = Some node then l\<lparr>list_head := node_next n\<rparr> else l);
       let l2 = (if list_last l1 = Some node then l1\<lparr>list_last := node_prev n\<rparr> else l1);
       let l3 = (if list_current l2 = Some node then l2\<lparr>list_current := node_next n\<rparr> else l2);
       let l4 = l3\<lparr>list_count := list_count l3 - 1\<rparr>;
       Some (MCL_OK, l4, h1(node := None), memory_free w)
     })"

definition list_remove_with_content ::
    "list_t \<Rightarrow> addr \<Rightarrow> ('d \<Rightarrow> world \<Rightarrow> world) \<Rightarrow> 'd list_heap \<Rightarrow> world
      \<Rightarrow> (E_MCL_ERROR_CODE \<times> list_t \<times> 'd list_heap \<times> world) option" where
  "list_remove_with_content l node callback h w = do {
    n \<leftarrow> h node;
    let data = node_data n;
    (result, l1, h1, w1) \<leftarrow> list_remove l node h w;
    Some (result, l1, h1,
      if result = MCL_OK
      then (case data of None \<Rightarrow> w1 | Some d \<Rightarrow> callback d w1) else w1)
  }"

definition list_next :: "list_t \<Rightarrow> 'd list_heap \<Rightarrow> (addr option \<times> list_t) option" where
  "list_next l h =
    (case list_current l of
      None \<Rightarrow> Some (None, l\<lparr>list_current := list_head l\<rparr>)
    | Some a \<Rightarrow> do {
        n \<leftarrow> h a;
        Some (Some a, l\<lparr>list_current := node_next n\<rparr>)
      })"

definition list_reset :: "list_t option \<Rightarrow> list_t option" where
  "list_reset l = (case l of None \<Rightarrow> None | Some l1 \<Rightarrow> Some (l1\<lparr>list_current := list_head l1\<rparr>))"

text \<open>The search of \<^verbatim>\<open>list_exist\<close>; \<open>compare_function\<close> is the caller's callback.\<close>

partial_function (option) search_nodes ::
    "('d option \<Rightarrow> 'k \<Rightarrow> E_MCL_ERROR_CODE) \<Rightarrow> 'k \<Rightarrow> 'd list_heap \<Rightarrow> addr option
      \<Rightarrow> (E_MCL_ERROR_CODE \<times> 'd option) option" where
  "search_nodes compare_function item h current_node =
    (case current_node of
      None \<Rightarrow> Some (MCL_FAIL, None)
    | Some a \<Rightarrow> do {
        n \<leftarrow> h a;
        if compare_function (node_data n) item = MCL_OK
        then Some (MCL_OK, node_data n)
        else search_nodes compare_function item h (node_next n)
      })"

definition list_exist ::
    "list_t \<Rightarrow> 'k \<Rightarrow> ('d option \<Rightarrow> 'k \<Rightarrow> E_MCL_ERROR_CODE) \<Rightarrow> 'd list_heap
      \<Rightarrow> (E_MCL_ERROR_CODE \<times> 'd option) option" where
  "list_exist l item compare_function h = search_nodes compare_function item h (list_head l)"

text \<open>\<^verbatim>\<open>list_destroy_with_content\<close>: the callback destroys the data of each node (it may be
  absent), then the node is freed, then the header.\<close>

definition destroy_data ::
    "('d \<Rightarrow> world \<Rightarrow> world) option \<Rightarrow> 'd option \<Rightarrow> world \<Rightarrow> world" where
  "destroy_data callback d w =
    (case callback of None \<Rightarrow> w | Some f \<Rightarrow> (case d of None \<Rightarrow> w | Some x \<Rightarrow> f x w))"

partial_function (option) destroy_nodes ::
    "('d \<Rightarrow> world \<Rightarrow> world) option \<Rightarrow> addr option \<Rightarrow> 'd list_heap \<Rightarrow> world
      \<Rightarrow> ('d list_heap \<times> world) option" where
  "destroy_nodes callback current_node h w =
    (case current_node of
      None \<Rightarrow> Some (h, w)
    | Some a \<Rightarrow> do {
        n \<leftarrow> h a;
        destroy_nodes callback (node_next n) (h(a := None))
          (memory_free (destroy_data callback (node_data n) w))
      })"

definition list_destroy_with_content ::
    "list_t option \<Rightarrow> ('d \<Rightarrow> world \<Rightarrow> world) option \<Rightarrow> 'd list_heap \<Rightarrow> world
      \<Rightarrow> (list_t option \<times> 'd list_heap \<times> world) option" where
  "list_destroy_with_content l callback h w =
    (case l of
      None \<Rightarrow> Some (None, h, w)
    | Some l1 \<Rightarrow> do {
        (h1, w1) \<leftarrow> destroy_nodes callback (list_head l1) h w;
        Some (None, h1, memory_free w1)
      })"

definition list_destroy ::
    "list_t option \<Rightarrow> 'd list_heap \<Rightarrow> world
      \<Rightarrow> (list_t option \<times> 'd list_heap \<times> world) option" where
  "list_destroy l h w = list_destroy_with_content l None h w"

section \<open>The exported functions\<close>

text \<open>The functions of \<^verbatim>\<open>mcl_list.h\<close> check their arguments for \<^verbatim>\<open>NULL\<close> and call the ones
  above.\<close>

definition mcl_list_initialize ::
    "bool \<Rightarrow> world \<Rightarrow> E_MCL_ERROR_CODE \<times> list_t option \<times> world" where
  "mcl_list_initialize list_given w =
    (if \<not> list_given then (MCL_TRIGGERED_WITH_NULL, None, w) else list_initialize w)"

definition mcl_list_add ::
    "list_t option \<Rightarrow> 'd option \<Rightarrow> 'd list_heap \<Rightarrow> world
      \<Rightarrow> (E_MCL_ERROR_CODE \<times> list_t option \<times> 'd list_heap \<times> world) option" where
  "mcl_list_add l d h w =
    (case l of
      None \<Rightarrow> Some (MCL_TRIGGERED_WITH_NULL, l, h, w)
    | Some l1 \<Rightarrow>
        (case d of
          None \<Rightarrow> Some (MCL_TRIGGERED_WITH_NULL, l, h, w)
        | Some x \<Rightarrow> do {
            (code, l2, h1, w1) \<leftarrow> list_add l1 (Some x) h w;
            Some (code, Some l2, h1, w1)
          }))"

definition mcl_list_next ::
    "list_t option \<Rightarrow> bool \<Rightarrow> 'd list_heap
      \<Rightarrow> (E_MCL_ERROR_CODE \<times> addr option \<times> list_t option) option" where
  "mcl_list_next l node_given h =
    (case l of
      None \<Rightarrow> Some (MCL_TRIGGERED_WITH_NULL, None, l)
    | Some l1 \<Rightarrow>
        (if \<not> node_given then Some (MCL_TRIGGERED_WITH_NULL, None, l)
         else do {
           (node, l2) \<leftarrow> list_next l1 h;
           Some (if node \<noteq> None then MCL_OK else MCL_FAIL, node, Some l2)
         }))"

definition mcl_list_remove ::
    "list_t option \<Rightarrow> addr option \<Rightarrow> 'd list_heap \<Rightarrow> world
      \<Rightarrow> (E_MCL_ERROR_CODE \<times> list_t option \<times> 'd list_heap \<times> world) option" where
  "mcl_list_remove l node h w =
    (case l of
      None \<Rightarrow> Some (MCL_TRIGGERED_WITH_NULL, l, h, w)
    | Some l1 \<Rightarrow>
        (case node of
          None \<Rightarrow> Some (MCL_TRIGGERED_WITH_NULL, l, h, w)
        | Some a \<Rightarrow> do {
            (code, l2, h1, w1) \<leftarrow> list_remove l1 a h w;
            Some (code, Some l2, h1, w1)
          }))"

definition mcl_list_remove_with_content ::
    "list_t option \<Rightarrow> addr option \<Rightarrow> ('d \<Rightarrow> world \<Rightarrow> world) option \<Rightarrow> 'd list_heap \<Rightarrow> world
      \<Rightarrow> (E_MCL_ERROR_CODE \<times> list_t option \<times> 'd list_heap \<times> world) option" where
  "mcl_list_remove_with_content l node callback h w =
    (case l of
      None \<Rightarrow> Some (MCL_TRIGGERED_WITH_NULL, l, h, w)
    | Some l1 \<Rightarrow>
        (case node of
          None \<Rightarrow> Some (MCL_TRIGGERED_WITH_NULL, l, h, w)
        | Some a \<Rightarrow>
            (case callback of
              None \<Rightarrow> Some (MCL_TRIGGERED_WITH_NULL, l, h, w)
            | Some f \<Rightarrow> do {
                (code, l2, h1, w1) \<leftarrow> list_remove_with_content l1 a f h w;
                Some (code, Some l2, h1, w1)
              })))"

definition mcl_list_exist ::
    "list_t option \<Rightarrow> 'k option \<Rightarrow> ('d option \<Rightarrow> 'k \<Rightarrow> E_MCL_ERROR_CODE) option \<Rightarrow> bool
      \<Rightarrow> 'd list_heap \<Rightarrow> (E_MCL_ERROR_CODE \<times> 'd option) option" where
  "mcl_list_exist l item_to_find compare_function item_given h =
    (case l of
      None \<Rightarrow> Some (MCL_TRIGGERED_WITH_NULL, None)
    | Some l1 \<Rightarrow>
        (case item_to_find of
          None \<Rightarrow> Some (MCL_TRIGGERED_WITH_NULL, None)
        | Some k \<Rightarrow>
            (case compare_function of
              None \<Rightarrow> Some (MCL_TRIGGERED_WITH_NULL, None)
            | Some f \<Rightarrow>
                (if \<not> item_given then Some (MCL_TRIGGERED_WITH_NULL, None)
                 else list_exist l1 k f h))))"

definition mcl_list_reset :: "list_t option \<Rightarrow> list_t option" where
  "mcl_list_reset l = list_reset l"

definition mcl_list_destroy ::
    "list_t option \<Rightarrow> 'd list_heap \<Rightarrow> world
      \<Rightarrow> (list_t option \<times> 'd list_heap \<times> world) option" where
  "mcl_list_destroy l h w = list_destroy l h w"

definition mcl_list_destroy_with_content ::
    "list_t option \<Rightarrow> ('d \<Rightarrow> world \<Rightarrow> world) option \<Rightarrow> 'd list_heap \<Rightarrow> world
      \<Rightarrow> (list_t option \<times> 'd list_heap \<times> world) option" where
  "mcl_list_destroy_with_content l callback h w = list_destroy_with_content l callback h w"

section \<open>What a list means\<close>

text \<open>An entry is the address of a node with the data it holds; a list is the entries
  before the cursor and the entries from the cursor on.  The cursor is \<^verbatim>\<open>NULL\<close> when none
  are left.\<close>

type_synonym 'd entry = "addr \<times> 'd option"

definition first_of :: "'d entry list \<Rightarrow> addr option \<Rightarrow> addr option" where
  "first_of es end = (case es of [] \<Rightarrow> end | e # _ \<Rightarrow> Some (fst e))"

definition last_of :: "addr option \<Rightarrow> 'd entry list \<Rightarrow> addr option" where
  "last_of start es = (if es = [] then start else Some (fst (last es)))"

fun linked :: "'d list_heap \<Rightarrow> addr option \<Rightarrow> 'd entry list \<Rightarrow> addr option \<Rightarrow> bool" where
  "linked h before [] after \<longleftrightarrow> True"
| "linked h before (e # es) after \<longleftrightarrow>
    h (fst e) = Some \<lparr>node_data = snd e, node_prev = before, node_next = first_of es after\<rparr>
    \<and> linked h (Some (fst e)) es after"

definition represents :: "list_t \<Rightarrow> 'd list_heap \<Rightarrow> 'd entry list \<Rightarrow> 'd entry list \<Rightarrow> bool" where
  "represents l h visited ahead \<longleftrightarrow>
    linked h None (visited @ ahead) None
    \<and> distinct (map fst (visited @ ahead))
    \<and> length (visited @ ahead) < 2 ^ 64
    \<and> l = \<lparr>list_head = first_of (visited @ ahead) None,
           list_last = last_of None (visited @ ahead),
           list_current = first_of ahead None,
           list_count = size_of_nat (length (visited @ ahead))\<rparr>"

text \<open>The next block the allocator hands out is none of the nodes in use.\<close>

definition heap_fresh :: "'d list_heap \<Rightarrow> world \<Rightarrow> bool" where
  "heap_fresh h w \<longleftrightarrow> (\<forall>a. h a \<noteq> None \<longrightarrow> a < fresh w)"

lemma first_of_simps [simp]:
  "first_of [] p = p" "first_of (e # es) p = Some (fst e)"
  "first_of (es @ fs) p = first_of es (first_of fs p)"
  by (simp_all add: first_of_def split: list.split)

lemma last_of_simps [simp]:
  "last_of p [] = p" "last_of p (es @ [e]) = Some (fst e)"
  "last_of p (e # es) = last_of (Some (fst e)) es"
  "last_of p (es @ fs) = last_of (last_of p es) fs"
  by (auto simp: last_of_def)

lemma first_of_in: "es \<noteq> [] \<Longrightarrow> first_of es p \<in> Some ` fst ` set es"
  by (cases es) auto

lemma last_of_in: "es \<noteq> [] \<Longrightarrow> last_of p es \<in> Some ` fst ` set es"
  by (auto simp: last_of_def)

lemma linked_append [simp]:
  "linked h p (es @ fs) q \<longleftrightarrow> linked h p es (first_of fs q) \<and> linked h (last_of p es) fs q"
  by (induction es arbitrary: p) auto

lemma linked_frame:
  "a \<notin> fst ` set es \<Longrightarrow> linked (h(a := x)) p es q \<longleftrightarrow> linked h p es q"
  by (induction es arbitrary: p) auto

lemma linked_in_heap: "linked h p es q \<Longrightarrow> e \<in> set es \<Longrightarrow> h (fst e) \<noteq> None"
  by (induction es arbitrary: p) auto

lemma linked_not_fresh:
  "linked h p es q \<Longrightarrow> heap_fresh h w \<Longrightarrow> fresh w \<notin> fst ` set es"
  by (force simp: heap_fresh_def dest: linked_in_heap)

text \<open>Relinking an end of a segment.\<close>

lemma linked_set_next:
  "linked h p (es @ [(b, d)]) q \<Longrightarrow> b \<notin> fst ` set es \<Longrightarrow>
    \<exists>h'. set_next h b r = Some h' \<and> linked h' p (es @ [(b, d)]) r
      \<and> (\<forall>fs s t. b \<notin> fst ` set fs \<longrightarrow> linked h' s fs t = linked h s fs t)
      \<and> (\<forall>a. a \<noteq> b \<longrightarrow> h' a = h a) \<and> (\<forall>a. h' a = None \<longleftrightarrow> h a = None)"
  by (auto simp: set_next_def linked_frame)

lemma linked_set_prev:
  "linked h p ((b, d) # es) q \<Longrightarrow> b \<notin> fst ` set es \<Longrightarrow>
    \<exists>h'. set_prev h b r = Some h' \<and> linked h' r ((b, d) # es) q
      \<and> (\<forall>fs s t. b \<notin> fst ` set fs \<longrightarrow> linked h' s fs t = linked h s fs t)
      \<and> (\<forall>a. a \<noteq> b \<longrightarrow> h' a = h a) \<and> (\<forall>a. h' a = None \<longleftrightarrow> h a = None)"
  by (auto simp: set_prev_def linked_frame)

lemma representsI:
  assumes "linked h None (visited @ ahead) None" "distinct (map fst (visited @ ahead))"
    and "length (visited @ ahead) < 2 ^ 64"
    and "list_head l = first_of (visited @ ahead) None"
    and "list_last l = last_of None (visited @ ahead)"
    and "list_current l = first_of ahead None"
    and "list_count l = size_of_nat (length (visited @ ahead))"
  shows "represents l h visited ahead"
  unfolding represents_def using assms by (cases l) simp

lemma representsD:
  assumes "represents l h visited ahead"
  shows "linked h None (visited @ ahead) None" "distinct (map fst (visited @ ahead))"
    and "length (visited @ ahead) < 2 ^ 64"
    and "list_head l = first_of (visited @ ahead) None"
    and "list_last l = last_of None (visited @ ahead)"
    and "list_current l = first_of ahead None"
    and "list_count l = size_of_nat (length (visited @ ahead))"
  using assms unfolding represents_def by simp_all

lemma represents_empty:
  "represents \<lparr>list_head = None, list_last = None, list_current = None, list_count = 0\<rparr> h [] []"
  by (simp add: represents_def)

lemma represents_count:
  "represents l h visited ahead \<Longrightarrow> unat (list_count l) = length visited + length ahead"
  unfolding represents_def length_append [symmetric]
  by (metis list_t.select_convs(4) unat_size_of_nat)

lemma represents_count_zero:
  "represents l h visited ahead \<Longrightarrow> list_count l = 0 \<longleftrightarrow> visited @ ahead = []"
  by (auto simp: unat_eq_zero [symmetric] represents_count)

section \<open>Adding\<close>

lemma list_add_granted:
  assumes rep: "represents l h visited ahead" and fr: "heap_fresh h w"
    and room: "length (visited @ ahead) < 2 ^ 64 - 1"
    and granted: "memory_allocate sizeof_list_node w = (Some a, w1)"
  obtains l' h' where "list_add l d h w = Some (MCL_OK, l', h', w1)"
    and "if visited \<noteq> [] \<and> ahead = [] then represents l' h' (visited @ [(a, d)]) []
         else represents l' h' visited (ahead @ [(a, d)])"
    and "heap_fresh h' w1"
proof -
  let ?es = "visited @ ahead"
  have a: "a = fresh w" "fresh w1 = fresh w + 1"
    using memory_allocate_Some [OF granted] by auto
  have new: "a \<notin> fst ` set ?es"
    using linked_not_fresh [of h None ?es None w] rep fr a by (simp add: represents_def)
  have below: "list_count l < MCL_SIZE_MAX"
    using room represents_count [OF rep]
    by (simp add: size_less_iff unat_MCL_SIZE_MAX)
  have suc: "list_count l + 1 = size_of_nat (Suc (length ?es))"
    using rep by (simp add: represents_def)
  let ?h1 = "h(a \<mapsto> \<lparr>node_data = d, node_prev = list_last l, node_next = None\<rparr>)"
  have fresh1: "heap_fresh ?h1 w1"
    using fr a by (auto simp: heap_fresh_def)
  show thesis
  proof (cases "?es = []")
    case True
    let ?l = "l\<lparr>list_head := Some a, list_last := Some a,
      list_current := Some a, list_count := list_count l + 1\<rparr>"
    have "list_add l d h w = Some (MCL_OK, ?l, ?h1, w1)"
      using below granted represents_count_zero [OF rep] True
      by (simp add: list_add_def Let_def)
    moreover have "represents ?l ?h1 [] [(a, d)]"
      using rep True by (auto simp: represents_def)
    ultimately show thesis using True fresh1 by (intro that) auto
  next
    case False
    then obtain es b e where es: "?es = es @ [(b, e)]"
      by (metis rev_exhaust surj_pair)
    have l1: "linked ?h1 None (es @ [(b, e)]) None"
      using rep es new by (simp add: represents_def linked_frame)
    have b: "b \<notin> fst ` set es" "b \<noteq> a" "list_last l = Some b"
      using rep es new by (auto simp: represents_def)
    obtain h2 where h2: "set_next ?h1 b (Some a) = Some h2"
      "linked h2 None (es @ [(b, e)]) (Some a)" "h2 a = ?h1 a"
      "\<forall>x. h2 x = None \<longleftrightarrow> ?h1 x = None"
      using linked_set_next [OF l1 b(1), of "Some a"] b(2) by metis
    let ?l = "l\<lparr>list_last := Some a, list_count := list_count l + 1\<rparr>"
    have add: "list_add l d h w = Some (MCL_OK, ?l, h2, w1)"
      using below granted represents_count_zero [OF rep] False b(3) h2(1)
      by (auto simp: list_add_def Let_def)
    have all: "linked h2 None (?es @ [(a, d)]) None"
      using h2(2,3) es b(3) by simp
    have dist: "distinct (map fst (?es @ [(a, d)]))"
      using rep new by (auto simp: represents_def)
    have fr2: "heap_fresh h2 w1"
      using fresh1 h2(4) by (auto simp: heap_fresh_def)
    have len: "length (?es @ [(a, d)]) < 2 ^ 64" using room by simp
    have last: "last_of None (?es @ [(a, d)]) = Some a" by simp
    have head: "first_of (?es @ [(a, d)]) None = list_head l"
      using False representsD(4) [OF rep] by (cases ?es) auto
    have current: "list_current l = first_of ahead None"
      using rep by (rule representsD)
    have count: "list_count l + 1 = size_of_nat (length (?es @ [(a, d)]))"
      using suc by simp
    have rep': "represents ?l h2 vs as"
      if "vs @ as = ?es @ [(a, d)]" "first_of ahead None = first_of as None" for vs as
      unfolding represents_def that(1)
      using that(2) all dist len last head current count by (cases l) simp
    show thesis
    proof (rule that [OF add _ fr2])
      show "if visited \<noteq> [] \<and> ahead = [] then represents ?l h2 (visited @ [(a, d)]) []
         else represents ?l h2 visited (ahead @ [(a, d)])"
        using rep' [of "visited @ [(a, d)]" "[]"] rep' [of visited "ahead @ [(a, d)]"] False
        by (cases ahead) auto
    qed
  qed
qed

lemma list_add_refused:
  "list_count l < MCL_SIZE_MAX \<Longrightarrow> memory_allocate sizeof_list_node w = (None, w1)
    \<Longrightarrow> list_add l d h w = Some (MCL_OUT_OF_MEMORY, l, h, w1)"
  by (simp add: list_add_def)

lemma list_add_full:
  "list_count l = MCL_SIZE_MAX \<Longrightarrow> list_add l d h w = Some (MCL_LIMIT_EXCEEDED, l, h, w)"
  by (simp add: list_add_def)

section \<open>Removing\<close>

text \<open>Unhooking a node of a chain joins what is before it with what is after it, and leaves
  the node itself as it was.\<close>

lemma unhook_linked:
  assumes link: "linked h None (us @ (a, d) # vs) None"
    and dist: "distinct (map fst (us @ (a, d) # vs))"
  obtains h1 where "unhook a h = Some h1" "linked h1 None (us @ vs) None"
    and "h1 a = Some \<lparr>node_data = d, node_prev = last_of None us, node_next = first_of vs None\<rparr>"
    and "\<And>x. h1 x = None \<longleftrightarrow> h x = None"
    and "\<And>x. x \<notin> fst ` set (us @ vs) \<Longrightarrow> h1 x = h x"
proof -
  have a: "h a = Some \<lparr>node_data = d, node_prev = last_of None us, node_next = first_of vs None\<rparr>"
    using link by simp
  have us: "linked h None us (Some a)" and vs: "linked h (Some a) vs None"
    using link by simp_all
  show thesis
  proof (cases us rule: rev_cases)
    case Nil
    show thesis
    proof (cases vs)
      case Nil
      with \<open>us = []\<close> a show thesis by (intro that [of h]) (simp_all add: unhook_def)
    next
      case (Cons v vt)
      obtain c e where v: "v = (c, e)" by force
      obtain h' where h': "set_prev h c None = Some h'" "linked h' None ((c, e) # vt) None"
        "\<forall>x. x \<noteq> c \<longrightarrow> h' x = h x" "\<forall>x. h' x = None \<longleftrightarrow> h x = None"
        using linked_set_prev [of h "Some a" c e vt None None] vs dist Cons v by auto
      have "unhook a h = Some h'" using a \<open>us = []\<close> Cons v h'(1) by (simp add: unhook_def)
      then show thesis using h' a dist \<open>us = []\<close> Cons v by (intro that [of h']) auto
    qed
  next
    case (snoc ut u)
    obtain b e where u: "u = (b, e)" by force
    have bn: "b \<notin> fst ` set ut" "b \<notin> fst ` set vs" "b \<noteq> a"
      using dist snoc u by auto
    show thesis
    proof (cases vs)
      case Nil
      obtain h' where h': "set_next h b None = Some h'" "linked h' None (ut @ [(b, e)]) None"
        "\<forall>x. x \<noteq> b \<longrightarrow> h' x = h x" "\<forall>x. h' x = None \<longleftrightarrow> h x = None"
        using linked_set_next [of h None ut b e "Some a" None] us bn snoc u by auto
      have "unhook a h = Some h'" using a snoc u Nil h'(1) by (simp add: unhook_def)
      then show thesis using h' a bn snoc u Nil by (intro that [of h']) auto
    next
      case (Cons v vt)
      obtain c f where v: "v = (c, f)" by force
      have cn: "c \<notin> fst ` set vt" "c \<notin> fst ` set (ut @ [(b, e)])" "c \<noteq> a"
        using dist snoc u Cons v by auto
      obtain h' where h': "set_next h b (Some c) = Some h'"
        "linked h' None (ut @ [(b, e)]) (Some c)"
        "\<forall>fs s t. b \<notin> fst ` set fs \<longrightarrow> linked h' s fs t = linked h s fs t"
        "\<forall>x. x \<noteq> b \<longrightarrow> h' x = h x" "\<forall>x. h' x = None \<longleftrightarrow> h x = None"
        using linked_set_next [of h None ut b e "Some a" "Some c"] us bn snoc u by auto
      have vs': "linked h' (Some a) ((c, f) # vt) None"
        using h'(3) vs bn(2) Cons v by blast
      obtain h'' where h'': "set_prev h' c (Some b) = Some h''"
        "linked h'' (Some b) ((c, f) # vt) None"
        "\<forall>fs s t. c \<notin> fst ` set fs \<longrightarrow> linked h'' s fs t = linked h' s fs t"
        "\<forall>x. x \<noteq> c \<longrightarrow> h'' x = h' x" "\<forall>x. h'' x = None \<longleftrightarrow> h' x = None"
        using linked_set_prev [OF vs' cn(1), of "Some b"] by auto
      have ut: "linked h'' None (ut @ [(b, e)]) (Some c)" using h''(3) h'(2) cn(2) by blast
      have "unhook a h = Some h''"
        using a snoc u Cons v h'(1) h''(1) by (simp add: unhook_def)
      moreover have "linked h'' None (us @ vs) None" using ut h''(2) snoc u Cons v by simp
      moreover have "h'' a = h a" using h'(4) h''(4) cn(3) bn(3) by simp
      ultimately show thesis
        using a h'(4,5) h''(4,5) snoc u Cons v by (intro that [of h'']) auto
    qed
  qed
qed

text \<open>Removing the node of an entry before the cursor, or at or after it.\<close>

lemma list_remove_entry:
  assumes link: "linked h None (us @ (a, d) # vs) None"
    and dist: "distinct (map fst (us @ (a, d) # vs))"
    and small: "length (us @ (a, d) # vs) < 2 ^ 64"
    and l: "l = \<lparr>list_head = first_of (us @ (a, d) # vs) None,
      list_last = last_of None (us @ (a, d) # vs), list_current = c,
      list_count = size_of_nat (length (us @ (a, d) # vs))\<rparr>"
  obtains h' where
    "list_remove l a h w = Some (MCL_OK,
       \<lparr>list_head = first_of (us @ vs) None, list_last = last_of None (us @ vs),
        list_current = (if c = Some a then first_of vs None else c),
        list_count = size_of_nat (length (us @ vs))\<rparr>, h', memory_free w)"
    and "linked h' None (us @ vs) None" and "\<And>x. h' x = None \<longleftrightarrow> h x = None \<or> x = a"
    and "\<And>x. x \<notin> fst ` set (us @ (a, d) # vs) \<Longrightarrow> h' x = h x"
proof -
  obtain h1 where h1: "unhook a h = Some h1" "linked h1 None (us @ vs) None"
    "h1 a = Some \<lparr>node_data = d, node_prev = last_of None us, node_next = first_of vs None\<rparr>"
    "\<And>x. h1 x = None \<longleftrightarrow> h x = None" "\<And>x. x \<notin> fst ` set (us @ vs) \<Longrightarrow> h1 x = h x"
    using unhook_linked [OF link dist] by metis
  have out: "a \<notin> fst ` set (us @ vs)" using dist by auto
  have pos: "list_count l > 0"
    unfolding size_pos_iff using small by (simp only: l list_t.simps unat_size_of_nat) simp
  have dec: "list_count l - 1 = size_of_nat (length (us @ vs))" by (simp add: l)
  have head: "list_head l = Some a \<longleftrightarrow> us = []"
    using out by (cases us) (auto simp: l)
  have last: "list_last l = Some a \<longleftrightarrow> vs = []"
    using out by (cases vs rule: rev_cases) (auto simp: l)
  show thesis
  proof (rule that)
    show "list_remove l a h w = Some (MCL_OK,
       \<lparr>list_head = first_of (us @ vs) None, list_last = last_of None (us @ vs),
        list_current = (if c = Some a then first_of vs None else c),
        list_count = size_of_nat (length (us @ vs))\<rparr>, h1(a := None), memory_free w)"
      using pos h1(1,3) head last dec
      by (cases us; cases vs rule: rev_cases) (auto simp: list_remove_def Let_def l)
    show "linked (h1(a := None)) None (us @ vs) None"
      using h1(2) out by (simp add: linked_frame del: linked_append)
  qed (use h1(4,5) in auto)
qed

lemma list_remove_visited:
  assumes rep: "represents l h (us @ (a, d) # vs) ahead"
  obtains l' h' where "list_remove l a h w = Some (MCL_OK, l', h', memory_free w)"
    and "represents l' h' (us @ vs) ahead" and "\<And>x. h' x = None \<longleftrightarrow> h x = None \<or> x = a"
    and "\<And>x. x \<notin> fst ` set ((us @ (a, d) # vs) @ ahead) \<Longrightarrow> h' x = h x"
proof -
  have c: "first_of ahead None \<noteq> Some a"
    using rep by (cases ahead) (auto simp: represents_def)
  have whole: "(us @ (a, d) # vs) @ ahead = us @ (a, d) # vs @ ahead" by simp
  note r = rep [unfolded represents_def whole]
  show thesis
  proof (rule list_remove_entry [OF r [THEN conjunct1] r [THEN conjunct2, THEN conjunct1]
        r [THEN conjunct2, THEN conjunct2, THEN conjunct1]
        r [THEN conjunct2, THEN conjunct2, THEN conjunct2], of w], goal_cases)
    case (1 h')
    show thesis
    proof (rule that)
      show "list_remove l a h w = Some (MCL_OK,
        \<lparr>list_head = first_of (us @ vs @ ahead) None, list_last = last_of None (us @ vs @ ahead),
         list_current = first_of ahead None,
         list_count = size_of_nat (length (us @ vs @ ahead))\<rparr>, h', memory_free w)"
        using 1(1) c by (simp only: if_False)
      show "h' x = h x" if "x \<notin> fst ` set ((us @ (a, d) # vs) @ ahead)" for x
        using that by (intro 1(4)) (simp only: whole not_False_eq_True)
    qed (use 1 r in \<open>auto intro!: representsI\<close>)
  qed
qed

lemma list_remove_ahead:
  assumes rep: "represents l h visited (us @ (a, d) # vs)"
  obtains l' h' where "list_remove l a h w = Some (MCL_OK, l', h', memory_free w)"
    and "represents l' h' visited (us @ vs)" and "\<And>x. h' x = None \<longleftrightarrow> h x = None \<or> x = a"
    and "\<And>x. x \<notin> fst ` set (visited @ us @ (a, d) # vs) \<Longrightarrow> h' x = h x"
proof -
  have c: "(if first_of (us @ (a, d) # vs) None = Some a then first_of vs None
      else first_of (us @ (a, d) # vs) None) = first_of (us @ vs) None"
    using rep by (cases us) (auto simp: represents_def)
  have whole: "visited @ us @ (a, d) # vs = (visited @ us) @ (a, d) # vs" by simp
  note r = rep [unfolded represents_def whole]
  show thesis
  proof (rule list_remove_entry [OF r [THEN conjunct1] r [THEN conjunct2, THEN conjunct1]
        r [THEN conjunct2, THEN conjunct2, THEN conjunct1]
        r [THEN conjunct2, THEN conjunct2, THEN conjunct2], of w], goal_cases)
    case (1 h')
    show thesis
    proof (rule that)
      show "list_remove l a h w = Some (MCL_OK,
        \<lparr>list_head = first_of ((visited @ us) @ vs) None,
         list_last = last_of None ((visited @ us) @ vs),
         list_current = first_of (us @ vs) None,
         list_count = size_of_nat (length ((visited @ us) @ vs))\<rparr>, h', memory_free w)"
        using 1(1) by (simp only: c)
      show "h' x = h x" if "x \<notin> fst ` set (visited @ us @ (a, d) # vs)" for x
        using that by (intro 1(4)) (simp only: whole not_False_eq_True)
    qed (use 1 r in \<open>auto intro!: representsI\<close>)
  qed
qed

text \<open>Both cases as one: the entry of a node leaves the list, wherever the cursor is.\<close>

lemma list_remove_granted:
  assumes rep: "represents l h visited ahead" and mem: "a \<in> fst ` set (visited @ ahead)"
  obtains l' h' where "list_remove l a h w = Some (MCL_OK, l', h', memory_free w)"
    and "represents l' h' (filter (\<lambda>e. fst e \<noteq> a) visited) (filter (\<lambda>e. fst e \<noteq> a) ahead)"
    and "\<And>x. h' x = None \<longleftrightarrow> h x = None \<or> x = a"
proof -
  have dist: "distinct (map fst (visited @ ahead))" using rep by (rule representsD)
  from mem consider "a \<in> fst ` set visited" | "a \<in> fst ` set ahead" by auto
  then show thesis
  proof cases
    case 1
    then obtain us d vs where v: "visited = us @ (a, d) # vs"
      by (metis (no_types, lifting) imageE prod.collapse split_list)
    have id: "filter (\<lambda>e. fst e \<noteq> a) us = us" "filter (\<lambda>e. fst e \<noteq> a) vs = vs"
      "filter (\<lambda>e. fst e \<noteq> a) ahead = ahead"
      using dist by (auto simp: v filter_id_conv)
    show thesis
      by (rule list_remove_visited [OF rep [unfolded v], of w], rule that) (simp_all add: v id)
  next
    case 2
    then obtain us d vs where v: "ahead = us @ (a, d) # vs"
      by (metis (no_types, lifting) imageE prod.collapse split_list)
    have id: "filter (\<lambda>e. fst e \<noteq> a) us = us" "filter (\<lambda>e. fst e \<noteq> a) vs = vs"
      "filter (\<lambda>e. fst e \<noteq> a) visited = visited"
      using dist by (auto simp: v filter_id_conv)
    show thesis
      by (rule list_remove_ahead [OF rep [unfolded v], of w], rule that) (simp_all add: v id)
  qed
qed

lemma list_remove_none:
  "represents l h [] [] \<Longrightarrow> list_remove l a h w = Some (MCL_ARRAY_IS_EMPTY, l, h, w)"
  by (auto simp: represents_def list_remove_def)

section \<open>Iterating\<close>

lemma list_next_ahead:
  "represents l h visited (e # ahead) \<Longrightarrow>
    \<exists>l'. list_next l h = Some (Some (fst e), l') \<and> represents l' h (visited @ [e]) ahead"
  by (auto simp: represents_def list_next_def)

lemma list_next_end:
  "represents l h visited [] \<Longrightarrow>
    \<exists>l'. list_next l h = Some (None, l') \<and> represents l' h [] visited"
  by (auto simp: represents_def list_next_def)

lemma list_reset_represents:
  "represents l h visited ahead \<Longrightarrow>
    \<exists>l'. list_reset (Some l) = Some l' \<and> represents l' h [] (visited @ ahead)"
  by (auto simp: represents_def list_reset_def)

lemma represents_data:
  "represents l h visited ahead \<Longrightarrow> e \<in> set (visited @ ahead) \<Longrightarrow>
    \<exists>n. h (fst e) = Some n \<and> node_data n = snd e"
proof -
  have "linked h p es q \<Longrightarrow> e \<in> set es \<Longrightarrow> \<exists>n. h (fst e) = Some n \<and> node_data n = snd e"
    for p es q by (induction es arbitrary: p) auto
  then show "represents l h visited ahead \<Longrightarrow> e \<in> set (visited @ ahead) \<Longrightarrow>
    \<exists>n. h (fst e) = Some n \<and> node_data n = snd e" unfolding represents_def by metis
qed

text \<open>The contract a loop over a list relies on: a cursor that hands out the items ahead of
  it one after the other and then none.  \<open>rep s visited ahead\<close> says where the cursor is.\<close>

locale cursor =
  fixes rep :: "'s \<Rightarrow> 'a list \<Rightarrow> 'a list \<Rightarrow> bool"
    and rewind :: "'s \<Rightarrow> 's"
    and advance :: "'s \<Rightarrow> ('b option \<times> 's) option"
    and key :: "'a \<Rightarrow> 'b"
  assumes rewind_rep: "rep s visited ahead \<Longrightarrow> rep (rewind s) [] (visited @ ahead)"
    and advance_ahead: "rep s visited (x # ahead) \<Longrightarrow>
      \<exists>s'. advance s = Some (Some (key x), s') \<and> rep s' (visited @ [x]) ahead"
    and advance_end: "rep s visited [] \<Longrightarrow> \<exists>s'. advance s = Some (None, s') \<and> rep s' [] visited"
begin

text \<open>The first \<open>n\<close> items of a loop that calls \<open>advance\<close>.\<close>

primrec steps :: "nat \<Rightarrow> 's \<Rightarrow> ('b option list \<times> 's) option" where
  "steps 0 s = Some ([], s)"
| "steps (Suc n) s = do {
    (b, s1) \<leftarrow> advance s;
    (bs, s2) \<leftarrow> steps n s1;
    Some (b # bs, s2)
  }"

lemma steps_ahead:
  "rep s visited (xs @ ahead) \<Longrightarrow>
    \<exists>s'. steps (length xs) s = Some (map (\<lambda>x. Some (key x)) xs, s')
      \<and> rep s' (visited @ xs) ahead"
proof (induction xs arbitrary: s visited)
  case Nil
  then show ?case by auto
next
  case (Cons x xs)
  obtain s1 where s1: "advance s = Some (Some (key x), s1)" "rep s1 (visited @ [x]) (xs @ ahead)"
    using advance_ahead Cons.prems by fastforce
  obtain s2 where "steps (length xs) s1 = Some (map (\<lambda>x. Some (key x)) xs, s2)"
    "rep s2 ((visited @ [x]) @ xs) ahead"
    using Cons.IH [OF s1(2)] by blast
  with s1(1) show ?case by auto
qed

text \<open>A whole pass: every item once, in order, then the end, with the cursor at the start
  again, from wherever it stood before.\<close>

lemma pass:
  assumes "rep s visited ahead"
  shows "\<exists>s' s''. steps (length (visited @ ahead)) (rewind s)
        = Some (map (\<lambda>x. Some (key x)) (visited @ ahead), s')
      \<and> advance s' = Some (None, s'') \<and> rep s'' [] (visited @ ahead)"
proof -
  obtain s' where s': "steps (length (visited @ ahead)) (rewind s)
        = Some (map (\<lambda>x. Some (key x)) (visited @ ahead), s')" "rep s' (visited @ ahead) []"
    using steps_ahead [of "rewind s" "[]" "visited @ ahead" "[]"] rewind_rep [OF assms] by auto
  from advance_end [OF s'(2)] s'(1) show ?thesis by blast
qed

end

text \<open>The list header in a fixed store is such a cursor.\<close>

definition list_cursor :: "'d list_heap \<times> list_t \<Rightarrow> 'd entry list \<Rightarrow> 'd entry list \<Rightarrow> bool" where
  "list_cursor s visited ahead = represents (snd s) (fst s) visited ahead"

definition rewind_list :: "'d list_heap \<times> list_t \<Rightarrow> 'd list_heap \<times> list_t" where
  "rewind_list s = (case list_reset (Some (snd s)) of None \<Rightarrow> s | Some l \<Rightarrow> (fst s, l))"

definition advance_list ::
    "'d list_heap \<times> list_t \<Rightarrow> (addr option \<times> 'd list_heap \<times> list_t) option" where
  "advance_list s = do {
    (a, l) \<leftarrow> list_next (snd s) (fst s);
    Some (a, fst s, l)
  }"

interpretation lc: cursor list_cursor rewind_list advance_list fst
proof (standard, goal_cases)
  case (1 s visited ahead)
  then show ?case
    using list_reset_represents [of "snd s" "fst s" visited ahead]
    by (auto simp: list_cursor_def rewind_list_def)
next
  case (2 s visited x ahead)
  then show ?case
    using list_next_ahead [of "snd s" "fst s" visited x ahead]
    by (auto simp: list_cursor_def advance_list_def)
next
  case (3 s visited)
  then show ?case
    using list_next_end [of "snd s" "fst s" visited]
    by (auto simp: list_cursor_def advance_list_def)
qed

section \<open>Searching and destroying\<close>

lemma search_nodes_linked:
  "linked h p es None \<Longrightarrow>
    search_nodes f k h (first_of es None) =
      Some (case find (\<lambda>e. f (snd e) k = MCL_OK) es of
        None \<Rightarrow> (MCL_FAIL, None) | Some e \<Rightarrow> (MCL_OK, snd e))"
proof (induction es arbitrary: p)
  case Nil
  then show ?case by (subst search_nodes.simps) simp
next
  case (Cons e es)
  then show ?case
    using Cons.IH [of "Some (fst e)"] by (subst search_nodes.simps) simp
qed

lemma destroy_nodes_linked:
  "linked h p es None \<Longrightarrow> distinct (map fst es) \<Longrightarrow>
    destroy_nodes cb (first_of es None) h w =
      Some (\<lambda>a. if a \<in> fst ` set es then None else h a,
            fold (\<lambda>e w1. memory_free (destroy_data cb (snd e) w1)) es w)"
proof (induction es arbitrary: p h w)
  case Nil
  then show ?case by (subst destroy_nodes.simps) simp
next
  case (Cons e es)
  have fr: "linked (h(fst e := None)) (Some (fst e)) es None"
    using Cons.prems by (simp add: linked_frame image_iff)
  have eq: "(\<lambda>a. if a \<in> fst ` set es then None else (h(fst e := None)) a) =
      (\<lambda>a. if a \<in> fst ` set (e # es) then None else h a)"
    by auto
  show ?case
    using Cons.prems Cons.IH [OF fr]
    by (subst destroy_nodes.simps) (simp add: eq del: fun_upd_apply)
qed

lemma live_destroy_fold:
  "(\<And>d w1. live (destroy_data cb d w1) = live w1 - g d) \<Longrightarrow>
    live (fold (\<lambda>e w1. memory_free (destroy_data cb (snd e) w1)) es w) =
      live w - int (length es) - (\<Sum>e\<leftarrow>es. g (snd e))"
  by (induction es arbitrary: w) simp_all

section \<open>The properties of the list\<close>

text \<open>\<open>n\<close> calls of \<open>list_next\<close> in a row, as a loop over a list makes them.\<close>

primrec list_nexts :: "nat \<Rightarrow> list_t \<Rightarrow> 'd list_heap \<Rightarrow> (addr option list \<times> list_t) option" where
  "list_nexts 0 l h = Some ([], l)"
| "list_nexts (Suc n) l h = do {
    (a, l1) \<leftarrow> list_next l h;
    (as, l2) \<leftarrow> list_nexts n l1 h;
    Some (a # as, l2)
  }"

lemma advance_list_apply:
  "advance_list (h, l) = map_option (\<lambda>(a, l'). (a, h, l')) (list_next l h)"
  by (cases "list_next l h") (auto simp: advance_list_def)

lemma steps_list_nexts:
  "lc.steps n (h, l) = map_option (\<lambda>(as, l'). (as, h, l')) (list_nexts n l h)"
proof (induction n arbitrary: l)
  case 0
  then show ?case by simp
next
  case (Suc n)
  then show ?case
    by (cases "list_next l h")
      (auto simp: advance_list_apply bind_eq_None_conv split: Option.bind_splits)
qed

text \<open>Adding to a list appends the new entry and keeps every other entry and the place of
  the cursor; when the allocator refuses the node, or the count is at its maximum, the list
  and its nodes are left as they were and the call says why.\<close>

theorem list_add_correct:
  assumes "represents l h visited ahead" and "heap_fresh h w"
  shows "case memory_allocate sizeof_list_node w of
      (None, w1) \<Rightarrow> list_count l < MCL_SIZE_MAX
        \<longrightarrow> list_add l d h w = Some (MCL_OUT_OF_MEMORY, l, h, w1)
    | (Some a, w1) \<Rightarrow>
        if list_count l < MCL_SIZE_MAX
        then \<exists>l' h'. list_add l d h w = Some (MCL_OK, l', h', w1) \<and> heap_fresh h' w1
          \<and> (if visited \<noteq> [] \<and> ahead = [] then represents l' h' (visited @ [(a, d)]) []
             else represents l' h' visited (ahead @ [(a, d)]))
        else list_add l d h w = Some (MCL_LIMIT_EXCEEDED, l, h, w)"
proof (cases "memory_allocate sizeof_list_node w")
  case (Pair r w1)
  have full: "list_count l < MCL_SIZE_MAX \<longleftrightarrow> length (visited @ ahead) < 2 ^ 64 - 1"
    using represents_count [OF assms(1)] by (simp add: size_less_iff unat_MCL_SIZE_MAX)
  show ?thesis
  proof (cases r)
    case None
    then show ?thesis using Pair by (simp add: list_add_refused)
  next
    case (Some a)
    show ?thesis
    proof (cases "list_count l < MCL_SIZE_MAX")
      case True
      show ?thesis
        by (rule list_add_granted [OF assms full [THEN iffD1, OF True], of a w1 d])
          (use Pair Some True in auto)
    qed (use Pair Some in \<open>simp add: list_add_def\<close>)
  qed
qed

text \<open>C28: removing a node takes exactly its entry out of the list, wherever the node stands
  and wherever the cursor is, moves the cursor on when it stood on that node, frees the node
  and no other, and touches no address that is not in the list.\<close>

theorem list_remove_correct:
  assumes "represents l h visited ahead" and "a \<in> fst ` set (visited @ ahead)"
  shows "\<exists>l' h'. list_remove l a h w = Some (MCL_OK, l', h', memory_free w)
    \<and> represents l' h' (filter (\<lambda>e. fst e \<noteq> a) visited) (filter (\<lambda>e. fst e \<noteq> a) ahead)
    \<and> (\<forall>x. h' x = None \<longleftrightarrow> h x = None \<or> x = a)"
  by (rule list_remove_granted [OF assms, of w]) blast

text \<open>A loop that resets a list and calls \<open>list_next\<close> sees every node once, in order, then
  none, and leaves the cursor at the first node again, wherever the cursor stood before.\<close>

theorem list_iterates_all:
  assumes "represents l h visited ahead"
  shows "\<exists>l1 l2 l3. list_reset (Some l) = Some l1
    \<and> list_nexts (length (visited @ ahead)) l1 h
        = Some (map (\<lambda>e. Some (fst e)) (visited @ ahead), l2)
    \<and> list_next l2 h = Some (None, l3) \<and> represents l3 h [] (visited @ ahead)"
proof -
  obtain l1 where l1: "list_reset (Some l) = Some l1"
    using list_reset_represents [OF assms] by blast
  show ?thesis
    using lc.pass [of "(h, l)" visited ahead] assms l1
    by (auto simp: list_cursor_def rewind_list_def steps_list_nexts advance_list_apply)
qed

text \<open>\<open>list_exist\<close> gives the data of the first entry the comparison accepts, and fails with no
  data when it accepts none; the search always ends.\<close>

theorem list_exist_correct:
  assumes "represents l h visited ahead"
  shows "list_exist l k f h =
    Some (case find (\<lambda>e. f (snd e) k = MCL_OK) (visited @ ahead) of
      None \<Rightarrow> (MCL_FAIL, None) | Some e \<Rightarrow> (MCL_OK, snd e))"
  using representsD(1,4) [OF assms] search_nodes_linked [of h None "visited @ ahead" f k]
  by (simp add: list_exist_def)

text \<open>Destroying a list frees each of its nodes once and the header, destroys the data with
  the callback in the order of the list, and leaves every other address as it was; with no
  callback exactly one block per node and one for the header are returned.\<close>

theorem list_destroy_correct:
  assumes "represents l h visited ahead"
  shows "\<exists>w'. list_destroy_with_content (Some l) callback h w =
      Some (None, \<lambda>a. if a \<in> fst ` set (visited @ ahead) then None else h a, w')
    \<and> w' = memory_free (fold (\<lambda>e w1. memory_free (destroy_data callback (snd e) w1))
        (visited @ ahead) w)
    \<and> (callback = None \<longrightarrow> live w' = live w - int (length (visited @ ahead)) - 1)"
  using representsD(1,2,4) [OF assms]
    destroy_nodes_linked [of h None "visited @ ahead" callback w]
    live_destroy_fold [of None "\<lambda>_. 0" "visited @ ahead" w]
  by (cases callback) (auto simp: list_destroy_with_content_def destroy_data_def)

subsection \<open>A list of two nodes\<close>

definition two_nodes :: list_t where
  "two_nodes = \<lparr>list_head = Some 5, list_last = Some 6, list_current = Some 6, list_count = 2\<rparr>"

definition two_nodes_heap :: "nat list_heap" where
  "two_nodes_heap = Map.empty(
    5 \<mapsto> \<lparr>node_data = Some 10, node_prev = None, node_next = Some 6\<rparr>,
    6 \<mapsto> \<lparr>node_data = Some 20, node_prev = Some 5, node_next = None\<rparr>)"

definition quiet_world :: world where
  "quiet_world = \<lparr>upcoming = [], live = 3, fresh = 7, junk = \<lambda>_. CHR ''?''\<rparr>"

lemma two_nodes_represents: "represents two_nodes two_nodes_heap [(5, Some 10)] [(6, Some 20)]"
  by (simp add: represents_def two_nodes_def two_nodes_heap_def last_of_def first_of_def)

lemma two_nodes_fresh: "heap_fresh two_nodes_heap quiet_world"
  by (simp add: heap_fresh_def two_nodes_heap_def quiet_world_def)

lemma list_add_correct_witness:
  "\<exists>l' h' w'. list_add two_nodes (Some 30) two_nodes_heap quiet_world = Some (MCL_OK, l', h', w')
    \<and> represents l' h' [(5, Some 10)] [(6, Some 20), (7, Some 30)] \<and> heap_fresh h' w'"
proof -
  have alloc: "memory_allocate sizeof_list_node quiet_world =
      (Some 7, quiet_world\<lparr>live := 4, fresh := 8\<rparr>)"
    by (simp add: quiet_world_def memory_allocate_unbounded sizeof_list_node_def)
  have room: "list_count two_nodes < MCL_SIZE_MAX"
    by (simp add: two_nodes_def size_less_iff unat_MCL_SIZE_MAX)
  show ?thesis
    using list_add_correct [OF two_nodes_represents two_nodes_fresh, of "Some 30"]
    unfolding alloc by (simp add: room) blast
qed

lemma list_remove_correct_witness:
  "\<exists>l' h'. list_remove two_nodes 6 two_nodes_heap quiet_world
      = Some (MCL_OK, l', h', memory_free quiet_world)
    \<and> represents l' h' [(5, Some 10)] [] \<and> h' 6 = None \<and> h' 5 \<noteq> None"
proof -
  have five: "two_nodes_heap 5 \<noteq> None" by (simp add: two_nodes_heap_def)
  obtain l' h' where r: "list_remove two_nodes 6 two_nodes_heap quiet_world
      = Some (MCL_OK, l', h', memory_free quiet_world)" "represents l' h' [(5, Some 10)] []"
    and h': "\<forall>x. h' x = None \<longleftrightarrow> two_nodes_heap x = None \<or> x = 6"
    using list_remove_correct [OF two_nodes_represents, of 6 quiet_world] by auto
  have "h' 6 = None" "h' 5 \<noteq> None"
    using h' [THEN spec, of 6] h' [THEN spec, of 5] five by simp_all
  with r show ?thesis by blast
qed

lemma list_iterates_all_witness:
  "\<exists>l1 l2 l3. list_reset (Some two_nodes) = Some l1
    \<and> list_nexts 2 l1 two_nodes_heap = Some ([Some 5, Some 6], l2)
    \<and> list_next l2 two_nodes_heap = Some (None, l3) \<and> list_current l3 = Some 5"
  using list_iterates_all [OF two_nodes_represents]
  by (auto simp: numeral_2_eq_2 represents_def)

lemma list_exist_correct_witness:
  "list_exist two_nodes 20 (\<lambda>d (k :: nat). if d = Some k then MCL_OK else MCL_FAIL) two_nodes_heap
    = Some (MCL_OK, Some 20)"
  using list_exist_correct [OF two_nodes_represents, of 20 "\<lambda>d k. if d = Some k then MCL_OK else MCL_FAIL"]
  by simp

lemma list_destroy_correct_witness:
  "\<exists>w'. list_destroy_with_content (Some two_nodes) None two_nodes_heap quiet_world
    = Some (None, Map.empty, w') \<and> live w' = 0"
proof -
  have none: "(\<lambda>a. if a \<in> fst ` set ([(5, Some 10)] @ [(6, Some 20)]) then None
      else two_nodes_heap a) = Map.empty"
    by (auto simp: two_nodes_heap_def)
  show ?thesis
    using list_destroy_correct [OF two_nodes_represents, of None quiet_world]
    unfolding none by (auto simp: quiet_world_def)
qed

end
