(* ===== verification/MCL_String_Util.thy ===== *)
theory MCL_String_Util
  imports MCL_Memory
begin

text \<open>
  \<^verbatim>\<open>string_util.c\<close>: the wrappers of the C string functions and the library's own search.
  A pointer to characters is the list of the characters from there to the end of the
  object it points into; a function that would read past that end has no value.
\<close>

abbreviation NUL :: char where
  "NUL \<equiv> CHR 0x00"

section \<open>C strings\<close>

text \<open>The characters of a string up to its terminator, and at most \<open>n\<close> of them.\<close>

fun chars_of :: "char list \<Rightarrow> char list option" where
  "chars_of [] = None"
| "chars_of (c # cs) = (if c = NUL then Some [] else map_option ((#) c) (chars_of cs))"

fun chars_upto :: "nat \<Rightarrow> char list \<Rightarrow> char list option" where
  "chars_upto 0 cs = Some []"
| "chars_upto (Suc n) [] = None"
| "chars_upto (Suc n) (c # cs) =
    (if c = NUL then Some [] else map_option ((#) c) (chars_upto n cs))"

text \<open>A terminated string that says \<open>s\<close>, followed by anything.\<close>

definition cstring :: "string \<Rightarrow> char list" where
  "cstring s = s @ [NUL]"

definition is_text :: "string \<Rightarrow> bool" where
  "is_text s = (NUL \<notin> set s)"

lemma is_text_simps [simp]:
  "is_text []" "is_text (c # s) \<longleftrightarrow> c \<noteq> NUL \<and> is_text s"
  "is_text (s @ t) \<longleftrightarrow> is_text s \<and> is_text t"
  by (auto simp: is_text_def)

lemma chars_of_text: "is_text s \<Longrightarrow> chars_of (s @ NUL # rest) = Some s"
  by (induction s) auto

lemma chars_of_cstring [simp]: "is_text s \<Longrightarrow> chars_of (cstring s) = Some s"
  by (simp add: cstring_def chars_of_text)

lemma chars_of_Some:
  "chars_of b = Some s \<Longrightarrow> is_text s \<and> (\<exists>rest. b = s @ NUL # rest)"
  by (induction b arbitrary: s) (auto split: if_splits)

lemma chars_upto_text:
  "is_text s \<Longrightarrow> n \<le> length s \<Longrightarrow> chars_upto n (s @ rest) = Some (take n s)"
proof (induction s arbitrary: n)
  case (Cons c s)
  then show ?case by (cases n) auto
qed simp

lemma chars_upto_ends:
  "is_text s \<Longrightarrow> length s < n \<Longrightarrow> chars_upto n (s @ NUL # rest) = Some s"
proof (induction s arbitrary: n)
  case Nil
  then show ?case by (cases n) auto
next
  case (Cons c s)
  then show ?case by (cases n) auto
qed

lemma chars_upto_length: "chars_upto n b = Some s \<Longrightarrow> length s \<le> n \<and> is_text s"
  by (induction n b arbitrary: s rule: chars_upto.induct) (fastforce split: if_splits)+

section \<open>The wrappers\<close>

definition string_util_strlen :: "char list \<Rightarrow> mcl_size_t option" where
  "string_util_strlen buffer = map_option (\<lambda>s. size_of_nat (length s)) (chars_of buffer)"

text \<open>The loop of \<^verbatim>\<open>string_util_strnlen\<close>; the list is the buffer from \<open>count\<close> on.\<close>

fun strnlen_loop :: "char list \<Rightarrow> mcl_size_t \<Rightarrow> mcl_size_t \<Rightarrow> mcl_size_t option" where
  "strnlen_loop [] count maximum_length = (if count < maximum_length then None else Some count)"
| "strnlen_loop (c # cs) count maximum_length =
    (if count < maximum_length \<and> c \<noteq> NUL then strnlen_loop cs (count + 1) maximum_length
     else Some count)"

definition string_util_strnlen :: "char list \<Rightarrow> mcl_size_t \<Rightarrow> mcl_size_t option" where
  "string_util_strnlen buffer maximum_length = strnlen_loop buffer 0 maximum_length"

text \<open>\<^verbatim>\<open>strncpy\<close> copies at most \<open>count\<close> characters and fills up with zeros; \<^verbatim>\<open>strncat\<close>
  appends at most \<open>count\<close> characters and a terminator.\<close>

definition string_util_strncpy ::
    "char list \<Rightarrow> char list \<Rightarrow> mcl_size_t \<Rightarrow> char list option" where
  "string_util_strncpy destination source count = do {
    s \<leftarrow> chars_upto (unat count) source;
    write_at destination 0 (s @ replicate (unat count - length s) NUL)
  }"

definition string_util_strncat ::
    "char list \<Rightarrow> char list \<Rightarrow> mcl_size_t \<Rightarrow> char list option" where
  "string_util_strncat destination source count = do {
    d \<leftarrow> chars_of destination;
    s \<leftarrow> chars_upto (unat count) source;
    write_at destination (length d) (s @ [NUL])
  }"

text \<open>The sign of \<^verbatim>\<open>strncmp\<close> is not used, only whether it is zero.\<close>

fun strncmp_equal :: "nat \<Rightarrow> char list \<Rightarrow> char list \<Rightarrow> bool option" where
  "strncmp_equal 0 xs ys = Some True"
| "strncmp_equal (Suc n) (x # xs) (y # ys) =
    (if x \<noteq> y then Some False else if x = NUL then Some True else strncmp_equal n xs ys)"
| "strncmp_equal (Suc n) _ _ = None"

definition string_util_strncmp ::
    "char list \<Rightarrow> char list \<Rightarrow> mcl_size_t \<Rightarrow> E_MCL_ERROR_CODE option" where
  "string_util_strncmp string_1 string_2 count = do {
    equal \<leftarrow> strncmp_equal (unat count) string_1 string_2;
    Some (if equal then MCL_OK else MCL_FAIL)
  }"

text \<open>\<^verbatim>\<open>vsnprintf\<close> of a text \<open>out\<close> into \<open>length\<close> characters: it keeps what fits before the
  terminator and returns the length of the whole text, or a negative number when that is
  more than an \<^verbatim>\<open>int\<close> holds.\<close>

definition vsnprintf_count :: "string \<Rightarrow> int" where
  "vsnprintf_count out = (if length out < 2 ^ 31 then int (length out) else - 1)"

definition string_util_snprintf ::
    "char list \<Rightarrow> mcl_size_t \<Rightarrow> string \<Rightarrow> (E_MCL_ERROR_CODE \<times> char list) option" where
  "string_util_snprintf str len out = do {
    str1 \<leftarrow> (if len = 0 then Some str
            else write_at str 0 (take (unat len - 1) out @ [NUL]));
    let count = vsnprintf_count out;
    Some (if count > 0 \<and> word_of_int count \<le> len then MCL_OK else MCL_FAIL, str1)
  }"

definition string_util_memcmp :: "'a list \<Rightarrow> 'a list \<Rightarrow> mcl_size_t \<Rightarrow> bool option" where
  "string_util_memcmp block_1 block_2 count =
    (if unat count \<le> length block_1 \<and> unat count \<le> length block_2
     then Some (take (unat count) block_1 = take (unat count) block_2) else None)"

definition string_util_memcpy ::
    "'a list \<Rightarrow> nat \<Rightarrow> 'a list \<Rightarrow> mcl_size_t \<Rightarrow> 'a list option" where
  "string_util_memcpy destination offset source count =
    (if unat count \<le> length source then write_at destination offset (take (unat count) source)
     else None)"

definition string_util_strdup :: "char list \<Rightarrow> world \<Rightarrow> (char list option \<times> world) option" where
  "string_util_strdup str w = do {
    s \<leftarrow> chars_of str;
    Some (case memory_malloc (size_of_nat (length s) + 1) w of
      (None, w1) \<Rightarrow> (None, w1)
    | (Some a, w1) \<Rightarrow> (Some (cstring s), w1))
  }"

definition string_util_is_space :: "char \<Rightarrow> bool" where
  "string_util_is_space character =
    (character = CHR '' '' \<or> character = CHR 0x09 \<or> character = CHR 0x0A
     \<or> character = CHR 0x0B \<or> character = CHR 0x0C \<or> character = CHR 0x0D)"

section \<open>The search\<close>

text \<open>The macro \<^verbatim>\<open>LOWERCASE\<close>.\<close>

definition lowercase :: "char \<Rightarrow> char" where
  "lowercase n =
    (if (65 :: nat) \<le> of_char n \<and> of_char n \<le> (90 :: nat) then char_of (of_char n + (32 :: nat))
     else n)"

text \<open>The loop of \<^verbatim>\<open>string_util_find\<close> from \<open>index\<close> on: \<open>state\<close> counts the characters of the
  target the text before \<open>index\<close> ends with.  \<open>Some None\<close> is a search without a result.\<close>

fun find_loop ::
    "(char \<Rightarrow> char \<Rightarrow> bool) \<Rightarrow> char list \<Rightarrow> nat \<Rightarrow> char list \<Rightarrow> nat \<Rightarrow> nat \<Rightarrow> nat option option" where
  "find_loop match target target_length [] index state = Some None"
| "find_loop match target target_length (c # rest) index state = do {
    t \<leftarrow> read_at target state;
    let state1 = (if match c t then state + 1 else 0);
    if state1 = target_length then Some (Some (index - (target_length - 1)))
    else find_loop match target target_length rest (index + 1) state1
  }"

definition find_with ::
    "(char \<Rightarrow> char \<Rightarrow> bool) \<Rightarrow> char list \<Rightarrow> char list \<Rightarrow> nat option option" where
  "find_with match source target = do {
    s \<leftarrow> chars_of source;
    t \<leftarrow> chars_of target;
    if length t \<noteq> 0 \<and> \<not> length t > length s
    then find_loop match target (length t) s 0 0
    else Some None
  }"

definition string_util_find :: "char list \<Rightarrow> char list \<Rightarrow> nat option option" where
  "string_util_find source target = find_with (=) source target"

definition string_util_find_case_insensitive ::
    "char list \<Rightarrow> char list \<Rightarrow> nat option option" where
  "string_util_find_case_insensitive source target =
    find_with (\<lambda>c t. c = t \<or> lowercase c = lowercase t) source target"

section \<open>What the wrappers compute\<close>

lemma strnlen_loop_text:
  "is_text s \<Longrightarrow> unat count + length s < 2 ^ 64 \<Longrightarrow> unat count + length s \<le> unat maximum \<Longrightarrow>
    strnlen_loop (s @ NUL # rest) count maximum = Some (count + size_of_nat (length s))"
proof (induction s arbitrary: count)
  case (Cons c s)
  have "unat (count + 1) = unat count + 1"
    using Cons.prems by (intro unat_add_one) simp
  then show ?case
    using Cons by (simp add: size_less_iff add.assoc)
qed simp

lemma strnlen_loop_limit:
  "is_text s \<Longrightarrow> unat maximum = unat count + n \<Longrightarrow> n \<le> length s \<Longrightarrow>
    strnlen_loop (s @ rest) count maximum = Some maximum"
proof (induction s arbitrary: count n)
  case Nil
  then have "maximum = count" by (simp add: size_eq_iff)
  then show ?case by (cases rest) simp_all
next
  case (Cons c s)
  show ?case
  proof (cases n)
    case 0
    then have "maximum = count" using Cons.prems by (simp add: size_eq_iff)
    then show ?thesis by simp
  next
    case (Suc m)
    have "unat (count + 1) = unat count + 1"
      using Cons.prems Suc unat_less_64 [of maximum] by (intro unat_add_one) simp
    then show ?thesis
      using Cons.prems Suc by (simp add: size_less_iff Cons.IH [of "count + 1" m])
  qed
qed

lemma string_util_strlen_text:
  "is_text s \<Longrightarrow> string_util_strlen (s @ NUL # rest) = Some (size_of_nat (length s))"
  by (simp add: string_util_strlen_def chars_of_text)

lemma strncmp_equal_text:
  "is_text s \<Longrightarrow> is_text t \<Longrightarrow> length s = length t \<Longrightarrow>
    strncmp_equal (length s) (s @ xs) (t @ ys) = Some (s = t)"
proof (induction s arbitrary: t)
  case (Cons c s)
  then show ?case by (cases t) auto
qed simp

lemma string_util_strncmp_text:
  "is_text s \<Longrightarrow> is_text t \<Longrightarrow> length s = length t \<Longrightarrow> length s < 2 ^ 64 \<Longrightarrow>
    string_util_strncmp (s @ xs) (t @ ys) (size_of_nat (length s)) =
      Some (if s = t then MCL_OK else MCL_FAIL)"
  using strncmp_equal_text [of s t xs ys]
  by (simp add: string_util_strncmp_def unat_size_of_nat del: strncmp_equal.simps)

lemma string_util_snprintf_fits:
  "0 < length out \<Longrightarrow> length out < 2 ^ 31 \<Longrightarrow> length out < unat len \<Longrightarrow> unat len \<le> length str \<Longrightarrow>
    string_util_snprintf str len out =
      Some (MCL_OK, out @ NUL # drop (length out + 1) str)"
proof -
  assume out: "0 < length out" "length out < 2 ^ 31" "length out < unat len" "unat len \<le> length str"
  have "(word_of_int (int (length out)) :: mcl_size_t) \<le> len"
    using out by (simp add: size_le_iff unat_size_of_nat)
  then show ?thesis
    using out by (auto simp: string_util_snprintf_def vsnprintf_count_def write_at_in Let_def)
qed

lemma string_util_strncat_text:
  "is_text d \<Longrightarrow> is_text s \<Longrightarrow> length s < 2 ^ 64 \<Longrightarrow> length d + length s + 1 \<le> length block \<Longrightarrow>
    take (length d + 1) block = d @ [NUL] \<Longrightarrow>
    string_util_strncat block (s @ rest) (size_of_nat (length s)) =
      Some (d @ s @ NUL # drop (length d + length s + 1) block)"
proof -
  assume d: "is_text d" and s: "is_text s" "length s < 2 ^ 64"
    and room: "length d + length s + 1 \<le> length block"
    and start: "take (length d + 1) block = d @ [NUL]"
  have split: "block = d @ NUL # drop (length d + 1) block"
    using append_take_drop_id [of "length d + 1" block] unfolding start by simp
  have "chars_of block = Some d" by (subst split) (rule chars_of_text [OF d])
  moreover have "take (length d) block = d" by (subst split) simp
  ultimately show ?thesis
    using s room
    by (simp add: string_util_strncat_def unat_size_of_nat chars_upto_text write_at_in)
qed

section \<open>What the search finds\<close>

text \<open>The target, or what the comparison takes for it, stands at a place of the source.\<close>

definition occurs_at :: "(char \<Rightarrow> char \<Rightarrow> bool) \<Rightarrow> string \<Rightarrow> string \<Rightarrow> nat \<Rightarrow> bool" where
  "occurs_at match s t i \<longleftrightarrow>
    i + length t \<le> length s \<and> (\<forall>k < length t. match (s ! (i + k)) (t ! k))"

lemma occurs_at_eq: "occurs_at (=) s t i \<longleftrightarrow> take (length t) (drop i s) = t \<and> i + length t \<le> length s"
  by (auto simp: occurs_at_def list_eq_iff_nth_eq)

lemma find_loop_sound:
  assumes "find_loop match (t @ rest) (length t) (drop index s) index state = Some (Some i)"
    and "state < length t" "state \<le> index" "index \<le> length s"
    and "\<forall>k < state. match (s ! (index - state + k)) (t ! k)"
  shows "occurs_at match s t i"
  using assms
proof (induction "drop index s" arbitrary: index state)
  case Nil
  then show ?case by (metis find_loop.simps(1) option.distinct(1) option.inject)
next
  case (Cons c cs)
  have ix: "index < length s" "c = s ! index" "cs = drop (index + 1) s"
    using Cons.hyps(2) by (metis drop_eq_Nil2 linorder_not_less list.distinct(1))
      (metis Cons.hyps(2) drop_eq_Nil2 linorder_not_less list.distinct(1) nth_via_drop,
       metis Cons.hyps(2) add.commute drop_Suc plus_1_eq_Suc tl_drop list.sel(3))
  let ?state1 = "if match c (t ! state) then state + 1 else 0"
  have run: "(if ?state1 = length t then Some (Some (index - (length t - 1)))
      else find_loop match (t @ rest) (length t) (drop (index + 1) s) (index + 1) ?state1)
      = Some (Some i)"
    using Cons.prems(1,2) Cons.hyps(2) ix(3)
    by (simp add: read_at_def nth_append Let_def flip: Cons.hyps(2) split: if_splits)
  have prefix: "\<forall>k < ?state1. match (s ! (index + 1 - ?state1 + k)) (t ! k)"
    using Cons.prems(3,5) ix(2) by (auto simp: less_Suc_eq)
  show ?case
  proof (cases "?state1 = length t")
    case True
    then have "i = index + 1 - length t" using run Cons.prems(2) by (auto split: if_splits)
    then show ?thesis
      using prefix True ix(1) Cons.prems(3) by (auto simp: occurs_at_def split: if_splits)
  next
    case False
    then show ?thesis
      using run prefix Cons.prems(2,3) ix
      by (intro Cons.hyps(1) [of "index + 1" ?state1]) (auto split: if_splits)
  qed
qed

text \<open>The search always ends with an answer.\<close>

lemma find_loop_total:
  "state < length t \<Longrightarrow> \<exists>r. find_loop match (t @ rest) (length t) cs index state = Some r"
  by (induction cs arbitrary: index state) (auto simp: read_at_def Let_def)

text \<open>A target that starts where the search has just started over is found.\<close>

lemma find_loop_here:
  assumes "state < length t" "length t \<le> state + length cs" "state \<le> index"
    and "\<forall>k < length t - state. match (cs ! k) (t ! (state + k))"
  shows "find_loop match (t @ rest) (length t) cs index state = Some (Some (index - state))"
  using assms
proof (induction cs arbitrary: index state)
  case (Cons c cs)
  have c: "match c (t ! state)" using Cons.prems(1,4) by force
  show ?case
  proof (cases "Suc state = length t")
    case True
    then show ?thesis using Cons.prems c by (auto simp: read_at_def nth_append)
  next
    case False
    have "match (cs ! k) (t ! (Suc state + k))" if "k < length t - Suc state" for k
      using Cons.prems(4) [THEN spec, of "Suc k"] that by auto
    then have "find_loop match (t @ rest) (length t) cs (index + 1) (Suc state)
        = Some (Some (index + 1 - Suc state))"
      using Cons.prems False by (intro Cons.IH) auto
    then show ?thesis using Cons.prems c False by (auto simp: read_at_def nth_append)
  qed
qed simp

text \<open>Before a place the search either finds something or arrives there in some state, which
  is the start when the last character fits nowhere in the target.\<close>

lemma find_loop_split:
  assumes "state < length t"
  shows "(\<exists>i < index + length p.
      find_loop match (t @ rest) (length t) (p @ cs) index state = Some (Some i))
    \<or> (\<exists>state1 < length t.
      find_loop match (t @ rest) (length t) (p @ cs) index state
        = find_loop match (t @ rest) (length t) cs (index + length p) state1
      \<and> (p \<noteq> [] \<and> (\<forall>c \<in> set t. \<not> match (last p) c) \<longrightarrow> state1 = 0) \<and> (p = [] \<longrightarrow> state1 = state))"
  using assms
proof (induction p arbitrary: index state)
  case (Cons c p)
  let ?state1 = "if match c (t ! state) then state + 1 else 0"
  show ?case
  proof (cases "?state1 = length t")
    case True
    then show ?thesis
      using Cons.prems
      by (intro disjI1 exI [of _ "index - (length t - 1)"])
        (auto simp: read_at_def nth_append split: if_splits)
  next
    case False
    have less: "?state1 < length t" using False Cons.prems by auto
    have step: "find_loop match (t @ rest) (length t) ((c # p) @ cs) index state
        = find_loop match (t @ rest) (length t) (p @ cs) (index + 1) ?state1"
      using Cons.prems False by (auto simp: read_at_def nth_append Let_def)
    have zero: "?state1 = 0" if "\<forall>d \<in> set t. \<not> match c d"
      using that Cons.prems by auto
    from Cons.IH [OF less, of "index + 1"]
    show ?thesis
    proof (elim disjE exE conjE)
      fix i
      assume "i < index + 1 + length p"
        "find_loop match (t @ rest) (length t) (p @ cs) (index + 1) ?state1 = Some (Some i)"
      then show ?thesis unfolding step by (intro disjI1 exI [of _ i]) simp
    next
      fix state1
      assume r: "state1 < length t"
        "find_loop match (t @ rest) (length t) (p @ cs) (index + 1) ?state1
          = find_loop match (t @ rest) (length t) cs (index + 1 + length p) state1"
        "p \<noteq> [] \<and> (\<forall>c \<in> set t. \<not> match (last p) c) \<longrightarrow> state1 = 0" "p = [] \<longrightarrow> state1 = ?state1"
      have "(\<forall>d \<in> set t. \<not> match (last (c # p)) d) \<longrightarrow> state1 = 0"
        using r(3,4) zero by (cases "p = []") simp_all
      then show ?thesis unfolding step using r(1,2) by (intro disjI2 exI [of _ state1]) simp
    qed
  qed
qed auto

lemma find_with_text:
  assumes "is_text s" "is_text t"
  shows "find_with match (s @ NUL # xs) (t @ NUL # ys) =
    (if t \<noteq> [] \<and> length t \<le> length s
     then find_loop match (t @ NUL # ys) (length t) s 0 0 else Some None)"
  using assms by (simp add: find_with_def chars_of_text not_less)

text \<open>Both searches at once: they answer; a place they give is one of the target; and they
  miss no target whose place is not preceded by a character that fits into the target.\<close>

lemma find_with_correct:
  assumes "is_text s" "is_text t"
  shows "\<exists>r. find_with match (s @ NUL # xs) (t @ NUL # ys) = Some r
    \<and> (\<forall>i. r = Some i \<longrightarrow> t \<noteq> [] \<and> occurs_at match s t i)
    \<and> (\<forall>p q. s = p @ q \<and> t \<noteq> [] \<and> occurs_at match s t (length p)
        \<and> (p \<noteq> [] \<longrightarrow> (\<forall>c \<in> set t. \<not> match (last p) c)) \<longrightarrow> (\<exists>i \<le> length p. r = Some i))"
proof (cases "t \<noteq> [] \<and> length t \<le> length s")
  case False
  then show ?thesis
    by (intro exI [of _ None]) (auto simp: find_with_text [OF assms] occurs_at_def)
next
  case True
  let ?r = "find_loop match (t @ NUL # ys) (length t) s 0 0"
  from True obtain r where r: "?r = Some r"
    using find_loop_total [of 0 t match "NUL # ys" s 0] by auto
  have sound: "t \<noteq> [] \<and> occurs_at match s t i" if "r = Some i" for i
    using find_loop_sound [of match t "NUL # ys" 0 s 0 i] r that True by simp
  have complete: "\<exists>i \<le> length p. r = Some i"
    if s: "s = p @ q" and occ: "occurs_at match s t (length p)"
      and last: "p \<noteq> [] \<longrightarrow> (\<forall>c \<in> set t. \<not> match (last p) c)" for p q
  proof -
    have here: "find_loop match (t @ NUL # ys) (length t) q (length p) 0 = Some (Some (length p))"
      using find_loop_here [of 0 t q "length p" match "NUL # ys"] occ True
      by (auto simp: s occurs_at_def)
    have "0 < length t" using True by simp
    from find_loop_split [OF this, of 0 p match "NUL # ys" q] r here last s
    show ?thesis by (elim disjE exE conjE) force+
  qed
  show ?thesis
    using r sound complete True by (intro exI [of _ r]) (auto simp: find_with_text [OF assms])
qed

lemma string_util_find_sound:
  assumes "is_text s" "is_text t"
  obtains r where "string_util_find (s @ NUL # xs) (t @ NUL # ys) = Some r"
    and "\<And>i. r = Some i \<Longrightarrow> t \<noteq> [] \<and> i + length t \<le> length s \<and> take (length t) (drop i s) = t"
  using find_with_correct [OF assms, of "(=)" xs ys]
  unfolding string_util_find_def [symmetric] occurs_at_eq
  by (elim exE conjE) (rule that, auto)

text \<open>\<open>string_util_find\<close> always answers; the index it gives is a place where the target stands in
  the source; and it finds a target that stands at the start of the source or after a
  character that does not occur in the target.\<close>

theorem string_util_find_correct:
  assumes "is_text s" "is_text t"
  shows "\<exists>r. string_util_find (s @ NUL # xs) (t @ NUL # ys) = Some r
    \<and> (\<forall>i. r = Some i \<longrightarrow> t \<noteq> [] \<and> i + length t \<le> length s \<and> take (length t) (drop i s) = t)
    \<and> (\<forall>p q. s = p @ t @ q \<and> t \<noteq> [] \<and> (p \<noteq> [] \<longrightarrow> last p \<notin> set t)
        \<longrightarrow> (\<exists>i \<le> length p. r = Some i))"
proof -
  obtain r where r: "find_with (=) (s @ NUL # xs) (t @ NUL # ys) = Some r"
    "\<forall>i. r = Some i \<longrightarrow> t \<noteq> [] \<and> occurs_at (=) s t i"
    "\<forall>p q. s = p @ q \<and> t \<noteq> [] \<and> occurs_at (=) s t (length p)
        \<and> (p \<noteq> [] \<longrightarrow> (\<forall>c \<in> set t. last p \<noteq> c)) \<longrightarrow> (\<exists>i \<le> length p. r = Some i)"
    using find_with_correct [OF assms, of "(=)" xs ys] by (elim exE conjE) (rule that)
  have complete: "\<exists>i \<le> length p. r = Some i"
    if s: "s = p @ t @ q" "t \<noteq> []" "p \<noteq> [] \<longrightarrow> last p \<notin> set t" for p q
  proof -
    have "occurs_at (=) s t (length p)" by (simp add: occurs_at_eq s(1))
    moreover have "p \<noteq> [] \<longrightarrow> (\<forall>c \<in> set t. last p \<noteq> c)" using s(3) by blast
    ultimately show ?thesis using r(3) s(1,2) by blast
  qed
  have sound: "t \<noteq> [] \<and> i + length t \<le> length s \<and> take (length t) (drop i s) = t"
    if "r = Some i" for i using r(2) that by (simp add: occurs_at_eq)
  show ?thesis
    unfolding string_util_find_def using r(1) sound complete by blast
qed

lemma string_util_find_correct_witness:
  "\<exists>i \<le> 3. string_util_find (''u:x/r'' @ [NUL]) (''/r'' @ [NUL]) = Some (Some i)"
proof -
  have texts: "is_text ''u:x/r''" "is_text ''/r''" by simp_all
  obtain r where r: "string_util_find (''u:x/r'' @ [NUL]) (''/r'' @ [NUL]) = Some r"
    and found: "\<forall>p q. ''u:x/r'' = p @ ''/r'' @ q \<and> ''/r'' \<noteq> [] \<and> (p \<noteq> [] \<longrightarrow> last p \<notin> set ''/r'')
        \<longrightarrow> (\<exists>i \<le> length p. r = Some i)"
    using string_util_find_correct [OF texts, of "[]" "[]"] by (elim exE conjE) (rule that)
  show ?thesis
    using r found [THEN spec, of "''u:x''", THEN spec, of "[]"] by (simp add: numeral_3_eq_3)
qed

text \<open>The search is not complete: a target whose place follows a part of itself is missed,
  because the character that breaks a partial match is not looked at again.\<close>

theorem string_util_find_misses:
  "string_util_find (cstring ''aab'') (cstring ''ab'') = Some None
    \<and> string_util_find_case_insensitive (cstring ''AaB'') (cstring ''ab'') = Some None
    \<and> take 2 (drop 1 ''aab'') = ''ab''"
  by code_simp

text \<open>\<open>string_util_strnlen\<close> gives the length of the text when a terminator comes within the
  limit and the limit otherwise, and never reads beyond the limit.\<close>

theorem string_util_strnlen_correct:
  assumes "is_text s"
  shows "(length s < unat n
        \<longrightarrow> string_util_strnlen (s @ NUL # rest) n = Some (size_of_nat (length s)))
    \<and> (unat n \<le> length s \<longrightarrow> string_util_strnlen s n = Some n)"
  using strnlen_loop_text [OF assms, of 0 n rest] strnlen_loop_limit [OF assms, of n 0 "unat n" "[]"]
    unat_less_64 [of n]
  by (simp add: string_util_strnlen_def)

lemma string_util_strnlen_correct_witness:
  "string_util_strnlen ''abc'' 2 = Some 2"
  using string_util_strnlen_correct [of "''abc''" 2 "[]"] by simp

end
