(* ===== verification/MCL_String.thy ===== *)
theory MCL_String
  imports MCL_List MCL_String_Util
begin

text \<open>
  \<^verbatim>\<open>string_type.c\<close>: the counted string \<^verbatim>\<open>string_t\<close>.  A handle holds the characters its
  buffer points to (to the end of the object), the length and how the buffer is owned.
  The calls that build a string give a handle or none, the world after them, and no value
  where the C code would read or write outside of an object.
\<close>

section \<open>The data\<close>

datatype E_MCL_STRING_TYPE =
    MCL_STRING_COPY_DESTROY
  | MCL_STRING_NOT_COPY_DESTROY
  | MCL_STRING_NOT_COPY_NOT_DESTROY

record string_t =
  string_buffer :: "char list option"
  string_length :: mcl_size_t
  string_type :: E_MCL_STRING_TYPE

definition sizeof_string :: mcl_size_t where "sizeof_string = 24"

section \<open>Building and releasing\<close>

text \<open>\<^verbatim>\<open>_initialize\<close>: when the copy cannot be allocated the handle keeps its length.\<close>

definition initialize_buffer ::
    "string_t \<Rightarrow> char list option \<Rightarrow> mcl_size_t \<Rightarrow> world
      \<Rightarrow> (E_MCL_ERROR_CODE \<times> string_t \<times> world) option" where
  "initialize_buffer s value_opt value_length w =
    (case value_opt of
      Some val \<Rightarrow> do {
        len \<leftarrow> (if value_length > 0 then Some value_length else string_util_strlen val);
        if string_type s = MCL_STRING_COPY_DESTROY
        then (case memory_allocate (len + 1) w of
            (None, w1) \<Rightarrow> Some (MCL_OUT_OF_MEMORY, s\<lparr>string_buffer := None\<rparr>, w1)
          | (Some a, w1) \<Rightarrow> do {
              b1 \<leftarrow> write_at (unwritten w (unat (len + 1))) 0 [NUL];
              b2 \<leftarrow> string_util_strncpy b1 val len;
              b3 \<leftarrow> write_at b2 (unat len) [NUL];
              Some (MCL_OK, s\<lparr>string_buffer := Some b3, string_length := len\<rparr>, w1)
            })
        else Some (MCL_OK, s\<lparr>string_buffer := Some val, string_length := len\<rparr>, w)
      }
    | None \<Rightarrow>
        if 0 < value_length \<and> string_type s = MCL_STRING_COPY_DESTROY
        then (case memory_allocate (value_length + 1) w of
            (None, w1) \<Rightarrow> Some (MCL_OUT_OF_MEMORY, s\<lparr>string_buffer := None\<rparr>, w1)
          | (Some a, w1) \<Rightarrow> do {
              b \<leftarrow> write_at (unwritten w (unat (value_length + 1))) (unat value_length) [NUL];
              Some (MCL_OK, s\<lparr>string_buffer := Some b, string_length := value_length\<rparr>, w1)
            })
        else Some (MCL_OK, s\<lparr>string_buffer := None, string_length := 0\<rparr>, w))"

text \<open>The three ways to make a handle differ in its type only: \<open>initialize_typed\<close> is their
  common body.  The members \<^verbatim>\<open>malloc\<close> leaves unset are not read before they are set.\<close>

definition initialize_typed ::
    "E_MCL_STRING_TYPE \<Rightarrow> char list option \<Rightarrow> mcl_size_t \<Rightarrow> world
      \<Rightarrow> (E_MCL_ERROR_CODE \<times> string_t option \<times> world) option" where
  "initialize_typed type value_opt value_length w =
    (case memory_allocate sizeof_string w of
      (None, w1) \<Rightarrow> Some (MCL_OUT_OF_MEMORY, None, w1)
    | (Some a, w1) \<Rightarrow> do {
        (result, s, w2) \<leftarrow> initialize_buffer
          \<lparr>string_buffer = None, string_length = 0, string_type = type\<rparr> value_opt value_length w1;
        if result \<noteq> MCL_OK then Some (result, None, memory_free w2)
        else Some (result, Some s, w2)
      })"

definition string_initialize ::
    "string_t \<Rightarrow> world \<Rightarrow> (E_MCL_ERROR_CODE \<times> string_t option \<times> world) option" where
  "string_initialize other w =
    initialize_typed MCL_STRING_COPY_DESTROY (string_buffer other) (string_length other) w"

definition string_initialize_new ::
    "char list option \<Rightarrow> mcl_size_t \<Rightarrow> world
      \<Rightarrow> (E_MCL_ERROR_CODE \<times> string_t option \<times> world) option" where
  "string_initialize_new value_opt value_length w =
    initialize_typed MCL_STRING_COPY_DESTROY value_opt value_length w"

definition string_initialize_dynamic ::
    "char list option \<Rightarrow> mcl_size_t \<Rightarrow> world
      \<Rightarrow> (E_MCL_ERROR_CODE \<times> string_t option \<times> world) option" where
  "string_initialize_dynamic value_opt value_length w =
    initialize_typed MCL_STRING_NOT_COPY_DESTROY value_opt value_length w"

definition string_initialize_static ::
    "char list option \<Rightarrow> mcl_size_t \<Rightarrow> world
      \<Rightarrow> (E_MCL_ERROR_CODE \<times> string_t option \<times> world) option" where
  "string_initialize_static value_opt value_length w =
    initialize_typed MCL_STRING_NOT_COPY_NOT_DESTROY value_opt value_length w"

definition string_release :: "string_t \<Rightarrow> world \<Rightarrow> string_t \<times> world" where
  "string_release s w =
    (if string_buffer s \<noteq> None
     then (s\<lparr>string_buffer := None, string_length := 0\<rparr>,
           if string_type s = MCL_STRING_COPY_DESTROY \<or> string_type s = MCL_STRING_NOT_COPY_DESTROY
           then memory_free w else w)
     else (s, w))"

definition string_destroy :: "string_t option \<Rightarrow> world \<Rightarrow> string_t option \<times> world" where
  "string_destroy s w =
    (case s of
      None \<Rightarrow> (None, w)
    | Some s1 \<Rightarrow> (None, memory_free (snd (string_release s1 w))))"

definition string_set ::
    "string_t \<Rightarrow> char list option \<Rightarrow> mcl_size_t \<Rightarrow> world
      \<Rightarrow> (E_MCL_ERROR_CODE \<times> string_t \<times> world) option" where
  "string_set s value_opt value_length w =
    (let (s1, w1) = string_release s w in initialize_buffer s1 value_opt value_length w1)"

section \<open>Comparing\<close>

text \<open>\<open>same_memory\<close> says that the two pointers are equal.\<close>

definition string_compare_with_cstr ::
    "bool \<Rightarrow> string_t option \<Rightarrow> char list option \<Rightarrow> E_MCL_ERROR_CODE option" where
  "string_compare_with_cstr same_memory s other =
    (case s of
      None \<Rightarrow> Some MCL_FAIL
    | Some s1 \<Rightarrow>
        (case string_buffer s1 of
          None \<Rightarrow> Some MCL_FAIL
        | Some b \<Rightarrow>
            (case other of
              None \<Rightarrow> Some MCL_FAIL
            | Some c \<Rightarrow>
                if same_memory then Some MCL_OK
                else do {
                  len \<leftarrow> string_util_strlen c;
                  if len = string_length s1 then string_util_strncmp b c (string_length s1)
                  else Some MCL_FAIL
                })))"

definition string_compare ::
    "bool \<Rightarrow> string_t option \<Rightarrow> string_t option \<Rightarrow> E_MCL_ERROR_CODE option" where
  "string_compare same_memory s other =
    (case other of
      None \<Rightarrow> None
    | Some t \<Rightarrow> string_compare_with_cstr same_memory s (string_buffer t))"

section \<open>Splitting\<close>

text \<open>The loop of \<^verbatim>\<open>string_split\<close> over the indices from \<open>index\<close> on.  \<open>start\<close> is where
  \<^verbatim>\<open>temp_buffer\<close> points.  The first result is the value of \<^verbatim>\<open>result\<close> after the loop, then
  \<^verbatim>\<open>temp_buffer\<close> and \<^verbatim>\<open>temp_length\<close>.\<close>

type_synonym split_state = "nat \<times> nat \<times> list_t \<times> string_t list_heap \<times> world"

definition add_part ::
    "char list \<Rightarrow> split_state \<Rightarrow> (E_MCL_ERROR_CODE \<times> list_t \<times> string_t list_heap \<times> world) option"
  where
  "add_part buf st = (case st of (start, len, l, h, w) \<Rightarrow> do {
    (result, part, w1) \<leftarrow> string_initialize_new (Some (drop start buf)) (size_of_nat len) w;
    if result \<noteq> MCL_OK then Some (result, l, h, w1)
    else do {
      (result1, l1, h1, w2) \<leftarrow> list_add l part h w1;
      if result1 \<noteq> MCL_OK then Some (result1, l1, h1, snd (string_destroy part w2))
      else Some (result1, l1, h1, w2)
    }
  })"

function split_loop ::
    "char list \<Rightarrow> char \<Rightarrow> nat \<Rightarrow> nat \<Rightarrow> split_state \<Rightarrow> (E_MCL_ERROR_CODE \<times> split_state) option" where
  "split_loop buf token len index (start, temp_length, l, h, w) =
    (if \<not> index < len then Some (MCL_OK, start, temp_length, l, h, w)
     else do {
       c \<leftarrow> read_at buf index;
       if c \<noteq> token then split_loop buf token len (index + 1) (start, temp_length + 1, l, h, w)
       else if temp_length > 0
       then do {
         (result, l1, h1, w1) \<leftarrow> add_part buf (start, temp_length, l, h, w);
         if result \<noteq> MCL_OK then Some (result, start, 0, l1, h1, w1)
         else split_loop buf token len (index + 1) (start + (temp_length + 1), 0, l1, h1, w1)
       }
       else split_loop buf token len (index + 1) (start + 1, temp_length, l, h, w)
     })"
  by pat_completeness auto
termination by (relation "measure (\<lambda>(buf, token, len, index, st). len - index)") auto

definition destroy_string :: "string_t \<Rightarrow> world \<Rightarrow> world" where
  "destroy_string s w = snd (string_destroy (Some s) w)"

definition string_split ::
    "string_t \<Rightarrow> char \<Rightarrow> string_t list_heap \<Rightarrow> world
      \<Rightarrow> (E_MCL_ERROR_CODE \<times> list_t option \<times> string_t list_heap \<times> world) option" where
  "string_split s token h w =
    (case list_initialize w of
      (code, None, w1) \<Rightarrow> Some (code, None, h, w1)
    | (code, Some l, w1) \<Rightarrow> do {
        buf \<leftarrow> (case string_buffer s of
            Some b \<Rightarrow> Some b
          | None \<Rightarrow> if string_length s = 0 then Some [] else None);
        (result, start, temp_length, l1, h1, w2) \<leftarrow>
          split_loop buf token (unat (string_length s)) 0 (0, 0, l, h, w1);
        (result1, l2, h2, w3) \<leftarrow>
          (if result = MCL_OK \<and> temp_length > 0 then do {
             c \<leftarrow> read_at buf start;
             if c \<noteq> NUL then add_part buf (start, temp_length, l1, h1, w2)
             else Some (result, l1, h1, w2)
           }
           else Some (result, l1, h1, w2));
        if result1 \<noteq> MCL_OK then do {
          (l3, h3, w4) \<leftarrow> list_destroy_with_content (Some l2) (Some destroy_string) h2 w3;
          Some (result1, l3, h3, w4)
        }
        else Some (result1, Some l2, h2, w3)
      })"

section \<open>Converting and joining\<close>

definition hex_table :: string where
  "hex_table = ''0123456789ABCDEF''"

text \<open>The loop of \<^verbatim>\<open>string_convert_binary_to_hex\<close> from byte \<open>i\<close> on.\<close>

fun hex_loop :: "8 word list \<Rightarrow> nat \<Rightarrow> char list \<Rightarrow> char list option" where
  "hex_loop [] i out = Some out"
| "hex_loop (b # bs) i out = do {
    hi \<leftarrow> read_at hex_table (unat (and (drop_bit 4 b) 0x0F));
    out1 \<leftarrow> write_at out (i * 2) [hi];
    lo \<leftarrow> read_at hex_table (unat (and b 0x0F));
    out2 \<leftarrow> write_at out1 (i * 2 + 1) [lo];
    hex_loop bs (i + 1) out2
  }"

text \<open>When the buffer cannot be allocated the call fails and the handle stays with the
  caller, without a buffer and with the new length.\<close>

definition string_convert_binary_to_hex ::
    "8 word list \<Rightarrow> mcl_size_t \<Rightarrow> world
      \<Rightarrow> (E_MCL_ERROR_CODE \<times> string_t option \<times> world) option" where
  "string_convert_binary_to_hex buffer buffer_size w = do {
    (code, hex_data, w1) \<leftarrow> string_initialize_new None 0 w;
    if code \<noteq> MCL_OK then Some (code, hex_data, w1)
    else do {
      s \<leftarrow> hex_data;
      let s1 = s\<lparr>string_length := 2 * buffer_size\<rparr>;
      (case memory_allocate_with_zero 1 (string_length s1 + 1) w1 of
        (None, w2) \<Rightarrow> Some (MCL_OUT_OF_MEMORY, Some (s1\<lparr>string_buffer := None\<rparr>), w2)
      | (Some a, w2) \<Rightarrow> do {
          guard (unat buffer_size \<le> length buffer);
          b \<leftarrow> hex_loop (take (unat buffer_size) buffer) 0 (zeroed (unat (string_length s1 + 1)));
          b1 \<leftarrow> write_at b (unat (buffer_size * 2)) [NUL];
          Some (MCL_OK, Some (s1\<lparr>string_buffer := Some b1\<rparr>), w2)
        })
    }
  }"

text \<open>The text \<^verbatim>\<open>snprintf\<close> makes of two string arguments; each must point to a string.\<close>

definition format_two :: "char list option \<Rightarrow> char list option \<Rightarrow> string option" where
  "format_two a b = do {
    a1 \<leftarrow> a; s \<leftarrow> chars_of a1;
    b1 \<leftarrow> b; t \<leftarrow> chars_of b1;
    Some (s @ t)
  }"

definition string_concatenate ::
    "string_t \<Rightarrow> string_t \<Rightarrow> world \<Rightarrow> (E_MCL_ERROR_CODE \<times> string_t option \<times> world) option" where
  "string_concatenate string_1 string_2 w = do {
    let result_length = string_length string_1 + string_length string_2;
    (code, result, w1) \<leftarrow> string_initialize_new None result_length w;
    if code \<noteq> MCL_OK then Some (code, result, w1)
    else do {
      r \<leftarrow> result;
      out \<leftarrow> format_two (string_buffer string_1) (string_buffer string_2);
      (code1, b1) \<leftarrow> string_util_snprintf (case string_buffer r of None \<Rightarrow> [] | Some b \<Rightarrow> b)
        (result_length + 1) out;
      let r1 = r\<lparr>string_buffer := map_option (\<lambda>_. b1) (string_buffer r)\<rparr>;
      if code1 \<noteq> MCL_OK
      then (let (r2, w2) = string_destroy (Some r1) w1 in Some (code1, r2, w2))
      else Some (code1, Some r1, w1)
    }
  }"

definition string_concatenate_cstr ::
    "string_t \<Rightarrow> char list \<Rightarrow> world \<Rightarrow> (E_MCL_ERROR_CODE \<times> string_t option \<times> world) option" where
  "string_concatenate_cstr s c_string w = do {
    c_string_length \<leftarrow> string_util_strlen c_string;
    let result_length = string_length s + c_string_length;
    (code, result, w1) \<leftarrow> string_initialize_new None result_length w;
    (code1, result1) \<leftarrow>
      (if code = MCL_OK then do {
         r \<leftarrow> result;
         out \<leftarrow> format_two (string_buffer s) (Some c_string);
         (code2, b1) \<leftarrow> string_util_snprintf (case string_buffer r of None \<Rightarrow> [] | Some b \<Rightarrow> b)
           (result_length + 1) out;
         Some (code2, Some (r\<lparr>string_buffer := map_option (\<lambda>_. b1) (string_buffer r)\<rparr>))
       }
       else Some (code, result));
    if code1 \<noteq> MCL_OK
    then (let (r2, w2) = string_destroy result1 w1 in Some (code1, r2, w2))
    else Some (code1, result1, w1)
  }"

definition string_replace ::
    "string_t \<Rightarrow> char list \<Rightarrow> char list \<Rightarrow> world
      \<Rightarrow> (E_MCL_ERROR_CODE \<times> string_t option \<times> world) option" where
  "string_replace source old_string new_string w = do {
    old_string_length \<leftarrow> string_util_strlen old_string;
    new_string_length \<leftarrow> string_util_strlen new_string;
    let target_string_length = string_length source - old_string_length + new_string_length;
    (case memory_allocate_with_zero (target_string_length + 1) 1 w of
      (None, w1) \<Rightarrow> Some (MCL_OUT_OF_MEMORY, None, w1)
    | (Some a, w1) \<Rightarrow> do {
        buf \<leftarrow> string_buffer source;
        found \<leftarrow> string_util_find buf old_string;
        (case found of
          None \<Rightarrow> Some (MCL_FAIL, None, memory_free w1)
        | Some start \<Rightarrow> do {
            let start_index = size_of_nat start;
            t1 \<leftarrow> string_util_strncat (zeroed (unat (target_string_length + 1))) buf start_index;
            t2 \<leftarrow> string_util_strncat t1 new_string new_string_length;
            guard (start + unat old_string_length \<le> length buf);
            t3 \<leftarrow> string_util_strncat t2 (drop (start + unat old_string_length) buf)
              (string_length source - (start_index + old_string_length));
            string_initialize_dynamic (Some t3) target_string_length w1
          })
      })
  }"

section \<open>Strings that are well formed\<close>

text \<open>A handle says the text \<open>s\<close>: its buffer starts with \<open>s\<close> and a terminator and its length is
  that of \<open>s\<close>.  An empty handle has no buffer.\<close>

definition says :: "string_t \<Rightarrow> string \<Rightarrow> bool" where
  "says str s \<longleftrightarrow> is_text s \<and> length s + 1 < 2 ^ 64
    \<and> (\<exists>rest. string_buffer str = Some (s @ NUL # rest))
    \<and> string_length str = size_of_nat (length s)"

text \<open>The number of blocks \<^verbatim>\<open>string_destroy\<close> returns.\<close>

definition blocks_of :: "string_t \<Rightarrow> int" where
  "blocks_of str =
    1 + (if string_buffer str \<noteq> None \<and> string_type str \<noteq> MCL_STRING_NOT_COPY_NOT_DESTROY
         then 1 else 0)"

lemma live_destroy_string [simp]: "live (destroy_string s w) = live w - blocks_of s"
  by (cases "string_type s")
    (auto simp: destroy_string_def string_destroy_def string_release_def blocks_of_def)

lemma live_string_destroy:
  "live (snd (string_destroy (Some s) w)) = live w - blocks_of s"
  using live_destroy_string [of s w] by (simp add: destroy_string_def)

text \<open>What \<^verbatim>\<open>_initialize\<close> makes of a given text of the given length, and of a text whose
  length it measures.\<close>

lemma unat_succ_length:
  "length s + 1 < 2 ^ 64 \<Longrightarrow> unat (size_of_nat (length s) + 1) = length s + 1"
  by (subst unat_add_one) (simp_all add: unat_size_of_nat)

lemma copy_of_text:
  assumes "is_text s" "length s + 1 < 2 ^ 64"
  shows "do {
      b1 \<leftarrow> write_at (unwritten w (length s + 1)) 0 [NUL];
      b2 \<leftarrow> string_util_strncpy b1 (s @ rest) (size_of_nat (length s));
      write_at b2 (length s) [NUL]
    } = Some (s @ [NUL])"
  using assms
  by (simp add: write_at_def string_util_strncpy_def unat_size_of_nat chars_upto_text)

lemma initialize_buffer_copy:
  assumes "is_text s" "length s + 1 < 2 ^ 64" "string_type str = MCL_STRING_COPY_DESTROY"
    and "len = size_of_nat (length s) \<and> s \<noteq> [] \<or> len = 0 \<and> (\<exists>more. rest = NUL # more)"
  shows "initialize_buffer str (Some (s @ rest)) len w =
    (case memory_allocate (size_of_nat (length s) + 1) w of
      (None, w1) \<Rightarrow> Some (MCL_OUT_OF_MEMORY, str\<lparr>string_buffer := None\<rparr>, w1)
    | (Some a, w1) \<Rightarrow> Some (MCL_OK,
        str\<lparr>string_buffer := Some (s @ [NUL]), string_length := size_of_nat (length s)\<rparr>, w1))"
proof -
  have len: "(if len > 0 then Some len else string_util_strlen (s @ rest))
      = Some (size_of_nat (length s))"
    using assms(1,2,4)
    by (auto simp: string_util_strlen_text size_pos_iff unat_size_of_nat)
  have n: "unat (size_of_nat (length s)) = length s"
    using assms(2) by (intro unat_size_of_nat) simp
  show ?thesis
    using copy_of_text [OF assms(1,2), of w rest] assms(3) unat_succ_length [OF assms(2)]
    unfolding initialize_buffer_def option.case len
    by (auto simp: n bind_eq_Some_conv split: prod.splits option.splits)
qed

definition handle_of :: "string \<Rightarrow> string_t" where
  "handle_of s = \<lparr>string_buffer = Some (s @ [NUL]), string_length = size_of_nat (length s),
    string_type = MCL_STRING_COPY_DESTROY\<rparr>"

lemma says_handle_of: "is_text s \<Longrightarrow> length s + 1 < 2 ^ 64 \<Longrightarrow> says (handle_of s) s"
  by (auto simp: says_def handle_of_def)

lemma blocks_of_handle_of [simp]: "blocks_of (handle_of s) = 2"
  by (simp add: blocks_of_def handle_of_def)

lemma string_type_handle_of [simp]: "string_type (handle_of s) = MCL_STRING_COPY_DESTROY"
  by (simp add: handle_of_def)

text \<open>The two allocations of a string of \<open>n\<close> characters, and what they leave of the world.\<close>

definition two_blocks :: "mcl_size_t \<Rightarrow> world \<Rightarrow> bool \<times> world" where
  "two_blocks n w =
    (case memory_allocate sizeof_string w of
      (None, w1) \<Rightarrow> (False, w1)
    | (Some a, w1) \<Rightarrow>
        (case memory_allocate (n + 1) w1 of
          (None, w2) \<Rightarrow> (False, memory_free w2)
        | (Some b, w2) \<Rightarrow> (True, w2)))"

lemma live_two_blocks:
  "two_blocks n w = (ok, w') \<Longrightarrow> live w' = live w + (if ok then 2 else 0)"
  by (auto simp: two_blocks_def split: prod.splits option.splits dest!: allocation_dests)

lemma two_blocks_granted:
  "upcoming w = [] \<Longrightarrow> n + 1 \<noteq> 0 \<Longrightarrow> two_blocks n w = (True, w\<lparr>live := live w + 2, fresh := fresh w + 2\<rparr>)"
  by (simp add: two_blocks_def memory_allocate_unbounded sizeof_string_def)

lemma succ_length_nonzero: "length s + 1 < 2 ^ 64 \<Longrightarrow> size_of_nat (length s) + 1 \<noteq> (0 :: mcl_size_t)"
  by (metis add_is_0 one_neq_zero unat_succ_length unsigned_0)

lemma string_initialize_new_text:
  assumes "is_text s" "length s + 1 < 2 ^ 64"
    and "len = size_of_nat (length s) \<and> s \<noteq> [] \<or> len = 0 \<and> (\<exists>more. rest = NUL # more)"
  shows "string_initialize_new (Some (s @ rest)) len w =
    (case two_blocks (size_of_nat (length s)) w of
      (False, w1) \<Rightarrow> Some (MCL_OUT_OF_MEMORY, None, w1)
    | (True, w1) \<Rightarrow> Some (MCL_OK, Some (handle_of s), w1))"
proof -
  let ?str = "\<lparr>string_buffer = None, string_length = 0, string_type = MCL_STRING_COPY_DESTROY\<rparr>"
  have "initialize_buffer ?str (Some (s @ rest)) len w1 =
    (case memory_allocate (size_of_nat (length s) + 1) w1 of
      (None, w2) \<Rightarrow> Some (MCL_OUT_OF_MEMORY, ?str, w2)
    | (Some a, w2) \<Rightarrow> Some (MCL_OK, handle_of s, w2))" for w1
    using assms by (subst initialize_buffer_copy) (auto simp: handle_of_def split: prod.splits option.splits)
  then show ?thesis
    by (simp add: string_initialize_new_def initialize_typed_def two_blocks_def
        split: prod.splits option.splits)
qed

text \<open>Copying a text into a new string gives a string that says it, with one block for the
  handle and one for the buffer, or reports that memory is out and leaves no block behind.\<close>

theorem string_initialize_new_correct:
  assumes "is_text s" "length s + 1 < 2 ^ 64"
    and "len = size_of_nat (length s) \<and> s \<noteq> [] \<or> len = 0 \<and> (\<exists>more. rest = NUL # more)"
  shows "\<exists>code r w'. string_initialize_new (Some (s @ rest)) len w = Some (code, r, w')
    \<and> (case r of
        Some str \<Rightarrow> code = MCL_OK \<and> says str s \<and> string_type str = MCL_STRING_COPY_DESTROY
          \<and> live w' = live w + blocks_of str \<and> blocks_of str = 2
      | None \<Rightarrow> code = MCL_OUT_OF_MEMORY \<and> live w' = live w)
    \<and> (upcoming w = [] \<longrightarrow> r \<noteq> None \<and> upcoming w' = [])"
  using string_initialize_new_text [OF assms, of w] says_handle_of [OF assms(1,2)]
    two_blocks_granted [of w, OF _ succ_length_nonzero [OF assms(2)]]
  by (auto dest!: live_two_blocks split: prod.splits bool.splits)

lemma string_initialize_new_correct_witness:
  "\<exists>r w'. string_initialize_new (Some (''agent'' @ [NUL])) 0 quiet_world = Some (MCL_OK, Some r, w')
    \<and> says r ''agent'' \<and> live w' = live quiet_world + 2"
proof -
  have "is_text ''agent''" "length ''agent'' + 1 < 2 ^ 64"
    "(0 :: mcl_size_t) = size_of_nat (length ''agent'') \<and> ''agent'' \<noteq> []
      \<or> (0 :: mcl_size_t) = 0 \<and> (\<exists>more. [NUL] = NUL # more)" "upcoming quiet_world = []"
    by (simp_all add: quiet_world_def)
  from string_initialize_new_correct [OF this(1-3), of quiet_world] this(4)
  show ?thesis by fastforce
qed

text \<open>Comparing two strings, or a string with a C string, says whether the texts are equal;
  a missing handle or buffer never compares as equal.\<close>

theorem string_compare_correct:
  assumes "says a s" "says b t"
  shows "string_compare False (Some a) (Some b) = Some (if s = t then MCL_OK else MCL_FAIL)
    \<and> string_compare_with_cstr False (Some a) (Some (t @ NUL # rest))
        = Some (if s = t then MCL_OK else MCL_FAIL)
    \<and> string_compare same None (Some b) = Some MCL_FAIL
    \<and> string_compare_with_cstr same (Some a) None = Some MCL_FAIL"
proof -
  have a: "is_text s" "length s < 2 ^ 64" "string_length a = size_of_nat (length s)"
    and b: "is_text t" "length t < 2 ^ 64"
    using assms by (auto simp: says_def)
  obtain r1 r2 where buf: "string_buffer a = Some (s @ NUL # r1)"
    "string_buffer b = Some (t @ NUL # r2)"
    using assms by (auto simp: says_def)
  have eq: "string_compare_with_cstr False (Some a) (Some (t @ NUL # more))
      = Some (if s = t then MCL_OK else MCL_FAIL)" for more
  proof (cases "length s = length t")
    case True
    then show ?thesis
      using a b buf string_util_strncmp_text [of s t "NUL # r1" "NUL # more"]
      by (simp add: string_compare_with_cstr_def string_util_strlen_text)
  next
    case False
    then have "size_of_nat (length t) \<noteq> (size_of_nat (length s) :: mcl_size_t)"
      using a b by (simp add: size_eq_iff unat_size_of_nat)
    with False show ?thesis
      using a b buf by (auto simp: string_compare_with_cstr_def string_util_strlen_text)
  qed
  show ?thesis
    using eq [of rest] eq [of r2] buf
    by (simp add: string_compare_def string_compare_with_cstr_def [of _ None]
        string_compare_with_cstr_def [of _ _ None])
qed

lemma string_compare_correct_witness:
  "string_compare False (Some (handle_of ''tenant'')) (Some (handle_of ''tenant1'')) = Some MCL_FAIL"
  using string_compare_correct [of "handle_of ''tenant''" "''tenant''" "handle_of ''tenant1''"
      "''tenant1''"]
  by (simp add: says_handle_of)

section \<open>Conversion to hexadecimal digits\<close>

definition hex_pair :: "8 word \<Rightarrow> string" where
  "hex_pair b = [hex_table ! unat (and (drop_bit 4 b) 0x0F), hex_table ! unat (and b 0x0F)]"

definition hex_text :: "8 word list \<Rightarrow> string" where
  "hex_text bs = concat (map hex_pair bs)"

lemma length_hex_text [simp]: "length (hex_text bs) = 2 * length bs"
  by (induction bs) (simp_all add: hex_text_def hex_pair_def)

lemma nibble_less: "unat (and b (0x0F :: 8 word)) < 16"
proof -
  have "and b (0x0F :: 8 word) \<le> 0x0F" by (rule word_and_le1)
  then show ?thesis by (simp add: word_le_nat_alt)
qed

lemma length_hex_table: "length hex_table = 16"
  by (simp add: hex_table_def)

lemma hex_table_text: "c \<in> set hex_table \<Longrightarrow> c \<noteq> NUL"
  by (auto simp: hex_table_def)

lemma is_text_hex_text: "is_text (hex_text bs)"
proof -
  have "hex_table ! unat (and b (0x0F :: 8 word)) \<noteq> NUL" for b
    using nibble_less [of b] length_hex_table hex_table_text by (metis nth_mem)
  then show ?thesis by (induction bs) (simp_all add: hex_text_def hex_pair_def)
qed

lemma hex_loop_text:
  "2 * i + 2 * length bs \<le> length out \<Longrightarrow>
    hex_loop bs i out = Some (take (2 * i) out @ hex_text bs @ drop (2 * i + 2 * length bs) out)"
proof (induction bs arbitrary: i out)
  case Nil
  then show ?case by (simp add: hex_text_def)
next
  case (Cons b bs)
  let ?hi = "hex_table ! unat (and (drop_bit 4 b) 0x0F)"
  let ?lo = "hex_table ! unat (and b 0x0F)"
  let ?out1 = "take (2 * i) out @ ?hi # drop (2 * i + 1) out"
  let ?out2 = "take (2 * i) out @ ?hi # ?lo # drop (2 * i + 2) out"
  have 1: "write_at out (i * 2) [?hi] = Some ?out1"
    using Cons.prems by (simp add: write_at_def mult.commute)
  have 2: "write_at ?out1 (i * 2 + 1) [?lo] = Some ?out2"
    using Cons.prems by (simp add: write_at_def mult.commute)
  have "hex_loop bs (i + 1) ?out2 =
      Some (take (2 * (i + 1)) ?out2 @ hex_text bs @ drop (2 * (i + 1) + 2 * length bs) ?out2)"
    using Cons.prems by (intro Cons.IH) simp
  with 1 2 show ?case
    using Cons.prems nibble_less [of b] nibble_less [of "drop_bit 4 b"] length_hex_table
    by (simp add: hex_text_def hex_pair_def add.commute)
qed

lemma string_convert_binary_to_hex_steps:
  assumes "2 * length bs + 1 < 2 ^ 64"
  shows "string_convert_binary_to_hex bs (size_of_nat (length bs)) w =
    (case memory_allocate sizeof_string w of
      (None, w1) \<Rightarrow> Some (MCL_OUT_OF_MEMORY, None, w1)
    | (Some a, w1) \<Rightarrow>
        (case memory_allocate_with_zero 1 (size_of_nat (2 * length bs) + 1) w1 of
          (None, w2) \<Rightarrow> Some (MCL_OUT_OF_MEMORY,
            Some ((handle_of (hex_text bs))\<lparr>string_buffer := None\<rparr>), w2)
        | (Some b, w2) \<Rightarrow> Some (MCL_OK, Some (handle_of (hex_text bs)), w2)))"
proof -
  have n: "unat (size_of_nat (length bs)) = length bs"
    using assms by (intro unat_size_of_nat) simp
  have twice: "2 * size_of_nat (length bs) = (size_of_nat (2 * length bs) :: mcl_size_t)"
    "size_of_nat (length bs) * 2 = (size_of_nat (2 * length bs) :: mcl_size_t)"
    by (simp_all add: mult.commute)
  have n2: "unat (size_of_nat (2 * length bs)) = 2 * length bs"
    using assms by (intro unat_size_of_nat) simp
  have n3: "unat (size_of_nat (2 * length bs) + 1) = Suc (2 * length bs)"
    using assms n2 by (subst unat_add_one) simp_all
  have "hex_loop bs 0 (zeroed (Suc (2 * length bs))) = Some (hex_text bs @ [NUL])"
    using hex_loop_text [of 0 bs "zeroed (Suc (2 * length bs))"] by (simp add: zeroed_def replicate_Suc [of 0] del: replicate_Suc)
  then show ?thesis
    unfolding string_convert_binary_to_hex_def string_initialize_new_def initialize_typed_def
      initialize_buffer_def twice
    by (simp add: n n2 n3 twice write_at_def handle_of_def Let_def
        del: of_nat_mult of_nat_Suc hex_loop.simps split: prod.splits option.splits)
qed

text \<open>The conversion of bytes to hexadecimal gives two digits per byte, the high half first,
  and a terminated string of that length; when memory is out before the handle exists nothing
  is left behind, and when it is out for the buffer the handle is left to the caller although
  the call failed.\<close>

theorem string_convert_binary_to_hex_correct:
  assumes "2 * length bs + 1 < 2 ^ 64"
  shows "\<exists>code r w'. string_convert_binary_to_hex bs (size_of_nat (length bs)) w = Some (code, r, w')
    \<and> (code = MCL_OK \<longrightarrow> (\<exists>str. r = Some str \<and> says str (hex_text bs) \<and> live w' = live w + blocks_of str))
    \<and> (code \<noteq> MCL_OK \<longrightarrow> code = MCL_OUT_OF_MEMORY \<and> live w' = live w + (if r = None then 0 else 1))
    \<and> (upcoming w = [] \<longrightarrow> code = MCL_OK)
    \<and> (upcoming w = [True, False] \<longrightarrow> code = MCL_OUT_OF_MEMORY \<and> r \<noteq> None)"
proof -
  have n3: "size_of_nat (2 * length bs) + 1 \<noteq> (0 :: mcl_size_t)"
    using succ_length_nonzero [of "hex_text bs"] assms by simp
  have says: "says (handle_of (hex_text bs)) (hex_text bs)"
    using assms by (intro says_handle_of is_text_hex_text) simp
  show ?thesis
    unfolding string_convert_binary_to_hex_steps [OF assms]
    using says n3
    by (auto simp: memory_allocate_def memory_allocate_with_zero_def memory_calloc_def
        memory_malloc_def sizeof_string_def)
qed

lemma string_convert_binary_to_hex_correct_witness:
  "\<exists>str w'. string_convert_binary_to_hex [0x1A, 0xF0] (size_of_nat (length [0x1A, 0xF0 :: 8 word]))
      quiet_world = Some (MCL_OK, Some str, w') \<and> says str (hex_text [0x1A, 0xF0])"
  using string_convert_binary_to_hex_correct [of "[0x1A, 0xF0]" quiet_world]
  by (auto simp: quiet_world_def)

section \<open>Joining and replacing\<close>

lemma string_initialize_new_space:
  assumes "0 < n" "n + 1 \<noteq> 0"
  shows "string_initialize_new None n w =
    (case two_blocks n w of
      (False, w1) \<Rightarrow> Some (MCL_OUT_OF_MEMORY, None, w1)
    | (True, w1) \<Rightarrow> Some (MCL_OK,
        Some \<lparr>string_buffer = Some (unwritten w (unat n) @ [NUL]), string_length = n,
          string_type = MCL_STRING_COPY_DESTROY\<rparr>, w1))"
proof -
  have n1: "unat (n + 1) = Suc (unat n)"
    using assms(2) by (metis Suc_eq_plus1 unatSuc add.commute)
  have junk: "unwritten w1 k = unwritten w k" if "memory_allocate m w = (a, w1)" for m a w1 k
    using that by (cases a) (auto simp: unwritten_def dest!: allocation_dests)
  have cut: "write_at (unwritten v (Suc k)) k [NUL] = Some (unwritten v k @ [NUL])" for v k
    by (simp add: write_at_def) (simp add: unwritten_def)
  show ?thesis
    using assms(1)
    by (auto simp: string_initialize_new_def initialize_typed_def initialize_buffer_def
        two_blocks_def n1 cut junk split: prod.splits option.splits)
qed

text \<open>\<open>string_concatenate\<close> and \<open>string_concatenate_cstr\<close> on texts.\<close>

lemma format_two_text:
  "is_text s \<Longrightarrow> is_text t \<Longrightarrow>
    format_two (Some (s @ NUL # xs)) (Some (t @ NUL # ys)) = Some (s @ t)"
  by (simp add: format_two_def chars_of_text)

lemma snprintf_exact:
  assumes "out \<noteq> []" "length out < 2 ^ 31" "length block = length out + 1"
  shows "string_util_snprintf block (size_of_nat (length out) + 1) out = Some (MCL_OK, out @ [NUL])"
proof -
  have "unat (size_of_nat (length out) + 1) = length out + 1"
    using assms by (intro unat_succ_length) simp
  then show ?thesis
    using assms by (subst string_util_snprintf_fits) simp_all
qed

lemma string_concatenate_text:
  assumes a: "says a s" and b: "says b t" and len: "length s + length t < 2 ^ 31"
    and some: "s @ t \<noteq> []"
  shows "string_concatenate a b w =
    (case two_blocks (size_of_nat (length (s @ t))) w of
      (False, w1) \<Rightarrow> Some (MCL_OUT_OF_MEMORY, None, w1)
    | (True, w1) \<Rightarrow> Some (MCL_OK, Some (handle_of (s @ t)), w1))"
proof -
  have sum: "string_length a + string_length b = size_of_nat (length (s @ t))"
    using a b by (simp add: says_def)
  have n: "unat (size_of_nat (length (s @ t))) = length (s @ t)"
    using len by (intro unat_size_of_nat) simp
  have pos: "0 < size_of_nat (length (s @ t))" "size_of_nat (length (s @ t)) + 1 \<noteq> (0 :: mcl_size_t)"
    using some len by (simp_all only: size_pos_iff n) (simp, intro succ_length_nonzero, simp)
  have fmt: "format_two (string_buffer a) (string_buffer b) = Some (s @ t)"
    using a b by (auto simp: says_def format_two_text)
  have print: "string_util_snprintf (unwritten w (length (s @ t)) @ [NUL])
      (size_of_nat (length (s @ t)) + 1) (s @ t) = Some (MCL_OK, (s @ t) @ [NUL])"
    using some len by (intro snprintf_exact) simp_all
  show ?thesis
    unfolding string_concatenate_def Let_def sum string_initialize_new_space [OF pos] n
    by (auto simp: fmt print [simplified] handle_of_def split: prod.splits bool.splits)
qed

text \<open>Joining two strings gives a string that says the one text followed by the other, or
  memory is out and nothing is left behind.  Joining two empty strings is not defined: the
  result has no buffer and the terminator is printed through \<^verbatim>\<open>NULL\<close>.\<close>

theorem string_concatenate_correct:
  assumes "says a s" and "says b t" and "length s + length t < 2 ^ 31"
  shows "if s @ t \<noteq> []
    then (\<exists>code r w'. string_concatenate a b w = Some (code, r, w')
      \<and> (case r of
          Some str \<Rightarrow> code = MCL_OK \<and> says str (s @ t) \<and> live w' = live w + blocks_of str
        | None \<Rightarrow> code = MCL_OUT_OF_MEMORY \<and> live w' = live w))
    else string_concatenate a b w =
      (case memory_allocate sizeof_string w of
        (None, w1) \<Rightarrow> Some (MCL_OUT_OF_MEMORY, None, w1) | (Some x, w1) \<Rightarrow> None)"
proof (cases "s @ t = []")
  case False
  have "says (handle_of (s @ t)) (s @ t)"
    using assms by (intro says_handle_of) (auto simp: says_def)
  then show ?thesis
    using string_concatenate_text [OF assms False, of w] False
    by (auto split: prod.splits bool.splits dest!: live_two_blocks)
next
  case True
  then have "string_length a + string_length b = 0"
    "format_two (string_buffer a) (string_buffer b) = Some []"
    using assms by (auto simp: says_def format_two_def)
  then show ?thesis
    using True
    by (auto simp: string_concatenate_def string_initialize_new_def initialize_typed_def
        initialize_buffer_def string_util_snprintf_def vsnprintf_count_def string_destroy_def
        string_release_def write_at_def Let_def
        split: prod.splits option.splits)
qed

lemma string_concatenate_correct_witness:
  "\<exists>code r w'. string_concatenate (handle_of ''ten'') (handle_of ''ant'') quiet_world = Some (code, r, w')
    \<and> (case r of
        Some str \<Rightarrow> code = MCL_OK \<and> says str (''ten'' @ ''ant'') \<and> live w' = live quiet_world + blocks_of str
      | None \<Rightarrow> code = MCL_OUT_OF_MEMORY \<and> live w' = live quiet_world)"
  using string_concatenate_correct [of "handle_of ''ten''" "''ten''" "handle_of ''ant''" "''ant''"
      quiet_world]
  by (simp add: says_handle_of)

text \<open>Appending to a text that is followed by zeros.\<close>

lemma string_util_strncat_zeroed:
  assumes "is_text d" "is_text s" "length s < 2 ^ 64" "length s < k"
  shows "string_util_strncat (d @ zeroed k) (s @ rest) (size_of_nat (length s))
    = Some ((d @ s) @ zeroed (k - length s))"
proof -
  have z: "zeroed k = NUL # zeroed (k - 1)"
    using assms(4) by (cases k) (simp_all add: zeroed_def)
  have tail: "NUL # drop (length d + length s + 1) (d @ zeroed k) = zeroed (k - length s)"
    using assms(4) by (simp add: zeroed_def Suc_diff_Suc flip: replicate_Suc)
  have "take (length d + 1) (d @ zeroed k) = d @ [NUL]" by (simp add: z)
  then have "string_util_strncat (d @ zeroed k) (s @ rest) (size_of_nat (length s))
    = Some (d @ s @ NUL # drop (length d + length s + 1) (d @ zeroed k))"
    using assms by (intro string_util_strncat_text) simp_all
  then show ?thesis by (simp only: tail append_assoc)
qed

lemma string_initialize_dynamic_text:
  assumes "is_text s" "length s < 2 ^ 64"
  shows "string_initialize_dynamic (Some (s @ [NUL])) (size_of_nat (length s)) w =
    (case memory_allocate sizeof_string w of
      (None, w1) \<Rightarrow> Some (MCL_OUT_OF_MEMORY, None, w1)
    | (Some a, w1) \<Rightarrow> Some (MCL_OK,
        Some ((handle_of s)\<lparr>string_type := MCL_STRING_NOT_COPY_DESTROY\<rparr>), w1))"
proof -
  have "string_util_strlen (s @ [NUL]) = Some (size_of_nat (length s))"
    using assms by (simp add: string_util_strlen_text)
  then show ?thesis
    unfolding string_initialize_dynamic_def initialize_typed_def initialize_buffer_def option.case
    by (simp add: handle_of_def split: prod.splits option.splits)
qed

text \<open>The three appends of \<open>string_replace\<close>.\<close>

lemma replace_appends:
  assumes tx: "is_text s" "is_text new" and len: "length s + length new + 1 < 2 ^ 64"
    and i: "i + m \<le> length s"
  shows "do {
      t1 \<leftarrow> string_util_strncat (zeroed (length s - m + length new + 1)) (s @ NUL # xs) (size_of_nat i);
      t2 \<leftarrow> string_util_strncat t1 (new @ [NUL]) (size_of_nat (length new));
      string_util_strncat t2 (drop (i + m) (s @ NUL # xs)) (size_of_nat (length s - (i + m)))
    } = Some ((take i s @ new @ drop (i + m) s) @ [NUL])"
proof -
  have parts: "is_text (take i s)" "is_text (drop (i + m) s)"
    using tx(1) by (auto simp: is_text_def dest: in_set_takeD in_set_dropD)
  have 1: "string_util_strncat (zeroed (length s - m + length new + 1)) (s @ NUL # xs) (size_of_nat i)
    = Some (take i s @ zeroed (length s - m + length new + 1 - i))"
  proof -
    have il: "length (take i s) = i" using i by simp
    have "string_util_strncat ([] @ zeroed (length s - m + length new + 1))
        (take i s @ drop i (s @ NUL # xs)) (size_of_nat (length (take i s)))
      = Some (([] @ take i s) @ zeroed (length s - m + length new + 1 - length (take i s)))"
      using parts len i by (intro string_util_strncat_zeroed) (simp_all add: il)
    moreover have "take i s @ drop i (s @ NUL # xs) = s @ NUL # xs"
      using append_take_drop_id [of i "s @ NUL # xs"] i by simp
    ultimately show ?thesis by (simp only: il append_Nil)
  qed
  have 2: "string_util_strncat (take i s @ zeroed (length s - m + length new + 1 - i))
      (new @ [NUL]) (size_of_nat (length new))
    = Some ((take i s @ new) @ zeroed (length s - m + length new + 1 - i - length new))"
    using parts tx len i by (intro string_util_strncat_zeroed) simp_all
  have 3: "string_util_strncat ((take i s @ new) @ zeroed (length s - m + length new + 1 - i - length new))
      (drop (i + m) s @ NUL # xs) (size_of_nat (length (drop (i + m) s)))
    = Some (((take i s @ new) @ drop (i + m) s)
        @ zeroed (length s - m + length new + 1 - i - length new - length (drop (i + m) s)))"
    using parts tx len i by (intro string_util_strncat_zeroed) simp_all
  have "length s - m + length new + 1 - i - length new - length (drop (i + m) s) = 1"
    using i by simp
  moreover have "drop (i + m) (s @ NUL # xs) = drop (i + m) s @ NUL # xs"
    using i by simp
  ultimately show ?thesis
    using 1 2 3 by (simp add: zeroed_def del: drop_append)
qed

text \<open>Replacing a part of a string: when the search finds the part at index \<open>i\<close>, the result
  says the text with the part at \<open>i\<close> replaced; when it finds nothing the call fails and leaves
  nothing behind; when memory is out the call says so, and the buffer it had already filled is
  left behind when only the handle could not be allocated.\<close>

theorem string_replace_correct:
  assumes src: "says a s" and old: "is_text old" and new: "is_text new"
    and small: "length s + length new + 1 < 2 ^ 64" "length old < 2 ^ 64"
  shows "\<exists>found. string_util_find (the (string_buffer a)) (cstring old) = Some found
    \<and> (\<exists>code r w'. string_replace a (cstring old) (cstring new) w = Some (code, r, w')
      \<and> (case r of
          Some str \<Rightarrow> code = MCL_OK \<and> live w' = live w + blocks_of str
            \<and> (\<exists>i. found = Some i \<and> take (length old) (drop i s) = old
              \<and> says str (take i s @ new @ drop (i + length old) s))
        | None \<Rightarrow> code = MCL_OUT_OF_MEMORY \<and> live w' \<le> live w + (if found = None then 0 else 1)
            \<or> code = MCL_FAIL \<and> found = None \<and> live w' = live w))"
proof -
  obtain r1 where buf: "string_buffer a = Some (s @ NUL # r1)" using src by (auto simp: says_def)
  have tx: "is_text s" and slen: "string_length a = size_of_nat (length s)"
    using src by (auto simp: says_def)
  obtain found where found: "string_util_find (s @ NUL # r1) (old @ NUL # []) = Some found"
    and place: "\<And>i. found = Some i \<Longrightarrow>
      old \<noteq> [] \<and> i + length old \<le> length s \<and> take (length old) (drop i s) = old"
    by (rule string_util_find_sound [OF tx old, of r1 "[]"]) (rule that)
  have lens: "string_util_strlen (old @ [NUL]) = Some (size_of_nat (length old))"
    "string_util_strlen (new @ [NUL]) = Some (size_of_nat (length new))"
    using old new by (simp_all add: string_util_strlen_text)
  let ?n = "size_of_nat (length s) - size_of_nat (length old) + size_of_nat (length new) :: mcl_size_t"
  obtain b w1 where alloc: "memory_allocate_with_zero (?n + 1) 1 w = (b, w1)" by force
  note start = string_replace_def lens slen cstring_def buf Let_def alloc
  show ?thesis
  proof (cases b)
    case None
    then show ?thesis
      using found memory_allocate_with_zero_None [OF alloc [unfolded None]]
      by (intro exI [of _ found]) (simp add: start)
  next
    case (Some x)
    note live1 = memory_allocate_with_zero_Some [OF alloc [unfolded Some]]
    show ?thesis
    proof (cases found)
      case None
      then show ?thesis
        using found live1 Some by (intro exI [of _ found]) (simp add: start)
    next
      case found_at: (Some i)
      have i: "i + length old \<le> length s" "take (length old) (drop i s) = old"
        using place found_at by auto
      let ?r = "take i s @ new @ drop (i + length old) s"
      have n: "?n = size_of_nat (length ?r)"
      proof -
        have "length ?r = length s - length old + length new" using i by simp
        then show ?thesis using i(1) by (simp only: of_nat_add of_nat_diff)
      qed
      have rlen: "length ?r + 1 < 2 ^ 64" using i small by simp
      have un: "unat (?n + 1) = length s - length old + length new + 1"
        unfolding n using unat_succ_length [OF rlen] i by simp
      have tx_r: "is_text ?r"
        using tx new by (auto simp: is_text_def dest: in_set_takeD in_set_dropD)
      have m: "unat (size_of_nat (length old)) = length old"
        using small by (intro unat_size_of_nat)
      have last: "size_of_nat (length s) - (size_of_nat i + size_of_nat (length old))
          = (size_of_nat (length s - (i + length old)) :: mcl_size_t)"
        using i(1) by (simp only: of_nat_add of_nat_diff)
      have run: "string_replace a (cstring old) (cstring new) w
          = string_initialize_dynamic (Some (?r @ [NUL])) (size_of_nat (length ?r)) w1"
      proof -
        obtain t1 t2 where
          "string_util_strncat (zeroed (length s - length old + length new + 1)) (s @ NUL # r1)
            (size_of_nat i) = Some t1"
          "string_util_strncat t1 (new @ [NUL]) (size_of_nat (length new)) = Some t2"
          "string_util_strncat t2 (drop (i + length old) (s @ NUL # r1))
            (size_of_nat (length s - (i + length old))) = Some (?r @ [NUL])"
          using replace_appends [OF tx new small(1) i(1), of r1]
          unfolding bind_eq_Some_conv by (elim exE conjE) (rule that)
        moreover have "i + length old \<le> length (s @ NUL # r1)" using i(1) by simp
        ultimately show ?thesis
          unfolding string_replace_def cstring_def lens Option.bind.bind_lunit Let_def slen alloc Some
            buf prod.case option.case found found_at un m last
          by (simp only: Option.bind.bind_lunit guard_True n)
      qed
      let ?h = "(handle_of ?r)\<lparr>string_type := MCL_STRING_NOT_COPY_DESTROY\<rparr>"
      have h: "says ?h ?r" "blocks_of ?h = 2"
        using says_handle_of [OF tx_r rlen] by (simp_all add: says_def handle_of_def blocks_of_def)
      have find: "string_util_find (the (string_buffer a)) (cstring old) = Some (Some i)"
        using found found_at buf by (simp add: cstring_def)
      have dyn: "string_initialize_dynamic (Some (?r @ [NUL])) (size_of_nat (length ?r)) w1 =
        (case memory_allocate sizeof_string w1 of
          (None, w2) \<Rightarrow> Some (MCL_OUT_OF_MEMORY, None, w2)
        | (Some x, w2) \<Rightarrow> Some (MCL_OK, Some ?h, w2))"
        using rlen by (intro string_initialize_dynamic_text [OF tx_r]) simp
      show ?thesis
      proof (cases "memory_allocate sizeof_string w1")
        case (Pair c w2)
        show ?thesis
          unfolding run dyn Pair prod.case
          using h i(2) live1 find Pair
          by (intro exI [of _ "Some i"], cases c) (auto simp del: append_assoc dest!: allocation_dests)
      qed
    qed
  qed
qed

lemma string_replace_correct_witness:
  "\<exists>code r w'. string_replace (handle_of ''http://x/register'') (cstring ''register'') (cstring ''token'')
      quiet_world = Some (code, r, w')"
  using string_replace_correct [of "handle_of ''http://x/register''" "''http://x/register''"
      "''register''" "''token''" quiet_world]
  by (auto simp: says_handle_of)

section \<open>Splitting\<close>

text \<open>The parts of a text between the tokens, the empty ones left out; \<open>acc\<close> is the part that
  is being read.\<close>

fun parts_from :: "char \<Rightarrow> string \<Rightarrow> string \<Rightarrow> string list" where
  "parts_from token acc [] = (if acc = [] then [] else [acc])"
| "parts_from token acc (c # cs) =
    (if c = token then (if acc = [] then [] else [acc]) @ parts_from token [] cs
     else parts_from token (acc @ [c]) cs)"

definition parts :: "char \<Rightarrow> string \<Rightarrow> string list" where
  "parts token s = parts_from token [] s"

lemma parts_from_sound:
  "token \<notin> set acc \<Longrightarrow> p \<in> set (parts_from token acc s) \<Longrightarrow> p \<noteq> [] \<and> token \<notin> set p"
  by (induction token acc s rule: parts_from.induct) (auto split: if_splits)

lemma concat_parts_from:
  "token \<notin> set acc \<Longrightarrow> concat (parts_from token acc s) = acc @ filter (\<lambda>c. c \<noteq> token) s"
  by (induction token acc s rule: parts_from.induct) auto

declare split_loop.simps [simp del]

lemma heap_fresh_mono: "heap_fresh h w \<Longrightarrow> fresh w \<le> fresh w' \<Longrightarrow> heap_fresh h w'"
  by (force simp: heap_fresh_def)

lemma add_part_granted:
  assumes buf: "buf = pre @ part @ rest" and part: "is_text part" "part \<noteq> []" "length part + 1 < 2 ^ 64"
    and rep: "represents l h [] es" and fr: "heap_fresh h w" and up: "upcoming w = []"
    and room: "length es < 2 ^ 64 - 1"
  obtains l' h' w' a where
    "add_part buf (length pre, length part, l, h, w) = Some (MCL_OK, l', h', w')"
    "represents l' h' [] (es @ [(a, Some (handle_of part))])" "heap_fresh h' w'"
    "upcoming w' = []" "live w' = live w + 3"
proof -
  let ?w1 = "w\<lparr>live := live w + 2, fresh := fresh w + 2\<rparr>"
  have two: "two_blocks (size_of_nat (length part)) w = (True, ?w1)"
    using up part by (intro two_blocks_granted succ_length_nonzero)
  have new: "string_initialize_new (Some (part @ rest)) (size_of_nat (length part)) w
      = Some (MCL_OK, Some (handle_of part), ?w1)"
    using part two by (subst string_initialize_new_text) simp_all
  have fr1: "heap_fresh h ?w1" using fr by (rule heap_fresh_mono) simp
  have alloc: "memory_allocate sizeof_list_node ?w1 = (Some (fresh w + 2),
      ?w1\<lparr>live := live w + 3, fresh := fresh w + 3\<rparr>)"
    by (subst memory_allocate_unbounded) (simp_all add: up sizeof_list_node_def)
  show thesis
    by (rule list_add_granted [OF rep fr1 _ alloc, of "Some (handle_of part)"])
      (use room new buf up in \<open>auto simp: add_part_def intro!: that\<close>)
qed

lemma split_loop_granted:
  assumes "s = pre @ acc @ rest" "token \<notin> set acc" "is_text s" "length s + 1 < 2 ^ 64"
    and "represents l h [] es" "heap_fresh h w" "upcoming w = []"
    and "length es + length rest + 1 < 2 ^ 64 - 1"
  shows "\<exists>pre' acc' l' h' w' es'.
    split_loop (s @ NUL # xs) token (length s) (length pre + length acc)
      (length pre, length acc, l, h, w) = Some (MCL_OK, length pre', length acc', l', h', w')
    \<and> s = pre' @ acc' \<and> represents l' h' [] (es @ es') \<and> heap_fresh h' w' \<and> upcoming w' = []
    \<and> live w' = live w + 3 * int (length es') \<and> length es + length es' < 2 ^ 64 - 1
    \<and> map (\<lambda>p. Some (handle_of p)) (parts_from token acc rest)
        = map snd es' @ (if acc' = [] then [] else [Some (handle_of acc')])"
  using assms
proof (induction rest arbitrary: pre acc l h w es)
  case Nil
  show ?case
    by (rule exI [of _ pre], rule exI [of _ acc], rule exI [of _ l], rule exI [of _ h],
        rule exI [of _ w], rule exI [of _ "[]"]) (use Nil in \<open>auto simp: split_loop.simps\<close>)
next
  case (Cons c cs)
  let ?i = "length pre + length acc"
  have at: "?i < length s" "read_at (s @ NUL # xs) ?i = Some c"
    using Cons.prems(1) by (auto simp: read_at_def nth_append)
  show ?case
  proof (cases "c = token")
    case False
    have "split_loop (s @ NUL # xs) token (length s) ?i (length pre, length acc, l, h, w)
      = split_loop (s @ NUL # xs) token (length s) (length pre + length (acc @ [c]))
          (length pre, length (acc @ [c]), l, h, w)"
      using at False by (subst split_loop.simps) simp
    then show ?thesis
      using Cons.IH [of pre "acc @ [c]" l h es w] Cons.prems False by simp
  next
    case True
    show ?thesis
    proof (cases "acc = []")
      case acc: True
      have "split_loop (s @ NUL # xs) token (length s) ?i (length pre, length acc, l, h, w)
        = split_loop (s @ NUL # xs) token (length s) (length (pre @ [c]) + length [])
            (length (pre @ [c]), length ([] :: string), l, h, w)"
        using at True acc by (subst split_loop.simps) simp
      then show ?thesis
        using Cons.IH [of "pre @ [c]" "[]" l h es w] Cons.prems True acc by simp
    next
      case acc: False
      have part: "is_text acc" "length acc + 1 < 2 ^ 64"
        using Cons.prems(1,3,4) by auto
      obtain l1 h1 w1 a where add:
        "add_part (s @ NUL # xs) (length pre, length acc, l, h, w) = Some (MCL_OK, l1, h1, w1)"
        "represents l1 h1 [] (es @ [(a, Some (handle_of acc))])" "heap_fresh h1 w1"
        "upcoming w1 = []" "live w1 = live w + 3"
        by (rule add_part_granted [of "s @ NUL # xs" pre acc "c # cs @ NUL # xs" l h es w])
          (use Cons.prems part acc in auto)
      have run: "split_loop (s @ NUL # xs) token (length s) ?i (length pre, length acc, l, h, w)
        = split_loop (s @ NUL # xs) token (length s) (length (pre @ acc @ [c]) + length [])
            (length (pre @ acc @ [c]), length ([] :: string), l1, h1, w1)"
        using at True acc add(1) by (subst split_loop.simps) simp
      obtain pre' acc' l' h' w' es' where ih:
        "split_loop (s @ NUL # xs) token (length s) (length (pre @ acc @ [c]) + length [])
            (length (pre @ acc @ [c]), length ([] :: string), l1, h1, w1)
          = Some (MCL_OK, length pre', length acc', l', h', w')"
        "s = pre' @ acc'" "represents l' h' [] ((es @ [(a, Some (handle_of acc))]) @ es')"
        "heap_fresh h' w'" "upcoming w' = []" "live w' = live w1 + 3 * int (length es')"
        "length (es @ [(a, Some (handle_of acc))]) + length es' < 2 ^ 64 - 1"
        "map (\<lambda>p. Some (handle_of p)) (parts_from token [] cs)
          = map snd es' @ (if acc' = [] then [] else [Some (handle_of acc')])"
        using Cons.IH [of "pre @ acc @ [c]" "[]" l1 h1 "es @ [(a, Some (handle_of acc))]" w1]
          Cons.prems add by auto
      have full: "split_loop (s @ NUL # xs) token (length s) ?i (length pre, length acc, l, h, w)
        = Some (MCL_OK, length pre', length acc', l', h', w')"
        using run ih(1) by (rule trans)
      show ?thesis
        by (rule exI [of _ pre'], rule exI [of _ acc'], rule exI [of _ l'], rule exI [of _ h'],
            rule exI [of _ w'], rule exI [of _ "(a, Some (handle_of acc)) # es'"])
          (use ih(2-) full True acc add(5) in simp)
    qed
  qed
qed

text \<open>Splitting a string gives a list whose entries say the parts of the text between the
  tokens, in order and without the empty ones, each part with two blocks of its own and one
  for its node; no part holds the token, and together they hold every other character.\<close>

theorem string_split_correct:
  assumes "says str s" "heap_fresh h w" "upcoming w = []" "length s + 2 < 2 ^ 64 - 1"
  shows "\<exists>l h' w' es. string_split str token h w = Some (MCL_OK, Some l, h', w')
    \<and> represents l h' [] es \<and> map snd es = map (\<lambda>p. Some (handle_of p)) (parts token s)
    \<and> live w' = live w + 1 + 3 * int (length es)
    \<and> (\<forall>p \<in> set (parts token s). p \<noteq> [] \<and> token \<notin> set p)
    \<and> concat (parts token s) = filter (\<lambda>c. c \<noteq> token) s"
proof -
  have tx: "is_text s" "length s + 1 < 2 ^ 64" "string_length str = size_of_nat (length s)"
    using assms(1) by (auto simp: says_def)
  obtain xs where buf: "string_buffer str = Some (s @ NUL # xs)"
    using assms(1) by (auto simp: says_def)
  have n: "unat (string_length str) = length s"
    unfolding tx(3) using tx(2) by (intro unat_size_of_nat) simp
  let ?l = "\<lparr>list_head = None, list_last = None, list_current = None, list_count = 0\<rparr>"
  let ?w = "w\<lparr>live := live w + 1, fresh := fresh w + 1\<rparr>"
  have init: "list_initialize w = (MCL_OK, Some ?l, ?w)"
    using assms(3) by (simp add: list_initialize_def memory_allocate_unbounded sizeof_list_def)
  have fr: "heap_fresh h ?w" using assms(2) by (rule heap_fresh_mono) simp
  have "s = [] @ [] @ s" "token \<notin> set []" "upcoming ?w = []"
    "length [] + length s + 1 < 2 ^ 64 - 1" "represents ?l h [] []"
    using assms(3,4) represents_empty by simp_all
  from split_loop_granted [OF this(1,2) tx(1,2) this(5) fr this(3,4), of xs]
  obtain pre' acc' l' h' w' es' where loop:
    "split_loop (s @ NUL # xs) token (length s) 0 (0, 0, ?l, h, ?w)
      = Some (MCL_OK, length pre', length acc', l', h', w')"
    "s = pre' @ acc'" "represents l' h' [] es'" "heap_fresh h' w'" "upcoming w' = []"
    "live w' = live w + 1 + 3 * int (length es')" "length es' < 2 ^ 64 - 1"
    "map (\<lambda>p. Some (handle_of p)) (parts token s)
      = map snd es' @ (if acc' = [] then [] else [Some (handle_of acc')])"
    by (elim exE conjE, intro that) (simp_all add: parts_def)
  have parts: "\<forall>p \<in> set (parts token s). p \<noteq> [] \<and> token \<notin> set p"
    "concat (parts token s) = filter (\<lambda>c. c \<noteq> token) s"
    using parts_from_sound [of token "[]"] concat_parts_from [of token "[]" s]
    by (auto simp: parts_def)
  show ?thesis
  proof (cases "acc' = []")
    case True
    then show ?thesis
      using loop parts by (auto simp: string_split_def init buf n)
  next
    case False
    have first: "read_at (s @ NUL # xs) (length pre') = Some (hd acc')" "hd acc' \<noteq> NUL"
      using loop(2) tx(1) False by (auto simp: read_at_def nth_append neq_Nil_conv)
    obtain l2 h2 w2 a where add:
      "add_part (s @ NUL # xs) (length pre', length acc', l', h', w') = Some (MCL_OK, l2, h2, w2)"
      "represents l2 h2 [] (es' @ [(a, Some (handle_of acc'))])" "live w2 = live w' + 3"
      by (rule add_part_granted [of "s @ NUL # xs" pre' acc' "NUL # xs" l' h' es' w'])
        (use loop tx False in auto)
    show ?thesis
      using loop parts first add False
      by (intro exI [of _ l2] exI [of _ h2] exI [of _ w2] exI [of _ "es' @ [(a, Some (handle_of acc'))]"])
        (auto simp: string_split_def init buf n)
  qed
qed

lemma string_split_correct_witness:
  "\<exists>l h' w' es. string_split (handle_of ''a..bc.'') (CHR ''.'') Map.empty quiet_world
      = Some (MCL_OK, Some l, h', w')
    \<and> represents l h' [] es \<and> map snd es = [Some (handle_of ''a''), Some (handle_of ''bc'')]"
proof -
  have p: "parts (CHR ''.'') ''a..bc.'' = [''a'', ''bc'']" by (simp add: parts_def)
  have "says (handle_of ''a..bc.'') ''a..bc.''" "heap_fresh Map.empty quiet_world"
    "upcoming quiet_world = []" "length ''a..bc.'' + 2 < 2 ^ 64 - 1"
    by (simp_all add: says_handle_of heap_fresh_def quiet_world_def)
  from string_split_correct [OF this, of "CHR ''.''"] show ?thesis
    unfolding p list.map comp_apply by (elim exE conjE) (intro exI conjI)
qed

end
