(* ===== verification/MCL_Base64.thy ===== *)
theory MCL_Base64
  imports MCL_String
begin

text \<open>
  \<^verbatim>\<open>base64.c\<close>: encoding and decoding with the standard and the URL safe alphabet of RFC 4648.
  Bytes are 8 bit words, the accumulator of the decoder is a 32 bit word, as in the code.
  The laws the two alphabets obey are a locale; the round trip is proved once from them and
  the locale is interpreted on both pairs of tables of the code.
\<close>

section \<open>Tables and sizes\<close>

definition PADDING_CHAR :: char where "PADDING_CHAR = CHR ''=''"
definition QUANTUM_SIZE :: mcl_size_t where "QUANTUM_SIZE = 4"
definition INPUT_GROUP_SIZE :: mcl_size_t where "INPUT_GROUP_SIZE = 3"
definition UPPER_COUNT_PADDING :: mcl_size_t where "UPPER_COUNT_PADDING = 3"

definition base64_encode_table :: string where
  "base64_encode_table = ''ABCDEFGHIJKLMNOPQRSTUVWXYZabcdefghijklmnopqrstuvwxyz0123456789+/''"

definition base64_url_encode_table :: string where
  "base64_url_encode_table = ''ABCDEFGHIJKLMNOPQRSTUVWXYZabcdefghijklmnopqrstuvwxyz0123456789-_''"

definition base64_decode_table :: "8 word list" where
  "base64_decode_table =
    replicate 43 0xFF @ [0x3E] @ replicate 3 0xFF @ [0x3F,
    0x34, 0x35, 0x36, 0x37, 0x38, 0x39, 0x3A, 0x3B, 0x3C, 0x3D] @ replicate 7 0xFF @ [
    0x00, 0x01, 0x02, 0x03, 0x04, 0x05, 0x06, 0x07, 0x08, 0x09, 0x0A, 0x0B, 0x0C, 0x0D, 0x0E,
    0x0F, 0x10, 0x11, 0x12, 0x13, 0x14, 0x15, 0x16, 0x17, 0x18, 0x19] @ replicate 6 0xFF @ [
    0x1A, 0x1B, 0x1C, 0x1D, 0x1E, 0x1F, 0x20, 0x21, 0x22, 0x23, 0x24, 0x25, 0x26, 0x27, 0x28,
    0x29, 0x2A, 0x2B, 0x2C, 0x2D, 0x2E, 0x2F, 0x30, 0x31, 0x32, 0x33] @ replicate 133 0xFF"

definition base64_url_decode_table :: "8 word list" where
  "base64_url_decode_table =
    replicate 45 0xFF @ [0x3E, 0xFF, 0xFF,
    0x34, 0x35, 0x36, 0x37, 0x38, 0x39, 0x3A, 0x3B, 0x3C, 0x3D] @ replicate 7 0xFF @ [
    0x00, 0x01, 0x02, 0x03, 0x04, 0x05, 0x06, 0x07, 0x08, 0x09, 0x0A, 0x0B, 0x0C, 0x0D, 0x0E,
    0x0F, 0x10, 0x11, 0x12, 0x13, 0x14, 0x15, 0x16, 0x17, 0x18, 0x19] @ replicate 4 0xFF @ [0x3F,
    0xFF, 0x1A, 0x1B, 0x1C, 0x1D, 0x1E, 0x1F, 0x20, 0x21, 0x22, 0x23, 0x24, 0x25, 0x26, 0x27, 0x28,
    0x29, 0x2A, 0x2B, 0x2C, 0x2D, 0x2E, 0x2F, 0x30, 0x31, 0x32, 0x33] @ replicate 133 0xFF"

section \<open>Encoding\<close>

text \<open>The output quantum of three input bytes.\<close>

definition output_quantum :: "8 word \<Rightarrow> 8 word \<Rightarrow> 8 word \<Rightarrow> 8 word list" where
  "output_quantum b0 b1 b2 =
    [drop_bit 2 (and b0 0xFC),
     or (push_bit 4 (and b0 0x03)) (drop_bit 4 (and b1 0xF0)),
     or (push_bit 2 (and b1 0x0F)) (drop_bit 6 (and b2 0xC0)),
     and b2 0x3F]"

text \<open>The characters one pass of the loop writes: \<open>input_parts\<close> bytes were read.\<close>

definition quantum_chars :: "string \<Rightarrow> nat \<Rightarrow> 8 word list \<Rightarrow> string option" where
  "quantum_chars table input_parts out = do {
    c0 \<leftarrow> read_at table (unat (out ! 0));
    c1 \<leftarrow> read_at table (unat (out ! 1));
    if input_parts = 1 then Some [c0, c1, PADDING_CHAR, PADDING_CHAR]
    else if input_parts = 2 then do {
      c2 \<leftarrow> read_at table (unat (out ! 2));
      Some [c0, c1, c2, PADDING_CHAR]
    }
    else do {
      c2 \<leftarrow> read_at table (unat (out ! 2));
      c3 \<leftarrow> read_at table (unat (out ! 3));
      Some [c0, c1, c2, c3]
    }
  }"

text \<open>The loop of \<^verbatim>\<open>_encode_with_table\<close>: \<open>dat\<close> is the data from the current byte on, of which
  \<open>data_size\<close> bytes are left; \<open>position\<close> is where \<^verbatim>\<open>output\<close> points in the buffer.\<close>

function encode_loop ::
    "string \<Rightarrow> 8 word list \<Rightarrow> nat \<Rightarrow> char list \<Rightarrow> nat \<Rightarrow> (char list \<times> nat) option" where
  "encode_loop table dat data_size output position =
    (if \<not> data_size > 0 then Some (output, position)
     else do {
       let input_parts = min 3 data_size;
       guard (input_parts \<le> length dat);
       let input_buffer = take input_parts dat @ replicate (3 - input_parts) 0;
       chars \<leftarrow> quantum_chars table input_parts
         (output_quantum (input_buffer ! 0) (input_buffer ! 1) (input_buffer ! 2));
       output1 \<leftarrow> write_at output position chars;
       encode_loop table (drop input_parts dat) (data_size - input_parts) output1 (position + 4)
     })"
  by pat_completeness auto
termination by (relation "measure (\<lambda>(table, dat, data_size, output, position). data_size)") auto

declare encode_loop.simps [simp del]

text \<open>The result of \<open>string_initialize_dynamic\<close> is not looked at: when the handle cannot be
  allocated the call still succeeds, without a string.\<close>

definition encode_with_table ::
    "string \<Rightarrow> 8 word list \<Rightarrow> mcl_size_t \<Rightarrow> world
      \<Rightarrow> (E_MCL_ERROR_CODE \<times> string_t option \<times> world) option" where
  "encode_with_table table dat data_size w =
    (let bytes = data_size * QUANTUM_SIZE div INPUT_GROUP_SIZE + QUANTUM_SIZE in
     case memory_allocate bytes w of
       (None, w1) \<Rightarrow> Some (MCL_OUT_OF_MEMORY, None, w1)
     | (Some a, w1) \<Rightarrow> do {
         (output, position) \<leftarrow>
           encode_loop table dat (unat data_size) (unwritten w (unat bytes)) 0;
         output1 \<leftarrow> write_at output position [NUL];
         (ignored, encoded_data, w2) \<leftarrow> string_initialize_dynamic (Some output1) 0 w1;
         Some (MCL_OK, encoded_data, w2)
       })"

definition base64_encode ::
    "8 word list \<Rightarrow> mcl_size_t \<Rightarrow> world \<Rightarrow> (E_MCL_ERROR_CODE \<times> string_t option \<times> world) option"
  where
  "base64_encode dat data_size w = encode_with_table base64_encode_table dat data_size w"

definition base64_url_encode ::
    "8 word list \<Rightarrow> mcl_size_t \<Rightarrow> world \<Rightarrow> (E_MCL_ERROR_CODE \<times> string_t option \<times> world) option"
  where
  "base64_url_encode dat data_size w = encode_with_table base64_url_encode_table dat data_size w"

section \<open>Decoding\<close>

text \<open>The loop of \<^verbatim>\<open>_decode_quantum\<close> over the characters left: the accumulator and the number
  of padding characters, or a refusal.\<close>

fun quantum_loop ::
    "8 word list \<Rightarrow> char list \<Rightarrow> nat \<Rightarrow> 32 word \<Rightarrow> mcl_size_t \<Rightarrow> (32 word \<times> mcl_size_t) option option"
  where
  "quantum_loop table source 0 dat padding = Some (Some (dat, padding))"
| "quantum_loop table [] (Suc n) dat padding = None"
| "quantum_loop table (c # source) (Suc n) dat padding =
    (if c = PADDING_CHAR
     then (if \<not> padding + 1 < UPPER_COUNT_PADDING then Some None
           else quantum_loop table source n (push_bit 6 dat) (padding + 1))
     else do {
       table_index \<leftarrow> read_at table (of_char c);
       if table_index = 0xFF then Some None
       else quantum_loop table source n (push_bit 6 dat + ucast table_index) padding
     })"

text \<open>\<^verbatim>\<open>_decode_quantum\<close>: the buffer after the bytes are written at \<open>position\<close>, and how many
  there are.\<close>

definition decode_quantum ::
    "8 word list \<Rightarrow> char list \<Rightarrow> 8 word list \<Rightarrow> nat
      \<Rightarrow> (E_MCL_ERROR_CODE \<times> 8 word list \<times> mcl_size_t) option" where
  "decode_quantum table source destination position = do {
    r \<leftarrow> quantum_loop table source (unat QUANTUM_SIZE) 0 0;
    (case r of
      None \<Rightarrow> Some (MCL_BAD_CONTENT_ENCODING, destination, 0)
    | Some (dat, padding) \<Rightarrow> do {
        d1 \<leftarrow> (if padding < 1 then write_at destination (position + 2) [ucast (and dat 0xFF)]
              else Some destination);
        let dat1 = drop_bit 8 dat;
        d2 \<leftarrow> (if padding < 2 then write_at d1 (position + 1) [ucast (and dat1 0xFF)]
              else Some d1);
        let dat2 = drop_bit 8 dat1;
        d3 \<leftarrow> write_at d2 position [ucast (and dat2 0xFF)];
        Some (MCL_OK, d3, UPPER_COUNT_PADDING - padding)
      })
  }"

text \<open>The search for the first padding character or the end, in the buffer from \<open>index\<close> on.\<close>

fun padding_index :: "char list \<Rightarrow> nat \<Rightarrow> nat option" where
  "padding_index [] index = None"
| "padding_index (c # cs) index =
    (if c \<noteq> PADDING_CHAR \<and> c \<noteq> NUL then padding_index cs (index + 1) else Some index)"

text \<open>The loop over the quantums: \<open>n\<close> are left.\<close>

fun decode_loop ::
    "8 word list \<Rightarrow> nat \<Rightarrow> char list \<Rightarrow> 8 word list \<Rightarrow> nat
      \<Rightarrow> (E_MCL_ERROR_CODE \<times> 8 word list \<times> nat) option" where
  "decode_loop table 0 source destination position = Some (MCL_OK, destination, position)"
| "decode_loop table (Suc n) source destination position = do {
    (code, d, padding) \<leftarrow> decode_quantum table source destination position;
    if code \<noteq> MCL_OK then Some (MCL_BAD_CONTENT_ENCODING, d, position)
    else decode_loop table n (drop (unat QUANTUM_SIZE) source) d (position + unat padding)
  }"

text \<open>The result: the bytes and their number, which the caller gets.  The output parameters
  keep their values (\<open>old\<close>) when the length is refused.\<close>

definition decode_with_table ::
    "8 word list \<Rightarrow> string_t \<Rightarrow> (8 word list option \<times> mcl_size_t) \<Rightarrow> world
      \<Rightarrow> (E_MCL_ERROR_CODE \<times> (8 word list option \<times> mcl_size_t) \<times> world) option" where
  "decode_with_table table encoded_data old w =
    (if \<not> (string_length encoded_data > 0 \<and> string_length encoded_data mod QUANTUM_SIZE = 0)
     then Some (MCL_BAD_CONTENT_ENCODING, old, w)
     else do {
       encoded_buffer \<leftarrow> string_buffer encoded_data;
       index \<leftarrow> padding_index encoded_buffer 0;
       c \<leftarrow> read_at encoded_buffer index;
       padding \<leftarrow> (if c = PADDING_CHAR then do {
           c1 \<leftarrow> read_at encoded_buffer (index + 1);
           Some (if c1 = PADDING_CHAR then 2 else 1)
         }
         else Some 0);
       if \<not> size_of_nat index + padding = string_length encoded_data
       then Some (MCL_BAD_CONTENT_ENCODING, (None, 0), w)
       else do {
         let number_of_quantums = string_length encoded_data div QUANTUM_SIZE;
         let raw_length = number_of_quantums * INPUT_GROUP_SIZE - padding;
         (case memory_allocate (raw_length + 1) w of
           (None, w1) \<Rightarrow> Some (MCL_OUT_OF_MEMORY, (None, 0), w1)
         | (Some a, w1) \<Rightarrow> do {
             (code, d, position) \<leftarrow> decode_loop table (unat number_of_quantums) encoded_buffer
               (map of_char (unwritten w (unat (raw_length + 1)))) 0;
             if code \<noteq> MCL_OK then Some (MCL_BAD_CONTENT_ENCODING, (None, 0), memory_free w1)
             else do {
               d1 \<leftarrow> write_at d position [0];
               Some (MCL_OK, (Some d1, raw_length), w1)
             }
           })
       }
     })"

definition base64_decode ::
    "string_t \<Rightarrow> (8 word list option \<times> mcl_size_t) \<Rightarrow> world
      \<Rightarrow> (E_MCL_ERROR_CODE \<times> (8 word list option \<times> mcl_size_t) \<times> world) option" where
  "base64_decode encoded_data old w = decode_with_table base64_decode_table encoded_data old w"

definition base64_url_decode ::
    "string_t \<Rightarrow> (8 word list option \<times> mcl_size_t) \<Rightarrow> world
      \<Rightarrow> (E_MCL_ERROR_CODE \<times> (8 word list option \<times> mcl_size_t) \<times> world) option" where
  "base64_url_decode encoded_data old w = decode_with_table base64_url_decode_table encoded_data old w"

section \<open>Bit arithmetic of a quantum\<close>

lemma drop_bit_and_keep:
  "drop_bit n m = mask (8 - n) \<Longrightarrow> n < 8 \<Longrightarrow> drop_bit n (and b m) = drop_bit n (b :: 8 word)"
proof -
  assume m: "drop_bit n m = mask (8 - n)" "n < 8"
  have "drop_bit n (and b m) = take_bit (8 - n) (drop_bit n b)"
    by (simp add: drop_bit_and m take_bit_eq_mask)
  also have "\<dots> = drop_bit n b"
    by (rule bit_word_eqI) (auto simp: bit_simps dest: bit_imp_le_length)
  finally show ?thesis .
qed

lemma keep_high:
  "drop_bit 2 (and b 0xFC) = drop_bit 2 (b :: 8 word)"
  "drop_bit 4 (and b 0xF0) = drop_bit 4 (b :: 8 word)"
  "drop_bit 6 (and b 0xC0) = drop_bit 6 (b :: 8 word)"
    apply (rule drop_bit_and_keep; simp add: mask_eq_exp_minus_1)
   apply (rule drop_bit_and_keep; simp add: mask_eq_exp_minus_1)
  apply (rule drop_bit_and_keep; simp add: mask_eq_exp_minus_1)
  done

lemma unat_low:
  "unat (and (b :: 8 word) 0x03) = unat b mod 4"
  "unat (and (b :: 8 word) 0x0F) = unat b mod 16"
  "unat (and (b :: 8 word) 0x3F) = unat b mod 64"
proof -
  have mask: "and b 0x03 = take_bit 2 b" "and b 0x0F = take_bit 4 b" "and b 0x3F = take_bit 6 b"
    by (simp_all add: take_bit_eq_mask mask_eq_exp_minus_1)
  show "unat (and b 0x03) = unat b mod 4" "unat (and b 0x0F) = unat b mod 16"
    "unat (and b 0x3F) = unat b mod 64"
    unfolding mask by (simp_all add: take_bit_eq_mod unat_mod_distrib)
qed

lemma unat_high:
  "unat (drop_bit 2 (b :: 8 word)) = unat b div 4"
  "unat (drop_bit 4 (b :: 8 word)) = unat b div 16"
  "unat (drop_bit 6 (b :: 8 word)) = unat b div 64"
  by (simp_all add: drop_bit_eq_div unat_div_distrib)

lemma unat_shifted:
  "unat (push_bit 4 (x :: 8 word)) = unat x * 16" if "unat x < 16"
  using that by (simp add: push_bit_eq_mult unat_word_ariths)

lemma unat_shifted2:
  "unat (push_bit 2 (x :: 8 word)) = unat x * 4" if "unat x < 64"
  using that by (simp add: push_bit_eq_mult unat_word_ariths)

lemma or_shifted:
  fixes x y :: "8 word"
  assumes "unat y < 2 ^ n"
  shows "or (push_bit n x) y = push_bit n x + y"
proof -
  have "take_bit n y = y"
    by (rule unsigned_word_eqI [where ?'a = nat])
      (use assms in \<open>simp add: unsigned_take_bit_eq take_bit_nat_eq_self\<close>)
  then have "\<not> bit y k" if "n \<le> k" for k
    using that by (metis bit_take_bit_iff linorder_not_less)
  then show ?thesis
    by (intro disjunctive_add [symmetric]) (auto simp: bit_simps)
qed

lemma byte_less: "unat (b :: 8 word) < 256"
  using unsigned_less [of b] by simp

lemma unat_output_quantum:
  "map unat (output_quantum b0 b1 b2) =
    [unat b0 div 4, unat b0 mod 4 * 16 + unat b1 div 16,
     unat b1 mod 16 * 4 + unat b2 div 64, unat b2 mod 64]"
proof -
  have q: "unat b1 div 16 < 16" "unat b2 div 64 < 4"
    using byte_less [of b1] byte_less [of b2] by (simp_all add: less_mult_imp_div_less)
  have "or (push_bit 4 (and b0 3)) (drop_bit 4 b1) = push_bit 4 (and b0 3) + drop_bit 4 b1"
    by (rule or_shifted) (use q in \<open>simp add: unat_high\<close>)
  moreover have "or (push_bit 2 (and b1 15)) (drop_bit 6 b2) = push_bit 2 (and b1 15) + drop_bit 6 b2"
    by (rule or_shifted) (use q in \<open>simp add: unat_high\<close>)
  moreover have "unat (push_bit 4 (and b0 3) + drop_bit 4 b1) = unat b0 mod 4 * 16 + unat b1 div 16"
  proof -
    have "unat (push_bit 4 (and b0 3)) = unat b0 mod 4 * 16"
      by (subst unat_shifted) (simp_all add: unat_low)
    then show ?thesis using q by (simp add: unat_word_ariths unat_high)
  qed
  moreover have "unat (push_bit 2 (and b1 15) + drop_bit 6 b2) = unat b1 mod 16 * 4 + unat b2 div 64"
  proof -
    have "unat (push_bit 2 (and b1 15)) = unat b1 mod 16 * 4"
      by (subst unat_shifted2) (simp_all add: unat_low)
    then show ?thesis using q by (simp add: unat_word_ariths unat_high)
  qed
  ultimately show ?thesis
    unfolding output_quantum_def keep_high list.map by (simp only: unat_high unat_low)
qed

text \<open>The accumulator: six bits in, eight bits out.\<close>

lemma unat_accumulate:
  fixes d :: "32 word" and t :: "8 word"
  assumes "unat d < 2 ^ 18"
  shows "unat (push_bit 6 d + ucast t) = unat d * 64 + unat t"
    and "unat (push_bit 6 d) = unat d * 64"
proof -
  have "unat (ucast t :: 32 word) = unat t"
    using byte_less [of t] by (simp add: unsigned_ucast_eq take_bit_nat_eq_self)
  moreover have p: "unat (push_bit 6 d) = unat d * 64"
    using assms by (simp add: push_bit_eq_mult unat_word_ariths)
  ultimately show "unat (push_bit 6 d + ucast t) = unat d * 64 + unat t"
    using assms byte_less [of t] by (simp add: unat_word_ariths)
  show "unat (push_bit 6 d) = unat d * 64" by (rule p)
qed

lemma low_byte:
  fixes d :: "32 word"
  shows "ucast (and d 0xFF) = (word_of_nat (unat d) :: 8 word)"
    and "unat (drop_bit 8 d) = unat d div 256"
proof -
  have "and d 0xFF = take_bit 8 d"
    by (simp add: take_bit_eq_mask mask_eq_exp_minus_1)
  then show "ucast (and d 0xFF) = (word_of_nat (unat d) :: 8 word)"
    by simp (rule bit_word_eqI, auto simp: bit_simps)
  show "unat (drop_bit 8 d) = unat d div 256"
    by (simp add: drop_bit_eq_div unat_div_distrib)
qed

lemma byte_of_sum:
  "word_of_nat (n * 256 + k) = (word_of_nat k :: 8 word)"
  "k < 256 \<Longrightarrow> (n * 256 + k) div 256 = n" for n :: nat
  by (rule unsigned_word_eqI [where ?'a = nat]) (simp_all add: unat_of_nat del: of_nat_add of_nat_mult)

section \<open>The text of an encoding\<close>

text \<open>The reference: RFC 4648 in terms of quotients and remainders.\<close>

fun base64_text :: "string \<Rightarrow> 8 word list \<Rightarrow> string" where
  "base64_text t [] = []"
| "base64_text t [a] =
    [t ! (unat a div 4), t ! (unat a mod 4 * 16), CHR ''='', CHR ''='']"
| "base64_text t [a, b] =
    [t ! (unat a div 4), t ! (unat a mod 4 * 16 + unat b div 16), t ! (unat b mod 16 * 4), CHR ''='']"
| "base64_text t (a # b # c # rest) =
    [t ! (unat a div 4), t ! (unat a mod 4 * 16 + unat b div 16),
     t ! (unat b mod 16 * 4 + unat c div 64), t ! (unat c mod 64)] @ base64_text t rest"

lemma length_base64_text: "length (base64_text t bs) = 4 * ((length bs + 2) div 3)"
proof (induction t bs rule: base64_text.induct)
  case (4 t a b c rest)
  have "(length (a # b # c # rest) + 2) div 3 = Suc ((length rest + 2) div 3)" by simp
  with 4 show ?case by simp
qed simp_all

lemma quantum_chars_text:
  assumes "length t = 64"
  shows "quantum_chars t 1 (output_quantum a 0 0) = Some (base64_text t [a])"
    and "quantum_chars t 2 (output_quantum a b 0) = Some (base64_text t [a, b])"
    and "quantum_chars t 3 (output_quantum a b c) =
      Some [t ! (unat a div 4), t ! (unat a mod 4 * 16 + unat b div 16),
        t ! (unat b mod 16 * 4 + unat c div 64), t ! (unat c mod 64)]"
proof -
  have q: "unat (output_quantum x y z ! 0) = unat x div 4"
    "unat (output_quantum x y z ! 1) = unat x mod 4 * 16 + unat y div 16"
    "unat (output_quantum x y z ! 2) = unat y mod 16 * 4 + unat z div 64"
    "unat (output_quantum x y z ! 3) = unat z mod 64" for x y z
    using unat_output_quantum [of x y z]
    by (simp_all add: output_quantum_def)
  have r: "unat x div 4 < 64" "unat x mod 4 * 16 + unat y div 16 < 64"
    "unat y mod 16 * 4 + unat z div 64 < 64" "unat z mod 64 < 64" for x y z :: "8 word"
    using byte_less [of x] byte_less [of y] byte_less [of z] by simp_all
  show "quantum_chars t 1 (output_quantum a 0 0) = Some (base64_text t [a])"
    using r(2) [of a 0] by (simp add: quantum_chars_def q q(2) [simplified] r r(2) [simplified] assms PADDING_CHAR_def)
  show "quantum_chars t 2 (output_quantum a b 0) = Some (base64_text t [a, b])"
    using r(3) [of b 0] by (simp add: quantum_chars_def q q(2) [simplified] r r(2) [simplified] assms PADDING_CHAR_def)
  show "quantum_chars t 3 (output_quantum a b c) =
      Some [t ! (unat a div 4), t ! (unat a mod 4 * 16 + unat b div 16),
        t ! (unat b mod 16 * 4 + unat c div 64), t ! (unat c mod 64)]"
    by (simp add: quantum_chars_def q q(2) [simplified] r r(2) [simplified] assms)
qed

text \<open>The loop writes the text and nothing else.\<close>

lemma encode_loop_text:
  "length t = 64 \<Longrightarrow> position + length (base64_text t bs) \<le> length out \<Longrightarrow>
    encode_loop t (bs @ xs) (length bs) out position =
      Some (take position out @ base64_text t bs @ drop (position + length (base64_text t bs)) out,
        position + length (base64_text t bs))"
proof (induction t bs arbitrary: out position rule: base64_text.induct)
  case (1 t)
  then show ?case by (subst encode_loop.simps) simp
next
  case (2 t a)
  then show ?case
    using quantum_chars_text(1) [of t a]
    by (subst encode_loop.simps, simp add: write_at_def) (simp add: encode_loop.simps)
next
  case (3 t a b)
  then show ?case
    using quantum_chars_text(2) [of t a b]
    by (subst encode_loop.simps, simp add: write_at_def numeral_eq_Suc [of "num.Bit0 num.One"])
      (simp add: encode_loop.simps)
next
  case (4 t a b c rest)
  obtain q where q: "q = [t ! (unat a div 4), t ! (unat a mod 4 * 16 + unat b div 16),
     t ! (unat b mod 16 * 4 + unat c div 64), t ! (unat c mod 64)]" and lq: "length q = 4"
    by simp
  have whole: "base64_text t (a # b # c # rest) = q @ base64_text t rest" by (simp add: q)
  let ?out = "take position out @ q @ drop (position + 4) out"
  have room: "position + 4 + length (base64_text t rest) \<le> length out"
    using "4.prems"(2) lq unfolding whole by simp
  have ih: "encode_loop t (rest @ xs) (length rest) ?out (position + 4) =
      Some (take (position + 4) ?out @ base64_text t rest
          @ drop (position + 4 + length (base64_text t rest)) ?out,
        position + 4 + length (base64_text t rest))"
    using room "4.prems"(1) lq by (intro "4.IH") simp_all
  have "encode_loop t ((a # b # c # rest) @ xs) (length (a # b # c # rest)) out position
      = encode_loop t (rest @ xs) (length rest) ?out (position + 4)"
    using quantum_chars_text(3) [OF "4.prems"(1), of a b c, folded q] room lq
    by (subst encode_loop.simps) (simp add: write_at_def numeral_3_eq_3)
  then show ?case using ih room lq unfolding whole by (simp add: ac_simps)
qed

section \<open>The contract of an alphabet\<close>

lemma join_bytes:
  fixes a b c :: nat
  shows "((a div 4 * 64 + (a mod 4 * 16 + b div 16)) * 64 + (b mod 16 * 4 + c div 64)) * 64
    + c mod 64 = a * 65536 + b * 256 + c"
proof -
  have e: "a div 4 * 4 + a mod 4 = a" "b div 16 * 16 + b mod 16 = b" "c div 64 * 64 + c mod 64 = c"
    by simp_all
  have "((qa * 64 + (ra * 16 + qb)) * 64 + (rb * 4 + qc)) * 64 + rc
      = (qa * 4 + ra) * 65536 + (qb * 16 + rb) * 256 + (qc * 64 + rc)" for qa ra qb rb qc rc :: nat
    by (simp add: algebra_simps)
  from this [of "a div 4" "a mod 4" "b div 16" "b mod 16" "c div 64" "c mod 64"]
  show ?thesis unfolding e .
qed

text \<open>An encoding and a decoding table belong together when the one has 64 characters, none
  of them the padding or the terminator, and the other gives each its number.\<close>

locale block_codec =
  fixes enc :: string and dec :: "8 word list"
  assumes enc_length: "length enc = 64"
    and dec_length: "length dec = 256"
    and dec_enc: "i < 64 \<Longrightarrow> dec ! of_char (enc ! i) = word_of_nat i"
    and enc_plain: "i < 64 \<Longrightarrow> enc ! i \<noteq> PADDING_CHAR \<and> enc ! i \<noteq> NUL"
begin

lemma step_plain:
  assumes "i < 64" "unat d < 2 ^ 18"
  shows "quantum_loop dec (enc ! i # src) (Suc n) d p
      = quantum_loop dec src n (word_of_nat (unat d * 64 + i)) p"
proof -
  have i: "unat (word_of_nat i :: 8 word) = i"
    using assms by (simp add: unat_of_nat)
  have "of_char (enc ! i) < (256 :: nat)" by simp
  then have at: "read_at dec (of_char (enc ! i)) = Some (word_of_nat i)"
    using assms dec_enc dec_length by simp
  have "(word_of_nat i :: 8 word) \<noteq> 0xFF"
  proof
    assume "(word_of_nat i :: 8 word) = 0xFF"
    then have "unat (word_of_nat i :: 8 word) = unat (0xFF :: 8 word)" by (rule arg_cong)
    then show False using i assms by simp
  qed
  moreover have "push_bit 6 d + ucast (word_of_nat i :: 8 word) = word_of_nat (unat d * 64 + i)"
    using unat_accumulate(1) [OF assms(2), of "word_of_nat i"] i assms
    by (intro unsigned_word_eqI [where ?'a = nat])
      (simp add: unat_of_nat del: of_nat_add of_nat_mult)
  ultimately show ?thesis
    using at enc_plain [OF assms(1)] by simp
qed

lemma step_padding:
  assumes "p + 1 < UPPER_COUNT_PADDING" "unat d < 2 ^ 18"
  shows "quantum_loop dec (PADDING_CHAR # src) (Suc n) d p
    = quantum_loop dec src n (word_of_nat (unat d * 64)) (p + 1)"
proof -
  have "push_bit 6 d = word_of_nat (unat d * 64)"
    using unat_accumulate(2) [OF assms(2)] assms(2)
    by (intro unsigned_word_eqI [where ?'a = nat])
      (simp add: unat_of_nat del: of_nat_add of_nat_mult)
  then show ?thesis using assms(1) by simp
qed

lemma unat_acc: "n < 2 ^ 32 \<Longrightarrow> unat (word_of_nat n :: 32 word) = n"
  by (simp add: unat_of_nat)

lemma step_nat:
  "i < 64 \<Longrightarrow> n < 2 ^ 18 \<Longrightarrow> quantum_loop dec (enc ! i # src) (Suc m) (word_of_nat n) p
    = quantum_loop dec src m (word_of_nat (n * 64 + i)) p"
  using step_plain [of i "word_of_nat n" src m p] unat_acc [of n]
  by (simp del: of_nat_add of_nat_mult quantum_loop.simps)

lemma pad_nat:
  "p < 2 \<Longrightarrow> n < 2 ^ 18 \<Longrightarrow> quantum_loop dec (CHR ''='' # src) (Suc m) (word_of_nat n) p
    = quantum_loop dec src m (word_of_nat (n * 64)) (p + 1)"
  using step_padding [of p "word_of_nat n" src m] unat_acc [of n]
  by (simp add: PADDING_CHAR_def UPPER_COUNT_PADDING_def size_less_iff unat_add_one
      del: of_nat_add of_nat_mult quantum_loop.simps)

lemma quantum_four:
  assumes "i < 64" "j < 64"
  shows "k < 64 \<Longrightarrow> l < 64 \<Longrightarrow> quantum_loop dec (enc ! i # enc ! j # enc ! k # enc ! l # src) 4 0 0
      = Some (Some (word_of_nat (((i * 64 + j) * 64 + k) * 64 + l), 0))"
    and "k < 64 \<Longrightarrow> quantum_loop dec (enc ! i # enc ! j # enc ! k # CHR ''='' # src) 4 0 0
      = Some (Some (word_of_nat (((i * 64 + j) * 64 + k) * 64), 1))"
    and "quantum_loop dec (enc ! i # enc ! j # CHR ''='' # CHR ''='' # src) 4 0 0
      = Some (Some (word_of_nat ((i * 64 + j) * 64 * 64), 2))"
proof -
  have four: "4 = Suc (Suc (Suc (Suc 0)))" and zero: "(0 :: 32 word) = word_of_nat 0" by simp_all
  have b: "(0 :: nat) < 2 ^ 18" "0 * 64 + i < 2 ^ 18" "(0 * 64 + i) * 64 + j < 2 ^ 18"
    using assms by simp_all
  have start: "quantum_loop dec (enc ! i # enc ! j # src') 4 0 0
      = quantum_loop dec src' (Suc (Suc 0)) (word_of_nat ((0 * 64 + i) * 64 + j)) 0" for src'
    unfolding four zero by (simp only: step_nat assms b)
  show "quantum_loop dec (enc ! i # enc ! j # enc ! k # enc ! l # src) 4 0 0
      = Some (Some (word_of_nat (((i * 64 + j) * 64 + k) * 64 + l), 0))" if "k < 64" "l < 64"
  proof -
    have "(i * 64 + j) * 64 + k < 2 ^ 18" "i * 64 + j < 2 ^ 18" using assms that by simp_all
    then show ?thesis
      unfolding start by (simp only: step_nat that b quantum_loop.simps(1) mult_0 add_0)
  qed
  show "quantum_loop dec (enc ! i # enc ! j # enc ! k # CHR ''='' # src) 4 0 0
      = Some (Some (word_of_nat (((i * 64 + j) * 64 + k) * 64), 1))" if "k < 64"
  proof -
    have "(i * 64 + j) * 64 + k < 2 ^ 18" "i * 64 + j < 2 ^ 18" "(0 :: mcl_size_t) < 2"
      using assms that by simp_all
    then show ?thesis
      unfolding start
      by (simp only: step_nat pad_nat that b quantum_loop.simps(1) mult_0 add_0)
  qed
  show "quantum_loop dec (enc ! i # enc ! j # CHR ''='' # CHR ''='' # src) 4 0 0
      = Some (Some (word_of_nat ((i * 64 + j) * 64 * 64), 2))"
  proof -
    have "(i * 64 + j) * 64 < 2 ^ 18" "i * 64 + j < 2 ^ 18" "(0 :: mcl_size_t) < 2" "(0 + 1 :: mcl_size_t) < 2"
      "(0 + 1 + 1 :: mcl_size_t) = 2"
      using assms by simp_all
    then show ?thesis
      unfolding start
      by (simp only: step_nat pad_nat b quantum_loop.simps(1) mult_0 add_0)
  qed
qed

text \<open>The accumulator after a quantum holds the three bytes one after the other.\<close>

lemma quantum_loop_text:
  "quantum_loop dec (base64_text enc [a, b, c] @ src) 4 0 0 =
    Some (Some (word_of_nat (unat a * 65536 + unat b * 256 + unat c), 0))"
  "quantum_loop dec (base64_text enc [a, b] @ src) 4 0 0 =
    Some (Some (word_of_nat (unat a * 65536 + unat b * 256), 1))"
  "quantum_loop dec (base64_text enc [a] @ src) 4 0 0 =
    Some (Some (word_of_nat (unat a * 65536), 2))"
proof -
  have lt: "unat a div 4 < 64" "unat a mod 4 * 16 + unat b div 16 < 64"
    "unat b mod 16 * 4 + unat c div 64 < 64" "unat c mod 64 < 64"
    "unat a mod 4 * 16 < 64" "unat b mod 16 * 4 < 64"
    using byte_less [of a] byte_less [of b] byte_less [of c] by simp_all
  show "quantum_loop dec (base64_text enc [a, b, c] @ src) 4 0 0 =
    Some (Some (word_of_nat (unat a * 65536 + unat b * 256 + unat c), 0))"
    by (simp only: base64_text.simps append.simps quantum_four lt join_bytes)
  show "quantum_loop dec (base64_text enc [a, b] @ src) 4 0 0 =
    Some (Some (word_of_nat (unat a * 65536 + unat b * 256), 1))"
    using join_bytes [of "unat a" "unat b" 0]
    by (simp only: base64_text.simps append.simps quantum_four lt) simp
  show "quantum_loop dec (base64_text enc [a] @ src) 4 0 0 =
    Some (Some (word_of_nat (unat a * 65536), 2))"
    using join_bytes [of "unat a" 0 0]
    by (simp only: base64_text.simps append.simps quantum_four lt) simp
qed

end

text \<open>Writing a block from its end.\<close>

lemma write_two_back:
  "position + 2 \<le> length d \<Longrightarrow>
    do { d2 \<leftarrow> write_at d (position + 1) [y]; write_at d2 position [x] }
    = Some (take position d @ [x, y] @ drop (position + 2) d)"
  by (simp add: write_at_def)

lemma write_three_back:
  "position + 3 \<le> length d \<Longrightarrow>
    do { d1 \<leftarrow> write_at d (position + 2) [z]; d2 \<leftarrow> write_at d1 (position + 1) [y];
         write_at d2 position [x] }
    = Some (take position d @ [x, y, z] @ drop (position + 3) d)"
proof -
  assume room: "position + 3 \<le> length d"
  let ?d1 = "take (position + 2) d @ [z] @ drop (position + 3) d"
  have "write_at d (position + 2) [z] = Some ?d1"
    using room by (simp add: write_at_def eval_nat_numeral)
  moreover have "position + 2 \<le> length ?d1" using room by simp
  moreover have "take position ?d1 = take position d"
    "drop (position + 2) ?d1 = z # drop (position + 3) d"
    using room by simp_all
  ultimately show ?thesis
    using write_two_back [of position ?d1 y x] by simp
qed

context block_codec
begin

lemma bytes_of_sum:
  "word_of_nat (unat a * 65536 + unat b * 256 + unat c) = (c :: 8 word)"
  "word_of_nat ((unat a * 65536 + unat b * 256 + unat c) div 256) = (b :: 8 word)"
  "word_of_nat ((unat a * 65536 + unat b * 256 + unat c) div 256 div 256) = (a :: 8 word)"
  for a b c :: "8 word"
proof -
  have lt: "unat b * 256 + unat c < 65536" "unat c < 256" "unat a < 256"
    using byte_less [of a] byte_less [of b] byte_less [of c] by simp_all
  have split: "unat a * 65536 + unat b * 256 + unat c = (unat a * 256 + unat b) * 256 + unat c"
    by simp
  have div: "(unat a * 65536 + unat b * 256 + unat c) div 65536 = unat a"
    using lt by (simp add: add.assoc)
  show "word_of_nat (unat a * 65536 + unat b * 256 + unat c) = c"
    unfolding split byte_of_sum(1) by simp
  have "(unat a * 65536 + unat b * 256 + unat c) div 256 = unat a * 256 + unat b"
    unfolding split using lt by (simp del: add_mult_distrib)
  then show "word_of_nat ((unat a * 65536 + unat b * 256 + unat c) div 256) = b"
    using byte_of_sum(1) [of "unat a" "unat b"] by simp
  show "word_of_nat ((unat a * 65536 + unat b * 256 + unat c) div 256 div 256) = a"
    using div by (simp add: div_mult2_eq [symmetric])
qed

text \<open>Decoding a quantum writes its bytes at the position and nothing else.\<close>

lemma decode_quantum_text:
  assumes "xs = [a, b, c] \<or> xs = [a, b] \<or> xs = [a]"
    and "position + length xs \<le> length d"
  shows "decode_quantum dec (base64_text enc xs @ src) d position =
    Some (MCL_OK, take position d @ xs @ drop (position + length xs) d, size_of_nat (length xs))"
proof -
  have sum: "unat (word_of_nat (unat a * 65536 + unat b * 256 + unat c) :: 32 word)
      = unat a * 65536 + unat b * 256 + unat c"
    "unat (word_of_nat (unat a * 65536 + unat b * 256) :: 32 word) = unat a * 65536 + unat b * 256"
    "unat (word_of_nat (unat a * 65536) :: 32 word) = unat a * 65536"
    by (rule unat_acc, use byte_less [of a] byte_less [of b] byte_less [of c] in simp)+
  have four: "unat QUANTUM_SIZE = 4" by (simp add: QUANTUM_SIZE_def)
  from assms(1) show ?thesis
  proof (elim disjE)
    assume xs: "xs = [a, b, c]"
    have "decode_quantum dec (base64_text enc [a, b, c] @ src) d position =
      map_option (\<lambda>d3. (MCL_OK, d3, 3)) (do { d1 \<leftarrow> write_at d (position + 2) [c];
        d2 \<leftarrow> write_at d1 (position + 1) [b]; write_at d2 position [a] })"
      unfolding decode_quantum_def four quantum_loop_text low_byte sum
        option.case prod.case Option.bind.bind_lunit Let_def bytes_of_sum
      by (simp add: UPPER_COUNT_PADDING_def map_option_bind comp_def map_conv_bind_option)
    then show ?thesis
      using write_three_back [of position d c b a] assms(2) xs by (simp add: numeral_3_eq_3)
  next
    assume xs: "xs = [a, b]"
    have "decode_quantum dec (base64_text enc [a, b] @ src) d position =
      map_option (\<lambda>d3. (MCL_OK, d3, 2)) (do { d2 \<leftarrow> write_at d (position + 1) [b];
        write_at d2 position [a] })"
      using bytes_of_sum(2,3) [of a b 0]
      unfolding decode_quantum_def four quantum_loop_text low_byte sum
        option.case prod.case Option.bind.bind_lunit Let_def
      by (simp add: UPPER_COUNT_PADDING_def map_option_bind comp_def map_conv_bind_option
          size_less_iff)
    then show ?thesis
      using write_two_back [of position d b a] assms(2) xs by simp
  next
    assume xs: "xs = [a]"
    have "decode_quantum dec (base64_text enc [a] @ src) d position =
      map_option (\<lambda>d3. (MCL_OK, d3, 1)) (write_at d position [a])"
      using bytes_of_sum(3) [of a 0 0]
      unfolding decode_quantum_def four quantum_loop_text low_byte sum
        option.case prod.case Option.bind.bind_lunit Let_def
      by (simp add: UPPER_COUNT_PADDING_def map_option_bind comp_def map_conv_bind_option
          size_less_iff)
    then show ?thesis
      using assms(2) xs by (simp add: write_at_def)
  qed
qed

end

text \<open>The bytes in groups of three.\<close>

fun in_threes :: "'a list \<Rightarrow> 'a list list" where
  "in_threes (a # b # c # rest) = [a, b, c] # in_threes rest"
| "in_threes [a, b] = [[a, b]]"
| "in_threes [a] = [[a]]"
| "in_threes [] = []"

lemma group_of_three: "(n + 3) div 3 = n div 3 + (1 :: nat)" "(n + 3) mod 3 = n mod (3 :: nat)"
  by simp_all

context block_codec
begin

lemma quantum_length: "unat QUANTUM_SIZE = 4"
  by (simp add: QUANTUM_SIZE_def)

lemma small_length: "length xs \<le> 3 \<Longrightarrow> unat (size_of_nat (length xs)) = length xs"
  by (intro unat_size_of_nat) simp

lemma decode_loop_text:
  "position + length bs \<le> length d \<Longrightarrow>
    decode_loop dec ((length bs + 2) div 3) (base64_text enc bs @ src) d position =
      Some (MCL_OK, take position d @ bs @ drop (position + length bs) d, position + length bs)"
proof (induction bs arbitrary: d position rule: in_threes.induct)
  case (1 a b c rest)
  have n: "(length (a # b # c # rest) + 2) div 3 = Suc ((length rest + 2) div 3)" by simp
  obtain q where q: "q = base64_text enc [a, b, c]" "length q = 4" by simp
  have split: "base64_text enc (a # b # c # rest) @ src = q @ base64_text enc rest @ src"
    by (simp add: q)
  obtain x where x: "x = [a, b, c]" "length x = 3" by simp
  let ?d = "take position d @ x @ drop (position + 3) d"
  have step: "decode_quantum dec (q @ base64_text enc rest @ src) d position = Some (MCL_OK, ?d, 3)"
    using decode_quantum_text [of "[a, b, c]" a b c position d "base64_text enc rest @ src"] "1.prems"
    unfolding q x by (simp add: numeral_3_eq_3)
  have ih: "decode_loop dec ((length rest + 2) div 3) (base64_text enc rest @ src) ?d (position + 3) =
      Some (MCL_OK, take (position + 3) ?d @ rest @ drop (position + 3 + length rest) ?d,
        position + 3 + length rest)"
    using "1.prems" x(2) by (intro "1.IH") simp
  have first: "decode_loop dec (Suc ((length rest + 2) div 3)) (q @ base64_text enc rest @ src) d position
      = decode_loop dec ((length rest + 2) div 3) (base64_text enc rest @ src) ?d (position + 3)"
    using step q(2) by (simp add: quantum_length)
  have ends: "take (position + 3) ?d = take position d @ x"
    "drop (position + 3 + length rest) ?d = drop (position + 3 + length rest) d"
    using "1.prems" x(2) by (simp_all add: ac_simps)
  have len: "position + length (a # b # c # rest) = position + 3 + length rest" by simp
  have whole: "a # b # c # rest = x @ rest" by (simp add: x(1))
  show ?case unfolding n split first ih ends len by (simp only: whole append_assoc)
next
  case (2 a b)
  then show ?case
    using decode_quantum_text [of "[a, b]" a b 0 position d src] by simp
next
  case (3 a)
  then show ?case
    using decode_quantum_text [of "[a]" a 0 0 position d src] by simp
qed simp

text \<open>The padding starts where the plain characters end.\<close>

definition plain_length :: "8 word list \<Rightarrow> nat" where
  "plain_length bs = 4 * (length bs div 3) + (if length bs mod 3 = 0 then 0 else length bs mod 3 + 1)"

lemma padding_index_text:
  "padding_index (base64_text enc bs @ NUL # src) index = Some (index + plain_length bs)"
proof (induction bs arbitrary: index rule: in_threes.induct)
  case (1 a b c rest)
  have lt: "unat a div 4 < 64" "unat a mod 4 * 16 + unat b div 16 < 64"
    "unat b mod 16 * 4 + unat c div 64 < 64" "unat c mod 64 < 64"
    using byte_less [of a] byte_less [of b] byte_less [of c] by simp_all
  have "length (a # b # c # rest) = length rest + 3" by simp
  then have "plain_length (a # b # c # rest) = Suc (Suc (Suc (Suc (plain_length rest))))"
    unfolding plain_length_def by (simp only: group_of_three) simp
  then show ?case
    using 1 [of "Suc (Suc (Suc (Suc index)))"] lt enc_plain by simp
next
  case (2 a b)
  have "unat a div 4 < 64" "unat a mod 4 * 16 + unat b div 16 < 64" "unat b mod 16 * 4 < 64"
    using byte_less [of a] byte_less [of b] by simp_all
  then show ?case
    using enc_plain by (simp add: plain_length_def PADDING_CHAR_def)
next
  case (3 a)
  have "unat a div 4 < 64" "unat a mod 4 * 16 < 64"
    using byte_less [of a] by simp_all
  then show ?case
    using enc_plain by (simp add: plain_length_def PADDING_CHAR_def)
qed (simp add: plain_length_def)

definition padding_count :: "8 word list \<Rightarrow> nat" where
  "padding_count bs = (if length bs mod 3 = 0 then 0 else 3 - length bs mod 3)"

lemma padding_text:
  "drop (plain_length bs) (base64_text enc bs @ rest) = replicate (padding_count bs) (CHR ''='') @ rest"
proof (induction bs rule: in_threes.induct)
  case (1 a b c bs)
  have "length (a # b # c # bs) = length bs + 3" by simp
  then have "plain_length (a # b # c # bs) = Suc (Suc (Suc (Suc (plain_length bs))))"
    "padding_count (a # b # c # bs) = padding_count bs"
    unfolding plain_length_def padding_count_def by (simp_all only: group_of_three) simp_all
  then show ?case using 1 by simp
qed (simp_all add: plain_length_def padding_count_def numeral_2_eq_2)

lemma padding_cases:
  obtains q where "length bs = 3 * q" "padding_count bs = 0"
  | q where "length bs = 3 * q + 1" "padding_count bs = 2"
  | q where "length bs = 3 * q + 2" "padding_count bs = 1"
proof -
  obtain q r where n: "length bs = 3 * q + r" "r < 3"
    using mod_less_divisor [of 3 "length bs"] by (metis mult_div_mod_eq zero_less_numeral)
  then consider "r = 0" | "r = 1" | "r = 2" by linarith
  then show thesis
  proof cases
    case 1
    then show thesis using n by (intro that(1) [of q]) (simp_all add: padding_count_def)
  next
    case 2
    have "(3 * q + 1) mod 3 = 1" by presburger
    then show thesis using n 2 by (intro that(2) [of q]) (simp_all add: padding_count_def)
  next
    case 3
    have "(3 * q + 2) mod 3 = 2" by presburger
    then show thesis using n 3 by (intro that(3) [of q]) (simp_all add: padding_count_def)
  qed
qed

lemma length_by_padding:
  "length bs = (length bs + 2) div 3 * 3 - padding_count bs"
  "plain_length bs + padding_count bs = 4 * ((length bs + 2) div 3)"
proof -
  have q: "(3 * q + 2) div 3 = q" "(3 * q + 1) div 3 = q" "(3 * q + 1) mod 3 = 1"
    "(3 * q + 2) mod 3 = 2" "(3 * q + 1 + 2) div 3 = q + 1" "(3 * q + 2 + 2) div 3 = q + 1"
    for q :: nat by presburger+
  have "length bs = (length bs + 2) div 3 * 3 - padding_count bs
    \<and> plain_length bs + padding_count bs = 4 * ((length bs + 2) div 3)"
    by (rule padding_cases [of bs]; simp only: plain_length_def q; simp)
  then show "length bs = (length bs + 2) div 3 * 3 - padding_count bs"
    "plain_length bs + padding_count bs = 4 * ((length bs + 2) div 3)" by blast+
qed

lemma is_text_base64_text: "is_text (base64_text enc bs)"
proof (induction bs rule: in_threes.induct)
  case (1 a b c rest)
  then show ?case
    using enc_plain byte_less [of a] byte_less [of b] byte_less [of c] by simp
next
  case (2 a b)
  then show ?case using enc_plain byte_less [of a] byte_less [of b] by simp
next
  case (3 a)
  then show ?case using enc_plain byte_less [of a] by simp
qed simp

end

lemma string_initialize_dynamic_measured:
  assumes "is_text s"
  shows "string_initialize_dynamic (Some (s @ NUL # xs)) 0 w =
    (case memory_allocate sizeof_string w of
      (None, w1) \<Rightarrow> Some (MCL_OUT_OF_MEMORY, None, w1)
    | (Some a, w1) \<Rightarrow> Some (MCL_OK,
        Some \<lparr>string_buffer = Some (s @ NUL # xs), string_length = size_of_nat (length s),
          string_type = MCL_STRING_NOT_COPY_DESTROY\<rparr>, w1))"
  using assms
  by (simp add: string_initialize_dynamic_def initialize_typed_def initialize_buffer_def
      string_util_strlen_text split: prod.splits option.splits)

text \<open>The size of the buffer the encoder allocates, and that the text fits into it.\<close>

definition encode_bytes :: "nat \<Rightarrow> mcl_size_t" where
  "encode_bytes n = size_of_nat n * QUANTUM_SIZE div INPUT_GROUP_SIZE + QUANTUM_SIZE"

lemma unat_encode_bytes: "n < 2 ^ 60 \<Longrightarrow> unat (encode_bytes n) = n * 4 div 3 + 4"
proof -
  assume n: "n < 2 ^ 60"
  have "unat (size_of_nat n * 4 :: mcl_size_t) = n * 4"
    using n by (subst unat_mult_less) (simp_all add: unat_size_of_nat)
  then have "unat (size_of_nat n * 4 div 3 :: mcl_size_t) = n * 4 div 3"
    by (simp add: unat_div_distrib)
  moreover have "n * 4 div 3 + 4 < 2 ^ 64" using n by simp
  ultimately show ?thesis
    unfolding encode_bytes_def QUANTUM_SIZE_def INPUT_GROUP_SIZE_def
    by (subst unat_add_less) simp_all
qed

lemma encode_room: "4 * ((n + 2) div 3) + 1 \<le> n * 4 div 3 + (4 :: nat)"
  by presburger

context block_codec
begin

definition text_handle :: "8 word list \<Rightarrow> world \<Rightarrow> string_t" where
  "text_handle bs w =
    \<lparr>string_buffer = Some (base64_text enc bs @ NUL #
        drop (length (base64_text enc bs) + 1) (unwritten w (length bs * 4 div 3 + 4))),
      string_length = size_of_nat (length (base64_text enc bs)),
      string_type = MCL_STRING_NOT_COPY_DESTROY\<rparr>"

lemma text_handle_says: "length bs < 2 ^ 60 \<Longrightarrow> says (text_handle bs w) (base64_text enc bs)"
proof -
  assume "length bs < 2 ^ 60"
  then have "length (base64_text enc bs) + 1 < 2 ^ 64" by (simp add: length_base64_text)
  then show ?thesis by (simp add: says_def text_handle_def is_text_base64_text)
qed

lemma blocks_of_text_handle: "blocks_of (text_handle bs w) = 2"
  by (simp add: blocks_of_def text_handle_def)

lemma encode_with_table_more:
  assumes "length bs < 2 ^ 60"
  shows "encode_with_table enc (bs @ xs) (size_of_nat (length bs)) w =
    (case memory_allocate (encode_bytes (length bs)) w of
      (None, w1) \<Rightarrow> Some (MCL_OUT_OF_MEMORY, None, w1)
    | (Some a, w1) \<Rightarrow>
        (case memory_allocate sizeof_string w1 of
          (None, w2) \<Rightarrow> Some (MCL_OK, None, w2)
        | (Some b, w2) \<Rightarrow> Some (MCL_OK, Some (text_handle bs w), w2)))"
proof -
  let ?t = "base64_text enc bs" and ?junk = "unwritten w (length bs * 4 div 3 + 4)"
  have n: "unat (size_of_nat (length bs)) = length bs"
    using assms by (intro unat_size_of_nat) simp
  have room: "length ?t + 1 \<le> length ?junk"
    using encode_room [of "length bs"] by (simp add: length_base64_text)
  have loop: "encode_loop enc (bs @ xs) (length bs) ?junk 0 = Some (?t @ drop (length ?t) ?junk, length ?t)"
    using encode_loop_text [OF enc_length, of 0 bs ?junk xs] room by simp
  have ended: "write_at (?t @ drop (length ?t) ?junk) (length ?t) [NUL]
      = Some (?t @ NUL # drop (length ?t + 1) ?junk)"
    using room by (simp add: write_at_def)
  show ?thesis
    unfolding encode_with_table_def encode_bytes_def [symmetric] Let_def n
      unat_encode_bytes [OF assms] loop Option.bind.bind_lunit prod.case ended
      string_initialize_dynamic_measured [OF is_text_base64_text] text_handle_def
    by (simp split: prod.splits option.splits)
qed

lemmas encode_with_table_text = encode_with_table_more [where xs = "[]", unfolded append_Nil2]

text \<open>Decoding the text of some bytes gives them back.\<close>

lemma decode_with_table_text:
  assumes "bs \<noteq> []" "length bs < 2 ^ 60" "says s (base64_text enc bs)"
  shows "decode_with_table dec s old w =
    (case memory_allocate (size_of_nat (length bs) + 1) w of
      (None, w1) \<Rightarrow> Some (MCL_OUT_OF_MEMORY, (None, 0), w1)
    | (Some a, w1) \<Rightarrow> Some (MCL_OK, (Some (bs @ [0]), size_of_nat (length bs)), w1))"
proof -
  let ?t = "base64_text enc bs" and ?k = "(length bs + 2) div 3" and ?p = "padding_count bs"
  obtain xs where buf: "string_buffer s = Some (?t @ NUL # xs)"
    and len: "string_length s = size_of_nat (length ?t)"
    using assms(3) by (auto simp: says_def)
  have k: "1 \<le> ?k" "?k < 2 ^ 60" "length ?t = 4 * ?k"
    using assms(1,2) by (auto simp: length_base64_text Suc_le_eq neq_Nil_conv)
  have ulen: "unat (string_length s) = 4 * ?k"
    unfolding len k(3) using k(2) by (intro unat_size_of_nat) simp
  have ok: "string_length s > 0 \<and> string_length s mod QUANTUM_SIZE = 0"
  proof
    show "string_length s > 0" using ulen k(1) by (simp add: size_pos_iff)
    have "unat (string_length s mod QUANTUM_SIZE) = 0"
      by (simp add: unat_mod_distrib ulen QUANTUM_SIZE_def)
    then show "string_length s mod QUANTUM_SIZE = 0" by (simp add: unat_eq_zero)
  qed
  have index: "padding_index (?t @ NUL # xs) 0 = Some (plain_length bs)"
    using padding_index_text [of bs xs 0] by simp
  have after: "drop (plain_length bs) (?t @ NUL # xs) = replicate ?p (CHR ''='') @ NUL # xs"
    by (rule padding_text)
  obtain c where c: "read_at (?t @ NUL # xs) (plain_length bs) = Some c"
    and pad: "(if c = PADDING_CHAR then do {
        c1 \<leftarrow> read_at (?t @ NUL # xs) (plain_length bs + 1);
        Some (if c1 = PADDING_CHAR then 2 else 1)
      } else Some 0) = Some (size_of_nat ?p)"
  proof -
    consider "?p = 0" | "?p = 1" | "?p = 2" by (rule padding_cases [of bs]) metis+
    then show thesis
    proof cases
      case 1
      then have d: "drop (plain_length bs) (?t @ NUL # xs) = NUL # xs" using after by simp
      show thesis
        by (rule that [of NUL]) (use 1 read_at_drop(1) [OF d] in \<open>simp_all add: PADDING_CHAR_def\<close>)
    next
      case 2
      then have d: "drop (plain_length bs) (?t @ NUL # xs) = PADDING_CHAR # NUL # xs"
        using after by (simp add: PADDING_CHAR_def)
      show thesis
        by (rule that [of PADDING_CHAR])
          (use 2 read_at_drop(1) [OF d] read_at_drop(2) [OF d] in \<open>simp_all add: PADDING_CHAR_def\<close>)
    next
      case 3
      then have d: "drop (plain_length bs) (?t @ NUL # xs) = PADDING_CHAR # PADDING_CHAR # NUL # xs"
        using after by (simp add: PADDING_CHAR_def numeral_2_eq_2)
      show thesis
        by (rule that [of PADDING_CHAR])
          (use 3 read_at_drop(1) [OF d] read_at_drop(2) [OF d] in simp_all)
    qed
  qed
  have sum: "size_of_nat (plain_length bs) + size_of_nat ?p = string_length s"
    unfolding len k(3) of_nat_add [symmetric] length_by_padding(2) by simp
  have quantums: "string_length s div QUANTUM_SIZE = size_of_nat ?k" "unat (size_of_nat ?k) = ?k"
  proof -
    show u: "unat (size_of_nat ?k) = ?k" using k(2) by (intro unat_size_of_nat) simp
    show "string_length s div QUANTUM_SIZE = size_of_nat ?k"
      unfolding size_eq_iff u unat_div_distrib ulen QUANTUM_SIZE_def by simp
  qed
  have raw: "size_of_nat ?k * INPUT_GROUP_SIZE - size_of_nat ?p = size_of_nat (length bs)"
  proof -
    have "?p \<le> ?k * 3" by (rule padding_cases [of bs]) (use k(1) in auto)
    then have "size_of_nat (?k * 3 - ?p) = size_of_nat ?k * 3 - (size_of_nat ?p :: mcl_size_t)"
      by (simp add: of_nat_diff)
    then show ?thesis using length_by_padding(1) [of bs] by (simp add: INPUT_GROUP_SIZE_def)
  qed
  have raw1: "unat (size_of_nat (length bs) + 1) = length bs + 1"
    using assms(2) by (intro unat_succ_length) simp
  have loop: "decode_loop dec ?k (?t @ NUL # xs) (map of_char (unwritten w (length bs + 1))) 0
      = Some (MCL_OK, bs @ drop (length bs) (map of_char (unwritten w (length bs + 1))), length bs)"
    using decode_loop_text [of 0 bs "map of_char (unwritten w (length bs + 1))" "NUL # xs"] by simp
  have last: "write_at (bs @ drop (length bs) (map of_char (unwritten w (length bs + 1)))) (length bs) [0]
      = Some (bs @ [0])"
    by (simp add: write_at_def)
  show ?thesis
    by (simp only: decode_with_table_def ok simp_thms if_False if_True buf Option.bind.bind_lunit
        index c pad sum Let_def quantums raw raw1 loop last prod.case)
qed

end

section \<open>The alphabets of the code\<close>

lemma std_tables:
  "length base64_encode_table = 64 \<and> length base64_decode_table = 256
    \<and> (\<forall>i \<in> set [0..<64]. base64_decode_table ! of_char (base64_encode_table ! i) = word_of_nat i
      \<and> base64_encode_table ! i \<noteq> PADDING_CHAR \<and> base64_encode_table ! i \<noteq> NUL)"
  by code_simp

lemma url_tables:
  "length base64_url_encode_table = 64 \<and> length base64_url_decode_table = 256
    \<and> (\<forall>i \<in> set [0..<64]. base64_url_decode_table ! of_char (base64_url_encode_table ! i) = word_of_nat i
      \<and> base64_url_encode_table ! i \<noteq> PADDING_CHAR \<and> base64_url_encode_table ! i \<noteq> NUL)"
  by code_simp

interpretation std: block_codec base64_encode_table base64_decode_table
  by unfold_locales (use std_tables in auto)

interpretation url: block_codec base64_url_encode_table base64_url_decode_table
  by unfold_locales (use url_tables in auto)

text \<open>Encoding some bytes never writes outside of its buffer and gives a string that says
  the text of RFC 4648 in the alphabet of the call, or reports that memory is out and leaves
  nothing behind; when only the string handle cannot be allocated, the call reports success
  without a string and the text is left behind.\<close>

theorem base64_encode_correct:
  assumes "length bs < 2 ^ 60"
    and "encode = base64_encode \<and> table = base64_encode_table
      \<or> encode = base64_url_encode \<and> table = base64_url_encode_table"
  shows "\<exists>code r w'. encode bs (size_of_nat (length bs)) w = Some (code, r, w')
    \<and> (case r of
        Some str \<Rightarrow> code = MCL_OK \<and> says str (base64_text table bs) \<and> live w' = live w + blocks_of str
      | None \<Rightarrow> code = MCL_OUT_OF_MEMORY \<and> live w' = live w
          \<or> code = MCL_OK \<and> live w' = live w + 1)
    \<and> (upcoming w = [] \<longrightarrow> r \<noteq> None)
    \<and> (upcoming w = [True, False] \<longrightarrow> code = MCL_OK \<and> r = None)"
proof -
  have pos: "encode_bytes (length bs) \<noteq> 0"
    using unat_encode_bytes [OF assms(1)] by (metis add_is_0 unsigned_0 zero_neq_numeral)
  have enc: "encode bs (size_of_nat (length bs)) w
      = encode_with_table table bs (size_of_nat (length bs)) w"
    using assms(2) by (auto simp: base64_encode_def base64_url_encode_def)
  obtain h where h: "says h (base64_text table bs)" "blocks_of h = 2"
    and run: "encode_with_table table bs (size_of_nat (length bs)) w =
      (case memory_allocate (encode_bytes (length bs)) w of
        (None, w1) \<Rightarrow> Some (MCL_OUT_OF_MEMORY, None, w1)
      | (Some a, w1) \<Rightarrow>
          (case memory_allocate sizeof_string w1 of
            (None, w2) \<Rightarrow> Some (MCL_OK, None, w2)
          | (Some b, w2) \<Rightarrow> Some (MCL_OK, Some h, w2)))"
    using assms(2) std.encode_with_table_text [OF assms(1), of w] std.text_handle_says [OF assms(1), of w]
      url.encode_with_table_text [OF assms(1), of w] url.text_handle_says [OF assms(1), of w]
      std.blocks_of_text_handle [of bs w] url.blocks_of_text_handle [of bs w]
    by (elim disjE conjE) (rule that; simp)+
  show ?thesis
    unfolding enc run
    using h pos
    by (auto simp: memory_allocate_def memory_malloc_def sizeof_string_def)
qed

lemma base64_encode_correct_witness:
  "\<exists>str w'. base64_encode [0x66, 0x6F] (size_of_nat (length [0x66, 0x6F :: 8 word])) quiet_world
      = Some (MCL_OK, Some str, w') \<and> says str ''Zm8=''"
proof -
  have "base64_text base64_encode_table [0x66, 0x6F] = ''Zm8=''"
    by (simp add: base64_encode_table_def)
  moreover have "length [0x66, 0x6F :: 8 word] < 2 ^ 60" "upcoming quiet_world = []"
    by (simp_all add: quiet_world_def)
  ultimately show ?thesis
    using base64_encode_correct [of "[0x66, 0x6F]" base64_encode base64_encode_table quiet_world]
    by (fastforce split: option.splits)
qed

text \<open>C29: the round trip: decoding what encoding made of any bytes but none, with the same
  alphabet, gives the bytes and their number, with a zero after them.\<close>

theorem base64_roundtrip:
  assumes "bs \<noteq> []" "length bs < 2 ^ 60" "upcoming w = []"
  shows "(\<exists>str w1 w2. base64_encode bs (size_of_nat (length bs)) w = Some (MCL_OK, Some str, w1)
      \<and> base64_decode str old w1 = Some (MCL_OK, (Some (bs @ [0]), size_of_nat (length bs)), w2))
    \<and> (\<exists>str w1 w2. base64_url_encode bs (size_of_nat (length bs)) w = Some (MCL_OK, Some str, w1)
      \<and> base64_url_decode str old w1 = Some (MCL_OK, (Some (bs @ [0]), size_of_nat (length bs)), w2))"
proof -
  have pos: "encode_bytes (length bs) \<noteq> 0"
    using unat_encode_bytes [OF assms(2)] by (metis add_is_0 unsigned_0 zero_neq_numeral)
  have pos2: "size_of_nat (length bs) + 1 \<noteq> (0 :: mcl_size_t)"
    using assms(2) by (intro succ_length_nonzero) simp
  note quiet = memory_allocate_unbounded assms(3) pos pos2
  show ?thesis
    using std.encode_with_table_text [OF assms(2), of w] url.encode_with_table_text [OF assms(2), of w]
      std.decode_with_table_text [OF assms(1,2) std.text_handle_says [OF assms(2), of w]]
      url.decode_with_table_text [OF assms(1,2) url.text_handle_says [OF assms(2), of w]]
    by (simp add: base64_encode_def base64_url_encode_def base64_decode_def base64_url_decode_def
        quiet sizeof_string_def)
qed

lemma base64_roundtrip_witness:
  "\<exists>str w1 w2. base64_url_encode [0xFB, 0xFF] (size_of_nat (length [0xFB, 0xFF :: 8 word])) quiet_world
      = Some (MCL_OK, Some str, w1)
    \<and> base64_url_decode str (None, 0) w1
      = Some (MCL_OK, (Some ([0xFB, 0xFF] @ [0]), size_of_nat (length [0xFB, 0xFF :: 8 word])), w2)"
proof -
  have "[0xFB, 0xFF :: 8 word] \<noteq> []" "length [0xFB, 0xFF :: 8 word] < 2 ^ 60"
    "upcoming quiet_world = []" by (simp_all add: quiet_world_def)
  from base64_roundtrip [OF this, of "(None, 0)", THEN conjunct2] show ?thesis .
qed

section \<open>Decoding any text\<close>

definition pads :: "string \<Rightarrow> nat" where
  "pads cs = length (filter (\<lambda>c. c = PADDING_CHAR) cs)"

lemma pads_simps [simp]:
  "pads [] = 0" "pads (c # cs) = (if c = PADDING_CHAR then Suc (pads cs) else pads cs)"
  "pads (cs @ ds) = pads cs + pads ds"
  by (simp_all add: pads_def)

lemma quantum_loop_safe:
  assumes "length table = 256"
  shows "p + pads cs \<le> 2 \<Longrightarrow>
    quantum_loop table (cs @ rest) (length cs) dat (size_of_nat p) = Some None
    \<or> (\<exists>dat'. quantum_loop table (cs @ rest) (length cs) dat (size_of_nat p)
        = Some (Some (dat', size_of_nat (p + pads cs))))"
proof (induction cs arbitrary: dat p)
  case (Cons c cs)
  show ?case
  proof (cases "c = PADDING_CHAR")
    case True
    have "unat (size_of_nat p + 1) = p + 1"
      using Cons.prems True by (subst unat_add_one) (simp_all add: unat_size_of_nat)
    then have "size_of_nat p + 1 < UPPER_COUNT_PADDING" "size_of_nat p + 1 = (size_of_nat (p + 1) :: mcl_size_t)"
      using Cons.prems True by (simp_all add: size_less_iff UPPER_COUNT_PADDING_def)
    then show ?thesis
      using Cons.IH [of "p + 1" "push_bit 6 dat"] Cons.prems True
      by (simp add: ac_simps)
  next
    case False
    have "of_char c < (256 :: nat)" by simp
    then obtain t where "read_at table (of_char c) = Some t" using assms by (metis read_at_in)
    then show ?thesis
      using Cons.IH [of p "push_bit 6 dat + ucast t"] Cons.prems False by simp
  qed
qed simp

lemma decode_quantum_safe:
  assumes "length table = 256" "length cs = 4" "pads cs \<le> 2" "position + 3 - pads cs \<le> length d"
  shows "\<exists>d'. length d' = length d
    \<and> (decode_quantum table (cs @ rest) d position = Some (MCL_OK, d', size_of_nat (3 - pads cs))
      \<or> decode_quantum table (cs @ rest) d position = Some (MCL_BAD_CONTENT_ENCODING, d', 0))"
proof -
  have four: "unat QUANTUM_SIZE = 4" by (simp add: QUANTUM_SIZE_def)
  have loop: "quantum_loop table (cs @ rest) 4 0 0 = Some None
    \<or> (\<exists>dat'. quantum_loop table (cs @ rest) 4 0 0 = Some (Some (dat', size_of_nat (pads cs))))"
    using quantum_loop_safe [OF assms(1), of 0 cs rest 0] assms(2,3) by simp
  have wr: "\<exists>d'. write_at e i [x] = Some d' \<and> length d' = length e" if "i < length e"
    for e i and x :: "8 word"
    using that by (auto simp: write_at_def)
  from loop show ?thesis
  proof (elim disjE exE)
    assume "quantum_loop table (cs @ rest) 4 0 0 = Some None"
    then show ?thesis by (intro exI [of _ d]) (simp add: decode_quantum_def four)
  next
    fix dat
    assume q: "quantum_loop table (cs @ rest) 4 0 0 = Some (Some (dat, size_of_nat (pads cs)))"
    let ?b2 = "ucast (and dat 0xFF) :: 8 word" and ?b1 = "ucast (and (drop_bit 8 dat) 0xFF) :: 8 word"
      and ?b0 = "ucast (and (drop_bit 8 (drop_bit 8 dat)) 0xFF) :: 8 word"
    have small: "size_of_nat (pads cs) < (1 :: mcl_size_t) \<longleftrightarrow> pads cs < 1"
      "size_of_nat (pads cs) < (2 :: mcl_size_t) \<longleftrightarrow> pads cs < 2"
      "UPPER_COUNT_PADDING - size_of_nat (pads cs) = (size_of_nat (3 - pads cs) :: mcl_size_t)"
      using assms(3) by (simp_all add: size_less_iff unat_size_of_nat UPPER_COUNT_PADDING_def of_nat_diff)
    have room: "pads cs < 1 \<Longrightarrow> position + 2 < length d" "pads cs < 2 \<Longrightarrow> position + 1 < length d"
      "position < length d"
      using assms(3,4) by linarith+
    obtain d1 where d1: "(if pads cs < 1 then write_at d (position + 2) [?b2] else Some d) = Some d1"
      "length d1 = length d"
      using wr [of "position + 2" d ?b2] room by (cases "pads cs < 1") auto
    obtain d2 where d2: "(if pads cs < 2 then write_at d1 (position + 1) [?b1] else Some d1) = Some d2"
      "length d2 = length d"
      using wr [of "position + 1" d1 ?b1] room d1(2) by (cases "pads cs < 2") auto
    obtain d3 where d3: "write_at d2 position [?b0] = Some d3" "length d3 = length d"
      using wr [of position d2 ?b0] room d2(2) by auto
    have "decode_quantum table (cs @ rest) d position = Some (MCL_OK, d3, size_of_nat (3 - pads cs))"
      unfolding decode_quantum_def four q Option.bind.bind_lunit option.case prod.case Let_def small
        d1(1) d2(1) d3(1) ..
    with d3(2) show ?thesis by blast
  qed
qed

lemma decode_loop_safe:
  assumes "length table = 256"
  shows "PADDING_CHAR \<notin> set body \<Longrightarrow> k \<le> 2 \<Longrightarrow> length body + k = 4 * n \<Longrightarrow>
    position + 3 * n - k \<le> length d \<Longrightarrow>
    \<exists>code d' position'. decode_loop table n (body @ replicate k PADDING_CHAR @ rest) d position
        = Some (code, d', position')
      \<and> length d' = length d
      \<and> (code = MCL_OK \<and> position' = position + 3 * n - k \<or> code = MCL_BAD_CONTENT_ENCODING)"
proof (induction n arbitrary: body d position)
  case (Suc n)
  let ?s = "body @ replicate k PADDING_CHAR"
  let ?cs = "take 4 ?s"
  have len: "length ?s = 4 * Suc n" "length ?cs = 4" using Suc.prems(3) by simp_all
  have plain: "pads xs = 0" if "set xs \<subseteq> set body" for xs
    using that Suc.prems(1) by (auto simp: pads_def filter_empty_conv)
  have reps: "pads (replicate j PADDING_CHAR) = j" for j by (induction j) simp_all
  have cut: "?s @ rest = ?cs @ drop 4 ?s @ rest" by (simp only: append_assoc [symmetric] append_take_drop_id)
  show ?case
  proof (cases n)
    case 0
    have cs: "pads ?cs = k" using len plain [of body] reps 0 by simp
    have room: "position + 3 - pads ?cs \<le> length d" using Suc.prems(4) 0 cs by simp
    have two: "pads ?cs \<le> 2" using Suc.prems(2) by (simp only: cs)
    from decode_quantum_safe [OF assms len(2) two room, of "drop 4 ?s @ rest"]
    obtain d' where d': "length d' = length d"
      "decode_quantum table (?cs @ drop 4 ?s @ rest) d position = Some (MCL_OK, d', size_of_nat (3 - pads ?cs))
      \<or> decode_quantum table (?cs @ drop 4 ?s @ rest) d position = Some (MCL_BAD_CONTENT_ENCODING, d', 0)"
      by (elim exE conjE) (rule that)
    obtain src where src: "src = body @ replicate k PADDING_CHAR @ rest"
      "src = ?cs @ drop 4 ?s @ rest"
      using cut by simp
    have q: "decode_quantum table src d position = Some (MCL_OK, d', size_of_nat (3 - k))
      \<or> decode_quantum table src d position = Some (MCL_BAD_CONTENT_ENCODING, d', 0)"
      using d'(2) unfolding src(2) cs .
    have last: "decode_loop table (Suc 0) src d position =
      (case decode_quantum table src d position of None \<Rightarrow> None
      | Some (code, d1, padding) \<Rightarrow>
          if code \<noteq> MCL_OK then Some (MCL_BAD_CONTENT_ENCODING, d1, position)
          else Some (MCL_OK, d1, position + unat padding))"
      by (simp split: option.split prod.split)
    have u: "unat (size_of_nat (3 - k)) = 3 - k" by (intro unat_size_of_nat) simp
    obtain j where j: "j = 3 - k" by simp
    show ?thesis
      unfolding 0 src(1) [symmetric] last
      using q u d'(1) Suc.prems(2) unfolding j [symmetric] by (elim disjE) (simp_all add: j)
  next
    case (Suc m)
    have lb: "length (take 4 body) = 4" "?cs = take 4 body" "drop 4 ?s = drop 4 body @ replicate k PADDING_CHAR"
      using Suc.prems(2,3) Suc by simp_all
    have nopad: "pads ?cs = 0" unfolding lb(2) by (rule plain) (rule set_take_subset)
    have room: "position + 3 - pads ?cs \<le> length d" using Suc.prems(2,4) nopad Suc by simp
    have cut': "?s @ rest = ?cs @ drop 4 body @ replicate k PADDING_CHAR @ rest"
      using cut unfolding lb(3) append_assoc .
    obtain d' where d': "length d' = length d"
      "decode_quantum table (?s @ rest) d position = Some (MCL_OK, d', 3)
      \<or> decode_quantum table (?s @ rest) d position = Some (MCL_BAD_CONTENT_ENCODING, d', 0)"
      using decode_quantum_safe [OF assms len(2) _ room, of "drop 4 ?s @ rest"] nopad
      unfolding cut by auto
    have body: "PADDING_CHAR \<notin> set (drop 4 body)" "length (drop 4 body) + k = 4 * n"
      "position + 3 + 3 * n - k \<le> length d'"
      using Suc.prems Suc d'(1) by (auto dest: in_set_dropD)
    have tail: "drop (unat QUANTUM_SIZE) (?s @ rest) = drop 4 body @ replicate k PADDING_CHAR @ rest"
      unfolding cut' using len(2) by (simp add: QUANTUM_SIZE_def)
    from Suc.IH [OF body(1) Suc.prems(2) body(2,3)] obtain code d'' position' where
      "decode_loop table n (drop 4 body @ replicate k PADDING_CHAR @ rest) d' (position + 3)
        = Some (code, d'', position')" "length d'' = length d"
      "code = MCL_OK \<and> position' = position + 3 + 3 * n - k \<or> code = MCL_BAD_CONTENT_ENCODING"
      using d'(1) by auto
    then show ?thesis
      using d'(2) tail unfolding append_assoc
      by (elim disjE) (auto simp: d'(1) simp del: replicate.simps)
  qed
qed simp

lemma padding_index_takeWhile:
  "is_text s \<Longrightarrow> padding_index (s @ NUL # xs) i
    = Some (i + length (takeWhile (\<lambda>c. c \<noteq> PADDING_CHAR) s))"
  by (induction s arbitrary: i) (auto simp: PADDING_CHAR_def)

text \<open>C30: decoding any text whatever never reads or writes outside of an object and never fails to
  answer: it gives bytes of the size it reports, or refuses, or memory is out; whenever it
  does not succeed nothing stays allocated.\<close>

theorem base64_decode_safe:
  assumes "says str s"
    and "decode = base64_decode \<or> decode = base64_url_decode"
  shows "\<exists>code bytes size w'. decode str (None, 0) w = Some (code, (bytes, size), w')
    \<and> (code = MCL_OK \<and> (\<exists>d. bytes = Some d \<and> length d = unat size + 1) \<and> live w' = live w + 1
      \<or> (code = MCL_BAD_CONTENT_ENCODING \<or> code = MCL_OUT_OF_MEMORY)
        \<and> bytes = None \<and> size = 0 \<and> live w' = live w)
    \<and> (length s mod 4 \<noteq> 0 \<or> s = [] \<longrightarrow> code = MCL_BAD_CONTENT_ENCODING)"
proof -
  obtain table where table: "length table = 256" "decode = decode_with_table table"
    using assms(2) std.dec_length url.dec_length
    by (auto simp: base64_decode_def base64_url_decode_def fun_eq_iff)
  obtain xs where buf: "string_buffer str = Some (s @ NUL # xs)"
    and text_s: "is_text s" and small: "length s + 1 < 2 ^ 64"
    and len: "string_length str = size_of_nat (length s)"
    using assms(1) by (auto simp: says_def)
  have ulen: "unat (string_length str) = length s"
    unfolding len using small by (intro unat_size_of_nat) simp
  have umod: "string_length str mod QUANTUM_SIZE = 0 \<longleftrightarrow> length s mod 4 = 0"
    by (simp add: size_eq_iff unat_mod_distrib ulen QUANTUM_SIZE_def)
  have upos: "string_length str > 0 \<longleftrightarrow> s \<noteq> []"
    by (simp add: size_pos_iff ulen)
  let ?body = "takeWhile (\<lambda>c. c \<noteq> PADDING_CHAR) s"
  let ?tail = "drop (length ?body) s"
  have whole: "s = ?body @ ?tail"
    by (metis append_take_drop_id takeWhile_eq_take)
  have head: "?tail = [] \<or> hd ?tail = PADDING_CHAR"
    by (metis (mono_tags, lifting) append_self_conv dropWhile_eq_drop hd_dropWhile)
  have at: "drop (length ?body) (s @ NUL # xs) = ?tail @ NUL # xs"
    using length_takeWhile_le [of _ s] by simp
  obtain c k where ck: "read_at (s @ NUL # xs) (length ?body) = Some c"
    "(if c = PADDING_CHAR then do {
        c1 \<leftarrow> read_at (s @ NUL # xs) (length ?body + 1);
        Some (if c1 = PADDING_CHAR then 2 else 1)
      } else Some 0) = Some (size_of_nat k :: mcl_size_t)"
    "k \<le> 2" "k \<le> length ?tail" "take k ?tail = replicate k PADDING_CHAR"
  proof (cases ?tail)
    case Nil
    then have d: "drop (length ?body) (s @ NUL # xs) = NUL # xs" using at by simp
    show thesis
      by (rule that [of NUL 0]) (use read_at_drop(1) [OF d] in \<open>simp_all add: PADDING_CHAR_def\<close>)
  next
    case (Cons c t)
    then have c: "c = PADDING_CHAR" using head by simp
    show thesis
    proof (cases t)
      case Nil
      then have d: "drop (length ?body) (s @ NUL # xs) = PADDING_CHAR # NUL # xs"
        using at Cons c by simp
      show thesis
        by (rule that [of PADDING_CHAR 1])
          (use read_at_drop(1) [OF d] read_at_drop(2) [OF d] Cons c in \<open>simp_all add: PADDING_CHAR_def\<close>)
    next
      case t: (Cons c1 u)
      then have d: "drop (length ?body) (s @ NUL # xs) = PADDING_CHAR # c1 # u @ NUL # xs"
        using at Cons c by simp
      show thesis
        by (rule that [of PADDING_CHAR "if c1 = PADDING_CHAR then 2 else 1"])
          (use read_at_drop(1) [OF d] read_at_drop(2) [OF d] Cons c t in
            \<open>simp_all add: numeral_2_eq_2\<close>)
    qed
  qed
  have index: "padding_index (s @ NUL # xs) 0 = Some (length ?body)"
    using padding_index_takeWhile [OF text_s, of xs 0] by simp
  note start = decode_with_table_def ulen umod upos buf index ck(1,2) Let_def table(2)
  show ?thesis
  proof (cases "s \<noteq> [] \<and> length s mod 4 = 0")
    case False
    then show ?thesis using umod upos by (auto simp: decode_with_table_def table(2))
  next
    case True
    have sum: "size_of_nat (length ?body) + size_of_nat k = string_length str
        \<longleftrightarrow> length ?body + k = length s"
    proof -
      have "length ?body + k \<le> length s" using ck(4) whole by (metis add_left_mono length_append)
      then have "unat (size_of_nat (length ?body + k)) = length ?body + k"
        using small by (intro unat_size_of_nat) simp
      then show ?thesis by (simp only: size_eq_iff ulen of_nat_add [symmetric])
    qed
    show ?thesis
    proof (cases "length ?body + k = length s")
      case False
      then show ?thesis
        using True umod upos sum by (simp add: start)
    next
      case eq: True
      obtain n where n: "length s = 4 * n" using True by (metis dvdE mod_0_imp_dvd)
      have "n \<noteq> 0" using True n by (cases "n = 0") simp_all
      then have k: "1 \<le> n" "k \<le> 2" "n < 2 ^ 62" using True n ck(3) small by (auto simp: Suc_le_eq)
      have un: "unat (size_of_nat n) = n" using k(3) by (intro unat_size_of_nat) simp
      have quantums: "string_length str div QUANTUM_SIZE = size_of_nat n"
        unfolding size_eq_iff un unat_div_distrib ulen n QUANTUM_SIZE_def by simp
      have raw: "size_of_nat n * INPUT_GROUP_SIZE - size_of_nat k = (size_of_nat (3 * n - k) :: mcl_size_t)"
        using k by (simp add: INPUT_GROUP_SIZE_def of_nat_diff mult.commute)
      have uraw: "unat (size_of_nat (3 * n - k)) = 3 * n - k"
        "unat (size_of_nat (3 * n - k) + 1) = 3 * n - k + 1"
      proof -
        show u: "unat (size_of_nat (3 * n - k)) = 3 * n - k"
          using k by (intro unat_size_of_nat) simp
        show "unat (size_of_nat (3 * n - k) + 1) = 3 * n - k + 1"
          using k u by (subst unat_add_one) simp_all
      qed
      have tail: "?tail = replicate k PADDING_CHAR"
        using ck(4,5) eq whole by (metis add_left_cancel length_append order_refl take_all)
      have body: "PADDING_CHAR \<notin> set ?body" "length ?body + k = 4 * n"
        using eq n by (auto dest: set_takeWhileD)
      let ?d = "map of_char (unwritten w (3 * n - k + 1)) :: 8 word list"
      have buffer: "s @ NUL # xs = ?body @ replicate k PADDING_CHAR @ NUL # xs"
        using whole tail by (metis append_assoc)
      obtain code d' position' where loop:
        "decode_loop table n (s @ NUL # xs) ?d 0 = Some (code, d', position')"
        "length d' = 3 * n - k + 1"
        "code = MCL_OK \<and> position' = 3 * n - k \<or> code = MCL_BAD_CONTENT_ENCODING"
        using decode_loop_safe [OF table(1) body(1) k(2) body(2), of 0 ?d "NUL # xs"]
        unfolding buffer [symmetric] by auto
      have ok: "string_length str > 0 \<and> string_length str mod QUANTUM_SIZE = 0"
        using True umod upos by simp
      have run: "decode str (None, 0) w =
        (case memory_allocate (size_of_nat (3 * n - k) + 1) w of
          (None, w1) \<Rightarrow> Some (MCL_OUT_OF_MEMORY, (None, 0), w1)
        | (Some a, w1) \<Rightarrow>
            if code \<noteq> MCL_OK then Some (MCL_BAD_CONTENT_ENCODING, (None, 0), memory_free w1)
            else do {
              d1 \<leftarrow> write_at d' position' [0];
              Some (MCL_OK, (Some d1, size_of_nat (3 * n - k)), w1)
            })"
        by (simp only: table(2) decode_with_table_def ok simp_thms if_False if_True buf
            Option.bind.bind_lunit index ck(1,2) sum eq Let_def quantums raw un uraw loop(1) prod.case)
      show ?thesis
      proof (cases "memory_allocate (size_of_nat (3 * n - k) + 1) w")
        case (Pair b w1)
        from loop(3) show ?thesis
        proof (elim disjE conjE)
          assume c: "code = MCL_OK" "position' = 3 * n - k"
          have "write_at d' position' [0] = Some (take position' d' @ [0])"
            using loop(2) c(2) by (simp add: write_at_def)
          then show ?thesis
            using c loop(2) True Pair by (cases b) (auto simp: run uraw(1) dest!: allocation_dests)
        next
          assume "code = MCL_BAD_CONTENT_ENCODING"
          then show ?thesis
            using True Pair by (cases b) (auto simp: run dest!: allocation_dests)
        qed
      qed
    qed
  qed
qed

lemma base64_decode_safe_witness:
  "\<exists>code bytes size w'. base64_decode (handle_of ''Zm8'') (None, 0) quiet_world
      = Some (code, (bytes, size), w') \<and> code = MCL_BAD_CONTENT_ENCODING"
proof -
  have a: "says (handle_of ''Zm8'') ''Zm8''" by (simp add: says_handle_of)
  have b: "base64_decode = base64_decode \<or> base64_decode = base64_url_decode" by simp
  have c: "length ''Zm8'' mod 4 \<noteq> 0 \<or> ''Zm8'' = []" by simp
  from base64_decode_safe [OF a b, of quiet_world] c show ?thesis
    by (elim exE conjE) (intro exI conjI, assumption, rule mp)
qed


end
