(* ===== verification/MCL_Security.thy ===== *)
theory MCL_Security
  imports MCL_Base64
begin

text \<open>
  \<^verbatim>\<open>hmac.c\<close>, \<^verbatim>\<open>random.c\<close>, \<^verbatim>\<open>security_handler.c\<close> and of \<^verbatim>\<open>security_libcrypto.c\<close> the hash and the
  random bytes.  What OpenSSL computes is a parameter: \<open>sha\<close> is its \<^verbatim>\<open>SHA256\<close>, a function from
  the bytes to the digest, and \<open>rand\<close> its \<^verbatim>\<open>RAND_bytes\<close>, which fills a buffer of the requested
  size or fails.
\<close>

type_synonym bytes = "8 word list"

type_synonym random_source = "nat \<Rightarrow> world \<Rightarrow> bytes option \<times> world"

text \<open>The documented behaviour of the two: a SHA-256 digest has 32 bytes; \<^verbatim>\<open>RAND_bytes\<close> fills the
  whole buffer when it succeeds, and keeps no memory of the library.\<close>

definition SHA256_DIGEST_LENGTH :: mcl_size_t where "SHA256_DIGEST_LENGTH = 32"

definition is_sha256 :: "(bytes \<Rightarrow> bytes) \<Rightarrow> bool" where
  "is_sha256 sha \<longleftrightarrow> (\<forall>d. length (sha d) = 32)"

definition fills_buffers :: "random_source \<Rightarrow> bool" where
  "fills_buffers rand \<longleftrightarrow> (\<forall>n w. case rand n w of (r, w') \<Rightarrow>
    (\<forall>b. r = Some b \<longrightarrow> length b = n) \<and> live w' = live w)"

section \<open>Hash and random bytes\<close>

definition security_hash_sha256 ::
    "(bytes \<Rightarrow> bytes) \<Rightarrow> bytes \<Rightarrow> mcl_size_t \<Rightarrow> world
      \<Rightarrow> (E_MCL_ERROR_CODE \<times> (bytes option \<times> mcl_size_t) \<times> world) option" where
  "security_hash_sha256 sha data data_size w =
    (case memory_allocate_with_zero 1 SHA256_DIGEST_LENGTH w of
      (None, w1) \<Rightarrow> Some (MCL_OUT_OF_MEMORY, (None, 0), w1)
    | (Some a, w1) \<Rightarrow> do {
        guard (unat data_size \<le> length data);
        hash \<leftarrow> write_at (replicate (unat SHA256_DIGEST_LENGTH) 0) 0 (sha (take (unat data_size) data));
        Some (MCL_OK, (Some hash, SHA256_DIGEST_LENGTH), w1)
      })"

text \<open>The size is converted to a signed \<^verbatim>\<open>int\<close>; the buffer is unchanged when the call fails.\<close>

definition security_generate_random_bytes ::
    "random_source \<Rightarrow> bytes \<Rightarrow> mcl_size_t \<Rightarrow> world \<Rightarrow> (E_MCL_ERROR_CODE \<times> bytes \<times> world) option" where
  "security_generate_random_bytes rand buffer size1 w =
    (let n = sint (ucast size1 :: 32 word) in
     if n < 0 then Some (MCL_FAIL, buffer, w)
     else (case rand (nat n) w of
         (None, w1) \<Rightarrow> Some (MCL_FAIL, buffer, w1)
       | (Some b, w1) \<Rightarrow> do {
           buffer1 \<leftarrow> write_at buffer 0 b;
           Some (MCL_OK, buffer1, w1)
         }))"

section \<open>HMAC\<close>

definition HMAC_MAXIMUM_KEY_SIZE :: mcl_size_t where "HMAC_MAXIMUM_KEY_SIZE = 64"
definition HMAC_SHA256_SIZE :: mcl_size_t where "HMAC_SHA256_SIZE = 32"
definition hmac_ipad :: "8 word" where "hmac_ipad = 0x36"
definition hmac_opad :: "8 word" where "hmac_opad = 0x5C"

definition unwritten_bytes :: "world \<Rightarrow> nat \<Rightarrow> bytes" where
  "unwritten_bytes w n = map of_char (unwritten w n)"

text \<open>The two loops that write the key and then the padding into both buffers.\<close>

fun xor_key_loop :: "bytes \<Rightarrow> nat \<Rightarrow> bytes \<Rightarrow> bytes \<Rightarrow> (bytes \<times> bytes) option" where
  "xor_key_loop [] i key_ipad key_opad = Some (key_ipad, key_opad)"
| "xor_key_loop (k # ks) i key_ipad key_opad = do {
    ip \<leftarrow> write_at key_ipad i [xor k hmac_ipad];
    op \<leftarrow> write_at key_opad i [xor k hmac_opad];
    xor_key_loop ks (i + 1) ip op
  }"

fun fill_pad_loop :: "nat \<Rightarrow> nat \<Rightarrow> bytes \<Rightarrow> bytes \<Rightarrow> (bytes \<times> bytes) option" where
  "fill_pad_loop 0 i key_ipad key_opad = Some (key_ipad, key_opad)"
| "fill_pad_loop (Suc n) i key_ipad key_opad = do {
    ip \<leftarrow> write_at key_ipad i [hmac_ipad];
    op \<leftarrow> write_at key_opad i [hmac_opad];
    fill_pad_loop n (i + 1) ip op
  }"

text \<open>The first part of \<^verbatim>\<open>hmac_sha256\<close>: a key that is too long is replaced by its hash.  The
  results are the code, the key to use, its size and \<^verbatim>\<open>key_resized\<close>.\<close>

definition hmac_key ::
    "(bytes \<Rightarrow> bytes) \<Rightarrow> bytes \<Rightarrow> mcl_size_t \<Rightarrow> world
      \<Rightarrow> (E_MCL_ERROR_CODE \<times> bytes \<times> mcl_size_t \<times> addr option \<times> world) option" where
  "hmac_key sha key key_size w =
    (if key_size > HMAC_MAXIMUM_KEY_SIZE then do {
       (code, (key_resized, key_local_size), w1) \<leftarrow> security_hash_sha256 sha key key_size w;
       if code \<noteq> MCL_OK then Some (code, key, key_size, None, w1)
       else if HMAC_SHA256_SIZE \<noteq> key_local_size
       then Some (MCL_SHA256_CALCULATION_FAIL, key, key_size, None, memory_free w1)
       else do {
         k \<leftarrow> key_resized;
         Some (MCL_OK, k, key_local_size, Some 0, w1)
       }
     }
     else Some (MCL_OK, key, key_size, None, w))"

text \<open>The rest from the first hash on, with both buffers filled; they are freed on every way out.\<close>

definition hmac_hashes ::
    "(bytes \<Rightarrow> bytes) \<Rightarrow> bytes \<Rightarrow> mcl_size_t \<Rightarrow> bytes \<Rightarrow> mcl_size_t \<Rightarrow> bytes option \<times> mcl_size_t \<Rightarrow> world
      \<Rightarrow> (E_MCL_ERROR_CODE \<times> (bytes option \<times> mcl_size_t) \<times> world) option" where
  "hmac_hashes sha key_ipad key_ipad_size key_opad key_opad_size out w = do {
    (code, (sha_output, sha_output_size), w1) \<leftarrow> security_hash_sha256 sha key_ipad key_ipad_size w;
    let released = (\<lambda>w. memory_release (map_option (\<lambda>_. 0) sha_output) (memory_free (memory_free w)));
    if MCL_OK \<noteq> code then Some (code, out, released w1)
    else if HMAC_SHA256_SIZE \<noteq> sha_output_size then Some (MCL_SHA256_CALCULATION_FAIL, out, released w1)
    else do {
      source \<leftarrow> sha_output;
      key_opad1 \<leftarrow> string_util_memcpy key_opad (unat HMAC_MAXIMUM_KEY_SIZE) source sha_output_size;
      (code1, (hash, hash_size), w2) \<leftarrow> security_hash_sha256 sha key_opad1 key_opad_size w1;
      let w3 = released w2;
      if MCL_OK \<noteq> code1
      then Some (code1, (None, 0), memory_release (map_option (\<lambda>_. 0) hash) w3)
      else if hash \<noteq> None \<and> HMAC_SHA256_SIZE \<noteq> hash_size
      then Some (MCL_SHA256_CALCULATION_FAIL, (None, 0), memory_release (map_option (\<lambda>_. 0) hash) w3)
      else Some (MCL_OK, (hash, hash_size), w3)
    }
  }"

definition hmac_sha256 ::
    "(bytes \<Rightarrow> bytes) \<Rightarrow> bytes \<Rightarrow> mcl_size_t \<Rightarrow> bytes \<Rightarrow> mcl_size_t \<Rightarrow> bytes option \<times> mcl_size_t \<Rightarrow> world
      \<Rightarrow> (E_MCL_ERROR_CODE \<times> (bytes option \<times> mcl_size_t) \<times> world) option" where
  "hmac_sha256 sha data data_size key key_size out w =
    (if \<not> key_size > 0 then Some (MCL_INVALID_PARAMETER, out, w)
     else do {
       (code, key_local, key_local_size, key_resized, w1) \<leftarrow> hmac_key sha key key_size w;
       if MCL_OK \<noteq> code then Some (code, out, w1)
       else do {
         let key_ipad_size = HMAC_MAXIMUM_KEY_SIZE + data_size;
         (case memory_allocate key_ipad_size w1 of
           (None, w2) \<Rightarrow> Some (MCL_OUT_OF_MEMORY, out, memory_release key_resized w2)
         | (Some a, w2) \<Rightarrow> do {
             let key_opad_size = HMAC_MAXIMUM_KEY_SIZE + HMAC_SHA256_SIZE;
             (case memory_allocate key_opad_size w2 of
               (None, w3) \<Rightarrow>
                 Some (MCL_OUT_OF_MEMORY, out, memory_release key_resized (memory_free w3))
             | (Some b, w3) \<Rightarrow> do {
                 guard (unat key_local_size \<le> length key_local);
                 (ip, op) \<leftarrow> xor_key_loop (take (unat key_local_size) key_local) 0
                   (unwritten_bytes w1 (unat key_ipad_size)) (unwritten_bytes w2 (unat key_opad_size));
                 let w4 = memory_release key_resized w3;
                 (ip1, op1) \<leftarrow> fill_pad_loop (unat HMAC_MAXIMUM_KEY_SIZE - unat key_local_size)
                   (unat key_local_size) ip op;
                 ip2 \<leftarrow> string_util_memcpy ip1 (unat HMAC_MAXIMUM_KEY_SIZE) data data_size;
                 hmac_hashes sha ip2 key_ipad_size op1 key_opad_size out w4
               })
           })
       }
     })"
lemma memory_allocate_with_zero_unbounded:
  "upcoming w = [] \<Longrightarrow> memory_allocate_with_zero 1 32 w
    = (Some (fresh w), w\<lparr>live := live w + 1, fresh := fresh w + 1\<rparr>)"
  by (simp add: memory_allocate_with_zero_def memory_calloc_def memory_malloc_def)

text \<open>The function of RFC 2104 with the hash \<open>sha\<close> and blocks of 64 bytes.\<close>

definition hmac_block :: "(bytes \<Rightarrow> bytes) \<Rightarrow> bytes \<Rightarrow> bytes" where
  "hmac_block sha key =
    (let k = (if length key > 64 then sha key else key) in k @ replicate (64 - length k) 0)"

definition hmac_text :: "(bytes \<Rightarrow> bytes) \<Rightarrow> bytes \<Rightarrow> bytes \<Rightarrow> bytes" where
  "hmac_text sha key data =
    sha (map (xor 0x5C) (hmac_block sha key) @ sha (map (xor 0x36) (hmac_block sha key) @ data))"

lemma write_at_next:
  "i = length xs \<Longrightarrow> ys \<noteq> [] \<Longrightarrow> write_at (xs @ ys) i [y] = Some ((xs @ [y]) @ tl ys)"
  by (cases ys) (simp_all add: write_at_def)

lemma xor_key_loop_text:
  "length xs = i \<Longrightarrow> length xs' = i \<Longrightarrow> length ks \<le> length ys \<Longrightarrow> length ks \<le> length ys' \<Longrightarrow>
    xor_key_loop ks i (xs @ ys) (xs' @ ys') =
      Some ((xs @ map (xor hmac_ipad) ks) @ drop (length ks) ys,
        (xs' @ map (xor hmac_opad) ks) @ drop (length ks) ys')"
proof (induction ks arbitrary: i xs xs' ys ys')
  case (Cons k ks)
  have ne: "ys \<noteq> []" "ys' \<noteq> []" using Cons.prems by auto
  have IH: "xor_key_loop ks (i + 1) ((xs @ [xor k hmac_ipad]) @ tl ys) ((xs' @ [xor k hmac_opad]) @ tl ys')
    = Some (((xs @ [xor k hmac_ipad]) @ map (xor hmac_ipad) ks) @ drop (length ks) (tl ys),
      ((xs' @ [xor k hmac_opad]) @ map (xor hmac_opad) ks) @ drop (length ks) (tl ys'))"
    using Cons.prems by (intro Cons.IH) simp_all
  show ?case
    using write_at_next [OF Cons.prems(1) [symmetric] ne(1), of "xor k hmac_ipad"]
      write_at_next [OF Cons.prems(2) [symmetric] ne(2), of "xor k hmac_opad"] IH
    by (simp add: drop_Suc xor.commute)
qed simp

lemma fill_pad_loop_text:
  "length xs = i \<Longrightarrow> length xs' = i \<Longrightarrow> n \<le> length ys \<Longrightarrow> n \<le> length ys' \<Longrightarrow>
    fill_pad_loop n i (xs @ ys) (xs' @ ys') =
      Some ((xs @ replicate n hmac_ipad) @ drop n ys, (xs' @ replicate n hmac_opad) @ drop n ys')"
proof (induction n arbitrary: i xs xs' ys ys')
  case (Suc n)
  have ne: "ys \<noteq> []" "ys' \<noteq> []" using Suc.prems by auto
  have IH: "fill_pad_loop n (i + 1) ((xs @ [hmac_ipad]) @ tl ys) ((xs' @ [hmac_opad]) @ tl ys')
    = Some (((xs @ [hmac_ipad]) @ replicate n hmac_ipad) @ drop n (tl ys),
      ((xs' @ [hmac_opad]) @ replicate n hmac_opad) @ drop n (tl ys'))"
    using Suc.prems by (intro Suc.IH) simp_all
  show ?case
    using write_at_next [OF Suc.prems(1) [symmetric] ne(1), of hmac_ipad]
      write_at_next [OF Suc.prems(2) [symmetric] ne(2), of hmac_opad] IH
    by (simp add: drop_Suc)
qed simp

lemma security_hash_sha256_eq:
  assumes "is_sha256 sha" "unat n \<le> length data"
  shows "security_hash_sha256 sha data n w =
    (case memory_allocate_with_zero 1 32 w of
      (None, w1) \<Rightarrow> Some (MCL_OUT_OF_MEMORY, (None, 0), w1)
    | (Some a, w1) \<Rightarrow> Some (MCL_OK, (Some (sha (take (unat n) data)), 32), w1))"
  using assms by (simp add: security_hash_sha256_def is_sha256_def write_at_def SHA256_DIGEST_LENGTH_def
      split: prod.split option.split)

lemma hmac_hashes_correct:
  assumes "is_sha256 sha" "length kip = 64" "length kop = 64" "unat n = length (kip @ data)" "length r = 32"
  shows "\<exists>code hash w'. hmac_hashes sha (kip @ data) n (kop @ r) 96 out w = Some (code, hash, w')
    \<and> (code = MCL_OK \<and> hash = (Some (sha (kop @ sha (kip @ data))), 32) \<and> live w' = live w - 1
      \<or> code = MCL_OUT_OF_MEMORY \<and> hash \<in> {out, (None, 0)} \<and> live w' = live w - 2)
    \<and> (upcoming w = [] \<longrightarrow> code = MCL_OK \<and> upcoming w' = [])"
proof -
  have all: "take (unat n) (kip @ data) = kip @ data" using assms(4) by (intro take_all) simp
  have len: "length (kop @ sha (kip @ data)) = 96" using assms(1,3) by (simp add: is_sha256_def)
  have all2: "take (unat (96 :: mcl_size_t)) (kop @ sha (kip @ data)) = kop @ sha (kip @ data)"
    using len by (intro take_all) simp
  have first: "security_hash_sha256 sha (kip @ data) n w =
    (case memory_allocate_with_zero 1 32 w of
      (None, w1) \<Rightarrow> Some (MCL_OUT_OF_MEMORY, (None, 0), w1)
    | (Some a, w1) \<Rightarrow> Some (MCL_OK, (Some (sha (kip @ data)), 32), w1))" for w
    using security_hash_sha256_eq [OF assms(1), of n "kip @ data" w] assms(4) unfolding all by simp
  have second: "security_hash_sha256 sha (kop @ sha (kip @ data)) 96 w =
    (case memory_allocate_with_zero 1 32 w of
      (None, w1) \<Rightarrow> Some (MCL_OUT_OF_MEMORY, (None, 0), w1)
    | (Some a, w1) \<Rightarrow> Some (MCL_OK, (Some (sha (kop @ sha (kip @ data))), 32), w1))" for w
    using security_hash_sha256_eq [OF assms(1), of 96 "kop @ sha (kip @ data)" w] len unfolding all2 by simp
  have copy: "string_util_memcpy (kop @ r) (unat HMAC_MAXIMUM_KEY_SIZE) (sha (kip @ data)) 32
      = Some (kop @ sha (kip @ data))"
    using assms(1,3,5) by (simp add: string_util_memcpy_def HMAC_MAXIMUM_KEY_SIZE_def is_sha256_def write_at_def)
  have run: "hmac_hashes sha (kip @ data) n (kop @ r) 96 out w =
    (case memory_allocate_with_zero 1 32 w of
      (None, w1) \<Rightarrow> Some (MCL_OUT_OF_MEMORY, out, memory_free (memory_free w1))
    | (Some a, w1) \<Rightarrow>
       (case memory_allocate_with_zero 1 32 w1 of
         (None, w2) \<Rightarrow> Some (MCL_OUT_OF_MEMORY, (None, 0), memory_free (memory_free (memory_free w2)))
       | (Some b, w2) \<Rightarrow> Some (MCL_OK, (Some (sha (kop @ sha (kip @ data))), 32),
           memory_free (memory_free (memory_free w2)))))" for w
    by (cases out) (simp add: hmac_hashes_def first second copy HMAC_SHA256_SIZE_def
        split: prod.splits option.splits)
  show ?thesis
    unfolding run by (cases out; cases "upcoming w = []")
      (auto simp: memory_allocate_with_zero_unbounded
        split: prod.splits option.splits dest!: allocation_dests)
qed
text \<open>The key the loops use: its bytes, its size, and whether it is a block of its own.\<close>

lemma hmac_key_correct:
  assumes "is_sha256 sha" "key_size = size_of_nat (length key)" "length key < 2 ^ 64"
  shows "\<exists>code k n r w1. hmac_key sha key key_size w = Some (code, k, n, r, w1)
    \<and> (code = MCL_OK \<and> k = (if length key > 64 then sha key else key) \<and> n = size_of_nat (length k)
        \<and> length k \<le> 64 \<and> live w1 = live w + (if r = None then 0 else 1)
      \<or> code = MCL_OUT_OF_MEMORY \<and> live w1 = live w)
    \<and> (upcoming w = [] \<longrightarrow> code = MCL_OK \<and> upcoming w1 = [])"
proof -
  have n: "unat key_size = length key" using assms(2,3) by (simp add: unat_size_of_nat)
  have long: "key_size > HMAC_MAXIMUM_KEY_SIZE \<longleftrightarrow> length key > 64"
    by (simp add: size_less_iff n HMAC_MAXIMUM_KEY_SIZE_def)
  have hash: "security_hash_sha256 sha key key_size w =
    (case memory_allocate_with_zero 1 32 w of
      (None, w1) \<Rightarrow> Some (MCL_OUT_OF_MEMORY, (None, 0), w1)
    | (Some a, w1) \<Rightarrow> Some (MCL_OK, (Some (sha key), 32), w1))"
    using security_hash_sha256_eq [OF assms(1), of key_size key w] n unfolding n take_all [OF order_refl]
    by simp
  have len: "length (sha key) = 32" using assms(1) by (simp add: is_sha256_def)
  show ?thesis
  proof (cases "length key > 64")
    case True
    have "hmac_key sha key key_size w =
      (case memory_allocate_with_zero 1 32 w of
        (None, w1) \<Rightarrow> Some (MCL_OUT_OF_MEMORY, key, key_size, None, w1)
      | (Some a, w1) \<Rightarrow> Some (MCL_OK, sha key, 32, Some 0, w1))"
      using True by (simp add: hmac_key_def long hash HMAC_SHA256_SIZE_def split: prod.splits option.splits)
    moreover obtain b w1 where al: "memory_allocate_with_zero 1 32 w = (b, w1)"
      by (cases "memory_allocate_with_zero 1 32 w")
    ultimately show ?thesis
      using True len by (cases "upcoming w = []"; cases b)
        (auto simp: memory_allocate_with_zero_unbounded dest!: allocation_dests)
  next
    case False
    then have "hmac_key sha key key_size w = Some (MCL_OK, key, key_size, None, w)"
      by (simp add: hmac_key_def long)
    then show ?thesis using False assms(2) by simp
  qed
qed

text \<open>Both loops together: the two buffers start with the padded key.\<close>

lemma pad_loops:
  assumes "length k \<le> 64" "64 \<le> length ys" "length ys' = 96"
  shows "\<exists>ip op ip1 op1. xor_key_loop k 0 ys ys' = Some (ip, op)
    \<and> fill_pad_loop (64 - length k) (length k) ip op = Some (ip1, op1)
    \<and> ip1 = map (xor 0x36) (k @ replicate (64 - length k) 0) @ drop 64 ys
    \<and> op1 = map (xor 0x5C) (k @ replicate (64 - length k) 0) @ drop 64 ys'"
proof -
  have a: "xor_key_loop k 0 ys ys' = Some (map (xor hmac_ipad) k @ drop (length k) ys,
      map (xor hmac_opad) k @ drop (length k) ys')"
    using xor_key_loop_text [of "[]" 0 "[]" k ys ys'] assms by simp
  have b: "fill_pad_loop (64 - length k) (length k) (map (xor hmac_ipad) k @ drop (length k) ys)
      (map (xor hmac_opad) k @ drop (length k) ys')
    = Some ((map (xor hmac_ipad) k @ replicate (64 - length k) hmac_ipad) @ drop (64 - length k) (drop (length k) ys),
      (map (xor hmac_opad) k @ replicate (64 - length k) hmac_opad) @ drop (64 - length k) (drop (length k) ys'))"
    using assms by (intro fill_pad_loop_text) simp_all
  show ?thesis
    unfolding a using b assms by (simp add: hmac_ipad_def hmac_opad_def)
qed

lemma live_release [simp]: "live (memory_release p w) = live w - (if p = None then 0 else 1)"
  by (cases p) simp_all

lemma upcoming_release [simp]: "upcoming (memory_release p w) = upcoming w"
  by (cases p) simp_all

lemma hmac_sha256_computes:
  assumes "is_sha256 sha" "key \<noteq> []" "length key < 2 ^ 64" "length data + 64 < 2 ^ 64"
  shows "\<exists>code hash w'. hmac_sha256 sha data (size_of_nat (length data)) key (size_of_nat (length key)) out w
      = Some (code, hash, w')
    \<and> (code = MCL_OK \<and> hash = (Some (hmac_text sha key data), 32) \<and> live w' = live w + 1
      \<or> code = MCL_OUT_OF_MEMORY \<and> hash \<in> {out, (None, 0)} \<and> live w' = live w)
    \<and> (upcoming w = [] \<longrightarrow> code = MCL_OK \<and> upcoming w' = [])"
proof -
  have size_pos: "size_of_nat (length key) > (0 :: mcl_size_t)"
    using assms(2,3) by (simp add: size_pos_iff unat_size_of_nat)
  have data_size: "unat (size_of_nat (length data)) = length data"
    using assms(4) by (intro unat_size_of_nat) simp
  have ipad_size: "unat (HMAC_MAXIMUM_KEY_SIZE + size_of_nat (length data)) = 64 + length data"
    using assms(4) by (subst unat_add_less) (simp_all add: HMAC_MAXIMUM_KEY_SIZE_def data_size)
  have opad_size: "HMAC_MAXIMUM_KEY_SIZE + HMAC_SHA256_SIZE = 96"
    by (simp add: HMAC_MAXIMUM_KEY_SIZE_def HMAC_SHA256_SIZE_def)
  have max: "unat HMAC_MAXIMUM_KEY_SIZE = 64" by (simp add: HMAC_MAXIMUM_KEY_SIZE_def)
  obtain code k n r w1 where key: "hmac_key sha key (size_of_nat (length key)) w = Some (code, k, n, r, w1)"
    "code = MCL_OK \<and> k = (if length key > 64 then sha key else key) \<and> n = size_of_nat (length k)
        \<and> length k \<le> 64 \<and> live w1 = live w + (if r = None then 0 else 1)
      \<or> code = MCL_OUT_OF_MEMORY \<and> live w1 = live w"
    "upcoming w = [] \<longrightarrow> code = MCL_OK \<and> upcoming w1 = []"
    using hmac_key_correct [OF assms(1) refl assms(3), of w] by (elim exE conjE) (rule that)
  from key(2) show ?thesis
  proof
    assume "code = MCL_OUT_OF_MEMORY \<and> live w1 = live w"
    then show ?thesis using size_pos key(1,3) by (simp add: hmac_sha256_def)
  next
    assume ok: "code = MCL_OK \<and> k = (if length key > 64 then sha key else key) \<and> n = size_of_nat (length k)
        \<and> length k \<le> 64 \<and> live w1 = live w + (if r = None then 0 else 1)"
    then have "n = size_of_nat (length k)" "length k \<le> 64" by blast+
    then have n: "unat n = length k" by (simp add: unat_size_of_nat)
    let ?B = "k @ replicate (64 - length k) 0"
    have block: "hmac_block sha key = ?B" using ok by (cases "length key > 64") (simp_all add: hmac_block_def Let_def)
    obtain kip kop where pads: "kip = map (xor 0x36) ?B" "kop = map (xor 0x5C) ?B" by simp
    have short: "length k \<le> 64" using ok by blast
    then have lens: "length kip = 64" "length kop = 64" by (simp_all add: pads)
    have code: "code = MCL_OK" and live1: "live w1 = live w + (if r = None then 0 else 1)"
      using ok by blast+
    have fill: "do {
        (ip, op) \<leftarrow> xor_key_loop (take (unat n) k) 0 (unwritten_bytes w1 (64 + length data)) (unwritten_bytes w2 96);
        let w4 = memory_release r w3;
        (ip1, op1) \<leftarrow> fill_pad_loop (64 - unat n) (unat n) ip op;
        ip2 \<leftarrow> string_util_memcpy ip1 64 data (size_of_nat (length data));
        f ip2 op1 w4 } = f (kip @ data) (kop @ drop 64 (unwritten_bytes w2 96)) (memory_release r w3)"
      for w2 w3 and f :: "_ \<Rightarrow> _ \<Rightarrow> _ \<Rightarrow> (E_MCL_ERROR_CODE \<times> (bytes option \<times> mcl_size_t) \<times> world) option"
    proof -
      have ys: "64 \<le> length (unwritten_bytes w1 (64 + length data))" "length (unwritten_bytes w2 96) = 96"
        by (simp_all add: unwritten_bytes_def)
      have copy: "string_util_memcpy (kip @ drop 64 (unwritten_bytes w1 (64 + length data))) 64 data
          (size_of_nat (length data)) = Some (kip @ data)"
        using lens(1) by (simp add: string_util_memcpy_def data_size write_at_def unwritten_bytes_def)
      from pad_loops [OF short ys] obtain ip op where
        "xor_key_loop k 0 (unwritten_bytes w1 (64 + length data)) (unwritten_bytes w2 96) = Some (ip, op)"
        "fill_pad_loop (64 - length k) (length k) ip op
          = Some (kip @ drop 64 (unwritten_bytes w1 (64 + length data)), kop @ drop 64 (unwritten_bytes w2 96))"
        unfolding pads by auto
      then show ?thesis by (simp add: n copy)
    qed
    have run: "hmac_sha256 sha data (size_of_nat (length data)) key (size_of_nat (length key)) out w =
      (case memory_allocate (HMAC_MAXIMUM_KEY_SIZE + size_of_nat (length data)) w1 of
         (None, w2) \<Rightarrow> Some (MCL_OUT_OF_MEMORY, out, memory_release r w2)
       | (Some a, w2) \<Rightarrow>
         (case memory_allocate 96 w2 of
           (None, w3) \<Rightarrow> Some (MCL_OUT_OF_MEMORY, out, memory_release r (memory_free w3))
         | (Some b, w3) \<Rightarrow>
             hmac_hashes sha (kip @ data) (HMAC_MAXIMUM_KEY_SIZE + size_of_nat (length data))
               (kop @ drop 64 (unwritten_bytes w2 96)) 96 out (memory_release r w3)))"
      using size_pos fill [of _ _ "\<lambda>ip op w4. hmac_hashes sha ip
          (HMAC_MAXIMUM_KEY_SIZE + size_of_nat (length data)) op 96 out w4"] unfolding n by (simp add: hmac_sha256_def key(1) code ipad_size opad_size max n
          split: prod.split option.split)
    have hashes: "\<exists>code hash w'. hmac_hashes sha (kip @ data) (HMAC_MAXIMUM_KEY_SIZE + size_of_nat (length data))
        (kop @ drop 64 (unwritten_bytes w2 96)) 96 out w4 = Some (code, hash, w')
      \<and> (code = MCL_OK \<and> hash = (Some (hmac_text sha key data), 32) \<and> live w' = live w4 - 1
        \<or> code = MCL_OUT_OF_MEMORY \<and> hash \<in> {out, (None, 0)} \<and> live w' = live w4 - 2)
      \<and> (upcoming w4 = [] \<longrightarrow> code = MCL_OK \<and> upcoming w' = [])" for w2 w4
      unfolding hmac_text_def block pads [symmetric]
      by (rule hmac_hashes_correct [OF assms(1) lens]) (use lens in \<open>simp_all add: ipad_size unwritten_bytes_def\<close>)
    have pos: "HMAC_MAXIMUM_KEY_SIZE + size_of_nat (length data) \<noteq> 0"
      using ipad_size by (metis add_is_0 unsigned_0 zero_neq_numeral)
    obtain b w2 where al1: "memory_allocate (HMAC_MAXIMUM_KEY_SIZE + size_of_nat (length data)) w1 = (b, w2)"
      by (cases "memory_allocate (HMAC_MAXIMUM_KEY_SIZE + size_of_nat (length data)) w1")
    obtain c w3 where al2: "memory_allocate 96 w2 = (c, w3)" by (cases "memory_allocate 96 w2")
    have calm: "upcoming w = [] \<longrightarrow> b \<noteq> None \<and> c \<noteq> None \<and> upcoming w3 = []"
      using key(3) al1 al2 by (auto simp: memory_allocate_unbounded pos)
    show ?thesis
      using live1 al1 al2 calm hashes [of w2 "memory_release r w3"]
      by (cases b; cases c) (auto simp: run dest!: allocation_dests)
  qed
qed

text \<open>C15: \<open>hmac_sha256\<close> computes the message authentication code of RFC 2104 of the data with the
  key, for every key that is not empty and every size that does not wrap around, and keeps one block, the
  result; an empty key is an invalid parameter.  It reports that memory is out, and keeps nothing, only when the allocator
  has refused a block.\<close>

theorem hmac_sha256_correct:
  assumes "is_sha256 sha" "length key < 2 ^ 64" "length data + 64 < 2 ^ 64"
  shows "\<exists>code hash w'. hmac_sha256 sha data (size_of_nat (length data)) key (size_of_nat (length key)) out w
      = Some (code, hash, w')
    \<and> (if key = [] then code = MCL_INVALID_PARAMETER \<and> hash = out \<and> w' = w
      else code = MCL_OK \<and> hash = (Some (hmac_text sha key data), 32) \<and> live w' = live w + 1
        \<or> code = MCL_OUT_OF_MEMORY \<and> hash \<in> {out, (None, 0)} \<and> live w' = live w \<and> upcoming w \<noteq> [])"
proof (cases "key = []")
  case True
  then show ?thesis by (simp add: hmac_sha256_def)
next
  case False
  then show ?thesis using hmac_sha256_computes [OF assms(1) False assms(2,3), of out w] by auto
qed

lemma hmac_sha256_correct_witness:
  "\<exists>w'. hmac_sha256 (\<lambda>d. replicate 32 (of_nat (length d))) [1, 2] (size_of_nat (length [1, 2 :: 8 word]))
      [7] (size_of_nat (length [7 :: 8 word])) (None, 0) quiet_world
      = Some (MCL_OK, (Some (hmac_text (\<lambda>d. replicate 32 (of_nat (length d))) [7] [1, 2]), 32), w')
    \<and> live w' = live quiet_world + 1"
  using hmac_sha256_correct [of "\<lambda>d. replicate 32 (of_nat (length d))" "[7]" "[1, 2]" "(None, 0)" quiet_world]
  by (auto simp: is_sha256_def quiet_world_def)

section \<open>Random numbers and GUIDs\<close>

text \<open>A number in memory, least significant byte first.\<close>

definition le_number :: "bytes \<Rightarrow> 'a::len word" where
  "le_number bs = word_of_nat (foldr (\<lambda>b n. unat b + 256 * n) bs 0)"

definition random_generate_number ::
    "random_source \<Rightarrow> 32 word \<Rightarrow> world \<Rightarrow> (E_MCL_ERROR_CODE \<times> 32 word \<times> world) option" where
  "random_generate_number rand random_number w = do {
    (code, b, w1) \<leftarrow> security_generate_random_bytes rand (replicate 4 0) 4 w;
    Some (code, if code = MCL_OK then le_number b else random_number, w1)
  }"

definition random_generate_array ::
    "random_source \<Rightarrow> mcl_size_t \<Rightarrow> world \<Rightarrow> (bytes option \<times> world) option" where
  "random_generate_array rand size1 w =
    (case memory_allocate size1 w of
      (None, w1) \<Rightarrow> Some (None, w1)
    | (Some a, w1) \<Rightarrow> do {
        (result, b, w2) \<leftarrow> security_generate_random_bytes rand (unwritten_bytes w (unat size1)) size1 w1;
        if MCL_OK \<noteq> result then Some (None, memory_free w2) else Some (Some b, w2)
      })"

definition GUID_LENGTH :: mcl_size_t where "GUID_LENGTH = 36"

record guid_t =
  time_low :: "32 word"
  time_mid :: "16 word"
  time_hi_and_version :: "16 word"
  clk_seq_hi_res :: "8 word"
  clk_seq_low :: "8 word"
  node :: bytes

text \<open>The structure the union overlays on its 16 bytes.\<close>

definition guid_of_bytes :: "bytes \<Rightarrow> guid_t" where
  "guid_of_bytes rnd =
    \<lparr>time_low = le_number (take 4 rnd), time_mid = le_number (take 2 (drop 4 rnd)),
     time_hi_and_version = le_number (take 2 (drop 6 rnd)),
     clk_seq_hi_res = rnd ! 8, clk_seq_low = rnd ! 9, node = take 6 (drop 10 rnd)\<rparr>"

text \<open>What \<^verbatim>\<open>%0nx\<close> prints of a number of at most \<open>n\<close> hexadecimal digits.\<close>

definition lower_hex :: string where "lower_hex = ''0123456789abcdef''"

fun hex_digits :: "nat \<Rightarrow> nat \<Rightarrow> string" where
  "hex_digits 0 v = []"
| "hex_digits (Suc n) v = hex_digits n (v div 16) @ [lower_hex ! (v mod 16)]"

definition print_guid :: "guid_t \<Rightarrow> string" where
  "print_guid g =
    hex_digits 8 (unat (time_low g)) @ ''-'' @ hex_digits 4 (unat (time_mid g)) @ ''-'' @
    hex_digits 4 (unat (time_hi_and_version g)) @ ''-'' @
    hex_digits 2 (unat (clk_seq_hi_res g)) @ hex_digits 2 (unat (clk_seq_low g)) @ ''-'' @
    concat (map (\<lambda>b. hex_digits 2 (unat b)) (node g))"

definition random_generate_guid ::
    "random_source \<Rightarrow> world \<Rightarrow> (E_MCL_ERROR_CODE \<times> string_t option \<times> world) option" where
  "random_generate_guid rand w =
    (case memory_allocate (GUID_LENGTH + 1) w of
      (None, w1) \<Rightarrow> Some (MCL_OUT_OF_MEMORY, None, w1)
    | (Some a, w1) \<Rightarrow> do {
        (code, rnd, w2) \<leftarrow>
          security_generate_random_bytes rand (map of_char (zeroed 16)) 16 w1;
        if MCL_OK = code then do {
          let g = guid_of_bytes rnd;
          let g1 = g\<lparr>clk_seq_hi_res := or (and (clk_seq_hi_res g) 0x3F) 0x80\<rparr>;
          let g2 = g1\<lparr>time_hi_and_version := or (and (time_hi_and_version g1) 0x0FFF) 0x4000\<rparr>;
          (code1, guid_string) \<leftarrow>
            string_util_snprintf (unwritten w (unat GUID_LENGTH + 1)) (GUID_LENGTH + 1) (print_guid g2);
          if MCL_OK \<noteq> code1 then Some (code1, None, memory_free w2)
          else do {
            (code2, guid, w3) \<leftarrow> string_initialize_dynamic (Some guid_string) GUID_LENGTH w2;
            if MCL_OK \<noteq> code2 then Some (code2, guid, memory_free w3)
            else Some (code2, guid, w3)
          }
        }
        else Some (code, None, memory_free w2)
      })"

text \<open>\<open>given\<close> says whether the caller gave a place for the result.  The characters are handed
  over and the handle is freed.\<close>

definition mcl_random_generate_guid ::
    "random_source \<Rightarrow> bool \<Rightarrow> world \<Rightarrow> (E_MCL_ERROR_CODE \<times> char list option \<times> world) option" where
  "mcl_random_generate_guid rand given w =
    (if \<not> given then Some (MCL_TRIGGERED_WITH_NULL, None, w)
     else do {
       (code, guid_string, w1) \<leftarrow> random_generate_guid rand w;
       if MCL_OK \<noteq> code then Some (code, None, w1)
       else do {
         s \<leftarrow> guid_string;
         Some (MCL_OK, string_buffer s, memory_free w1)
       }
     })"

lemma length_hex_digits [simp]: "length (hex_digits n v) = n"
  by (induction n arbitrary: v) simp_all

lemma set_hex_digits: "set (hex_digits n v) \<subseteq> set lower_hex"
proof (induction n arbitrary: v)
  case (Suc n)
  have "lower_hex ! (v mod 16) \<in> set lower_hex" by (rule nth_mem) (simp add: lower_hex_def)
  then show ?case using Suc by simp
qed simp

lemma is_text_hex_digits [simp]: "is_text (hex_digits n v)"
proof -
  have "NUL \<notin> set lower_hex" by (simp add: lower_hex_def)
  then show ?thesis using set_hex_digits [of n v] by (auto simp: is_text_def)
qed

text \<open>The place of a GUID a character stands at decides what it may be.\<close>

definition guid_shape :: "string \<Rightarrow> bool" where
  "guid_shape t \<longleftrightarrow> length t = 36
    \<and> (\<forall>i < 36. if i \<in> {8, 13, 18, 23} then t ! i = CHR ''-'' else t ! i \<in> set lower_hex)
    \<and> t ! 14 = CHR ''4'' \<and> t ! 19 \<in> set ''89ab''"

lemma set_nth_digit: "i < n \<Longrightarrow> hex_digits n v ! i \<in> set lower_hex"
  using set_hex_digits [of n v] by (metis length_hex_digits nth_mem subsetD)

lemma version_digit: "hex_digits 4 (unat (or (and x 0x0FFF) (0x4000 :: 16 word))) ! 0 = CHR ''4''"
proof -
  obtain v where v: "v = unat (or (and x 0x0FFF) (0x4000 :: 16 word))" by simp
  have "drop_bit 12 (or (and x 0x0FFF) (0x4000 :: 16 word)) = 4"
    by (rule bit_word_eqI) (auto simp: bit_simps)
  then have "unat (drop_bit 12 (or (and x 0x0FFF) (0x4000 :: 16 word))) = 4" by simp
  then have "drop_bit 12 v = 4" by (simp only: unat_drop_bit_eq v)
  then have "v div 2 ^ 12 = 4" by (simp only: drop_bit_eq_div)
  then have top: "v div 16 div 16 div 16 = 4" by (simp add: div_mult2_eq [symmetric])
  have four: "4 = Suc (Suc (Suc (Suc 0)))" by simp
  have "hex_digits 4 v ! 0 = lower_hex ! (v div 16 div 16 div 16 mod 16)"
    by (simp only: four hex_digits.simps append_Nil append_Cons nth_Cons_0)
  then show ?thesis unfolding v [symmetric] top by (simp add: lower_hex_def)
qed

lemma small_word_cases:
  "unat (y :: 8 word) < 4 \<Longrightarrow> y = 0 \<or> y = 1 \<or> y = 2 \<or> y = 3"
proof -
  assume "unat y < 4"
  then consider "unat y = 0" | "unat y = 1" | "unat y = 2" | "unat y = 3" by linarith
  then show ?thesis by cases (simp_all add: word_unat_eq_iff)
qed

lemma variant_digit: "hex_digits 2 (unat (or (and x 0x3F) (0x80 :: 8 word))) ! 0 \<in> set ''89ab''"
proof -
  obtain v where v: "v = unat (or (and x 0x3F) (0x80 :: 8 word))" by simp
  have m: "(3 :: 8 word) = mask 2" "(3 :: nat) = mask 2" "(3 :: int) = mask 2"
    by (simp_all add: mask_eq_exp_minus_1)
  have three: "bit (3 :: 8 word) n \<longleftrightarrow> n < 2" "bit (3 :: nat) n \<longleftrightarrow> n < 2" "bit (3 :: int) n \<longleftrightarrow> n < 2" for n
    unfolding m bit_mask_iff by auto
  have top: "drop_bit 4 (or (and x 0x3F) (0x80 :: 8 word)) = or 8 (take_bit 2 (drop_bit 4 x))"
    by (rule bit_word_eqI) (auto simp: bit_simps three)
  have "unat (take_bit 2 (drop_bit 4 x)) < 2 ^ 2"
    by (simp only: unsigned_take_bit_eq take_bit_nat_less_exp)
  then have "unat (or 8 (take_bit 2 (drop_bit 4 x))) \<in> {8, 9, 10, 11}"
    using small_word_cases [of "take_bit 2 (drop_bit 4 x)"] by auto
  then have "drop_bit 4 v \<in> {8, 9, 10, 11}"
    unfolding top [symmetric] by (simp only: unat_drop_bit_eq v)
  then have "v div 2 ^ 4 \<in> {8, 9, 10, 11}" by (simp only: drop_bit_eq_div)
  then have range: "v div 16 \<in> {8, 9, 10, 11}" by simp
  have two: "2 = Suc (Suc 0)" by simp
  have "hex_digits 2 v ! 0 = lower_hex ! (v div 16 mod 16)"
    by (simp only: two hex_digits.simps append_Nil append_Cons nth_Cons_0)
  then show ?thesis unfolding v [symmetric] using range by (auto simp: lower_hex_def)
qed
lemma six_bytes: "length (bs :: bytes) = 6 \<Longrightarrow> \<exists>a b c d e f. bs = [a, b, c, d, e, f]"
  by (auto simp: length_Suc_conv eval_nat_numeral)

lemma print_guid_shape:
  assumes "length (node g) = 6"
    "time_hi_and_version g = or (and v 0x0FFF) 0x4000" "clk_seq_hi_res g = or (and x 0x3F) 0x80"
  shows "guid_shape (print_guid g)" "is_text (print_guid g)"
proof -
  obtain a b c d e f where n: "node g = [a, b, c, d, e, f]" using six_bytes [OF assms(1)] by blast
  obtain xs where xs: "xs = hex_digits 8 (unat (time_low g))" by simp
  obtain ys where ys: "ys = hex_digits 4 (unat (time_mid g))" by simp
  obtain zs where zs: "zs = hex_digits 4 (unat (time_hi_and_version g))" by simp
  obtain us where us: "us = hex_digits 2 (unat (clk_seq_hi_res g)) @ hex_digits 2 (unat (clk_seq_low g))" by simp
  obtain vs where vs: "vs = concat (map (\<lambda>b. hex_digits 2 (unat b)) (node g))" by simp
  have lens: "length xs = 8" "length ys = 4" "length zs = 4" "length us = 4" "length vs = 12"
    by (simp_all add: xs ys zs us vs n)
  have hex: "set xs \<subseteq> set lower_hex" "set ys \<subseteq> set lower_hex" "set zs \<subseteq> set lower_hex"
    "set us \<subseteq> set lower_hex" "set vs \<subseteq> set lower_hex"
    unfolding xs ys zs us vs n using set_hex_digits by auto
  have t: "print_guid g = xs @ ''-'' @ ys @ ''-'' @ zs @ ''-'' @ us @ ''-'' @ vs"
    by (simp add: print_guid_def xs ys zs us vs)
  have version: "zs ! 0 = CHR ''4''" unfolding zs assms(2) by (rule version_digit)
  have variant: "us ! 0 \<in> set ''89ab''"
    unfolding us assms(3) using variant_digit [of x] by (simp add: nth_append)
  have at: "if i \<in> {8, 13, 18, 23} then print_guid g ! i = CHR ''-''
      else print_guid g ! i \<in> set lower_hex" if i: "i < 36" for i
  proof (cases "i \<in> {8, 13, 18, 23}")
    case True
    then show ?thesis by (auto simp: t nth_append lens nth_Cons')
  next
    case False
    have "set (xs @ ys @ zs @ us @ vs) \<subseteq> set lower_hex" using hex by simp
    moreover have "print_guid g ! i \<in> set (xs @ ys @ zs @ us @ vs)"
    proof -
      consider "i < 8" | "9 \<le> i" "i < 13" | "14 \<le> i" "i < 18" | "19 \<le> i" "i < 23" | "24 \<le> i"
        using False by force
      then show ?thesis
        using i by cases (auto simp: t nth_append lens nth_Cons')
    qed
    ultimately show ?thesis using False by auto
  qed
  show "guid_shape (print_guid g)"
    unfolding guid_shape_def
  proof (intro conjI allI impI)
    show "length (print_guid g) = 36" by (simp add: t lens)
    show "print_guid g ! 14 = CHR ''4''" using version by (simp add: t nth_append lens nth_Cons')
    show "print_guid g ! 19 \<in> set ''89ab''" using variant by (simp add: t nth_append lens nth_Cons')
  qed (rule at)
  show "is_text (print_guid g)"
    unfolding t by (auto simp: xs ys zs us vs n)
qed

lemma random_generate_guid_runs:
  assumes "memory_allocate (GUID_LENGTH + 1) w = (Some a, w1)" "rand 16 w1 = (Some rnd, w2)" "length rnd = 16"
  obtains t where "guid_shape t" "is_text t" "length t = 36" "random_generate_guid rand w =
      (case memory_allocate sizeof_string w2 of
        (None, w3) \<Rightarrow> Some (MCL_OUT_OF_MEMORY, None, memory_free w3)
      | (Some a, w3) \<Rightarrow> Some (MCL_OK, Some ((handle_of t)\<lparr>string_type := MCL_STRING_NOT_COPY_DESTROY\<rparr>), w3))"
proof -
  let ?g = "(guid_of_bytes rnd)\<lparr>clk_seq_hi_res := or (and (clk_seq_hi_res (guid_of_bytes rnd)) 0x3F) 0x80,
    time_hi_and_version := or (and (time_hi_and_version (guid_of_bytes rnd)) 0x0FFF) 0x4000\<rparr>"
  have "length (node ?g) = 6" using assms(3) by (simp add: guid_of_bytes_def)
  note shape = print_guid_shape [OF this, of "time_hi_and_version (guid_of_bytes rnd)"
      "clk_seq_hi_res (guid_of_bytes rnd)", simplified guid_t.select_convs]
  obtain t where t: "t = print_guid ?g" "guid_shape t" "is_text t" using shape by simp
  then have len: "length t = 36" by (simp add: guid_shape_def)
  have full: "write_at (map of_char (zeroed 16)) 0 rnd = Some rnd"
    using assms(3) by (simp add: write_at_def)
  have printed: "string_util_snprintf (unwritten w (unat GUID_LENGTH + 1)) (GUID_LENGTH + 1) t = Some (MCL_OK, t @ [NUL])"
  proof -
    have "GUID_LENGTH + 1 = size_of_nat (length t) + 1" "unat GUID_LENGTH = length t"
      by (simp_all add: GUID_LENGTH_def len)
    moreover have "t \<noteq> []" using len by auto
    ultimately show ?thesis by (simp only:) (rule snprintf_exact, simp_all add: len)
  qed
  have dyn: "string_initialize_dynamic (Some (t @ [NUL])) GUID_LENGTH w2 =
    (case memory_allocate sizeof_string w2 of
      (None, w3) \<Rightarrow> Some (MCL_OUT_OF_MEMORY, None, w3)
    | (Some a, w3) \<Rightarrow> Some (MCL_OK, Some ((handle_of t)\<lparr>string_type := MCL_STRING_NOT_COPY_DESTROY\<rparr>), w3))"
    using string_initialize_dynamic_text [OF t(3), of w2] len by (simp add: GUID_LENGTH_def)
  have run: "random_generate_guid rand w =
    (case memory_allocate sizeof_string w2 of
      (None, w3) \<Rightarrow> Some (MCL_OUT_OF_MEMORY, None, memory_free w3)
    | (Some a, w3) \<Rightarrow> Some (MCL_OK, Some ((handle_of t)\<lparr>string_type := MCL_STRING_NOT_COPY_DESTROY\<rparr>), w3))"
    using assms(1,2) full printed dyn
    by (simp add: random_generate_guid_def security_generate_random_bytes_def Let_def t(1) [symmetric]
      split: prod.split option.split)
  show thesis using that [OF t(2,3) len run] .
qed

text \<open>A generated GUID is a string of 36 characters, hexadecimal digits in groups of 8, 4, 4, 4
  and 12, marked as random (version 4, the variant of RFC 4122); when there is no memory or
  no randomness nothing stays allocated.\<close>

theorem random_generate_guid_correct:
  assumes "fills_buffers rand"
  shows "\<exists>code guid w'. random_generate_guid rand w = Some (code, guid, w')
    \<and> (case guid of
        Some s \<Rightarrow> code = MCL_OK \<and> (\<exists>t. says s t \<and> guid_shape t) \<and> live w' = live w + blocks_of s
      | None \<Rightarrow> code \<in> {MCL_OUT_OF_MEMORY, MCL_FAIL} \<and> live w' = live w)"
proof (cases "memory_allocate (GUID_LENGTH + 1) w")
  case (Pair b w1)
  show ?thesis
  proof (cases b)
    case None
    then show ?thesis using Pair by (auto simp: random_generate_guid_def dest!: allocation_dests)
  next
    case (Some a)
    obtain r w2 where r: "rand 16 w1 = (r, w2)" by (cases "rand 16 w1")
    have "(\<forall>bs. r = Some bs \<longrightarrow> length bs = 16) \<and> live w2 = live w1"
      using assms [unfolded fills_buffers_def, rule_format, of 16 w1] unfolding r by simp
    then have live2: "live w2 = live w + 1" and bytes: "\<And>bs. r = Some bs \<Longrightarrow> length bs = 16"
      using Pair Some by (auto dest!: allocation_dests)
    show ?thesis
    proof (cases r)
      case None
      then show ?thesis
        using Pair Some r live2
        by (simp add: random_generate_guid_def security_generate_random_bytes_def)
    next
      case (Some rnd)
      obtain t where t: "guid_shape t" "is_text t" "length t = 36" "random_generate_guid rand w =
        (case memory_allocate sizeof_string w2 of
          (None, w3) \<Rightarrow> Some (MCL_OUT_OF_MEMORY, None, memory_free w3)
        | (Some a, w3) \<Rightarrow> Some (MCL_OK, Some ((handle_of t)\<lparr>string_type := MCL_STRING_NOT_COPY_DESTROY\<rparr>), w3))"
        using random_generate_guid_runs [of w a w1 rand rnd w2] Pair \<open>b = Some a\<close> r Some bytes by auto
      have "says ((handle_of t)\<lparr>string_type := MCL_STRING_NOT_COPY_DESTROY\<rparr>) t"
        using t(2,3) by (simp add: says_def handle_of_def)
      then show ?thesis
        using t(1) live2 by (auto simp: t(4) blocks_of_def handle_of_def split: prod.splits option.splits
          dest!: allocation_dests)
    qed
  qed
qed

definition counting_source :: random_source where
  "counting_source n w = (Some (map word_of_nat [0..<n]), w)"

lemma random_generate_guid_correct_witness:
  "\<exists>code guid w'. random_generate_guid counting_source quiet_world = Some (code, guid, w')
    \<and> (case guid of
        Some s \<Rightarrow> code = MCL_OK \<and> (\<exists>t. says s t \<and> guid_shape t) \<and> live w' = live quiet_world + blocks_of s
      | None \<Rightarrow> code \<in> {MCL_OUT_OF_MEMORY, MCL_FAIL} \<and> live w' = live quiet_world)"
  by (rule random_generate_guid_correct) (simp add: fills_buffers_def counting_source_def)
section \<open>The security handler\<close>

text \<open>The keys are blocks of bytes or characters; what they contain is set by other modules.\<close>

record rsa_t =
  public_key :: "char list option"
  public_key_length :: mcl_size_t
  private_key :: "char list option"
  private_key_length :: mcl_size_t
  session_key :: "bytes option"
  session_key_length :: mcl_size_t

record security_handler_t =
  rsa :: rsa_t
  hmac_key_bytes :: "bytes option"
  onboarding_key :: "bytes option"
  authentication_key :: "bytes option"
  authentication_key_size :: mcl_size_t
  registration_access_token :: "string_t option"
  registration_client_uri :: "string_t option"
  client_secret :: "string_t option"
  access_token :: "string_t option"
  last_token_time :: "string_t option"
  client_id :: "string_t option"

definition sizeof_security_handler :: mcl_size_t where "sizeof_security_handler = 128"

text \<open>The lengths in \<^verbatim>\<open>rsa\<close> are not set; \<open>old\<close> is the structure that was in that memory.\<close>

definition security_handler_initialize ::
    "security_handler_t \<Rightarrow> world \<Rightarrow> E_MCL_ERROR_CODE \<times> security_handler_t option \<times> world" where
  "security_handler_initialize old w =
    (case memory_allocate sizeof_security_handler w of
      (None, w1) \<Rightarrow> (MCL_OUT_OF_MEMORY, None, w1)
    | (Some a, w1) \<Rightarrow> (MCL_OK, Some (old\<lparr>
        authentication_key := None, onboarding_key := None, hmac_key_bytes := None,
        rsa := (rsa old)\<lparr>private_key := None, public_key := None, session_key := None\<rparr>,
        authentication_key_size := 0, last_token_time := None, access_token := None,
        registration_access_token := None, client_secret := None, registration_client_uri := None,
        client_id := None\<rparr>), w1))"

definition security_handler_generate_jti ::
    "random_source \<Rightarrow> world \<Rightarrow> (E_MCL_ERROR_CODE \<times> string_t option \<times> world) option" where
  "security_handler_generate_jti rand w = random_generate_guid rand w"

definition security_handler_hash_sha256 ::
    "(bytes \<Rightarrow> bytes) \<Rightarrow> bytes \<Rightarrow> mcl_size_t \<Rightarrow> world
      \<Rightarrow> (E_MCL_ERROR_CODE \<times> (bytes option \<times> mcl_size_t) \<times> world) option" where
  "security_handler_hash_sha256 sha data data_size w = security_hash_sha256 sha data data_size w"

definition security_handler_hmac_sha256 ::
    "(bytes \<Rightarrow> bytes) \<Rightarrow> security_handler_t \<Rightarrow> bytes \<Rightarrow> mcl_size_t \<Rightarrow> bytes option \<times> mcl_size_t \<Rightarrow> world
      \<Rightarrow> (E_MCL_ERROR_CODE \<times> (bytes option \<times> mcl_size_t) \<times> world) option" where
  "security_handler_hmac_sha256 sha handler data data_size out w = do {
    secret \<leftarrow> client_secret handler;
    hmac_sha256 sha data data_size
      (case string_buffer secret of None \<Rightarrow> [] | Some b \<Rightarrow> map of_char b)
      (string_length secret) out w
  }"

definition security_handler_base64_encode ::
    "bytes \<Rightarrow> mcl_size_t \<Rightarrow> world \<Rightarrow> (E_MCL_ERROR_CODE \<times> string_t option \<times> world) option" where
  "security_handler_base64_encode data data_size w = base64_encode data data_size w"

definition security_handler_base64_decode ::
    "string_t \<Rightarrow> bytes option \<times> mcl_size_t \<Rightarrow> world
      \<Rightarrow> (E_MCL_ERROR_CODE \<times> (bytes option \<times> mcl_size_t) \<times> world) option" where
  "security_handler_base64_decode encoded_data out w = base64_decode encoded_data out w"

definition security_handler_base64_url_encode ::
    "bytes \<Rightarrow> mcl_size_t \<Rightarrow> world \<Rightarrow> (E_MCL_ERROR_CODE \<times> string_t option \<times> world) option" where
  "security_handler_base64_url_encode data data_size w = base64_url_encode data data_size w"

text \<open>Destroying: the strings first, then the keys and the handle.  The keys
  \<^verbatim>\<open>onboarding_key\<close> and \<^verbatim>\<open>authentication_key\<close> are not freed.\<close>

definition release_block :: "'a option \<Rightarrow> world \<Rightarrow> world" where
  "release_block p w = memory_release (map_option (\<lambda>_. 0) p) w"

definition security_handler_destroy ::
    "security_handler_t option \<Rightarrow> world \<Rightarrow> security_handler_t option \<times> world" where
  "security_handler_destroy handler w =
    (case handler of
      None \<Rightarrow> (None, w)
    | Some h \<Rightarrow>
       (let w1 = snd (string_destroy (access_token h) w);
            w2 = snd (string_destroy (registration_access_token h) w1);
            w3 = snd (string_destroy (client_secret h) w2);
            w4 = snd (string_destroy (registration_client_uri h) w3);
            w5 = snd (string_destroy (client_id h) w4);
            w6 = snd (string_destroy (last_token_time h) w5);
            w7 = release_block (hmac_key_bytes h) w6;
            w8 = release_block (private_key (rsa h)) w7;
            w9 = release_block (public_key (rsa h)) w8;
            w10 = release_block (session_key (rsa h)) w9
        in (None, memory_free w10)))"

definition string_blocks :: "string_t option \<Rightarrow> int" where
  "string_blocks s = (case s of None \<Rightarrow> 0 | Some str \<Rightarrow> blocks_of str)"

lemma live_release_block [simp]:
  "live (release_block p w) = live w - (if p = None then 0 else 1)"
  by (cases p) (simp_all add: release_block_def)

lemma live_string_destroy_option [simp]: "live (snd (string_destroy s w)) = live w - string_blocks s"
  by (cases s) (simp_all add: live_string_destroy string_blocks_def, simp add: string_destroy_def)

text \<open>Destroying a security handler returns its own block, the keys it frees and the strings it
  owns, each once; a handler that was just made owns nothing but itself, so making and
  destroying it leaves memory as it was.\<close>

theorem security_handler_destroy_correct:
  "live (snd (security_handler_destroy (Some h) w)) = live w - 1
      - string_blocks (access_token h) - string_blocks (registration_access_token h)
      - string_blocks (client_secret h) - string_blocks (registration_client_uri h)
      - string_blocks (client_id h) - string_blocks (last_token_time h)
      - (if hmac_key_bytes h = None then 0 else 1) - (if private_key (rsa h) = None then 0 else 1)
      - (if public_key (rsa h) = None then 0 else 1) - (if session_key (rsa h) = None then 0 else 1)
    \<and> (case security_handler_initialize old w of
        (code, h1, w1) \<Rightarrow> live (snd (security_handler_destroy h1 w1)) = live w)"
proof (rule conjI)
  show "case security_handler_initialize old w of
    (code, h1, w1) \<Rightarrow> live (snd (security_handler_destroy h1 w1)) = live w"
    by (auto simp: security_handler_initialize_def security_handler_destroy_def string_blocks_def Let_def
        split: prod.split option.split dest!: allocation_dests)
qed (simp add: security_handler_destroy_def Let_def)

end
