(* ===== verification/MCL_String_Array.thy ===== *)
theory MCL_String_Array
  imports MCL_String
begin

text \<open>
  \<^verbatim>\<open>string_array.c\<close>: an array of strings that grows by an increment.  The block of items is a
  list whose elements are missing until they are written; the pointer to it is \<^verbatim>\<open>NULL\<close>
  after a refused reallocation, which frees the block.
\<close>

section \<open>The array\<close>

definition DEFAULT_INCREMENT_VALUE :: mcl_size_t where "DEFAULT_INCREMENT_VALUE = 5"

record string_array_item_t =
  item_string :: "string_t option"
  item_destroy :: bool

record string_array_t =
  array_items :: "string_array_item_t option list option"
  array_count :: mcl_size_t
  array_index :: mcl_size_t
  array_increment :: mcl_size_t
  array_total_length :: mcl_size_t

definition sizeof_string_array :: mcl_size_t where "sizeof_string_array = 40"
definition sizeof_string_array_item :: mcl_size_t where "sizeof_string_array_item = 16"

definition empty_item :: string_array_item_t where
  "empty_item = \<lparr>item_string = None, item_destroy = False\<rparr>"

text \<open>The items a block of \<open>bytes\<close> bytes has room for; none of them is written yet.\<close>

definition unwritten_items :: "mcl_size_t \<Rightarrow> string_array_item_t option list" where
  "unwritten_items bytes = replicate (unat bytes div unat sizeof_string_array_item) None"

text \<open>The loop that empties the items from \<open>from\<close> to \<open>until\<close>, which is also the loop over the
  new part of a block that has grown.\<close>

definition clear_items ::
    "string_array_item_t option list \<Rightarrow> nat \<Rightarrow> nat \<Rightarrow> string_array_item_t option list option" where
  "clear_items xs from until =
    (if from < until then write_at xs from (replicate (until - from) (Some empty_item)) else Some xs)"

definition string_array_initialize ::
    "mcl_size_t \<Rightarrow> world \<Rightarrow> (E_MCL_ERROR_CODE \<times> string_array_t option \<times> world) option" where
  "string_array_initialize count w =
    (if \<not> 0 < count then Some (MCL_INVALID_PARAMETER, None, w)
     else (case memory_allocate sizeof_string_array w of
         (None, w1) \<Rightarrow> Some (MCL_OUT_OF_MEMORY, None, w1)
       | (Some a, w1) \<Rightarrow>
         (case memory_allocate (count * sizeof_string_array_item) w1 of
            (None, w2) \<Rightarrow> Some (MCL_OUT_OF_MEMORY, None, memory_free w2)
          | (Some b, w2) \<Rightarrow> do {
              xs \<leftarrow> clear_items (unwritten_items (count * sizeof_string_array_item)) 0 (unat count);
              Some (MCL_OK, Some \<lparr>array_items = Some xs, array_count = count, array_index = 0,
                array_increment = DEFAULT_INCREMENT_VALUE, array_total_length = 0\<rparr>, w2)
            })))"

definition string_array_set_increment ::
    "string_array_t \<Rightarrow> mcl_size_t \<Rightarrow> E_MCL_ERROR_CODE \<times> string_array_t" where
  "string_array_set_increment array increment_value =
    (if \<not> 0 < increment_value then (MCL_INVALID_PARAMETER, array)
     else (MCL_OK, array\<lparr>array_increment := increment_value\<rparr>))"

text \<open>What \<^verbatim>\<open>string_array_add\<close> does to a full array.  A block that moves keeps what fits of its
  items; the address it moves to does not matter.\<close>

definition grow_array ::
    "string_array_t \<Rightarrow> world \<Rightarrow> (bool \<times> string_array_t \<times> world) option" where
  "grow_array array w =
    (let increment = (if 0 = array_increment array then DEFAULT_INCREMENT_VALUE
                      else array_increment array);
         array1 = array\<lparr>array_increment := increment\<rparr>;
         new_count = array_count array1 + increment;
         new_size = new_count * sizeof_string_array_item;
         old = (case array_items array1 of None \<Rightarrow> [] | Some xs \<Rightarrow> xs);
         room = unwritten_items new_size
     in (case memory_reallocate (map_option (\<lambda>_. 0) (array_items array1)) new_size w of
          (None, w1) \<Rightarrow> Some (False, array1\<lparr>array_items := None\<rparr>, w1)
        | (Some a, w1) \<Rightarrow> do {
            xs \<leftarrow> clear_items (take (length room) old @ drop (length old) room)
              (unat (array_count array1)) (unat new_count);
            Some (True, array1\<lparr>array_items := Some xs, array_count := new_count\<rparr>, w1)
          }))"

definition string_array_add ::
    "string_array_t \<Rightarrow> string_t \<Rightarrow> bool \<Rightarrow> world
      \<Rightarrow> (E_MCL_ERROR_CODE \<times> string_array_t \<times> world) option" where
  "string_array_add array s destroy w = do {
    (room, array1, w1) \<leftarrow>
      (if array_index array \<ge> array_count array then grow_array array w else Some (True, array, w));
    if \<not> room then Some (MCL_OUT_OF_MEMORY, array1, w1)
    else do {
      xs \<leftarrow> array_items array1;
      xs1 \<leftarrow> write_at xs (unat (array_index array1))
        [Some \<lparr>item_string = Some s, item_destroy = destroy\<rparr>];
      Some (MCL_OK, array1\<lparr>array_items := Some xs1, array_index := array_index array1 + 1,
        array_total_length := array_total_length array1 + string_length s\<rparr>, w1)
    }
  }"

text \<open>Reading an item: it must be inside the block and written.\<close>

definition item_at :: "string_array_item_t option list \<Rightarrow> nat \<Rightarrow> string_array_item_t option" where
  "item_at xs i = do { x \<leftarrow> read_at xs i; x }"

definition string_array_get :: "string_array_t option \<Rightarrow> mcl_size_t \<Rightarrow> string_t option option" where
  "string_array_get array i =
    (case array of
      None \<Rightarrow> Some None
    | Some a \<Rightarrow>
        (case array_items a of
          None \<Rightarrow> Some None
        | Some xs \<Rightarrow>
            if i < array_index a then map_option item_string (item_at xs (unat i)) else Some None))"

text \<open>The loop of \<^verbatim>\<open>string_array_to_string\<close> over \<open>todo\<close> items from \<open>i\<close> on; \<open>temp\<close> is where
  \<^verbatim>\<open>temp_buffer\<close> points in the final buffer.\<close>

fun append_items ::
    "string_array_item_t option list \<Rightarrow> nat \<Rightarrow> nat \<Rightarrow> nat \<Rightarrow> char list \<Rightarrow> char list option" where
  "append_items xs 0 i temp final_buffer = Some final_buffer"
| "append_items xs (Suc todo) i temp final_buffer = do {
    it \<leftarrow> item_at xs i;
    s \<leftarrow> item_string it;
    source \<leftarrow> string_buffer s;
    guard (temp \<le> length final_buffer);
    rest \<leftarrow> string_util_strncat (drop temp final_buffer) source (string_length s);
    append_items xs todo (i + 1) (temp + unat (string_length s)) (take temp final_buffer @ rest)
  }"

definition string_array_to_string ::
    "string_array_t option \<Rightarrow> world \<Rightarrow> (string_t option \<times> world) option" where
  "string_array_to_string array w =
    (case array of
      None \<Rightarrow> Some (None, w)
    | Some a \<Rightarrow>
        (case array_items a of
          None \<Rightarrow> Some (None, w)
        | Some xs \<Rightarrow>
            if array_total_length a = 0 then Some (None, w)
            else (case memory_allocate (array_total_length a + 1) w of
                (None, w1) \<Rightarrow> Some (None, w1)
              | (Some b, w1) \<Rightarrow> do {
                  final_buffer \<leftarrow>
                    write_at (unwritten w (unat (array_total_length a + 1))) 0 [NUL];
                  final1 \<leftarrow> append_items xs (unat (array_index a)) 0 0 final_buffer;
                  (code, final_string, w2) \<leftarrow>
                    string_initialize_dynamic (Some final1) (array_total_length a) w1;
                  if code \<noteq> MCL_OK then Some (None, memory_free w2)
                  else Some (final_string, w2)
                })))"

text \<open>The loop of \<^verbatim>\<open>string_array_destroy\<close>.\<close>

fun destroy_items :: "string_array_item_t option list \<Rightarrow> nat \<Rightarrow> nat \<Rightarrow> world \<Rightarrow> world option" where
  "destroy_items xs 0 i w = Some w"
| "destroy_items xs (Suc todo) i w = do {
    it \<leftarrow> item_at xs i;
    destroy_items xs todo (i + 1)
      (if item_destroy it then snd (string_destroy (item_string it) w) else w)
  }"

definition string_array_destroy ::
    "string_array_t option \<Rightarrow> world \<Rightarrow> (string_array_t option \<times> world) option" where
  "string_array_destroy array w =
    (case array of
      None \<Rightarrow> Some (None, w)
    | Some a \<Rightarrow>
        (case array_items a of
          None \<Rightarrow> Some (None, memory_free w)
        | Some xs \<Rightarrow> do {
            w1 \<leftarrow> destroy_items xs (unat (array_count a)) 0 w;
            Some (None, memory_free (memory_free w1))
          }))"

section \<open>Arrays that are well formed\<close>

text \<open>The array holds the items \<open>its\<close>, in the order they were added, and room for more.\<close>

definition item_of :: "string_t \<times> bool \<Rightarrow> string_array_item_t option" where
  "item_of p = Some \<lparr>item_string = Some (fst p), item_destroy = snd p\<rparr>"

definition array_holds :: "string_array_t \<Rightarrow> (string_t \<times> bool) list \<Rightarrow> bool" where
  "array_holds a its \<longleftrightarrow>
    array_index a = size_of_nat (length its) \<and> length its \<le> unat (array_count a)
    \<and> unat (array_count a) < 2 ^ 60
    \<and> array_items a = Some (map item_of its
        @ replicate (unat (array_count a) - length its) (Some empty_item))
    \<and> array_total_length a = sum_list (map (string_length \<circ> fst) its)"

text \<open>The blocks the array owns: itself, the items and the strings it is to destroy.\<close>

definition array_blocks :: "(string_t \<times> bool) list \<Rightarrow> int" where
  "array_blocks its = 2 + sum_list (map (\<lambda>(s, d). if d then blocks_of s else 0) its)"

lemma array_holdsD:
  assumes "array_holds a its"
  shows "unat (array_index a) = length its" "length its \<le> unat (array_count a)"
    "unat (array_count a) < 2 ^ 60"
    "array_items a = Some (map item_of its
        @ replicate (unat (array_count a) - length its) (Some empty_item))"
    "array_total_length a = sum_list (map (string_length \<circ> fst) its)"
  using assms by (auto simp: array_holds_def unat_size_of_nat)

lemma unat_item_size:
  "unat count < 2 ^ 60 \<Longrightarrow> unat (count * sizeof_string_array_item) = unat count * 16"
  by (subst unat_mult_less) (simp_all add: sizeof_string_array_item_def)

lemma length_unwritten_items:
  "unat count < 2 ^ 60 \<Longrightarrow> length (unwritten_items (count * sizeof_string_array_item)) = unat count"
  by (simp add: unwritten_items_def unat_item_size) (simp add: sizeof_string_array_item_def)

lemma string_array_initialize_holds:
  assumes "0 < count" "unat count < 2 ^ 60"
  shows "\<exists>code r w'. string_array_initialize count w = Some (code, r, w')
    \<and> (case r of
        Some a \<Rightarrow> code = MCL_OK \<and> array_holds a [] \<and> array_count a = count \<and> live w' = live w + 2
      | None \<Rightarrow> code = MCL_OUT_OF_MEMORY \<and> live w' = live w)"
proof -
  have "clear_items (unwritten_items (count * sizeof_string_array_item)) 0 (unat count)
    = Some (replicate (unat count) (Some empty_item))"
    using assms by (simp add: clear_items_def write_at_def length_unwritten_items size_pos_iff)
  then show ?thesis
    using assms
    by (auto simp: string_array_initialize_def array_holds_def split: prod.splits option.splits
        dest!: allocation_dests)
qed
lemma grow_array_holds:
  assumes "array_holds a its" "unat (array_count a) + unat (array_increment a) + 5 < 2 ^ 60"
  shows "\<exists>ok a1 w1. grow_array a w = Some (ok, a1, w1)
    \<and> (ok \<longrightarrow> array_holds a1 its \<and> unat (array_count a1) > unat (array_count a) \<and> live w1 = live w)
    \<and> (\<not> ok \<longrightarrow> array_items a1 = None \<and> live w1 = live w - 1)"
proof -
  note a = array_holdsD [OF assms(1)]
  obtain inc where inc: "inc = (if 0 = array_increment a then DEFAULT_INCREMENT_VALUE else array_increment a)"
    by simp
  have inc_pos: "0 < unat inc" "unat inc \<le> unat (array_increment a) + 5"
    by (auto simp: inc DEFAULT_INCREMENT_VALUE_def simp flip: size_pos_iff) (metis word_neq_0_conv)
  have count: "unat (array_count a + inc) = unat (array_count a) + unat inc"
    using assms(2) inc_pos(2) by (intro unat_add_less) simp
  have small: "unat (array_count a + inc) < 2 ^ 60" using assms(2) inc_pos(2) count by simp
  note room = length_unwritten_items [OF small, unfolded count]
  have bytes: "(array_count a + inc) * sizeof_string_array_item \<noteq> 0"
    using unat_item_size [OF small] count inc_pos(1) by (auto simp: size_eq_iff)
  let ?old = "map item_of its @ replicate (unat (array_count a) - length its) (Some empty_item)"
  have cleared: "clear_items (take (length (unwritten_items ((array_count a + inc) * sizeof_string_array_item))) ?old
      @ drop (length ?old) (unwritten_items ((array_count a + inc) * sizeof_string_array_item)))
      (unat (array_count a)) (unat (array_count a + inc))
    = Some (map item_of its @ replicate (unat (array_count a + inc) - length its) (Some empty_item))"
    using a(2) room inc_pos(1)
    by (simp add: clear_items_def write_at_def count replicate_add [symmetric])
  let ?a = "a\<lparr>array_increment := inc\<rparr>"
  let ?new = "map item_of its @ replicate (unat (array_count a + inc) - length its) (Some empty_item)"
  have sel: "array_count ?a = array_count a" "array_items ?a = Some ?old" using a(4) by simp_all
  have run: "grow_array a w =
    (case memory_reallocate (Some 0) ((array_count a + inc) * sizeof_string_array_item) w of
      (None, w1) \<Rightarrow> Some (False, ?a\<lparr>array_items := None\<rparr>, w1)
    | (Some b, w1) \<Rightarrow> Some (True, ?a\<lparr>array_items := Some ?new, array_count := array_count a + inc\<rparr>, w1))"
    unfolding grow_array_def Let_def inc [symmetric] sel option.case
      option.map cleared Option.bind.bind_lunit ..
  have new: "array_holds (?a\<lparr>array_items := Some ?new, array_count := array_count a + inc\<rparr>) its"
    using assms(1) a(2) small count by (simp add: array_holds_def)
  show ?thesis
    using new count inc_pos(1) memory_reallocate_refused [OF bytes, of 0 w] memory_reallocate_granted [of 0 _ w]
    by (cases "memory_reallocate (Some 0) ((array_count a + inc) * sizeof_string_array_item) w")
      (auto simp: run split: option.splits)
qed

lemma string_array_add_holds:
  assumes "array_holds a its" "unat (array_count a) + unat (array_increment a) + 5 < 2 ^ 60"
  shows "\<exists>code a1 w1. string_array_add a s d w = Some (code, a1, w1)
    \<and> (code = MCL_OK \<and> array_holds a1 (its @ [(s, d)]) \<and> live w1 = live w
      \<or> code = MCL_OUT_OF_MEMORY \<and> array_items a1 = None \<and> live w1 = live w - 1)
    \<and> (length its < unat (array_count a) \<longrightarrow> code = MCL_OK \<and> w1 = w)"
proof -
  have full: "array_index a \<ge> array_count a \<longleftrightarrow> \<not> length its < unat (array_count a)"
    using array_holdsD [OF assms(1)] by (auto simp: size_le_iff)
  have put: "\<exists>xs. write_at (map item_of its @ replicate (n - length its) (Some empty_item)) (length its)
      [Some \<lparr>item_string = Some s, item_destroy = d\<rparr>] = Some xs
      \<and> xs = map item_of (its @ [(s, d)]) @ replicate (n - length (its @ [(s, d)])) (Some empty_item)"
    if "length its < n" for n
    using that by (simp add: write_at_def item_of_def)
  have room: "\<exists>a2. do {
      xs \<leftarrow> array_items a1;
      xs1 \<leftarrow> write_at xs (unat (array_index a1)) [Some \<lparr>item_string = Some s, item_destroy = d\<rparr>];
      Some (MCL_OK, a1\<lparr>array_items := Some xs1, array_index := array_index a1 + 1,
        array_total_length := array_total_length a1 + string_length s\<rparr>, w1)} = Some (MCL_OK, a2, w1)
    \<and> array_holds a2 (its @ [(s, d)])" if "array_holds a1 its" "length its < unat (array_count a1)" for a1 w1
    using put [OF that(2)] array_holdsD [OF that(1)] that by (auto simp: array_holds_def)
  show ?thesis
  proof (cases "length its < unat (array_count a)")
    case True
    then show ?thesis using room [OF assms(1), of w] full by (auto simp: string_array_add_def)
  next
    case False
    obtain ok a1 w1 where g: "grow_array a w = Some (ok, a1, w1)"
      "ok \<longrightarrow> array_holds a1 its \<and> unat (array_count a1) > unat (array_count a) \<and> live w1 = live w"
      "\<not> ok \<longrightarrow> array_items a1 = None \<and> live w1 = live w - 1"
      using grow_array_holds [OF assms, of w] by (elim exE conjE) (rule that)
    show ?thesis
    proof (cases ok)
      case True
      then have "array_holds a1 its" "length its < unat (array_count a1)" "live w1 = live w"
        using g(2) array_holdsD(2) [OF assms(1)] by auto
      then show ?thesis using room [of a1 w1] full False g(1) True by (auto simp: string_array_add_def)
    next
      case False': False
      then show ?thesis using full False g(1,3) by (simp add: string_array_add_def)
    qed
  qed
qed
text \<open>The items \<open>its\<close> stand in the block from \<open>i\<close> on.\<close>

definition items_from :: "string_array_item_t option list \<Rightarrow> nat \<Rightarrow> (string_t \<times> bool) list \<Rightarrow> bool" where
  "items_from xs i its \<longleftrightarrow> take (length its) (drop i xs) = map item_of its"

lemma items_from_Cons:
  assumes "items_from xs i (p # its)"
  shows "item_at xs i = Some \<lparr>item_string = Some (fst p), item_destroy = snd p\<rparr>"
    "items_from xs (i + 1) its"
proof -
  from assms obtain ys where "drop i xs = item_of p # ys" "take (length its) ys = map item_of its"
    by (cases "drop i xs") (auto simp: items_from_def)
  then show "item_at xs i = Some \<lparr>item_string = Some (fst p), item_destroy = snd p\<rparr>"
    "items_from xs (i + 1) its"
    by (auto simp: item_at_def item_of_def items_from_def drop_Suc tl_drop [symmetric]
        bind_eq_Some_conv dest!: read_at_drop(1))
qed

lemma append_items_text:
  assumes "list_all2 (\<lambda>p t. says (fst p) t) its ts" "length (concat ts) \<le> length r"
    and "items_from xs i its"
  shows "append_items xs (length its) i (length d) (d @ NUL # r)
    = Some (d @ concat ts @ NUL # drop (length (concat ts)) r)"
  using assms
proof (induction its arbitrary: ts i d r)
  case (Cons p its)
  then obtain t ts' where ts: "ts = t # ts'" "says (fst p) t" "list_all2 (\<lambda>p t. says (fst p) t) its ts'"
    by (auto simp: list_all2_Cons1)
  then obtain rest where t: "is_text t" "length t < 2 ^ 64" "string_buffer (fst p) = Some (t @ NUL # rest)"
    "string_length (fst p) = size_of_nat (length t)"
    by (auto simp: says_def)
  have cat: "string_util_strncat (NUL # r) (t @ NUL # rest) (size_of_nat (length t))
      = Some (t @ NUL # drop (length t) r)"
    using string_util_strncat_text [of "[]" t "NUL # r" "NUL # rest"] t(1,2) Cons.prems(2) ts(1) by simp
  have "append_items xs (length its) (i + 1)
      (length (d @ t)) ((d @ t) @ NUL # drop (length t) r)
    = Some ((d @ t) @ concat ts' @ NUL # drop (length (concat ts')) (drop (length t) r))"
    using Cons.prems(2) ts(1) by (intro Cons.IH [OF ts(3) _ items_from_Cons(2) [OF Cons.prems(3)]]) simp
  then show ?case
    using t(2) by (simp add: items_from_Cons(1) [OF Cons.prems(3)] t(3,4) cat unat_size_of_nat ts(1) add.commute
      del: length_concat)
qed simp

lemma total_length_texts:
  "list_all2 (\<lambda>p t. says (fst p) t) its ts \<Longrightarrow>
    sum_list (map (string_length \<circ> fst) its) = size_of_nat (length (concat ts))"
  by (induction rule: list_all2_induct) (auto simp: says_def)

lemma string_array_to_string_run:
  assumes "array_holds a its" "list_all2 (\<lambda>p t. says (fst p) t) its ts"
    and "concat ts \<noteq> []" "length (concat ts) + 1 < 2 ^ 64"
  shows "is_text (concat ts)" "string_array_to_string (Some a) w =
    (case memory_allocate (size_of_nat (length (concat ts)) + 1) w of
      (None, w1) \<Rightarrow> Some (None, w1)
    | (Some b, w1) \<Rightarrow>
        (case memory_allocate sizeof_string w1 of
          (None, w2) \<Rightarrow> Some (None, memory_free w2)
        | (Some c, w2) \<Rightarrow> Some (Some ((handle_of (concat ts))\<lparr>string_type := MCL_STRING_NOT_COPY_DESTROY\<rparr>), w2)))"
proof -
  note a = array_holdsD [OF assms(1)]
  have total: "array_total_length a = size_of_nat (length (concat ts))"
    using a(5) total_length_texts [OF assms(2)] by simp
  have utotal: "unat (size_of_nat (length (concat ts)) + 1) = length (concat ts) + 1"
    by (rule unat_succ_length [OF assms(4)])
  have nonzero: "size_of_nat (length (concat ts)) \<noteq> (0 :: mcl_size_t)"
    using assms(3,4) by (simp add: size_eq_iff unat_size_of_nat del: length_concat)
  obtain j where j: "unwritten w (length (concat ts) + 1) = j" "length j = length (concat ts) + 1"
    by simp
  have first: "write_at j 0 [NUL] = Some (NUL # drop 1 j)"
    using j(2) by (simp add: write_at_def)
  have loop: "append_items (map item_of its @ replicate (unat (array_count a) - length its) (Some empty_item))
      (length its) 0 0 (NUL # drop 1 j) = Some (concat ts @ [NUL])"
    using append_items_text [OF assms(2), of "drop 1 j" _ 0 "[]"] j(2) by (simp add: items_from_def)
  have words: "is_text (concat ts)"
    using assms(2) by (induction rule: list_all2_induct) (auto simp: says_def)
  show "is_text (concat ts)" by (rule words)
  show "string_array_to_string (Some a) w =
    (case memory_allocate (size_of_nat (length (concat ts)) + 1) w of
      (None, w1) \<Rightarrow> Some (None, w1)
    | (Some b, w1) \<Rightarrow>
        (case memory_allocate sizeof_string w1 of
          (None, w2) \<Rightarrow> Some (None, memory_free w2)
        | (Some c, w2) \<Rightarrow> Some (Some ((handle_of (concat ts))\<lparr>string_type := MCL_STRING_NOT_COPY_DESTROY\<rparr>), w2)))"
    unfolding string_array_to_string_def option.case a(1,4) total if_not_P [OF nonzero] utotal j(1)
      first loop Option.bind.bind_lunit
    using string_initialize_dynamic_text [OF words, of] assms(4)
    by (simp split: prod.splits option.splits del: length_concat)
qed

lemma string_array_to_string_text:
  assumes "array_holds a its" "list_all2 (\<lambda>p t. says (fst p) t) its ts"
    and "concat ts \<noteq> []" "length (concat ts) + 1 < 2 ^ 64"
  shows "\<exists>r w'. string_array_to_string (Some a) w = Some (r, w')
    \<and> (case r of Some str \<Rightarrow> says str (concat ts) \<and> live w' = live w + blocks_of str
       | None \<Rightarrow> live w' = live w)"
proof -
  note words = string_array_to_string_run(1) [OF assms] and run = string_array_to_string_run(2) [OF assms]
  show ?thesis
    using words assms(4)
    by (auto simp: run says_def handle_of_def blocks_of_def simp del: length_concat
      split: prod.splits option.splits dest!: allocation_dests)
qed

lemma upcoming_string_destroy: "upcoming (snd (string_destroy s w)) = upcoming w"
  by (cases s) (simp_all add: string_destroy_def string_release_def)

lemma destroy_items_added:
  "items_from xs i its \<Longrightarrow>
    \<exists>w'. destroy_items xs (length its + n) i w = destroy_items xs n (i + length its) w'
    \<and> live w' = live w - sum_list (map (\<lambda>(s, d). if d then blocks_of s else 0) its)
    \<and> upcoming w' = upcoming w"
proof (induction its arbitrary: i w)
  case (Cons p its)
  obtain w1 where w1: "w1 = (if snd p then snd (string_destroy (Some (fst p)) w) else w)" by simp
  have live1: "live w1 = live w - (if snd p then blocks_of (fst p) else 0)"
    by (simp add: w1 live_string_destroy)
  from Cons.IH [OF items_from_Cons(2) [OF Cons.prems], of w1] obtain w' where
    "destroy_items xs (length its + n) (i + 1) w1 = destroy_items xs n (i + 1 + length its) w'"
    "live w' = live w1 - sum_list (map (\<lambda>(s, d). if d then blocks_of s else 0) its)"
    "upcoming w' = upcoming w1"
    by (elim exE conjE) (rule that)
  then show ?case
    using items_from_Cons(1) [OF Cons.prems] live1
    by (intro exI [of _ w'], cases "snd p") (simp_all add: w1 case_prod_unfold upcoming_string_destroy)
qed auto

lemma destroy_items_empty:
  "i + n \<le> length xs \<Longrightarrow> take n (drop i xs) = replicate n (Some empty_item) \<Longrightarrow>
    destroy_items xs n i w = Some w"
proof (induction n arbitrary: i)
  case (Suc n)
  have "xs ! i = Some empty_item" "take n (drop (i + 1) xs) = replicate n (Some empty_item)"
    using Suc.prems by (auto simp: take_Suc_conv_app_nth Cons_nth_drop_Suc [symmetric])
  then show ?case
    using Suc by (simp add: item_at_def empty_item_def)
qed simp

lemma string_array_destroy_holds:
  assumes "array_holds a its"
  shows "\<exists>w'. string_array_destroy (Some a) w = Some (None, w')
    \<and> live w' = live w - array_blocks its \<and> upcoming w' = upcoming w"
proof -
  note a = array_holdsD [OF assms]
  let ?xs = "map item_of its @ replicate (unat (array_count a) - length its) (Some empty_item)"
  have "items_from ?xs 0 its" by (simp add: items_from_def)
  from destroy_items_added [OF this, of "unat (array_count a) - length its" w] obtain w' where w':
    "destroy_items ?xs (unat (array_count a)) 0 w
      = destroy_items ?xs (unat (array_count a) - length its) (length its) w'"
    "live w' = live w - sum_list (map (\<lambda>(s, d). if d then blocks_of s else 0) its)"
    "upcoming w' = upcoming w"
    using a(2) by auto
  have "destroy_items ?xs (unat (array_count a) - length its) (length its) w' = Some w'"
    by (rule destroy_items_empty) simp_all
  then show ?thesis
    using w' a(4) by (simp add: string_array_destroy_def array_blocks_def)
qed

section \<open>Correctness\<close>

text \<open>Adding a string to an array puts it behind the ones it holds, growing the block by the
  increment when it is full, and counts its length; when the block cannot grow the call says
  that memory is out, and the block of items is gone with all the array held.\<close>

theorem string_array_add_correct:
  assumes "array_holds a its" "unat (array_count a) + unat (array_increment a) + 5 < 2 ^ 60"
  shows "\<exists>code a1 w1. string_array_add a s d w = Some (code, a1, w1)
    \<and> (code = MCL_OK \<and> array_holds a1 (its @ [(s, d)]) \<and> live w1 = live w
      \<or> code = MCL_OUT_OF_MEMORY \<and> array_items a1 = None \<and> live w1 = live w - 1)
    \<and> (length its < unat (array_count a) \<longrightarrow> code = MCL_OK \<and> w1 = w)"
  by (rule string_array_add_holds [OF assms])

definition header_array :: string_array_t where
  "header_array = \<lparr>array_items = Some [item_of (handle_of ''ab'', True), Some empty_item],
    array_count = 2, array_index = 1, array_increment = DEFAULT_INCREMENT_VALUE,
    array_total_length = 2\<rparr>"

lemma header_array_holds: "array_holds header_array [(handle_of ''ab'', True)]"
  by (simp add: header_array_def array_holds_def handle_of_def)

lemma string_array_add_correct_witness:
  "\<exists>a1. string_array_add header_array (handle_of ''c'') True quiet_world = Some (MCL_OK, a1, quiet_world)
    \<and> array_holds a1 [(handle_of ''ab'', True), (handle_of ''c'', True)]"
proof -
  have "unat (array_count header_array) + unat (array_increment header_array) + 5 < 2 ^ 60"
    "length [(handle_of ''ab'', True)] < unat (array_count header_array)"
    by (simp_all add: header_array_def DEFAULT_INCREMENT_VALUE_def)
  from string_array_add_correct [OF header_array_holds this(1), of "handle_of ''c''" True quiet_world] this(2)
  show ?thesis by auto
qed

text \<open>The string an array gives is the concatenation of its strings in order, in a buffer the
  new string owns, or nothing when memory is out, with nothing left behind; destroying the
  array returns every block it owns, once.\<close>

theorem string_array_to_string_correct:
  assumes "array_holds a its" "list_all2 (\<lambda>p t. says (fst p) t) its ts"
    and "concat ts \<noteq> []" "length (concat ts) + 1 < 2 ^ 64"
  shows "(\<exists>r w'. string_array_to_string (Some a) w = Some (r, w')
      \<and> (case r of Some str \<Rightarrow> says str (concat ts) \<and> live w' = live w + blocks_of str
         | None \<Rightarrow> live w' = live w))
    \<and> (\<exists>w'. string_array_destroy (Some a) w = Some (None, w') \<and> live w' = live w - array_blocks its)"
  using string_array_to_string_text [OF assms, of w] string_array_destroy_holds [OF assms(1), of w]
  by (intro conjI) (assumption, blast)

lemma string_array_to_string_correct_witness:
  "\<exists>r w'. string_array_to_string (Some header_array) quiet_world = Some (r, w')
      \<and> (case r of Some str \<Rightarrow> says str ''ab'' \<and> live w' = live quiet_world + blocks_of str
         | None \<Rightarrow> live w' = live quiet_world)"
proof -
  have "list_all2 (\<lambda>p t. says (fst p) t) [(handle_of ''ab'', True)] [''ab'']"
    by (simp add: says_handle_of)
  from string_array_to_string_correct [OF header_array_holds this, of quiet_world, THEN conjunct1]
  show ?thesis by (simp add: append_Nil2 cong: option.case_cong)
qed

end
