(* ===== verification/MCL_Http_Request.thy ===== *)
theory MCL_Http_Request
  imports MCL_Double MCL_Security MCL_String_Array
begin

text \<open>
  \<^verbatim>\<open>http_request.c\<close> with the constants of \<^verbatim>\<open>http_definitions.c\<close> and of \<^verbatim>\<open>data_types.c\<close> it uses: the
  building of a multipart message in a buffer that grows.  The buffer is the list of its
  characters, every write is checked against its end.
\<close>

section \<open>Constants\<close>

datatype E_HTTP_HEADER_NAMES =
    HTTP_HEADER_AUTHORIZATION | HTTP_HEADER_CONTENT_TYPE | HTTP_HEADER_CONTENT_ID
  | HTTP_HEADER_CONTENT_LENGTH | HTTP_HEADER_TRANSFER_ENCODING
  | HTTP_HEADER_TRANSFER_ENCODING_CHUNKED | HTTP_HEADER_USER_AGENT | HTTP_HEADER_ACCEPT
  | HTTP_HEADER_HOST | HTTP_HEADER_RANGE | HTTP_HEADER_CONTENT_RANGE
  | HTTP_HEADER_CONTENT_DISPOSITION | HTTP_HEADER_SERVER_TIME | HTTP_HEADER_IF_MATCH
  | HTTP_HEADER_ETAG | HTTP_HEADER_CORRELATION_ID

definition header_indices :: "E_HTTP_HEADER_NAMES list" where
  "header_indices =
    [HTTP_HEADER_AUTHORIZATION, HTTP_HEADER_CONTENT_TYPE, HTTP_HEADER_CONTENT_ID,
     HTTP_HEADER_CONTENT_LENGTH, HTTP_HEADER_TRANSFER_ENCODING,
     HTTP_HEADER_TRANSFER_ENCODING_CHUNKED, HTTP_HEADER_USER_AGENT, HTTP_HEADER_ACCEPT,
     HTTP_HEADER_HOST, HTTP_HEADER_RANGE, HTTP_HEADER_CONTENT_RANGE,
     HTTP_HEADER_CONTENT_DISPOSITION, HTTP_HEADER_SERVER_TIME, HTTP_HEADER_IF_MATCH,
     HTTP_HEADER_ETAG, HTTP_HEADER_CORRELATION_ID]"

text \<open>The table of the names, in the order of the source.\<close>

definition http_header_names :: "string list" where
  "http_header_names =
    [''Authorization'', ''Content-Type'', ''Content-ID'', ''Content-Length'', ''Transfer-Encoding'',
     ''Transfer-Encoding: chunked'', ''User-Agent'', ''Accept'', ''Host'', ''Content-Disposition'',
     ''Range'', ''Content-Range'', ''Server-Time'', ''If-Match'', ''ETag'', ''Correlation-ID'']"

text \<open>A constant string of the macro \<^verbatim>\<open>STRING_CONSTANT\<close>.\<close>

definition string_constant :: "string \<Rightarrow> string_t" where
  "string_constant s = \<lparr>string_buffer = Some (cstring s), string_length = size_of_nat (length s),
    string_type = MCL_STRING_NOT_COPY_NOT_DESTROY\<rparr>"

definition http_header_name :: "E_HTTP_HEADER_NAMES \<Rightarrow> string_t" where
  "http_header_name i = string_constant (http_header_names ! index_in i header_indices)"

datatype E_CONTENT_TYPE_VALUES =
    CONTENT_TYPE_APPLICATION_OCTET_STREAM | CONTENT_TYPE_TEXT_PLAIN | CONTENT_TYPE_APPLICATION_JSON
  | CONTENT_TYPE_MULTIPART_MIXED | CONTENT_TYPE_MULTIPART_RELATED | CONTENT_TYPE_META_JSON
  | CONTENT_TYPE_URL_ENCODED | TRANSFER_ENCODING_CHUNKED

definition content_type_indices :: "E_CONTENT_TYPE_VALUES list" where
  "content_type_indices =
    [CONTENT_TYPE_APPLICATION_OCTET_STREAM, CONTENT_TYPE_TEXT_PLAIN, CONTENT_TYPE_APPLICATION_JSON,
     CONTENT_TYPE_MULTIPART_MIXED, CONTENT_TYPE_MULTIPART_RELATED, CONTENT_TYPE_META_JSON,
     CONTENT_TYPE_URL_ENCODED, TRANSFER_ENCODING_CHUNKED]"

definition content_type_values :: "string list" where
  "content_type_values =
    [''application/octet-stream'', ''text/plain'', ''application/json'', ''multipart/mixed'',
     ''multipart/related'', ''application/vnd.siemens.mindsphere.meta+json'',
     ''application/x-www-form-urlencoded'', ''chunked'']"

definition content_type_value :: "E_CONTENT_TYPE_VALUES \<Rightarrow> string_t" where
  "content_type_value i = string_constant (content_type_values ! index_in i content_type_indices)"

definition NEW_LINE :: string where "NEW_LINE = [CHR 0x0D, CHR 0x0A]"
definition BOUNDARY_SIGN_LENGTH :: mcl_size_t where "BOUNDARY_SIGN_LENGTH = 2"
definition BOUNDARY_LENGTH :: mcl_size_t where "BOUNDARY_LENGTH = 22"
definition BOUNDARY_CHARACTER_COUNT :: "32 word" where "BOUNDARY_CHARACTER_COUNT = 62"
definition CONTENT_TYPE_LINE_LENGTH :: mcl_size_t where "CONTENT_TYPE_LINE_LENGTH = 65"
definition CONTENT_TYPE_HEADER_LENGTH :: mcl_size_t where "CONTENT_TYPE_HEADER_LENGTH = 14"
definition CONTENT_ID_HEADER_LENGTH :: mcl_size_t where "CONTENT_ID_HEADER_LENGTH = 12"
definition NEW_LINE_LENGTH :: mcl_size_t where "NEW_LINE_LENGTH = 2"
definition MCL_NULL_CHAR_SIZE :: mcl_size_t where "MCL_NULL_CHAR_SIZE = 1"
definition GROWTH_FACTOR :: rat where "GROWTH_FACTOR = 3 / 2"

definition BOUNDARY_LINE_LENGTH :: mcl_size_t where
  "BOUNDARY_LINE_LENGTH = BOUNDARY_SIGN_LENGTH + BOUNDARY_LENGTH + NEW_LINE_LENGTH"

definition OVERHEAD_FOR_TUPLE :: mcl_size_t where
  "OVERHEAD_FOR_TUPLE = 5 * BOUNDARY_LINE_LENGTH + CONTENT_TYPE_LINE_LENGTH
    + 2 * CONTENT_TYPE_HEADER_LENGTH + 4 * NEW_LINE_LENGTH + MCL_NULL_CHAR_SIZE"

definition OVERHEAD_FOR_SINGLE :: mcl_size_t where
  "OVERHEAD_FOR_SINGLE = 2 * BOUNDARY_LINE_LENGTH + CONTENT_TYPE_LINE_LENGTH
    + CONTENT_TYPE_HEADER_LENGTH + CONTENT_ID_HEADER_LENGTH + 2 * NEW_LINE_LENGTH + MCL_NULL_CHAR_SIZE"

definition OVERHEAD_FOR_BOUNDARY :: mcl_size_t where
  "OVERHEAD_FOR_BOUNDARY = BOUNDARY_LINE_LENGTH + MCL_NULL_CHAR_SIZE"

definition OVERHEAD_FOR_TUPLE_SUBSECTION_WITH_BOUNDARY_DEFINITION :: mcl_size_t where
  "OVERHEAD_FOR_TUPLE_SUBSECTION_WITH_BOUNDARY_DEFINITION = BOUNDARY_LINE_LENGTH
    + CONTENT_TYPE_HEADER_LENGTH + 2 * NEW_LINE_LENGTH + CONTENT_TYPE_LINE_LENGTH + MCL_NULL_CHAR_SIZE"

definition OVERHEAD_FOR_TUPLE_SUBSECTION :: mcl_size_t where
  "OVERHEAD_FOR_TUPLE_SUBSECTION = BOUNDARY_LINE_LENGTH + CONTENT_TYPE_HEADER_LENGTH
    + 2 * NEW_LINE_LENGTH + MCL_NULL_CHAR_SIZE"

definition boundary_characters :: string where
  "boundary_characters = ''1234567890abcdefghijklmnopqrstuvwxyzABCDEFGHIJKLMNOPQRSTUVWXYZ''"

lemmas request_sizes =
  BOUNDARY_SIGN_LENGTH_def BOUNDARY_LENGTH_def CONTENT_TYPE_LINE_LENGTH_def
  CONTENT_TYPE_HEADER_LENGTH_def CONTENT_ID_HEADER_LENGTH_def NEW_LINE_LENGTH_def
  MCL_NULL_CHAR_SIZE_def BOUNDARY_LINE_LENGTH_def OVERHEAD_FOR_TUPLE_def OVERHEAD_FOR_SINGLE_def
  OVERHEAD_FOR_BOUNDARY_def OVERHEAD_FOR_TUPLE_SUBSECTION_WITH_BOUNDARY_DEFINITION_def
  OVERHEAD_FOR_TUPLE_SUBSECTION_def

section \<open>The request\<close>

datatype E_MCL_HTTP_METHOD =
    MCL_HTTP_GET | MCL_HTTP_HEAD | MCL_HTTP_POST | MCL_HTTP_PUT | MCL_HTTP_DELETE
  | MCL_HTTP_CONNECT | MCL_HTTP_OPTIONS | MCL_HTTP_TRACE

record http_request_t =
  header :: "string_array_t option"
  payload :: "char list option"
  payload_size :: mcl_size_t
  payload_offset :: mcl_size_t
  http_method :: E_MCL_HTTP_METHOD
  uri :: "string_t option"
  boundary :: "string_t option"
  max_http_payload_size :: mcl_size_t
  resize_enabled :: bool
  finalized :: bool

definition sizeof_http_request :: mcl_size_t where "sizeof_http_request = 80"

text \<open>The callback that copies a payload gets the buffer from the current position on and the size; it
  gives the buffer back with what it wrote, and the number of characters it counts.\<close>

type_synonym payload_copy_callback_t = "char list \<Rightarrow> mcl_size_t \<Rightarrow> (char list \<times> mcl_size_t) option"

section \<open>Boundaries\<close>

text \<open>The loop of \<^verbatim>\<open>_generate_random_boundary\<close> over \<open>n\<close> more characters from \<open>i\<close> on.\<close>

fun boundary_loop ::
    "random_source \<Rightarrow> nat \<Rightarrow> nat \<Rightarrow> char list \<Rightarrow> world \<Rightarrow> (E_MCL_ERROR_CODE \<times> char list \<times> world) option" where
  "boundary_loop rand 0 i b w = Some (MCL_OK, b, w)"
| "boundary_loop rand (Suc n) i b w = do {
    (code, random_index, w1) \<leftarrow> random_generate_number rand 0 w;
    if code = MCL_OK then do {
      c \<leftarrow> read_at boundary_characters (unat (random_index mod BOUNDARY_CHARACTER_COUNT));
      b1 \<leftarrow> write_at b i [c];
      boundary_loop rand n (i + 1) b1 w1
    }
    else Some (code, b, w1)
  }"

definition generate_random_boundary ::
    "random_source \<Rightarrow> world \<Rightarrow> (E_MCL_ERROR_CODE \<times> string_t option \<times> world) option" where
  "generate_random_boundary rand w = do {
    (code, bnd, w1) \<leftarrow> string_initialize_new None BOUNDARY_LENGTH w;
    if code \<noteq> MCL_OK then Some (code, bnd, w1)
    else do {
      s \<leftarrow> bnd;
      b \<leftarrow> string_buffer s;
      (code1, b1, w2) \<leftarrow> boundary_loop rand (unat BOUNDARY_LENGTH) 0 b w1;
      let s1 = s\<lparr>string_buffer := Some b1\<rparr>;
      if code1 = MCL_OK then Some (code1, Some s1, w2)
      else (let (s2, w3) = string_destroy (Some s1) w2 in Some (code1, s2, w3))
    }
  }"
section \<open>Writing into the payload\<close>

datatype E_MCL_BOUNDARY_TYPE = MCL_CLOSE_BOUNDARY | MCL_OPEN_BOUNDARY

text \<open>A step that writes has the payload and the local offset as its state and gives a code with
  the new state.\<close>

type_synonym writing = "(E_MCL_ERROR_CODE \<times> char list \<times> mcl_size_t) option"

text \<open>\<^verbatim>\<open>string_util_snprintf\<close> to the place \<open>offset\<close> of the payload.\<close>

definition snprintf_at :: "char list \<Rightarrow> mcl_size_t \<Rightarrow> mcl_size_t \<Rightarrow> string \<Rightarrow> (E_MCL_ERROR_CODE \<times> char list) option" where
  "snprintf_at p offset len out = do {
    guard (unat offset \<le> length p);
    (code, rest) \<leftarrow> string_util_snprintf (drop (unat offset) p) len out;
    Some (code, take (unat offset) p @ rest)
  }"

definition add_boundary :: "char list \<Rightarrow> mcl_size_t \<Rightarrow> char list \<Rightarrow> E_MCL_BOUNDARY_TYPE \<Rightarrow> writing" where
  "add_boundary p offset bnd boundary_type = do {
    b \<leftarrow> chars_of bnd;
    let (out, total) =
      (if MCL_OPEN_BOUNDARY = boundary_type
       then (''--'' @ b @ NEW_LINE, BOUNDARY_LINE_LENGTH)
       else (''--'' @ b @ ''--'' @ NEW_LINE, BOUNDARY_LINE_LENGTH + BOUNDARY_SIGN_LENGTH));
    (code, p1) \<leftarrow> snprintf_at p offset (total + MCL_NULL_CHAR_SIZE) out;
    if code \<noteq> MCL_OK then Some (code, p1, offset) else Some (MCL_OK, p1, offset + total)
  }"

definition add_content_info ::
    "char list \<Rightarrow> mcl_size_t \<Rightarrow> char list \<Rightarrow> char list \<Rightarrow> mcl_size_t \<Rightarrow> char list option \<Rightarrow> writing" where
  "add_content_info p offset info_name info_value line_length sub_boundary = do {
    n \<leftarrow> chars_of info_name;
    v \<leftarrow> chars_of info_value;
    out \<leftarrow> (case sub_boundary of
        None \<Rightarrow> Some (n @ '': '' @ v @ NEW_LINE)
      | Some sb \<Rightarrow> do { b \<leftarrow> chars_of sb; Some (n @ '': '' @ v @ '';boundary='' @ b @ NEW_LINE) });
    (code, p1) \<leftarrow> snprintf_at p offset (line_length + MCL_NULL_CHAR_SIZE) out;
    if code \<noteq> MCL_OK then Some (code, p1, offset) else Some (MCL_OK, p1, offset + line_length)
  }"

definition add_blank_line :: "char list \<Rightarrow> mcl_size_t \<Rightarrow> writing" where
  "add_blank_line p offset = do {
    p1 \<leftarrow> string_util_memcpy p (unat offset) NEW_LINE NEW_LINE_LENGTH;
    let offset1 = offset + NEW_LINE_LENGTH;
    p2 \<leftarrow> write_at p1 (unat offset1) [NUL];
    Some (MCL_OK, p2, offset1)
  }"

definition add_meta :: "char list \<Rightarrow> mcl_size_t \<Rightarrow> string_t \<Rightarrow> writing" where
  "add_meta p offset meta = do {
    b \<leftarrow> string_buffer meta;
    p1 \<leftarrow> string_util_memcpy p (unat offset) b (string_length meta);
    add_blank_line p1 (offset + string_length meta)
  }"

definition add_payload ::
    "char list \<Rightarrow> mcl_size_t \<Rightarrow> payload_copy_callback_t \<Rightarrow> mcl_size_t \<Rightarrow> writing" where
  "add_payload p offset copy size1 = do {
    guard (unat offset \<le> length p);
    (rest, count) \<leftarrow> copy (drop (unat offset) p) size1;
    Some (MCL_OK, take (unat offset) p @ rest, offset + count)
  }"

text \<open>One step after the other, as long as they succeed: the early returns of the callers.\<close>

definition and_then :: "writing \<Rightarrow> (char list \<Rightarrow> mcl_size_t \<Rightarrow> writing) \<Rightarrow> writing" where
  "and_then m f = do {
    (code, p, offset) \<leftarrow> m;
    if code = MCL_OK then f p offset else Some (code, p, offset)
  }"

section \<open>Growing\<close>

text \<open>A block that moves keeps the part that fits; the rest of a larger one is not written yet.\<close>

definition resized :: "world \<Rightarrow> char list option \<Rightarrow> nat \<Rightarrow> char list" where
  "resized w p n = (let old = (case p of None \<Rightarrow> [] | Some xs \<Rightarrow> xs)
    in take n old @ drop (length old) (unwritten w n))"

definition resize_payload :: "http_request_t \<Rightarrow> mcl_size_t \<Rightarrow> world \<Rightarrow> bool \<times> http_request_t \<times> world" where
  "resize_payload r new_size w =
    (case memory_reallocate (map_option (\<lambda>_. 0) (payload r)) new_size w of
      (None, w1) \<Rightarrow> (False, r\<lparr>payload := None\<rparr>, w1)
    | (Some a, w1) \<Rightarrow> (True, r\<lparr>payload := Some (resized w (payload r) (unat new_size)),
        payload_size := new_size\<rparr>, w1))"

text \<open>The size the payload is to grow to.\<close>

definition grown_size :: "mcl_size_t \<Rightarrow> mcl_size_t \<Rightarrow> mcl_size_t option" where
  "grown_size required size1 =
    (let req = fl (of_nat (unat required)); old = fl (of_nat (unat size1)) in
     if size1 = 0 then size_of_double (fl (fl (req * GROWTH_FACTOR) + 1))
     else size_of_double (fl (fl (fl (fl (req / old) + 1) * GROWTH_FACTOR) * old)))"

definition resize_payload_buffer_if_necessary ::
    "mcl_size_t \<Rightarrow> http_request_t \<Rightarrow> bool \<Rightarrow> world \<Rightarrow> (E_MCL_ERROR_CODE \<times> http_request_t \<times> world) option" where
  "resize_payload_buffer_if_necessary required_empty_size r finalize w =
    (let max_allowed_available_size =
       (if resize_enabled r then max_http_payload_size r - payload_offset r
        else payload_size r - payload_offset r) in
     if finalize then
       (if required_empty_size \<le> max_allowed_available_size then
          (if resize_enabled r then
             (let (ok, r1, w1) = resize_payload r (payload_offset r + required_empty_size) w in
              Some (if ok then MCL_OK else MCL_OUT_OF_MEMORY, r1, w1))
           else Some (MCL_OK, r, w))
        else Some (MCL_HTTP_REQUEST_NO_MORE_SPACE, r, w))
     else if required_empty_size > payload_size r - payload_offset r then do {
       new_size \<leftarrow> grown_size required_empty_size (payload_size r);
       if new_size \<le> max_http_payload_size r \<and> resize_enabled r then
         (let (ok, r1, w1) = resize_payload r new_size w in
          Some (if ok then MCL_OK else MCL_OUT_OF_MEMORY, r1, w1))
       else if required_empty_size \<le> max_allowed_available_size \<and> resize_enabled r then
         (let (ok, r1, w1) = resize_payload r (max_http_payload_size r) w in
          Some (if ok then MCL_OK else MCL_OUT_OF_MEMORY, r1, w1))
       else Some (MCL_HTTP_REQUEST_NO_MORE_SPACE, r, w)
     }
     else Some (MCL_OK, r, w))"

definition get_available_space :: "http_request_t \<Rightarrow> mcl_size_t \<Rightarrow> mcl_size_t" where
  "get_available_space r overhead =
    (let limit = (if resize_enabled r then max_http_payload_size r else payload_size r) in
     if MCL_SIZE_MAX - payload_offset r > overhead \<and> limit > payload_offset r + overhead
     then limit - payload_offset r - overhead else 0)"

definition http_request_get_available_space_for_raw_data :: "http_request_t \<Rightarrow> mcl_size_t" where
  "http_request_get_available_space_for_raw_data r = get_available_space r 0"

definition http_request_get_available_space_for_tuple :: "http_request_t \<Rightarrow> mcl_size_t" where
  "http_request_get_available_space_for_tuple r = get_available_space r OVERHEAD_FOR_TUPLE"

definition http_request_get_available_space_for_single :: "http_request_t \<Rightarrow> mcl_size_t" where
  "http_request_get_available_space_for_single r = get_available_space r OVERHEAD_FOR_SINGLE"
section \<open>The operations\<close>

definition http_request_destroy :: "http_request_t option \<Rightarrow> world \<Rightarrow> (http_request_t option \<times> world) option" where
  "http_request_destroy request w =
    (case request of
      None \<Rightarrow> Some (None, w)
    | Some r \<Rightarrow> do {
        (gone, w1) \<leftarrow> string_array_destroy (header r) w;
        let w2 = snd (string_destroy (uri r) w1);
        let w3 = snd (string_destroy (boundary r) w2);
        let w4 = release_block (payload r) w3;
        Some (None, memory_free w4)
      })"

text \<open>The length and the text of a header line.  The comparisons with the constants are by contents; a constant is
  equal to itself either way.\<close>

definition header_format ::
    "http_request_t \<Rightarrow> string_t \<Rightarrow> string_t \<Rightarrow> (mcl_size_t \<times> string) option" where
  "header_format r name1 value1 = do {
    is_type \<leftarrow> string_compare False (Some name1) (Some (http_header_name HTTP_HEADER_CONTENT_TYPE));
    is_mixed \<leftarrow> (if MCL_OK = is_type
      then string_compare False (Some value1) (Some (content_type_value CONTENT_TYPE_MULTIPART_MIXED))
      else Some MCL_FAIL);
    name_buffer \<leftarrow> string_buffer name1; n \<leftarrow> chars_of name_buffer;
    value_buffer \<leftarrow> string_buffer value1; v \<leftarrow> chars_of value_buffer;
    (if MCL_OK = is_type \<and> MCL_OK = is_mixed then do {
       bnd \<leftarrow> boundary r; boundary_buffer \<leftarrow> string_buffer bnd; b \<leftarrow> chars_of boundary_buffer;
       Some (string_length name1 + string_length value1 + string_length bnd + 26,
         n @ '': '' @ v @ '';boundary='' @ b @ '';charset=utf-8'')
     }
     else Some (string_length name1 + string_length value1 + 2, n @ '': '' @ v))
  }"

definition http_request_add_header ::
    "http_request_t \<Rightarrow> string_t \<Rightarrow> string_t \<Rightarrow> world \<Rightarrow> (E_MCL_ERROR_CODE \<times> http_request_t \<times> world) option" where
  "http_request_add_header r name1 value1 w = do {
    (line_length, out) \<leftarrow> header_format r name1 value1;
    (code, line, w1) \<leftarrow> string_initialize_new None line_length w;
    if MCL_OK \<noteq> code then Some (code, r, w1)
    else do {
      s \<leftarrow> line; b \<leftarrow> string_buffer s;
      (code1, b1) \<leftarrow> string_util_snprintf b (line_length + 1) out;
      let s1 = s\<lparr>string_buffer := Some b1\<rparr>;
      if MCL_OK \<noteq> code1 then Some (code1, r, snd (string_destroy (Some s1) w1))
      else do {
        array \<leftarrow> header r;
        (code2, array1, w2) \<leftarrow> string_array_add array s1 True w1;
        let r1 = r\<lparr>header := Some array1\<rparr>;
        if MCL_OK \<noteq> code2 then Some (code2, r1, snd (string_destroy (Some s1) w2))
        else Some (MCL_OK, r1, w2)
      }
    }
  }"

text \<open>The way out of \<^verbatim>\<open>http_request_initialize\<close> when a step has failed.\<close>

definition give_up ::
    "E_MCL_ERROR_CODE \<Rightarrow> http_request_t \<Rightarrow> world \<Rightarrow> (E_MCL_ERROR_CODE \<times> http_request_t option \<times> world) option" where
  "give_up code r w = do { (gone, w1) \<leftarrow> http_request_destroy (Some r) w; Some (code, gone, w1) }"

definition http_request_initialize ::
    "random_source \<Rightarrow> E_MCL_HTTP_METHOD \<Rightarrow> string_t \<Rightarrow> mcl_size_t \<Rightarrow> mcl_size_t \<Rightarrow> bool \<Rightarrow> string_t \<Rightarrow> mcl_size_t
      \<Rightarrow> world \<Rightarrow> (E_MCL_ERROR_CODE \<times> http_request_t option \<times> world) option" where
  "http_request_initialize rand method1 uri1 header_size size1 resize user_agent max_size w =
    (case memory_allocate sizeof_http_request w of
      (None, w1) \<Rightarrow> Some (MCL_OUT_OF_MEMORY, None, w1)
    | (Some a, w1) \<Rightarrow> do {
        let r = \<lparr>header = None, payload = None, payload_size = size1, payload_offset = 0,
          http_method = method1, uri = None, boundary = None, max_http_payload_size = max_size,
          resize_enabled = resize, finalized = False\<rparr>;
        (code, array, w2) \<leftarrow> string_array_initialize (header_size + 1) w1;
        let r1 = r\<lparr>header := array\<rparr>;
        if code \<noteq> MCL_OK then give_up code r1 w2
        else do {
          (code1, r2, w3) \<leftarrow> http_request_add_header r1 (http_header_name HTTP_HEADER_USER_AGENT) user_agent w2;
          if MCL_OK \<noteq> code1 then give_up code1 r2 w3
          else do {
            let (granted, w4) = (if 0 < size1 then memory_allocate size1 w3 else (None, w3));
            if 0 < size1 \<and> granted = None then give_up MCL_OUT_OF_MEMORY r2 w4
            else do {
              let r3 = r2\<lparr>payload := (if 0 < size1 then Some (unwritten w3 (unat size1)) else None)\<rparr>;
              (code2, u, w5) \<leftarrow> string_initialize uri1 w4;
              let r4 = r3\<lparr>uri := u\<rparr>;
              if MCL_OK \<noteq> code2 then give_up code2 r4 w5
              else do {
                (code3, b, w6) \<leftarrow> generate_random_boundary rand w5;
                let r5 = r4\<lparr>boundary := b\<rparr>;
                if MCL_OK \<noteq> code3 then give_up code3 r5 w6 else Some (MCL_OK, Some r5, w6)
              }
            }
          }
        }
      })"

text \<open>The end of an operation: the payload it wrote into, and the new offset when all went well.\<close>

definition written :: "http_request_t \<Rightarrow> writing \<Rightarrow> (E_MCL_ERROR_CODE \<times> http_request_t) option" where
  "written r m = do {
    (code, p, offset) \<leftarrow> m;
    Some (code, if code = MCL_OK then r\<lparr>payload := Some p, payload_offset := offset\<rparr>
                else r\<lparr>payload := Some p\<rparr>)
  }"

definition header_text :: "E_HTTP_HEADER_NAMES \<Rightarrow> char list" where
  "header_text i = cstring (http_header_names ! index_in i header_indices)"

definition http_request_add_single ::
    "http_request_t \<Rightarrow> string_t \<Rightarrow> string_t \<Rightarrow> string_t \<Rightarrow> world
      \<Rightarrow> (E_MCL_ERROR_CODE \<times> http_request_t \<times> world) option" where
  "http_request_add_single r content_type content_id meta_string w = do {
    let required_empty_size = OVERHEAD_FOR_SINGLE + string_length content_type + string_length content_id
      + string_length meta_string + NEW_LINE_LENGTH + MCL_NULL_CHAR_SIZE;
    (code, r1, w1) \<leftarrow> resize_payload_buffer_if_necessary required_empty_size r False w;
    if MCL_OK \<noteq> code then Some (code, r1, w1)
    else do {
      p \<leftarrow> payload r1;
      bnd \<leftarrow> boundary r1; b \<leftarrow> string_buffer bnd;
      t \<leftarrow> string_buffer content_type;
      i \<leftarrow> string_buffer content_id;
      (code1, r2) \<leftarrow> written r1
        (and_then (add_boundary p (payload_offset r1) b MCL_OPEN_BOUNDARY) (\<lambda>p offset.
         and_then (add_content_info p offset (header_text HTTP_HEADER_CONTENT_TYPE) t
             (CONTENT_TYPE_HEADER_LENGTH + string_length content_type + NEW_LINE_LENGTH) None) (\<lambda>p offset.
         and_then (add_content_info p offset (header_text HTTP_HEADER_CONTENT_ID) i
             (CONTENT_ID_HEADER_LENGTH + string_length content_id + NEW_LINE_LENGTH) None) (\<lambda>p offset.
         and_then (add_blank_line p offset) (\<lambda>p offset.
         add_meta p offset meta_string)))));
      Some (code1, r2, w1)
    }
  }"

text \<open>The part of a tuple that needs the boundary of its own, \<open>sb\<close>.\<close>

definition tuple_sections ::
    "char list \<Rightarrow> string_t \<Rightarrow> char list \<Rightarrow> mcl_size_t \<Rightarrow> payload_copy_callback_t \<Rightarrow> mcl_size_t \<Rightarrow> char list
      \<Rightarrow> mcl_size_t \<Rightarrow> char list \<Rightarrow> mcl_size_t \<Rightarrow> writing" where
  "tuple_sections sb meta mt mt_length copy size1 pt pt_length p offset =
    and_then (add_content_info p offset (header_text HTTP_HEADER_CONTENT_TYPE)
        (cstring (content_type_values ! index_in CONTENT_TYPE_MULTIPART_RELATED content_type_indices))
        CONTENT_TYPE_LINE_LENGTH (Some sb)) (\<lambda>p offset.
    and_then (add_blank_line p offset) (\<lambda>p offset.
    and_then (add_boundary p offset sb MCL_OPEN_BOUNDARY) (\<lambda>p offset.
    and_then (add_content_info p offset (header_text HTTP_HEADER_CONTENT_TYPE) mt
        (CONTENT_TYPE_HEADER_LENGTH + mt_length + NEW_LINE_LENGTH) None) (\<lambda>p offset.
    and_then (add_blank_line p offset) (\<lambda>p offset.
    and_then (add_meta p offset meta) (\<lambda>p offset.
    and_then (add_boundary p offset sb MCL_OPEN_BOUNDARY) (\<lambda>p offset.
    and_then (add_content_info p offset (header_text HTTP_HEADER_CONTENT_TYPE) pt
        (CONTENT_TYPE_HEADER_LENGTH + pt_length + NEW_LINE_LENGTH) None) (\<lambda>p offset.
    and_then (add_blank_line p offset) (\<lambda>p offset.
    and_then (add_payload p offset copy size1) (\<lambda>p offset.
    and_then (add_blank_line p offset) (\<lambda>p offset.
    add_boundary p offset sb MCL_CLOSE_BOUNDARY)))))))))))"

definition http_request_add_tuple ::
    "random_source \<Rightarrow> http_request_t \<Rightarrow> string_t \<Rightarrow> string_t \<Rightarrow> payload_copy_callback_t \<Rightarrow> mcl_size_t \<Rightarrow> string_t
      \<Rightarrow> world \<Rightarrow> (E_MCL_ERROR_CODE \<times> http_request_t \<times> world) option" where
  "http_request_add_tuple rand r meta meta_content_type copy size1 payload_content_type w = do {
    let required_empty_size = OVERHEAD_FOR_TUPLE + string_length meta_content_type
      + string_length payload_content_type + size1 + string_length meta;
    (code, r1, w1) \<leftarrow> resize_payload_buffer_if_necessary required_empty_size r False w;
    if MCL_OK \<noteq> code then Some (code, r1, w1)
    else do {
      p \<leftarrow> payload r1;
      bnd \<leftarrow> boundary r1; b \<leftarrow> string_buffer bnd;
      (code1, p1, offset1) \<leftarrow> add_boundary p (payload_offset r1) b MCL_OPEN_BOUNDARY;
      let r2 = r1\<lparr>payload := Some p1\<rparr>;
      if MCL_OK \<noteq> code1 then Some (code1, r2, w1)
      else do {
        (code2, sub_boundary, w2) \<leftarrow> generate_random_boundary rand w1;
        if MCL_OK \<noteq> code2 then Some (code2, r2, w2)
        else do {
          sb \<leftarrow> sub_boundary; s \<leftarrow> string_buffer sb;
          mt \<leftarrow> string_buffer meta_content_type;
          pt \<leftarrow> string_buffer payload_content_type;
          (code3, r3) \<leftarrow> written r2 (tuple_sections s meta mt (string_length meta_content_type) copy size1
            pt (string_length payload_content_type) p1 offset1);
          Some (code3, r3, snd (string_destroy sub_boundary w2))
        }
      }
    }
  }"

definition http_request_start_tuple ::
    "http_request_t \<Rightarrow> world \<Rightarrow> (E_MCL_ERROR_CODE \<times> http_request_t \<times> world) option" where
  "http_request_start_tuple r w = do {
    (code, r1, w1) \<leftarrow> resize_payload_buffer_if_necessary OVERHEAD_FOR_BOUNDARY r False w;
    if MCL_OK \<noteq> code then Some (code, r1, w1)
    else do {
      p \<leftarrow> payload r1;
      bnd \<leftarrow> boundary r1; b \<leftarrow> string_buffer bnd;
      (code1, r2) \<leftarrow> written r1 (add_boundary p (payload_offset r1) b MCL_OPEN_BOUNDARY);
      Some (code1, r2, w1)
    }
  }"

text \<open>The boundary of the sections is made by the first one: \<open>sub_boundary\<close> is where it is kept.\<close>

definition http_request_start_tuple_sub_section ::
    "random_source \<Rightarrow> http_request_t \<Rightarrow> string_t \<Rightarrow> string_t option \<Rightarrow> world
      \<Rightarrow> (E_MCL_ERROR_CODE \<times> http_request_t \<times> string_t option \<times> world) option" where
  "http_request_start_tuple_sub_section rand r content_type sub_boundary w = do {
    let required_empty_size =
      (if sub_boundary = None then OVERHEAD_FOR_TUPLE_SUBSECTION_WITH_BOUNDARY_DEFINITION
       else OVERHEAD_FOR_TUPLE_SUBSECTION) + string_length content_type;
    (code, r1, w1) \<leftarrow> resize_payload_buffer_if_necessary required_empty_size r False w;
    if MCL_OK \<noteq> code then Some (code, r1, sub_boundary, w1)
    else do {
      p \<leftarrow> payload r1;
      (code1, bnd, w2) \<leftarrow>
        (if sub_boundary = None then generate_random_boundary rand w1
         else Some (MCL_OK, sub_boundary, w1));
      if MCL_OK \<noteq> code1 then Some (code1, r1, bnd, w2)
      else do {
        sb \<leftarrow> bnd; s \<leftarrow> string_buffer sb;
        t \<leftarrow> string_buffer content_type;
        (code2, r2) \<leftarrow> written r1
          (and_then (if sub_boundary = None
               then add_content_info p (payload_offset r1) (header_text HTTP_HEADER_CONTENT_TYPE)
                 (cstring (content_type_values ! index_in CONTENT_TYPE_MULTIPART_RELATED content_type_indices))
                 CONTENT_TYPE_LINE_LENGTH (Some s)
               else Some (MCL_OK, p, payload_offset r1)) (\<lambda>p offset.
           and_then (add_boundary p offset s MCL_OPEN_BOUNDARY) (\<lambda>p offset.
           and_then (add_content_info p offset (header_text HTTP_HEADER_CONTENT_TYPE) t
               (CONTENT_TYPE_HEADER_LENGTH + string_length content_type + NEW_LINE_LENGTH) None) (\<lambda>p offset.
           add_blank_line p offset))));
        Some (code2, r2, bnd, w2)
      }
    }
  }"

definition http_request_end_tuple_sub_section ::
    "http_request_t \<Rightarrow> string_t \<Rightarrow> world \<Rightarrow> (E_MCL_ERROR_CODE \<times> http_request_t \<times> world) option" where
  "http_request_end_tuple_sub_section r sub_boundary w = do {
    (code, r1, w1) \<leftarrow> resize_payload_buffer_if_necessary (BOUNDARY_LINE_LENGTH + MCL_NULL_CHAR_SIZE) r False w;
    if MCL_OK \<noteq> code then Some (code, r1, w1)
    else do {
      p \<leftarrow> payload r1;
      b \<leftarrow> string_buffer sub_boundary;
      (code1, r2) \<leftarrow> written r1 (add_boundary p (payload_offset r1) b MCL_CLOSE_BOUNDARY);
      Some (code1, r2, w1)
    }
  }"

text \<open>The last result is what goes to \<^verbatim>\<open>actual_written_size\<close>.\<close>

definition http_request_add_raw_data ::
    "http_request_t \<Rightarrow> payload_copy_callback_t \<Rightarrow> mcl_size_t \<Rightarrow> world
      \<Rightarrow> (E_MCL_ERROR_CODE \<times> http_request_t \<times> mcl_size_t \<times> world) option" where
  "http_request_add_raw_data r copy data_size w = do {
    (code, r1, w1) \<leftarrow> resize_payload_buffer_if_necessary data_size r False w;
    if MCL_OK \<noteq> code then Some (code, r1, 0, w1)
    else do {
      p \<leftarrow> payload r1;
      (code1, r2) \<leftarrow> written r1 (add_payload p (payload_offset r1) copy data_size);
      Some (code1, r2, payload_offset r2 - payload_offset r1, w1)
    }
  }"

definition http_request_finalize ::
    "http_request_t \<Rightarrow> world \<Rightarrow> (E_MCL_ERROR_CODE \<times> http_request_t \<times> world) option" where
  "http_request_finalize r w = do {
    let required_empty_size = 2 * BOUNDARY_SIGN_LENGTH + BOUNDARY_LENGTH;
    (code, r1, w1) \<leftarrow> resize_payload_buffer_if_necessary required_empty_size r True w;
    if MCL_OK \<noteq> code then Some (MCL_HTTP_REQUEST_FINALIZE_FAILED, r1, w1)
    else do {
      p \<leftarrow> payload r1;
      bnd \<leftarrow> boundary r1; b \<leftarrow> string_buffer bnd;
      p1 \<leftarrow> string_util_memcpy p (unat (payload_offset r1)) ''--'' BOUNDARY_SIGN_LENGTH;
      let o1 = payload_offset r1 + BOUNDARY_SIGN_LENGTH;
      p2 \<leftarrow> string_util_memcpy p1 (unat o1) b BOUNDARY_LENGTH;
      let o2 = o1 + BOUNDARY_LENGTH;
      p3 \<leftarrow> string_util_memcpy p2 (unat o2) ''--'' BOUNDARY_SIGN_LENGTH;
      let o3 = o2 + BOUNDARY_SIGN_LENGTH;
      Some (MCL_OK, r1\<lparr>payload := Some p3, payload_offset := o3\<rparr>, w1)
    }
  }"
section \<open>What a step writes\<close>

text \<open>A step emits the text \<open>s\<close> with the budget \<open>k\<close>: wherever there is more than \<open>k\<close> left of the
  payload, it appends \<open>s\<close>, moves the offset behind it and keeps the size of the payload.\<close>

definition emits :: "nat \<Rightarrow> (char list \<Rightarrow> mcl_size_t \<Rightarrow> writing) \<Rightarrow> string \<Rightarrow> bool" where
  "emits k f s \<longleftrightarrow> length s \<le> k \<and> (\<forall>start rest.
    length start + length rest < 2 ^ 64 \<longrightarrow> k < length rest \<longrightarrow>
    (\<exists>rest'. f (start @ rest) (size_of_nat (length start))
        = Some (MCL_OK, (start @ s) @ rest', size_of_nat (length (start @ s)))
      \<and> length rest' + length s = length rest))"

named_theorems emits_intros \<open>what the single steps emit\<close>

lemma emitsI:
  assumes "length s \<le> k"
    and "\<And>start rest. length start + length rest < 2 ^ 64 \<Longrightarrow> k < length rest \<Longrightarrow>
      \<exists>rest'. f (start @ rest) (size_of_nat (length start))
        = Some (MCL_OK, (start @ s) @ rest', size_of_nat (length (start @ s)))
      \<and> length rest' + length s = length rest"
  shows "emits k f s"
  using assms by (simp add: emits_def)

lemma emitsE:
  assumes "emits k f s" "length start + length rest < 2 ^ 64" "k < length rest"
  obtains rest' where "f (start @ rest) (size_of_nat (length start))
      = Some (MCL_OK, (start @ s) @ rest', size_of_nat (length (start @ s)))"
    "length rest' + length s = length rest"
  using assms unfolding emits_def by blast

lemma emits_length: "emits k f s \<Longrightarrow> length s \<le> k"
  by (simp add: emits_def)

lemma emits_and_then:
  assumes "emits k f s" "emits l g t"
  shows "emits (k + l) (\<lambda>p offset. and_then (f p offset) g) (s @ t)"
proof (rule emitsI)
  show "length (s @ t) \<le> k + l" using emits_length [OF assms(1)] emits_length [OF assms(2)] by simp
next
  fix start rest :: "char list"
  assume small: "length start + length rest < 2 ^ 64" and room: "k + l < length rest"
  obtain r1 where r1: "f (start @ rest) (size_of_nat (length start))
      = Some (MCL_OK, (start @ s) @ r1, size_of_nat (length (start @ s)))" "length r1 + length s = length rest"
    using assms(1) small by (rule emitsE) (use room in simp)
  have fit: "length (start @ s) + length r1 < 2 ^ 64" using small r1(2) by simp
  have left: "l < length r1" using room r1(2) emits_length [OF assms(1)] by linarith
  obtain r2 where "g ((start @ s) @ r1) (size_of_nat (length (start @ s)))
      = Some (MCL_OK, ((start @ s) @ t) @ r2, size_of_nat (length ((start @ s) @ t)))" "length r2 + length t = length r1"
    using assms(2) fit left by (rule emitsE)
  then show "\<exists>rest'. and_then (f (start @ rest) (size_of_nat (length start))) g
      = Some (MCL_OK, (start @ s @ t) @ rest', size_of_nat (length (start @ s @ t)))
    \<and> length rest' + length (s @ t) = length rest"
    using r1 by (intro exI [of _ r2]) (simp add: and_then_def)
qed

lemma snprintf_at_text:
  assumes "out \<noteq> []" "length out < 2 ^ 31" "length out < length rest" "length start + length rest < 2 ^ 64"
  shows "snprintf_at (start @ rest) (size_of_nat (length start)) (size_of_nat (length out) + 1) out
    = Some (MCL_OK, start @ out @ NUL # drop (length out + 1) rest)"
proof -
  have at: "unat (size_of_nat (length start)) = length start" using assms(4) by (intro unat_size_of_nat) simp
  have len: "unat (size_of_nat (length out) + 1) = length out + 1"
    using assms(2) by (intro unat_succ_length) simp
  have "string_util_snprintf rest (size_of_nat (length out) + 1) out
      = Some (MCL_OK, out @ NUL # drop (length out + 1) rest)"
    using assms(1-3) len by (intro string_util_snprintf_fits) simp_all
  then show ?thesis by (simp add: snprintf_at_def at)
qed

text \<open>A step that formats \<open>out\<close> and reports its length.\<close>

lemma emits_format:
  assumes "length out = k" "0 < k" "k < 2 ^ 31" "line_len = size_of_nat k"
    and "\<And>p offset. f p offset = do {
      (code, p1) \<leftarrow> snprintf_at p offset (line_len + 1) out;
      if code \<noteq> MCL_OK then Some (code, p1, offset) else Some (MCL_OK, p1, offset + line_len)}"
  shows "emits k f out"
proof (rule emitsI)
  fix start rest :: "char list"
  assume "length start + length rest < 2 ^ 64" "k < length rest"
  then have "snprintf_at (start @ rest) (size_of_nat (length start)) (line_len + 1) out
    = Some (MCL_OK, start @ out @ NUL # drop (length out + 1) rest)"
    unfolding assms(4) assms(1) [symmetric] using assms(1-3) by (intro snprintf_at_text) auto
  then show "\<exists>rest'. f (start @ rest) (size_of_nat (length start))
      = Some (MCL_OK, (start @ out) @ rest', size_of_nat (length (start @ out)))
    \<and> length rest' + length out = length rest"
    using assms(1) \<open>k < length rest\<close>
    by (intro exI [of _ "NUL # drop (length out + 1) rest"]) (simp add: assms(4,5))
qed (simp add: assms(1))

lemma length_NEW_LINE [simp]: "length NEW_LINE = 2" by (simp add: NEW_LINE_def)

lemma is_text_NEW_LINE [simp]: "is_text NEW_LINE" by (simp add: NEW_LINE_def is_text_def)

definition open_line :: "string \<Rightarrow> string" where "open_line b = ''--'' @ b @ NEW_LINE"
definition close_line :: "string \<Rightarrow> string" where "close_line b = ''--'' @ b @ ''--'' @ NEW_LINE"

lemma emits_opening [emits_intros]:
  assumes "is_text b" "length b = 22"
  shows "emits 26 (\<lambda>p offset. add_boundary p offset (b @ NUL # xs) MCL_OPEN_BOUNDARY) (open_line b)"
  using chars_of_text [OF assms(1), of xs] assms(2)
  by (intro emits_format [where line_len = 26]) (simp_all add: add_boundary_def open_line_def request_sizes)

lemma emits_closing [emits_intros]:
  assumes "is_text b" "length b = 22"
  shows "emits 28 (\<lambda>p offset. add_boundary p offset (b @ NUL # xs) MCL_CLOSE_BOUNDARY) (close_line b)"
  using chars_of_text [OF assms(1), of xs] assms(2)
  by (intro emits_format [where line_len = 28]) (simp_all add: add_boundary_def close_line_def request_sizes)

lemma emits_info [emits_intros]:
  assumes "is_text n" "is_text v" "length n + length v + 4 < 2 ^ 31"
    and "line_length = size_of_nat (length n + length v + 4)"
  shows "emits (length n + length v + 4)
    (\<lambda>p offset. add_content_info p offset (cstring n) (v @ NUL # xs) line_length None)
    (n @ '': '' @ v @ NEW_LINE)"
proof (rule emits_format [where line_len = line_length])
  show "add_content_info p offset (cstring n) (v @ NUL # xs) line_length None = do {
    (code, p1) \<leftarrow> snprintf_at p offset (line_length + 1) (n @ '': '' @ v @ NEW_LINE);
    if code \<noteq> MCL_OK then Some (code, p1, offset) else Some (MCL_OK, p1, offset + line_length)}" for p offset
    using chars_of_cstring [OF assms(1)] chars_of_text [OF assms(2), of xs]
    by (simp add: add_content_info_def MCL_NULL_CHAR_SIZE_def)
qed (use assms(3,4) in simp_all)

lemma emits_multipart [emits_intros]:
  assumes "is_text b" "length b = 22"
  shows "emits 65 (\<lambda>p offset. add_content_info p offset (cstring ''Content-Type'') (cstring ''multipart/related'')
      CONTENT_TYPE_LINE_LENGTH (Some (b @ NUL # xs)))
    (''Content-Type: multipart/related;boundary='' @ b @ NEW_LINE)"
proof (rule emits_format [where line_len = CONTENT_TYPE_LINE_LENGTH])
  fix p offset
  have n: "chars_of (cstring ''Content-Type'') = Some ''Content-Type''"
    "chars_of (cstring ''multipart/related'') = Some ''multipart/related''"
    by (rule chars_of_cstring, simp)+
  show "add_content_info p offset (cstring ''Content-Type'') (cstring ''multipart/related'')
      CONTENT_TYPE_LINE_LENGTH (Some (b @ NUL # xs)) = do {
    (code, p1) \<leftarrow> snprintf_at p offset (CONTENT_TYPE_LINE_LENGTH + 1) (''Content-Type: multipart/related;boundary='' @ b @ NEW_LINE);
    if code \<noteq> MCL_OK then Some (code, p1, offset) else Some (MCL_OK, p1, offset + CONTENT_TYPE_LINE_LENGTH)}"
    unfolding add_content_info_def n option.case Option.bind.bind_lunit chars_of_text [OF assms(1)]
    by (simp add: MCL_NULL_CHAR_SIZE_def)
qed (use assms(2) in \<open>simp_all add: CONTENT_TYPE_LINE_LENGTH_def\<close>)

lemma emits_blank_line [emits_intros]: "emits 2 add_blank_line NEW_LINE"
proof (rule emitsI)
  fix start rest :: "char list"
  assume small: "length start + length rest < 2 ^ 64" and room: "2 < length rest"
  have at: "unat (size_of_nat (length start)) = length start" using small by (intro unat_size_of_nat) simp
  have at2: "unat (size_of_nat (length start) + NEW_LINE_LENGTH) = length start + 2"
    using small room by (subst unat_add_less) (simp_all add: at NEW_LINE_LENGTH_def)
  obtain a b c r where rest: "rest = a # b # c # r"
    using room by (metis Suc_1 length_greater_0_conv less_trans list.size(3) neq_Nil_conv not_less_iff_gr_or_eq numeral_2_eq_2 length_Cons not_less_eq zero_less_Suc)
  have "string_util_memcpy (start @ rest) (length start) NEW_LINE NEW_LINE_LENGTH = Some (start @ NEW_LINE @ c # r)"
    by (simp add: string_util_memcpy_def NEW_LINE_LENGTH_def write_at_def rest NEW_LINE_def)
  moreover have "write_at (start @ NEW_LINE @ c # r) (length start + 2) [NUL] = Some (start @ NEW_LINE @ NUL # r)"
    by (simp add: write_at_def NEW_LINE_def)
  ultimately show "\<exists>rest'. add_blank_line (start @ rest) (size_of_nat (length start))
      = Some (MCL_OK, (start @ NEW_LINE) @ rest', size_of_nat (length (start @ NEW_LINE)))
    \<and> length rest' + length NEW_LINE = length rest"
    by (intro exI [of _ "NUL # r"]) (simp add: add_blank_line_def at at2 rest Let_def, simp add: NEW_LINE_LENGTH_def)
qed simp

lemma emits_meta [emits_intros]:
  assumes "says meta m"
  shows "emits (length m + 2) (\<lambda>p offset. add_meta p offset meta) (m @ NEW_LINE)"
proof -
  have "emits (length m) (\<lambda>p offset. do {
      b \<leftarrow> string_buffer meta;
      p1 \<leftarrow> string_util_memcpy p (unat offset) b (string_length meta);
      Some (MCL_OK, p1, offset + string_length meta)}) m"
  proof (rule emitsI)
    fix start rest :: "char list"
    assume small: "length start + length rest < 2 ^ 64" and room: "length m < length rest"
    obtain xs where meta: "string_buffer meta = Some (m @ NUL # xs)" "string_length meta = size_of_nat (length m)"
      "unat (size_of_nat (length m)) = length m"
      using assms by (auto simp: says_def unat_size_of_nat)
    have at: "unat (size_of_nat (length start)) = length start" using small by (intro unat_size_of_nat) simp
    show "\<exists>rest'. do {
        b \<leftarrow> string_buffer meta;
        p1 \<leftarrow> string_util_memcpy (start @ rest) (unat (size_of_nat (length start))) b (string_length meta);
        Some (MCL_OK, p1, size_of_nat (length start) + string_length meta)}
      = Some (MCL_OK, (start @ m) @ rest', size_of_nat (length (start @ m)))
      \<and> length rest' + length m = length rest"
      using room by (intro exI [of _ "drop (length m) rest"])
        (simp add: meta at string_util_memcpy_def write_at_def)
  qed simp
  from emits_and_then [OF this emits_blank_line] show ?thesis
    by (simp add: and_then_def add_meta_def bind_assoc)
qed

text \<open>A callback copies the text \<open>xs\<close> for the size \<open>n\<close>.\<close>

definition copies :: "payload_copy_callback_t \<Rightarrow> mcl_size_t \<Rightarrow> string \<Rightarrow> bool" where
  "copies copy n xs \<longleftrightarrow> length xs \<le> unat n \<and> (\<forall>rest. unat n \<le> length rest \<longrightarrow>
    (\<exists>rest'. copy rest n = Some (xs @ rest', size_of_nat (length xs)) \<and> length rest' + length xs = length rest))"

lemma emits_payload [emits_intros]:
  assumes "copies copy n xs"
  shows "emits (unat n) (\<lambda>p offset. add_payload p offset copy n) xs"
proof (rule emitsI)
  show "length xs \<le> unat n" using assms by (simp add: copies_def)
next
  fix start rest :: "char list"
  assume small: "length start + length rest < 2 ^ 64" and room: "unat n < length rest"
  have at: "unat (size_of_nat (length start)) = length start" using small by (intro unat_size_of_nat) simp
  obtain rest' where "copy rest n = Some (xs @ rest', size_of_nat (length xs))" "length rest' + length xs = length rest"
    using assms room unfolding copies_def by (meson less_imp_le)
  then show "\<exists>rest'. add_payload (start @ rest) (size_of_nat (length start)) copy n
      = Some (MCL_OK, (start @ xs) @ rest', size_of_nat (length (start @ xs)))
    \<and> length rest' + length xs = length rest"
    by (simp add: add_payload_def at)
qed
section \<open>The buffer and its growth\<close>

text \<open>A request in good order with the boundary \<open>b\<close>: the payload has the size the request says,
  the offset is inside of it, and a request that may grow has not outgrown its limit.\<close>

definition request_ok :: "http_request_t \<Rightarrow> string \<Rightarrow> bool" where
  "request_ok r b \<longleftrightarrow>
    unat (payload_offset r) \<le> unat (payload_size r)
    \<and> (case payload r of None \<Rightarrow> payload_size r = 0 | Some p \<Rightarrow> length p = unat (payload_size r))
    \<and> unat (payload_size r) < 2 ^ 62 \<and> unat (max_http_payload_size r) < 2 ^ 62
    \<and> (resize_enabled r \<longrightarrow> payload_size r \<le> max_http_payload_size r)
    \<and> (\<exists>s. boundary r = Some s \<and> says s b) \<and> length b = 22"

text \<open>What has been written so far.\<close>

definition body :: "http_request_t \<Rightarrow> string" where
  "body r = (case payload r of None \<Rightarrow> [] | Some p \<Rightarrow> take (unat (payload_offset r)) p)"

definition payload_blocks :: "http_request_t \<Rightarrow> int" where
  "payload_blocks r = (if payload r = None then 0 else 1)"

lemma body_length: "request_ok r b \<Longrightarrow> length (body r) = unat (payload_offset r)"
  by (cases "payload r") (auto simp: request_ok_def body_def)

text \<open>A request never outgrows its limit.\<close>

lemma body_within_limit: "request_ok r b \<Longrightarrow> resize_enabled r \<Longrightarrow> length (body r) \<le> unat (max_http_payload_size r)"
  by (simp add: body_length) (auto simp: request_ok_def word_le_nat_alt)

text \<open>The rounding of the growth formula costs at most a hundredth at every operation.\<close>

lemma fl_bounds: "0 \<le> x \<Longrightarrow> 99 / 100 * x \<le> fl x" "0 \<le> x \<Longrightarrow> fl x \<le> 101 / 100 * x"
proof -
  assume x: "0 \<le> x"
  have "99 / 100 * x \<le> x * (1 - 1 / 2 ^ 53)" "x * (1 + 1 / 2 ^ 53) \<le> 101 / 100 * x"
    using x by (simp_all add: algebra_simps)
  then show "99 / 100 * x \<le> fl x" "fl x \<le> 101 / 100 * x"
    using fl_lower [OF x] fl_upper [OF x] by linarith+
qed

lemma growth_formula:
  assumes "0 \<le> a" "0 < b"
  shows "99 / 100 * (99 / 100 * (3 / 2 * (99 / 100 * (99 / 100 * a + b))))
      \<le> fl (fl (fl (fl (a / b) + 1) * (3 / 2)) * b)"
    and "fl (fl (fl (fl (a / b) + 1) * (3 / 2)) * b)
      \<le> 101 / 100 * (101 / 100 * (3 / 2 * (101 / 100 * (101 / 100 * a + b))))"
proof -
  obtain q where q: "q = fl (a / b)" "0 \<le> q" "99 / 100 * (a / b) \<le> q" "q \<le> 101 / 100 * (a / b)"
    using fl_bounds [of "a / b"] fl_nonneg [of "a / b"] assms by auto
  obtain s where s: "s = fl (q + 1)" "0 \<le> s" "99 / 100 * (q + 1) \<le> s" "s \<le> 101 / 100 * (q + 1)"
    using fl_bounds [of "q + 1"] fl_nonneg [of "q + 1"] q(2) by auto
  obtain t where t: "t = fl (s * (3 / 2))" "0 \<le> t" "99 / 100 * (s * (3 / 2)) \<le> t" "t \<le> 101 / 100 * (s * (3 / 2))"
    using fl_bounds [of "s * (3 / 2)"] fl_nonneg [of "s * (3 / 2)"] s(2) by auto
  have qb: "99 / 100 * a \<le> q * b" "q * b \<le> 101 / 100 * a"
    using mult_right_mono [OF q(3), of b] mult_right_mono [OF q(4), of b] assms(2) by simp_all
  have sb: "99 / 100 * (q * b + b) \<le> s * b" "s * b \<le> 101 / 100 * (q * b + b)"
    using mult_right_mono [OF s(3), of b] mult_right_mono [OF s(4), of b] assms(2)
    by (simp_all add: algebra_simps)
  have tb: "99 / 100 * (3 / 2 * (s * b)) \<le> t * b" "t * b \<le> 101 / 100 * (3 / 2 * (s * b))"
    using mult_right_mono [OF t(3), of b] mult_right_mono [OF t(4), of b] assms(2)
    by (simp_all add: algebra_simps)
  have v: "99 / 100 * (t * b) \<le> fl (t * b)" "fl (t * b) \<le> 101 / 100 * (t * b)"
    using fl_bounds [of "t * b"] t(2) assms(2) by auto
  obtain x y z where xyz: "x = q * b" "y = s * b" "z = t * b" by blast
  have chain: "99 / 100 * a \<le> x" "x \<le> 101 / 100 * a" "99 / 100 * (x + b) \<le> y" "y \<le> 101 / 100 * (x + b)"
    "99 / 100 * (3 / 2 * y) \<le> z" "z \<le> 101 / 100 * (3 / 2 * y)" "99 / 100 * z \<le> fl z" "fl z \<le> 101 / 100 * z"
    using qb sb tb v by (simp_all only: xyz)
  have whole: "fl (fl (fl (fl (a / b) + 1) * (3 / 2)) * b) = fl z"
    by (simp only: q(1) [symmetric] s(1) [symmetric] t(1) [symmetric] xyz)
  show "99 / 100 * (99 / 100 * (3 / 2 * (99 / 100 * (99 / 100 * a + b))))
      \<le> fl (fl (fl (fl (a / b) + 1) * (3 / 2)) * b)"
    unfolding whole using chain(1,3,5,7) by (simp add: field_simps)
  show "fl (fl (fl (fl (a / b) + 1) * (3 / 2)) * b)
      \<le> 101 / 100 * (101 / 100 * (3 / 2 * (101 / 100 * (101 / 100 * a + b))))"
    unfolding whole using chain(2,4,6,8) by (simp add: field_simps)
qed

lemma growth_room:
  assumes "99 / 100 * (99 / 100 * (3 / 2 * (99 / 100 * (99 / 100 * a + b)))) \<le> v"
    "99 / 100 * x \<le> a" "99 / 100 * y \<le> b" "0 \<le> x" "0 \<le> y"
  shows "y + x \<le> (v :: rat)"
  using assms by (simp add: field_simps)

lemma size_of_double_between:
  assumes "of_nat n \<le> x" "x < 2 ^ 64"
  shows "\<exists>s. size_of_double x = Some s \<and> n \<le> unat s"
proof -
  have x: "0 \<le> x" using assms(1) of_nat_0_le_iff [of n] by (rule order_trans [rotated])
  have "int n \<le> \<lfloor>x\<rfloor>" using assms(1) by (simp add: le_floor_iff)
  moreover have "\<lfloor>x\<rfloor> < 2 ^ 64" using assms(2) by (simp add: floor_less_iff)
  moreover have "0 \<le> \<lfloor>x\<rfloor>" using x by simp
  ultimately have "unat (word_of_int \<lfloor>x\<rfloor> :: mcl_size_t) = nat \<lfloor>x\<rfloor>" "n \<le> nat \<lfloor>x\<rfloor>"
    by (simp_all add: unat_eq_nat_uint uint_word_of_int nat_eq_iff le_nat_iff)
  then show ?thesis unfolding size_of_double_def if_P [OF conjI [OF x assms(2)]] by simp
qed

text \<open>The new size has room for the old one and the request.\<close>

lemma grown_size_enough:
  assumes "0 < unat req" "unat req < 2 ^ 62" "unat ps < 2 ^ 62"
  shows "\<exists>n. grown_size req ps = Some n \<and> unat ps + unat req \<le> unat n"
proof -
  obtain a where a: "a = fl (of_nat (unat req))" "99 / 100 * of_nat (unat req) \<le> a" "a \<le> 101 / 100 * of_nat (unat req)" "0 \<le> a"
    by (rule that [OF refl fl_bounds(1) fl_bounds(2) fl_nonneg]) (rule of_nat_0_le_iff)+
  obtain b where b: "b = fl (of_nat (unat ps))" "99 / 100 * of_nat (unat ps) \<le> b" "b \<le> 101 / 100 * of_nat (unat ps)"
    by (rule that [OF refl fl_bounds(1) fl_bounds(2)]) (rule of_nat_0_le_iff)+
  have one: "1 \<le> (of_nat (unat req) :: rat)" using of_nat_mono [of 1 "unat req"] assms(1) by (simp only: of_nat_1 Suc_le_eq One_nat_def)
  have req: "(of_nat (unat req) :: rat) < 2 ^ 62" and ps: "(of_nat (unat ps) :: rat) < 2 ^ 62"
    using assms(2,3) by (metis of_nat_less_iff of_nat_numeral of_nat_power)+
  show ?thesis
  proof (cases "ps = 0")
    case True
    obtain c where c: "c = fl (a * (3 / 2))" "99 / 100 * (a * (3 / 2)) \<le> c" "c \<le> 101 / 100 * (a * (3 / 2))" "0 \<le> c"
      using fl_bounds [of "a * (3 / 2)"] fl_nonneg [of "a * (3 / 2)"] a(4) by auto
    have d: "99 / 100 * (c + 1) \<le> fl (c + 1)" "fl (c + 1) \<le> 101 / 100 * (c + 1)"
      using fl_bounds [of "c + 1"] c(4) by auto
    have low: "of_nat (unat req) \<le> fl (c + 1)" using a(2) c(2) d(1) one by (simp add: field_simps)
    have high: "fl (c + 1) < 2 ^ 64" using a(3) c(3) d(2) req by simp
    have "grown_size req ps = size_of_double (fl (c + 1))"
      using True by (simp add: grown_size_def Let_def a(1) c(1) GROWTH_FACTOR_def)
    then show ?thesis
      using size_of_double_between [OF low high] True by simp
  next
    case False
    then have "1 \<le> unat ps" by (simp add: Suc_le_eq unat_gt_0)
    then have "1 \<le> (of_nat (unat ps) :: rat)" using of_nat_mono [of 1 "unat ps"] by (simp only: of_nat_1)
    then have pos: "0 < b" using b(2) by simp
    let ?v = "fl (fl (fl (fl (a / b) + 1) * (3 / 2)) * b)"
    have low: "of_nat (unat ps + unat req) \<le> ?v"
      unfolding of_nat_add by (rule growth_room [OF growth_formula(1) [OF a(4) pos] a(2) b(2)]) (rule of_nat_0_le_iff)+
    have high: "?v < 2 ^ 64"
      using growth_formula(2) [OF a(4) pos] a(3) b(3) req ps by simp
    have "grown_size req ps = size_of_double ?v"
      using False by (simp add: grown_size_def Let_def a(1) b(1) GROWTH_FACTOR_def)
    then show ?thesis using size_of_double_between [OF low high] by simp
  qed
qed

lemma growing_live:
  "resize_payload r n w = (ok, r1, w1) \<Longrightarrow> n \<noteq> 0 \<Longrightarrow>
    live w1 - payload_blocks r1 = live w - payload_blocks r"
  by (auto simp: resize_payload_def memory_reallocate_def memory_malloc_def memory_realloc_def
      payload_blocks_def memory_release_def split: option.splits prod.splits if_splits)

lemma length_resized [simp]: "length (resized w p n) = n"
  by (auto simp: resized_def Let_def split: option.splits)

lemma take_resized: "k \<le> n \<Longrightarrow> k \<le> length xs \<Longrightarrow> take k (resized w (Some xs) n) = take k xs"
  by (simp add: resized_def Let_def take_append min_def)

text \<open>A block that is resized keeps what has been written; a refused one is gone.\<close>

lemma resize_payload_granted:
  assumes "resize_payload r n w = (True, r1, w1)" "request_ok r b" "payload_offset r \<le> n"
    and "unat n < 2 ^ 62" "resize_enabled r \<longrightarrow> n \<le> max_http_payload_size r"
  shows "request_ok r1 b" "body r1 = body r" "r1 = r\<lparr>payload := payload r1, payload_size := n\<rparr>"
    "payload r1 \<noteq> None"
proof -
  have r1: "r1 = r\<lparr>payload := Some (resized w (payload r) (unat n)), payload_size := n\<rparr>"
    using assms(1) by (auto simp: resize_payload_def split: option.splits prod.splits)
  then show "r1 = r\<lparr>payload := payload r1, payload_size := n\<rparr>" "payload r1 \<noteq> None" by simp_all
  show "request_ok r1 b" using assms(2-5) by (auto simp: r1 request_ok_def word_le_nat_alt)
  show "body r1 = body r"
  proof (cases "payload r")
    case None
    then have "unat (payload_offset r) \<le> unat (payload_size r)" "payload_size r = 0"
      using assms(2) unfolding request_ok_def by (elim conjE, simp)+
    then have "unat (payload_offset r) = 0" by (simp only: unat_0 le_zero_eq)
    then have "payload_offset r = 0" by (simp only: unat_eq_0)
    then show ?thesis using None by (simp add: r1 body_def)
  next
    case (Some xs)
    then have "length xs = unat (payload_size r)" "unat (payload_offset r) \<le> unat (payload_size r)"
      using assms(2) by (simp_all add: request_ok_def)
    then show ?thesis using Some assms(3) by (simp add: r1 body_def take_resized word_le_nat_alt)
  qed
qed

lemma resize_payload_refused:
  "resize_payload r n w = (False, r1, w1) \<Longrightarrow> r1 = r\<lparr>payload := None\<rparr>"
  by (auto simp: resize_payload_def split: option.splits prod.splits)

text \<open>What making room comes to: there is room afterwards, or the request is as it was, or memory has
  run out and the payload is gone.\<close>

definition room_made ::
    "http_request_t \<Rightarrow> nat \<Rightarrow> string \<Rightarrow> E_MCL_ERROR_CODE \<Rightarrow> http_request_t \<Rightarrow> bool" where
  "room_made r n b code r1 \<longleftrightarrow>
    (code = MCL_OK \<and> request_ok r1 b \<and> body r1 = body r \<and> payload r1 \<noteq> None
      \<and> r1 = r\<lparr>payload := payload r1, payload_size := payload_size r1\<rparr>
      \<and> unat (payload_offset r) + n \<le> unat (payload_size r1))
    \<or> (code = MCL_HTTP_REQUEST_NO_MORE_SPACE \<and> r1 = r)
    \<or> (code = MCL_OUT_OF_MEMORY \<and> r1 = r\<lparr>payload := None\<rparr>)"

lemma room_made_by_resizing:
  assumes "resize_payload r n w = (ok, r1, w1)" "request_ok r b" "unat (payload_offset r) + k \<le> unat n"
    and "unat n < 2 ^ 62" "resize_enabled r \<longrightarrow> n \<le> max_http_payload_size r"
  shows "room_made r k b (if ok then MCL_OK else MCL_OUT_OF_MEMORY) r1"
proof (cases ok)
  case True
  have le: "payload_offset r \<le> n" using assms(3) by (simp add: word_le_nat_alt)
  have granted: "resize_payload r n w = (True, r1, w1)" using assms(1) True by simp
  note g = resize_payload_granted [OF granted assms(2) le assms(4,5)]
  have size1: "payload_size r1 = n" by (subst g(3)) simp
  have "r1 = r\<lparr>payload := payload r1, payload_size := payload_size r1\<rparr>" unfolding size1 by (rule g(3))
  then show ?thesis using g(1,2,4) size1 assms(3) True unfolding room_made_def by simp
next
  case False
  then show ?thesis using resize_payload_refused assms(1) by (auto simp: room_made_def)
qed

lemma room_made_already:
  assumes "request_ok r b" "0 < k" "unat (payload_offset r) + k \<le> unat (payload_size r)"
  shows "room_made r k b MCL_OK r"
  using assms by (auto simp: room_made_def request_ok_def split: option.splits)

lemma resize_makes_room:
  assumes "request_ok r b" "0 < unat req" "unat req < 2 ^ 62"
  shows "\<exists>code r1 w1. resize_payload_buffer_if_necessary req r False w = Some (code, r1, w1)
    \<and> room_made r (unat req) b code r1 \<and> live w1 - payload_blocks r1 = live w - payload_blocks r"
proof -
  have ok: "unat (payload_offset r) \<le> unat (payload_size r)" "unat (payload_size r) < 2 ^ 62"
    "unat (max_http_payload_size r) < 2 ^ 62" "resize_enabled r \<longrightarrow> payload_size r \<le> max_http_payload_size r"
    using assms(1) by (simp_all add: request_ok_def)
  have left: "unat (payload_size r - payload_offset r) = unat (payload_size r) - unat (payload_offset r)"
    using ok(1) by (simp add: unat_sub word_le_nat_alt)
  obtain n where n: "grown_size req (payload_size r) = Some n" "unat (payload_size r) + unat req \<le> unat n"
    using grown_size_enough [OF assms(2,3) ok(2)] by blast
  consider "req \<le> payload_size r - payload_offset r"
    | (grow) "req > payload_size r - payload_offset r" "n \<le> max_http_payload_size r" "resize_enabled r"
    | (full) "req > payload_size r - payload_offset r" "\<not> (n \<le> max_http_payload_size r \<and> resize_enabled r)"
        "req \<le> max_http_payload_size r - payload_offset r" "resize_enabled r"
    | (no) "req > payload_size r - payload_offset r" "\<not> (n \<le> max_http_payload_size r \<and> resize_enabled r)"
        "\<not> (req \<le> (if resize_enabled r then max_http_payload_size r - payload_offset r
          else payload_size r - payload_offset r) \<and> resize_enabled r)"
    using not_le by (cases "resize_enabled r") (simp_all, blast+)
  then show ?thesis
  proof cases
    case 1
    then have "unat (payload_offset r) + unat req \<le> unat (payload_size r)"
      using left ok(1) by (simp add: word_le_nat_alt)
    note room = room_made_already [OF assms(1,2) this]
    have "\<not> payload_size r - payload_offset r < req" using 1 by (simp only: not_less)
    then have "resize_payload_buffer_if_necessary req r False w = Some (MCL_OK, r, w)"
      by (simp add: resize_payload_buffer_if_necessary_def Let_def)
    then show ?thesis using room by blast
  next
    case grow
    obtain g r1 w1 where g: "resize_payload r n w = (g, r1, w1)" by (rule prod_cases3)
    have nz: "n \<noteq> 0" using n(2) assms(2) by (metis add_leD2 not_less unat_0)
    have "unat n < 2 ^ 62" using grow(2) ok(3) by (simp add: word_le_nat_alt)
    from room_made_by_resizing [OF g assms(1) _ this, of "unat req"] growing_live [OF g nz]
    show ?thesis using grow n ok(1) g by (simp add: resize_payload_buffer_if_necessary_def)
  next
    case full
    obtain g r1 w1 where g: "resize_payload r (max_http_payload_size r) w = (g, r1, w1)" by (rule prod_cases3)
    have "unat (payload_offset r) \<le> unat (max_http_payload_size r)"
      using ok(1,4) full(4) by (simp add: word_le_nat_alt)
    then have fits: "unat (payload_offset r) + unat req \<le> unat (max_http_payload_size r)"
      using full(3) by (simp add: word_le_nat_alt unat_sub)
    then have nz: "max_http_payload_size r \<noteq> 0" using assms(2) by (metis add_leD2 not_less unat_0)
    from room_made_by_resizing [OF g assms(1) fits ok(3)] growing_live [OF g nz]
    show ?thesis using full n g by (simp add: resize_payload_buffer_if_necessary_def)
  next
    case no
    then show ?thesis using n by (simp add: resize_payload_buffer_if_necessary_def room_made_def not_less Let_def split: if_splits)
  qed
qed

text \<open>While the allocator refuses nothing, growing does not fail for memory.\<close>

lemma calm_reallocate:
  "memory_reallocate q n w = (p, w') \<Longrightarrow> upcoming w = [] \<Longrightarrow> upcoming w' = [] \<and> (n \<noteq> 0 \<longrightarrow> p \<noteq> None)"
  by (auto simp: memory_reallocate_def memory_malloc_def memory_realloc_def split: option.splits if_splits)

lemma calm_resize_payload:
  "resize_payload r n w = (ok, r', w') \<Longrightarrow> upcoming w = [] \<Longrightarrow> upcoming w' = [] \<and> (n \<noteq> 0 \<longrightarrow> ok)"
  by (auto simp: resize_payload_def split: prod.splits option.splits dest!: calm_reallocate)

lemma calm_resize:
  assumes "resize_payload_buffer_if_necessary req r f w = Some (c, r', w')" "upcoming w = []"
  shows "upcoming w' = []"
  using assms by (auto simp: resize_payload_buffer_if_necessary_def Let_def bind_eq_Some_conv
      split: if_splits prod.splits dest!: calm_resize_payload)

lemma grown_size_nonzero:
  assumes "request_ok r b" "0 < unat req" "unat req < 2 ^ 62" "grown_size req (payload_size r) = Some n"
  shows "n \<noteq> 0"
proof
  assume "n = 0"
  moreover obtain m where "grown_size req (payload_size r) = Some m" "unat (payload_size r) + unat req \<le> unat m"
    using grown_size_enough [OF assms(2,3), of "payload_size r"] assms(1) by (auto simp: request_ok_def)
  ultimately show False using assms(2,4) by simp
qed

lemma no_limit_no_room:
  assumes "request_ok r b" "resize_enabled r" "max_http_payload_size r = 0"
  shows "payload_offset r = 0"
proof -
  have "payload_offset r \<le> payload_size r" "payload_size r \<le> max_http_payload_size r"
    using assms(1,2) by (simp_all add: request_ok_def word_le_nat_alt)
  then show ?thesis using assms(3) by simp
qed

lemma resize_is_granted:
  assumes "request_ok r b" "0 < unat req" "unat req < 2 ^ 62" "upcoming w = []"
    and "resize_payload_buffer_if_necessary req r False w = Some (c, r', w')"
  shows "c \<noteq> MCL_OUT_OF_MEMORY"
  using assms(2,4,5) grown_size_nonzero [OF assms(1-3)] no_limit_no_room [OF assms(1)]
  by (auto simp: resize_payload_buffer_if_necessary_def Let_def bind_eq_Some_conv
      split: if_splits prod.splits dest!: calm_resize_payload)

lemma last_resize_is_granted:
  assumes "request_ok r b" "upcoming w = []" "resize_payload_buffer_if_necessary 26 r True w = Some (c, r', w')"
  shows "c \<noteq> MCL_OUT_OF_MEMORY"
proof -
  have "unat (payload_offset r) < 2 ^ 62" using assms(1) by (simp add: request_ok_def)
  then have "unat (payload_offset r + 26) = unat (payload_offset r) + 26" by (subst unat_add_less) simp_all
  then have "payload_offset r + 26 \<noteq> 0" by (metis add_is_0 unat_0 zero_neq_numeral)
  then show ?thesis
    using assms(2,3) by (auto simp: resize_payload_buffer_if_necessary_def Let_def split: if_splits prod.splits
        dest!: calm_resize_payload)
qed

text \<open>Where the space that is available for a tuple is not exceeded, there is room.\<close>

lemma available_space_suffices:
  assumes "request_ok r b" "0 < unat req" "unat req < 2 ^ 62"
    and "unat req + unat (payload_offset r) \<le> unat (if resize_enabled r then max_http_payload_size r else payload_size r)"
    and "resize_payload_buffer_if_necessary req r False w = Some (code, r1, w1)"
  shows "code \<noteq> MCL_HTTP_REQUEST_NO_MORE_SPACE"
proof -
  have ok: "unat (payload_offset r) \<le> unat (payload_size r)" "unat (payload_size r) < 2 ^ 62"
    "resize_enabled r \<longrightarrow> payload_size r \<le> max_http_payload_size r"
    using assms(1) by (simp_all add: request_ok_def)
  have limit: "req \<le> (if resize_enabled r then max_http_payload_size r - payload_offset r
      else payload_size r - payload_offset r)"
    using assms(4) ok(1,3) by (auto simp: word_le_nat_alt unat_sub)
  obtain n where n: "grown_size req (payload_size r) = Some n"
    using grown_size_enough [OF assms(2,3) ok(2)] by blast
  show ?thesis
    using assms(5) limit n
    by (auto simp: resize_payload_buffer_if_necessary_def Let_def not_le split: if_splits prod.splits)
qed

section \<open>Boundaries are random words of the alphabet\<close>

lemma random_generate_number_runs:
  assumes "fills_buffers rand"
  obtains code x w1 where "random_generate_number rand z w = Some (code, x, w1)"
    "code \<in> {MCL_OK, MCL_FAIL}" "live w1 = live w"
proof -
  obtain r w1 where r: "rand 4 w = (r, w1)" by (cases "rand 4 w")
  then have "(\<forall>b. r = Some b \<longrightarrow> length b = 4) \<and> live w1 = live w"
    using assms [unfolded fills_buffers_def, rule_format, of 4 w] by simp
  then show ?thesis
    by (cases r) (auto intro!: that simp: random_generate_number_def security_generate_random_bytes_def
        r write_at_def)
qed

lemma read_boundary_character:
  "\<exists>c. read_at boundary_characters (unat (x mod BOUNDARY_CHARACTER_COUNT)) = Some c
    \<and> c \<in> set boundary_characters"
proof -
  have "unat (x mod 62) < 62" by (simp add: unat_mod_distrib)
  moreover have "length boundary_characters = 62" by (simp add: boundary_characters_def)
  ultimately show ?thesis by (simp add: read_at_def BOUNDARY_CHARACTER_COUNT_def)
qed

lemma boundary_loop_runs:
  assumes "fills_buffers rand"
  shows "i + n \<le> length b \<Longrightarrow> \<exists>code b' w'. boundary_loop rand n i b w = Some (code, b', w')
    \<and> code \<in> {MCL_OK, MCL_FAIL} \<and> live w' = live w
    \<and> (code = MCL_OK \<longrightarrow> (\<exists>t. b' = take i b @ t @ drop (i + n) b \<and> length t = n
        \<and> set t \<subseteq> set boundary_characters))"
proof (induction n arbitrary: i b w)
  case (Suc n)
  obtain code x w1 where x: "random_generate_number rand 0 w = Some (code, x, w1)"
    "code \<in> {MCL_OK, MCL_FAIL}" "live w1 = live w"
    using assms by (rule random_generate_number_runs)
  obtain c where c: "read_at boundary_characters (unat (x mod BOUNDARY_CHARACTER_COUNT)) = Some c"
    "c \<in> set boundary_characters" using read_boundary_character by blast
  have at: "write_at b i [c] = Some (take i b @ c # drop (i + 1) b)" using Suc.prems by (simp add: write_at_def)
  have long: "i + 1 + n \<le> length (take i b @ c # drop (i + 1) b)" using Suc.prems by simp
  have parts: "take (i + 1) (take i b @ c # drop (i + 1) b) = take i b @ [c]"
    "drop (i + 1 + n) (take i b @ c # drop (i + 1) b) = drop (i + Suc n) b"
    using Suc.prems by (simp_all add: take_Suc_conv_app_nth min_def add.commute)
  from Suc.IH [OF long, of w1] obtain code1 b1 w2 where run:
    "boundary_loop rand n (i + 1) (take i b @ c # drop (i + 1) b) w1 = Some (code1, b1, w2)"
    "code1 \<in> {MCL_OK, MCL_FAIL}" "live w2 = live w1"
    "code1 = MCL_OK \<Longrightarrow> \<exists>t. b1 = (take i b @ [c]) @ t @ drop (i + Suc n) b \<and> length t = n
        \<and> set t \<subseteq> set boundary_characters" unfolding parts by blast
  show ?case
  proof (cases "code = MCL_OK")
    case True
    have "\<exists>t. b1 = take i b @ t @ drop (i + Suc n) b \<and> length t = Suc n \<and> set t \<subseteq> set boundary_characters"
      if "code1 = MCL_OK"
    proof -
      obtain t where "b1 = (take i b @ [c]) @ t @ drop (i + Suc n) b" "length t = n" "set t \<subseteq> set boundary_characters"
        using run(4) [OF \<open>code1 = MCL_OK\<close>] by blast
      then show ?thesis using c(2) by (intro exI [of _ "c # t"]) simp
    qed
    then show ?thesis using True x run(1-3) c(1) at by simp
  qed (use x in auto)
qed simp

lemma boundary_characters_text: "set t \<subseteq> set boundary_characters \<Longrightarrow> is_text t"
proof -
  have "is_text boundary_characters" by (simp add: boundary_characters_def is_text_def)
  then show "set t \<subseteq> set boundary_characters \<Longrightarrow> is_text t" by (auto simp: is_text_def)
qed

lemma generate_random_boundary_runs:
  assumes "fills_buffers rand"
  shows "\<exists>code bnd w'. generate_random_boundary rand w = Some (code, bnd, w')
    \<and> (case bnd of
        Some s \<Rightarrow> code = MCL_OK \<and> blocks_of s = 2 \<and> live w' = live w + 2
          \<and> (\<exists>t. string_buffer s = Some (t @ [NUL]) \<and> says s t \<and> length t = 22 \<and> set t \<subseteq> set boundary_characters)
      | None \<Rightarrow> code \<in> {MCL_OUT_OF_MEMORY, MCL_FAIL} \<and> live w' = live w)"
proof (cases "two_blocks BOUNDARY_LENGTH w")
  case (Pair ok w1)
  have init: "string_initialize_new None BOUNDARY_LENGTH w =
    (if ok then Some (MCL_OK, Some \<lparr>string_buffer = Some (unwritten w 22 @ [NUL]), string_length = 22,
        string_type = MCL_STRING_COPY_DESTROY\<rparr>, w1)
     else Some (MCL_OUT_OF_MEMORY, None, w1))"
    using string_initialize_new_space [of BOUNDARY_LENGTH w] Pair by (simp add: BOUNDARY_LENGTH_def)
  show ?thesis
  proof (cases ok)
    case True
    obtain code b' w' where run: "boundary_loop rand 22 0 (unwritten w 22 @ [NUL]) w1 = Some (code, b', w')"
      "code \<in> {MCL_OK, MCL_FAIL}" "live w' = live w1"
      "code = MCL_OK \<Longrightarrow> \<exists>t. b' = t @ [NUL] \<and> length t = 22 \<and> set t \<subseteq> set boundary_characters"
      using boundary_loop_runs [OF assms, of 0 22 "unwritten w 22 @ [NUL]" w1] by auto
    have live1: "live w1 = live w + 2" using live_two_blocks [OF Pair] True by simp
    have gen: "generate_random_boundary rand w = (let s1 = \<lparr>string_buffer = Some b', string_length = 22,
        string_type = MCL_STRING_COPY_DESTROY\<rparr> in
      if code = MCL_OK then Some (code, Some s1, w') else Some (code, None, snd (string_destroy (Some s1) w')))"
      using init True run(1) by (simp add: generate_random_boundary_def BOUNDARY_LENGTH_def Let_def string_destroy_def)
    show ?thesis
    proof (cases "code = MCL_OK")
      case True
      then obtain t where "b' = t @ [NUL]" "length t = 22" "set t \<subseteq> set boundary_characters"
        using run(4) by blast
      then show ?thesis using True run(3) live1 boundary_characters_text [of t]
        by (auto simp: gen says_def blocks_of_def Let_def)
    next
      case False
      then show ?thesis using run(2,3) live1 by (simp add: gen string_blocks_def blocks_of_def)
    qed
  next
    case False
    then show ?thesis using init live_two_blocks [OF Pair] by (simp add: generate_random_boundary_def)
  qed
qed

section \<open>What the operations append\<close>

text \<open>A step that emits \<open>s\<close> in a request that has the room for it appends \<open>s\<close> to the body.\<close>

lemma emits_in_request:
  assumes "request_ok r b" "payload r = Some p" "emits k f s"
    and "unat (payload_offset r) + k < unat (payload_size r)"
  obtains p' offset' where "f p (payload_offset r) = Some (MCL_OK, p', offset')"
    "request_ok (r\<lparr>payload := Some p', payload_offset := offset'\<rparr>) b"
    "body (r\<lparr>payload := Some p', payload_offset := offset'\<rparr>) = body r @ s"
    "unat offset' = unat (payload_offset r) + length s"
proof -
  have ok: "unat (payload_offset r) \<le> unat (payload_size r)" "length p = unat (payload_size r)"
    "unat (payload_size r) < 2 ^ 62" using assms(1,2) by (simp_all add: request_ok_def)
  obtain start rest where p: "p = start @ rest" "length start = unat (payload_offset r)" "start = body r"
    using ok(1,2) assms(2) append_take_drop_id [of "unat (payload_offset r)" p]
    by (metis body_def length_take min.absorb2 option.simps(5))
  have off: "payload_offset r = size_of_nat (length start)" by (simp add: p(2))
  have sizes: "length start + length rest < 2 ^ 64" "k < length rest"
    using ok(2,3) assms(4) p(1,2) by auto
  obtain rest' where run: "f (start @ rest) (size_of_nat (length start))
      = Some (MCL_OK, (start @ s) @ rest', size_of_nat (length (start @ s)))" "length rest' + length s = length rest"
    using assms(3) sizes by (rule emitsE)
  have s: "length s \<le> k" using assms(3) by (rule emits_length)
  have off': "unat (size_of_nat (length (start @ s)) :: mcl_size_t) = length start + length s"
    using s sizes by (subst unat_size_of_nat) simp_all
  have fits: "unat (size_of_nat (length (start @ s)) :: mcl_size_t) \<le> unat (payload_size r)"
    "length ((start @ s) @ rest') = unat (payload_size r)"
    using s sizes off' ok(2) p(1) run(2) by simp_all
  show ?thesis
  proof (rule that)
    show "f p (payload_offset r) = Some (MCL_OK, (start @ s) @ rest', size_of_nat (length (start @ s)))"
      unfolding off p(1) by (rule run(1))
    show "request_ok (r\<lparr>payload := Some ((start @ s) @ rest'), payload_offset := size_of_nat (length (start @ s))\<rparr>) b"
      using assms(1) fits unfolding request_ok_def by simp
    show "body (r\<lparr>payload := Some ((start @ s) @ rest'), payload_offset := size_of_nat (length (start @ s))\<rparr>) = body r @ s"
      unfolding p(3) [symmetric] using off' by (simp add: body_def del: length_append)
    show "unat (size_of_nat (length (start @ s)) :: mcl_size_t) = unat (payload_offset r) + length s"
      using off' p(2) by simp
  qed
qed

lemma header_texts [simp]:
  "header_text HTTP_HEADER_CONTENT_TYPE = cstring ''Content-Type''"
  "header_text HTTP_HEADER_CONTENT_ID = cstring ''Content-ID''"
  "cstring (content_type_values ! index_in CONTENT_TYPE_MULTIPART_RELATED content_type_indices) = cstring ''multipart/related''"
  by (simp_all add: header_text_def http_header_names_def header_indices_def
      content_type_values_def content_type_indices_def)

definition content_line :: "string \<Rightarrow> string \<Rightarrow> string" where
  "content_line n v = n @ '': '' @ v @ NEW_LINE"

definition single_text :: "string \<Rightarrow> string \<Rightarrow> string \<Rightarrow> string \<Rightarrow> string" where
  "single_text b t i m = open_line b @ content_line ''Content-Type'' t @ content_line ''Content-ID'' i
    @ NEW_LINE @ m @ NEW_LINE"

definition sections_text :: "string \<Rightarrow> string \<Rightarrow> string \<Rightarrow> string \<Rightarrow> string \<Rightarrow> string" where
  "sections_text sb mt m pt xs =
    (''Content-Type: multipart/related;boundary='' @ sb @ NEW_LINE) @ NEW_LINE
    @ open_line sb @ content_line ''Content-Type'' mt @ NEW_LINE @ (m @ NEW_LINE)
    @ open_line sb @ content_line ''Content-Type'' pt @ NEW_LINE @ xs @ NEW_LINE
    @ close_line sb"

definition tuple_text :: "string \<Rightarrow> string \<Rightarrow> string \<Rightarrow> string \<Rightarrow> string \<Rightarrow> string \<Rightarrow> string" where
  "tuple_text b sb mt m pt xs = open_line b @ sections_text sb mt m pt xs"

lemma emits_content_line:
  assumes "is_text v" "length v < 2 ^ 30" "n \<in> {''Content-Type'', ''Content-ID''}"
    "line_length = size_of_nat (length n + 2) + size_of_nat (length v) + NEW_LINE_LENGTH"
  shows "emits (length n + length v + 4)
    (\<lambda>p offset. add_content_info p offset (cstring n) (v @ NUL # xs) line_length None) (content_line n v)"
proof -
  have "line_length = size_of_nat (length n + length v + 4)"
    by (simp add: assms(4) NEW_LINE_LENGTH_def)
  then show ?thesis
    unfolding content_line_def using assms(1-3) by (intro emits_info) auto
qed

lemma emits_tuple_sections:
  assumes "says meta m" "is_text mt" "is_text pt" "length mt < 2 ^ 30" "length pt < 2 ^ 30"
    "copies copy n xs" "is_text sb" "length sb = 22"
  shows "emits (187 + length mt + length m + length pt + unat n)
    (tuple_sections (sb @ NUL # r1) meta (mt @ NUL # r2) (size_of_nat (length mt)) copy n
      (pt @ NUL # r3) (size_of_nat (length pt)))
    (sections_text sb mt m pt xs)"
proof -
  note lines = emits_content_line [OF assms(2,4), of "''Content-Type''"]
    emits_content_line [OF assms(3,5), of "''Content-Type''"]
  have "emits (65 + (2 + (26 + (length ''Content-Type'' + length mt + 4 + (2 + ((length m + 2)
      + (26 + (length ''Content-Type'' + length pt + 4 + (2 + (unat n + (2 + 28)))))))))))
    (tuple_sections (sb @ NUL # r1) meta (mt @ NUL # r2) (size_of_nat (length mt)) copy n
      (pt @ NUL # r3) (size_of_nat (length pt)))
    (sections_text sb mt m pt xs)"
    unfolding tuple_sections_def sections_text_def header_texts
    by (rule emits_and_then [OF emits_multipart [OF assms(7,8)]
          emits_and_then [OF emits_blank_line
          emits_and_then [OF emits_opening [OF assms(7,8)]
          emits_and_then [OF lines(1)
          emits_and_then [OF emits_blank_line
          emits_and_then [OF emits_meta [OF assms(1)]
          emits_and_then [OF emits_opening [OF assms(7,8)]
          emits_and_then [OF lines(2)
          emits_and_then [OF emits_blank_line
          emits_and_then [OF emits_payload [OF assms(6)]
          emits_and_then [OF emits_blank_line emits_closing [OF assms(7,8)]]]]]]]]]]]])
      (simp_all add: CONTENT_TYPE_HEADER_LENGTH_def)
  then show ?thesis by (simp add: algebra_simps)
qed

section \<open>Adding the parts\<close>

lemma room_made_okE:
  assumes "room_made r n b MCL_OK r1"
  obtains p s rest where "request_ok r1 b" "body r1 = body r" "payload r1 = Some p"
    "payload_offset r1 = payload_offset r" "boundary r1 = Some s" "string_buffer s = Some (b @ NUL # rest)"
    "is_text b" "length b = 22" "unat (payload_offset r) + n \<le> unat (payload_size r1)"
proof -
  have r1: "request_ok r1 b" "body r1 = body r" "payload r1 \<noteq> None"
    "r1 = r\<lparr>payload := payload r1, payload_size := payload_size r1\<rparr>"
    "unat (payload_offset r) + n \<le> unat (payload_size r1)"
    using assms by (simp_all add: room_made_def)
  have "payload_offset r1 = payload_offset r" by (subst r1(4)) simp
  moreover obtain s rest where "boundary r1 = Some s" "string_buffer s = Some (b @ NUL # rest)" "is_text b" "length b = 22"
    using r1(1) by (auto simp: request_ok_def says_def)
  ultimately show ?thesis using r1(1-3,5) that by blast
qed

text \<open>The space that is reported for an overhead is there: a request for not more than it is granted
  or memory is out.\<close>

lemma no_more_space:
  assumes "request_ok r b" "unat req = unat overhead + k" "k < 2 ^ 61" "0 < unat overhead" "unat overhead < 2 ^ 61"
    and "resize_payload_buffer_if_necessary req r False w = Some (MCL_HTTP_REQUEST_NO_MORE_SPACE, r1, w1)"
  shows "unat (get_available_space r overhead) < k \<or> get_available_space r overhead = 0"
proof (rule ccontr)
  obtain limit where limit: "limit = (if resize_enabled r then max_http_payload_size r else payload_size r)" by simp
  assume "\<not> ?thesis"
  moreover have "get_available_space r overhead
      = (if MCL_SIZE_MAX - payload_offset r > overhead \<and> limit > payload_offset r + overhead
         then limit - payload_offset r - overhead else 0)"
    by (simp add: get_available_space_def limit Let_def)
  ultimately have fits: "payload_offset r + overhead < limit" "k \<le> unat (limit - payload_offset r - overhead)"
    by (auto split: if_splits)
  have ok: "unat (payload_offset r) < 2 ^ 62" using assms(1) by (simp add: request_ok_def)
  then have sum: "unat (payload_offset r + overhead) = unat (payload_offset r) + unat overhead"
    using assms(5) by (intro unat_add_less) simp
  have "unat (limit - (payload_offset r + overhead)) = unat limit - (unat (payload_offset r) + unat overhead)"
    using fits(1) sum by (subst unat_sub) (auto simp: word_less_nat_alt word_le_nat_alt)
  moreover have "k \<le> unat (limit - (payload_offset r + overhead))" using fits(2) by (simp only: diff_diff_eq)
  ultimately have "unat req + unat (payload_offset r) \<le> unat limit"
    using fits(1) sum by (simp add: assms(2) word_less_nat_alt)
  from available_space_suffices [OF assms(1) _ _ this [unfolded limit] assms(6)]
  show False using assms(2-5) by simp
qed

text \<open>Adding a data point with its meta data to a request appends exactly one part to the message,
  \<open>single_text\<close>: the boundary, the two content lines, a blank line, the meta data and the end of
  the line; nothing is written outside the payload, which may have grown up to its limit.  A
  request is refused, and left as it was, only for contents that exceed the space reported for
  them (with the 3 characters the reservation counts twice); when memory runs out the payload is gone.\<close>

theorem http_request_add_single_correct:
  assumes "request_ok r b" "says content_type t" "says content_id i" "says meta_string m"
    and "length t < 2 ^ 30" "length i < 2 ^ 30" "length m < 2 ^ 30"
  shows "\<exists>code r1 w1. http_request_add_single r content_type content_id meta_string w = Some (code, r1, w1)
    \<and> live w1 - payload_blocks r1 = live w - payload_blocks r
    \<and> (code = MCL_OK \<and> request_ok r1 b \<and> body r1 = body r @ single_text b t i m
      \<or> code = MCL_HTTP_REQUEST_NO_MORE_SPACE \<and> r1 = r
        \<and> (unat (http_request_get_available_space_for_single r) < length t + length i + length m + 3
          \<or> http_request_get_available_space_for_single r = 0)
      \<or> code = MCL_OUT_OF_MEMORY \<and> r1 = r\<lparr>payload := None\<rparr>)"
proof -
  let ?n = "OVERHEAD_FOR_SINGLE + string_length content_type + string_length content_id
      + string_length meta_string + NEW_LINE_LENGTH + MCL_NULL_CHAR_SIZE"
  have lens: "string_length content_type = size_of_nat (length t)" "string_length content_id = size_of_nat (length i)"
    "string_length meta_string = size_of_nat (length m)" "is_text t" "is_text i"
    using assms(2-4) by (simp_all add: says_def)
  obtain r1' r2' where bufs: "string_buffer content_type = Some (t @ NUL # r1')"
    "string_buffer content_id = Some (i @ NUL # r2')"
    using assms(2,3) by (auto simp: says_def)
  have "?n = size_of_nat (151 + length t + length i + length m)"
    by (simp add: lens request_sizes)
  then have n: "unat ?n = 151 + length t + length i + length m"
    using assms(5-7) by (simp only:) (subst unat_size_of_nat, simp_all)
  obtain code r1 w1 where room: "resize_payload_buffer_if_necessary ?n r False w = Some (code, r1, w1)"
    "room_made r (unat ?n) b code r1" "live w1 - payload_blocks r1 = live w - payload_blocks r"
    using resize_makes_room [OF assms(1), of ?n w] n assms(5-7) by auto
  show ?thesis
  proof (cases "code = MCL_OK")
    case False
    have over: "OVERHEAD_FOR_SINGLE = 148" by (simp add: request_sizes)
    have "(unat (http_request_get_available_space_for_single r) < length t + length i + length m + 3
          \<or> http_request_get_available_space_for_single r = 0)" if "code = MCL_HTTP_REQUEST_NO_MORE_SPACE"
      unfolding http_request_get_available_space_for_single_def
      by (rule no_more_space [OF assms(1)]) (use room(1) that n assms(5-7) in \<open>simp_all add: over\<close>)
    then show ?thesis using False room by (auto simp: http_request_add_single_def room_made_def)
  next
    case True
    obtain p bnd r3' where r1: "request_ok r1 b" "body r1 = body r" and p: "payload r1 = Some p"
      and off: "payload_offset r1 = payload_offset r"
      and b: "boundary r1 = Some bnd" "string_buffer bnd = Some (b @ NUL # r3')" "is_text b" "length b = 22"
      and space: "unat (payload_offset r) + unat ?n \<le> unat (payload_size r1)"
      using room(2) [unfolded True] by (rule room_made_okE)
    let ?f = "\<lambda>p offset. and_then (add_boundary p offset (b @ NUL # r3') MCL_OPEN_BOUNDARY) (\<lambda>p offset.
         and_then (add_content_info p offset (header_text HTTP_HEADER_CONTENT_TYPE) (t @ NUL # r1')
             (CONTENT_TYPE_HEADER_LENGTH + string_length content_type + NEW_LINE_LENGTH) None) (\<lambda>p offset.
         and_then (add_content_info p offset (header_text HTTP_HEADER_CONTENT_ID) (i @ NUL # r2')
             (CONTENT_ID_HEADER_LENGTH + string_length content_id + NEW_LINE_LENGTH) None) (\<lambda>p offset.
         and_then (add_blank_line p offset) (\<lambda>p offset.
         add_meta p offset meta_string))))"
    have "emits (26 + (length ''Content-Type'' + length t + 4 + (length ''Content-ID'' + length i + 4 + (2 + (length m + 2)))))
      ?f (single_text b t i m)"
      unfolding single_text_def header_texts
      by (rule emits_and_then [OF emits_opening [OF b(3,4)]
            emits_and_then [OF emits_content_line [OF lens(4) assms(5)]
            emits_and_then [OF emits_content_line [OF lens(5) assms(6)]
            emits_and_then [OF emits_blank_line emits_meta [OF assms(4)]]]]])
        (simp_all add: CONTENT_TYPE_HEADER_LENGTH_def CONTENT_ID_HEADER_LENGTH_def lens)
    then have emits: "emits (60 + length t + length i + length m) ?f (single_text b t i m)"
      by (simp add: algebra_simps)
    obtain p' offset' where done1: "?f p (payload_offset r1) = Some (MCL_OK, p', offset')"
      "request_ok (r1\<lparr>payload := Some p', payload_offset := offset'\<rparr>) b"
      "body (r1\<lparr>payload := Some p', payload_offset := offset'\<rparr>) = body r1 @ single_text b t i m"
      using r1(1) p emits by (rule emits_in_request) (use off space n in simp)
    have "http_request_add_single r content_type content_id meta_string w
      = Some (MCL_OK, r1\<lparr>payload := Some p', payload_offset := offset'\<rparr>, w1)"
      using room(1) True p b(1,2) bufs done1(1) by (simp add: http_request_add_single_def written_def)
    moreover have "payload_blocks (r1\<lparr>payload := Some p', payload_offset := offset'\<rparr>) = payload_blocks r1"
      using p by (simp add: payload_blocks_def)
    ultimately show ?thesis using done1(2,3) r1(2) room(3) by simp
  qed
qed

lemma http_request_add_tuple_runs:
  assumes "fills_buffers rand" "request_ok r b" "says meta m" "says meta_content_type mt"
    "says payload_content_type pt" "copies copy size1 xs"
    and "length m < 2 ^ 30" "length mt < 2 ^ 30" "length pt < 2 ^ 30" "unat size1 < 2 ^ 60"
  shows "\<exists>code r1 w1. http_request_add_tuple rand r meta meta_content_type copy size1 payload_content_type w
      = Some (code, r1, w1)
    \<and> live w1 - payload_blocks r1 = live w - payload_blocks r
    \<and> (code = MCL_OK \<and> request_ok r1 b \<and> (\<exists>sb. length sb = 22 \<and> set sb \<subseteq> set boundary_characters
          \<and> body r1 = body r @ tuple_text b sb mt m pt xs)
          \<and> length (body r) + 232 + length mt + length pt + unat size1 + length m \<le> unat (payload_size r1)
      \<or> code = MCL_HTTP_REQUEST_NO_MORE_SPACE \<and> r1 = r
        \<and> (unat (http_request_get_available_space_for_tuple r) < length mt + length pt + unat size1 + length m
          \<or> http_request_get_available_space_for_tuple r = 0)
      \<or> code = MCL_OUT_OF_MEMORY \<and> r1 = r\<lparr>payload := None\<rparr> \<and> upcoming w \<noteq> []
      \<or> code \<in> {MCL_OUT_OF_MEMORY, MCL_FAIL} \<and> request_ok r1 b \<and> body r1 = body r \<and> length (body r) + 232 \<le> unat (payload_size r1)
        \<and> (\<exists>w2 w3. generate_random_boundary rand w2 = Some (code, None, w3) \<and> (upcoming w = [] \<longrightarrow> upcoming w2 = [])))"
proof -
  let ?n = "OVERHEAD_FOR_TUPLE + string_length meta_content_type + string_length payload_content_type
      + size1 + string_length meta"
  have lens: "string_length meta_content_type = size_of_nat (length mt)"
    "string_length payload_content_type = size_of_nat (length pt)"
    "string_length meta = size_of_nat (length m)" "is_text mt" "is_text pt"
    using assms(3-5) by (simp_all add: says_def)
  obtain r1' r2' where bufs: "string_buffer meta_content_type = Some (mt @ NUL # r1')"
    "string_buffer payload_content_type = Some (pt @ NUL # r2')"
    using assms(4,5) by (auto simp: says_def)
  have "?n = size_of_nat (232 + length mt + length pt + unat size1 + length m)"
    by (simp add: lens request_sizes)
  then have n: "unat ?n = 232 + length mt + length pt + unat size1 + length m"
    using assms(7-10) by (simp only:) (subst unat_size_of_nat, simp_all)
  obtain code r1 w1 where room: "resize_payload_buffer_if_necessary ?n r False w = Some (code, r1, w1)"
    "room_made r (unat ?n) b code r1" "live w1 - payload_blocks r1 = live w - payload_blocks r"
    using resize_makes_room [OF assms(2), of ?n w] n assms(7-10) by auto
  show ?thesis
  proof (cases "code = MCL_OK")
    case False
    have over: "OVERHEAD_FOR_TUPLE = 232" by (simp add: request_sizes)
    have "(unat (http_request_get_available_space_for_tuple r) < length mt + length pt + unat size1 + length m
          \<or> http_request_get_available_space_for_tuple r = 0)" if "code = MCL_HTTP_REQUEST_NO_MORE_SPACE"
      unfolding http_request_get_available_space_for_tuple_def
      by (rule no_more_space [OF assms(2)]) (use room(1) that n assms(7-10) in \<open>simp_all add: over\<close>)
    moreover have "code = MCL_OUT_OF_MEMORY \<longrightarrow> upcoming w \<noteq> []"
      using resize_is_granted [OF assms(2) _ _ _ room(1)] n assms(7-10) by auto
    ultimately show ?thesis using False room by (auto simp: http_request_add_tuple_def room_made_def)
  next
    case True
    obtain p bnd r3' where r1: "request_ok r1 b" "body r1 = body r" and p: "payload r1 = Some p"
      and off: "payload_offset r1 = payload_offset r"
      and b: "boundary r1 = Some bnd" "string_buffer bnd = Some (b @ NUL # r3')" "is_text b" "length b = 22"
      and space: "unat (payload_offset r) + unat ?n \<le> unat (payload_size r1)"
      using room(2) [unfolded True] by (rule room_made_okE)
    let ?f = "\<lambda>p offset. add_boundary p offset (b @ NUL # r3') MCL_OPEN_BOUNDARY"
    obtain p1 offset1 where opened: "?f p (payload_offset r1) = Some (MCL_OK, p1, offset1)"
      "request_ok (r1\<lparr>payload := Some p1, payload_offset := offset1\<rparr>) b"
      "body (r1\<lparr>payload := Some p1, payload_offset := offset1\<rparr>) = body r1 @ open_line b"
      "unat offset1 = unat (payload_offset r1) + length (open_line b)"
      using r1(1) p emits_opening [OF b(3,4)] by (rule emits_in_request) (use off space n in simp)
    let ?r2 = "r1\<lparr>payload := Some p1\<rparr>" and ?r3 = "r1\<lparr>payload := Some p1, payload_offset := offset1\<rparr>"
    have r2: "request_ok ?r2 b"
      using opened(2) r1(1) p unfolding request_ok_def by simp
    have "body ?r2 = take (unat (payload_offset r1)) (body ?r3)"
      using opened(4) by (simp add: body_def min_def)
    also have "\<dots> = body r1" unfolding opened(3) using r1(1) p by (simp add: body_def request_ok_def)
    finally have body2: "body ?r2 = body r" using r1(2) by simp
    obtain code2 sub w2 where sub: "generate_random_boundary rand w1 = Some (code2, sub, w2)"
      "case sub of
        Some s \<Rightarrow> code2 = MCL_OK \<and> blocks_of s = 2 \<and> live w2 = live w1 + 2
          \<and> (\<exists>t. string_buffer s = Some (t @ [NUL]) \<and> says s t \<and> length t = 22 \<and> set t \<subseteq> set boundary_characters)
      | None \<Rightarrow> code2 \<in> {MCL_OUT_OF_MEMORY, MCL_FAIL} \<and> live w2 = live w1"
      using generate_random_boundary_runs [OF assms(1), of w1] by blast
    have blocks: "payload_blocks (r1\<lparr>payload := Some q\<rparr>) = payload_blocks r1"
      "payload_blocks (r1\<lparr>payload := Some q, payload_offset := k\<rparr>) = payload_blocks r1" for q k
      using p by (simp_all add: payload_blocks_def)
    show ?thesis
    proof (cases sub)
      case None
      then have "http_request_add_tuple rand r meta meta_content_type copy size1 payload_content_type w
        = Some (code2, ?r2, w2)"
        using room(1) True p b(1,2) opened(1) sub by (auto simp: http_request_add_tuple_def Let_def)
      moreover have "\<exists>w2 w3. generate_random_boundary rand w2 = Some (code2, None, w3) \<and> (upcoming w = [] \<longrightarrow> upcoming w2 = [])"
        using sub(1) None calm_resize [OF room(1)] by blast
      moreover have "length (body r) + 232 \<le> unat (payload_size r1)" using space n body_length [OF assms(2)] by simp
      ultimately show ?thesis using None sub(2) r2 body2 room(3) blocks by auto
    next
      case (Some s)
      then obtain sb where sb: "string_buffer s = Some (sb @ NUL # [])" "length sb = 22"
        "set sb \<subseteq> set boundary_characters" "blocks_of s = 2" "live w2 = live w1 + 2" "code2 = MCL_OK"
        using sub(2) by auto
      have sbt: "is_text sb" using sb(3) by (rule boundary_characters_text)
      let ?g = "tuple_sections (sb @ NUL # []) meta (mt @ NUL # r1') (size_of_nat (length mt)) copy size1
        (pt @ NUL # r2') (size_of_nat (length pt))"
      note emits = emits_tuple_sections [OF assms(3) lens(4,5) assms(8,9,6) sbt sb(2), of "[]" r1' r2']
      have held: "payload ?r3 = Some p1" by simp
      have "length (open_line b) = 26" using b(4) by (simp add: open_line_def)
      then have left: "unat (payload_offset ?r3) + (187 + length mt + length m + length pt + unat size1)
          < unat (payload_size ?r3)"
        using opened(4) off space n by simp
      obtain p2 offset2 where done1: "?g p1 (payload_offset ?r3) = Some (MCL_OK, p2, offset2)"
        "request_ok (?r3\<lparr>payload := Some p2, payload_offset := offset2\<rparr>) b"
        "body (?r3\<lparr>payload := Some p2, payload_offset := offset2\<rparr>) = body ?r3 @ sections_text sb mt m pt xs"
        using opened(2) held emits by (rule emits_in_request) (rule left)
      have "http_request_add_tuple rand r meta meta_content_type copy size1 payload_content_type w
        = Some (MCL_OK, r1\<lparr>payload := Some p2, payload_offset := offset2\<rparr>, snd (string_destroy sub w2))"
        using room(1) True p b(1,2) opened(1) sub(1) Some sb(1,6) bufs done1(1) lens(1,2)
        by (simp add: http_request_add_tuple_def Let_def written_def)
      moreover have "live (snd (string_destroy sub w2)) = live w1"
        using Some sb(4,5) by (simp add: string_blocks_def)
      moreover have "body (r1\<lparr>payload := Some p2, payload_offset := offset2\<rparr>) = body r @ tuple_text b sb mt m pt xs"
        "request_ok (r1\<lparr>payload := Some p2, payload_offset := offset2\<rparr>) b"
        using done1(2,3) opened(3) r1(2) by (simp_all add: tuple_text_def)
      moreover have "length (body r) + 232 + length mt + length pt + unat size1 + length m \<le> unat (payload_size r1)"
        using space n body_length [OF assms(2)] by simp
      ultimately show ?thesis using blocks room(3) sb(2,3) by auto
    qed
  qed
qed

text \<open>C10: adding a tuple appends exactly one part to the message: the boundary, the declaration of a
  boundary of its own of 22 random characters, the section of the meta data and the section of
  the payload and the closing line of the own boundary; the payload is never exceeded although the
  callback decides how much it copies.  A tuple is refused for lack of space, and the request left as it
  was, only when its contents exceed the space reported for it.  When the boundary of its own cannot be
  made, for want of random bytes or of memory, the message is as it was and in good order.  Only when the
  allocator refuses the larger payload the old one is lost with it, and the request is of no more use.\<close>

theorem http_request_add_tuple_correct:
  assumes "fills_buffers rand" "request_ok r b" "says meta m" "says meta_content_type mt"
    "says payload_content_type pt" "copies copy size1 xs"
    and "length m < 2 ^ 30" "length mt < 2 ^ 30" "length pt < 2 ^ 30" "unat size1 < 2 ^ 60"
  shows "\<exists>code r1 w1. http_request_add_tuple rand r meta meta_content_type copy size1 payload_content_type w
      = Some (code, r1, w1)
    \<and> live w1 - payload_blocks r1 = live w - payload_blocks r
    \<and> (code = MCL_OK \<and> request_ok r1 b \<and> (\<exists>sb. length sb = 22 \<and> set sb \<subseteq> set boundary_characters
          \<and> body r1 = body r @ tuple_text b sb mt m pt xs)
      \<or> code = MCL_HTTP_REQUEST_NO_MORE_SPACE \<and> r1 = r
        \<and> (unat (http_request_get_available_space_for_tuple r) < length mt + length pt + unat size1 + length m
          \<or> http_request_get_available_space_for_tuple r = 0)
      \<or> code = MCL_OUT_OF_MEMORY \<and> r1 = r\<lparr>payload := None\<rparr> \<and> upcoming w \<noteq> []
      \<or> code \<in> {MCL_OUT_OF_MEMORY, MCL_FAIL} \<and> request_ok r1 b \<and> body r1 = body r
        \<and> (\<exists>w2 w3. generate_random_boundary rand w2 = Some (code, None, w3) \<and> (upcoming w = [] \<longrightarrow> upcoming w2 = [])))"
  using http_request_add_tuple_runs [OF assms, of w] by (elim exE conjE disjE) (simp_all, blast+)

text \<open>What is left for the end of the message.\<close>

lemma raw_data_space:
  assumes "request_ok r b"
  shows "unat (http_request_get_available_space_for_raw_data r)
    = unat (if resize_enabled r then max_http_payload_size r else payload_size r) - length (body r)"
proof -
  let ?limit = "if resize_enabled r then max_http_payload_size r else payload_size r"
  have ok: "unat (payload_offset r) \<le> unat (payload_size r)" "unat (payload_size r) < 2 ^ 62" "payload_offset r \<le> ?limit"
    using assms by (auto simp: request_ok_def word_le_nat_alt)
  have "unat (MCL_SIZE_MAX - payload_offset r) = unat MCL_SIZE_MAX - unat (payload_offset r)"
    by (rule unat_sub) (simp add: MCL_SIZE_MAX_def)
  moreover have "unat MCL_SIZE_MAX = 2 ^ 64 - 1" by (simp add: MCL_SIZE_MAX_def unsigned_minus_1_eq_mask mask_eq_exp_minus_1)
  ultimately have "MCL_SIZE_MAX - payload_offset r > 0" using ok(1,2) by (simp add: word_less_nat_alt)
  then have "unat (http_request_get_available_space_for_raw_data r) = unat (?limit - payload_offset r)"
    using ok(3) by (auto simp: http_request_get_available_space_for_raw_data_def get_available_space_def Let_def not_less)
  then show ?thesis using ok(3) by (simp add: body_length [OF assms] unat_sub word_le_nat_alt)
qed

lemma http_request_finalize_runs:
  assumes "request_ok r b"
  shows "\<exists>code r1 w1. http_request_finalize r w = Some (code, r1, w1)
    \<and> live w1 - payload_blocks r1 = live w - payload_blocks r
    \<and> (code = MCL_OK \<and> request_ok r1 b \<and> body r1 = body r @ ''--'' @ b @ ''--''
        \<and> (resize_enabled r \<longrightarrow> payload r1 = Some (body r1))
      \<or> code = MCL_HTTP_REQUEST_FINALIZE_FAILED \<and> (r1 = r
        \<and> unat (http_request_get_available_space_for_raw_data r) < 26 \<or> r1 = r\<lparr>payload := None\<rparr> \<and> upcoming w \<noteq> []))"
proof -
  have ok: "unat (payload_offset r) \<le> unat (payload_size r)" "unat (payload_size r) < 2 ^ 62"
    "unat (max_http_payload_size r) < 2 ^ 62" "resize_enabled r \<longrightarrow> payload_size r \<le> max_http_payload_size r"
    using assms by (simp_all add: request_ok_def)
  obtain limit where limit: "limit = (if resize_enabled r then max_http_payload_size r else payload_size r)" by simp
  have over: "payload_offset r \<le> limit" "unat limit < 2 ^ 62"
    using ok by (auto simp: limit word_le_nat_alt)
  have space: "unat (http_request_get_available_space_for_raw_data r) = unat (limit - payload_offset r)"
    using raw_data_space [OF assms] over(1) by (simp add: limit body_length [OF assms] unat_sub word_le_nat_alt)
  have need: "2 * BOUNDARY_SIGN_LENGTH + BOUNDARY_LENGTH = 26" by (simp add: request_sizes)
  have sum: "unat (payload_offset r + 26) = unat (payload_offset r) + 26"
    using ok by (subst unat_add_less) simp_all
  have made: "\<exists>code r1 w1. resize_payload_buffer_if_necessary 26 r True w = Some (code, r1, w1)
    \<and> live w1 - payload_blocks r1 = live w - payload_blocks r
    \<and> room_made r 26 b code r1 \<and> (code = MCL_OK \<longrightarrow> resize_enabled r \<longrightarrow> payload_size r1 = payload_offset r + 26)
    \<and> (code = MCL_HTTP_REQUEST_NO_MORE_SPACE \<longrightarrow> limit - payload_offset r < 26)"
  proof (cases "26 \<le> limit - payload_offset r")
    case False
    then show ?thesis
      by (auto simp: resize_payload_buffer_if_necessary_def room_made_def limit Let_def)
  next
    case True
    then have fits: "unat (payload_offset r) + 26 \<le> unat limit"
      using over(1) by (simp add: word_le_nat_alt unat_sub)
    show ?thesis
    proof (cases "resize_enabled r")
      case True
      obtain g r1 w1 where g: "resize_payload r (payload_offset r + 26) w = (g, r1, w1)" by (rule prod_cases3)
      have "payload_offset r + 26 \<noteq> 0" using sum by (metis add_is_0 unat_0 zero_neq_numeral)
      note live1 = growing_live [OF g this]
      have "room_made r 26 b (if g then MCL_OK else MCL_OUT_OF_MEMORY) r1"
        using g assms by (rule room_made_by_resizing) (use sum fits over(2) True limit in \<open>auto simp: word_le_nat_alt\<close>)
      moreover have "g \<longrightarrow> payload_size r1 = payload_offset r + 26"
        using g by (auto simp: resize_payload_def split: option.splits prod.splits)
      ultimately show ?thesis
        using \<open>26 \<le> limit - payload_offset r\<close> True g live1
        by (auto simp: resize_payload_buffer_if_necessary_def limit Let_def)
    next
      case False
      then have "room_made r 26 b MCL_OK r" using fits by (intro room_made_already [OF assms]) (simp_all add: limit)
      then show ?thesis using False \<open>26 \<le> limit - payload_offset r\<close>
        by (auto simp: resize_payload_buffer_if_necessary_def limit Let_def)
    qed
  qed
  then obtain code r1 w1 where room: "resize_payload_buffer_if_necessary 26 r True w = Some (code, r1, w1)"
    "live w1 - payload_blocks r1 = live w - payload_blocks r"
    "room_made r 26 b code r1" "code = MCL_OK \<Longrightarrow> resize_enabled r \<Longrightarrow> payload_size r1 = payload_offset r + 26"
    "code = MCL_HTTP_REQUEST_NO_MORE_SPACE \<Longrightarrow> limit - payload_offset r < 26" by blast
  show ?thesis
  proof (cases "code = MCL_OK")
    case False
    moreover have "code = MCL_OUT_OF_MEMORY \<longrightarrow> upcoming w \<noteq> []"
      using last_resize_is_granted [OF assms _ room(1)] by auto
    ultimately show ?thesis using room space
      by (auto simp: http_request_finalize_def need room_made_def word_less_nat_alt)
  next
    case True
    obtain p bnd r3' where r1: "request_ok r1 b" "body r1 = body r" and p: "payload r1 = Some p"
      and off: "payload_offset r1 = payload_offset r"
      and b: "boundary r1 = Some bnd" "string_buffer bnd = Some (b @ NUL # r3')" "is_text b" "length b = 22"
      and big: "unat (payload_offset r) + 26 \<le> unat (payload_size r1)"
      using room(3) [unfolded True] by (rule room_made_okE)
    have len: "length p = unat (payload_size r1)" using r1(1) p by (simp add: request_ok_def)
    obtain start rest where parts: "p = start @ rest" "length start = unat (payload_offset r)" "body r1 = start"
      using len big p off append_take_drop_id [of "unat (payload_offset r)" p]
      by (metis add_leD1 body_def length_take min.absorb2 option.simps(5))
    let ?o = "unat (payload_offset r)"
    have offs: "unat (payload_offset r + BOUNDARY_SIGN_LENGTH) = ?o + 2"
      "unat (payload_offset r + BOUNDARY_SIGN_LENGTH + BOUNDARY_LENGTH) = ?o + 24"
      "unat (payload_offset r + BOUNDARY_SIGN_LENGTH + BOUNDARY_LENGTH + BOUNDARY_SIGN_LENGTH) = ?o + 26"
      using ok by (simp_all add: request_sizes add.assoc unat_add_less)
    have copies: "string_util_memcpy p ?o ''--'' BOUNDARY_SIGN_LENGTH = Some (start @ ''--'' @ drop 2 rest)"
      "string_util_memcpy (start @ ''--'' @ drop 2 rest) (?o + 2) (b @ NUL # r3') BOUNDARY_LENGTH
        = Some (start @ ''--'' @ b @ drop 24 rest)"
      "string_util_memcpy (start @ ''--'' @ b @ drop 24 rest) (?o + 24) ''--'' BOUNDARY_SIGN_LENGTH
        = Some (start @ ''--'' @ b @ ''--'' @ drop 26 rest)"
      using len big b(4) parts(1,2)
      by (simp_all add: string_util_memcpy_def write_at_def request_sizes)
    let ?r = "r1\<lparr>payload := Some (start @ ''--'' @ b @ ''--'' @ drop 26 rest),
      payload_offset := payload_offset r + BOUNDARY_SIGN_LENGTH + BOUNDARY_LENGTH + BOUNDARY_SIGN_LENGTH\<rparr>"
    obtain r' where r': "r' = ?r" by blast
    have run: "http_request_finalize r w = Some (MCL_OK, r', w1)"
      unfolding r' using room(1) True p b(1,2) copies offs off by (simp add: http_request_finalize_def need Let_def)
    have size1: "length (start @ ''--'' @ b @ ''--'' @ drop 26 rest) = unat (payload_size r1)"
      using len parts(1,2) big b(4) by simp
    have body1: "body r' = body r @ ''--'' @ b @ ''--''"
      unfolding r' using parts(2,3) r1(2) b(4) offs(3) by (simp add: body_def)
    moreover have "request_ok r' b"
      unfolding r' using r1(1) size1 offs(3) big unfolding request_ok_def by simp
    moreover have "payload r' = Some (body r')" if "resize_enabled r"
      unfolding body1 using room(4) [OF True that] size1 sum parts(2,3) b(4) r1(2) by (simp add: r')
    moreover have "payload_blocks r' = payload_blocks r1" using p by (simp add: payload_blocks_def r')
    ultimately show ?thesis using run room(2) by (intro exI [of _ MCL_OK] exI [of _ r'] exI [of _ w1]) simp
  qed
qed


text \<open>C37: closing a tuple asks for one character less than the closing line and its terminator need:
  when exactly what it asks for is left, it succeeds in making room and then writes behind the
  end of the payload, whatever the limit allows.\<close>

theorem http_request_end_tuple_sub_section_overruns:
  assumes "request_ok r b" "says sub_boundary sb" "length sb = 22"
    and "unat (payload_size r) = unat (payload_offset r) + 27"
  shows "resize_payload_buffer_if_necessary (BOUNDARY_LINE_LENGTH + MCL_NULL_CHAR_SIZE) r False w = Some (MCL_OK, r, w)
    \<and> http_request_end_tuple_sub_section r sub_boundary w = None"
proof
  show room: "resize_payload_buffer_if_necessary (BOUNDARY_LINE_LENGTH + MCL_NULL_CHAR_SIZE) r False w = Some (MCL_OK, r, w)"
  proof -
    have need: "BOUNDARY_LINE_LENGTH + MCL_NULL_CHAR_SIZE = 27" by (simp add: request_sizes)
    have "unat (payload_size r - payload_offset r) = 27"
      using assms(4) by (subst unat_sub) (simp_all add: word_le_nat_alt)
    then have "\<not> 27 > payload_size r - payload_offset r" by (simp add: word_less_nat_alt)
    then show ?thesis by (simp add: need resize_payload_buffer_if_necessary_def Let_def)
  qed
  obtain rest where sub: "string_buffer sub_boundary = Some (sb @ NUL # rest)" "is_text sb"
    using assms(2) by (auto simp: says_def)
  have "add_boundary p (payload_offset r) (sb @ NUL # rest) MCL_CLOSE_BOUNDARY = None" if "payload r = Some p" for p
  proof -
    have "length p = unat (payload_offset r) + 27" using assms(1,4) that by (simp add: request_ok_def)
    then show ?thesis
      using chars_of_text [OF sub(2), of rest] assms(3)
      by (simp add: add_boundary_def snprintf_at_def string_util_snprintf_def write_at_def request_sizes)
  qed
  then show "http_request_end_tuple_sub_section r sub_boundary w = None"
    using room sub(1) by (cases "payload r") (simp_all add: http_request_end_tuple_sub_section_def written_def)
qed

text \<open>The table of the header names is not in the order of the constants: the constant of the range
  header names another header, as do the two after it.\<close>

theorem http_header_names_shifted:
  "http_header_name HTTP_HEADER_RANGE = string_constant ''Content-Disposition''
    \<and> http_header_name HTTP_HEADER_CONTENT_RANGE = string_constant ''Range''
    \<and> http_header_name HTTP_HEADER_CONTENT_DISPOSITION = string_constant ''Content-Range''"
  by (simp_all add: http_header_name_def http_header_names_def header_indices_def)

section \<open>The theorems on a request\<close>

definition sample_boundary :: string where "sample_boundary = replicate 22 CHR ''b''"

definition sample_request :: http_request_t where
  "sample_request = \<lparr>header = None, payload = None, payload_size = 0, payload_offset = 0,
    http_method = MCL_HTTP_POST, uri = None, boundary = Some (handle_of sample_boundary),
    max_http_payload_size = 1000, resize_enabled = True, finalized = False\<rparr>"

lemma sample_request_ok: "request_ok sample_request sample_boundary"
  by (simp add: request_ok_def sample_request_def sample_boundary_def says_def handle_of_def is_text_def)

definition copy_sample :: "string \<Rightarrow> payload_copy_callback_t" where
  "copy_sample xs buf n = Some (xs @ drop (length xs) buf, size_of_nat (length xs))"

lemma copies_copy_sample: "length xs \<le> unat n \<Longrightarrow> copies (copy_sample xs) n xs"
  by (auto simp: copies_def copy_sample_def)

lemma says_sample: "says (handle_of ''{}'') ''{}''" "says (handle_of sample_boundary) sample_boundary"
  by (simp_all add: says_def handle_of_def sample_boundary_def is_text_def)

lemma sample_available:
  "unat (http_request_get_available_space_for_single sample_request) = 852"
  "unat (http_request_get_available_space_for_tuple sample_request) = 768"
  "unat (http_request_get_available_space_for_raw_data sample_request) = 1000"
  by (simp_all add: http_request_get_available_space_for_single_def http_request_get_available_space_for_tuple_def
      http_request_get_available_space_for_raw_data_def get_available_space_def request_sizes sample_request_def
      MCL_SIZE_MAX_def word_less_nat_alt unsigned_minus_1_eq_mask mask_eq_exp_minus_1)

lemma http_request_add_single_correct_witness:
  "\<exists>code r1 w1. http_request_add_single sample_request (handle_of ''{}'') (handle_of ''{}'') (handle_of ''{}'') quiet_world
      = Some (code, r1, w1)
    \<and> live w1 - payload_blocks r1 = live quiet_world - payload_blocks sample_request
    \<and> (code = MCL_OK \<and> request_ok r1 sample_boundary
        \<and> body r1 = body sample_request @ single_text sample_boundary ''{}'' ''{}'' ''{}''
      \<or> code = MCL_OUT_OF_MEMORY \<and> r1 = sample_request\<lparr>payload := None\<rparr>)"
proof -
  have "length ''{}'' < 2 ^ 30" by simp
  note run = http_request_add_single_correct [OF sample_request_ok says_sample(1) says_sample(1) says_sample(1) this this this,
      of quiet_world]
  have "\<not> (unat (http_request_get_available_space_for_single sample_request)
      < length ''{}'' + length ''{}'' + length ''{}'' + 3
    \<or> http_request_get_available_space_for_single sample_request = 0)"
    using sample_available(1) by auto
  then show ?thesis using run by blast
qed


definition tight_request :: http_request_t where
  "tight_request = sample_request\<lparr>payload := Some (replicate 27 NUL), payload_size := 27\<rparr>"

lemma http_request_end_tuple_sub_section_overruns_witness:
  "http_request_end_tuple_sub_section tight_request (handle_of sample_boundary) quiet_world = None"
proof (rule http_request_end_tuple_sub_section_overruns [OF _ says_sample(2), THEN conjunct2])
  show "request_ok tight_request sample_boundary"
    using sample_request_ok by (simp add: request_ok_def tight_request_def sample_request_def word_le_nat_alt)
qed (simp_all add: tight_request_def sample_request_def sample_boundary_def)

end
