(* ===== verification/MCL_Cjson.thy ===== *)
theory MCL_Cjson
  imports MCL_Double MCL_Memory
begin

text \<open>
  The part of \<^verbatim>\<open>lib/cJSON/cJSON.c\<close> the library calls.  An item is a tree: the chain of its
  children is a list, its texts are the characters without the terminator.  Memory is asked for
  with \<^verbatim>\<open>memory_malloc\<close>, which \<^verbatim>\<open>json_util_initialize_json_library\<close> makes the allocator of cJSON.
\<close>

section \<open>Items\<close>

datatype cjson_type = cJSON_False | cJSON_True | cJSON_NULL | cJSON_Number | cJSON_String | cJSON_Array | cJSON_Object

datatype cjson = Cjson (cjson_type: cjson_type) (valuestring: "string option") (valueint: int)
  (valuedouble: rat) (cjson_name: "string option") (cjson_child: "cjson list")

definition sizeof_cjson :: mcl_size_t where "sizeof_cjson = 64"

definition new_item :: "cjson_type \<Rightarrow> cjson" where "new_item t = Cjson t None 0 0 None []"

definition cJSON_New_Item :: "world \<Rightarrow> addr option \<times> world" where
  "cJSON_New_Item w = memory_malloc sizeof_cjson w"

definition cJSON_strdup :: "string \<Rightarrow> world \<Rightarrow> string option \<times> world" where
  "cJSON_strdup s w = (case memory_malloc (size_of_nat (length s + 1)) w of
    (None, w1) \<Rightarrow> (None, w1) | (Some a, w1) \<Rightarrow> (Some s, w1))"

definition free_text :: "string option \<Rightarrow> world \<Rightarrow> world" where
  "free_text s w = (if s = None then w else memory_free w)"

fun cJSON_Delete :: "cjson \<Rightarrow> world \<Rightarrow> world" where
  "cJSON_Delete (Cjson t vs vi vd nm cs) w =
    memory_free (free_text nm (free_text vs (fold cJSON_Delete cs w)))"

definition cJSON_Create :: "cjson_type \<Rightarrow> world \<Rightarrow> cjson option \<times> world" where
  "cJSON_Create t w = (case cJSON_New_Item w of
    (None, w1) \<Rightarrow> (None, w1) | (Some a, w1) \<Rightarrow> (Some (new_item t), w1))"

definition cJSON_CreateNull :: "world \<Rightarrow> cjson option \<times> world" where
  "cJSON_CreateNull = cJSON_Create cJSON_NULL"
definition cJSON_CreateBool :: "bool \<Rightarrow> world \<Rightarrow> cjson option \<times> world" where
  "cJSON_CreateBool b = cJSON_Create (if b then cJSON_True else cJSON_False)"
definition cJSON_CreateArray :: "world \<Rightarrow> cjson option \<times> world" where
  "cJSON_CreateArray = cJSON_Create cJSON_Array"
definition cJSON_CreateObject :: "world \<Rightarrow> cjson option \<times> world" where
  "cJSON_CreateObject = cJSON_Create cJSON_Object"

text \<open>The conversion of a double to an \<^verbatim>\<open>int\<close>, undefined outside of its range.\<close>

definition int_of_double :: "rat \<Rightarrow> int option" where
  "int_of_double d = (let n = (if 0 \<le> d then \<lfloor>d\<rfloor> else \<lceil>d\<rceil>) in
    if - (2 ^ 31) \<le> n \<and> n < 2 ^ 31 then Some n else None)"

definition cJSON_CreateNumber :: "rat \<Rightarrow> world \<Rightarrow> (cjson option \<times> world) option" where
  "cJSON_CreateNumber num w = (case cJSON_New_Item w of
      (None, w1) \<Rightarrow> Some (None, w1)
    | (Some a, w1) \<Rightarrow> do {
        n \<leftarrow> int_of_double num;
        Some (Some (Cjson cJSON_Number None n num None []), w1)
      })"

definition cJSON_CreateString :: "string \<Rightarrow> world \<Rightarrow> cjson option \<times> world" where
  "cJSON_CreateString s w = (case cJSON_New_Item w of
      (None, w1) \<Rightarrow> (None, w1)
    | (Some a, w1) \<Rightarrow> (case cJSON_strdup s w1 of
        (None, w2) \<Rightarrow> (None, cJSON_Delete (new_item cJSON_String) w2)
      | (Some copy, w2) \<Rightarrow> (Some (Cjson cJSON_String (Some copy) 0 0 None []), w2)))"

section \<open>Composing and looking up\<close>

fun set_children :: "cjson list \<Rightarrow> cjson \<Rightarrow> cjson" where
  "set_children cs (Cjson t vs vi vd nm ds) = Cjson t vs vi vd nm cs"

fun set_name :: "string option \<Rightarrow> cjson \<Rightarrow> cjson" where
  "set_name nm (Cjson t vs vi vd old cs) = Cjson t vs vi vd nm cs"

definition cJSON_AddItemToArray :: "cjson \<Rightarrow> cjson option \<Rightarrow> cjson" where
  "cJSON_AddItemToArray array item =
    (case item of None \<Rightarrow> array | Some c \<Rightarrow> set_children (cjson_child array @ [c]) array)"

text \<open>The name is copied; where that fails the item is added without a name.\<close>

definition cJSON_AddItemToObject :: "cjson \<Rightarrow> string \<Rightarrow> cjson option \<Rightarrow> world \<Rightarrow> cjson \<times> world" where
  "cJSON_AddItemToObject object name item w =
    (case item of
      None \<Rightarrow> (object, w)
    | Some c \<Rightarrow> (let w1 = free_text (cjson_name c) w; (copy, w2) = cJSON_strdup name w1 in
        (cJSON_AddItemToArray object (Some (set_name copy c)), w2)))"

definition tolower :: "char \<Rightarrow> char" where
  "tolower c = (let n = of_char c :: nat in if 65 \<le> n \<and> n \<le> 90 then char_of (n + 32) else c)"

definition cJSON_strcasecmp_equal :: "string option \<Rightarrow> string \<Rightarrow> bool" where
  "cJSON_strcasecmp_equal s1 s2 = (case s1 of None \<Rightarrow> False | Some s \<Rightarrow> map tolower s = map tolower s2)"

fun index_of_name :: "string \<Rightarrow> cjson list \<Rightarrow> nat option" where
  "index_of_name name [] = None"
| "index_of_name name (c # cs) =
    (if cJSON_strcasecmp_equal (cjson_name c) name then Some 0 else map_option Suc (index_of_name name cs))"

text \<open>The item found is given by its place in the chain.\<close>

definition cJSON_GetObjectItem :: "cjson \<Rightarrow> string \<Rightarrow> nat option" where
  "cJSON_GetObjectItem object name = index_of_name name (cjson_child object)"

definition cJSON_GetArraySize :: "cjson \<Rightarrow> nat" where
  "cJSON_GetArraySize array = length (cjson_child array)"

definition cJSON_GetArrayItem :: "cjson \<Rightarrow> int \<Rightarrow> nat option" where
  "cJSON_GetArrayItem array item =
    (if nat item < length (cjson_child array) then Some (nat item) else None)"

section \<open>Copying\<close>

definition copy_text :: "string option \<Rightarrow> world \<Rightarrow> bool \<times> world" where
  "copy_text s w = (case s of None \<Rightarrow> (True, w)
    | Some t \<Rightarrow> (case cJSON_strdup t w of (r, w1) \<Rightarrow> (r \<noteq> None, w1)))"

fun cJSON_Duplicate :: "cjson \<Rightarrow> world \<Rightarrow> cjson option \<times> world"
  and duplicate_children :: "cjson \<Rightarrow> cjson list \<Rightarrow> world \<Rightarrow> cjson option \<times> world" where
  "cJSON_Duplicate (Cjson t vs vi vd nm cs) w =
    (case cJSON_New_Item w of
      (None, w1) \<Rightarrow> (None, w1)
    | (Some a, w1) \<Rightarrow> (case copy_text vs w1 of
        (False, w2) \<Rightarrow> (None, cJSON_Delete (Cjson t None vi vd None []) w2)
      | (True, w2) \<Rightarrow> (case copy_text nm w2 of
          (False, w3) \<Rightarrow> (None, cJSON_Delete (Cjson t vs vi vd None []) w3)
        | (True, w3) \<Rightarrow> duplicate_children (Cjson t vs vi vd nm []) cs w3)))"
| "duplicate_children newitem [] w = (Some newitem, w)"
| "duplicate_children newitem (c # cs) w =
    (case cJSON_Duplicate c w of
      (None, w1) \<Rightarrow> (None, cJSON_Delete newitem w1)
    | (Some d, w1) \<Rightarrow> duplicate_children (set_children (cjson_child newitem @ [d]) newitem) cs w1)"

section \<open>Printing\<close>

fun nat_digits :: "nat \<Rightarrow> string" where
  "nat_digits n = (if n < 10 then [char_of (48 + n)] else nat_digits (n div 10) @ [char_of (48 + n mod 10)])"

declare nat_digits.simps [simp del]

definition decimal :: "int \<Rightarrow> string" where
  "decimal n = (if n < 0 then ''-'' @ nat_digits (nat (- n)) else nat_digits (nat n))"

definition hex4 :: "nat \<Rightarrow> string" where
  "hex4 n = map (\<lambda>k. ''0123456789abcdef'' ! (n div 16 ^ k mod 16)) [3, 2, 1, 0]"

definition escape_char :: "char \<Rightarrow> string" where
  "escape_char c = (let n = of_char c :: nat in
    if c = CHR 0x22 \<or> c = CHR 0x5C then [CHR 0x5C, c]
    else if n = 8 then [CHR 0x5C, CHR ''b''] else if n = 12 then [CHR 0x5C, CHR ''f'']
    else if n = 10 then [CHR 0x5C, CHR ''n''] else if n = 13 then [CHR 0x5C, CHR ''r'']
    else if n = 9 then [CHR 0x5C, CHR ''t'']
    else if n < 32 then [CHR 0x5C, CHR ''u''] @ hex4 n else [c])"

definition quoted :: "string \<Rightarrow> string" where
  "quoted s = [CHR 0x22] @ concat (map escape_char s) @ [CHR 0x22]"

text \<open>A text that is printed is one new block.\<close>

definition print_block :: "string \<Rightarrow> nat \<Rightarrow> world \<Rightarrow> string option \<times> world" where
  "print_block s n w = (case memory_malloc (size_of_nat n) w of
    (None, w1) \<Rightarrow> (None, w1) | (Some a, w1) \<Rightarrow> (Some s, w1))"

definition print_string_ptr :: "string option \<Rightarrow> world \<Rightarrow> string option \<times> world" where
  "print_string_ptr s w = (case s of
      None \<Rightarrow> print_block [CHR 0x22, CHR 0x22] 3 w
    | Some t \<Rightarrow> print_block (quoted t) (length (concat (map escape_char t)) + 3) w)"

text \<open>\<open>other\<close> is how the C library prints a number that is not an \<^verbatim>\<open>int\<close>.\<close>

definition number_text :: "(rat \<Rightarrow> string) \<Rightarrow> int \<Rightarrow> rat \<Rightarrow> string" where
  "number_text other n d =
    (if d = 0 then ''0''
     else if \<bar>of_int n - d\<bar> \<le> 1 / 2 ^ 52 \<and> d \<le> 2 ^ 31 - 1 \<and> - (2 ^ 31) \<le> d then decimal n
     else other d)"

definition print_number :: "(rat \<Rightarrow> string) \<Rightarrow> int \<Rightarrow> rat \<Rightarrow> world \<Rightarrow> string option \<times> world" where
  "print_number other n d w =
    print_block (number_text other n d)
      (if d = 0 then 2
       else if \<bar>of_int n - d\<bar> \<le> 1 / 2 ^ 52 \<and> d \<le> 2 ^ 31 - 1 \<and> - (2 ^ 31) \<le> d then 21 else 64) w"

fun comma_list :: "string list \<Rightarrow> string" where
  "comma_list [] = []"
| "comma_list [s] = s"
| "comma_list (s # t # ss) = s @ '','' @ comma_list (t # ss)"

text \<open>The entries that have been printed are freed when the whole is composed or given up.\<close>

definition free_texts :: "string option list \<Rightarrow> world \<Rightarrow> world" where
  "free_texts ss w = fold free_text ss w"

fun print_value :: "(rat \<Rightarrow> string) \<Rightarrow> cjson \<Rightarrow> world \<Rightarrow> string option \<times> world"
  and print_entries :: "(rat \<Rightarrow> string) \<Rightarrow> cjson list \<Rightarrow> world \<Rightarrow> string option list \<times> world"
  and print_members :: "(rat \<Rightarrow> string) \<Rightarrow> cjson list \<Rightarrow> world \<Rightarrow> (string option \<times> string option) list \<times> world"
  where
  "print_value other (Cjson t vs vi vd nm cs) w =
    (case t of
      cJSON_NULL \<Rightarrow> cJSON_strdup ''null'' w
    | cJSON_False \<Rightarrow> cJSON_strdup ''false'' w
    | cJSON_True \<Rightarrow> cJSON_strdup ''true'' w
    | cJSON_Number \<Rightarrow> print_number other vi vd w
    | cJSON_String \<Rightarrow> print_string_ptr vs w
    | cJSON_Array \<Rightarrow>
        (if cs = [] then print_block ''[]'' 3 w
         else case memory_malloc (size_of_nat (8 * length cs)) w of
            (None, w1) \<Rightarrow> (None, w1)
          | (Some a, w1) \<Rightarrow>
              (let (es, w2) = print_entries other cs w1 in
               if None \<in> set es then (None, memory_free (free_texts es w2))
               else (let (out, w3) = print_block (''['' @ comma_list (map the es) @ '']'')
                       (5 + sum_list (map (\<lambda>e. length (the e) + 2) es)) w2 in
                     (out, memory_free (free_texts es w3)))))
    | cJSON_Object \<Rightarrow>
        (if cs = [] then print_block ''{}'' 3 w
         else case memory_malloc (size_of_nat (8 * length cs)) w of
            (None, w1) \<Rightarrow> (None, w1)
          | (Some a, w1) \<Rightarrow>
            (case memory_malloc (size_of_nat (8 * length cs)) w1 of
              (None, w2) \<Rightarrow> (None, memory_free w2)
            | (Some b, w2) \<Rightarrow>
              (let (ms, w3) = print_members other cs w2; texts = concat (map (\<lambda>(n, e). [n, e]) ms) in
               if None \<in> set texts then (None, memory_free (memory_free (free_texts texts w3)))
               else (let (out, w4) = print_block
                         (''{'' @ comma_list (map (\<lambda>(n, e). the n @ '':'' @ the e) ms) @ ''}'')
                         (7 + sum_list (map (\<lambda>(n, e). length (the e) + length (the n) + 2) ms)) w3 in
                     (out, memory_free (memory_free (free_texts texts w4))))))))"
| "print_entries other [] w = ([], w)"
| "print_entries other (c # cs) w =
    (let (e, w1) = print_value other c w in
     if e = None then ([e], w1)
     else (let (es, w2) = print_entries other cs w1 in (e # es, w2)))"
| "print_members other [] w = ([], w)"
| "print_members other (c # cs) w =
    (let (n, w1) = print_string_ptr (cjson_name c) w; (e, w2) = print_value other c w1 in
     if n = None \<or> e = None then ([(n, e)], w2)
     else (let (ms, w3) = print_members other cs w2 in ((n, e) # ms, w3)))"

definition cJSON_PrintUnformatted :: "(rat \<Rightarrow> string) \<Rightarrow> cjson \<Rightarrow> world \<Rightarrow> string option \<times> world" where
  "cJSON_PrintUnformatted other item w = print_value other item w"

section \<open>What printing gives\<close>

fun text_of :: "(rat \<Rightarrow> string) \<Rightarrow> cjson \<Rightarrow> string" where
  "text_of other (Cjson t vs vi vd nm cs) =
    (case t of
      cJSON_NULL \<Rightarrow> ''null'' | cJSON_False \<Rightarrow> ''false'' | cJSON_True \<Rightarrow> ''true''
    | cJSON_Number \<Rightarrow> number_text other vi vd
    | cJSON_String \<Rightarrow> quoted (case vs of None \<Rightarrow> [] | Some s \<Rightarrow> s)
    | cJSON_Array \<Rightarrow> ''['' @ comma_list (map (text_of other) cs) @ '']''
    | cJSON_Object \<Rightarrow> ''{'' @ comma_list (map (\<lambda>c. quoted (case cjson_name c of None \<Rightarrow> [] | Some s \<Rightarrow> s)
        @ '':'' @ text_of other c) cs) @ ''}'')"

definition granted_count :: "'a option list \<Rightarrow> int" where
  "granted_count xs = int (length (filter (\<lambda>x. x \<noteq> None) xs))"

lemma granted_count_simps [simp]:
  "granted_count [] = 0" "granted_count (x # xs) = (if x = None then 0 else 1) + granted_count xs"
  by (simp_all add: granted_count_def)

lemma live_free_text [simp]: "live (free_text s w) = live w - (if s = None then 0 else 1)"
  by (simp add: free_text_def)

lemma upcoming_free_text [simp]: "upcoming (free_text s w) = upcoming w"
  by (simp add: free_text_def)

lemma live_free_texts [simp]: "live (free_texts ss w) = live w - granted_count ss"
  by (induction ss arbitrary: w) (auto simp: free_texts_def)

lemma upcoming_free_texts [simp]: "upcoming (free_texts ss w) = upcoming w"
  by (induction ss arbitrary: w) (auto simp: free_texts_def)

text \<open>A request of one block: granted or not, and granted where the world grants everything.\<close>

definition one_block :: "string option \<times> world \<Rightarrow> string \<Rightarrow> world \<Rightarrow> bool" where
  "one_block x s w \<longleftrightarrow> (case x of (r, w') \<Rightarrow> live w' = live w + (if r = None then 0 else 1)
    \<and> (r \<noteq> None \<longrightarrow> r = Some s) \<and> (upcoming w = [] \<longrightarrow> r \<noteq> None \<and> upcoming w' = []))"

lemma malloc_calm: "upcoming w = [] \<Longrightarrow> memory_malloc n w = (Some (fresh w), w\<lparr>live := live w + 1, fresh := fresh w + 1\<rparr>)"
  by (simp add: memory_malloc_def)

lemma one_block_print: "one_block (print_block s n w) s w"
  by (auto simp: one_block_def print_block_def malloc_calm split: prod.splits option.splits
      dest: memory_malloc_Some memory_malloc_None)

lemma one_block_strdup: "one_block (cJSON_strdup s w) s w"
  by (auto simp: one_block_def cJSON_strdup_def malloc_calm split: prod.splits option.splits
      dest: memory_malloc_Some memory_malloc_None)

lemma one_block_string: "one_block (print_string_ptr s w) (quoted (case s of None \<Rightarrow> [] | Some t \<Rightarrow> t)) w"
  using one_block_print by (cases s) (simp_all add: print_string_ptr_def quoted_def [of "[]"])

lemma one_block_number: "one_block (print_number other n d w) (number_text other n d) w"
  unfolding print_number_def by (rule one_block_print)

definition entries_ok :: "(rat \<Rightarrow> string) \<Rightarrow> cjson list \<Rightarrow> string option list \<times> world \<Rightarrow> world \<Rightarrow> bool" where
  "entries_ok other cs x w \<longleftrightarrow> (case x of (es, w') \<Rightarrow> live w' = live w + granted_count es
    \<and> (None \<notin> set es \<longrightarrow> es = map (\<lambda>c. Some (text_of other c)) cs)
    \<and> (upcoming w = [] \<longrightarrow> None \<notin> set es \<and> upcoming w' = []))"

definition members_ok :: "(rat \<Rightarrow> string) \<Rightarrow> cjson list \<Rightarrow> (string option \<times> string option) list \<times> world \<Rightarrow> world \<Rightarrow> bool" where
  "members_ok other cs x w \<longleftrightarrow> (case x of (ms, w') \<Rightarrow> let texts = concat (map (\<lambda>(n, e). [n, e]) ms) in
    live w' = live w + granted_count texts
    \<and> (None \<notin> set texts \<longrightarrow> ms = map (\<lambda>c. (Some (quoted (case cjson_name c of None \<Rightarrow> [] | Some s \<Rightarrow> s)),
          Some (text_of other c))) cs)
    \<and> (upcoming w = [] \<longrightarrow> None \<notin> set texts \<and> upcoming w' = []))"

lemma print_value_ok:
  "one_block (print_value other c w) (text_of other c) w"
  "entries_ok other cs (print_entries other cs w) w"
  "members_ok other cs (print_members other cs w) w"
proof (induction other c w and other cs w and other cs w rule: print_value_print_entries_print_members.induct)
  case (1 other t vs vi vd nm cs w)
  show ?case
  proof (cases t)
    case cJSON_Array
    show ?thesis
    proof (cases "cs = []")
      case False
      obtain r w1 where r: "memory_malloc (size_of_nat (8 * length cs)) w = (r, w1)" by fastforce
      show ?thesis
      proof (cases r)
        case None
        then show ?thesis using cJSON_Array False r
          by (auto simp: one_block_def malloc_calm dest: memory_malloc_None)
      next
        case (Some a)
        obtain es w2 where es: "print_entries other cs w1 = (es, w2)" by fastforce
        have ok: "entries_ok other cs (es, w2) w1"
          using "1.IH"(1) [OF cJSON_Array False r [unfolded Some, symmetric] refl] by (simp add: es)
        obtain str k where str: "str = ''['' @ comma_list (map the es) @ '']''"
          "k = 5 + sum_list (map (\<lambda>e. length (the e) + 2) es)" by blast
        obtain out w3 where out: "print_block str k w2 = (out, w3)" by fastforce
        have blk: "one_block (out, w3) str w2" using one_block_print out by metis
        have calm: "upcoming w = [] \<Longrightarrow> upcoming w1 = []" using r by (auto simp: malloc_calm)
        have live1: "live w1 = live w + 1" using r Some memory_malloc_Some [of _ w a w1] by simp
        have run: "print_value other (Cjson t vs vi vd nm cs) w =
          (if None \<in> set es then (None, memory_free (free_texts es w2))
           else (out, memory_free (free_texts es w3)))"
          using cJSON_Array False r Some es out by (simp add: str Let_def)
        show ?thesis
        proof (cases "None \<in> set es")
          case True
          then show ?thesis using ok calm live1 unfolding run by (auto simp: one_block_def entries_ok_def)
        next
          case False
          then have "es = map (\<lambda>c. Some (text_of other c)) cs" "live w2 = live w1 + granted_count es"
            "upcoming w1 = [] \<Longrightarrow> upcoming w2 = []"
            using ok by (auto simp: entries_ok_def)
          moreover from this(1) have "str = text_of other (Cjson t vs vi vd nm cs)"
            by (simp add: str cJSON_Array o_def)
          ultimately show ?thesis
            using False blk calm live1 unfolding run by (auto simp: one_block_def)
        qed
      qed
    qed (use cJSON_Array one_block_print in simp)
  next
    case cJSON_Object
    show ?thesis
    proof (cases "cs = []")
      case False
      obtain r w1 where r: "memory_malloc (size_of_nat (8 * length cs)) w = (r, w1)" by fastforce
      show ?thesis
      proof (cases r)
        case None
        then show ?thesis using cJSON_Object False r
          by (auto simp: one_block_def malloc_calm dest: memory_malloc_None)
      next
        case (Some a)
        obtain q w2 where q: "memory_malloc (size_of_nat (8 * length cs)) w1 = (q, w2)" by fastforce
        show ?thesis
        proof (cases q)
          case None
          have calm: "upcoming w \<noteq> []" using r q None by (auto simp: malloc_calm)
          have "live w2 = live w + 1"
            using r q Some None memory_malloc_Some [of _ w a w1] memory_malloc_None [of _ w1 w2] by simp
          moreover have "print_value other (Cjson t vs vi vd nm cs) w = (None, memory_free w2)"
            using cJSON_Object False r q Some None by simp
          ultimately show ?thesis using calm by (simp add: one_block_def)
        next
          case (Some b)
          obtain ms w3 where ms: "print_members other cs w2 = (ms, w3)" by fastforce
          have ok: "members_ok other cs (ms, w3) w2"
            using "1.IH"(2) [OF cJSON_Object False r [unfolded \<open>r = Some a\<close>, symmetric] refl q [unfolded Some, symmetric] refl]
            by (simp add: ms)
          obtain s k where s: "s = ''{'' @ comma_list (map (\<lambda>(n, e). the n @ '':'' @ the e) ms) @ ''}''"
            "k = 7 + sum_list (map (\<lambda>(n, e). length (the e) + length (the n) + 2) ms)" by blast
          obtain out w4 where out: "print_block s k w3 = (out, w4)" by fastforce
          have blk: "one_block (out, w4) s w3" using one_block_print out by metis
          obtain texts where texts: "texts = concat (map (\<lambda>(n, e). [n, e]) ms)" by blast
          have calm: "upcoming w = [] \<Longrightarrow> upcoming w2 = []"
            using r q by (auto simp: malloc_calm)
          have live2: "live w2 = live w + 2"
            using r q \<open>r = Some a\<close> Some memory_malloc_Some [of _ w a w1] memory_malloc_Some [of _ w1 b w2] by simp
          have run: "print_value other (Cjson t vs vi vd nm cs) w =
            (if None \<in> set texts then (None, memory_free (memory_free (free_texts texts w3)))
             else (out, memory_free (memory_free (free_texts texts w4))))"
            using cJSON_Object False r q \<open>r = Some a\<close> Some ms out by (simp add: s texts Let_def del: set_concat)
          show ?thesis
          proof (cases "None \<in> set texts")
            case True
            then show ?thesis using ok calm live2 unfolding run by (auto simp: one_block_def members_ok_def texts Let_def)
          next
            case False
            then have "ms = map (\<lambda>c. (Some (quoted (case cjson_name c of None \<Rightarrow> [] | Some s \<Rightarrow> s)),
                Some (text_of other c))) cs" "live w3 = live w2 + granted_count texts"
              "upcoming w2 = [] \<Longrightarrow> upcoming w3 = []"
              using ok by (auto simp: members_ok_def texts Let_def)
            moreover from this(1) have "s = text_of other (Cjson t vs vi vd nm cs)"
              by (simp add: s cJSON_Object o_def)
            ultimately show ?thesis
              using False blk calm live2 unfolding run by (auto simp: one_block_def)
          qed
        qed
      qed
    qed (use cJSON_Object one_block_print in simp)
  qed (simp_all add: one_block_strdup one_block_number one_block_string)
next
  case (2 other w)
  then show ?case by (simp add: entries_ok_def)
next
  case (3 other c cs w)
  obtain e w1 where e: "print_value other c w = (e, w1)" by fastforce
  obtain es w2 where es: "print_entries other cs w1 = (es, w2)" by fastforce
  have 1: "one_block (e, w1) (text_of other c) w" using "3.IH"(1) by (simp add: e)
  have 2: "e \<noteq> None \<Longrightarrow> entries_ok other cs (es, w2) w1" using "3.IH"(2) [OF e [symmetric] refl] by (simp add: es)
  show ?case
  proof (cases "e = None")
    case True
    then show ?thesis using 1 by (auto simp: e entries_ok_def one_block_def)
  next
    case False
    then have "entries_ok other cs (es, w2) w1" using 2 by simp
    then show ?thesis using 1 False by (auto simp: e es entries_ok_def one_block_def)
  qed
next
  case (4 other w)
  then show ?case by (simp add: members_ok_def)
next
  case (5 other c cs w)
  obtain n w1 where n: "print_string_ptr (cjson_name c) w = (n, w1)" by fastforce
  obtain e w2 where e: "print_value other c w1 = (e, w2)" by fastforce
  obtain ms w3 where ms: "print_members other cs w2 = (ms, w3)" by fastforce
  have 0: "one_block (n, w1) (quoted (case cjson_name c of None \<Rightarrow> [] | Some s \<Rightarrow> s)) w"
    using one_block_string n by metis
  have 1: "one_block (e, w2) (text_of other c) w1" using "5.IH"(1) [OF n [symmetric] refl] by (simp add: e)
  have 2: "n \<noteq> None \<Longrightarrow> e \<noteq> None \<Longrightarrow> members_ok other cs (ms, w3) w2"
    using "5.IH"(2) [OF n [symmetric] refl e [symmetric] refl] by (simp add: ms)
  show ?case
  proof (cases "n = None \<or> e = None")
    case True
    then show ?thesis using 0 1 by (auto simp: n e members_ok_def one_block_def Let_def)
  next
    case False
    then have "members_ok other cs (ms, w3) w2" using 2 by simp
    then show ?thesis using 0 1 False by (auto simp: n e ms members_ok_def one_block_def Let_def)
  qed
qed

section \<open>The blocks of an item\<close>

definition text_blocks :: "string option \<Rightarrow> int" where
  "text_blocks s = (if s = None then 0 else 1)"

fun item_blocks :: "cjson \<Rightarrow> int" where
  "item_blocks (Cjson t vs vi vd nm cs) =
    1 + text_blocks vs + text_blocks nm + sum_list (map item_blocks cs)"

lemma item_blocks_set_children [simp]:
  "item_blocks (set_children cs c) = item_blocks c - sum_list (map item_blocks (cjson_child c)) + sum_list (map item_blocks cs)"
  by (cases c) simp

lemma item_blocks_set_name [simp]:
  "item_blocks (set_name nm c) = item_blocks c - text_blocks (cjson_name c) + text_blocks nm"
  by (cases c) simp

lemma item_blocks_new_item [simp]: "item_blocks (new_item t) = 1"
  by (simp add: new_item_def text_blocks_def)

lemma fold_frees:
  "(\<And>c w. c \<in> set cs \<Longrightarrow> live (f c w) = live w - g c \<and> upcoming (f c w) = upcoming w) \<Longrightarrow>
    live (fold f cs w) = live w - sum_list (map g cs) \<and> upcoming (fold f cs w) = upcoming w"
  by (induction cs arbitrary: w) simp_all

lemma cJSON_Delete_frees:
  "live (cJSON_Delete c w) = live w - item_blocks c \<and> upcoming (cJSON_Delete c w) = upcoming w"
proof (induction c arbitrary: w)
  case (Cjson t vs vi vd nm cs)
  have "live (fold cJSON_Delete cs w) = live w - sum_list (map item_blocks cs)
    \<and> upcoming (fold cJSON_Delete cs w) = upcoming w"
    using Cjson by (intro fold_frees) blast
  then show ?case by (simp add: text_blocks_def)
qed

lemmas live_cJSON_Delete [simp] = cJSON_Delete_frees [THEN conjunct1]
lemmas upcoming_cJSON_Delete [simp] = cJSON_Delete_frees [THEN conjunct2]

text \<open>A request for an item gives \<open>c\<close> with its blocks, or nothing.\<close>

definition one_item :: "cjson option \<times> world \<Rightarrow> cjson \<Rightarrow> world \<Rightarrow> bool" where
  "one_item x c w \<longleftrightarrow> (case x of (r, w') \<Rightarrow> live w' = live w + (if r = None then 0 else item_blocks c)
    \<and> (r \<noteq> None \<longrightarrow> r = Some c) \<and> (upcoming w = [] \<longrightarrow> r \<noteq> None \<and> upcoming w' = []))"

lemma one_item_Create: "one_item (cJSON_Create t w) (new_item t) w"
  by (auto simp: one_item_def cJSON_Create_def cJSON_New_Item_def malloc_calm split: prod.splits option.splits
      dest: memory_malloc_Some memory_malloc_None)

lemma copy_text_counts:
  "case copy_text s w of (ok, w') \<Rightarrow> live w' = live w + (if ok then text_blocks s else 0)
    \<and> (upcoming w = [] \<longrightarrow> ok \<and> upcoming w' = [])"
  using one_block_strdup [of "the s" w]
  by (cases s) (auto simp: copy_text_def text_blocks_def one_block_def split: prod.splits)

lemma one_item_CreateString:
  "one_item (cJSON_CreateString s w) (Cjson cJSON_String (Some s) 0 0 None []) w"
proof (cases "cJSON_New_Item w")
  case (Pair a w1)
  then have a: "live w1 = live w + (if a = None then 0 else 1)" "upcoming w = [] \<Longrightarrow> a \<noteq> None \<and> upcoming w1 = []"
    by (auto simp: cJSON_New_Item_def malloc_calm dest: memory_malloc_Some memory_malloc_None)
  obtain c w2 where c: "cJSON_strdup s w1 = (c, w2)" by fastforce
  then have "one_block (c, w2) s w1" using one_block_strdup by metis
  with a show ?thesis
    by (cases a; cases c) (auto simp: one_item_def cJSON_CreateString_def Pair c one_block_def text_blocks_def)
qed

lemma set_children_id [simp]: "set_children (cjson_child c) c = c"
  by (cases c) simp

lemma set_children_twice [simp]: "set_children cs (set_children ds c) = set_children cs c"
  "cjson_child (set_children cs c) = cs"
  by (cases c; simp)+

definition children_ok :: "cjson \<Rightarrow> cjson list \<Rightarrow> cjson option \<times> world \<Rightarrow> world \<Rightarrow> bool" where
  "children_ok d cs x w \<longleftrightarrow> (case x of (r, w') \<Rightarrow>
    live w' = live w + (if r = None then - item_blocks d else sum_list (map item_blocks cs))
    \<and> (r \<noteq> None \<longrightarrow> r = Some (set_children (cjson_child d @ cs) d))
    \<and> (upcoming w = [] \<longrightarrow> r \<noteq> None \<and> upcoming w' = []))"

text \<open>A copy is equal to the item, with blocks of its own; a copy that fails leaves nothing.\<close>

lemma cJSON_Duplicate_counts:
  "one_item (cJSON_Duplicate c w) c w"
  "children_ok d cs (duplicate_children d cs w) w"
proof (induction c w and d cs w rule: cJSON_Duplicate_duplicate_children.induct)
  case (1 t vs vi vd nm cs w)
  obtain a w1 where a: "cJSON_New_Item w = (a, w1)" by fastforce
  then have a1: "live w1 = live w + (if a = None then 0 else 1)" "upcoming w = [] \<Longrightarrow> a \<noteq> None \<and> upcoming w1 = []"
    by (auto simp: cJSON_New_Item_def malloc_calm dest: memory_malloc_Some memory_malloc_None)
  obtain k2 w2 where k2: "copy_text vs w1 = (k2, w2)" by fastforce
  have c2: "live w2 = live w1 + (if k2 then text_blocks vs else 0)" "upcoming w1 = [] \<Longrightarrow> k2 \<and> upcoming w2 = []"
    using copy_text_counts [where s = vs and w = w1] by (simp_all add: k2)
  obtain k3 w3 where k3: "copy_text nm w2 = (k3, w3)" by fastforce
  have c3: "live w3 = live w2 + (if k3 then text_blocks nm else 0)" "upcoming w2 = [] \<Longrightarrow> k3 \<and> upcoming w3 = []"
    using copy_text_counts [where s = nm and w = w2] by (simp_all add: k3)
  show ?case
  proof (cases "a = None \<or> \<not> k2 \<or> \<not> k3")
    case True
    then show ?thesis using a1 c2 c3
      by (cases a; cases k2; cases k3) (auto simp: one_item_def a k2 k3 text_blocks_def)
  next
    case False
    then obtain b where b: "a = Some b" "k2" "k3" by (cases a) auto
    have "children_ok (Cjson t vs vi vd nm []) cs (duplicate_children (Cjson t vs vi vd nm []) cs w3) w3"
      using "1.IH" [OF a [unfolded b, symmetric] refl k2 [symmetric] _ k3 [symmetric]] b by simp
    then show ?thesis using a1 c2 c3 b
      by (auto simp: one_item_def children_ok_def a k2 k3 split: prod.splits)
  qed
next
  case (2 newitem w)
  then show ?case by (simp add: children_ok_def)
next
  case (3 newitem c cs w)
  obtain r w1 where r: "cJSON_Duplicate c w = (r, w1)" by fastforce
  have 1: "one_item (r, w1) c w" using "3.IH"(1) by (simp add: r)
  show ?case
  proof (cases r)
    case None
    then show ?thesis using 1 by (simp add: r children_ok_def one_item_def)
  next
    case (Some d)
    then have d: "d = c" "live w1 = live w + item_blocks c" "upcoming w = [] \<Longrightarrow> upcoming w1 = []"
      using 1 by (auto simp: one_item_def)
    let ?n = "set_children (cjson_child newitem @ [c]) newitem"
    have "children_ok ?n cs (duplicate_children ?n cs w1) w1"
      using "3.IH"(2) [OF r [unfolded Some, symmetric] refl] d by simp
    then show ?thesis using d by (auto simp: r Some children_ok_def split: prod.splits)
  qed
qed

end
