(* ===== verification/MCL_Json_Util.thy ===== *)
theory MCL_Json_Util
  imports MCL_Cjson MCL_String
begin

text \<open>
  \<^verbatim>\<open>json_util.c\<close>.  A \<^verbatim>\<open>json_t\<close> refers to an item of a tree.  The tree of the item is given, the
  item by the way to it from the root: a handle that owns its tree has the empty way, the handle of
  an object or an array that has been started inside of another one has a longer one.  Each
  handle is a block of its own.
\<close>

section \<open>Places in a tree\<close>

type_synonym place = "nat list"

fun item_at :: "cjson \<Rightarrow> place \<Rightarrow> cjson option" where
  "item_at c [] = Some c"
| "item_at c (k # p) = (if k < length (cjson_child c) then item_at (cjson_child c ! k) p else None)"

fun change_at :: "cjson \<Rightarrow> place \<Rightarrow> cjson \<Rightarrow> cjson" where
  "change_at c [] d = d"
| "change_at c (k # p) d = set_children ((cjson_child c)[k := change_at (cjson_child c ! k) p d]) c"

section \<open>Handles\<close>

datatype E_JSON_TYPE = JSON_ARRAY | JSON_OBJECT | JSON_NULL

datatype E_MCL_JSON_TYPE = MCL_JSON_ARRAY | MCL_JSON_OBJECT

definition sizeof_json :: mcl_size_t where "sizeof_json = 8"

definition json_util_initialize :: "E_JSON_TYPE \<Rightarrow> world \<Rightarrow> E_MCL_ERROR_CODE \<times> cjson option \<times> world" where
  "json_util_initialize json_type w =
    (case memory_allocate sizeof_json w of
      (None, w1) \<Rightarrow> (MCL_OUT_OF_MEMORY, None, w1)
    | (Some a, w1) \<Rightarrow>
        (case (case json_type of
            JSON_ARRAY \<Rightarrow> cJSON_CreateArray w1
          | JSON_OBJECT \<Rightarrow> cJSON_CreateObject w1
          | JSON_NULL \<Rightarrow> (None, w1)) of
          (None, w2) \<Rightarrow> (MCL_OUT_OF_MEMORY, None, memory_free w2)
        | (Some c, w2) \<Rightarrow> (MCL_OK, Some c, w2)))"

definition finish_json_item :: "'a option \<Rightarrow> world \<Rightarrow> world" where
  "finish_json_item json_item w = (if json_item = None then w else memory_free w)"

definition json_util_finish_object :: "'a option \<Rightarrow> world \<Rightarrow> world" where
  "json_util_finish_object = finish_json_item"
definition json_util_finish_array :: "'a option \<Rightarrow> world \<Rightarrow> world" where
  "json_util_finish_array = finish_json_item"

definition json_util_destroy :: "cjson option \<Rightarrow> world \<Rightarrow> world" where
  "json_util_destroy item0 w = (case item0 of None \<Rightarrow> w | Some c \<Rightarrow> memory_free (cJSON_Delete c w))"

definition json_util_get_object_item ::
    "cjson \<Rightarrow> place \<Rightarrow> string \<Rightarrow> world \<Rightarrow> (E_MCL_ERROR_CODE \<times> place option \<times> world) option" where
  "json_util_get_object_item t p child_name w =
    (case memory_allocate sizeof_json w of
      (None, w1) \<Rightarrow> Some (MCL_OUT_OF_MEMORY, None, w1)
    | (Some a, w1) \<Rightarrow> do {
        parent \<leftarrow> item_at t p;
        Some (case cJSON_GetObjectItem parent child_name of
            None \<Rightarrow> (MCL_NON_EXISTING_JSON_CHILD, None, memory_free w1)
          | Some k \<Rightarrow> (MCL_OK, Some (p @ [k]), w1))
      })"

text \<open>What every operation that adds a named item starts with: the look for the name, the release of
  the handle that was found.\<close>

definition look_for_name :: "cjson \<Rightarrow> place \<Rightarrow> string \<Rightarrow> world \<Rightarrow> (E_MCL_ERROR_CODE \<times> world) option" where
  "look_for_name t p name w = do {
    (code, json_child, w1) \<leftarrow> json_util_get_object_item t p name w;
    if code = MCL_OUT_OF_MEMORY then Some (code, w1)
    else Some (code, finish_json_item json_child w1)
  }"

section \<open>Adding\<close>

definition start_item ::
    "E_JSON_TYPE \<Rightarrow> cjson \<Rightarrow> place \<Rightarrow> string \<Rightarrow> world
      \<Rightarrow> (E_MCL_ERROR_CODE \<times> cjson \<times> place option \<times> world) option" where
  "start_item json_type t p name w = do {
    (code, w1) \<leftarrow> look_for_name t p name w;
    if code = MCL_OUT_OF_MEMORY then Some (code, t, None, w1)
    else if code \<noteq> MCL_NON_EXISTING_JSON_CHILD then Some (MCL_JSON_NAME_DUPLICATION, t, None, w1)
    else (case json_util_initialize json_type w1 of
        (code1, None, w2) \<Rightarrow> Some (code1, t, None, w2)
      | (code1, Some c, w2) \<Rightarrow> do {
          parent \<leftarrow> item_at t p;
          let (parent1, w3) = cJSON_AddItemToObject parent name (Some c) w2;
          Some (MCL_OK, change_at t p parent1, Some (p @ [length (cjson_child parent)]), w3)
        })
  }"

definition json_util_start_array where "json_util_start_array = start_item JSON_ARRAY"
definition json_util_start_object where "json_util_start_object = start_item JSON_OBJECT"

text \<open>An item that \<open>create\<close> makes is added to an array without a name, or to an object under a name
  that is not in use.\<close>

definition add_created ::
    "(world \<Rightarrow> (cjson option \<times> world) option) \<Rightarrow> cjson \<Rightarrow> place \<Rightarrow> string option \<Rightarrow> world
      \<Rightarrow> (E_MCL_ERROR_CODE \<times> cjson \<times> world) option" where
  "add_created create t p object_name w = do {
    item0 \<leftarrow> item_at t p;
    (case object_name of
      None \<Rightarrow>
        if cjson_type item0 = cJSON_Array then do {
          (item, w1) \<leftarrow> create w;
          Some (MCL_OK, change_at t p (cJSON_AddItemToArray item0 item), w1)
        }
        else Some (MCL_INVALID_PARAMETER, t, w)
    | Some name \<Rightarrow>
        if cjson_type item0 = cJSON_Object then do {
          (code, w1) \<leftarrow> look_for_name t p name w;
          if code = MCL_OUT_OF_MEMORY then Some (code, t, w1)
          else if code \<noteq> MCL_NON_EXISTING_JSON_CHILD then Some (MCL_JSON_NAME_DUPLICATION, t, w1)
          else do {
            (item, w2) \<leftarrow> create w1;
            let (item1, w3) = cJSON_AddItemToObject item0 name item w2;
            Some (MCL_OK, change_at t p item1, w3)
          }
        }
        else Some (MCL_INVALID_PARAMETER, t, w))
  }"

definition json_util_add_string ::
    "cjson \<Rightarrow> place \<Rightarrow> string option \<Rightarrow> string \<Rightarrow> world \<Rightarrow> (E_MCL_ERROR_CODE \<times> cjson \<times> world) option" where
  "json_util_add_string t p object_name object_value w =
    add_created (\<lambda>w. Some (cJSON_CreateString object_value w)) t p object_name w"

text \<open>The number goes through a double and an \<^verbatim>\<open>int\<close>.\<close>

definition json_util_add_uint ::
    "cjson \<Rightarrow> place \<Rightarrow> string option \<Rightarrow> mcl_size_t \<Rightarrow> world \<Rightarrow> (E_MCL_ERROR_CODE \<times> cjson \<times> world) option" where
  "json_util_add_uint t p object_name number w =
    add_created (cJSON_CreateNumber (fl (of_nat (unat number)))) t p object_name w"

definition json_util_add_float ::
    "cjson \<Rightarrow> place \<Rightarrow> string option \<Rightarrow> rat \<Rightarrow> world \<Rightarrow> (E_MCL_ERROR_CODE \<times> cjson \<times> world) option" where
  "json_util_add_float t p object_name number w = Some (MCL_OPERATION_IS_NOT_SUPPORTED, t, w)"

definition json_util_add_double ::
    "cjson \<Rightarrow> place \<Rightarrow> string option \<Rightarrow> rat \<Rightarrow> world \<Rightarrow> (E_MCL_ERROR_CODE \<times> cjson \<times> world) option" where
  "json_util_add_double t p object_name number w = add_created (cJSON_CreateNumber number) t p object_name w"

definition json_util_add_bool ::
    "cjson \<Rightarrow> place \<Rightarrow> string option \<Rightarrow> bool \<Rightarrow> world \<Rightarrow> (E_MCL_ERROR_CODE \<times> cjson \<times> world) option" where
  "json_util_add_bool t p object_name bool_value w =
    add_created (\<lambda>w. Some (cJSON_CreateBool bool_value w)) t p object_name w"

definition json_util_add_null ::
    "cjson \<Rightarrow> place \<Rightarrow> string option \<Rightarrow> world \<Rightarrow> (E_MCL_ERROR_CODE \<times> cjson \<times> world) option" where
  "json_util_add_null t p object_name w =
    add_created (\<lambda>w. Some (cJSON_CreateNull w)) t p object_name w"

text \<open>The item of \<open>object\<close> becomes an item of the tree; its handle remains.\<close>

definition json_util_add_object ::
    "cjson \<Rightarrow> place \<Rightarrow> string \<Rightarrow> cjson \<Rightarrow> world \<Rightarrow> (E_MCL_ERROR_CODE \<times> cjson \<times> world) option" where
  "json_util_add_object t p object_name object w = do {
    (code, w1) \<leftarrow> look_for_name t p object_name w;
    if code = MCL_OUT_OF_MEMORY then Some (code, t, w1)
    else if code = MCL_NON_EXISTING_JSON_CHILD then do {
      item0 \<leftarrow> item_at t p;
      let (item1, w2) = cJSON_AddItemToObject item0 object_name (Some object) w1;
      Some (MCL_OK, change_at t p item1, w2)
    }
    else Some (MCL_JSON_NAME_DUPLICATION, t, w1)
  }"

definition json_util_add_item_to_array :: "cjson \<Rightarrow> place \<Rightarrow> cjson \<Rightarrow> cjson option" where
  "json_util_add_item_to_array t p object = do {
    item0 \<leftarrow> item_at t p;
    Some (change_at t p (cJSON_AddItemToArray item0 (Some object)))
  }"

section \<open>Reading\<close>

definition json_util_get_array_item ::
    "cjson \<Rightarrow> place \<Rightarrow> int \<Rightarrow> world \<Rightarrow> (E_MCL_ERROR_CODE \<times> cjson option \<times> world) option" where
  "json_util_get_array_item t p index w =
    (case memory_allocate sizeof_json w of
      (None, w1) \<Rightarrow> Some (MCL_OUT_OF_MEMORY, None, w1)
    | (Some a, w1) \<Rightarrow> do {
        array \<leftarrow> item_at t p;
        let (copy, w2) = (case cJSON_GetArrayItem array index of
            None \<Rightarrow> (None, w1)
          | Some k \<Rightarrow> cJSON_Duplicate (cjson_child array ! k) w1);
        Some (if copy = None then (MCL_FAIL, None, memory_free w2) else (MCL_OK, copy, w2))
      })"

definition json_util_get_array_size :: "cjson \<Rightarrow> place \<Rightarrow> mcl_size_t option" where
  "json_util_get_array_size t p = do { array \<leftarrow> item_at t p; Some (size_of_nat (cJSON_GetArraySize array)) }"

definition json_util_has_child :: "cjson \<Rightarrow> place \<Rightarrow> bool option" where
  "json_util_has_child t p = do { item0 \<leftarrow> item_at t p; Some (cjson_child item0 \<noteq> []) }"

definition json_util_get_number_value :: "cjson \<Rightarrow> place \<Rightarrow> int option" where
  "json_util_get_number_value t p = do { json \<leftarrow> item_at t p; Some (valueint json) }"

definition json_util_get_double_value :: "cjson \<Rightarrow> place \<Rightarrow> rat option" where
  "json_util_get_double_value t p = do { json \<leftarrow> item_at t p; Some (valuedouble json) }"

definition json_util_get_bool_value :: "cjson \<Rightarrow> place \<Rightarrow> bool option" where
  "json_util_get_bool_value t p = do { json \<leftarrow> item_at t p; Some (cjson_type json = cJSON_True) }"

definition json_util_get_string ::
    "cjson \<Rightarrow> place \<Rightarrow> world \<Rightarrow> (E_MCL_ERROR_CODE \<times> string_t option \<times> world) option" where
  "json_util_get_string t p w = do {
    json_item \<leftarrow> item_at t p;
    (code, string_value, w1) \<leftarrow> string_initialize_new (map_option cstring (valuestring json_item)) 0 w;
    Some (if code = MCL_OK then MCL_OK else MCL_OUT_OF_MEMORY, string_value, w1)
  }"

definition json_util_to_string ::
    "(rat \<Rightarrow> string) \<Rightarrow> cjson \<Rightarrow> world \<Rightarrow> E_MCL_ERROR_CODE \<times> char list option \<times> world" where
  "json_util_to_string other item0 w =
    (case cJSON_PrintUnformatted other item0 w of
      (None, w1) \<Rightarrow> (MCL_FAIL, None, w1)
    | (Some s, w1) \<Rightarrow> (MCL_OK, Some (cstring s), w1))"

definition json_util_duplicate ::
    "cjson \<Rightarrow> bool \<Rightarrow> world \<Rightarrow> E_MCL_ERROR_CODE \<times> cjson option \<times> world" where
  "json_util_duplicate source_json with_children w =
    (case memory_allocate sizeof_json w of
      (None, w1) \<Rightarrow> (MCL_OUT_OF_MEMORY, None, w1)
    | (Some a, w1) \<Rightarrow>
        (case cJSON_Duplicate (if with_children then source_json else set_children [] source_json) w1 of
          (None, w2) \<Rightarrow> (MCL_OUT_OF_MEMORY, None, memory_free w2)
        | (Some c, w2) \<Rightarrow> (MCL_OK, Some c, w2)))"

section \<open>The exported functions\<close>

text \<open>They check their arguments and call the functions above.  A handle is a tree with a place, or
  absent; \<open>given\<close> says whether the place for a result is given.\<close>

type_synonym handle = "(cjson \<times> place) option"

definition convert_mcl_json_type_to_json_type :: "E_MCL_JSON_TYPE \<Rightarrow> E_JSON_TYPE" where
  "convert_mcl_json_type_to_json_type t =
    (case t of MCL_JSON_ARRAY \<Rightarrow> JSON_ARRAY | MCL_JSON_OBJECT \<Rightarrow> JSON_OBJECT)"

definition mcl_json_util_initialize ::
    "E_MCL_JSON_TYPE \<Rightarrow> bool \<Rightarrow> world \<Rightarrow> E_MCL_ERROR_CODE \<times> cjson option \<times> world" where
  "mcl_json_util_initialize json_type given w =
    (if \<not> given then (MCL_TRIGGERED_WITH_NULL, None, w)
     else json_util_initialize (convert_mcl_json_type_to_json_type json_type) w)"

text \<open>An operation that adds to the tree of a handle.\<close>

definition on_handle ::
    "handle \<Rightarrow> (cjson \<Rightarrow> place \<Rightarrow> (E_MCL_ERROR_CODE \<times> cjson \<times> world) option) \<Rightarrow> world
      \<Rightarrow> (E_MCL_ERROR_CODE \<times> handle \<times> world) option" where
  "on_handle h f w = (case h of
      None \<Rightarrow> Some (MCL_TRIGGERED_WITH_NULL, h, w)
    | Some (t, p) \<Rightarrow> do { (code, t1, w1) \<leftarrow> f t p; Some (code, Some (t1, p), w1) })"

definition mcl_json_util_start_array ::
    "handle \<Rightarrow> string option \<Rightarrow> bool \<Rightarrow> world \<Rightarrow> (E_MCL_ERROR_CODE \<times> handle \<times> place option \<times> world) option" where
  "mcl_json_util_start_array h array_name given w =
    (case (h, array_name) of
      (Some (t, p), Some name) \<Rightarrow>
        if given then do {
          (code, t1, q, w1) \<leftarrow> json_util_start_array t p name w;
          Some (code, Some (t1, p), q, w1)
        }
        else Some (MCL_TRIGGERED_WITH_NULL, h, None, w)
    | _ \<Rightarrow> Some (MCL_TRIGGERED_WITH_NULL, h, None, w))"

definition mcl_json_util_start_object ::
    "handle \<Rightarrow> string option \<Rightarrow> bool \<Rightarrow> world \<Rightarrow> (E_MCL_ERROR_CODE \<times> handle \<times> place option \<times> world) option" where
  "mcl_json_util_start_object h object_name given w =
    (case (h, object_name) of
      (Some (t, p), Some name) \<Rightarrow>
        if given then do {
          (code, t1, q, w1) \<leftarrow> json_util_start_object t p name w;
          Some (code, Some (t1, p), q, w1)
        }
        else Some (MCL_TRIGGERED_WITH_NULL, h, None, w)
    | _ \<Rightarrow> Some (MCL_TRIGGERED_WITH_NULL, h, None, w))"

definition mcl_json_util_get_array_item ::
    "handle \<Rightarrow> int \<Rightarrow> bool \<Rightarrow> world \<Rightarrow> (E_MCL_ERROR_CODE \<times> cjson option \<times> world) option" where
  "mcl_json_util_get_array_item h index given w =
    (case h of
      None \<Rightarrow> Some (MCL_TRIGGERED_WITH_NULL, None, w)
    | Some (t, p) \<Rightarrow> if given then json_util_get_array_item t p index w else Some (MCL_TRIGGERED_WITH_NULL, None, w))"

definition mcl_json_util_get_array_size :: "handle \<Rightarrow> bool \<Rightarrow> (E_MCL_ERROR_CODE \<times> mcl_size_t option) option" where
  "mcl_json_util_get_array_size h given =
    (case h of
      None \<Rightarrow> Some (MCL_TRIGGERED_WITH_NULL, None)
    | Some (t, p) \<Rightarrow> if given then do { n \<leftarrow> json_util_get_array_size t p; Some (MCL_OK, Some n) }
        else Some (MCL_TRIGGERED_WITH_NULL, None))"

definition mcl_json_util_add_string ::
    "handle \<Rightarrow> string option \<Rightarrow> string option \<Rightarrow> world \<Rightarrow> (E_MCL_ERROR_CODE \<times> handle \<times> world) option" where
  "mcl_json_util_add_string h object_name object_value w =
    (case object_value of
      None \<Rightarrow> Some (MCL_TRIGGERED_WITH_NULL, h, w)
    | Some v \<Rightarrow> on_handle h (\<lambda>t p. json_util_add_string t p object_name v w) w)"

definition mcl_json_util_add_uint ::
    "handle \<Rightarrow> string option \<Rightarrow> mcl_size_t \<Rightarrow> world \<Rightarrow> (E_MCL_ERROR_CODE \<times> handle \<times> world) option" where
  "mcl_json_util_add_uint h object_name number w =
    on_handle h (\<lambda>t p. json_util_add_uint t p object_name number w) w"

definition mcl_json_util_add_float ::
    "handle \<Rightarrow> string option \<Rightarrow> rat \<Rightarrow> world \<Rightarrow> (E_MCL_ERROR_CODE \<times> handle \<times> world) option" where
  "mcl_json_util_add_float h object_name number w = Some (MCL_OPERATION_IS_NOT_SUPPORTED, h, w)"

definition mcl_json_util_add_double ::
    "handle \<Rightarrow> string option \<Rightarrow> rat \<Rightarrow> world \<Rightarrow> (E_MCL_ERROR_CODE \<times> handle \<times> world) option" where
  "mcl_json_util_add_double h object_name number w =
    on_handle h (\<lambda>t p. json_util_add_double t p object_name number w) w"

definition mcl_json_util_add_bool ::
    "handle \<Rightarrow> string option \<Rightarrow> bool \<Rightarrow> world \<Rightarrow> (E_MCL_ERROR_CODE \<times> handle \<times> world) option" where
  "mcl_json_util_add_bool h object_name bool_value w =
    on_handle h (\<lambda>t p. json_util_add_bool t p object_name bool_value w) w"

definition mcl_json_util_add_null ::
    "handle \<Rightarrow> string option \<Rightarrow> world \<Rightarrow> (E_MCL_ERROR_CODE \<times> handle \<times> world) option" where
  "mcl_json_util_add_null h object_name w = on_handle h (\<lambda>t p. json_util_add_null t p object_name w) w"

text \<open>The code of the operation is not passed on.\<close>

definition mcl_json_util_add_object ::
    "handle \<Rightarrow> string option \<Rightarrow> cjson option \<Rightarrow> world \<Rightarrow> (E_MCL_ERROR_CODE \<times> handle \<times> world) option" where
  "mcl_json_util_add_object h object_name object w =
    (case (h, object_name, object) of
      (Some (t, p), Some name, Some c) \<Rightarrow> do {
        (code, t1, w1) \<leftarrow> json_util_add_object t p name c w;
        Some (MCL_OK, Some (t1, p), w1)
      }
    | _ \<Rightarrow> Some (MCL_TRIGGERED_WITH_NULL, h, w))"

definition mcl_json_util_add_item_to_array ::
    "handle \<Rightarrow> cjson option \<Rightarrow> (E_MCL_ERROR_CODE \<times> handle) option" where
  "mcl_json_util_add_item_to_array h object =
    (case (h, object) of
      (Some (t, p), Some c) \<Rightarrow> do { t1 \<leftarrow> json_util_add_item_to_array t p c; Some (MCL_OK, Some (t1, p)) }
    | _ \<Rightarrow> Some (MCL_TRIGGERED_WITH_NULL, h))"

definition mcl_json_util_get_object_item ::
    "handle \<Rightarrow> string option \<Rightarrow> bool \<Rightarrow> world \<Rightarrow> (E_MCL_ERROR_CODE \<times> place option \<times> world) option" where
  "mcl_json_util_get_object_item h child_name given w =
    (case (h, child_name) of
      (Some (t, p), Some name) \<Rightarrow>
        if given then json_util_get_object_item t p name w else Some (MCL_TRIGGERED_WITH_NULL, None, w)
    | _ \<Rightarrow> Some (MCL_TRIGGERED_WITH_NULL, None, w))"

definition reading :: "handle \<Rightarrow> bool \<Rightarrow> (cjson \<Rightarrow> place \<Rightarrow> 'a option) \<Rightarrow> (E_MCL_ERROR_CODE \<times> 'a option) option" where
  "reading h given f =
    (case h of
      None \<Rightarrow> Some (MCL_TRIGGERED_WITH_NULL, None)
    | Some (t, p) \<Rightarrow> if given then do { x \<leftarrow> f t p; Some (MCL_OK, Some x) } else Some (MCL_TRIGGERED_WITH_NULL, None))"

definition mcl_json_util_has_child where "mcl_json_util_has_child h given = reading h given json_util_has_child"
definition mcl_json_util_get_number_value where
  "mcl_json_util_get_number_value h given = reading h given json_util_get_number_value"
definition mcl_json_util_get_double_value where
  "mcl_json_util_get_double_value h given = reading h given json_util_get_double_value"
definition mcl_json_util_get_bool_value where
  "mcl_json_util_get_bool_value h given = reading h given json_util_get_bool_value"

text \<open>The caller gets the buffer, the handle of the string is freed.\<close>

definition mcl_json_util_get_string ::
    "handle \<Rightarrow> bool \<Rightarrow> world \<Rightarrow> (E_MCL_ERROR_CODE \<times> char list option \<times> world) option" where
  "mcl_json_util_get_string h given w =
    (case h of
      None \<Rightarrow> Some (MCL_TRIGGERED_WITH_NULL, None, w)
    | Some (t, p) \<Rightarrow>
        if given then do {
          (code, s, w1) \<leftarrow> json_util_get_string t p w;
          if code \<noteq> MCL_OK then Some (code, None, w1)
          else do { str \<leftarrow> s; Some (MCL_OK, string_buffer str, memory_free w1) }
        }
        else Some (MCL_TRIGGERED_WITH_NULL, None, w))"

definition mcl_json_util_to_string ::
    "(rat \<Rightarrow> string) \<Rightarrow> cjson option \<Rightarrow> bool \<Rightarrow> world \<Rightarrow> E_MCL_ERROR_CODE \<times> char list option \<times> world" where
  "mcl_json_util_to_string other h given w =
    (case h of
      None \<Rightarrow> (MCL_TRIGGERED_WITH_NULL, None, w)
    | Some c \<Rightarrow> if given then json_util_to_string other c w else (MCL_TRIGGERED_WITH_NULL, None, w))"

definition mcl_json_util_finish_array :: "'a option \<Rightarrow> world \<Rightarrow> world" where
  "mcl_json_util_finish_array = json_util_finish_array"
definition mcl_json_util_finish_object :: "'a option \<Rightarrow> world \<Rightarrow> world" where
  "mcl_json_util_finish_object = json_util_finish_object"
definition mcl_json_util_destroy :: "cjson option \<Rightarrow> world \<Rightarrow> world" where
  "mcl_json_util_destroy = json_util_destroy"

section \<open>Where memory is not short\<close>

text \<open>\<open>calm w n w'\<close>: nothing is refused from \<open>w\<close> on, and \<open>n\<close> blocks more are allocated in \<open>w'\<close>.\<close>

definition calm :: "world \<Rightarrow> int \<Rightarrow> world \<Rightarrow> bool" where
  "calm w n w' \<longleftrightarrow> upcoming w' = [] \<and> live w' = live w + n"

lemma calm_free [simp]: "calm w n w' \<Longrightarrow> calm w (n - 1) (memory_free w')"
  by (simp add: calm_def)

lemma calm_trans: "calm w n w1 \<Longrightarrow> calm w1 m w2 \<Longrightarrow> calm w (n + m) w2"
  by (simp add: calm_def)

lemma calm_handle:
  assumes "upcoming w = []"
  obtains a w1 where "memory_allocate sizeof_json w = (Some a, w1)" "calm w 1 w1" "upcoming w1 = []"
  using assms that [of "fresh w" "w\<lparr>live := live w + 1, fresh := fresh w + 1\<rparr>"]
  by (simp add: memory_allocate_unbounded sizeof_json_def calm_def)

lemma calm_item:
  assumes "one_item x c w" "upcoming w = []"
  obtains w1 where "x = (Some c, w1)" "calm w (item_blocks c) w1" "upcoming w1 = []"
  using assms by (cases x) (auto simp: one_item_def calm_def)

lemma calm_block:
  assumes "one_block x s w" "upcoming w = []"
  obtains w1 where "x = (Some s, w1)" "calm w 1 w1" "upcoming w1 = []"
  using assms by (cases x) (auto simp: one_block_def calm_def)

lemma initialize_calm:
  assumes "upcoming w = []" "t = JSON_ARRAY \<and> c = cJSON_Array \<or> t = JSON_OBJECT \<and> c = cJSON_Object"
  obtains w1 where "json_util_initialize t w = (MCL_OK, Some (new_item c), w1)" "calm w 2 w1" "upcoming w1 = []"
proof -
  obtain a w1 where a: "memory_allocate sizeof_json w = (Some a, w1)" "calm w 1 w1" "upcoming w1 = []"
    using assms(1) by (rule calm_handle)
  obtain w2 where b: "cJSON_Create c w1 = (Some (new_item c), w2)" "calm w1 1 w2" "upcoming w2 = []"
    using calm_item [OF one_item_Create a(3)] by auto
  show ?thesis
    using that [of w2] a b assms(2) calm_trans [OF a(2) b(2)]
    by (auto simp: json_util_initialize_def cJSON_CreateArray_def cJSON_CreateObject_def)
qed

lemma look_for_name_calm:
  assumes "upcoming w = []" "item_at t p = Some parent" "index_of_name name (cjson_child parent) = None"
  obtains w1 where "look_for_name t p name w = Some (MCL_NON_EXISTING_JSON_CHILD, w1)" "calm w 0 w1" "upcoming w1 = []"
proof -
  obtain a w1 where a: "memory_allocate sizeof_json w = (Some a, w1)" "calm w 1 w1" "upcoming w1 = []"
    using assms(1) by (rule calm_handle)
  then show ?thesis using that [of "memory_free w1"] assms(2,3) calm_free [OF a(2)]
    by (simp add: look_for_name_def json_util_get_object_item_def cJSON_GetObjectItem_def finish_json_item_def)
qed

lemma AddItemToObject_calm:
  assumes "upcoming w = []" "cjson_name c = None"
  obtains w1 where "cJSON_AddItemToObject parent name (Some c) w
      = (set_children (cjson_child parent @ [set_name (Some name) c]) parent, w1)" "calm w 1 w1" "upcoming w1 = []"
proof -
  obtain w1 where s: "cJSON_strdup name w = (Some name, w1)" "calm w 1 w1" "upcoming w1 = []"
    using calm_block [OF one_block_strdup assms(1)] by auto
  then show ?thesis using that [of w1] assms(2)
    by (simp add: cJSON_AddItemToObject_def cJSON_AddItemToArray_def free_text_def Let_def)
qed

definition json_string :: "string \<Rightarrow> cjson" where "json_string s = Cjson cJSON_String (Some s) 0 0 None []"

text \<open>\<open>add_member\<close> is what all of the adding comes to.\<close>

definition add_member :: "string \<Rightarrow> cjson \<Rightarrow> cjson \<Rightarrow> cjson" where
  "add_member name c parent = set_children (cjson_child parent @ [set_name (Some name) c]) parent"

lemma add_member_simps [simp]:
  "cjson_child (add_member name c parent) = cjson_child parent @ [set_name (Some name) c]"
  "cjson_type (add_member name c parent) = cjson_type parent"
  "cjson_name (add_member name c parent) = cjson_name parent"
  by (cases parent; simp add: add_member_def)+

lemma set_name_simps [simp]:
  "cjson_name (set_name nm c) = nm" "cjson_type (set_name nm c) = cjson_type c"
  "cjson_child (set_name nm c) = cjson_child c" "set_name n2 (set_name nm c) = set_name n2 c"
  by (cases c; simp)+

lemma new_item_simps [simp]:
  "cjson_name (new_item t) = None" "cjson_type (new_item t) = t" "cjson_child (new_item t) = []"
  by (simp_all add: new_item_def)

lemma json_string_simps [simp]: "cjson_name (json_string s) = None" "item_blocks (json_string s) = 2"
  by (simp_all add: json_string_def text_blocks_def)

lemma json_util_add_string_calm:
  assumes "upcoming w = []" "item_at t p = Some parent" "cjson_type parent = cJSON_Object"
    "index_of_name name (cjson_child parent) = None"
  obtains w1 where "json_util_add_string t p (Some name) v w
      = Some (MCL_OK, change_at t p (add_member name (json_string v) parent), w1)" "calm w 3 w1" "upcoming w1 = []"
proof -
  obtain w1 where 1: "look_for_name t p name w = Some (MCL_NON_EXISTING_JSON_CHILD, w1)" "calm w 0 w1" "upcoming w1 = []"
    using assms(1,2,4) by (rule look_for_name_calm)
  obtain w2 where 2: "cJSON_CreateString v w1 = (Some (json_string v), w2)" "calm w1 2 w2" "upcoming w2 = []"
    using calm_item [OF one_item_CreateString 1(3)] by (auto simp: json_string_def text_blocks_def)
  obtain w3 where 3: "cJSON_AddItemToObject parent name (Some (json_string v)) w2
      = (add_member name (json_string v) parent, w3)" "calm w2 1 w3" "upcoming w3 = []"
    using AddItemToObject_calm [OF 2(3), of "json_string v"] by (auto simp: add_member_def)
  show ?thesis
    using that [of w3] 1 2 3 assms(2,3) calm_trans [OF calm_trans [OF 1(2) 2(2)] 3(2)]
    by (simp add: json_util_add_string_def add_created_def)
qed

lemma add_number_calm:
  assumes "upcoming w = []" "item_at t p = Some parent" "cjson_type parent = cJSON_Object"
    "index_of_name name (cjson_child parent) = None" "int_of_double d = Some k"
  obtains w1 where "add_created (cJSON_CreateNumber d) t p (Some name) w
      = Some (MCL_OK, change_at t p (add_member name (Cjson cJSON_Number None k d None []) parent), w1)"
    "calm w 2 w1" "upcoming w1 = []"
proof -
  obtain w1 where 1: "look_for_name t p name w = Some (MCL_NON_EXISTING_JSON_CHILD, w1)" "calm w 0 w1" "upcoming w1 = []"
    using assms(1,2,4) by (rule look_for_name_calm)
  let ?c = "Cjson cJSON_Number None k d None []"
  obtain w2 where 2: "cJSON_CreateNumber d w1 = Some (Some ?c, w2)" "calm w1 1 w2" "upcoming w2 = []"
    using 1(3) assms(5) that by (auto simp: cJSON_CreateNumber_def cJSON_New_Item_def malloc_calm calm_def)
  obtain w3 where 3: "cJSON_AddItemToObject parent name (Some ?c) w2
      = (add_member name ?c parent, w3)" "calm w2 1 w3" "upcoming w3 = []"
    using AddItemToObject_calm [OF 2(3), of ?c] by (auto simp: add_member_def)
  show ?thesis
    using that [of w3] 1 2 3 assms(2,3) calm_trans [OF calm_trans [OF 1(2) 2(2)] 3(2)]
    by (simp add: add_created_def)
qed

lemma json_util_add_uint_calm:
  assumes "upcoming w = []" "item_at t p = Some parent" "cjson_type parent = cJSON_Object"
    "index_of_name name (cjson_child parent) = None" "int_of_double (fl (of_nat (unat n))) = Some k"
  obtains w1 where "json_util_add_uint t p (Some name) n w
      = Some (MCL_OK, change_at t p (add_member name (Cjson cJSON_Number None k (fl (of_nat (unat n))) None []) parent), w1)"
    "calm w 2 w1" "upcoming w1 = []"
  using add_number_calm [OF assms] that by (auto simp: json_util_add_uint_def)

lemma start_item_calm:
  assumes "upcoming w = []" "item_at t p = Some parent" "index_of_name name (cjson_child parent) = None"
    "jt = JSON_ARRAY \<and> c = cJSON_Array \<or> jt = JSON_OBJECT \<and> c = cJSON_Object"
  obtains w1 where "start_item jt t p name w = Some (MCL_OK, change_at t p (add_member name (new_item c) parent),
      Some (p @ [length (cjson_child parent)]), w1)" "calm w 3 w1" "upcoming w1 = []"
proof -
  obtain w1 where 1: "look_for_name t p name w = Some (MCL_NON_EXISTING_JSON_CHILD, w1)" "calm w 0 w1" "upcoming w1 = []"
    using assms(1,2,3) by (rule look_for_name_calm)
  obtain w2 where 2: "json_util_initialize jt w1 = (MCL_OK, Some (new_item c), w2)" "calm w1 2 w2" "upcoming w2 = []"
    using 1(3) assms(4) by (rule initialize_calm)
  obtain w3 where 3: "cJSON_AddItemToObject parent name (Some (new_item c)) w2
      = (add_member name (new_item c) parent, w3)" "calm w2 1 w3" "upcoming w3 = []"
    using AddItemToObject_calm [OF 2(3), of "new_item c"] by (auto simp: add_member_def)
  show ?thesis
    using that [of w3] 1 2 3 assms(2) calm_trans [OF calm_trans [OF 1(2) 2(2)] 3(2)]
    by (simp add: start_item_def)
qed

lemma json_util_add_object_calm:
  assumes "upcoming w = []" "item_at t p = Some parent" "index_of_name name (cjson_child parent) = None"
    "cjson_name c = None"
  obtains w1 where "json_util_add_object t p name c w
      = Some (MCL_OK, change_at t p (add_member name c parent), w1)" "calm w 1 w1" "upcoming w1 = []"
proof -
  obtain w1 where 1: "look_for_name t p name w = Some (MCL_NON_EXISTING_JSON_CHILD, w1)" "calm w 0 w1" "upcoming w1 = []"
    using assms(1,2,3) by (rule look_for_name_calm)
  obtain w2 where 2: "cJSON_AddItemToObject parent name (Some c) w1
      = (add_member name c parent, w2)" "calm w1 1 w2" "upcoming w2 = []"
    using AddItemToObject_calm [OF 1(3) assms(4)] by (auto simp: add_member_def)
  show ?thesis using that [of w2] 1 2 assms(2) calm_trans [OF 1(2) 2(2)] by (simp add: json_util_add_object_def)
qed

lemma json_util_duplicate_calm:
  assumes "upcoming w = []"
  obtains w1 where "json_util_duplicate c True w = (MCL_OK, Some c, w1)" "calm w (1 + item_blocks c) w1" "upcoming w1 = []"
proof -
  obtain a w1 where a: "memory_allocate sizeof_json w = (Some a, w1)" "calm w 1 w1" "upcoming w1 = []"
    using assms by (rule calm_handle)
  obtain w2 where b: "cJSON_Duplicate c w1 = (Some c, w2)" "calm w1 (item_blocks c) w2" "upcoming w2 = []"
    using calm_item [OF cJSON_Duplicate_counts(1) a(3)] by auto
  show ?thesis using that [of w2] a b calm_trans [OF a(2) b(2)] by (simp add: json_util_duplicate_def)
qed

lemma json_util_to_string_calm:
  assumes "upcoming w = []"
  obtains w1 where "json_util_to_string other c w = (MCL_OK, Some (cstring (text_of other c)), w1)" "calm w 1 w1" "upcoming w1 = []"
proof -
  obtain w1 where "print_value other c w = (Some (text_of other c), w1)" "calm w 1 w1" "upcoming w1 = []"
    using calm_block [OF print_value_ok(1) assms] by auto
  then show ?thesis using that by (simp add: json_util_to_string_def cJSON_PrintUnformatted_def)
qed

section \<open>Names are not used twice, but a missing item is not noticed\<close>

text \<open>Adding a string to an object that has the name already, in whatever case it is written, is
  refused and leaves the tree as it was; so no object that is built with these functions has two
  items of the same name.\<close>

theorem json_util_add_string_no_duplicates:
  assumes "item_at t p = Some parent" "cjson_type parent = cJSON_Object"
    "index_of_name name (cjson_child parent) \<noteq> None"
  shows "\<exists>code w1. json_util_add_string t p (Some name) v w = Some (code, t, w1)
    \<and> code \<in> {MCL_JSON_NAME_DUPLICATION, MCL_OUT_OF_MEMORY} \<and> live w1 = live w"
proof (cases "memory_allocate sizeof_json w")
  case (Pair a w1)
  then show ?thesis
    using assms by (cases a) (auto simp: json_util_add_string_def add_created_def look_for_name_def
        json_util_get_object_item_def cJSON_GetObjectItem_def finish_json_item_def dest!: allocation_dests)
qed

text \<open>When memory runs out while the item is made, the string is left out of the object and the call
  reports success all the same.\<close>

theorem json_util_add_string_drops:
  assumes "item_at t p = Some parent" "cjson_type parent = cJSON_Object"
    "index_of_name name (cjson_child parent) = None" "upcoming w = [True, False]"
  shows "\<exists>w1. json_util_add_string t p (Some name) v w = Some (MCL_OK, change_at t p parent, w1)"
  using assms
  by (simp add: json_util_add_string_def add_created_def look_for_name_def json_util_get_object_item_def
      cJSON_GetObjectItem_def finish_json_item_def memory_allocate_def sizeof_json_def memory_malloc_def
      cJSON_CreateString_def cJSON_New_Item_def memory_free_def cJSON_AddItemToObject_def)

lemma json_util_add_string_no_duplicates_witness:
  "\<exists>code w1. json_util_add_string (add_member ''type'' (json_string ''item'') (new_item cJSON_Object)) [] (Some ''Type'') ''x'' quiet_world
      = Some (code, add_member ''type'' (json_string ''item'') (new_item cJSON_Object), w1)
    \<and> code \<in> {MCL_JSON_NAME_DUPLICATION, MCL_OUT_OF_MEMORY} \<and> live w1 = live quiet_world"
  by (rule json_util_add_string_no_duplicates [where parent = "add_member ''type'' (json_string ''item'') (new_item cJSON_Object)"])
    (simp_all add: cJSON_strcasecmp_equal_def tolower_def, code_simp)

lemma json_util_add_string_drops_witness:
  "\<exists>w1. json_util_add_string (new_item cJSON_Object) [] (Some ''type'') ''item'' (quiet_world\<lparr>upcoming := [True, False]\<rparr>)
    = Some (MCL_OK, change_at (new_item cJSON_Object) [] (new_item cJSON_Object), w1)"
  by (rule json_util_add_string_drops [where parent = "new_item cJSON_Object"]) simp_all

end
