(* ===== verification/MCL_Time.thy ===== *)
theory MCL_Time
  imports MCL_String
begin

text \<open>
  The validation of a timestamp in \<^verbatim>\<open>time_util.c\<close>, with \<^verbatim>\<open>strtol\<close> of the C library as it works on
  characters.  Characters are read from a buffer that ends: a read behind its end has no result.
\<close>

section \<open>strtol\<close>

definition is_blank :: "char \<Rightarrow> bool" where
  "is_blank c = (let n = of_char c :: nat in n = 32 \<or> 9 \<le> n \<and> n \<le> 13)"

definition is_digit :: "char \<Rightarrow> bool" where
  "is_digit c = (let n = of_char c :: nat in 48 \<le> n \<and> n \<le> 57)"

definition digit_value :: "char \<Rightarrow> nat" where "digit_value c = of_char c - 48"

fun skip_blanks :: "char list \<Rightarrow> char list option" where
  "skip_blanks [] = None"
| "skip_blanks (c # cs) = (if is_blank c then skip_blanks cs else Some (c # cs))"

fun read_digits :: "nat \<Rightarrow> char list \<Rightarrow> (nat \<times> char list) option" where
  "read_digits n [] = None"
| "read_digits n (c # cs) = (if is_digit c then read_digits (10 * n + digit_value c) cs else Some (n, c # cs))"

definition LONG_MAX :: int where "LONG_MAX = 2 ^ 63 - 1"

text \<open>The number and what follows it; without a digit the number is 0 and nothing has been consumed.\<close>

definition string_util_strtol :: "char list \<Rightarrow> (int \<times> char list) option" where
  "string_util_strtol source = do {
    s \<leftarrow> skip_blanks source;
    let negative = (hd s = CHR ''-'');
    let t = (if hd s = CHR ''-'' \<or> hd s = CHR ''+'' then tl s else s);
    (n, rest) \<leftarrow> read_digits 0 t;
    Some (if rest = t then (0, source)
          else (if negative then max (- LONG_MAX - 1) (- int n) else min LONG_MAX (int n), rest))
  }"

section \<open>Timestamps\<close>

definition characters_to_check :: string where "characters_to_check = ''--T::.Z''"
definition maximum_values :: "nat list" where "maximum_values = [2999, 12, 31, 23, 59, 59, 999]"
definition character_indexes_to_check :: "nat list" where
  "character_indexes_to_check = [4, 7, 10, 13, 16, 19, 23]"

text \<open>The format is looked at only as long as everything was right, the values always.\<close>

fun check_format :: "char list \<Rightarrow> bool \<Rightarrow> nat list \<Rightarrow> bool option" where
  "check_format timestamp ok [] = Some ok"
| "check_format timestamp ok (i # is) =
    (if ok then do {
       c \<leftarrow> read_at timestamp (character_indexes_to_check ! i);
       check_format timestamp (characters_to_check ! i = c) is
     }
     else check_format timestamp False is)"

fun check_values :: "char list \<Rightarrow> bool \<Rightarrow> nat list \<Rightarrow> bool option" where
  "check_values temporary_buffer ok [] = Some ok"
| "check_values temporary_buffer ok (i # is) = do {
    (value1, end_pointer) \<leftarrow> string_util_strtol temporary_buffer;
    let temporary_value = (word_of_int value1 :: mcl_size_t);
    let ok1 = (ok \<and> maximum_values ! i \<ge> unat temporary_value);
    let ok2 = (if i < 3 then ok1 \<and> 0 < temporary_value else ok1);
    check_values (drop 1 end_pointer) ok2 is
  }"

definition time_util_validate_timestamp :: "char list \<Rightarrow> bool option" where
  "time_util_validate_timestamp timestamp = do {
    actual_timestamp_length \<leftarrow> string_util_strlen timestamp;
    ok \<leftarrow> check_format timestamp (actual_timestamp_length = 24) [0..<7];
    check_values timestamp ok [0..<7]
  }"

section \<open>What is accepted\<close>

definition digits_value :: "string \<Rightarrow> nat" where "digits_value = foldl (\<lambda>n c. 10 * n + digit_value c) 0"

lemma read_digits_text:
  "\<forall>c \<in> set ds. is_digit c \<Longrightarrow> \<not> is_digit e \<Longrightarrow>
    read_digits n (ds @ e # rest) = Some (foldl (\<lambda>n c. 10 * n + digit_value c) n ds, e # rest)"
  by (induction ds arbitrary: n) simp_all

lemma digit_not: "is_digit c \<Longrightarrow> \<not> is_blank c" "is_digit c \<Longrightarrow> c \<noteq> CHR ''-''" "is_digit c \<Longrightarrow> c \<noteq> CHR ''+''"
  by (auto simp: is_digit_def is_blank_def Let_def)

lemma digit_value_le: "is_digit c \<Longrightarrow> digit_value c \<le> 9"
  unfolding is_digit_def digit_value_def Let_def by linarith

lemma digits_value_bound:
  "\<forall>c \<in> set ds. is_digit c \<Longrightarrow> foldl (\<lambda>n c. 10 * n + digit_value c) n ds < (n + 1) * 10 ^ length ds"
proof (induction ds arbitrary: n)
  case (Cons c cs)
  have le: "digit_value c \<le> 9" using Cons.prems digit_value_le by simp
  have "foldl (\<lambda>n c. 10 * n + digit_value c) (10 * n + digit_value c) cs
      < (10 * n + digit_value c + 1) * 10 ^ length cs"
    using Cons.IH Cons.prems by simp
  also have "\<dots> \<le> (10 * n + 10) * 10 ^ length cs" using le by (intro mult_right_mono) simp_all
  finally show ?case by (simp add: algebra_simps)
qed simp

lemma strtol_digits:
  assumes "ds \<noteq> []" "\<forall>c \<in> set ds. is_digit c" "\<not> is_digit e" "length ds \<le> 9"
  shows "string_util_strtol (ds @ e # rest) = Some (int (digits_value ds), e # rest)"
proof -
  obtain d ds' where ds: "ds = d # ds'" using assms(1) by (cases ds) auto
  have "digits_value ds < 10 ^ length ds" using digits_value_bound [OF assms(2), of 0] by (simp add: digits_value_def)
  also have "\<dots> \<le> 10 ^ 9" using assms(4) by (intro power_increasing) simp_all
  finally have small: "int (digits_value ds) \<le> LONG_MAX" by (simp add: LONG_MAX_def)
  have skip: "skip_blanks (ds @ e # rest) = Some (ds @ e # rest)"
    using assms(2) digit_not by (simp add: ds)
  have "hd (ds @ e # rest) \<noteq> CHR ''-''" "hd (ds @ e # rest) \<noteq> CHR ''+''"
    using assms(2) digit_not by (auto simp: ds)
  then show ?thesis
    using skip read_digits_text [OF assms(2,3), of 0 rest] small ds
    by (simp add: string_util_strtol_def digits_value_def)
qed

text \<open>The fields of a timestamp, each with the character behind it.\<close>

definition timestamp_text :: "string list \<Rightarrow> string" where
  "timestamp_text fs = concat (map (\<lambda>i. fs ! i @ [characters_to_check ! i]) [0..<7])"

definition in_range :: "nat \<Rightarrow> nat \<Rightarrow> bool" where
  "in_range i v \<longleftrightarrow> v \<le> maximum_values ! i \<and> (i < 3 \<longrightarrow> 0 < v)"

lemma check_values_step:
  assumes "ds \<noteq> []" "\<forall>c \<in> set ds. is_digit c" "\<not> is_digit e" "length ds \<le> 9"
  shows "check_values (ds @ e # rest) ok (i # is) = check_values rest (ok \<and> in_range i (digits_value ds)) is"
proof -
  have "digits_value ds < 10 ^ length ds"
    using digits_value_bound [OF assms(2), of 0] by (simp add: digits_value_def)
  also have "\<dots> \<le> 10 ^ 9" using assms(4) by (intro power_increasing) simp_all
  finally have small: "digits_value ds < 10 ^ 9" .
  have u: "unat (word_of_int (int (digits_value ds)) :: mcl_size_t) = digits_value ds"
    using small by (simp add: unat_of_nat take_bit_nat_eq_self)
  have "(0 < (word_of_int (int (digits_value ds)) :: mcl_size_t)) = (0 < digits_value ds)"
    using u by (metis unat_gt_0 bot_nat_0.not_eq_extremum word_gt_0 unat_0)
  then show ?thesis using u by (simp add: strtol_digits [OF assms] in_range_def Let_def)
qed

text \<open>Of the texts with the right number of digits in each place those are accepted whose values are in range.\<close>

lemma validate_fields:
  assumes "map length fs = [4, 2, 2, 2, 2, 2, 3]" "\<forall>f \<in> set fs. \<forall>c \<in> set f. is_digit c"
  shows "time_util_validate_timestamp (timestamp_text fs @ NUL # rest)
    = Some (\<forall>i < 7. in_range i (digits_value (fs ! i)))"
proof -
  have seven: "length fs = 7" using arg_cong [OF assms(1), of length] by simp
  have len: "i < 7 \<Longrightarrow> length (fs ! i) = [4, 2, 2, 2, 2, 2, 3] ! i" for i
    using arg_cong [OF assms(1), of "\<lambda>l. l ! i"] seven by simp
  have digits: "\<forall>c \<in> set (fs ! i). is_digit c" if "i < 7" for i
    by (rule bspec [OF assms(2)]) (simp add: seven that)
  have step: "check_values (fs ! i @ characters_to_check ! i # r) ok (i # is)
      = check_values r (ok \<and> in_range i (digits_value (fs ! i))) is" if "i < 7" for i r ok "is"
  proof (rule check_values_step)
    have "i \<in> {0, 1, 2, 3, 4, 5, 6}" using that by auto
    then show "fs ! i \<noteq> []" "length (fs ! i) \<le> 9" "\<not> is_digit (characters_to_check ! i)"
      using len [OF that] by (auto simp: characters_to_check_def is_digit_def)
  qed (rule digits [OF that])
  have chain: "check_values (concat (map (\<lambda>i. fs ! i @ [characters_to_check ! i]) is) @ r) ok is
      = Some (ok \<and> (\<forall>i \<in> set is. in_range i (digits_value (fs ! i))))" if "\<forall>i \<in> set is. i < 7" for "is" r ok
    using that
  proof (induction "is" arbitrary: ok)
    case (Cons i "is") then show ?case using step [of i "concat (map (\<lambda>i. fs ! i @ [characters_to_check ! i]) is) @ r"] by auto
  qed simp
  have u: "[0..<7] = [0, 1, 2, 3, 4, 5, 6 :: nat]" by code_simp
  have l: "length (fs ! 0) = 4" "length (fs ! 1) = 2" "length (fs ! 2) = 2" "length (fs ! 3) = 2"
      "length (fs ! 4) = 2" "length (fs ! 5) = 2" "length (fs ! 6) = 3"
    using len by simp_all
  have t: "timestamp_text fs = fs ! 0 @ CHR ''-'' # fs ! 1 @ CHR ''-'' # fs ! 2 @ CHR ''T'' # fs ! 3 @
      CHR '':'' # fs ! 4 @ CHR '':'' # fs ! 5 @ CHR ''.'' # fs ! 6 @ [CHR ''Z'']"
    by (simp add: timestamp_text_def u characters_to_check_def)
  have "\<not> is_digit NUL" by (simp add: is_digit_def)
  then have nul: "NUL \<notin> set (fs ! i)" if "i < 7" for i using digits [OF that] by blast
  have nonul: "NUL \<notin> set (timestamp_text fs)"
    using nul by (simp add: t)
  have len24: "length (timestamp_text fs) = 24" using l by (simp add: t)
  have strlen: "string_util_strlen (timestamp_text fs @ NUL # rest) = Some 24"
    using nonul len24 string_util_strlen_text [of "timestamp_text fs" rest] by (simp add: is_text_def)
  have format: "check_format (timestamp_text fs @ NUL # rest) True [0..<7] = Some True"
    using l by (simp add: u t characters_to_check_def character_indexes_to_check_def read_at_def nth_append)
  show ?thesis
    using chain [of "[0..<7]" "NUL # rest" True] strlen format
    by (auto simp: time_util_validate_timestamp_def timestamp_text_def)
qed

text \<open>The form \<open>YYYY-MM-DDThh:mm:ss.sssZ\<close>: its length and its seven separators, the places of its digits, and the ranges of
  the numbers they make.\<close>

definition timestamp_shape :: "string \<Rightarrow> bool" where
  "timestamp_shape t \<longleftrightarrow> length t = 24 \<and> t ! 4 = CHR ''-'' \<and> t ! 7 = CHR ''-'' \<and> t ! 10 = CHR ''T'' \<and> t ! 13 = CHR '':''
    \<and> t ! 16 = CHR '':'' \<and> t ! 19 = CHR ''.'' \<and> t ! 23 = CHR ''Z''"

definition part_of :: "string \<Rightarrow> nat \<Rightarrow> nat \<Rightarrow> string" where
  "part_of t i n = take n (drop i t)"

definition timestamp_fields :: "string \<Rightarrow> string list" where
  "timestamp_fields t = [part_of t 0 4, part_of t 5 2, part_of t 8 2, part_of t 11 2, part_of t 14 2, part_of t 17 2, part_of t 20 3]"

definition timestamp_in_range :: "string \<Rightarrow> bool" where
  "timestamp_in_range t \<longleftrightarrow> (let year = digits_value (part_of t 0 4); month = digits_value (part_of t 5 2);
      day = digits_value (part_of t 8 2) in
    1 \<le> year \<and> year \<le> 2999 \<and> 1 \<le> month \<and> month \<le> 12 \<and> 1 \<le> day \<and> day \<le> 31
    \<and> digits_value (part_of t 11 2) \<le> 23 \<and> digits_value (part_of t 14 2) \<le> 59 \<and> digits_value (part_of t 17 2) \<le> 59)"

lemma check_values_refused: "check_values b False is \<noteq> Some True"
  by (induction "is" arbitrary: b) (simp_all add: bind_eq_Some_conv Let_def)

lemma check_values_keeps: "check_values b ok is = Some True \<Longrightarrow> ok"
  using check_values_refused by (cases ok) auto

lemma check_format_holds:
  "check_format t ok is = Some True \<Longrightarrow> ok \<and> (\<forall>i \<in> set is. read_at t (character_indexes_to_check ! i) = Some (characters_to_check ! i))"
  by (induction t ok "is" rule: check_format.induct) (auto simp: bind_eq_Some_conv split: if_splits)

lemma accepted_shape:
  assumes "is_text t" "length t < 2 ^ 64" "time_util_validate_timestamp (t @ NUL # rest) = Some True"
  shows "timestamp_shape t"
proof -
  have seven: "[0..<7] = [0, 1, 2, 3, 4, 5, 6 :: nat]" by code_simp
  obtain ok where ok: "check_format (t @ NUL # rest) (size_of_nat (length t) = 24) [0..<7] = Some ok"
      "check_values (t @ NUL # rest) ok [0..<7] = Some True"
    using assms(3) string_util_strlen_text [OF assms(1), of rest] by (auto simp: time_util_validate_timestamp_def bind_eq_Some_conv)
  from check_format_holds [of "t @ NUL # rest" _ "[0..<7]"] ok check_values_keeps [OF ok(2)]
  have len: "size_of_nat (length t) = 24"
    and sep: "\<forall>i \<in> {0, 1, 2, 3, 4, 5, 6 :: nat}. read_at (t @ NUL # rest) (character_indexes_to_check ! i) = Some (characters_to_check ! i)"
    unfolding seven by auto
  have "unat (size_of_nat (length t)) = unat (24 :: mcl_size_t)" unfolding len ..
  then have "length t = 24" using assms(2) by (simp add: unat_size_of_nat)
  with sep show ?thesis
    by (simp add: timestamp_shape_def character_indexes_to_check_def characters_to_check_def read_at_def nth_append)
qed

lemma timestamp_text_fields:
  assumes "timestamp_shape t"
  shows "timestamp_text (timestamp_fields t) = t"
proof (rule nth_equalityI)
  have seven: "[0..<7] = [0, 1, 2, 3, 4, 5, 6 :: nat]" by code_simp
  have len: "length t = 24" using assms by (simp add: timestamp_shape_def)
  note unfolds = timestamp_text_def timestamp_fields_def part_of_def seven characters_to_check_def
  show l: "length (timestamp_text (timestamp_fields t)) = length t" by (simp add: unfolds len)
  fix i assume "i < length (timestamp_text (timestamp_fields t))"
  then have "i \<in> set [0..<24]" unfolding l len by simp
  also have "[0..<24] = [0, 1, 2, 3, 4, 5, 6, 7, 8, 9, 10, 11, 12, 13, 14, 15, 16, 17, 18, 19, 20, 21, 22, 23 :: nat]" by code_simp
  finally show "timestamp_text (timestamp_fields t) ! i = t ! i"
    using assms by (auto simp: unfolds len timestamp_shape_def nth_append)
qed

text \<open>C32: whatever is accepted has 24 characters and the seven separators in their places; and of the texts of this form with
  digits in the other places exactly those are accepted whose year is from 1 to 2999, whose month is from 1 to 12,
  whose day from 1 to 31, and whose hours, minutes and seconds do not exceed 23, 59 and 59.\<close>

theorem time_util_validate_timestamp_correct:
  assumes "is_text t" "length t < 2 ^ 64"
  shows "(time_util_validate_timestamp (t @ NUL # rest) = Some True \<longrightarrow> timestamp_shape t)
    \<and> (timestamp_shape t \<and> (\<forall>f \<in> set (timestamp_fields t). \<forall>c \<in> set f. is_digit c)
      \<longrightarrow> time_util_validate_timestamp (t @ NUL # rest) = Some (timestamp_in_range t))"
proof (intro conjI impI; (elim conjE)?)
  assume shape: "timestamp_shape t" and digits: "\<forall>f \<in> set (timestamp_fields t). \<forall>c \<in> set f. is_digit c"
  have lens: "map length (timestamp_fields t) = [4, 2, 2, 2, 2, 2, 3]"
    using shape by (simp add: timestamp_fields_def part_of_def timestamp_shape_def)
  have last_field: "digits_value (part_of t 20 3) \<le> 999"
    using digits_value_bound [of "part_of t 20 3" 0] digits lens by (simp add: digits_value_def timestamp_fields_def)
  have seven: "[0..<7] = [0, 1, 2, 3, 4, 5, 6 :: nat]" by code_simp
  have all: "(\<forall>i < 7. P i) \<longleftrightarrow> (\<forall>i \<in> set [0..<7 :: nat]. P i)" for P by auto
  have "(\<forall>i < 7. in_range i (digits_value (timestamp_fields t ! i))) \<longleftrightarrow> timestamp_in_range t"
    unfolding all seven using last_field by (auto simp: in_range_def maximum_values_def timestamp_fields_def timestamp_in_range_def Let_def)
  then show "time_util_validate_timestamp (t @ NUL # rest) = Some (timestamp_in_range t)"
    using validate_fields [OF lens digits, of rest] timestamp_text_fields [OF shape] by simp
qed (rule accepted_shape [OF assms])

theorem time_util_validate_timestamp_correct_witness:
  "time_util_validate_timestamp (cstring ''2016-04-26T08:06:20.317Z'') = Some True
    \<and> time_util_validate_timestamp (cstring ''2016-13-26T08:06:20.317Z'') = Some False"
proof -
  have "is_text ''2016-04-26T08:06:20.317Z''" "length ''2016-04-26T08:06:20.317Z'' < 2 ^ 64"
    "is_text ''2016-13-26T08:06:20.317Z''" "length ''2016-13-26T08:06:20.317Z'' < 2 ^ 64"
    by (simp_all add: is_text_def)
  note correct = time_util_validate_timestamp_correct [OF this(1,2), of "[]"] time_util_validate_timestamp_correct [OF this(3,4), of "[]"]
  have "timestamp_shape ''2016-04-26T08:06:20.317Z''" "timestamp_shape ''2016-13-26T08:06:20.317Z''"
    "\<forall>f \<in> set (timestamp_fields ''2016-04-26T08:06:20.317Z''). \<forall>c \<in> set f. is_digit c"
    "\<forall>f \<in> set (timestamp_fields ''2016-13-26T08:06:20.317Z''). \<forall>c \<in> set f. is_digit c"
    "timestamp_in_range ''2016-04-26T08:06:20.317Z''" "\<not> timestamp_in_range ''2016-13-26T08:06:20.317Z''"
    by code_simp+
  then show ?thesis using correct by (simp only: cstring_def simp_thms)
qed

text \<open>\<^verbatim>\<open>strtol\<close> passes over blanks and takes a sign: a month that is written with a blank is accepted.\<close>

theorem time_util_validate_timestamp_takes_blank:
  "time_util_validate_timestamp (cstring ''2016- 4-26T08:06:20.317Z'') = Some True"
  by code_simp

text \<open>A text that ends before seven numbers have been read is read behind its end; the length has
  been found wrong before, but the loop goes on.\<close>

theorem time_util_validate_timestamp_overreads:
  "time_util_validate_timestamp [NUL] = None \<and> time_util_validate_timestamp (cstring ''2016-04-26'') = None"
  by code_simp

end
