(* ===== verification/MCL_Data.thy ===== *)
theory MCL_Data
  imports MCL_Http_Request MCL_Json_Util MCL_Time
begin

text \<open>
  The items a store holds: \<^verbatim>\<open>data_types.h\<close>, \<^verbatim>\<open>time_series.c\<close>, \<^verbatim>\<open>event.c\<close>, \<^verbatim>\<open>event_list.c\<close>,
  \<^verbatim>\<open>custom_data.c\<close>, \<^verbatim>\<open>file.c\<close>, \<^verbatim>\<open>stream_data.c\<close> and \<^verbatim>\<open>data_source_configuration.c\<close>.  The lists
  inside of an item are lists here: nobody keeps a pointer to one of their nodes, and what
  adding to them and destroying them does is shown to be what \<^verbatim>\<open>list.c\<close> does on its nodes.  Back
  pointers (\<^verbatim>\<open>parent\<close> of a value set, \<^verbatim>\<open>meta\<close> of an event) are left out: they are never followed.
\<close>

section \<open>Names\<close>

datatype E_META_FIELD_NAMES =
    META_FIELD_TYPE | META_FIELD_VERSION | META_FIELD_PAYLOAD_META | META_FIELD_PAYLOAD
  | META_FIELD_PAYLOAD_TYPE | META_FIELD_PAYLOAD_VERSION | META_FIELD_PAYLOAD_DETAILS
  | META_FIELD_PAYLOAD_DETAILS_CONFIGURATION_ID | META_FIELD_DETAILS | META_FIELD_DETAILS_ROUTING
  | META_FIELD_PAYLOAD_DETAILS_FILE_NAME | META_FIELD_PAYLOAD_DETAILS_FILE_TYPE
  | META_FIELD_PAYLOAD_DETAILS_CREATION_DATE | META_FIELD_DETAILS_TOTAL_ITEMS
  | META_FIELD_PAYLOAD_DETAILS_TIMESTAMP | META_FIELD_PAYLOAD_DETAILS_DURATION

definition meta_field_indices :: "E_META_FIELD_NAMES list" where
  "meta_field_indices =
    [META_FIELD_TYPE, META_FIELD_VERSION, META_FIELD_PAYLOAD_META, META_FIELD_PAYLOAD,
     META_FIELD_PAYLOAD_TYPE, META_FIELD_PAYLOAD_VERSION, META_FIELD_PAYLOAD_DETAILS,
     META_FIELD_PAYLOAD_DETAILS_CONFIGURATION_ID, META_FIELD_DETAILS, META_FIELD_DETAILS_ROUTING,
     META_FIELD_PAYLOAD_DETAILS_FILE_NAME, META_FIELD_PAYLOAD_DETAILS_FILE_TYPE,
     META_FIELD_PAYLOAD_DETAILS_CREATION_DATE, META_FIELD_DETAILS_TOTAL_ITEMS,
     META_FIELD_PAYLOAD_DETAILS_TIMESTAMP, META_FIELD_PAYLOAD_DETAILS_DURATION]"

definition meta_field_names :: "string list" where
  "meta_field_names =
    [''type'', ''version'', ''meta'', ''payload'', ''type'', ''version'', ''details'',
     ''configurationId'', ''details'', ''routing'', ''fileName'', ''fileType'', ''creationDate'',
     ''totalItems'', ''timestamp'', ''duration'']"

definition meta_field_name :: "E_META_FIELD_NAMES \<Rightarrow> string" where
  "meta_field_name i = meta_field_names ! index_in i meta_field_indices"

datatype E_META_FIELD_VALUES =
    META_FIELD_TYPE_ITEM | META_FIELD_VERSION_CURRENT | META_FIELD_PAYLOAD_VERSION_CURRENT
  | META_FIELD_PAYLOAD_TYPE_TIME_SERIES | META_FIELD_PAYLOAD_TYPE_BUSINESS_EVENT
  | META_FIELD_PAYLOAD_TYPE_FILE | META_FIELD_PAYLOAD_TYPE_DATA_SOURCE_CONFIGURATION

definition meta_value_indices :: "E_META_FIELD_VALUES list" where
  "meta_value_indices =
    [META_FIELD_TYPE_ITEM, META_FIELD_VERSION_CURRENT, META_FIELD_PAYLOAD_VERSION_CURRENT,
     META_FIELD_PAYLOAD_TYPE_TIME_SERIES, META_FIELD_PAYLOAD_TYPE_BUSINESS_EVENT,
     META_FIELD_PAYLOAD_TYPE_FILE, META_FIELD_PAYLOAD_TYPE_DATA_SOURCE_CONFIGURATION]"

definition meta_field_values :: "string list" where
  "meta_field_values =
    [''item'', ''1.0'', ''1.0'', ''standardTimeSeries'', ''businessEvent'', ''file'',
     ''dataSourceConfiguration'']"

definition meta_field_value :: "E_META_FIELD_VALUES \<Rightarrow> string" where
  "meta_field_value i = meta_field_values ! index_in i meta_value_indices"

datatype E_PAYLOAD_FIELD_NAMES =
    PAYLOAD_FIELD_TIMESTAMP | PAYLOAD_FIELD_VALUES | PAYLOAD_FIELD_VALUES_DATA_POINT_ID
  | PAYLOAD_FIELD_VALUES_VALUE | PAYLOAD_FIELD_VALUES_QUALITY_CODE | PAYLOAD_FIELD_ID
  | PAYLOAD_FIELD_CUSTOM_EVENT_ID | PAYLOAD_FIELD_CORRELATION_ID | PAYLOAD_FIELD_SOURCE_TYPE
  | PAYLOAD_FIELD_SOURCE_ID | PAYLOAD_FIELD_SEVERITY | PAYLOAD_FIELD_DESCRIPTION
  | PAYLOAD_FIELD_STATUS | PAYLOAD_FIELD_TYPE | PAYLOAD_FIELD_VERSION | PAYLOAD_FIELD_CUSTOM_DATA
  | PAYLOAD_FIELD_DETAILS | PAYLOAD_FIELD_DETAILS_MESSAGE | PAYLOAD_FIELD_DETAILS_ERROR_CODE
  | PAYLOAD_FIELD_DETAILS_DETAILS | PAYLOAD_FIELD_DETAILS_VALUE
  | PAYLOAD_FIELD_DETAILS_DOWNLOAD_LINK | PAYLOAD_FIELD_DETAILS_NAME
  | PAYLOAD_FIELD_DETAILS_VERSION | PAYLOAD_FIELD_DETAILS_DESCRIPTION
  | PAYLOAD_FIELD_CONFIGURATION_ID | PAYLOAD_FIELD_DATA_SOURCES
  | PAYLOAD_FIELD_DATA_SOURCES_NAME | PAYLOAD_FIELD_DATA_SOURCES_DATA_POINTS
  | PAYLOAD_FIELD_DATA_SOURCES_DATA_POINTS_ID | PAYLOAD_FIELD_DATA_SOURCES_DATA_POINTS_NAME
  | PAYLOAD_FIELD_DATA_SOURCES_DATA_POINTS_TYPE | PAYLOAD_FIELD_DATA_SOURCES_DATA_POINTS_UNIT

definition payload_field_indices :: "E_PAYLOAD_FIELD_NAMES list" where
  "payload_field_indices =
    [PAYLOAD_FIELD_TIMESTAMP, PAYLOAD_FIELD_VALUES, PAYLOAD_FIELD_VALUES_DATA_POINT_ID,
     PAYLOAD_FIELD_VALUES_VALUE, PAYLOAD_FIELD_VALUES_QUALITY_CODE, PAYLOAD_FIELD_ID,
     PAYLOAD_FIELD_CUSTOM_EVENT_ID, PAYLOAD_FIELD_CORRELATION_ID, PAYLOAD_FIELD_SOURCE_TYPE,
     PAYLOAD_FIELD_SOURCE_ID, PAYLOAD_FIELD_SEVERITY, PAYLOAD_FIELD_DESCRIPTION,
     PAYLOAD_FIELD_STATUS, PAYLOAD_FIELD_TYPE, PAYLOAD_FIELD_VERSION, PAYLOAD_FIELD_CUSTOM_DATA,
     PAYLOAD_FIELD_DETAILS, PAYLOAD_FIELD_DETAILS_MESSAGE, PAYLOAD_FIELD_DETAILS_ERROR_CODE,
     PAYLOAD_FIELD_DETAILS_DETAILS, PAYLOAD_FIELD_DETAILS_VALUE,
     PAYLOAD_FIELD_DETAILS_DOWNLOAD_LINK, PAYLOAD_FIELD_DETAILS_NAME,
     PAYLOAD_FIELD_DETAILS_VERSION, PAYLOAD_FIELD_DETAILS_DESCRIPTION,
     PAYLOAD_FIELD_CONFIGURATION_ID, PAYLOAD_FIELD_DATA_SOURCES,
     PAYLOAD_FIELD_DATA_SOURCES_NAME, PAYLOAD_FIELD_DATA_SOURCES_DATA_POINTS,
     PAYLOAD_FIELD_DATA_SOURCES_DATA_POINTS_ID, PAYLOAD_FIELD_DATA_SOURCES_DATA_POINTS_NAME,
     PAYLOAD_FIELD_DATA_SOURCES_DATA_POINTS_TYPE, PAYLOAD_FIELD_DATA_SOURCES_DATA_POINTS_UNIT]"

definition payload_field_names :: "string list" where
  "payload_field_names =
    [''timestamp'', ''values'', ''dataPointId'', ''value'', ''qualityCode'', ''id'',
     ''customEventId'', ''correlationId'', ''sourceType'', ''sourceId'', ''severity'',
     ''description'', ''status'', ''type'', ''version'', ''customData'', ''details'', ''message'',
     ''errorCode'', ''details'', ''value'', ''download_link'', ''name'', ''version'',
     ''description'', ''configurationId'', ''dataSources'', ''name'', ''dataPoints'', ''id'',
     ''name'', ''type'', ''unit'']"

definition payload_field_name :: "E_PAYLOAD_FIELD_NAMES \<Rightarrow> string" where
  "payload_field_name i = payload_field_names ! index_in i payload_field_indices"

section \<open>Lists inside of items\<close>

definition items_initialize :: "world \<Rightarrow> (E_MCL_ERROR_CODE \<times> 'a list option \<times> world) option" where
  "items_initialize w = (case memory_allocate sizeof_list w of
      (None, w1) \<Rightarrow> Some (MCL_OUT_OF_MEMORY, None, w1)
    | (Some a, w1) \<Rightarrow> Some (MCL_OK, Some [], w1))"

definition items_add :: "'a list \<Rightarrow> 'a \<Rightarrow> world \<Rightarrow> E_MCL_ERROR_CODE \<times> 'a list \<times> world" where
  "items_add xs x w =
    (if \<not> size_of_nat (length xs) < MCL_SIZE_MAX then (MCL_LIMIT_EXCEEDED, xs, w)
     else case memory_allocate sizeof_list_node w of
        (None, w1) \<Rightarrow> (MCL_OUT_OF_MEMORY, xs, w1)
      | (Some a, w1) \<Rightarrow> (MCL_OK, xs @ [x], w1))"

definition items_destroy :: "('a \<Rightarrow> world \<Rightarrow> world) \<Rightarrow> 'a list option \<Rightarrow> world \<Rightarrow> world" where
  "items_destroy f items0 w = (case items0 of
      None \<Rightarrow> w
    | Some xs \<Rightarrow> memory_free (fold (\<lambda>x w. memory_free (f x w)) xs w))"

section \<open>Meta data\<close>

text \<open>The union of the details; a list of events and a data source configuration leave it unset.\<close>

datatype item_meta_payload_details_union_t =
    Time_Series_Details (details_configuration_id: "string_t option")
  | File_Details (details_file_name: "string_t option") (details_creation_date: "string_t option")
      (details_file_type: "string_t option")
  | Custom_Details (details_json: "cjson option")
  | Unset_Details

record item_meta_t =
  meta_content_id :: "string_t option"
  meta_type :: "string_t option"
  meta_version :: "string_t option"
  meta_routing :: "string_t option"
  meta_payload_type :: "string_t option"
  meta_payload_version :: "string_t option"
  meta_details :: item_meta_payload_details_union_t

definition empty_meta :: "item_meta_payload_details_union_t \<Rightarrow> item_meta_t" where
  "empty_meta d = \<lparr>meta_content_id = None, meta_type = None, meta_version = None, meta_routing = None,
    meta_payload_type = None, meta_payload_version = None, meta_details = d\<rparr>"

text \<open>A member is set by the result of a call, unless a call before failed.\<close>

type_synonym 's step = "E_MCL_ERROR_CODE \<times> 's \<times> world \<Rightarrow> (E_MCL_ERROR_CODE \<times> 's \<times> world) option"

definition set_member ::
    "('r option \<Rightarrow> 's \<Rightarrow> 's) \<Rightarrow> (world \<Rightarrow> (E_MCL_ERROR_CODE \<times> 'r option \<times> world) option) \<Rightarrow> 's step" where
  "set_member put f st = (case st of (code, s, w) \<Rightarrow>
    if code \<noteq> MCL_OK then Some st
    else do { (code1, r, w1) \<leftarrow> f w; Some (code1, put r s, w1) })"

definition run_steps :: "'s step list \<Rightarrow> 's step" where
  "run_steps steps st = fold (\<lambda>f acc. Option.bind acc f) steps (Some st)"

definition static_value :: "E_META_FIELD_VALUES \<Rightarrow> world \<Rightarrow> (E_MCL_ERROR_CODE \<times> string_t option \<times> world) option" where
  "static_value i = string_initialize_static (Some (cstring (meta_field_value i))) (size_of_nat (length (meta_field_value i)))"

definition new_text :: "char list \<Rightarrow> world \<Rightarrow> (E_MCL_ERROR_CODE \<times> string_t option \<times> world) option" where
  "new_text s = string_initialize_new (Some s) 0"

definition set_type where "set_type r m = m\<lparr>meta_type := r\<rparr>"
definition set_version where "set_version r m = m\<lparr>meta_version := r\<rparr>"
definition set_routing where "set_routing r m = m\<lparr>meta_routing := r\<rparr>"
definition set_payload_type where "set_payload_type r m = m\<lparr>meta_payload_type := r\<rparr>"
definition set_payload_version where "set_payload_version r m = m\<lparr>meta_payload_version := r\<rparr>"

definition optional :: "'a option \<Rightarrow> ('a \<Rightarrow> 's step) \<Rightarrow> 's step list" where
  "optional x f = (case x of None \<Rightarrow> [] | Some y \<Rightarrow> [f y])"

definition destroy_strings :: "string_t option list \<Rightarrow> world \<Rightarrow> world" where
  "destroy_strings ss w = fold (\<lambda>s w. snd (string_destroy s w)) ss w"

definition meta_strings :: "item_meta_t \<Rightarrow> string_t option list" where
  "meta_strings m = [meta_content_id m, meta_type m, meta_version m, meta_routing m,
    meta_payload_type m, meta_payload_version m]"
section \<open>Time series\<close>

record time_series_value_t =
  value_data_point_id :: "string_t option"
  value_value :: "string_t option"
  value_quality_code :: "string_t option"

record time_series_value_set_t =
  value_set_timestamp :: "string_t option"
  value_set_values :: "time_series_value_t list option"

record time_series_t =
  time_series_meta :: item_meta_t
  time_series_value_sets :: "time_series_value_set_t list option"

definition sizeof_time_series :: mcl_size_t where "sizeof_time_series = 80"
definition sizeof_value_set :: mcl_size_t where "sizeof_value_set = 24"
definition sizeof_value :: mcl_size_t where "sizeof_value = 24"

definition destroy_value_set_value :: "time_series_value_t \<Rightarrow> world \<Rightarrow> world" where
  "destroy_value_set_value v w =
    memory_free (destroy_strings [value_data_point_id v, value_value v, value_quality_code v] w)"

definition destroy_value_set :: "time_series_value_set_t \<Rightarrow> world \<Rightarrow> world" where
  "destroy_value_set s w = memory_free (items_destroy destroy_value_set_value (value_set_values s)
    (destroy_strings [value_set_timestamp s] w))"

definition details_strings :: "item_meta_payload_details_union_t \<Rightarrow> string_t option list" where
  "details_strings d = (case d of
      Time_Series_Details c \<Rightarrow> [c] | File_Details n c t \<Rightarrow> [n, c, t] | _ \<Rightarrow> [])"

definition time_series_destroy :: "time_series_t option \<Rightarrow> world \<Rightarrow> world" where
  "time_series_destroy ts w = (case ts of
      None \<Rightarrow> w
    | Some t \<Rightarrow> memory_free (items_destroy destroy_value_set (time_series_value_sets t)
        (destroy_strings (meta_strings (time_series_meta t) @ details_strings (meta_details (time_series_meta t))) w)))"

definition set_configuration_id where
  "set_configuration_id r m = m\<lparr>meta_details := Time_Series_Details r\<rparr>"

definition time_series_meta_steps :: "char list \<Rightarrow> char list \<Rightarrow> char list option \<Rightarrow> item_meta_t step list" where
  "time_series_meta_steps version configuration routing =
    [set_member set_type (static_value META_FIELD_TYPE_ITEM),
     set_member set_version (static_value META_FIELD_VERSION_CURRENT)]
    @ optional routing (\<lambda>r. set_member set_routing (new_text r))
    @ [set_member set_payload_type (static_value META_FIELD_PAYLOAD_TYPE_TIME_SERIES),
       set_member set_payload_version (new_text version),
       set_member set_configuration_id (new_text configuration)]"

definition time_series_initialize_meta ::
    "char list \<Rightarrow> char list \<Rightarrow> char list option \<Rightarrow> world \<Rightarrow> (E_MCL_ERROR_CODE \<times> item_meta_t \<times> world) option" where
  "time_series_initialize_meta version configuration routing w =
    run_steps (time_series_meta_steps version configuration routing)
      (MCL_OK, empty_meta (Time_Series_Details None), w)"

definition time_series_initialize ::
    "char list \<Rightarrow> char list \<Rightarrow> char list option \<Rightarrow> world \<Rightarrow> (E_MCL_ERROR_CODE \<times> time_series_t option \<times> world) option" where
  "time_series_initialize version configuration routing w =
    (case memory_allocate sizeof_time_series w of
      (None, w1) \<Rightarrow> Some (MCL_OUT_OF_MEMORY, None, w1)
    | (Some a, w1) \<Rightarrow> do {
        (code, m, w2) \<leftarrow> time_series_initialize_meta version configuration routing w1;
        if code \<noteq> MCL_OK
        then Some (code, None, time_series_destroy (Some \<lparr>time_series_meta = m, time_series_value_sets = None\<rparr>) w2)
        else do {
          (code1, value_sets, w3) \<leftarrow> items_initialize w2;
          let ts = \<lparr>time_series_meta = m, time_series_value_sets = value_sets\<rparr>;
          if code1 \<noteq> MCL_OK then Some (code1, None, time_series_destroy (Some ts) w3)
          else Some (MCL_OK, Some ts, w3)
        }
      })"

text \<open>A value set or a value is taken from \<^verbatim>\<open>malloc\<close> with its members unset.  When one of them cannot
  be made, the whole is destroyed, and that reads the members which have not been reached: there
  the operations have no result.  The place of the new value set in the list is its handle.\<close>

definition mcl_time_series_new_value_set ::
    "time_series_t option \<Rightarrow> char list option \<Rightarrow> bool \<Rightarrow> world
      \<Rightarrow> (E_MCL_ERROR_CODE \<times> time_series_t option \<times> nat option \<times> world) option" where
  "mcl_time_series_new_value_set time_series timestamp given w =
    (case time_series of None \<Rightarrow> Some (MCL_TRIGGERED_WITH_NULL, None, None, w)
    | Some ts \<Rightarrow> (case timestamp of None \<Rightarrow> Some (MCL_TRIGGERED_WITH_NULL, Some ts, None, w)
    | Some stamp \<Rightarrow>
      if \<not> given then Some (MCL_TRIGGERED_WITH_NULL, Some ts, None, w)
      else do {
        valid \<leftarrow> time_util_validate_timestamp stamp;
        if \<not> valid then Some (MCL_INVALID_PARAMETER, Some ts, None, w)
        else (case memory_allocate sizeof_value_set w of
            (None, w1) \<Rightarrow> Some (MCL_OUT_OF_MEMORY, Some ts, None, w1)
          | (Some a, w1) \<Rightarrow> do {
              (code, s, w2) \<leftarrow> string_initialize_new (Some stamp) 0 w1;
              if code \<noteq> MCL_OK then None
              else do {
                (code1, values, w3) \<leftarrow> items_initialize w2;
                let value_set = \<lparr>value_set_timestamp = s, value_set_values = values\<rparr>;
                if code1 \<noteq> MCL_OK then Some (code1, Some ts, None, destroy_value_set value_set w3)
                else do {
                  sets \<leftarrow> time_series_value_sets ts;
                  let (code2, sets1, w4) = items_add sets value_set w3;
                  if code2 \<noteq> MCL_OK then Some (code2, Some ts, None, destroy_value_set value_set w4)
                  else Some (MCL_OK, Some (ts\<lparr>time_series_value_sets := Some sets1\<rparr>), Some (length sets), w4)
                }
              }
            })
      }))"

definition mcl_time_series_add_value ::
    "time_series_value_set_t option \<Rightarrow> char list option \<Rightarrow> char list option \<Rightarrow> char list option \<Rightarrow> world
      \<Rightarrow> (E_MCL_ERROR_CODE \<times> time_series_value_set_t option \<times> world) option" where
  "mcl_time_series_add_value value_set data_point_id value_text quality_code w =
    (case value_set of None \<Rightarrow> Some (MCL_TRIGGERED_WITH_NULL, None, w)
    | Some vs \<Rightarrow>
      if data_point_id = None \<or> value_text = None \<or> quality_code = None
      then Some (MCL_TRIGGERED_WITH_NULL, Some vs, w)
      else (case memory_allocate sizeof_value w of
          (None, w1) \<Rightarrow> Some (MCL_OUT_OF_MEMORY, Some vs, w1)
        | (Some a, w1) \<Rightarrow> do {
            (code, d, w2) \<leftarrow> string_initialize_new data_point_id 0 w1;
            if code \<noteq> MCL_OK then None
            else do {
              (code1, v, w3) \<leftarrow> string_initialize_new value_text 0 w2;
              if code1 \<noteq> MCL_OK then None
              else do {
                (code2, q, w4) \<leftarrow> string_initialize_new quality_code 0 w3;
                let val = \<lparr>value_data_point_id = d, value_value = v, value_quality_code = q\<rparr>;
                if code2 \<noteq> MCL_OK then Some (code2, Some vs, destroy_value_set_value val w4)
                else do {
                  xs \<leftarrow> value_set_values vs;
                  let (code3, xs1, w5) = items_add xs val w4;
                  if code3 \<noteq> MCL_OK then Some (code3, Some vs, destroy_value_set_value val w5)
                  else Some (MCL_OK, Some (vs\<lparr>value_set_values := Some xs1\<rparr>), w5)
                }
              }
            }
          }))"

section \<open>Events\<close>

record event_payload_t =
  event_id :: "string_t option"
  event_correlation_id :: "string_t option"
  event_timestamp :: "string_t option"
  event_severity :: "32 word"
  event_description :: "string_t option"
  event_type :: "string_t option"
  event_version :: "string_t option"
  event_details :: "cjson option"

definition sizeof_event :: mcl_size_t where "sizeof_event = 16"
definition sizeof_event_payload :: mcl_size_t where "sizeof_event_payload = 64"

definition empty_event :: event_payload_t where
  "empty_event = \<lparr>event_id = None, event_correlation_id = None, event_timestamp = None,
    event_severity = 0, event_description = None, event_type = None, event_version = None,
    event_details = None\<rparr>"

definition event_strings :: "event_payload_t \<Rightarrow> string_t option list" where
  "event_strings p = [event_id p, event_correlation_id p, event_timestamp p, event_description p,
    event_type p, event_version p]"

text \<open>An event is two blocks beside its members: the event and its payload.\<close>

definition event_destroy :: "event_payload_t option \<Rightarrow> world \<Rightarrow> world" where
  "event_destroy event w = (case event of
      None \<Rightarrow> w
    | Some p \<Rightarrow> memory_free (memory_free (json_util_destroy (event_details p) (destroy_strings (event_strings p) w))))"

definition set_event_id where "set_event_id r p = p\<lparr>event_id := r\<rparr>"
definition set_event_type where "set_event_type r p = p\<lparr>event_type := r\<rparr>"
definition set_event_version where "set_event_version r p = p\<lparr>event_version := r\<rparr>"
definition set_event_timestamp where "set_event_timestamp r p = p\<lparr>event_timestamp := r\<rparr>"

definition event_initialize ::
    "random_source \<Rightarrow> char list \<Rightarrow> char list \<Rightarrow> 32 word \<Rightarrow> char list \<Rightarrow> world
      \<Rightarrow> (E_MCL_ERROR_CODE \<times> event_payload_t option \<times> world) option" where
  "event_initialize rand type version severity timestamp w =
    (case memory_allocate sizeof_event w of
      (None, w1) \<Rightarrow> Some (MCL_OUT_OF_MEMORY, None, w1)
    | (Some a, w1) \<Rightarrow>
      (case memory_allocate sizeof_event_payload w1 of
        (None, w2) \<Rightarrow> Some (MCL_OUT_OF_MEMORY, None, memory_free w2)
      | (Some b, w2) \<Rightarrow> do {
          (code, p, w3) \<leftarrow> run_steps
            [set_member set_event_id (random_generate_guid rand),
             set_member set_event_type (new_text type),
             set_member set_event_version (new_text version),
             set_member set_event_timestamp (new_text timestamp)]
            (MCL_OK, empty_event\<lparr>event_severity := severity\<rparr>, w2);
          if code \<noteq> MCL_OK then Some (code, None, event_destroy (Some p) w3)
          else Some (code, Some p, w3)
        }))"

text \<open>The value of an option is a text or an object, by the option.\<close>

datatype event_option =
    MCL_EVENT_OPTION_CORRELATION_ID "char list"
  | MCL_EVENT_OPTION_DESCRIPTION "char list"
  | MCL_EVENT_OPTION_DETAILS cjson
  | MCL_EVENT_OPTION_OTHER

definition mcl_event_set_option ::
    "event_payload_t option \<Rightarrow> event_option option \<Rightarrow> world
      \<Rightarrow> (E_MCL_ERROR_CODE \<times> event_payload_t option \<times> world) option" where
  "mcl_event_set_option event option w =
    (case event of None \<Rightarrow> Some (MCL_TRIGGERED_WITH_NULL, None, w)
    | Some p \<Rightarrow> (case option of None \<Rightarrow> Some (MCL_TRIGGERED_WITH_NULL, Some p, w)
    | Some (MCL_EVENT_OPTION_CORRELATION_ID s) \<Rightarrow> do {
        (code, r, w1) \<leftarrow> string_initialize_new (Some s) 0 (snd (string_destroy (event_correlation_id p) w));
        Some (code, Some (p\<lparr>event_correlation_id := r\<rparr>), w1) }
    | Some (MCL_EVENT_OPTION_DESCRIPTION s) \<Rightarrow> do {
        (code, r, w1) \<leftarrow> string_initialize_new (Some s) 0 (snd (string_destroy (event_description p) w));
        Some (code, Some (p\<lparr>event_description := r\<rparr>), w1) }
    | Some (MCL_EVENT_OPTION_DETAILS t) \<Rightarrow>
        (let (code, r, w1) = json_util_duplicate t True (json_util_destroy (event_details p) w)
         in Some (code, Some (p\<lparr>event_details := r\<rparr>), w1))
    | Some MCL_EVENT_OPTION_OTHER \<Rightarrow> Some (MCL_INVALID_PARAMETER, Some p, w)))"

record event_list_t =
  event_list_meta :: item_meta_t
  event_list_events :: "event_payload_t list option"

definition sizeof_event_list :: mcl_size_t where "sizeof_event_list = 16"
definition sizeof_item_meta :: mcl_size_t where "sizeof_item_meta = 72"

definition destroy_event :: "event_payload_t \<Rightarrow> world \<Rightarrow> world" where
  "destroy_event p w = event_destroy (Some p) w"

text \<open>The meta data of a list of events is a block of its own.\<close>

definition event_list_destroy :: "event_list_t option \<Rightarrow> world \<Rightarrow> world" where
  "event_list_destroy event_list w = (case event_list of
      None \<Rightarrow> w
    | Some l \<Rightarrow> memory_free (items_destroy destroy_event (event_list_events l)
        (memory_free (destroy_strings (meta_strings (event_list_meta l)) w))))"

definition event_list_initialize_meta ::
    "char list \<Rightarrow> world \<Rightarrow> (E_MCL_ERROR_CODE \<times> item_meta_t \<times> world) option" where
  "event_list_initialize_meta version w = run_steps
    [set_member set_type (static_value META_FIELD_TYPE_ITEM),
     set_member set_version (static_value META_FIELD_VERSION_CURRENT),
     set_member set_payload_type (static_value META_FIELD_PAYLOAD_TYPE_BUSINESS_EVENT),
     set_member set_payload_version (new_text version)] (MCL_OK, empty_meta Unset_Details, w)"

definition event_list_initialize ::
    "char list \<Rightarrow> world \<Rightarrow> (E_MCL_ERROR_CODE \<times> event_list_t option \<times> world) option" where
  "event_list_initialize version w =
    (case memory_allocate sizeof_event_list w of
      (None, w1) \<Rightarrow> Some (MCL_OUT_OF_MEMORY, None, w1)
    | (Some a, w1) \<Rightarrow>
      (case memory_allocate sizeof_item_meta w1 of
        (None, w2) \<Rightarrow> Some (MCL_OUT_OF_MEMORY, None, memory_free w2)
      | (Some b, w2) \<Rightarrow> do {
          (code, m, w3) \<leftarrow> event_list_initialize_meta version w2;
          if code \<noteq> MCL_OK
          then Some (code, None, event_list_destroy (Some \<lparr>event_list_meta = m, event_list_events = None\<rparr>) w3)
          else do {
            (code1, events, w4) \<leftarrow> items_initialize w3;
            let l = \<lparr>event_list_meta = m, event_list_events = events\<rparr>;
            if code1 \<noteq> MCL_OK then Some (code1, None, event_list_destroy (Some l) w4)
            else Some (MCL_OK, Some l, w4)
          }
        }))"

definition event_list_add_event ::
    "event_payload_t \<Rightarrow> event_list_t \<Rightarrow> world \<Rightarrow> (E_MCL_ERROR_CODE \<times> event_list_t \<times> world) option" where
  "event_list_add_event event event_list w = do {
    events \<leftarrow> event_list_events event_list;
    let (code, events1, w1) = items_add events event w;
    Some (code, event_list\<lparr>event_list_events := Some events1\<rparr>, w1)
  }"
section \<open>Custom data and streams\<close>

record custom_data_t =
  custom_meta :: item_meta_t
  custom_buffer :: "char list option"
  custom_size :: mcl_size_t

definition sizeof_custom_data :: mcl_size_t where "sizeof_custom_data = 88"

text \<open>The payload belongs to the caller and is not freed.\<close>

definition custom_data_destroy :: "custom_data_t option \<Rightarrow> world \<Rightarrow> world" where
  "custom_data_destroy custom_data w = (case custom_data of
      None \<Rightarrow> w
    | Some c \<Rightarrow> memory_free (json_util_destroy (case meta_details (custom_meta c) of Custom_Details j \<Rightarrow> j | _ \<Rightarrow> None)
        (destroy_strings (meta_strings (custom_meta c)) w)))"

definition initialize_custom_data_meta_fields ::
    "char list \<Rightarrow> char list \<Rightarrow> char list option \<Rightarrow> world \<Rightarrow> (E_MCL_ERROR_CODE \<times> item_meta_t \<times> world) option" where
  "initialize_custom_data_meta_fields type version routing w = run_steps
    ([set_member set_type (static_value META_FIELD_TYPE_ITEM),
      set_member set_version (static_value META_FIELD_VERSION_CURRENT)]
     @ optional routing (\<lambda>r. set_member set_routing (new_text r))
     @ [set_member set_payload_type (new_text type), set_member set_payload_version (new_text version)])
    (MCL_OK, empty_meta (Custom_Details None), w)"

definition custom_data_initialize ::
    "char list \<Rightarrow> char list \<Rightarrow> char list option \<Rightarrow> world \<Rightarrow> (E_MCL_ERROR_CODE \<times> custom_data_t option \<times> world) option" where
  "custom_data_initialize version type routing w =
    (case memory_allocate sizeof_custom_data w of
      (None, w1) \<Rightarrow> Some (MCL_OUT_OF_MEMORY, None, w1)
    | (Some a, w1) \<Rightarrow> do {
        (code, m, w2) \<leftarrow> initialize_custom_data_meta_fields type version routing w1;
        let c = \<lparr>custom_meta = m, custom_buffer = None, custom_size = 0\<rparr>;
        if code \<noteq> MCL_OK then Some (code, None, custom_data_destroy (Some c) w2)
        else Some (MCL_OK, Some c, w2)
      })"

text \<open>Details that had been set before are not released.\<close>

definition mcl_custom_data_set_meta_details ::
    "custom_data_t option \<Rightarrow> cjson option \<Rightarrow> world \<Rightarrow> E_MCL_ERROR_CODE \<times> custom_data_t option \<times> world" where
  "mcl_custom_data_set_meta_details custom_data details w =
    (case custom_data of None \<Rightarrow> (MCL_TRIGGERED_WITH_NULL, None, w)
    | Some c \<Rightarrow> (case details of None \<Rightarrow> (MCL_TRIGGERED_WITH_NULL, Some c, w)
    | Some t \<Rightarrow> (let (code, r, w1) = json_util_duplicate t True w
        in (code, Some (c\<lparr>custom_meta := (custom_meta c)\<lparr>meta_details := Custom_Details r\<rparr>\<rparr>), w1))))"

definition mcl_custom_data_set_payload ::
    "custom_data_t option \<Rightarrow> char list option \<Rightarrow> mcl_size_t \<Rightarrow> E_MCL_ERROR_CODE \<times> custom_data_t option" where
  "mcl_custom_data_set_payload custom_data content content_size =
    (case custom_data of None \<Rightarrow> (MCL_TRIGGERED_WITH_NULL, None)
    | Some c \<Rightarrow>
        if content = None then (MCL_TRIGGERED_WITH_NULL, Some c)
        else if \<not> 0 < content_size then (MCL_INVALID_PARAMETER, Some c)
        else (MCL_OK, Some (c\<lparr>custom_size := content_size, custom_buffer := content\<rparr>)))"

text \<open>The callback and its context are the caller's; only the data it describes are kept here.\<close>

record stream_data_t =
  stream_base :: "custom_data_t option"

definition sizeof_stream_data :: mcl_size_t where "sizeof_stream_data = 24"

definition stream_data_destroy :: "stream_data_t \<Rightarrow> world \<Rightarrow> world" where
  "stream_data_destroy s w = memory_free (custom_data_destroy (stream_base s) w)"

definition stream_data_initialize ::
    "char list \<Rightarrow> char list \<Rightarrow> char list option \<Rightarrow> world \<Rightarrow> (E_MCL_ERROR_CODE \<times> stream_data_t option \<times> world) option" where
  "stream_data_initialize version type routing w =
    (case memory_allocate sizeof_stream_data w of
      (None, w1) \<Rightarrow> Some (MCL_OUT_OF_MEMORY, None, w1)
    | (Some a, w1) \<Rightarrow> do {
        (code, base, w2) \<leftarrow> custom_data_initialize version type routing w1;
        let s = \<lparr>stream_base = base\<rparr>;
        if code \<noteq> MCL_OK then Some (code, None, stream_data_destroy s w2)
        else Some (code, Some s, w2)
      })"

definition mcl_stream_data_set_meta_details ::
    "stream_data_t option \<Rightarrow> cjson option \<Rightarrow> world \<Rightarrow> E_MCL_ERROR_CODE \<times> stream_data_t option \<times> world" where
  "mcl_stream_data_set_meta_details stream_data details w =
    (case stream_data of None \<Rightarrow> (MCL_TRIGGERED_WITH_NULL, None, w)
    | Some s \<Rightarrow> (let (code, c, w1) = mcl_custom_data_set_meta_details (stream_base s) details w
        in (code, Some (s\<lparr>stream_base := c\<rparr>), w1)))"

section \<open>Files\<close>

text \<open>A file of the file system has contents, attributes that may be read or not, may be a regular file and has a date, which
  \<^verbatim>\<open>gmtime_r\<close> may not be able to break down.  An open stream reads from its position on.\<close>

record disk_file =
  disk_contents :: "char list"
  disk_attributes :: bool
  disk_regular :: bool
  disk_time :: "string option"

type_synonym disk = "char list \<Rightarrow> disk_file option"

record open_file =
  stream_file :: disk_file
  stream_position :: nat

definition file_util_fopen :: "disk \<Rightarrow> char list \<Rightarrow> E_MCL_ERROR_CODE \<times> open_file option" where
  "file_util_fopen d file_name = (case d file_name of
      None \<Rightarrow> (MCL_FAIL, None)
    | Some f \<Rightarrow> (MCL_OK, Some \<lparr>stream_file = f, stream_position = 0\<rparr>))"

text \<open>\<^verbatim>\<open>fread\<close> of bytes: what there is up to the count, and the stream moves on.\<close>

definition file_util_fread :: "mcl_size_t \<Rightarrow> open_file \<Rightarrow> char list \<times> open_file" where
  "file_util_fread count f =
    (let bytes = take (unat count) (drop (stream_position f) (disk_contents (stream_file f)))
     in (bytes, f\<lparr>stream_position := stream_position f + length bytes\<rparr>))"

definition file_util_fstat :: "disk_file \<Rightarrow> E_MCL_ERROR_CODE" where
  "file_util_fstat f = (if disk_attributes f then MCL_OK else MCL_FAIL)"

definition file_util_check_if_regular_file :: "disk_file \<Rightarrow> bool" where
  "file_util_check_if_regular_file f = disk_regular f"

record file_t =
  file_meta :: item_meta_t
  file_size :: mcl_size_t
  file_descriptor :: "open_file option"

definition sizeof_file :: mcl_size_t where "sizeof_file = 112"

definition file_destroy :: "file_t option \<Rightarrow> world \<Rightarrow> world" where
  "file_destroy file w = (case file of
      None \<Rightarrow> w
    | Some f \<Rightarrow> memory_free (destroy_strings
        (meta_strings (file_meta f) @ details_strings (meta_details (file_meta f))) w))"

definition set_file_name where
  "set_file_name r m = m\<lparr>meta_details := File_Details r (details_creation_date (meta_details m)) (details_file_type (meta_details m))\<rparr>"
definition set_creation_date where
  "set_creation_date r m = m\<lparr>meta_details := File_Details (details_file_name (meta_details m)) r (details_file_type (meta_details m))\<rparr>"
definition set_file_type where
  "set_file_type r m = m\<lparr>meta_details := File_Details (details_file_name (meta_details m)) (details_creation_date (meta_details m)) r\<rparr>"

text \<open>\<^verbatim>\<open>time_util_convert_to_iso_8601_format\<close>: the text of the date goes into a buffer that is one character
  longer than needed.\<close>

definition sizeof_tm :: mcl_size_t where "sizeof_tm = 56"

definition time_util_convert_to_iso_8601_format ::
    "string option \<Rightarrow> world \<Rightarrow> (E_MCL_ERROR_CODE \<times> string_t option \<times> world) option" where
  "time_util_convert_to_iso_8601_format time_value w =
    (case memory_allocate sizeof_tm w of
      (None, w1) \<Rightarrow> Some (MCL_OUT_OF_MEMORY, None, w1)
    | (Some a, w1) \<Rightarrow>
      (case time_value of
        None \<Rightarrow> Some (MCL_FAIL, None, memory_free w1)
      | Some formatted \<Rightarrow> do {
          (code, r, w2) \<leftarrow> string_initialize_new None 25 w1;
          if code \<noteq> MCL_OK then Some (code, r, memory_free w2)
          else do {
            s \<leftarrow> r;
            b \<leftarrow> string_buffer s;
            if length formatted < unat (string_length s) then do {
              b1 \<leftarrow> write_at b 0 (cstring formatted);
              Some (MCL_OK, Some (s\<lparr>string_buffer := Some b1\<rparr>), memory_free w2)
            }
            else (let (r1, w3) = string_destroy (Some s) w2 in Some (MCL_FAIL, r1, memory_free w3))
          }
        }))"

text \<open>Only the case of a given path is used by the store.\<close>

definition file_initialize ::
    "disk \<Rightarrow> char list \<Rightarrow> char list option \<Rightarrow> char list \<Rightarrow> char list option \<Rightarrow> char list option \<Rightarrow> world
      \<Rightarrow> (E_MCL_ERROR_CODE \<times> file_t option \<times> world) option" where
  "file_initialize d version file_path file_name0 file_type0 routing w =
    (case memory_allocate sizeof_file w of
      (None, w1) \<Rightarrow> Some (MCL_OUT_OF_MEMORY, None, w1)
    | (Some a, w1) \<Rightarrow>
      (case file_path of
        None \<Rightarrow> Some (MCL_OK, Some \<lparr>file_meta = empty_meta (File_Details None None None), file_size = 0,
            file_descriptor = None\<rparr>, w1)
      | Some path \<Rightarrow> do {
          (code, m, w2) \<leftarrow> run_steps
            ([set_member set_type (static_value META_FIELD_TYPE_ITEM),
              set_member set_version (static_value META_FIELD_VERSION_CURRENT)]
             @ optional routing (\<lambda>r. set_member set_routing (new_text r))
             @ [set_member set_payload_type (static_value META_FIELD_PAYLOAD_TYPE_FILE),
                set_member set_payload_version (new_text version)])
            (MCL_OK, empty_meta (File_Details None None None), w1);
          let f = \<lparr>file_meta = m, file_size = 0, file_descriptor = None\<rparr>;
          if code \<noteq> MCL_OK then Some (code, None, file_destroy (Some f) w2)
          else (case file_util_fopen d path of
              (code1, None) \<Rightarrow> Some (MCL_FILE_CANNOT_BE_OPENED, None, file_destroy (Some f) w2)
            | (code1, Some stream) \<Rightarrow> do {
                (code2, m2, w3) \<leftarrow> run_steps
                  (set_member set_file_name (new_text file_name0)
                   # optional file_type0 (\<lambda>t. set_member set_file_type (new_text t))) (MCL_OK, m, w2);
                if code2 \<noteq> MCL_OK then Some (code2, None, file_destroy (Some (f\<lparr>file_meta := m2\<rparr>)) w3)
                else if file_util_fstat (stream_file stream) \<noteq> MCL_OK
                then Some (file_util_fstat (stream_file stream), None, file_destroy (Some (f\<lparr>file_meta := m2\<rparr>)) w3)
                else if \<not> file_util_check_if_regular_file (stream_file stream)
                then Some (MCL_FILE_CANNOT_BE_OPENED, None, file_destroy (Some (f\<lparr>file_meta := m2\<rparr>)) w3)
                else do {
                  (code3, m3, w4) \<leftarrow> set_member set_creation_date
                    (time_util_convert_to_iso_8601_format (disk_time (stream_file stream))) (MCL_OK, m2, w3);
                  let f3 = \<lparr>file_meta = m3, file_size = size_of_nat (length (disk_contents (stream_file stream))),
                    file_descriptor = Some stream\<rparr>;
                  if code3 \<noteq> MCL_OK then Some (code3, None, file_destroy (Some f3) w4)
                  else Some (MCL_OK, Some f3, w4)
                }
              })
        }))"

section \<open>Data source configurations\<close>

record data_point_t =
  data_point_id :: "string_t option"
  data_point_name :: "string_t option"
  data_point_description :: "string_t option"
  data_point_type :: "string_t option"
  data_point_unit :: "string_t option"
  data_point_custom_data :: "cjson option"

record data_source_t =
  data_source_name :: "string_t option"
  data_source_description :: "string_t option"
  data_source_data_points :: "data_point_t list option"
  data_source_custom_data :: "cjson option"

record data_source_configuration_t =
  dsc_meta :: item_meta_t
  dsc_configuration_id :: "string_t option"
  dsc_data_sources :: "data_source_t list option"

definition sizeof_data_point :: mcl_size_t where "sizeof_data_point = 48"
definition sizeof_data_source :: mcl_size_t where "sizeof_data_source = 32"
definition sizeof_data_source_configuration :: mcl_size_t where "sizeof_data_source_configuration = 88"

definition destroy_data_point :: "data_point_t \<Rightarrow> world \<Rightarrow> world" where
  "destroy_data_point p w = memory_free (json_util_destroy (data_point_custom_data p)
    (destroy_strings [data_point_id p, data_point_name p, data_point_description p, data_point_type p,
      data_point_unit p] w))"

definition destroy_data_source :: "data_source_t \<Rightarrow> world \<Rightarrow> world" where
  "destroy_data_source s w = memory_free (json_util_destroy (data_source_custom_data s)
    (items_destroy destroy_data_point (data_source_data_points s)
      (destroy_strings [data_source_name s, data_source_description s] w)))"

definition data_source_configuration_destroy :: "data_source_configuration_t option \<Rightarrow> world \<Rightarrow> world" where
  "data_source_configuration_destroy dsc w = (case dsc of
      None \<Rightarrow> w
    | Some c \<Rightarrow> memory_free (items_destroy destroy_data_source (dsc_data_sources c)
        (destroy_strings [meta_content_id (dsc_meta c), meta_type (dsc_meta c), meta_version (dsc_meta c),
          meta_payload_type (dsc_meta c), meta_payload_version (dsc_meta c), dsc_configuration_id c] w)))"

definition set_dsc_meta where "set_dsc_meta put r c = c\<lparr>dsc_meta := put r (dsc_meta c)\<rparr>"
definition set_dsc_id where "set_dsc_id r c = c\<lparr>dsc_configuration_id := r\<rparr>"
definition set_dsc_sources where "set_dsc_sources r c = c\<lparr>dsc_data_sources := r\<rparr>"

definition dsc_initialize_meta :: "char list \<Rightarrow> data_source_configuration_t step list" where
  "dsc_initialize_meta version =
    [set_member (set_dsc_meta set_type) (static_value META_FIELD_TYPE_ITEM),
     set_member (set_dsc_meta set_version) (static_value META_FIELD_VERSION_CURRENT),
     set_member (set_dsc_meta set_payload_type) (static_value META_FIELD_PAYLOAD_TYPE_DATA_SOURCE_CONFIGURATION),
     set_member (set_dsc_meta set_payload_version) (new_text version)]"

definition dsc_initialize_payload :: "random_source \<Rightarrow> data_source_configuration_t step list" where
  "dsc_initialize_payload rand =
    [set_member set_dsc_id (random_generate_guid rand), set_member set_dsc_sources items_initialize]"

definition data_source_configuration_initialize ::
    "random_source \<Rightarrow> char list \<Rightarrow> world \<Rightarrow> (E_MCL_ERROR_CODE \<times> data_source_configuration_t option \<times> world) option" where
  "data_source_configuration_initialize rand version w =
    (case memory_allocate sizeof_data_source_configuration w of
      (None, w1) \<Rightarrow> Some (MCL_OUT_OF_MEMORY, None, w1)
    | (Some a, w1) \<Rightarrow> do {
        (code, c, w2) \<leftarrow> run_steps (dsc_initialize_meta version @ dsc_initialize_payload rand)
          (MCL_OK, \<lparr>dsc_meta = empty_meta Unset_Details, dsc_configuration_id = None, dsc_data_sources = None\<rparr>, w1);
        if code \<noteq> MCL_OK then Some (code, None, data_source_configuration_destroy (Some c) w2)
        else Some (code, Some c, w2)
      })"

definition duplicate_json :: "cjson \<Rightarrow> world \<Rightarrow> (E_MCL_ERROR_CODE \<times> cjson option \<times> world) option" where
  "duplicate_json t w = Some (json_util_duplicate t True w)"

definition set_source_name where "set_source_name r s = s\<lparr>data_source_name := r\<rparr>"
definition set_source_description where "set_source_description r s = s\<lparr>data_source_description := r\<rparr>"
definition set_source_custom where "set_source_custom r s = s\<lparr>data_source_custom_data := r\<rparr>"
definition set_source_points where "set_source_points r s = s\<lparr>data_source_data_points := r\<rparr>"

definition mcl_data_source_configuration_add_data_source ::
    "data_source_configuration_t option \<Rightarrow> char list option \<Rightarrow> char list option \<Rightarrow> cjson option \<Rightarrow> bool \<Rightarrow> world
      \<Rightarrow> (E_MCL_ERROR_CODE \<times> data_source_configuration_t option \<times> nat option \<times> world) option" where
  "mcl_data_source_configuration_add_data_source dsc name description custom_data given w =
    (case dsc of None \<Rightarrow> Some (MCL_TRIGGERED_WITH_NULL, None, None, w)
    | Some c \<Rightarrow> (case name of None \<Rightarrow> Some (MCL_TRIGGERED_WITH_NULL, Some c, None, w)
    | Some nm \<Rightarrow>
      if \<not> given then Some (MCL_TRIGGERED_WITH_NULL, Some c, None, w)
      else (case memory_allocate sizeof_data_source w of
          (None, w1) \<Rightarrow> Some (MCL_OUT_OF_MEMORY, Some c, None, w1)
        | (Some a, w1) \<Rightarrow> do {
            (code, s, w2) \<leftarrow> run_steps
              (set_member set_source_name (new_text nm)
               # optional description (\<lambda>d. set_member set_source_description (new_text d))
               @ optional custom_data (\<lambda>t. set_member set_source_custom (duplicate_json t))
               @ [set_member set_source_points items_initialize])
              (MCL_OK, \<lparr>data_source_name = None, data_source_description = None,
                data_source_data_points = None, data_source_custom_data = None\<rparr>, w1);
            if code \<noteq> MCL_OK then Some (code, Some c, None, destroy_data_source s w2)
            else do {
              sources \<leftarrow> dsc_data_sources c;
              let (code1, sources1, w3) = items_add sources s w2;
              if code1 \<noteq> MCL_OK then Some (code1, Some c, None, destroy_data_source s w3)
              else Some (MCL_OK, Some (c\<lparr>dsc_data_sources := Some sources1\<rparr>), Some (length sources), w3)
            }
          })))"

definition set_point_id where "set_point_id r p = p\<lparr>data_point_id := r\<rparr>"
definition set_point_name where "set_point_name r p = p\<lparr>data_point_name := r\<rparr>"
definition set_point_description where "set_point_description r p = p\<lparr>data_point_description := r\<rparr>"
definition set_point_type where "set_point_type r p = p\<lparr>data_point_type := r\<rparr>"
definition set_point_unit where "set_point_unit r p = p\<lparr>data_point_unit := r\<rparr>"
definition set_point_custom where "set_point_custom r p = p\<lparr>data_point_custom_data := r\<rparr>"

definition mcl_data_source_configuration_add_data_point ::
    "data_source_t option \<Rightarrow> char list option \<Rightarrow> char list option \<Rightarrow> char list option \<Rightarrow> char list option
      \<Rightarrow> char list option \<Rightarrow> cjson option \<Rightarrow> world \<Rightarrow> (E_MCL_ERROR_CODE \<times> data_source_t option \<times> world) option" where
  "mcl_data_source_configuration_add_data_point data_source id0 name description type unit custom_data w =
    (case (data_source, id0, name, type, unit) of
      (Some s, Some i, Some nm, Some ty, Some un) \<Rightarrow>
        (case memory_allocate sizeof_data_point w of
          (None, w1) \<Rightarrow> Some (MCL_OUT_OF_MEMORY, Some s, w1)
        | (Some a, w1) \<Rightarrow> do {
            (code, p, w2) \<leftarrow> run_steps
              ([set_member set_point_id (new_text i), set_member set_point_name (new_text nm)]
               @ optional description (\<lambda>d. set_member set_point_description (new_text d))
               @ [set_member set_point_type (new_text ty), set_member set_point_unit (new_text un)]
               @ optional custom_data (\<lambda>t. set_member set_point_custom (duplicate_json t)))
              (MCL_OK, \<lparr>data_point_id = None, data_point_name = None, data_point_description = None,
                data_point_type = None, data_point_unit = None, data_point_custom_data = None\<rparr>, w1);
            if code \<noteq> MCL_OK then Some (code, Some s, destroy_data_point p w2)
            else do {
              points \<leftarrow> data_source_data_points s;
              let (code1, points1, w3) = items_add points p w2;
              if code1 \<noteq> MCL_OK then Some (code1, Some s, destroy_data_point p w3)
              else Some (MCL_OK, Some (s\<lparr>data_source_data_points := Some points1\<rparr>), w3)
            }
          })
    | _ \<Rightarrow> Some (MCL_TRIGGERED_WITH_NULL, data_source, w))"

definition mcl_data_source_configuration_get_id ::
    "data_source_configuration_t option \<Rightarrow> bool \<Rightarrow> world \<Rightarrow> (E_MCL_ERROR_CODE \<times> char list option \<times> world) option" where
  "mcl_data_source_configuration_get_id dsc given w =
    (case dsc of None \<Rightarrow> Some (MCL_TRIGGERED_WITH_NULL, None, w)
    | Some c \<Rightarrow>
      if \<not> given then Some (MCL_TRIGGERED_WITH_NULL, None, w)
      else do {
        id \<leftarrow> dsc_configuration_id c;
        (code, s, w1) \<leftarrow> string_initialize id w;
        if code \<noteq> MCL_OK then Some (MCL_OUT_OF_MEMORY, None, w1)
        else do { r \<leftarrow> s; Some (MCL_OK, string_buffer r, memory_free w1) }
      })"
section \<open>The lists of the items are those of list.c\<close>

text \<open>\<open>items_of\<close> are the data in a represented list.\<close>

definition items_of :: "'d entry list \<Rightarrow> 'd list" where
  "items_of es = map (\<lambda>e. the (snd e)) es"

lemma items_add_list_add:
  assumes "represents l h visited ahead" "heap_fresh h w"
  shows "\<exists>code l' h' w' visited' ahead'. list_add l (Some x) h w = Some (code, l', h', w')
      \<and> represents l' h' visited' ahead'
      \<and> items_add (items_of (visited @ ahead)) x w = (code, items_of (visited' @ ahead'), w')"
proof (cases "list_count l < MCL_SIZE_MAX")
  case False
  then have "list_count l = MCL_SIZE_MAX" using word_order.not_eq_extremum [of "list_count l"] by (simp add: MCL_SIZE_MAX_def)
  then have "list_add l (Some x) h w = Some (MCL_LIMIT_EXCEEDED, l, h, w)" by (rule list_add_full)
  moreover have "size_of_nat (length (items_of (visited @ ahead))) = list_count l"
    using assms(1) by (simp add: represents_def items_of_def)
  ultimately show ?thesis using assms(1) False by (fastforce simp: items_add_def)
next
  case True
  have count: "size_of_nat (length (items_of (visited @ ahead))) = list_count l"
    using assms(1) by (simp add: represents_def items_of_def)
  show ?thesis
  proof (cases "memory_allocate sizeof_list_node w")
    case (Pair p w1)
    show ?thesis
    proof (cases p)
      case None
      have "list_add l (Some x) h w = Some (MCL_OUT_OF_MEMORY, l, h, w1)"
        using True Pair None by (simp add: list_add_refused)
      then show ?thesis using assms(1) True Pair None count by (fastforce simp: items_add_def)
    next
      case (Some a)
      have room: "length (visited @ ahead) < 2 ^ 64 - 1"
        using True represents_count [OF assms(1)] by (simp add: size_less_iff unat_MCL_SIZE_MAX)
      obtain l' h' where add: "list_add l (Some x) h w = Some (MCL_OK, l', h', w1)"
        and rep: "if visited \<noteq> [] \<and> ahead = [] then represents l' h' (visited @ [(a, Some x)]) []
         else represents l' h' visited (ahead @ [(a, Some x)])"
        using list_add_granted [OF assms room] Pair Some by metis
      have items: "items_add (items_of (visited @ ahead)) x w = (MCL_OK, items_of (visited @ ahead) @ [x], w1)"
        using True Pair Some count by (simp add: items_add_def)
      show ?thesis
      proof (cases "visited \<noteq> [] \<and> ahead = []")
        case True
        then have "represents l' h' (visited @ [(a, Some x)]) []" using rep by simp
        then show ?thesis using add items True
          by (intro exI [of _ MCL_OK] exI [of _ l'] exI [of _ h'] exI [of _ w1]
              exI [of _ "visited @ [(a, Some x)]"] exI [of _ "[]"]) (simp add: items_of_def)
      next
        case False
        then have "represents l' h' visited (ahead @ [(a, Some x)])" using rep by (simp split: if_splits)
        then show ?thesis using add items
          by (intro exI [of _ MCL_OK] exI [of _ l'] exI [of _ h'] exI [of _ w1]
              exI [of _ visited] exI [of _ "ahead @ [(a, Some x)]"]) (simp add: items_of_def)
      qed
    qed
  qed
qed

lemma items_destroy_list_destroy:
  assumes "represents l h visited ahead" "\<forall>e \<in> set (visited @ ahead). snd e \<noteq> None"
  shows "\<exists>h'. list_destroy_with_content (Some l) (Some f) h w
    = Some (None, h', items_destroy f (Some (items_of (visited @ ahead))) w)"
proof -
  let ?es = "visited @ ahead"
  have "linked h None ?es None" "distinct (map fst ?es)" "list_head l = first_of ?es None"
    using assms(1) by (auto simp: represents_def)
  moreover have "fold (\<lambda>e w1. memory_free (destroy_data (Some f) (snd e) w1)) es w
      = fold (\<lambda>x w. memory_free (f x w)) (items_of es) w" if "\<forall>e \<in> set es. snd e \<noteq> None" for es w
    using that by (induction es arbitrary: w) (auto simp: items_of_def destroy_data_def)
  ultimately show ?thesis
    using assms(2) destroy_nodes_linked [of h None ?es "Some f" w]
    by (simp add: list_destroy_with_content_def items_destroy_def items_of_def)
qed

text \<open>C31: the adding to a list inside of an item and its release are what \<^verbatim>\<open>list_add\<close> and
  \<^verbatim>\<open>list_destroy_with_content\<close> do on the nodes: the same result code, the same items and the
  same blocks.\<close>

theorem items_refine_list:
  assumes "represents l h visited ahead" "heap_fresh h w" "\<forall>e \<in> set (visited @ ahead). snd e \<noteq> None"
  shows "(\<exists>code l' h' w' visited' ahead'. list_add l (Some x) h w = Some (code, l', h', w')
      \<and> represents l' h' visited' ahead'
      \<and> items_add (items_of (visited @ ahead)) x w = (code, items_of (visited' @ ahead'), w'))
    \<and> (\<exists>h'. list_destroy_with_content (Some l) (Some f) h w
        = Some (None, h', items_destroy f (Some (items_of (visited @ ahead))) w))"
  using items_add_list_add [OF assms(1,2)] items_destroy_list_destroy [OF assms(1,3)] by blast

lemma items_refine_list_witness:
  "\<exists>code l' h' w' visited' ahead'. list_add two_nodes (Some 30) two_nodes_heap quiet_world = Some (code, l', h', w')
    \<and> represents l' h' visited' ahead'
    \<and> items_add [10, 20] 30 quiet_world = (code, items_of (visited' @ ahead'), w')"
  using items_refine_list [OF two_nodes_represents two_nodes_fresh, where x = 30 and f = "\<lambda>x w. w"]
  by (simp add: items_of_def)

section \<open>What the making of an item allocates\<close>

text \<open>\<open>makes f v n\<close>: the call gives the value \<open>v\<close> with \<open>n\<close> blocks, or fails with nothing.\<close>

definition makes :: "(world \<Rightarrow> (E_MCL_ERROR_CODE \<times> 'r option \<times> world) option) \<Rightarrow> 'r \<Rightarrow> int \<Rightarrow> bool" where
  "makes f v n \<longleftrightarrow> (\<forall>w. \<exists>code r w'. f w = Some (code, r, w')
    \<and> (if r = None then code \<noteq> MCL_OK \<and> live w' = live w
       else code = MCL_OK \<and> r = Some v \<and> live w' = live w + n)
    \<and> (upcoming w = [] \<longrightarrow> r \<noteq> None \<and> upcoming w' = []))"

text \<open>A state that is being built: its blocks are accounted for at every moment, and unless a call
  failed it is \<open>v\<close>.\<close>

definition builds :: "bool \<Rightarrow> ('s \<Rightarrow> int) \<Rightarrow> world \<Rightarrow> (E_MCL_ERROR_CODE \<times> 's \<times> world) option \<Rightarrow> 's \<Rightarrow> bool" where
  "builds q blocks w0 st v \<longleftrightarrow> (\<exists>code s w'. st = Some (code, s, w') \<and> live w' = live w0 + blocks s
    \<and> (code = MCL_OK \<longrightarrow> s = v) \<and> (q \<longrightarrow> code = MCL_OK \<and> upcoming w' = []))"

lemma builds_start:
  "live w = live w0 + blocks v \<Longrightarrow> (q \<Longrightarrow> upcoming w = []) \<Longrightarrow> builds q blocks w0 (Some (MCL_OK, v, w)) v"
  by (auto simp: builds_def)

lemma builds_step:
  assumes "builds q blocks w0 st u" "makes f x n" "v = put (Some x) u"
    "blocks v = blocks u + n" "blocks (put None u) = blocks u"
  shows "builds q blocks w0 (Option.bind st (set_member put f)) v"
proof -
  obtain code s w where st: "st = Some (code, s, w)" "live w = live w0 + blocks s"
      "code = MCL_OK \<longrightarrow> s = u" "q \<longrightarrow> code = MCL_OK \<and> upcoming w = []"
    using assms(1) by (auto simp: builds_def)
  show ?thesis
  proof (cases "code = MCL_OK")
    case True
    obtain code1 r w1 where f: "f w = Some (code1, r, w1)"
      "if r = None then code1 \<noteq> MCL_OK \<and> live w1 = live w else code1 = MCL_OK \<and> r = Some x \<and> live w1 = live w + n"
      "upcoming w = [] \<longrightarrow> r \<noteq> None \<and> upcoming w1 = []"
      using assms(2) unfolding makes_def by blast
    then show ?thesis using st True assms(3,4,5)
      by (cases "r = None") (auto simp: builds_def set_member_def)
  next
    case False
    then show ?thesis using st by (auto simp: builds_def set_member_def)
  qed
qed

lemma run_steps_Nil [simp]: "run_steps [] st = Some st"
  by (simp add: run_steps_def)

lemma run_steps_snoc: "run_steps (fs @ [f]) st = Option.bind (run_steps fs st) f"
  by (simp add: run_steps_def)

named_theorems makes_intros \<open>what the calls that make a member give\<close>

lemma meta_field_value_simps [simp]:
  "meta_field_value META_FIELD_TYPE_ITEM = ''item''"
  "meta_field_value META_FIELD_VERSION_CURRENT = ''1.0''"
  "meta_field_value META_FIELD_PAYLOAD_VERSION_CURRENT = ''1.0''"
  "meta_field_value META_FIELD_PAYLOAD_TYPE_TIME_SERIES = ''standardTimeSeries''"
  "meta_field_value META_FIELD_PAYLOAD_TYPE_BUSINESS_EVENT = ''businessEvent''"
  "meta_field_value META_FIELD_PAYLOAD_TYPE_FILE = ''file''"
  "meta_field_value META_FIELD_PAYLOAD_TYPE_DATA_SOURCE_CONFIGURATION = ''dataSourceConfiguration''"
  by code_simp+

lemma allocation:
  assumes "memory_allocate n w = (p, w1)" "n \<noteq> 0"
  shows "live w1 = live w + (if p = None then 0 else 1)" "upcoming w = [] \<Longrightarrow> p \<noteq> None \<and> upcoming w1 = []"
  using assms by (cases p; auto simp: memory_allocate_unbounded dest!: allocation_dests)+

lemma makes_static [makes_intros]: "makes (static_value i) (string_constant (meta_field_value i)) 1"
  unfolding makes_def
proof
  fix w
  have pos: "0 < size_of_nat (length (meta_field_value i))" by (cases i) simp_all
  obtain p w1 where p: "memory_allocate sizeof_string w = (p, w1)" by fastforce
  have n: "static_value i w = (if p = None then Some (MCL_OUT_OF_MEMORY, None, w1)
      else Some (MCL_OK, Some (string_constant (meta_field_value i)), w1))"
    using pos p by (cases p) (auto simp: static_value_def string_initialize_static_def initialize_typed_def
        initialize_buffer_def string_constant_def)
  then show "\<exists>code r w'. static_value i w = Some (code, r, w') \<and>
    (if r = None then code \<noteq> MCL_OK \<and> live w' = live w
     else code = MCL_OK \<and> r = Some (string_constant (meta_field_value i)) \<and> live w' = live w + 1) \<and>
    (upcoming w = [] \<longrightarrow> r \<noteq> None \<and> upcoming w' = [])"
    using allocation [OF p] by (auto simp: sizeof_string_def split: if_splits)
qed

lemma makes_new_text [makes_intros]:
  assumes "is_text s" "length s + 1 < 2 ^ 64"
  shows "makes (new_text (s @ NUL # rest)) (handle_of s) 2"
  unfolding makes_def
proof
  fix w
  obtain ok w1 where b: "two_blocks (size_of_nat (length s)) w = (ok, w1)" by fastforce
  have n: "string_initialize_new (Some (s @ NUL # rest)) 0 w =
    (if ok then Some (MCL_OK, Some (handle_of s), w1) else Some (MCL_OUT_OF_MEMORY, None, w1))"
    using string_initialize_new_text [OF assms, of 0 "NUL # rest" w] b by (cases ok) auto
  have "upcoming w = [] \<Longrightarrow> ok \<and> upcoming w1 = []"
    using two_blocks_granted [OF _ succ_length_nonzero [OF assms(2)]] b by auto
  then show "\<exists>code r w'. new_text (s @ NUL # rest) w = Some (code, r, w') \<and>
    (if r = None then code \<noteq> MCL_OK \<and> live w' = live w
     else code = MCL_OK \<and> r = Some (handle_of s) \<and> live w' = live w + 2) \<and>
    (upcoming w = [] \<longrightarrow> r \<noteq> None \<and> upcoming w' = [])"
    using live_two_blocks [OF b] n by (auto simp: new_text_def split: if_splits)
qed

lemma makes_items [makes_intros]: "makes items_initialize [] 1"
  unfolding makes_def
proof
  fix w
  obtain p w1 where p: "memory_allocate sizeof_list w = (p, w1)" by fastforce
  then show "\<exists>code r w'. items_initialize w = Some (code, r, w') \<and>
    (if r = None then code \<noteq> MCL_OK \<and> live w' = live w
     else code = MCL_OK \<and> r = Some [] \<and> live w' = live w + 1) \<and>
    (upcoming w = [] \<longrightarrow> r \<noteq> None \<and> upcoming w' = [])"
    using allocation [OF p] by (cases p) (auto simp: items_initialize_def sizeof_list_def)
qed

lemma makes_duplicate [makes_intros]: "makes (duplicate_json t) t (1 + item_blocks t)"
  unfolding makes_def
proof
  fix w
  obtain p w1 where p: "memory_allocate sizeof_json w = (p, w1)" by fastforce
  obtain r w2 where r: "cJSON_Duplicate t w1 = (r, w2)" by fastforce
  have "live w2 = live w1 + (if r = None then 0 else item_blocks t)" "r \<noteq> None \<Longrightarrow> r = Some t"
      "upcoming w1 = [] \<Longrightarrow> r \<noteq> None \<and> upcoming w2 = []"
    using cJSON_Duplicate_counts(1) [of t w1] r by (simp_all add: one_item_def)
  then show "\<exists>code r w'. duplicate_json t w = Some (code, r, w') \<and>
    (if r = None then code \<noteq> MCL_OK \<and> live w' = live w
     else code = MCL_OK \<and> r = Some t \<and> live w' = live w + (1 + item_blocks t)) \<and>
    (upcoming w = [] \<longrightarrow> r \<noteq> None \<and> upcoming w' = [])"
    using allocation [OF p] p r
    by (cases p; cases r) (auto simp: duplicate_json_def json_util_duplicate_def sizeof_json_def memory_free_def)
qed

section \<open>Blocks of the items\<close>

definition json_blocks :: "cjson option \<Rightarrow> int" where
  "json_blocks j = (case j of None \<Rightarrow> 0 | Some t \<Rightarrow> 1 + item_blocks t)"

definition items_blocks :: "('a \<Rightarrow> int) \<Rightarrow> 'a list option \<Rightarrow> int" where
  "items_blocks b xs = (case xs of None \<Rightarrow> 0 | Some ys \<Rightarrow> 1 + (\<Sum>y\<leftarrow>ys. 1 + b y))"

lemma blocks_simps [simp]:
  "string_blocks None = 0" "string_blocks (Some t) = blocks_of t"
  "json_blocks None = 0" "json_blocks (Some c) = 1 + item_blocks c"
  "items_blocks b None = 0" "items_blocks b (Some []) = 1"
  by (simp_all add: string_blocks_def json_blocks_def items_blocks_def)

lemma blocks_of_constant [simp]: "blocks_of (string_constant s) = 1"
  by (simp add: blocks_of_def string_constant_def)

lemma live_destroy_strings [simp]:
  "live (destroy_strings ss w) = live w - (\<Sum>s\<leftarrow>ss. string_blocks s)"
proof (induction ss arbitrary: w)
  case (Cons s ss)
  then show ?case using live_string_destroy
    by (cases s) (simp_all add: destroy_strings_def string_destroy_def)
qed (simp add: destroy_strings_def)

lemma live_json_destroy [simp]: "live (json_util_destroy j w) = live w - json_blocks j"
  by (cases j) (simp_all add: json_util_destroy_def memory_free_def)

lemma live_items_destroy:
  "(\<And>x w. live (f x w) = live w - b x) \<Longrightarrow> live (items_destroy f xs w) = live w - items_blocks b xs"
proof -
  assume f: "\<And>x w. live (f x w) = live w - b x"
  have "live (fold (\<lambda>x w. memory_free (f x w)) ys w) = live w - (\<Sum>y\<leftarrow>ys. 1 + b y)" for ys
    by (induction ys arbitrary: w) (simp_all add: f)
  then show ?thesis by (cases xs) (simp_all add: items_destroy_def items_blocks_def)
qed

definition sum_blocks :: "string_t option list \<Rightarrow> int" where
  "sum_blocks ss = (\<Sum>s\<leftarrow>ss. string_blocks s)"

definition value_blocks :: "time_series_value_t \<Rightarrow> int" where
  "value_blocks v = 1 + sum_blocks [value_data_point_id v, value_value v, value_quality_code v]"

definition value_set_blocks :: "time_series_value_set_t \<Rightarrow> int" where
  "value_set_blocks s = 1 + string_blocks (value_set_timestamp s) + items_blocks value_blocks (value_set_values s)"

definition meta_blocks :: "item_meta_t \<Rightarrow> int" where
  "meta_blocks m = sum_blocks (meta_strings m) + sum_blocks (details_strings (meta_details m))
    + json_blocks (case meta_details m of Custom_Details j \<Rightarrow> j | _ \<Rightarrow> None)"

definition time_series_blocks :: "time_series_t \<Rightarrow> int" where
  "time_series_blocks t = 1 + meta_blocks (time_series_meta t) + items_blocks value_set_blocks (time_series_value_sets t)"

definition event_blocks :: "event_payload_t \<Rightarrow> int" where
  "event_blocks p = 2 + sum_blocks (event_strings p) + json_blocks (event_details p)"

definition event_list_blocks :: "event_list_t \<Rightarrow> int" where
  "event_list_blocks l = 2 + meta_blocks (event_list_meta l) + items_blocks event_blocks (event_list_events l)"

definition custom_blocks :: "custom_data_t \<Rightarrow> int" where
  "custom_blocks c = 1 + meta_blocks (custom_meta c)"

definition file_blocks :: "file_t \<Rightarrow> int" where
  "file_blocks f = 1 + meta_blocks (file_meta f)"

definition data_point_blocks :: "data_point_t \<Rightarrow> int" where
  "data_point_blocks p = 1 + sum_blocks [data_point_id p, data_point_name p, data_point_description p,
    data_point_type p, data_point_unit p] + json_blocks (data_point_custom_data p)"

definition data_source_blocks :: "data_source_t \<Rightarrow> int" where
  "data_source_blocks s = 1 + sum_blocks [data_source_name s, data_source_description s]
    + items_blocks data_point_blocks (data_source_data_points s) + json_blocks (data_source_custom_data s)"

definition dsc_blocks :: "data_source_configuration_t \<Rightarrow> int" where
  "dsc_blocks c = 1 + meta_blocks (dsc_meta c) + string_blocks (dsc_configuration_id c)
    + items_blocks data_source_blocks (dsc_data_sources c)"

text \<open>The kind of details an item of each component has.\<close>

definition is_custom_details where "is_custom_details d \<longleftrightarrow> (\<exists>j. d = Custom_Details j)"

lemmas block_defs = value_blocks_def value_set_blocks_def time_series_blocks_def event_blocks_def
  event_list_blocks_def custom_blocks_def file_blocks_def data_point_blocks_def data_source_blocks_def
  dsc_blocks_def meta_blocks_def sum_blocks_def meta_strings_def

lemma live_destroy_value [simp]: "live (destroy_value_set_value v w) = live w - value_blocks v"
  by (simp add: destroy_value_set_value_def block_defs)

lemma live_destroy_value_set [simp]: "live (destroy_value_set s w) = live w - value_set_blocks s"
  by (simp add: destroy_value_set_def block_defs live_items_destroy [of _ value_blocks])

lemma live_time_series_destroy:
  "\<not> is_custom_details (meta_details (time_series_meta t)) \<Longrightarrow>
    live (time_series_destroy (Some t) w) = live w - time_series_blocks t"
  by (auto simp: time_series_destroy_def block_defs live_items_destroy [of _ value_set_blocks] is_custom_details_def
      split: item_meta_payload_details_union_t.split)

lemma live_destroy_event [simp]: "live (destroy_event p w) = live w - event_blocks p"
  by (simp add: destroy_event_def event_destroy_def block_defs)

lemma live_event_list_destroy:
  "meta_details (event_list_meta l) = Unset_Details \<Longrightarrow>
    live (event_list_destroy (Some l) w) = live w - event_list_blocks l"
  by (simp add: event_list_destroy_def block_defs live_items_destroy [of _ event_blocks] details_strings_def)

lemma live_custom_data_destroy:
  "is_custom_details (meta_details (custom_meta c)) \<Longrightarrow>
    live (custom_data_destroy (Some c) w) = live w - custom_blocks c"
  by (auto simp: custom_data_destroy_def block_defs details_strings_def is_custom_details_def)

lemma live_file_destroy:
  "\<not> is_custom_details (meta_details (file_meta f)) \<Longrightarrow>
    live (file_destroy (Some f) w) = live w - file_blocks f"
  by (auto simp: file_destroy_def block_defs is_custom_details_def
      split: item_meta_payload_details_union_t.split)

lemma live_destroy_data_point [simp]: "live (destroy_data_point p w) = live w - data_point_blocks p"
  by (simp add: destroy_data_point_def block_defs)

lemma live_destroy_data_source [simp]: "live (destroy_data_source s w) = live w - data_source_blocks s"
  by (simp add: destroy_data_source_def block_defs live_items_destroy [of _ data_point_blocks])

lemma live_dsc_destroy:
  "meta_details (dsc_meta c) = Unset_Details \<Longrightarrow> meta_routing (dsc_meta c) = None \<Longrightarrow>
    live (data_source_configuration_destroy (Some c) w) = live w - dsc_blocks c"
  by (simp add: data_source_configuration_destroy_def block_defs live_items_destroy [of _ data_source_blocks]
      details_strings_def)
section \<open>Making items\<close>

lemma run_steps_append: "run_steps (fs @ gs) st = Option.bind (run_steps fs st) (run_steps gs)"
proof (induction gs rule: rev_induct)
  case (snoc g gs)
  then show ?case by (simp add: run_steps_snoc flip: append_assoc)
qed simp

lemma run_steps_one: "run_steps [f] = f"
  by (rule ext) (simp add: run_steps_def)

lemma run_steps_Cons: "run_steps (f # fs) st = Option.bind (f st) (run_steps fs)"
  using run_steps_append [of "[f]" fs st] by (simp add: run_steps_one)

definition builds_all :: "bool \<Rightarrow> ('s \<Rightarrow> int) \<Rightarrow> 's step list \<Rightarrow> 's \<Rightarrow> 's \<Rightarrow> bool" where
  "builds_all q blocks steps u v \<longleftrightarrow>
    (\<forall>w0 st. builds q blocks w0 st u \<longrightarrow> builds q blocks w0 (Option.bind st (run_steps steps)) v)"

lemma builds_all_Nil: "u = v \<Longrightarrow> builds_all q blocks [] u v"
proof -
  have e: "Option.bind st (run_steps []) = st" for st :: "(E_MCL_ERROR_CODE \<times> 'a \<times> world) option"
    by (cases st) simp_all
  show "u = v \<Longrightarrow> ?thesis" by (simp add: builds_all_def e)
qed

lemma builds_all_Cons:
  assumes "makes f x n" "blocks (put (Some x) u) = blocks u + n" "blocks (put None u) = blocks u"
    "builds_all q blocks steps (put (Some x) u) v"
  shows "builds_all q blocks (set_member put f # steps) u v"
  unfolding builds_all_def
proof (intro allI impI)
  fix w0 st assume b: "builds q blocks w0 st u"
  have e: "Option.bind st (run_steps (set_member put f # steps))
      = Option.bind (Option.bind st (set_member put f)) (run_steps steps)"
    by (cases st) (simp_all add: run_steps_Cons)
  show "builds q blocks w0 (Option.bind st (run_steps (set_member put f # steps))) v"
    unfolding e using builds_step [where put = put and x = x, OF b assms(1) refl assms(2,3)] assms(4)
    unfolding builds_all_def by blast
qed

lemma builds_all_run:
  "builds_all q blocks steps u v \<Longrightarrow> live w = live w0 + blocks u \<Longrightarrow> (q \<Longrightarrow> upcoming w = []) \<Longrightarrow>
    builds q blocks w0 (run_steps steps (MCL_OK, u, w)) v"
  unfolding builds_all_def by (drule spec [of _ w0], drule spec [of _ "Some (MCL_OK, u, w)"]) (simp add: builds_start)

lemma builds_result:
  assumes "builds q blocks w0 st v"
  obtains code s w' where "st = Some (code, s, w')" "live w' = live w0 + blocks s" "code = MCL_OK \<Longrightarrow> s = v"
    "q \<Longrightarrow> code = MCL_OK \<and> upcoming w' = []"
  using assms unfolding builds_def by blast

definition text_arg :: "string \<Rightarrow> char list \<Rightarrow> bool" where
  "text_arg t s \<longleftrightarrow> is_text t \<and> length t + 1 < 2 ^ 64 \<and> (\<exists>rest. s = t @ NUL # rest)"

lemma makes_text_arg [makes_intros]: "text_arg t s \<Longrightarrow> makes (new_text s) (handle_of t) 2"
  using makes_new_text by (auto simp: text_arg_def)

lemmas setters = set_type_def set_version_def set_routing_def set_payload_type_def set_payload_version_def
  set_configuration_id_def

definition meta_for :: "string_t \<Rightarrow> string \<Rightarrow> string option \<Rightarrow> item_meta_payload_details_union_t \<Rightarrow> item_meta_t" where
  "meta_for type version routing d = \<lparr>meta_content_id = None, meta_type = Some (string_constant ''item''),
    meta_version = Some (string_constant ''1.0''), meta_routing = map_option handle_of routing,
    meta_payload_type = Some type, meta_payload_version = Some (handle_of version), meta_details = d\<rparr>"

lemmas item_simps = setters meta_blocks_def sum_blocks_def meta_strings_def details_strings_def empty_meta_def
  meta_for_def

lemma time_series_meta_builds:
  assumes "text_arg v version" "text_arg c configuration" "rel_option text_arg r routing"
  shows "builds_all q meta_blocks (time_series_meta_steps version configuration routing)
    (empty_meta (Time_Series_Details None))
    (meta_for (string_constant ''standardTimeSeries'') v r (Time_Series_Details (Some (handle_of c))))"
proof (cases r)
  case None
  then have "routing = None" using assms(3) by simp
  then show ?thesis using None unfolding time_series_meta_steps_def optional_def
    by simp (rule builds_all_Cons builds_all_Nil makes_intros assms | simp add: item_simps)+
next
  case (Some t)
  then obtain s where s: "routing = Some s" "text_arg t s" using assms(3) by (cases routing) auto
  then show ?thesis using Some unfolding time_series_meta_steps_def optional_def
    by simp (rule builds_all_Cons builds_all_Nil makes_intros assms s(2) | simp add: item_simps)+
qed
text \<open>What the initialization of an item gives.\<close>

definition time_series_of :: "string \<Rightarrow> string \<Rightarrow> string option \<Rightarrow> time_series_t" where
  "time_series_of version configuration routing =
    \<lparr>time_series_meta = meta_for (string_constant ''standardTimeSeries'') version routing
       (Time_Series_Details (Some (handle_of configuration))), time_series_value_sets = Some []\<rparr>"

definition event_list_of :: "string \<Rightarrow> event_list_t" where
  "event_list_of version =
    \<lparr>event_list_meta = meta_for (string_constant ''businessEvent'') version None Unset_Details,
     event_list_events = Some []\<rparr>"

definition custom_data_of :: "string \<Rightarrow> string \<Rightarrow> string option \<Rightarrow> custom_data_t" where
  "custom_data_of version type routing =
    \<lparr>custom_meta = meta_for (handle_of type) version routing (Custom_Details None),
     custom_buffer = None, custom_size = 0\<rparr>"

text \<open>The steps never change the kind of the details.\<close>

lemma builds_all_from_start:
  assumes "builds_all q blocks steps u v" "blocks u = 0" "q \<Longrightarrow> upcoming w = []"
  obtains code s w' where "run_steps steps (MCL_OK, u, w) = Some (code, s, w')" "live w' = live w + blocks s"
    "code = MCL_OK \<Longrightarrow> s = v" "q \<Longrightarrow> code = MCL_OK \<and> upcoming w' = []"
proof -
  have "builds q blocks w (run_steps steps (MCL_OK, u, w)) v"
    using assms(2,3) by (intro builds_all_run [OF assms(1)]) simp_all
  then show thesis using that by (rule builds_result)
qed

definition keeps :: "('s \<Rightarrow> bool) \<Rightarrow> 's step list \<Rightarrow> bool" where
  "keeps P steps \<longleftrightarrow> (\<forall>code s (w :: world) code1 s1 w1. P s \<longrightarrow> run_steps steps (code, s, w) = Some (code1, s1, w1) \<longrightarrow> P s1)"

lemma keeps_Nil: "keeps P []"
  by (simp add: keeps_def)

lemma keeps_Cons:
  assumes "\<And>s r. P s \<Longrightarrow> P (put r s)" "keeps P steps"
  shows "keeps P (set_member put f # steps)"
proof -
  have "P s1" if ps: "P s" and run: "run_steps (set_member put f # steps) (code, s, w) = Some (code1, s1, w1)"
    for code s w code1 s1 w1
  proof -
    obtain c2 s2 w2 where 2: "set_member put f (code, s, w) = Some (c2, s2, w2)"
        "run_steps steps (c2, s2, w2) = Some (code1, s1, w1)"
      using run by (auto simp: run_steps_Cons bind_eq_Some_conv)
    have "P s2" using 2(1) ps assms(1) by (auto simp: set_member_def bind_eq_Some_conv split: if_splits)
    then show ?thesis using 2(2) assms(2) unfolding keeps_def by blast
  qed
  then show ?thesis unfolding keeps_def by blast
qed

lemma keepsD: "keeps P steps \<Longrightarrow> run_steps steps (code, s, w) = Some (code1, s1, w1) \<Longrightarrow> P s \<Longrightarrow> P s1"
  unfolding keeps_def by blast

text \<open>One call of what makes a value.\<close>

definition made ::
    "(E_MCL_ERROR_CODE \<times> 'r option \<times> world) option \<Rightarrow> 'r \<Rightarrow> int \<Rightarrow> world \<Rightarrow> bool" where
  "made x v n w \<longleftrightarrow> (\<exists>code r w'. x = Some (code, r, w')
    \<and> (if r = None then code \<noteq> MCL_OK \<and> live w' = live w
       else code = MCL_OK \<and> r = Some v \<and> live w' = live w + n)
    \<and> (upcoming w = [] \<longrightarrow> r \<noteq> None \<and> upcoming w' = []))"

lemma makes_made: "makes f v n \<longleftrightarrow> (\<forall>w. made (f w) v n w)"
  by (simp add: makes_def made_def)

lemma made_failed:
  "x = Some (code, None, w') \<Longrightarrow> code \<noteq> MCL_OK \<Longrightarrow> live w' = live w \<Longrightarrow> upcoming w \<noteq> [] \<Longrightarrow> made x v n w"
  by (simp add: made_def)

lemma made_ok:
  "x = Some (MCL_OK, Some v, w') \<Longrightarrow> live w' = live w + n \<Longrightarrow> (upcoming w = [] \<Longrightarrow> upcoming w' = [])
    \<Longrightarrow> made x v n w"
  by (simp add: made_def)

lemma madeE:
  assumes "made x v n w"
  obtains (failed) code w' where "x = Some (code, None, w')" "code \<noteq> MCL_OK" "live w' = live w" "upcoming w \<noteq> []"
    | (ok) w' where "x = Some (MCL_OK, Some v, w')" "live w' = live w + n" "upcoming w = [] \<longrightarrow> upcoming w' = []"
proof -
  obtain code r w' where 1: "x = Some (code, r, w')"
      "if r = None then code \<noteq> MCL_OK \<and> live w' = live w else code = MCL_OK \<and> r = Some v \<and> live w' = live w + n"
      "upcoming w = [] \<longrightarrow> r \<noteq> None \<and> upcoming w' = []"
    using assms unfolding made_def by blast
  show thesis using 1 failed [of code w'] ok [of w'] by (cases "r = None") simp_all
qed

text \<open>The members that \<open>steps\<close> fill, either all of them or some of them, which are then destroyed.\<close>

lemma stepsE:
  assumes "builds_all (upcoming w = []) blocks steps u v" "blocks u = 0" "keeps P steps" "P u"
  obtains (failed) code s w' where "run_steps steps (MCL_OK, u, w) = Some (code, s, w')" "code \<noteq> MCL_OK"
      "P s" "live w' = live w + blocks s" "upcoming w \<noteq> []"
    | (ok) w' where "run_steps steps (MCL_OK, u, w) = Some (MCL_OK, v, w')" "live w' = live w + blocks v"
      "upcoming w = [] \<longrightarrow> upcoming w' = []"
proof -
  obtain code s w' where 1: "run_steps steps (MCL_OK, u, w) = Some (code, s, w')" "live w' = live w + blocks s"
      "code = MCL_OK \<Longrightarrow> s = v" "upcoming w = [] \<Longrightarrow> code = MCL_OK \<and> upcoming w' = []"
    using builds_all_from_start [OF assms(1,2), of w] by auto
  show thesis using 1 failed [OF 1(1)] ok keepsD [OF assms(3) 1(1) assms(4)] by (cases "code = MCL_OK") auto
qed

lemma allocE:
  assumes "n \<noteq> 0"
  obtains (failed) w' where "memory_allocate n w = (None, w')" "live w' = live w" "upcoming w \<noteq> []"
    | (ok) a w' where "memory_allocate n w = (Some a, w')" "live w' = live w + 1" "upcoming w = [] \<longrightarrow> upcoming w' = []"
proof (cases "memory_allocate n w")
  case (Pair p w')
  then show thesis using allocation [OF Pair assms] that by (cases p) auto
qed

lemma keeps_time_series_meta:
  "keeps (\<lambda>m. \<not> is_custom_details (meta_details m)) (time_series_meta_steps version configuration routing)"
  by (cases routing; simp add: time_series_meta_steps_def optional_def)
    ((rule keeps_Cons keeps_Nil | simp add: setters is_custom_details_def)+)

lemma makes_time_series [makes_intros]:
  assumes "text_arg v version" "text_arg c configuration" "rel_option text_arg r routing"
  shows "makes (time_series_initialize version configuration routing) (time_series_of v c r)
    (time_series_blocks (time_series_of v c r))"
  unfolding makes_made
proof
  fix w
  let ?m = "time_series_meta (time_series_of v c r)"
  note defs = time_series_initialize_def time_series_initialize_meta_def
  have nz: "sizeof_time_series \<noteq> 0" by (simp add: sizeof_time_series_def)
  show "made (time_series_initialize version configuration routing w) (time_series_of v c r)
    (time_series_blocks (time_series_of v c r)) w"
  proof (cases rule: allocE [OF nz, of w])
    case (1 w')
    then show ?thesis by (simp add: made_def defs)
  next
    case ok: (2 a w1)
    have B: "builds_all (upcoming w1 = []) meta_blocks (time_series_meta_steps version configuration routing)
        (empty_meta (Time_Series_Details None)) ?m"
      using time_series_meta_builds [OF assms] by (simp add: time_series_of_def)
    show ?thesis
    proof (cases rule: stepsE [OF B _ keeps_time_series_meta])
      case 1 show ?case by (simp add: item_simps)
    next
      case 2 show ?case by (simp add: empty_meta_def is_custom_details_def)
    next
      case (3 code s w2)
      then show ?thesis using ok
        by (simp add: made_def defs live_time_series_destroy time_series_blocks_def)
    next
      case (4 w2)
      have M: "made (items_initialize w2) ([] :: time_series_value_set_t list) 1 w2"
        using makes_items unfolding makes_made by blast
      show ?thesis
      proof (cases rule: madeE [OF M])
        case (1 code w3)
        then show ?thesis using ok 4
          by (simp add: made_def defs live_time_series_destroy time_series_blocks_def time_series_of_def meta_for_def is_custom_details_def)
      next
        case (2 w3)
        then show ?thesis using ok 4
          by (intro made_ok) (auto simp: defs time_series_of_def time_series_blocks_def)
      qed
    qed
  qed
qed
definition event_list_meta_steps :: "char list \<Rightarrow> item_meta_t step list" where
  "event_list_meta_steps version =
    [set_member set_type (static_value META_FIELD_TYPE_ITEM),
     set_member set_version (static_value META_FIELD_VERSION_CURRENT),
     set_member set_payload_type (static_value META_FIELD_PAYLOAD_TYPE_BUSINESS_EVENT),
     set_member set_payload_version (new_text version)]"

lemma event_list_meta_builds:
  "text_arg v version \<Longrightarrow> builds_all q meta_blocks (event_list_meta_steps version) (empty_meta Unset_Details)
    (event_list_meta (event_list_of v))"
  unfolding event_list_meta_steps_def
  by (rule builds_all_Cons builds_all_Nil makes_intros | assumption | simp add: item_simps event_list_of_def)+

lemma keeps_event_list_meta: "keeps (\<lambda>m. meta_details m = Unset_Details) (event_list_meta_steps version)"
  unfolding event_list_meta_steps_def by (rule keeps_Cons keeps_Nil | simp add: setters)+

lemma makes_event_list [makes_intros]:
  assumes "text_arg v version"
  shows "makes (event_list_initialize version) (event_list_of v) (event_list_blocks (event_list_of v))"
  unfolding makes_made
proof
  fix w
  have nz: "sizeof_event_list \<noteq> 0" "sizeof_item_meta \<noteq> 0"
    by (simp_all add: sizeof_event_list_def sizeof_item_meta_def)
  have defs: "event_list_initialize_meta version w1 = run_steps (event_list_meta_steps version) (MCL_OK, empty_meta Unset_Details, w1)" for w1
    by (simp add: event_list_initialize_meta_def event_list_meta_steps_def)
  show "made (event_list_initialize version w) (event_list_of v) (event_list_blocks (event_list_of v)) w"
  proof (cases rule: allocE [OF nz(1), of w])
    case (1 w')
    then show ?thesis by (simp add: made_def event_list_initialize_def)
  next
    case a: (2 a w1)
    show ?thesis
    proof (cases rule: allocE [OF nz(2), of w1])
      case (1 w')
      then show ?thesis using a by (simp add: made_def event_list_initialize_def)
    next
      case b: (2 b w2)
      show ?thesis
      proof (cases rule: stepsE [OF event_list_meta_builds [OF assms, of "upcoming w2 = []"] _ keeps_event_list_meta])
        case 1 show ?case by (simp add: item_simps)
      next
        case 2 show ?case by (simp add: empty_meta_def)
      next
        case (3 code s w3)
        then show ?thesis using a b
          by (simp add: made_def event_list_initialize_def defs live_event_list_destroy event_list_blocks_def)
      next
        case (4 w3)
        have M: "made (items_initialize w3) ([] :: event_payload_t list) 1 w3"
          using makes_items unfolding makes_made by blast
        show ?thesis
        proof (cases rule: madeE [OF M])
          case (1 code w4)
          then show ?thesis using a b 4
            by (simp add: made_def event_list_initialize_def defs live_event_list_destroy event_list_blocks_def
                event_list_of_def meta_for_def)
        next
          case (2 w4)
          then show ?thesis using a b 4
            by (intro made_ok) (auto simp: event_list_initialize_def defs event_list_of_def event_list_blocks_def)
        qed
      qed
    qed
  qed
qed

definition custom_meta_steps :: "char list \<Rightarrow> char list \<Rightarrow> char list option \<Rightarrow> item_meta_t step list" where
  "custom_meta_steps type version routing =
    [set_member set_type (static_value META_FIELD_TYPE_ITEM),
     set_member set_version (static_value META_FIELD_VERSION_CURRENT)]
     @ optional routing (\<lambda>r. set_member set_routing (new_text r))
     @ [set_member set_payload_type (new_text type), set_member set_payload_version (new_text version)]"

lemma custom_meta_builds:
  assumes "text_arg v version" "text_arg t type" "rel_option text_arg r routing"
  shows "builds_all q meta_blocks (custom_meta_steps type version routing) (empty_meta (Custom_Details None))
    (custom_meta (custom_data_of v t r))"
proof (cases r)
  case None
  then have "routing = None" using assms(3) by simp
  then show ?thesis using None unfolding custom_meta_steps_def optional_def
    by simp (rule builds_all_Cons builds_all_Nil makes_intros assms | simp add: item_simps custom_data_of_def)+
next
  case (Some x)
  then obtain s where s: "routing = Some s" "text_arg x s" using assms(3) by (cases routing) auto
  then show ?thesis using Some unfolding custom_meta_steps_def optional_def
    by simp (rule builds_all_Cons builds_all_Nil makes_intros assms s(2) | simp add: item_simps custom_data_of_def)+
qed

lemma keeps_custom_meta: "keeps (\<lambda>m. is_custom_details (meta_details m)) (custom_meta_steps type version routing)"
  by (cases routing; simp add: custom_meta_steps_def optional_def)
    ((rule keeps_Cons keeps_Nil | simp add: setters is_custom_details_def)+)

lemma makes_custom_data [makes_intros]:
  assumes "text_arg v version" "text_arg t type" "rel_option text_arg r routing"
  shows "makes (custom_data_initialize version type routing) (custom_data_of v t r)
    (custom_blocks (custom_data_of v t r))"
  unfolding makes_made
proof
  fix w
  have nz: "sizeof_custom_data \<noteq> 0" by (simp add: sizeof_custom_data_def)
  have defs: "initialize_custom_data_meta_fields type version routing w1
      = run_steps (custom_meta_steps type version routing) (MCL_OK, empty_meta (Custom_Details None), w1)" for w1
    by (simp add: initialize_custom_data_meta_fields_def custom_meta_steps_def)
  show "made (custom_data_initialize version type routing w) (custom_data_of v t r) (custom_blocks (custom_data_of v t r)) w"
  proof (cases rule: allocE [OF nz, of w])
    case (1 w')
    then show ?thesis by (simp add: made_def custom_data_initialize_def)
  next
    case a: (2 a w1)
    show ?thesis
    proof (cases rule: stepsE [OF custom_meta_builds [OF assms, of "upcoming w1 = []"] _ keeps_custom_meta])
      case 1 show ?case by (simp add: item_simps)
    next
      case 2 show ?case by (simp add: empty_meta_def is_custom_details_def)
    next
      case (3 code s w2)
      then show ?thesis using a
        by (simp add: made_def custom_data_initialize_def defs live_custom_data_destroy custom_blocks_def)
    next
      case (4 w2)
      then show ?thesis using a
        by (intro made_ok) (auto simp: custom_data_initialize_def defs custom_data_of_def custom_blocks_def)
    qed
  qed
qed

text \<open>Whichever request for memory is refused, the initialization of a time series, a list of events
  or custom data gives the item described by its arguments, with exactly the blocks its destruction gives
  back, or fails with nothing allocated; and it does not fail while memory lasts.\<close>

theorem items_are_made:
  assumes "text_arg v version" "text_arg c configuration" "text_arg t type" "rel_option text_arg r routing"
  shows "makes (time_series_initialize version configuration routing) (time_series_of v c r)
      (live w - live (time_series_destroy (Some (time_series_of v c r)) w))
    \<and> makes (event_list_initialize version) (event_list_of v)
      (live w - live (event_list_destroy (Some (event_list_of v)) w))
    \<and> makes (custom_data_initialize version type routing) (custom_data_of v t r)
      (live w - live (custom_data_destroy (Some (custom_data_of v t r)) w))"
  using makes_time_series [OF assms(1,2,4)] makes_event_list [OF assms(1)] makes_custom_data [OF assms(1,3,4)]
  by (simp add: live_time_series_destroy live_event_list_destroy live_custom_data_destroy time_series_of_def
      event_list_of_def custom_data_of_def meta_for_def is_custom_details_def)

lemma text_arg_cstring: "is_text t \<Longrightarrow> length t + 1 < 2 ^ 64 \<Longrightarrow> text_arg t (cstring t)"
  by (auto simp: text_arg_def cstring_def)

lemma items_are_made_witness:
  "makes (event_list_initialize (cstring ''1.0'')) (event_list_of ''1.0'')
    (live quiet_world - live (event_list_destroy (Some (event_list_of ''1.0'')) quiet_world))"
  using items_are_made [of "''1.0''" "cstring ''1.0''" "''1.0''" "cstring ''1.0''" "''1.0''" "cstring ''1.0''" None None quiet_world]
  by (simp add: text_arg_cstring is_text_def)

text \<open>When the copy of the first text of a value is refused, the value is destroyed with members that have
  never been set: the operation has no defined outcome.\<close>

theorem mcl_time_series_add_value_unset:
  assumes "text_arg d i" "text_arg x v" "text_arg y q" "memory_allocate sizeof_value w = (Some a, w1)" "upcoming w1 = [False]"
  shows "mcl_time_series_add_value (Some vs) (Some i) (Some v) (Some q) w = None"
proof -
  have "made (new_text i w1) (handle_of d) 2 w1"
    using makes_text_arg [OF assms(1)] unfolding makes_made by blast
  then obtain code r w2 where r: "string_initialize_new (Some i) 0 w1 = Some (code, r, w2)"
      "r = None \<longleftrightarrow> code \<noteq> MCL_OK"
    by (auto simp: made_def new_text_def split: if_splits)
  have "memory_allocate sizeof_string w1 = (None, w1\<lparr>upcoming := []\<rparr>)"
    using assms(5) by (simp add: memory_allocate_def memory_malloc_def sizeof_string_def)
  then have "code \<noteq> MCL_OK" using r
    by (auto simp: string_initialize_new_def initialize_typed_def)
  then show ?thesis using assms(4) r by (simp add: mcl_time_series_add_value_def)
qed

lemma mcl_time_series_add_value_unset_witness:
  "mcl_time_series_add_value (Some \<lparr>value_set_timestamp = None, value_set_values = Some []\<rparr>)
    (Some (cstring ''dp'')) (Some (cstring ''1'')) (Some (cstring ''0'')) (quiet_world\<lparr>upcoming := [True, False]\<rparr>) = None"
  by (rule mcl_time_series_add_value_unset [of "''dp''" _ "''1''" _ "''0''" _ _ "fresh quiet_world"
        "quiet_world\<lparr>upcoming := [False], live := live quiet_world + 1, fresh := fresh quiet_world + 1\<rparr>"])
    (simp_all add: text_arg_cstring is_text_def memory_allocate_def memory_malloc_def sizeof_value_def)

end
