(* ===== verification/MCL_Json.thy ===== *)
theory MCL_Json
  imports MCL_Data
begin

text \<open>
  \<^verbatim>\<open>json.c\<close>: the texts that are sent for an item, its meta data and its payload.  \<open>other\<close> is how the C
  library prints a number that is not an \<^verbatim>\<open>int\<close>.  The second half gives the tree that each function
  makes and shows that the text is that tree's when memory is not short.
\<close>

section \<open>Members\<close>

text \<open>The characters a member points to; where it points to nothing the code reads through \<^verbatim>\<open>NULL\<close>.\<close>

definition member_text :: "string_t option \<Rightarrow> string option" where
  "member_text s = do { t \<leftarrow> s; b \<leftarrow> string_buffer t; chars_of b }"

definition add_text ::
    "cjson \<Rightarrow> place \<Rightarrow> string \<Rightarrow> string_t option \<Rightarrow> world \<Rightarrow> (E_MCL_ERROR_CODE \<times> cjson \<times> world) option" where
  "add_text t p name s w = do { v \<leftarrow> member_text s; json_util_add_string t p (Some name) v w }"

definition add_string_field_to_object ::
    "cjson \<Rightarrow> place \<Rightarrow> string \<Rightarrow> string_t option \<Rightarrow> bool \<Rightarrow> world \<Rightarrow> (E_MCL_ERROR_CODE \<times> cjson \<times> world) option" where
  "add_string_field_to_object t p field_name field is_mandatory w =
    (let code = (if is_mandatory then MCL_FAIL else MCL_OK) in
     case field of None \<Rightarrow> Some (code, t, w)
     | Some s \<Rightarrow> do {
         b \<leftarrow> string_buffer s;
         c \<leftarrow> read_at b 0;
         if c = NUL then Some (code, t, w) else add_text t p field_name field w
       })"

text \<open>A call that is made when the calls before succeeded.\<close>

definition if_ok ::
    "(cjson \<Rightarrow> world \<Rightarrow> (E_MCL_ERROR_CODE \<times> cjson \<times> world) option) \<Rightarrow> cjson step" where
  "if_ok f st = (case st of (code, t, w) \<Rightarrow> if code \<noteq> MCL_OK then Some st else f t w)"

section \<open>Meta data\<close>

definition add_item_meta_details ::
    "item_meta_t \<Rightarrow> cjson \<Rightarrow> world \<Rightarrow> (E_MCL_ERROR_CODE \<times> cjson \<times> world) option" where
  "add_item_meta_details item_meta root0 w =
    (case json_util_initialize JSON_OBJECT w of
      (code, None, w1) \<Rightarrow> Some (code, root0, w1)
    | (code, Some details, w1) \<Rightarrow> do {
        (code1, details1, w2) \<leftarrow> add_string_field_to_object details []
          (meta_field_name META_FIELD_DETAILS_ROUTING) (meta_routing item_meta) False w1;
        has \<leftarrow> json_util_has_child details1 [];
        if code1 = MCL_OK \<and> has then do {
          (code2, root1, w3) \<leftarrow> json_util_add_object root0 [] (meta_field_name META_FIELD_DETAILS) details1 w2;
          if code2 = MCL_OK then Some (code2, root1, json_util_finish_object (Some details1) w3)
          else Some (code2, root1, json_util_destroy (Some details1) w3)
        }
        else Some (code1, root0, json_util_destroy (Some details1) w2)
      })"

text \<open>The details of the payload by its type: the union is read as the type says.  An absent result is
  \<^verbatim>\<open>NULL\<close>.\<close>

definition read_time_series_details :: "item_meta_payload_details_union_t \<Rightarrow> string_t option option" where
  "read_time_series_details d = (case d of Time_Series_Details c \<Rightarrow> Some c | _ \<Rightarrow> None)"

definition read_file_details ::
    "item_meta_payload_details_union_t \<Rightarrow> (string_t option \<times> string_t option \<times> string_t option) option" where
  "read_file_details d = (case d of File_Details n c t \<Rightarrow> Some (n, c, t) | _ \<Rightarrow> None)"

definition read_custom_details :: "item_meta_payload_details_union_t \<Rightarrow> cjson option option" where
  "read_custom_details d = (case d of Custom_Details j \<Rightarrow> Some j | _ \<Rightarrow> None)"

definition has_payload_type :: "E_META_FIELD_VALUES \<Rightarrow> item_meta_t \<Rightarrow> bool option" where
  "has_payload_type i item_meta = do {
    code \<leftarrow> string_compare False (Some (string_constant (meta_field_value i))) (meta_payload_type item_meta);
    Some (code = MCL_OK)
  }"

definition payload_details_fields ::
    "(cjson step list) \<Rightarrow> world \<Rightarrow> (E_MCL_ERROR_CODE \<times> cjson option \<times> world) option" where
  "payload_details_fields steps w =
    (case json_util_initialize JSON_OBJECT w of
      (code, None, w1) \<Rightarrow> Some (code, None, w1)
    | (code, Some details, w1) \<Rightarrow> do {
        (code1, details1, w2) \<leftarrow> run_steps steps (MCL_OK, details, w1);
        if code1 \<noteq> MCL_OK then Some (code1, None, json_util_destroy (Some details1) w2)
        else Some (MCL_OK, Some details1, w2)
      })"

definition make_payload_details ::
    "item_meta_t \<Rightarrow> world \<Rightarrow> (E_MCL_ERROR_CODE \<times> cjson option \<times> world) option" where
  "make_payload_details item_meta w = do {
    is_time_series \<leftarrow> has_payload_type META_FIELD_PAYLOAD_TYPE_TIME_SERIES item_meta;
    if is_time_series then do {
      c \<leftarrow> read_time_series_details (meta_details item_meta);
      payload_details_fields
        [if_ok (\<lambda>t. add_string_field_to_object t []
          (meta_field_name META_FIELD_PAYLOAD_DETAILS_CONFIGURATION_ID) c True)] w
    }
    else do {
      is_file \<leftarrow> has_payload_type META_FIELD_PAYLOAD_TYPE_FILE item_meta;
      if is_file then do {
        (n, c, ty) \<leftarrow> read_file_details (meta_details item_meta);
        payload_details_fields
          [if_ok (\<lambda>t. add_string_field_to_object t [] (meta_field_name META_FIELD_PAYLOAD_DETAILS_FILE_NAME) n True),
           if_ok (\<lambda>t. add_string_field_to_object t [] (meta_field_name META_FIELD_PAYLOAD_DETAILS_CREATION_DATE) c False),
           if_ok (\<lambda>t. add_string_field_to_object t [] (meta_field_name META_FIELD_PAYLOAD_DETAILS_FILE_TYPE) ty False)] w
      }
      else do {
        is_configuration \<leftarrow> has_payload_type META_FIELD_PAYLOAD_TYPE_DATA_SOURCE_CONFIGURATION item_meta;
        is_event \<leftarrow> has_payload_type META_FIELD_PAYLOAD_TYPE_BUSINESS_EVENT item_meta;
        if is_configuration \<or> is_event then Some (MCL_OK, None, w)
        else do {
          j \<leftarrow> read_custom_details (meta_details item_meta);
          (case j of None \<Rightarrow> Some (MCL_OK, None, w) | Some t \<Rightarrow> Some (json_util_duplicate t True w))
        }
      }
    }
  }"

text \<open>A failure to add the details is not reported.\<close>

definition add_item_meta_payload_details ::
    "item_meta_t \<Rightarrow> cjson \<Rightarrow> place \<Rightarrow> world \<Rightarrow> (E_MCL_ERROR_CODE \<times> cjson \<times> world) option" where
  "add_item_meta_payload_details item_meta t place0 w = do {
    (code, payload_details, w1) \<leftarrow> make_payload_details item_meta w;
    if code \<noteq> MCL_OK then Some (code, t, w1)
    else (case payload_details of
        None \<Rightarrow> Some (MCL_OK, t, w1)
      | Some d \<Rightarrow>
          if cjson_child d \<noteq> [] then do {
            (code1, t1, w2) \<leftarrow> json_util_add_object t place0 (meta_field_name META_FIELD_DETAILS) d w1;
            if code1 = MCL_OK then Some (MCL_OK, t1, json_util_finish_object (Some d) w2)
            else Some (MCL_OK, t1, json_util_destroy (Some d) w2)
          }
          else Some (MCL_OK, t, json_util_destroy (Some d) w1))
  }"

definition add_item_meta_payload ::
    "item_meta_t \<Rightarrow> cjson \<Rightarrow> world \<Rightarrow> (E_MCL_ERROR_CODE \<times> cjson \<times> world) option" where
  "add_item_meta_payload item_meta root0 w = do {
    (code, t, payload_place, w1) \<leftarrow> json_util_start_object root0 [] (meta_field_name META_FIELD_PAYLOAD) w;
    (case payload_place of
      None \<Rightarrow> Some (code, t, w1)
    | Some p \<Rightarrow> do {
        (code1, t1, w2) \<leftarrow> run_steps
          [if_ok (\<lambda>t. add_text t p (meta_field_name META_FIELD_PAYLOAD_TYPE) (meta_payload_type item_meta)),
           if_ok (\<lambda>t. add_text t p (meta_field_name META_FIELD_PAYLOAD_VERSION) (meta_payload_version item_meta)),
           if_ok (\<lambda>t. add_item_meta_payload_details item_meta t p)] (MCL_OK, t, w1);
        Some (code1, t1, json_util_finish_object (Some p) w2)
      })
  }"

text \<open>What every text ends with: the tree is printed, the text becomes a string, the tree is destroyed.  The
  text is not freed when its handle cannot be made.\<close>

definition finish_json ::
    "(rat \<Rightarrow> string) \<Rightarrow> E_MCL_ERROR_CODE \<times> cjson \<times> world \<Rightarrow> (E_MCL_ERROR_CODE \<times> string_t option \<times> world) option" where
  "finish_json other st = (case st of (code, t, w) \<Rightarrow>
    if code \<noteq> MCL_OK then Some (code, None, json_util_destroy (Some t) w)
    else (case json_util_to_string other t w of
        (code1, None, w1) \<Rightarrow> Some (code1, None, json_util_destroy (Some t) w1)
      | (code1, Some s, w1) \<Rightarrow> do {
          (code2, r, w2) \<leftarrow> string_initialize_dynamic (Some s) 0 w1;
          Some (code2, r, json_util_destroy (Some t) w2)
        }))"

definition json_from_item_meta ::
    "(rat \<Rightarrow> string) \<Rightarrow> item_meta_t \<Rightarrow> world \<Rightarrow> (E_MCL_ERROR_CODE \<times> string_t option \<times> world) option" where
  "json_from_item_meta other item_meta w =
    (case json_util_initialize JSON_OBJECT w of
      (code, None, w1) \<Rightarrow> Some (code, None, w1)
    | (code, Some t, w1) \<Rightarrow> do {
        st \<leftarrow> run_steps
          [if_ok (\<lambda>t. add_string_field_to_object t [] (meta_field_name META_FIELD_TYPE) (meta_type item_meta) True),
           if_ok (\<lambda>t. add_string_field_to_object t [] (meta_field_name META_FIELD_VERSION) (meta_version item_meta) True),
           if_ok (add_item_meta_details item_meta),
           if_ok (add_item_meta_payload item_meta)] (MCL_OK, t, w1);
        finish_json other st
      })"

section \<open>Time series\<close>

text \<open>An object is filled and appended to the array at a place.\<close>

definition append_object ::
    "cjson step list \<Rightarrow> place \<Rightarrow> cjson \<Rightarrow> world \<Rightarrow> (E_MCL_ERROR_CODE \<times> cjson \<times> world) option" where
  "append_object steps p t w =
    (case json_util_initialize JSON_OBJECT w of
      (code, None, w1) \<Rightarrow> Some (code, t, w1)
    | (code, Some object, w1) \<Rightarrow> do {
        (code1, object1, w2) \<leftarrow> run_steps steps (MCL_OK, object, w1);
        if code1 \<noteq> MCL_OK then Some (code1, t, json_util_destroy (Some object1) w2)
        else do {
          t1 \<leftarrow> json_util_add_item_to_array t p object1;
          Some (MCL_OK, t1, json_util_finish_object (Some object1) w2)
        }
      })"

definition add_time_series_payload_values_objects ::
    "place \<Rightarrow> time_series_value_t \<Rightarrow> cjson \<Rightarrow> world \<Rightarrow> (E_MCL_ERROR_CODE \<times> cjson \<times> world) option" where
  "add_time_series_payload_values_objects p v = append_object
    [if_ok (\<lambda>t. add_text t [] (payload_field_name PAYLOAD_FIELD_VALUES_DATA_POINT_ID) (value_data_point_id v)),
     if_ok (\<lambda>t. add_text t [] (payload_field_name PAYLOAD_FIELD_VALUES_VALUE) (value_value v)),
     if_ok (\<lambda>t. add_text t [] (payload_field_name PAYLOAD_FIELD_VALUES_QUALITY_CODE) (value_quality_code v))] p"

text \<open>A loop over a list that ends at the first failure.\<close>

definition for_each ::
    "('a \<Rightarrow> cjson \<Rightarrow> world \<Rightarrow> (E_MCL_ERROR_CODE \<times> cjson \<times> world) option) \<Rightarrow> 'a list \<Rightarrow> cjson step" where
  "for_each f xs = run_steps (map (\<lambda>x. if_ok (f x)) xs)"

definition add_time_series_payload_values_array ::
    "time_series_value_t list option \<Rightarrow> cjson \<Rightarrow> world \<Rightarrow> (E_MCL_ERROR_CODE \<times> cjson \<times> world) option" where
  "add_time_series_payload_values_array values value_set w = do {
    (code, t, values_array, w1) \<leftarrow> json_util_start_array value_set [] (payload_field_name PAYLOAD_FIELD_VALUES) w;
    (case values_array of
      None \<Rightarrow> Some (code, t, w1)
    | Some p \<Rightarrow> do {
        vs \<leftarrow> values;
        (code1, t1, w2) \<leftarrow> for_each (add_time_series_payload_values_objects p) vs (MCL_OK, t, w1);
        Some (code1, t1, json_util_finish_array (Some p) w2)
      })
  }"

definition add_time_series_value_set ::
    "time_series_value_set_t \<Rightarrow> cjson \<Rightarrow> world \<Rightarrow> (E_MCL_ERROR_CODE \<times> cjson \<times> world) option" where
  "add_time_series_value_set value_set = append_object
    [if_ok (\<lambda>t. add_text t [] (payload_field_name PAYLOAD_FIELD_TIMESTAMP) (value_set_timestamp value_set)),
     if_ok (add_time_series_payload_values_array (value_set_values value_set))] []"

definition json_from_time_series_payload ::
    "(rat \<Rightarrow> string) \<Rightarrow> time_series_value_set_t list option \<Rightarrow> world
      \<Rightarrow> (E_MCL_ERROR_CODE \<times> string_t option \<times> world) option" where
  "json_from_time_series_payload other value_sets w =
    (case json_util_initialize JSON_ARRAY w of
      (code, None, w1) \<Rightarrow> Some (code, None, w1)
    | (code, Some t, w1) \<Rightarrow> do {
        vs \<leftarrow> value_sets;
        st \<leftarrow> for_each add_time_series_value_set vs (MCL_OK, t, w1);
        finish_json other st
      })"
section \<open>Data source configurations\<close>

text \<open>Custom data are duplicated, added and their handle released, or everything is given up; the code
  goes on with what the calls returned.\<close>

definition add_custom_data ::
    "cjson option \<Rightarrow> cjson step" where
  "add_custom_data custom_data st = (case st of (code, object, w) \<Rightarrow>
    (case custom_data of None \<Rightarrow> Some st
    | Some c \<Rightarrow>
        if code \<noteq> MCL_OK then Some st
        else (case json_util_duplicate c True w of
            (code1, None, w1) \<Rightarrow> Some (code1, object, w1)
          | (code1, Some d, w1) \<Rightarrow> do {
              (code2, object1, w2) \<leftarrow> json_util_add_object object [] (payload_field_name PAYLOAD_FIELD_CUSTOM_DATA) d w1;
              if code2 = MCL_OK then Some (code2, object1, json_util_finish_object (Some d) w2)
              else Some (code2, object1, json_util_destroy (Some d) w2)
            })))"

text \<open>An object goes into its array even when it could not be completed; without an object the code reads
  through \<^verbatim>\<open>NULL\<close>.\<close>

definition append_anyway ::
    "cjson step list \<Rightarrow> place \<Rightarrow> cjson \<Rightarrow> world \<Rightarrow> (E_MCL_ERROR_CODE \<times> cjson \<times> world) option" where
  "append_anyway steps p t w =
    (case json_util_initialize JSON_OBJECT w of
      (code, None, w1) \<Rightarrow> None
    | (code, Some object, w1) \<Rightarrow> do {
        (code1, object1, w2) \<leftarrow> run_steps steps (MCL_OK, object, w1);
        t1 \<leftarrow> json_util_add_item_to_array t p object1;
        Some (code1, t1, json_util_finish_object (Some object1) w2)
      })"

definition add_data_point ::
    "place \<Rightarrow> data_point_t \<Rightarrow> cjson \<Rightarrow> world \<Rightarrow> (E_MCL_ERROR_CODE \<times> cjson \<times> world) option" where
  "add_data_point p d = append_anyway
    [if_ok (\<lambda>t. add_text t [] (payload_field_name PAYLOAD_FIELD_DATA_SOURCES_DATA_POINTS_ID) (data_point_id d)),
     if_ok (\<lambda>t. add_text t [] (payload_field_name PAYLOAD_FIELD_DATA_SOURCES_DATA_POINTS_NAME) (data_point_name d)),
     if_ok (\<lambda>t. add_string_field_to_object t [] (payload_field_name PAYLOAD_FIELD_DESCRIPTION) (data_point_description d) False),
     if_ok (\<lambda>t. add_text t [] (payload_field_name PAYLOAD_FIELD_DATA_SOURCES_DATA_POINTS_TYPE) (data_point_type d)),
     if_ok (\<lambda>t. add_text t [] (payload_field_name PAYLOAD_FIELD_DATA_SOURCES_DATA_POINTS_UNIT) (data_point_unit d)),
     add_custom_data (data_point_custom_data d)] p"

text \<open>The loop over the data points goes on after a failure and reports the last result only.\<close>

fun data_points_loop :: "place \<Rightarrow> data_point_t list \<Rightarrow> cjson step" where
  "data_points_loop p [] st = Some st"
| "data_points_loop p (d # ds) (code, t, w) = do {
    st1 \<leftarrow> add_data_point p d t w;
    data_points_loop p ds st1
  }"

definition add_data_source_configuration_data_points ::
    "data_point_t list option \<Rightarrow> cjson \<Rightarrow> world \<Rightarrow> (E_MCL_ERROR_CODE \<times> cjson \<times> world) option" where
  "add_data_source_configuration_data_points data_points object w = do {
    (code, t, data_points_array, w1) \<leftarrow>
      json_util_start_array object [] (payload_field_name PAYLOAD_FIELD_DATA_SOURCES_DATA_POINTS) w;
    (case data_points_array of
      None \<Rightarrow> Some (code, t, w1)
    | Some p \<Rightarrow> do {
        ds \<leftarrow> data_points;
        (code1, t1, w2) \<leftarrow> data_points_loop p ds (code, t, w1);
        Some (code1, t1, json_util_finish_array (Some p) w2)
      })
  }"

definition add_data_source ::
    "place \<Rightarrow> data_source_t \<Rightarrow> cjson \<Rightarrow> world \<Rightarrow> (E_MCL_ERROR_CODE \<times> cjson \<times> world) option" where
  "add_data_source p s = append_anyway
    [if_ok (\<lambda>t. add_text t [] (payload_field_name PAYLOAD_FIELD_DATA_SOURCES_NAME) (data_source_name s)),
     if_ok (\<lambda>t. add_string_field_to_object t [] (payload_field_name PAYLOAD_FIELD_DESCRIPTION) (data_source_description s) False),
     if_ok (add_data_source_configuration_data_points (data_source_data_points s)),
     add_custom_data (data_source_custom_data s)] p"

text \<open>The loop over the data sources stops at a failure, which is not reported.\<close>

definition add_data_source_configuration_data_sources ::
    "data_source_t list option \<Rightarrow> cjson \<Rightarrow> world \<Rightarrow> (E_MCL_ERROR_CODE \<times> cjson \<times> world) option" where
  "add_data_source_configuration_data_sources data_sources object w = do {
    (code, t, data_sources_array, w1) \<leftarrow>
      json_util_start_array object [] (payload_field_name PAYLOAD_FIELD_DATA_SOURCES) w;
    (case data_sources_array of
      None \<Rightarrow> Some (code, t, w1)
    | Some p \<Rightarrow> do {
        ss \<leftarrow> data_sources;
        (code1, t1, w2) \<leftarrow> for_each (add_data_source p) ss (code, t, w1);
        Some (MCL_OK, t1, json_util_finish_array (Some p) w2)
      })
  }"

definition json_from_data_source_configuration_payload ::
    "(rat \<Rightarrow> string) \<Rightarrow> data_source_configuration_t \<Rightarrow> world
      \<Rightarrow> (E_MCL_ERROR_CODE \<times> string_t option \<times> world) option" where
  "json_from_data_source_configuration_payload other c w =
    (case json_util_initialize JSON_OBJECT w of
      (code, None, w1) \<Rightarrow> Some (code, None, w1)
    | (code, Some t, w1) \<Rightarrow> do {
        st \<leftarrow> run_steps
          [if_ok (\<lambda>t. add_text t [] (payload_field_name PAYLOAD_FIELD_CONFIGURATION_ID) (dsc_configuration_id c)),
           if_ok (add_data_source_configuration_data_sources (dsc_data_sources c))] (MCL_OK, t, w1);
        finish_json other st
      })"

section \<open>Events\<close>

text \<open>The severity is an \<^verbatim>\<open>int\<close> that is widened with its sign.\<close>

definition add_event_details :: "cjson option \<Rightarrow> cjson \<Rightarrow> world \<Rightarrow> (E_MCL_ERROR_CODE \<times> cjson \<times> world) option" where
  "add_event_details details event_local w =
    (case (case details of Some d \<Rightarrow> json_util_duplicate d True w | None \<Rightarrow> json_util_initialize JSON_OBJECT w) of
      (code, None, w1) \<Rightarrow> Some (code, event_local, w1)
    | (code, Some details_object, w1) \<Rightarrow> do {
        (code1, event1, w2) \<leftarrow>
          json_util_add_object event_local [] (payload_field_name PAYLOAD_FIELD_DETAILS) details_object w1;
        if code1 = MCL_OK then Some (code1, event1, json_util_finish_object (Some details_object) w2)
        else Some (code1, event1, json_util_destroy (Some details_object) w2)
      })"

definition add_event :: "event_payload_t \<Rightarrow> cjson \<Rightarrow> world \<Rightarrow> (E_MCL_ERROR_CODE \<times> cjson \<times> world) option" where
  "add_event event = append_object
    [if_ok (\<lambda>t. add_text t [] (payload_field_name PAYLOAD_FIELD_ID) (event_id event)),
     if_ok (\<lambda>t. add_string_field_to_object t [] (payload_field_name PAYLOAD_FIELD_CORRELATION_ID)
       (event_correlation_id event) False),
     if_ok (\<lambda>t. add_text t [] (payload_field_name PAYLOAD_FIELD_TIMESTAMP) (event_timestamp event)),
     if_ok (\<lambda>t. json_util_add_uint t [] (Some (payload_field_name PAYLOAD_FIELD_SEVERITY))
       (scast (event_severity event))),
     if_ok (\<lambda>t. add_string_field_to_object t [] (payload_field_name PAYLOAD_FIELD_DESCRIPTION)
       (event_description event) False),
     if_ok (\<lambda>t. add_text t [] (payload_field_name PAYLOAD_FIELD_TYPE) (event_type event)),
     if_ok (\<lambda>t. add_text t [] (payload_field_name PAYLOAD_FIELD_VERSION) (event_version event)),
     if_ok (add_event_details (event_details event))] []"

definition add_event_list :: "event_payload_t list \<Rightarrow> cjson step" where
  "add_event_list event_list = for_each add_event event_list"

definition json_from_event_payload ::
    "(rat \<Rightarrow> string) \<Rightarrow> event_payload_t list option \<Rightarrow> world
      \<Rightarrow> (E_MCL_ERROR_CODE \<times> string_t option \<times> world) option" where
  "json_from_event_payload other event_list_payload w =
    (case json_util_initialize JSON_ARRAY w of
      (code, None, w1) \<Rightarrow> Some (code, None, w1)
    | (code, Some t, w1) \<Rightarrow> do {
        es \<leftarrow> event_list_payload;
        st \<leftarrow> add_event_list es (MCL_OK, t, w1);
        finish_json other st
      })"
section \<open>What the functions make when memory is not short\<close>

lemma item_blocks_add_member [simp]:
  "cjson_name c = None \<Longrightarrow> item_blocks (add_member n c t) = item_blocks t + item_blocks c + 1"
  by (simp add: add_member_def text_blocks_def)

lemma set_children_simps [simp]:
  "cjson_child (set_children cs c) = cs" "set_children cs (set_children ds c) = set_children cs c"
  "cjson_type (set_children cs c) = cjson_type c" "cjson_name (set_children cs c) = cjson_name c"
  "set_children (cjson_child c) c = c"
  by (cases c; simp)+

lemma item_at_change_at [simp]:
  "item_at t p = Some c \<Longrightarrow> item_at (change_at t p d) p = Some d"
  by (induction t p rule: item_at.induct) (auto split: if_splits)

lemma change_at_change_at [simp]:
  "item_at t p = Some c \<Longrightarrow> change_at (change_at t p d) p e = change_at t p e"
  by (induction t p rule: item_at.induct) (auto split: if_splits)

lemma change_at_same [simp]: "item_at t p = Some c \<Longrightarrow> change_at t p c = t"
  by (induction t p rule: item_at.induct) (auto split: if_splits)

lemma sum_list_update:
  "k < length xs \<Longrightarrow> (\<Sum>x\<leftarrow>xs[k := y]. f x) = (\<Sum>x\<leftarrow>xs. f x) - f (xs ! k) + (f y :: int)"
proof (induction xs arbitrary: k)
  case (Cons x xs) then show ?case by (cases k) simp_all
qed simp

lemma item_blocks_change_at [simp]:
  "item_at t p = Some c \<Longrightarrow> item_blocks (change_at t p d) = item_blocks t - item_blocks c + item_blocks d"
  by (induction t p rule: item_at.induct) (auto simp: sum_list_update split: if_splits)

text \<open>\<open>plain f t u\<close>: while memory lasts the call turns the tree \<open>t\<close> into \<open>u\<close> and allocates just what the
  difference is.\<close>

definition plain :: "(cjson \<Rightarrow> world \<Rightarrow> (E_MCL_ERROR_CODE \<times> cjson \<times> world) option) \<Rightarrow> cjson \<Rightarrow> cjson \<Rightarrow> bool" where
  "plain f t u \<longleftrightarrow> (\<forall>w. upcoming w = [] \<longrightarrow>
    (\<exists>w1. f t w = Some (MCL_OK, u, w1) \<and> calm w (item_blocks u - item_blocks t) w1))"

definition plain_steps :: "cjson step list \<Rightarrow> cjson \<Rightarrow> cjson \<Rightarrow> bool" where
  "plain_steps steps t u \<longleftrightarrow> plain (\<lambda>t w. run_steps steps (MCL_OK, t, w)) t u"

lemma plainI:
  assumes "\<And>w. upcoming w = [] \<Longrightarrow> \<exists>w1. f t w = Some (MCL_OK, u, w1) \<and> calm w (item_blocks u - item_blocks t) w1"
  shows "plain f t u"
  using assms by (simp add: plain_def)

lemma plainE:
  assumes "plain f t u" "upcoming w = []"
  obtains w1 where "f t w = Some (MCL_OK, u, w1)" "calm w (item_blocks u - item_blocks t) w1" "upcoming w1 = []"
  using assms unfolding plain_def calm_def by blast

lemma plain_steps_Nil: "t = u \<Longrightarrow> plain_steps [] t u"
  by (simp add: plain_steps_def plain_def calm_def)

lemma plain_steps_Cons:
  assumes "plain f t u" "plain_steps steps u v"
  shows "plain_steps (if_ok f # steps) t v"
  unfolding plain_steps_def
proof (rule plainI)
  fix w :: world assume "upcoming w = []"
  then obtain w1 where 1: "f t w = Some (MCL_OK, u, w1)" "calm w (item_blocks u - item_blocks t) w1" "upcoming w1 = []"
    using assms(1) by (elim plainE)
  obtain w2 where 2: "run_steps steps (MCL_OK, u, w1) = Some (MCL_OK, v, w2)"
      "calm w1 (item_blocks v - item_blocks u) w2"
    using assms(2) 1(3) unfolding plain_steps_def by (elim plainE)
  show "\<exists>w1. run_steps (if_ok f # steps) (MCL_OK, t, w) = Some (MCL_OK, v, w1)
      \<and> calm w (item_blocks v - item_blocks t) w1"
    using 1 2 calm_trans [OF 1(2) 2(2)] by (simp add: run_steps_Cons if_ok_def)
qed

lemma plain_steps_None:
  assumes "plain_steps steps t v"
  shows "plain_steps (add_custom_data None # steps) t v"
  using assms by (simp add: plain_steps_def plain_def run_steps_Cons add_custom_data_def)

named_theorems plain_intros \<open>what the calls that add to a tree come to\<close>

lemma says_member_text: "says s v \<Longrightarrow> member_text (Some s) = Some v"
  by (auto simp: says_def member_text_def chars_of_text)

lemma plain_add_string:
  assumes "item_at t p = Some c" "cjson_type c = cJSON_Object" "index_of_name name (cjson_child c) = None"
  shows "plain (\<lambda>t. json_util_add_string t p (Some name) v) t (change_at t p (add_member name (json_string v) c))"
proof (rule plainI)
  fix w :: world assume "upcoming w = []"
  then obtain w1 where "json_util_add_string t p (Some name) v w
      = Some (MCL_OK, change_at t p (add_member name (json_string v) c), w1)" "calm w 3 w1"
    using json_util_add_string_calm [OF _ assms] by metis
  then show "\<exists>w1. json_util_add_string t p (Some name) v w
      = Some (MCL_OK, change_at t p (add_member name (json_string v) c), w1)
      \<and> calm w (item_blocks (change_at t p (add_member name (json_string v) c)) - item_blocks t) w1"
    using assms(1) by simp
qed

lemma plain_add_text:
  assumes "says s v" "item_at t p = Some c" "cjson_type c = cJSON_Object" "index_of_name name (cjson_child c) = None"
    "u = change_at t p (add_member name (json_string v) c)"
  shows "plain (\<lambda>t. add_text t p name (Some s)) t u"
  using plain_add_string [OF assms(2-4), of v] says_member_text [OF assms(1)] assms(5)
  by (simp add: add_text_def plain_def)

lemma plain_add_field:
  assumes "says s v" "v \<noteq> []" "item_at t p = Some c" "cjson_type c = cJSON_Object"
    "index_of_name name (cjson_child c) = None" "u = change_at t p (add_member name (json_string v) c)"
  shows "plain (\<lambda>t. add_string_field_to_object t p name (Some s) m) t u"
proof -
  obtain b where b: "string_buffer s = Some b" "read_at b 0 = Some (hd v)" "hd v \<noteq> NUL"
    using assms(1,2) by (cases v) (auto simp: says_def read_at_def is_text_def)
  then show ?thesis using plain_add_text [OF assms(1,3-6)] by (simp add: add_string_field_to_object_def plain_def)
qed

lemma plain_no_field: "t = u \<Longrightarrow> plain (\<lambda>t. add_string_field_to_object t p name None False) t u"
  by (simp add: add_string_field_to_object_def plain_def calm_def)

lemma plain_append_object:
  assumes "plain_steps steps (new_item cJSON_Object) object" "item_at t p = Some c" "cjson_name object = None"
    "u = change_at t p (set_children (cjson_child c @ [object]) c)"
  shows "plain (append_object steps p) t u"
proof (rule plainI)
  fix w :: world assume "upcoming w = []"
  then obtain w1 where 1: "json_util_initialize JSON_OBJECT w = (MCL_OK, Some (new_item cJSON_Object), w1)"
      "calm w 2 w1" "upcoming w1 = []"
    using initialize_calm [of w JSON_OBJECT cJSON_Object] by blast
  obtain w2 where 2: "run_steps steps (MCL_OK, new_item cJSON_Object, w1) = Some (MCL_OK, object, w2)"
      "calm w1 (item_blocks object - item_blocks (new_item cJSON_Object)) w2"
    using assms(1) 1(3) unfolding plain_steps_def by (elim plainE)
  have "calm w (item_blocks u - item_blocks t) (memory_free w2)"
    using calm_free [OF calm_trans [OF 1(2) 2(2)]] assms(2,4) by (simp add: new_item_def text_blocks_def)
  then show "\<exists>w1. append_object steps p t w = Some (MCL_OK, u, w1) \<and> calm w (item_blocks u - item_blocks t) w1"
    using 1 2 assms(2,4)
    by (simp add: append_object_def json_util_add_item_to_array_def cJSON_AddItemToArray_def
        json_util_finish_object_def finish_json_item_def)
qed

lemma plain_for_each:
  assumes "list_all2 R xs ys" "\<And>x y t c. R x y \<Longrightarrow> item_at t p = Some c \<Longrightarrow>
      plain (f x) t (change_at t p (set_children (cjson_child c @ [g y]) c))"
    and "item_at t p = Some c" "u = change_at t p (set_children (cjson_child c @ map g ys) c)"
  shows "plain (\<lambda>t w. for_each f xs (MCL_OK, t, w)) t u"
  using assms(1,3,4)
proof (induction arbitrary: t c rule: list_all2_induct)
  case Nil
  then show ?case by (simp add: for_each_def plain_def calm_def)
next
  case (Cons x xs y ys)
  let ?t = "change_at t p (set_children (cjson_child c @ [g y]) c)"
  have 1: "plain (f x) t ?t" using Cons.hyps(1) Cons.prems(1) by (rule assms(2))
  have 2: "plain (\<lambda>t w. for_each f xs (MCL_OK, t, w)) ?t u"
    using Cons.prems by (intro Cons.IH [where c = "set_children (cjson_child c @ [g y]) c"]) simp_all
  have "plain_steps (map (\<lambda>x. if_ok (f x)) (x # xs)) t u"
    using plain_steps_Cons [OF 1] 2 by (simp add: for_each_def plain_steps_def)
  then show ?case by (simp add: for_each_def plain_steps_def)
qed

lemma calm_live: "calm w n w1 \<Longrightarrow> n = m \<Longrightarrow> calm w m w1"
  by simp

text \<open>The string a printed tree becomes.\<close>

definition json_handle :: "string \<Rightarrow> string_t" where
  "json_handle s = (handle_of s)\<lparr>string_type := MCL_STRING_NOT_COPY_DESTROY\<rparr>"

lemma finish_json_plain:
  assumes "upcoming w = []" "is_text (text_of other t)" "length (text_of other t) < 2 ^ 64"
  obtains w1 where "finish_json other (MCL_OK, t, w) = Some (MCL_OK, Some (json_handle (text_of other t)), w1)"
    "calm w (1 - item_blocks t) w1"
proof -
  obtain w1 where 1: "json_util_to_string other t w = (MCL_OK, Some (cstring (text_of other t)), w1)"
      "calm w 1 w1" "upcoming w1 = []"
    using json_util_to_string_calm [OF assms(1), of other t] by blast
  have a: "memory_allocate sizeof_string w1 = (Some (fresh w1), w1\<lparr>live := live w1 + 1, fresh := fresh w1 + 1\<rparr>)"
    using 1(3) by (simp add: memory_allocate_unbounded sizeof_string_def)
  have s: "string_initialize_dynamic (Some (cstring (text_of other t))) 0 w1
      = Some (MCL_OK, Some (json_handle (text_of other t)), w1\<lparr>live := live w1 + 1, fresh := fresh w1 + 1\<rparr>)"
    using assms(2,3) a string_util_strlen_text [OF assms(2), of "[]"]
    by (simp add: string_initialize_dynamic_def initialize_typed_def initialize_buffer_def cstring_def
        json_handle_def handle_of_def)
  show thesis
    by (rule that, simp add: finish_json_def 1 s)
      (use 1 in \<open>simp add: calm_def json_util_destroy_def memory_free_def\<close>)
qed

section \<open>The text of a time series\<close>

definition object_of :: "(string \<times> cjson) list \<Rightarrow> cjson" where
  "object_of ms = Cjson cJSON_Object None 0 0 None (map (\<lambda>(n, c). set_name (Some n) c) ms)"

definition array_of :: "cjson list \<Rightarrow> cjson" where
  "array_of cs = Cjson cJSON_Array None 0 0 None cs"

definition value_tree :: "string \<times> string \<times> string \<Rightarrow> cjson" where
  "value_tree v = (case v of (d, x, q) \<Rightarrow> object_of
    [(''dataPointId'', json_string d), (''value'', json_string x), (''qualityCode'', json_string q)])"

definition value_set_tree :: "string \<times> (string \<times> string \<times> string) list \<Rightarrow> cjson" where
  "value_set_tree s = object_of
    [(''timestamp'', json_string (fst s)), (''values'', array_of (map value_tree (snd s)))]"

definition value_says :: "time_series_value_t \<Rightarrow> string \<times> string \<times> string \<Rightarrow> bool" where
  "value_says v t \<longleftrightarrow> (\<exists>d x q. value_data_point_id v = Some d \<and> value_value v = Some x \<and> value_quality_code v = Some q
    \<and> says d (fst t) \<and> says x (fst (snd t)) \<and> says q (snd (snd t)))"

definition value_set_says :: "time_series_value_set_t \<Rightarrow> string \<times> (string \<times> string \<times> string) list \<Rightarrow> bool" where
  "value_set_says s t \<longleftrightarrow> (\<exists>stamp vs. value_set_timestamp s = Some stamp \<and> says stamp (fst t)
    \<and> value_set_values s = Some vs \<and> list_all2 value_says vs (snd t))"

lemma payload_field_name_simps [simp]:
  "payload_field_name PAYLOAD_FIELD_TIMESTAMP = ''timestamp''" "payload_field_name PAYLOAD_FIELD_VALUES = ''values''"
  "payload_field_name PAYLOAD_FIELD_VALUES_DATA_POINT_ID = ''dataPointId''"
  "payload_field_name PAYLOAD_FIELD_VALUES_VALUE = ''value''"
  "payload_field_name PAYLOAD_FIELD_VALUES_QUALITY_CODE = ''qualityCode''"
  by code_simp+

lemma other_names [simp]:
  "\<not> cJSON_strcasecmp_equal (Some ''dataPointId'') ''value''"
  "\<not> cJSON_strcasecmp_equal (Some ''dataPointId'') ''qualityCode''"
  "\<not> cJSON_strcasecmp_equal (Some ''value'') ''qualityCode''"
  "\<not> cJSON_strcasecmp_equal (Some ''timestamp'') ''values''"
  by code_simp+

lemma value_objects_plain:
  assumes "value_says v t" "item_at tr p = Some c"
  shows "plain (add_time_series_payload_values_objects p v) tr
    (change_at tr p (set_children (cjson_child c @ [value_tree t]) c))"
proof -
  obtain d x q where v: "value_data_point_id v = Some d" "value_value v = Some x" "value_quality_code v = Some q"
      "says d (fst t)" "says x (fst (snd t))" "says q (snd (snd t))"
    using assms(1) by (auto simp: value_says_def)
  obtain t1 t2 t3 where t: "t = (t1, t2, t3)" by (cases t)
  show ?thesis unfolding add_time_series_payload_values_objects_def v
    by (rule plain_append_object [OF _ assms(2)])
      ((rule plain_steps_Cons plain_steps_Nil plain_add_text v [unfolded t fst_conv snd_conv]
        | simp add: value_tree_def object_of_def add_member_def new_item_def t)+)
qed
lemma item_at_member [simp]:
  "item_at (add_member n c t) [length (cjson_child t)] = Some (set_name (Some n) c)"
  by simp

lemma change_at_member [simp]:
  "change_at (add_member n c t) [length (cjson_child t)] (set_name (Some n) d) = add_member n d t"
  by (cases t) (simp add: add_member_def list_update_append)

lemma set_children_name: "set_children cs (set_name n c) = set_name n (set_children cs c)"
  by (cases c) simp

text \<open>An array or an object that is started at the root, filled at its place and left.\<close>

lemma plain_started:
  assumes "jt = JSON_ARRAY \<and> k = cJSON_Array \<or> jt = JSON_OBJECT \<and> k = cJSON_Object"
    and "index_of_name n (cjson_child t) = None"
    and "plain f (add_member n (new_item k) t) (add_member n c t)" and "cjson_name c = None"
    and that: "\<And>w. g [length (cjson_child t)] (add_member n (new_item k) t) w = f (add_member n (new_item k) t) w"
  shows "plain (\<lambda>t w. do {
      (code, t1, pl, w1) \<leftarrow> start_item jt t [] n w;
      (case pl of None \<Rightarrow> Some (code, t1, w1)
        | Some p \<Rightarrow> do { (code1, t2, w2) \<leftarrow> g p t1 w1; Some (code1, t2, finish_json_item (Some p) w2) })
    }) t (add_member n c t)"
proof (rule plainI)
  fix w :: world assume "upcoming w = []"
  then obtain w1 where 1: "start_item jt t [] n w = Some (MCL_OK, add_member n (new_item k) t,
      Some [length (cjson_child t)], w1)" "calm w 3 w1" "upcoming w1 = []"
    using start_item_calm [of w t "[]" t n jt k] assms(1,2) by auto
  obtain w2 where 2: "f (add_member n (new_item k) t) w1 = Some (MCL_OK, add_member n c t, w2)"
      "calm w1 (item_blocks (add_member n c t) - item_blocks (add_member n (new_item k) t)) w2"
    using assms(3) 1(3) by (elim plainE)
  have "calm w (item_blocks (add_member n c t) - item_blocks t) (memory_free w2)"
    by (rule calm_live [OF calm_free [OF calm_trans [OF 1(2) 2(2)]]]) (use assms(4) in simp)
  then show "\<exists>w1. do {
      (code, t1, pl, w1) \<leftarrow> start_item jt t [] n w;
      (case pl of None \<Rightarrow> Some (code, t1, w1)
        | Some p \<Rightarrow> do { (code1, t2, w2) \<leftarrow> g p t1 w1; Some (code1, t2, finish_json_item (Some p) w2) })
    } = Some (MCL_OK, add_member n c t, w1) \<and> calm w (item_blocks (add_member n c t) - item_blocks t) w1"
    using 1 2 by (simp add: that finish_json_item_def)
qed

lemma values_array_plain:
  assumes "list_all2 value_says vs ts" "index_of_name ''values'' (cjson_child t) = None"
    "u = add_member ''values'' (array_of (map value_tree ts)) t"
  shows "plain (add_time_series_payload_values_array (Some vs)) t u"
proof -
  let ?p = "[length (cjson_child t)]"
  have arr: "plain (\<lambda>t w. for_each (add_time_series_payload_values_objects ?p) vs (MCL_OK, t, w))
      (add_member ''values'' (new_item cJSON_Array) t) u"
  proof (rule plain_for_each [OF assms(1), where p = ?p and g = value_tree and
          c = "set_name (Some ''values'') (new_item cJSON_Array)"])
    have "set_children (cjson_child (set_name (Some ''values'') (new_item cJSON_Array)) @ map value_tree ts)
        (set_name (Some ''values'') (new_item cJSON_Array)) = set_name (Some ''values'') (array_of (map value_tree ts))"
      by (simp add: array_of_def new_item_def)
    then show "u = change_at (add_member ''values'' (new_item cJSON_Array) t) ?p
      (set_children (cjson_child (set_name (Some ''values'') (new_item cJSON_Array)) @ map value_tree ts)
        (set_name (Some ''values'') (new_item cJSON_Array)))"
      by (simp add: assms(3) del: change_at.simps)
  qed (simp_all add: value_objects_plain del: item_at.simps change_at.simps)
  have e: "add_time_series_payload_values_array (Some vs) = (\<lambda>t w. do {
      (code, t1, pl, w1) \<leftarrow> start_item JSON_ARRAY t [] ''values'' w;
      (case pl of None \<Rightarrow> Some (code, t1, w1)
        | Some p \<Rightarrow> do { (code1, t2, w2) \<leftarrow> for_each (add_time_series_payload_values_objects p) vs (MCL_OK, t1, w1);
            Some (code1, t2, finish_json_item (Some p) w2) })
    })"
    by (intro ext) (simp add: add_time_series_payload_values_array_def json_util_start_array_def
        json_util_finish_array_def cong: option.case_cong)
  show ?thesis
    using plain_started [where jt = JSON_ARRAY and k = cJSON_Array and n = "''values''" and t = t and
        c = "array_of (map value_tree ts)" and f = "\<lambda>t w. for_each (add_time_series_payload_values_objects ?p) vs (MCL_OK, t, w)"
        and g = "\<lambda>p t w. for_each (add_time_series_payload_values_objects p) vs (MCL_OK, t, w)"] arr assms(2,3)
    by (simp add: array_of_def e)
qed

lemma value_set_plain:
  assumes "value_set_says s x" "item_at t [] = Some c"
  shows "plain (add_time_series_value_set s) t (change_at t [] (set_children (cjson_child c @ [value_set_tree x]) c))"
proof -
  obtain stamp vs where v: "value_set_timestamp s = Some stamp" "says stamp (fst x)" "value_set_values s = Some vs"
      "list_all2 value_says vs (snd x)"
    using assms(1) by (auto simp: value_set_says_def)
  show ?thesis unfolding add_time_series_value_set_def v
    by (rule plain_append_object [OF _ assms(2)])
      ((rule plain_steps_Cons plain_steps_Nil plain_add_text values_array_plain v
        | simp add: value_set_tree_def object_of_def add_member_def new_item_def)+)
qed

text \<open>Texts of trees without numbers contain no terminator.\<close>

fun clean :: "cjson \<Rightarrow> bool" where
  "clean (Cjson t vs vi vd nm cs) \<longleftrightarrow>
    t \<noteq> cJSON_Number \<and> (\<forall>s. vs = Some s \<longrightarrow> is_text s) \<and> (\<forall>s. nm = Some s \<longrightarrow> is_text s) \<and> (\<forall>c \<in> set cs. clean c)"

lemma is_text_append [simp]: "is_text (s @ t) \<longleftrightarrow> is_text s \<and> is_text t"
  by (auto simp: is_text_def)

lemma is_text_Cons [simp]: "is_text (c # s) \<longleftrightarrow> c \<noteq> NUL \<and> is_text s"
  by (auto simp: is_text_def)

lemma is_text_Nil [simp]: "is_text []"
  by (simp add: is_text_def)

lemma is_text_comma_list: "(\<forall>s \<in> set ss. is_text s) \<Longrightarrow> is_text (comma_list ss)"
  by (induction ss rule: comma_list.induct) simp_all

lemma is_text_hex4: "is_text (hex4 n)"
proof -
  have "''0123456789abcdef'' ! (k mod 16) \<noteq> NUL" for k
  proof -
    have "''0123456789abcdef'' ! (k mod 16) \<in> set ''0123456789abcdef''" by (rule nth_mem) simp
    then show ?thesis by auto
  qed
  note digit = this [symmetric]
  show ?thesis unfolding hex4_def is_text_def list.set_map by (auto simp del: nth_Cons_numeral dest!: digit [THEN notE])
qed

lemma is_text_escape: "c \<noteq> NUL \<Longrightarrow> is_text (escape_char c)"
  using is_text_hex4 by (auto simp: escape_char_def Let_def)

lemma is_text_quoted: "is_text s \<Longrightarrow> is_text (quoted s)"
  using is_text_escape by (induction s) (auto simp: quoted_def)

lemma is_text_text_of: "clean t \<Longrightarrow> is_text (text_of other t)"
proof (induction t)
  case (Cjson t vs vi vd nm cs)
  have children: "is_text (comma_list (map (text_of other) cs))"
    "is_text (comma_list (map (\<lambda>c. quoted (case cjson_name c of None \<Rightarrow> [] | Some s \<Rightarrow> s) @ '':'' @ text_of other c) cs))"
    using Cjson by (auto intro!: is_text_comma_list is_text_quoted split: option.split)
      (metis clean.simps cjson.exhaust_sel option.distinct(1) is_text_Nil)+
  show ?case using Cjson.prems children
    by (cases t) (auto simp: is_text_quoted split: option.split)
qed

lemma clean_value: "value_says v x \<Longrightarrow> clean (value_tree x)"
  by (auto simp: value_says_def value_tree_def object_of_def json_string_def says_def split: prod.split)

lemma clean_value_set:
  assumes "value_set_says s x"
  shows "clean (value_set_tree x)"
proof -
  obtain stamp vs where v: "says stamp (fst x)" "list_all2 value_says vs (snd x)"
    using assms by (auto simp: value_set_says_def)
  have "\<forall>y \<in> set (snd x). clean (value_tree y)"
    using v(2) by (induction rule: list_all2_induct) (auto simp: clean_value)
  then show ?thesis using v(1) by (auto simp: value_set_tree_def object_of_def array_of_def json_string_def says_def)
qed

lemma clean_payload: "list_all2 value_set_says sets xs \<Longrightarrow> clean (array_of (map value_set_tree xs))"
proof -
  assume "list_all2 value_set_says sets xs"
  then have "\<forall>y \<in> set xs. clean (value_set_tree y)"
    by (induction rule: list_all2_induct) (auto simp: clean_value_set)
  then show ?thesis by (simp add: array_of_def)
qed

lemma json_from_time_series_payload_runs:
  assumes "list_all2 value_set_says sets xs" "upcoming w = []"
    and "length (text_of other (array_of (map value_set_tree xs))) < 2 ^ 64"
  obtains w1 where "json_from_time_series_payload other (Some sets) w
      = Some (MCL_OK, Some (json_handle (text_of other (array_of (map value_set_tree xs)))), w1)" "calm w 2 w1"
proof -
  let ?t = "array_of (map value_set_tree xs)"
  obtain w1 where 1: "json_util_initialize JSON_ARRAY w = (MCL_OK, Some (new_item cJSON_Array), w1)"
      "calm w 2 w1" "upcoming w1 = []"
    using initialize_calm [of w JSON_ARRAY cJSON_Array] assms(2) by blast
  have "plain (\<lambda>t w. for_each add_time_series_value_set sets (MCL_OK, t, w)) (new_item cJSON_Array) ?t"
    by (rule plain_for_each [OF assms(1), where p = "[]" and g = value_set_tree and c = "new_item cJSON_Array"])
      (simp_all add: value_set_plain [where c = c and t = c for c, simplified] array_of_def new_item_def)
  then obtain w2 where 2: "for_each add_time_series_value_set sets (MCL_OK, new_item cJSON_Array, w1) = Some (MCL_OK, ?t, w2)"
      "calm w1 (item_blocks ?t - item_blocks (new_item cJSON_Array)) w2" "upcoming w2 = []"
    using 1(3) by (elim plainE)
  obtain w3 where 3: "finish_json other (MCL_OK, ?t, w2) = Some (MCL_OK, Some (json_handle (text_of other ?t)), w3)"
      "calm w2 (1 - item_blocks ?t) w3"
    using finish_json_plain [OF 2(3) is_text_text_of [OF clean_payload [OF assms(1)]] assms(3)] by blast
  show thesis
    by (rule that [of w3]) (use 1 2 3 in \<open>simp_all add: json_from_time_series_payload_def calm_def\<close>)
qed

text \<open>C27: the payload of a time series is the JSON text of the array of its value sets, each with its
  time and the array of its values in the order they were added; two blocks are allocated for it and
  nothing else stays.\<close>

theorem json_from_time_series_payload_correct:
  assumes "list_all2 value_set_says sets xs" "upcoming w = []"
    and "length (text_of other (array_of (map value_set_tree xs))) < 2 ^ 64"
  shows "\<exists>s w1. json_from_time_series_payload other (Some sets) w = Some (MCL_OK, Some s, w1)
    \<and> string_buffer s = Some (cstring (text_of other (array_of (map value_set_tree xs))))
    \<and> live w1 = live w + 2"
  by (rule json_from_time_series_payload_runs [OF assms]) (simp add: json_handle_def handle_of_def cstring_def calm_def)

lemma json_from_time_series_payload_correct_witness:
  "\<exists>s w1. json_from_time_series_payload (\<lambda>_. [])
      (Some [\<lparr>value_set_timestamp = Some (handle_of ''2016''), value_set_values =
        Some [\<lparr>value_data_point_id = Some (handle_of ''dp''), value_value = Some (handle_of ''1''),
          value_quality_code = Some (handle_of ''0'')\<rparr>]\<rparr>]) quiet_world = Some (MCL_OK, Some s, w1)
    \<and> string_buffer s = Some (cstring ([CHR 0x5B] @ [CHR 0x7B] @ quoted ''timestamp'' @ '':'' @ quoted ''2016'' @ '',''
        @ quoted ''values'' @ '':'' @ [CHR 0x5B] @ [CHR 0x7B] @ quoted ''dataPointId'' @ '':'' @ quoted ''dp'' @ '',''
        @ quoted ''value'' @ '':'' @ quoted ''1'' @ '','' @ quoted ''qualityCode'' @ '':'' @ quoted ''0''
        @ [CHR 0x7D] @ [CHR 0x5D] @ [CHR 0x7D] @ [CHR 0x5D]))
    \<and> live w1 = live quiet_world + 2"
proof -
  let ?xs = "[(''2016'', [(''dp'', ''1'', ''0'')])]"
  have "length (text_of (\<lambda>_. []) (array_of (map value_set_tree ?xs))) < 2 ^ 64"
    by (simp add: array_of_def value_set_tree_def value_tree_def object_of_def json_string_def quoted_def
        escape_char_def Let_def)
  moreover have "upcoming quiet_world = []" by (simp add: quiet_world_def)
  ultimately show ?thesis
    using json_from_time_series_payload_correct [of "[\<lparr>value_set_timestamp = Some (handle_of ''2016''), value_set_values =
        Some [\<lparr>value_data_point_id = Some (handle_of ''dp''), value_value = Some (handle_of ''1''),
          value_quality_code = Some (handle_of ''0'')\<rparr>]\<rparr>]" ?xs quiet_world "\<lambda>_. []"]
    by (simp add: value_set_says_def value_says_def says_handle_of array_of_def value_set_tree_def value_tree_def
        object_of_def json_string_def)
qed

section \<open>The text of the meta data\<close>

definition with_routing :: "string option \<Rightarrow> (string \<times> cjson) list" where
  "with_routing r = (case r of None \<Rightarrow> [] | Some s \<Rightarrow>
    if s = [] then [] else [(''details'', object_of [(''routing'', json_string s)])])"

definition with_details :: "(string \<times> cjson) list \<Rightarrow> (string \<times> cjson) list" where
  "with_details ms = (if ms = [] then [] else [(''details'', object_of ms)])"

definition meta_tree :: "string \<Rightarrow> string \<Rightarrow> string option \<Rightarrow> (string \<times> cjson) list \<Rightarrow> cjson" where
  "meta_tree type version routing details = object_of
    ([(''type'', json_string ''item''), (''version'', json_string ''1.0'')] @ with_routing routing
     @ [(''payload'', object_of ([(''type'', json_string type), (''version'', json_string version)] @ with_details details))])"

lemma meta_field_name_simps [simp]:
  "meta_field_name META_FIELD_TYPE = ''type''" "meta_field_name META_FIELD_VERSION = ''version''"
  "meta_field_name META_FIELD_DETAILS_ROUTING = ''routing''" "meta_field_name META_FIELD_DETAILS = ''details''"
  "meta_field_name META_FIELD_PAYLOAD = ''payload''" "meta_field_name META_FIELD_PAYLOAD_TYPE = ''type''"
  "meta_field_name META_FIELD_PAYLOAD_VERSION = ''version''"
  "meta_field_name META_FIELD_PAYLOAD_DETAILS_CONFIGURATION_ID = ''configurationId''"
  by code_simp+

lemma other_meta_names [simp]:
  "\<not> cJSON_strcasecmp_equal (Some ''type'') ''version''" "\<not> cJSON_strcasecmp_equal (Some ''type'') ''details''"
  "\<not> cJSON_strcasecmp_equal (Some ''version'') ''details''" "\<not> cJSON_strcasecmp_equal (Some ''type'') ''payload''"
  "\<not> cJSON_strcasecmp_equal (Some ''version'') ''payload''" "\<not> cJSON_strcasecmp_equal (Some ''details'') ''payload''"
  by code_simp+

lemma says_constant: "is_text s \<Longrightarrow> length s + 1 < 2 ^ 64 \<Longrightarrow> says (string_constant s) s"
  by (auto simp: says_def string_constant_def cstring_def)

lemma plain_add_object:
  assumes "item_at t p = Some c" "index_of_name n (cjson_child c) = None" "cjson_name d = None" "upcoming w = []"
  obtains w1 where "json_util_add_object t p n d w = Some (MCL_OK, change_at t p (add_member n d c), w1)"
    "calm w 1 w1" "upcoming w1 = []"
  using json_util_add_object_calm [OF assms(4,1,2,3)] by blast

lemma item_meta_details_plain:
  assumes "meta_routing m = map_option handle_of r" "\<forall>s. r = Some s \<longrightarrow> is_text s \<and> length s + 1 < 2 ^ 64"
    and "index_of_name ''details'' (cjson_child t) = None"
    and "u = set_children (cjson_child t @ map (\<lambda>(n, c). set_name (Some n) c) (with_routing r)) t"
  shows "plain (add_item_meta_details m) t u"
proof (rule plainI)
  fix w :: world assume "upcoming w = []"
  then obtain w1 where 1: "json_util_initialize JSON_OBJECT w = (MCL_OK, Some (new_item cJSON_Object), w1)"
      "calm w 2 w1" "upcoming w1 = []"
    using initialize_calm [of w JSON_OBJECT cJSON_Object] by blast
  show "\<exists>w1. add_item_meta_details m t w = Some (MCL_OK, u, w1) \<and> calm w (item_blocks u - item_blocks t) w1"
  proof (cases "\<exists>s. r = Some s \<and> s \<noteq> []")
    case False
    have "add_string_field_to_object (new_item cJSON_Object) [] ''routing'' (meta_routing m) False w1
        = Some (MCL_OK, new_item cJSON_Object, w1)"
      using False assms(1) by (cases r) (auto simp: add_string_field_to_object_def handle_of_def read_at_def)
    moreover have "u = t" using False assms(4) by (cases r) (auto simp: with_routing_def)
    ultimately show ?thesis using 1
      by (simp add: add_item_meta_details_def json_util_has_child_def calm_def json_util_destroy_def memory_free_def)
  next
    case True
    then obtain s where s: "r = Some s" "s \<noteq> []" by blast
    let ?d = "add_member ''routing'' (json_string s) (new_item cJSON_Object)"
    have "says (handle_of s) s" using assms(2) s by (simp add: says_handle_of)
    then have "plain (\<lambda>t. add_string_field_to_object t [] ''routing'' (Some (handle_of s)) False) (new_item cJSON_Object) ?d"
      by (rule plain_add_field [OF _ s(2)]) simp_all
    then obtain w2 where 2: "add_string_field_to_object (new_item cJSON_Object) [] ''routing'' (Some (handle_of s)) False w1
        = Some (MCL_OK, ?d, w2)" "calm w1 (item_blocks ?d - item_blocks (new_item cJSON_Object)) w2" "upcoming w2 = []"
      using 1(3) by (rule plainE)
    obtain w3 where 3: "json_util_add_object t [] ''details'' ?d w2 = Some (MCL_OK, add_member ''details'' ?d t, w3)"
        "calm w2 1 w3"
      using plain_add_object [of t "[]" t "''details''" ?d w2] assms(3) 2(3) by auto
    have u: "u = add_member ''details'' ?d t"
      using assms(4) s by (simp add: with_routing_def add_member_def object_of_def new_item_def)
    have "calm w (item_blocks u - item_blocks t) (memory_free w3)"
      by (rule calm_live [OF calm_free [OF calm_trans [OF calm_trans [OF 1(2) 2(2)] 3(2)]]]) (simp add: u)
    then show ?thesis using 1 2 3 assms(1) s u
      by (simp add: add_item_meta_details_def json_util_has_child_def json_util_finish_object_def finish_json_item_def)
  qed
qed

text \<open>The details of the payload: \<open>d\<close> are their members.\<close>

definition makes_details :: "item_meta_t \<Rightarrow> (string \<times> cjson) list \<Rightarrow> bool" where
  "makes_details m ms \<longleftrightarrow> (\<forall>w. upcoming w = [] \<longrightarrow>
    (\<exists>w1. make_payload_details m w = Some (MCL_OK, if ms = [] then None else Some (object_of ms), w1)
      \<and> calm w (if ms = [] then 0 else 1 + item_blocks (object_of ms)) w1))"

lemma payload_details_plain:
  assumes "makes_details m ms" "item_at t p = Some c" "index_of_name ''details'' (cjson_child c) = None"
    and "u = (if ms = [] then t else change_at t p (add_member ''details'' (object_of ms) c))"
  shows "plain (\<lambda>t. add_item_meta_payload_details m t p) t u"
proof (rule plainI)
  fix w :: world assume "upcoming w = []"
  then obtain w1 where 1: "make_payload_details m w = Some (MCL_OK, if ms = [] then None else Some (object_of ms), w1)"
      "calm w (if ms = [] then 0 else 1 + item_blocks (object_of ms)) w1" "upcoming w1 = []"
    using assms(1) unfolding makes_details_def calm_def by blast
  show "\<exists>w1. add_item_meta_payload_details m t p w = Some (MCL_OK, u, w1) \<and> calm w (item_blocks u - item_blocks t) w1"
  proof (cases "ms = []")
    case True
    then show ?thesis using 1 assms(4) by (simp add: add_item_meta_payload_details_def)
  next
    case False
    obtain w2 where 2: "json_util_add_object t p ''details'' (object_of ms) w1
        = Some (MCL_OK, change_at t p (add_member ''details'' (object_of ms) c), w2)" "calm w1 1 w2"
      using plain_add_object [OF assms(2,3) _ 1(3), of "object_of ms"] by (auto simp: object_of_def)
    have "calm w (item_blocks u - item_blocks t) (memory_free w2)"
      by (rule calm_live [OF calm_free [OF calm_trans [OF 1(2) 2(2)]]])
        (use False assms(2,4) in \<open>simp add: object_of_def\<close>)
    then show ?thesis using 1 2 assms(4) False
      by (simp add: add_item_meta_payload_details_def object_of_def json_util_finish_object_def finish_json_item_def)
  qed
qed
lemma item_meta_payload_plain:
  assumes "meta_payload_type m = Some ty" "says ty type" "meta_payload_version m = Some ve" "says ve version"
    and "makes_details m ms" "index_of_name ''payload'' (cjson_child t) = None"
    and "u = add_member ''payload'' (object_of ([(''type'', json_string type), (''version'', json_string version)]
        @ with_details ms)) t"
  shows "plain (add_item_meta_payload m) t u"
proof -
  let ?p = "[length (cjson_child t)]"
  let ?steps = "\<lambda>p. [if_ok (\<lambda>t. add_text t p ''type'' (meta_payload_type m)),
     if_ok (\<lambda>t. add_text t p ''version'' (meta_payload_version m)),
     if_ok (\<lambda>t. add_item_meta_payload_details m t p)]"
  let ?t0 = "add_member ''payload'' (new_item cJSON_Object) t"
  let ?c0 = "set_name (Some ''payload'') (new_item cJSON_Object)"
  let ?c1 = "add_member ''type'' (json_string type) ?c0"
  let ?c2 = "add_member ''version'' (json_string version) ?c1"
  let ?c3 = "if ms = [] then ?c2 else add_member ''details'' (object_of ms) ?c2"
  note no = item_at.simps change_at.simps
  have 0: "item_at ?t0 ?p = Some ?c0" by simp
  have 1: "plain (\<lambda>t. add_text t ?p ''type'' (Some ty)) ?t0 (change_at ?t0 ?p ?c1)"
    by (rule plain_add_text [OF assms(2) 0 _ _ refl]) simp_all
  have 2: "plain (\<lambda>t. add_text t ?p ''version'' (Some ve)) (change_at ?t0 ?p ?c1) (change_at ?t0 ?p ?c2)"
    by (rule plain_add_text [OF assms(4), where c = ?c1]) (simp_all del: no add: item_at_change_at [OF 0] change_at_change_at [OF 0])
  have 3: "plain (\<lambda>t. add_item_meta_payload_details m t ?p) (change_at ?t0 ?p ?c2) (change_at ?t0 ?p ?c3)"
    by (rule payload_details_plain [OF assms(5), where c = ?c2])
      (simp_all del: no add: item_at_change_at [OF 0] change_at_change_at [OF 0])
  have all: "plain_steps (?steps ?p) ?t0 (change_at ?t0 ?p ?c3)"
    unfolding assms(1,3) by (rule plain_steps_Cons [OF 1 plain_steps_Cons [OF 2 plain_steps_Cons [OF 3 plain_steps_Nil [OF refl]]]])
  have c3: "?c3 = set_name (Some ''payload'') (object_of ([(''type'', json_string type), (''version'', json_string version)] @ with_details ms))"
    by (simp add: object_of_def with_details_def add_member_def new_item_def)
  have u: "change_at ?t0 ?p ?c3 = u"
    unfolding c3 change_at_member assms(7) by (rule refl)
  have e: "add_item_meta_payload m = (\<lambda>t w. do {
      (code, t1, pl, w1) \<leftarrow> start_item JSON_OBJECT t [] ''payload'' w;
      (case pl of None \<Rightarrow> Some (code, t1, w1)
        | Some p \<Rightarrow> do { (code1, t2, w2) \<leftarrow> run_steps (?steps p) (MCL_OK, t1, w1);
            Some (code1, t2, finish_json_item (Some p) w2) })
    })"
    by (intro ext) (simp add: add_item_meta_payload_def json_util_start_object_def
        json_util_finish_object_def cong: option.case_cong)
  let ?c = "object_of ([(''type'', json_string type), (''version'', json_string version)] @ with_details ms)"
  have f: "plain (\<lambda>t w. run_steps (?steps ?p) (MCL_OK, t, w)) ?t0 (add_member ''payload'' ?c t)"
    using all unfolding plain_steps_def u assms(7) .
  show ?thesis unfolding e assms(7)
    by (rule plain_started [OF _ assms(6) f]) (simp_all add: object_of_def)
qed

lemma item_meta_plain:
  assumes "m = meta_for ty v r d" "says ty type" "is_text v" "length v + 1 < 2 ^ 64"
    and "\<forall>s. r = Some s \<longrightarrow> is_text s \<and> length s + 1 < 2 ^ 64" "makes_details m ms"
  shows "plain_steps [if_ok (\<lambda>t. add_string_field_to_object t [] (meta_field_name META_FIELD_TYPE) (meta_type m) True),
           if_ok (\<lambda>t. add_string_field_to_object t [] (meta_field_name META_FIELD_VERSION) (meta_version m) True),
           if_ok (add_item_meta_details m),
           if_ok (add_item_meta_payload m)] (new_item cJSON_Object) (meta_tree type v r ms)"
proof -
  let ?t1 = "add_member ''type'' (json_string ''item'') (new_item cJSON_Object)"
  let ?t2 = "add_member ''version'' (json_string ''1.0'') ?t1"
  let ?t3 = "set_children (cjson_child ?t2 @ map (\<lambda>(n, c). set_name (Some n) c) (with_routing r)) ?t2"
  have m: "meta_type m = Some (string_constant ''item'')" "meta_version m = Some (string_constant ''1.0'')"
    "meta_routing m = map_option handle_of r" "meta_payload_type m = Some ty" "meta_payload_version m = Some (handle_of v)"
    by (simp_all add: assms(1) meta_for_def)
  have 1: "plain (\<lambda>t. add_string_field_to_object t [] ''type'' (meta_type m) True) (new_item cJSON_Object) ?t1"
    unfolding m by (rule plain_add_field [OF says_constant]) (simp_all add: is_text_def)
  have 2: "plain (\<lambda>t. add_string_field_to_object t [] ''version'' (meta_version m) True) ?t1 ?t2"
    unfolding m by (rule plain_add_field [OF says_constant]) (simp_all add: is_text_def)
  have 3: "plain (add_item_meta_details m) ?t2 ?t3"
    by (rule item_meta_details_plain [OF m(3) assms(5) _ refl]) simp
  have 4: "plain (add_item_meta_payload m) ?t3 (meta_tree type v r ms)"
    by (rule item_meta_payload_plain [OF m(4) assms(2) m(5) says_handle_of [OF assms(3,4)] assms(6)])
      (auto simp: with_routing_def meta_tree_def object_of_def add_member_def new_item_def split: option.split)
  show ?thesis using plain_steps_Cons [OF 1 plain_steps_Cons [OF 2 plain_steps_Cons [OF 3 plain_steps_Cons [OF 4 plain_steps_Nil [OF refl]]]]]
    by simp
qed

text \<open>Which details there are.\<close>

lemma has_payload_type_says:
  "says ty type \<Longrightarrow> meta_payload_type m = Some ty \<Longrightarrow>
    has_payload_type i m = Some (type = meta_field_value i)"
  using string_compare_correct [of "string_constant (meta_field_value i)" "meta_field_value i" ty type]
  by (cases i) (auto simp: has_payload_type_def says_constant is_text_def)

lemma details_of_configuration:
  assumes "is_text c" "length c + 1 < 2 ^ 64" "c \<noteq> []"
  shows "plain_steps [if_ok (\<lambda>t. add_string_field_to_object t [] ''configurationId'' (Some (handle_of c)) True)]
    (new_item cJSON_Object) (object_of [(''configurationId'', json_string c)])"
proof -
  have "plain (\<lambda>t. add_string_field_to_object t [] ''configurationId'' (Some (handle_of c)) True)
      (new_item cJSON_Object) (add_member ''configurationId'' (json_string c) (new_item cJSON_Object))"
    by (rule plain_add_field [OF says_handle_of [OF assms(1,2)] assms(3)]) simp_all
  moreover have "add_member ''configurationId'' (json_string c) (new_item cJSON_Object)
      = object_of [(''configurationId'', json_string c)]"
    by (simp add: add_member_def object_of_def new_item_def)
  ultimately show ?thesis using plain_steps_Cons [OF _ plain_steps_Nil [OF refl]] by simp
qed

lemma time_series_details:
  assumes "m = time_series_meta (time_series_of v c r)" "is_text c" "length c + 1 < 2 ^ 64" "c \<noteq> []"
  shows "makes_details m [(''configurationId'', json_string c)]"
  unfolding makes_details_def
proof (intro allI impI)
  fix w :: world assume "upcoming w = []"
  let ?o = "object_of [(''configurationId'', json_string c)]"
  have type: "has_payload_type META_FIELD_PAYLOAD_TYPE_TIME_SERIES m = Some True"
    using has_payload_type_says [OF says_constant, of "''standardTimeSeries''" m META_FIELD_PAYLOAD_TYPE_TIME_SERIES]
    by (simp add: assms(1) time_series_of_def meta_for_def is_text_def)
  have d: "read_time_series_details (meta_details m) = Some (Some (handle_of c))"
    by (simp add: assms(1) time_series_of_def meta_for_def read_time_series_details_def)
  obtain w1 where 1: "json_util_initialize JSON_OBJECT w = (MCL_OK, Some (new_item cJSON_Object), w1)"
      "calm w 2 w1" "upcoming w1 = []"
    using initialize_calm [of w JSON_OBJECT cJSON_Object] \<open>upcoming w = []\<close> by blast
  obtain w2 where 2: "run_steps [if_ok (\<lambda>t. add_string_field_to_object t [] ''configurationId'' (Some (handle_of c)) True)]
      (MCL_OK, new_item cJSON_Object, w1) = Some (MCL_OK, ?o, w2)"
      "calm w1 (item_blocks ?o - item_blocks (new_item cJSON_Object)) w2"
    using details_of_configuration [OF assms(2-4)] 1(3) unfolding plain_steps_def by (rule plainE)
  have "calm w (1 + item_blocks ?o) w2" by (rule calm_live [OF calm_trans [OF 1(2) 2(2)]]) simp
  then show "\<exists>w1. make_payload_details m w = Some (MCL_OK, if [(''configurationId'', json_string c)] = [] then None
        else Some ?o, w1)
      \<and> calm w (if [(''configurationId'', json_string c)] = [] then 0 else 1 + item_blocks ?o) w1"
    using 1 2 type d by (simp add: make_payload_details_def payload_details_fields_def)
qed

lemma json_from_item_meta_plain:
  assumes "m = meta_for ty v r d" "says ty type" "is_text v" "length v + 1 < 2 ^ 64"
    and "\<forall>s. r = Some s \<longrightarrow> is_text s \<and> length s + 1 < 2 ^ 64" "makes_details m ms"
    and "upcoming w = []" "t = meta_tree type v r ms" "clean t" "length (text_of other t) < 2 ^ 64"
  shows "\<exists>w1. json_from_item_meta other m w = Some (MCL_OK, Some (json_handle (text_of other t)), w1)
    \<and> calm w 2 w1"
proof -
  obtain w1 where 1: "json_util_initialize JSON_OBJECT w = (MCL_OK, Some (new_item cJSON_Object), w1)"
      "calm w 2 w1" "upcoming w1 = []"
    using initialize_calm [of w JSON_OBJECT cJSON_Object] assms(7) by blast
  obtain w2 where 2: "run_steps [if_ok (\<lambda>t. add_string_field_to_object t [] (meta_field_name META_FIELD_TYPE) (meta_type m) True),
           if_ok (\<lambda>t. add_string_field_to_object t [] (meta_field_name META_FIELD_VERSION) (meta_version m) True),
           if_ok (add_item_meta_details m),
           if_ok (add_item_meta_payload m)] (MCL_OK, new_item cJSON_Object, w1) = Some (MCL_OK, t, w2)"
      "calm w1 (item_blocks t - item_blocks (new_item cJSON_Object)) w2" "upcoming w2 = []"
    using item_meta_plain [OF assms(1-6)] 1(3) unfolding plain_steps_def assms(8) by (rule plainE)
  obtain w3 where 3: "finish_json other (MCL_OK, t, w2) = Some (MCL_OK, Some (json_handle (text_of other t)), w3)"
      "calm w2 (1 - item_blocks t) w3"
    using finish_json_plain [OF 2(3) is_text_text_of [OF assms(9)] assms(10)] by blast
  have "calm w 2 w3" using 1(2) 2(2) 3(2) by (simp add: calm_def)
  then show ?thesis using 1 2 3 by (simp add: json_from_item_meta_def)
qed

lemma time_series_meta_runs:
  assumes "is_text v" "is_text c" "c \<noteq> []" "\<forall>s. r = Some s \<longrightarrow> is_text s \<and> length s + 1 < 2 ^ 64"
    and "length v + 1 < 2 ^ 64" "length c + 1 < 2 ^ 64" "upcoming w = []"
    and "t = meta_tree ''standardTimeSeries'' v r [(''configurationId'', json_string c)]"
    and "length (text_of other t) < 2 ^ 64"
  shows "is_text (text_of other t)"
    and "\<exists>w1. json_from_item_meta other (time_series_meta (time_series_of v c r)) w
      = Some (MCL_OK, Some (json_handle (text_of other t)), w1) \<and> calm w 2 w1"
proof -
  have c: "clean t"
    using assms(1,2,4) by (auto simp: assms(8) meta_tree_def object_of_def with_details_def with_routing_def
        json_string_def is_text_def split: option.split)
  have m: "time_series_meta (time_series_of v c r) = meta_for (string_constant ''standardTimeSeries'') v r
      (Time_Series_Details (Some (handle_of c)))"
    by (simp add: time_series_of_def)
  have s: "says (string_constant ''standardTimeSeries'') ''standardTimeSeries''"
    by (rule says_constant) (simp_all add: is_text_def)
  show "is_text (text_of other t)" by (rule is_text_text_of [OF c])
  show "\<exists>w1. json_from_item_meta other (time_series_meta (time_series_of v c r)) w
      = Some (MCL_OK, Some (json_handle (text_of other t)), w1) \<and> calm w 2 w1"
    using json_from_item_meta_plain [OF m s assms(1,5,4) time_series_details [OF refl assms(2,6,3)] assms(7,8) c assms(9)] .
qed

text \<open>The meta data of a time series are sent as the JSON object with its type, version, routing where
  there is one, and the type, version and configuration of its payload.\<close>

theorem json_from_item_meta_correct:
  assumes "is_text v" "is_text c" "c \<noteq> []" "\<forall>s. r = Some s \<longrightarrow> is_text s \<and> length s + 1 < 2 ^ 64"
    and "length v + 1 < 2 ^ 64" "length c + 1 < 2 ^ 64" "upcoming w = []"
    and "t = meta_tree ''standardTimeSeries'' v r [(''configurationId'', json_string c)]"
    and "length (text_of other t) < 2 ^ 64"
  shows "\<exists>s w1. json_from_item_meta other (time_series_meta (time_series_of v c r)) w = Some (MCL_OK, Some s, w1)
    \<and> string_buffer s = Some (cstring (text_of other t)) \<and> live w1 = live w + 2"
  using time_series_meta_runs(2) [OF assms] by (auto simp: json_handle_def handle_of_def cstring_def calm_def)

lemma json_from_item_meta_correct_witness:
  "\<exists>s w1. json_from_item_meta (\<lambda>_. []) (time_series_meta (time_series_of ''1.0'' ''abc'' None)) quiet_world = Some (MCL_OK, Some s, w1)
    \<and> string_buffer s = Some (cstring (text_of (\<lambda>_. [])
        (meta_tree ''standardTimeSeries'' ''1.0'' None [(''configurationId'', json_string ''abc'')])))
    \<and> live w1 = live quiet_world + 2"
  by (rule json_from_item_meta_correct [OF _ _ _ _ _ _ _ refl])
    (simp_all add: is_text_def quiet_world_def meta_tree_def with_routing_def with_details_def object_of_def json_string_def
      quoted_def escape_char_def Let_def)

text \<open>Custom data whose type is called as a time series are read as one: the details of a custom item
  are taken for a string.\<close>

theorem json_from_item_meta_confuses_types:
  assumes "is_text v" "length v + 1 < 2 ^ 64"
  shows "make_payload_details (custom_meta (custom_data_of v ''standardTimeSeries'' None)) w = None"
proof -
  have "says (handle_of ''standardTimeSeries'') ''standardTimeSeries''"
    by (rule says_handle_of) (simp_all add: is_text_def)
  then show ?thesis
    using has_payload_type_says [of "handle_of ''standardTimeSeries''" "''standardTimeSeries''"
        "custom_meta (custom_data_of v ''standardTimeSeries'' None)" META_FIELD_PAYLOAD_TYPE_TIME_SERIES]
    by (simp add: make_payload_details_def custom_data_of_def meta_for_def read_time_series_details_def)
qed

lemma json_from_item_meta_confuses_types_witness:
  "is_text ''1.0'' \<and> make_payload_details (custom_meta (custom_data_of ''1.0'' ''standardTimeSeries'' None)) quiet_world = None"
  using json_from_item_meta_confuses_types [of "''1.0''" quiet_world] by (simp add: is_text_def)

end
