(* ===== verification/MCL_Store.thy ===== *)
theory MCL_Store
  imports MCL_Json
begin

text \<open>
  \<^verbatim>\<open>store.c\<close>: the store, two lists of items of all kinds.  The nodes of the lists live in the heap of
  nodes, each with its item, because the processing of a store walks over the nodes, changes
  the items in place and unlinks nodes while it walks.  The caller's handle of an item is the address
  of its node.
\<close>

section \<open>Data\<close>

datatype E_STORE_DATA_TYPE =
    STORE_DATA_TIME_SERIES | STORE_DATA_EVENT_LIST | STORE_DATA_FILE | STORE_DATA_CUSTOM
  | STORE_DATA_STREAM | STORE_DATA_DATA_SOURCE_CONFIGURATION

datatype E_STORE_DATA_STATE =
    DATA_STATE_INITIAL | DATA_STATE_PREPARED | DATA_STATE_WRITTEN | DATA_STATE_STREAMING | DATA_STATE_SENT

text \<open>\<^verbatim>\<open>void *data\<close> with its type.\<close>

datatype store_item =
    Time_Series time_series_t
  | Event_List event_list_t
  | File file_t
  | Custom custom_data_t
  | Stream stream_data_t
  | Data_Source_Configuration data_source_configuration_t

fun item_type :: "store_item \<Rightarrow> E_STORE_DATA_TYPE" where
  "item_type (Time_Series t) = STORE_DATA_TIME_SERIES"
| "item_type (Event_List l) = STORE_DATA_EVENT_LIST"
| "item_type (File f) = STORE_DATA_FILE"
| "item_type (Custom c) = STORE_DATA_CUSTOM"
| "item_type (Stream s) = STORE_DATA_STREAM"
| "item_type (Data_Source_Configuration c) = STORE_DATA_DATA_SOURCE_CONFIGURATION"

text \<open>How far an item has been streamed.\<close>

record store_data_stream_info_t =
  meta_stream_index :: mcl_size_t
  payload_stream_index :: mcl_size_t
  tuple_subboundary :: "string_t option"
  meta_state :: int
  payload_state :: int

record store_data_t =
  store_item :: store_item
  store_state :: E_STORE_DATA_STATE
  store_meta :: "string_t option"
  store_payload_buffer :: "char list option"
  store_payload_size :: mcl_size_t
  store_stream_info :: "store_data_stream_info_t option"

record store_t =
  store_streamable :: bool
  store_high :: "list_t option"
  store_low :: "list_t option"

type_synonym store_heap = "store_data_t list_heap"

definition sizeof_store :: mcl_size_t where "sizeof_store = 24"
definition sizeof_store_data :: mcl_size_t where "sizeof_store_data = 48"
definition sizeof_stream_info :: mcl_size_t where "sizeof_stream_info = 32"

definition store_data_set_state :: "E_STORE_DATA_STATE \<Rightarrow> store_data_t \<Rightarrow> store_data_t" where
  "store_data_set_state s d = d\<lparr>store_state := s\<rparr>"

definition store_data_get_state :: "store_data_t \<Rightarrow> E_STORE_DATA_STATE" where
  "store_data_get_state d = store_state d"

section \<open>Releasing\<close>

definition destroy_item :: "store_item \<Rightarrow> world \<Rightarrow> world" where
  "destroy_item i w = (case i of
      Time_Series t \<Rightarrow> time_series_destroy (Some t) w
    | Event_List l \<Rightarrow> event_list_destroy (Some l) w
    | File f \<Rightarrow> file_destroy (Some f) w
    | Custom c \<Rightarrow> custom_data_destroy (Some c) w
    | Stream s \<Rightarrow> stream_data_destroy s w
    | Data_Source_Configuration c \<Rightarrow> data_source_configuration_destroy (Some c) w)"

text \<open>The payload of a file, of custom data or of a stream is not the store's.\<close>

definition owns_payload :: "store_data_t \<Rightarrow> bool" where
  "owns_payload d \<longleftrightarrow> store_payload_buffer d \<noteq> None
    \<and> item_type (store_item d) \<notin> {STORE_DATA_FILE, STORE_DATA_CUSTOM, STORE_DATA_STREAM}"

definition store_list_destroy_callback :: "store_data_t \<Rightarrow> world \<Rightarrow> world" where
  "store_list_destroy_callback d w =
    (let w1 = snd (string_destroy (store_meta d) w);
         w2 = (if owns_payload d then memory_free w1 else w1);
         w3 = destroy_item (store_item d) w2;
         w4 = (case store_stream_info d of None \<Rightarrow> w3
           | Some i \<Rightarrow> memory_free (snd (string_destroy (tuple_subboundary i) w3)))
     in memory_free w4)"

definition mcl_store_destroy ::
    "store_t option \<Rightarrow> store_heap \<Rightarrow> world \<Rightarrow> (E_MCL_ERROR_CODE \<times> store_t option \<times> store_heap \<times> world) option" where
  "mcl_store_destroy store h w = (case store of
      None \<Rightarrow> Some (MCL_OK, None, h, w)
    | Some s \<Rightarrow> do {
        (l, h1, w1) \<leftarrow> list_destroy_with_content (store_high s) (Some store_list_destroy_callback) h w;
        (l2, h2, w2) \<leftarrow> list_destroy_with_content (store_low s) (Some store_list_destroy_callback) h1 w1;
        Some (MCL_OK, None, h2, memory_free w2)
      })"

definition store_data_remove ::
    "list_t \<Rightarrow> addr \<Rightarrow> store_heap \<Rightarrow> world \<Rightarrow> (E_MCL_ERROR_CODE \<times> list_t \<times> store_heap \<times> world) option" where
  "store_data_remove store_list store_data_node h w =
    list_remove_with_content store_list store_data_node store_list_destroy_callback h w"

definition store_get_data_count :: "store_t \<Rightarrow> mcl_size_t option" where
  "store_get_data_count s = do { l \<leftarrow> store_high s; m \<leftarrow> store_low s; Some (list_count l + list_count m) }"

section \<open>Making a store and adding to it\<close>

text \<open>Streams are not supported by this build.\<close>

definition mcl_store_initialize ::
    "bool \<Rightarrow> bool \<Rightarrow> store_heap \<Rightarrow> world \<Rightarrow> (E_MCL_ERROR_CODE \<times> store_t option \<times> store_heap \<times> world) option" where
  "mcl_store_initialize streamable given h w =
    (if \<not> given then Some (MCL_TRIGGERED_WITH_NULL, None, h, w)
     else if streamable then Some (MCL_OPERATION_IS_NOT_SUPPORTED, None, h, w)
     else case memory_allocate sizeof_store w of
        (None, w1) \<Rightarrow> Some (MCL_OUT_OF_MEMORY, None, h, w1)
      | (Some a, w1) \<Rightarrow>
          (case list_initialize w1 of
            (code, None, w2) \<Rightarrow> None
          | (code, Some high, w2) \<Rightarrow>
              (case list_initialize w2 of
                (code1, None, w3) \<Rightarrow> do {
                  (c, s, h1, w4) \<leftarrow> mcl_store_destroy (Some \<lparr>store_streamable = streamable, store_high = Some high, store_low = None\<rparr>) h w3;
                  Some (MCL_FAIL, s, h1, w4)
                }
              | (code1, Some low, w3) \<Rightarrow>
                  Some (MCL_OK, Some \<lparr>store_streamable = streamable, store_high = Some high, store_low = Some low\<rparr>, h, w3))))"

datatype E_STORE_DATA_PRIORITY = PRIORITY_HIGH | PRIORITY_LOW

definition new_store_data :: "store_item \<Rightarrow> store_data_t" where
  "new_store_data i = \<lparr>store_item = i, store_state = DATA_STATE_INITIAL, store_meta = None,
    store_payload_buffer = None, store_payload_size = 0, store_stream_info = None\<rparr>"

text \<open>The address of the new node is the handle.\<close>

definition store_add_data ::
    "store_t \<Rightarrow> store_item \<Rightarrow> E_STORE_DATA_PRIORITY \<Rightarrow> store_heap \<Rightarrow> world
      \<Rightarrow> (E_MCL_ERROR_CODE \<times> addr option \<times> store_t \<times> store_heap \<times> world) option" where
  "store_add_data s i priority h w =
    (case memory_allocate sizeof_store_data w of
      (None, w1) \<Rightarrow> Some (MCL_OUT_OF_MEMORY, None, s, h, w1)
    | (Some a, w1) \<Rightarrow> do {
        l \<leftarrow> (if priority = PRIORITY_HIGH then store_high s else store_low s);
        (code, l1, h1, w2) \<leftarrow> list_add l (Some (new_store_data i)) h w1;
        let s1 = (if priority = PRIORITY_HIGH then s\<lparr>store_high := Some l1\<rparr> else s\<lparr>store_low := Some l1\<rparr>);
        if code \<noteq> MCL_OK then Some (code, None, s1, h1, memory_free w2)
        else Some (MCL_OK, list_last l1, s1, h1, w2)
      })"

definition is_positive_integer :: "char list \<Rightarrow> mcl_size_t \<Rightarrow> mcl_size_t \<Rightarrow> bool option" where
  "is_positive_integer version start_index end_index =
    fold (\<lambda>i status. do { ok \<leftarrow> status; c \<leftarrow> read_at version i; Some (ok \<and> is_digit c) })
      [unat start_index..<unat end_index] (Some True)"

definition is_valid_version :: "char list \<Rightarrow> bool option" where
  "is_valid_version version = do {
    version_length \<leftarrow> string_util_strlen version;
    found \<leftarrow> string_util_find version (cstring ''.'');
    (case found of
      None \<Rightarrow> Some False
    | Some i \<Rightarrow>
        (let dot_index = size_of_nat i in
         if \<not> (dot_index > 0 \<and> dot_index < version_length - 1) then Some False
         else do {
           major \<leftarrow> is_positive_integer version 0 dot_index;
           if \<not> major then Some False
           else is_positive_integer version (dot_index + 1) version_length
         }))
  }"

text \<open>An item that has been made is added to the list of high priority, or destroyed.\<close>

type_synonym new_result = "(E_MCL_ERROR_CODE \<times> addr option \<times> store_t option \<times> store_heap \<times> world) option"

definition add_new_item ::
    "store_t \<Rightarrow> store_heap \<Rightarrow> ('a \<Rightarrow> store_item) \<Rightarrow> (E_MCL_ERROR_CODE \<times> 'a option \<times> world) option \<Rightarrow> new_result" where
  "add_new_item s h wrap result0 = do {
    (code, x, w1) \<leftarrow> result0;
    if code \<noteq> MCL_OK then Some (code, None, Some s, h, w1)
    else do {
      y \<leftarrow> x;
      (code1, node, s1, h1, w2) \<leftarrow> store_add_data s (wrap y) PRIORITY_HIGH h w1;
      if code1 \<noteq> MCL_OK then Some (code1, None, Some s1, h1, destroy_item (wrap y) w2)
      else Some (MCL_OK, node, Some s1, h1, w2)
    }
  }"

definition mcl_store_new_time_series ::
    "store_t option \<Rightarrow> char list option \<Rightarrow> char list option \<Rightarrow> char list option \<Rightarrow> bool \<Rightarrow> store_heap \<Rightarrow> world \<Rightarrow> new_result" where
  "mcl_store_new_time_series store version configuration routing given h w =
    (case (store, version, configuration) of
      (Some s, Some v, Some c) \<Rightarrow>
        if \<not> given then Some (MCL_TRIGGERED_WITH_NULL, None, store, h, w)
        else do {
          valid \<leftarrow> is_valid_version v;
          if \<not> valid then Some (MCL_INVALID_PARAMETER, None, store, h, w)
          else add_new_item s h Time_Series (time_series_initialize v c routing w)
        }
    | _ \<Rightarrow> Some (MCL_TRIGGERED_WITH_NULL, None, store, h, w))"

definition mcl_store_new_file ::
    "disk \<Rightarrow> store_t option \<Rightarrow> char list option \<Rightarrow> char list option \<Rightarrow> char list option \<Rightarrow> char list option
      \<Rightarrow> char list option \<Rightarrow> bool \<Rightarrow> store_heap \<Rightarrow> world \<Rightarrow> new_result" where
  "mcl_store_new_file d store version file_path file_name file_type routing given h w =
    (case (store, version, file_path, file_name) of
      (Some s, Some v, Some path, Some name) \<Rightarrow>
        if \<not> given then Some (MCL_TRIGGERED_WITH_NULL, None, store, h, w)
        else do {
          valid \<leftarrow> is_valid_version v;
          if \<not> valid then Some (MCL_INVALID_PARAMETER, None, store, h, w)
          else add_new_item s h File (file_initialize d v (Some path) name file_type routing w)
        }
    | _ \<Rightarrow> Some (MCL_TRIGGERED_WITH_NULL, None, store, h, w))"

text \<open>The version of custom data is not checked.\<close>

definition mcl_store_new_custom_data ::
    "store_t option \<Rightarrow> char list option \<Rightarrow> char list option \<Rightarrow> char list option \<Rightarrow> bool \<Rightarrow> store_heap \<Rightarrow> world \<Rightarrow> new_result" where
  "mcl_store_new_custom_data store version type routing given h w =
    (case (store, version, type) of
      (Some s, Some v, Some t) \<Rightarrow>
        if \<not> given then Some (MCL_TRIGGERED_WITH_NULL, None, store, h, w)
        else add_new_item s h Custom (custom_data_initialize v t routing w)
    | _ \<Rightarrow> Some (MCL_TRIGGERED_WITH_NULL, None, store, h, w))"

definition mcl_store_new_stream_data ::
    "store_t option \<Rightarrow> char list option \<Rightarrow> char list option \<Rightarrow> char list option \<Rightarrow> bool \<Rightarrow> bool \<Rightarrow> store_heap \<Rightarrow> world \<Rightarrow> new_result" where
  "mcl_store_new_stream_data store version type routing callback_given given h w =
    (case store of None \<Rightarrow> Some (MCL_TRIGGERED_WITH_NULL, None, store, h, w)
    | Some s \<Rightarrow>
        if \<not> store_streamable s then Some (MCL_INVALID_PARAMETER, None, store, h, w)
        else (case (version, type) of
          (Some v, Some t) \<Rightarrow>
            if \<not> given \<or> \<not> callback_given then Some (MCL_TRIGGERED_WITH_NULL, None, store, h, w)
            else do {
              valid \<leftarrow> is_valid_version v;
              if \<not> valid then Some (MCL_INVALID_PARAMETER, None, store, h, w)
              else add_new_item s h Stream (stream_data_initialize v t routing w)
            }
        | _ \<Rightarrow> Some (MCL_TRIGGERED_WITH_NULL, None, store, h, w)))"

definition mcl_store_new_data_source_configuration ::
    "random_source \<Rightarrow> store_t option \<Rightarrow> char list option \<Rightarrow> bool \<Rightarrow> store_heap \<Rightarrow> world \<Rightarrow> new_result" where
  "mcl_store_new_data_source_configuration rand store version given h w =
    (case (store, version) of
      (Some s, Some v) \<Rightarrow>
        if \<not> given then Some (MCL_TRIGGERED_WITH_NULL, None, store, h, w)
        else do {
          valid \<leftarrow> is_valid_version v;
          if \<not> valid then Some (MCL_INVALID_PARAMETER, None, store, h, w)
          else add_new_item s h Data_Source_Configuration (data_source_configuration_initialize rand v w)
        }
    | _ \<Rightarrow> Some (MCL_TRIGGERED_WITH_NULL, None, store, h, w))"

section \<open>Events\<close>

definition event_versions :: "string list" where "event_versions = [''1.0'', ''2.0'']"
definition event_severity_values :: "32 word list list" where "event_severity_values = [[1, 2, 3], [20, 30, 40]]"

definition event_version_index :: "char list \<Rightarrow> nat option option" where
  "event_version_index version = do {
    c0 \<leftarrow> string_compare_with_cstr False (Some (string_constant (event_versions ! 0))) (Some version);
    if c0 = MCL_OK then Some (Some 0)
    else do {
      c1 \<leftarrow> string_compare_with_cstr False (Some (string_constant (event_versions ! 1))) (Some version);
      Some (if c1 = MCL_OK then Some 1 else None)
    }
  }"

text \<open>Whether an item of the store is the list of events of the version.\<close>

definition compare_item_meta_of_event :: "store_data_t \<Rightarrow> char list \<Rightarrow> E_MCL_ERROR_CODE option" where
  "compare_item_meta_of_event d version =
    (case store_item d of
      Event_List l \<Rightarrow> do {
        c1 \<leftarrow> string_compare_with_cstr False (meta_payload_type (event_list_meta l))
          (Some (cstring (meta_field_value META_FIELD_PAYLOAD_TYPE_BUSINESS_EVENT)));
        if c1 = MCL_OK
        then string_compare_with_cstr False (meta_payload_version (event_list_meta l)) (Some version)
        else Some MCL_FAIL
      }
    | _ \<Rightarrow> Some MCL_FAIL)"

text \<open>The search of \<^verbatim>\<open>list_exist\<close> with this comparison, which gives the node because the list found is
  changed in place.\<close>

partial_function (option) find_event_list :: "char list \<Rightarrow> store_heap \<Rightarrow> addr option \<Rightarrow> addr option option" where
  "find_event_list version h current_node =
    (case current_node of
      None \<Rightarrow> Some None
    | Some a \<Rightarrow> do {
        n \<leftarrow> h a;
        d \<leftarrow> node_data n;
        code \<leftarrow> compare_item_meta_of_event d version;
        if code = MCL_OK then Some (Some a) else find_event_list version h (node_next n)
      })"

definition change_item :: "addr \<Rightarrow> (store_data_t \<Rightarrow> store_data_t) \<Rightarrow> store_heap \<Rightarrow> store_heap option" where
  "change_item a f h = do {
    n \<leftarrow> h a;
    d \<leftarrow> node_data n;
    Some (h(a \<mapsto> n\<lparr>node_data := Some (f d)\<rparr>))
  }"

definition mcl_store_new_event ::
    "random_source \<Rightarrow> store_t option \<Rightarrow> char list option \<Rightarrow> char list option \<Rightarrow> char list option \<Rightarrow> int
      \<Rightarrow> char list option \<Rightarrow> bool \<Rightarrow> store_heap \<Rightarrow> world \<Rightarrow> new_result" where
  "mcl_store_new_event rand store version type type_version severity timestamp given h w =
    (case (store, version, type, type_version, timestamp) of
      (Some s, Some v, Some t, Some tv, Some stamp) \<Rightarrow>
        if \<not> given then Some (MCL_TRIGGERED_WITH_NULL, None, store, h, w)
        else if \<not> (0 \<le> severity \<and> severity < 3) then Some (MCL_INVALID_PARAMETER, None, store, h, w)
        else do {
          index \<leftarrow> event_version_index v;
          (case index of None \<Rightarrow> Some (MCL_INVALID_PARAMETER, None, store, h, w)
          | Some i \<Rightarrow> do {
              valid \<leftarrow> time_util_validate_timestamp stamp;
              if \<not> valid then Some (MCL_INVALID_PARAMETER, None, store, h, w)
              else do {
                high \<leftarrow> store_high s;
                found \<leftarrow> find_event_list v h (list_head high);
                (code, node, s1, h1, w1) \<leftarrow>
                  (case found of
                    Some a \<Rightarrow> Some (MCL_OK, Some a, Some s, h, w)
                  | None \<Rightarrow> add_new_item s h Event_List (event_list_initialize v w));
                if code \<noteq> MCL_OK then Some (code, None, s1, h1, w1)
                else do {
                  a \<leftarrow> node;
                  (code1, event, w2) \<leftarrow> event_initialize rand t tv (event_severity_values ! i ! nat severity) stamp w1;
                  if code1 \<noteq> MCL_OK then Some (code1, None, s1, h1, w2)
                  else do {
                    e \<leftarrow> event;
                    n \<leftarrow> h1 a;
                    d \<leftarrow> node_data n;
                    l \<leftarrow> (case store_item d of Event_List l \<Rightarrow> Some l | _ \<Rightarrow> None);
                    (code2, l1, w3) \<leftarrow> event_list_add_event e l w2;
                    h2 \<leftarrow> change_item a (\<lambda>d. d\<lparr>store_item := Event_List l1\<rparr>) h1;
                    if code2 \<noteq> MCL_OK then Some (code2, None, s1, h2, event_destroy (Some e) w3)
                    else Some (MCL_OK, Some a, s1, h2, w3)
                  }
                }
              }
            })
        }
    | _ \<Rightarrow> Some (MCL_TRIGGERED_WITH_NULL, None, store, h, w))"
section \<open>Versions\<close>

lemma find_loop_dot:
  "find_loop (=) (CHR ''.'' # rest) 1 s i 0 =
    Some (if CHR ''.'' \<in> set s then Some (i + length (takeWhile (\<lambda>c. c \<noteq> CHR ''.'') s)) else None)"
  by (induction s arbitrary: i) auto

lemma string_util_find_dot:
  "is_text s \<Longrightarrow> string_util_find (s @ NUL # rest) (cstring ''.'') =
    Some (if CHR ''.'' \<in> set s then Some (length (takeWhile (\<lambda>c. c \<noteq> CHR ''.'') s)) else None)"
  using find_loop_dot [of "[NUL]" s 0] chars_of_text [of "''.''" "[]"] chars_of_text [of s rest]
  by (auto simp: string_util_find_def find_with_def cstring_def is_text_def)

lemma digits_fold:
  "start + length ds \<le> length v \<Longrightarrow> take (length ds) (drop start v) = ds \<Longrightarrow>
    fold (\<lambda>i status. do { ok \<leftarrow> status; c \<leftarrow> read_at v i; Some (ok \<and> is_digit c) })
      [start..<start + length ds] (Some b) = Some (b \<and> list_all is_digit ds)"
proof (induction ds arbitrary: start b)
  case (Cons d ds)
  have at: "start < length v" "v ! start = d" "take (length ds) (drop (Suc start) v) = ds"
    using Cons.prems by (auto simp: Cons_nth_drop_Suc [symmetric] drop_Suc)
  have "[start..<start + length (d # ds)] = start # [Suc start..<Suc start + length ds]"
    by (subst upt_conv_Cons) simp_all
  then show ?case
    using Cons.IH [of "Suc start" "b \<and> is_digit d"] at Cons.prems by (simp add: read_at_in conj_assoc)
qed simp

lemma is_positive_integer_digits:
  assumes "v = us @ ds @ vs" "length us + length ds < 2 ^ 64"
  shows "is_positive_integer v (size_of_nat (length us)) (size_of_nat (length us + length ds)) = Some (list_all is_digit ds)"
proof -
  have "unat (size_of_nat (length us)) = length us" "unat (size_of_nat (length us + length ds)) = length us + length ds"
    by (rule unat_size_of_nat, use assms in simp)+
  then show ?thesis
    using digits_fold [of "length us" ds v True] assms by (simp add: is_positive_integer_def)
qed

definition version_ok :: "string \<Rightarrow> bool" where
  "version_ok v \<longleftrightarrow> (\<exists>major minor. v = major @ ''.'' @ minor
    \<and> major \<noteq> [] \<and> minor \<noteq> [] \<and> list_all is_digit major \<and> list_all is_digit minor)"

lemma is_valid_version_text:
  assumes "is_text v" "length v + 1 < 2 ^ 64"
  shows "is_valid_version (v @ NUL # rest) = Some (version_ok v)"
proof (cases "CHR ''.'' \<in> set v")
  case False
  then show ?thesis
    using string_util_strlen_text [OF assms(1), of rest]
    by (auto simp: is_valid_version_def string_util_find_dot [OF assms(1)] version_ok_def)
next
  case True
  obtain a b where v: "v = a @ CHR ''.'' # b" and first: "CHR ''.'' \<notin> set a"
    using split_list_first [OF True] by blast
  have no_dot: "\<not> is_digit CHR ''.''" by (simp add: is_digit_def)
  have tw: "takeWhile (\<lambda>c. c \<noteq> CHR ''.'') (us @ CHR ''.'' # vs) = us" if "CHR ''.'' \<notin> set us" for us vs
    using that by (subst takeWhile_append2) auto
  have unique: "major = a \<and> minor = b" if "v = major @ ''.'' @ minor" "list_all is_digit major" for major minor
  proof -
    have "CHR ''.'' \<notin> set major" using that(2) no_dot by (auto simp: list_all_iff)
    then have "major = a" using tw [of major minor] tw [OF first, of b] that(1) v by simp
    then show ?thesis using v that(1) by simp
  qed
  have len: "length v = length a + 1 + length b" by (simp add: v)
  have at: "unat (size_of_nat (length a)) = length a" "unat (size_of_nat (length v)) = length v"
    by (rule unat_size_of_nat, use assms(2) len in simp)+
  have pos: "0 < size_of_nat (length a) \<longleftrightarrow> a \<noteq> []" using at by (simp add: size_less_iff)
  have "unat (size_of_nat (length v) - 1) = length v - 1"
    using at(2) len by (subst unat_diff_le) (simp_all add: size_le_iff)
  then have room: "size_of_nat (length a) < size_of_nat (length v) - 1 \<longleftrightarrow> b \<noteq> []"
    using at len by (auto simp: size_less_iff)
  have p1: "is_positive_integer (v @ NUL # rest) 0 (size_of_nat (length a)) = Some (list_all is_digit a)"
    using is_positive_integer_digits [of "v @ NUL # rest" "[]" a "CHR ''.'' # b @ NUL # rest"] assms(2)
    by (simp add: v)
  have p2: "is_positive_integer (v @ NUL # rest) (size_of_nat (length a) + 1) (size_of_nat (length v)) = Some (list_all is_digit b)"
    using is_positive_integer_digits [of "v @ NUL # rest" "a @ ''.''" b "NUL # rest"] assms(2)
    by (simp add: len v add.commute)
  have "is_valid_version (v @ NUL # rest) = Some (a \<noteq> [] \<and> b \<noteq> [] \<and> list_all is_digit a \<and> list_all is_digit b)"
    using string_util_strlen_text [OF assms(1), of rest] True pos room p1 p2 tw [OF first, of b]
    by (auto simp: is_valid_version_def string_util_find_dot [OF assms(1)] Let_def v [symmetric])
  also have "(a \<noteq> [] \<and> b \<noteq> [] \<and> list_all is_digit a \<and> list_all is_digit b) \<longleftrightarrow> version_ok v"
    using unique v unfolding version_ok_def by (metis append_Cons append_Nil)
  finally show ?thesis .
qed

text \<open>Exactly the versions of two numbers with one dot in between are accepted.\<close>

theorem is_valid_version_correct:
  assumes "is_text v" "length v + 1 < 2 ^ 64"
  shows "is_valid_version (cstring v) = Some (\<exists>major minor. v = major @ ''.'' @ minor
    \<and> major \<noteq> [] \<and> minor \<noteq> [] \<and> list_all is_digit major \<and> list_all is_digit minor)"
  using is_valid_version_text [OF assms, of "[]"] by (simp add: version_ok_def cstring_def)

lemma is_valid_version_correct_witness:
  "is_valid_version (cstring ''2.01'') = Some True \<and> is_valid_version (cstring ''1.2.3'') = Some False"
proof -
  have "\<exists>major minor. ''2.01'' = major @ ''.'' @ minor \<and> major \<noteq> [] \<and> minor \<noteq> []
      \<and> list_all is_digit major \<and> list_all is_digit minor"
    by (rule exI [of _ "''2''"], rule exI [of _ "''01''"]) (simp add: is_digit_def)
  then have "is_valid_version (cstring ''2.01'') = Some True"
    using is_valid_version_correct [of "''2.01''"] by (simp add: is_text_def)
  then show ?thesis by code_simp
qed
section \<open>Addresses are never handed out twice\<close>

text \<open>The calls that make an item may use addresses from the next one on, and only those.\<close>

definition goes_on :: "(world \<Rightarrow> ('c \<times> 'r \<times> world) option) \<Rightarrow> bool" where
  "goes_on f \<longleftrightarrow> (\<forall>w c r w'. f w = Some (c, r, w') \<longrightarrow> fresh w \<le> fresh w')"

definition step_goes_on :: "'s step \<Rightarrow> bool" where
  "step_goes_on f \<longleftrightarrow> (\<forall>c s. goes_on (\<lambda>w. f (c, s, w)))"

named_theorems goes_on_intros \<open>the calls that only use new addresses\<close>

lemma goes_onD: "goes_on f \<Longrightarrow> f w = Some (c, r, w') \<Longrightarrow> fresh w \<le> fresh w'"
  unfolding goes_on_def by blast

lemma goes_onI: "(\<And>w c r w'. f w = Some (c, r, w') \<Longrightarrow> fresh w \<le> fresh w') \<Longrightarrow> goes_on f"
  unfolding goes_on_def by blast

lemma fresh_memory_allocate: "memory_allocate n w = (p, w') \<Longrightarrow> fresh w \<le> fresh w'"
  by (cases p) (auto dest: allocation_dests)

lemma fresh_string_destroy [simp]: "fresh (snd (string_destroy s w)) = fresh w \<and> upcoming (snd (string_destroy s w)) = upcoming w"
  by (simp add: string_destroy_def string_release_def split: option.split)

lemma fresh_destroy_strings [simp]:
  "fresh (destroy_strings ss w) = fresh w \<and> upcoming (destroy_strings ss w) = upcoming w"
  by (induction ss arbitrary: w) (simp_all add: destroy_strings_def)

lemma supply_items_destroy:
  assumes "\<And>x w. fresh (f x w) = fresh w" "\<And>x w. upcoming (f x w) = upcoming w"
  shows "fresh (items_destroy f xs w) = fresh w" "upcoming (items_destroy f xs w) = upcoming w"
proof -
  have "fresh (fold (\<lambda>x w. memory_free (f x w)) ys w) = fresh w
      \<and> upcoming (fold (\<lambda>x w. memory_free (f x w)) ys w) = upcoming w" for ys
    by (induction ys arbitrary: w) (simp_all add: assms)
  then show "fresh (items_destroy f xs w) = fresh w" "upcoming (items_destroy f xs w) = upcoming w"
    by (simp_all add: items_destroy_def split: option.split)
qed

lemma fresh_cJSON_Delete [simp]: "fresh (cJSON_Delete c w) = fresh w \<and> upcoming (cJSON_Delete c w) = upcoming w"
proof (induction c arbitrary: w)
  case (Cjson t vs vi vd nm cs)
  have f: "fresh (free_text s w) = fresh w" for s w by (simp add: free_text_def)
  have "fresh (fold cJSON_Delete cs w) = fresh w \<and> upcoming (fold cJSON_Delete cs w) = upcoming w"
    using Cjson by (induction cs arbitrary: w) simp_all
  then show ?case by (simp add: f)
qed

lemma fresh_json_destroy [simp]: "fresh (json_util_destroy j w) = fresh w \<and> upcoming (json_util_destroy j w) = upcoming w"
  by (cases j) (simp_all add: json_util_destroy_def memory_free_def)

lemma fresh_time_series_destroy [simp]: "fresh (time_series_destroy t w) = fresh w \<and> upcoming (time_series_destroy t w) = upcoming w"
  by (cases t) (simp_all add: time_series_destroy_def destroy_value_set_def destroy_value_set_value_def supply_items_destroy)

lemma fresh_event_destroy [simp]: "fresh (event_destroy e w) = fresh w \<and> upcoming (event_destroy e w) = upcoming w"
  by (cases e) (simp_all add: event_destroy_def)

lemma fresh_event_list_destroy [simp]: "fresh (event_list_destroy l w) = fresh w \<and> upcoming (event_list_destroy l w) = upcoming w"
  by (cases l) (simp_all add: event_list_destroy_def destroy_event_def supply_items_destroy)

lemma fresh_custom_data_destroy [simp]: "fresh (custom_data_destroy c w) = fresh w \<and> upcoming (custom_data_destroy c w) = upcoming w"
  by (cases c) (simp_all add: custom_data_destroy_def Let_def memory_free_def split: option.split item_meta_payload_details_union_t.split)

lemma fresh_file_destroy [simp]: "fresh (file_destroy f w) = fresh w \<and> upcoming (file_destroy f w) = upcoming w"
  by (cases f) (simp_all add: file_destroy_def)

lemma fresh_dsc_destroy [simp]: "fresh (data_source_configuration_destroy c w) = fresh w \<and> upcoming (data_source_configuration_destroy c w) = upcoming w"
  by (cases c) (simp_all add: data_source_configuration_destroy_def destroy_data_source_def destroy_data_point_def supply_items_destroy)

lemma fresh_destroy_item [simp]: "fresh (destroy_item i w) = fresh w \<and> upcoming (destroy_item i w) = upcoming w"
  by (cases i) (simp_all add: destroy_item_def stream_data_destroy_def)

lemma fresh_snd_allocate: "fresh w \<le> fresh (snd (memory_allocate n w))"
  using fresh_memory_allocate by (metis prod.collapse)

lemma fresh_store_list_destroy_callback [simp]:
  "fresh (store_list_destroy_callback d w) = fresh w" "upcoming (store_list_destroy_callback d w) = upcoming w"
  by (simp_all add: store_list_destroy_callback_def Let_def split: option.split)

lemma initialize_buffer_goes_on: "initialize_buffer s v n w = Some (c, s', w') \<Longrightarrow> fresh w \<le> fresh w'"
  by (cases v) (auto simp: initialize_buffer_def split_beta bind_eq_Some_conv fresh_snd_allocate split: option.splits if_splits)

lemma goes_on_initialize_typed: "goes_on (initialize_typed t v n)"
  by (rule goes_onI)
    (auto simp: initialize_typed_def bind_eq_Some_conv
      dest!: fresh_memory_allocate initialize_buffer_goes_on split: option.splits prod.splits if_splits)

lemma goes_on_new_text [goes_on_intros]: "goes_on (new_text s)"
  using goes_on_initialize_typed by (simp add: new_text_def string_initialize_new_def goes_on_def)

lemma goes_on_static_value [goes_on_intros]: "goes_on (static_value i)"
  using goes_on_initialize_typed by (simp add: static_value_def string_initialize_static_def goes_on_def)

lemma goes_on_items [goes_on_intros]: "goes_on items_initialize"
  by (rule goes_onI) (auto simp: items_initialize_def dest: fresh_memory_allocate split: prod.splits option.splits)

lemma goes_on_set_member [goes_on_intros]: "goes_on f \<Longrightarrow> step_goes_on (set_member put f)"
  unfolding step_goes_on_def
  by (intro allI goes_onI) (auto simp: set_member_def bind_eq_Some_conv dest: goes_onD split: if_splits)

lemma goes_on_run_steps:
  "list_all step_goes_on fs \<Longrightarrow> step_goes_on (run_steps fs)"
proof (induction fs)
  case (Cons f fs)
  show ?case
    unfolding step_goes_on_def
  proof (intro allI goes_onI)
    fix c s w c' s' w'
    assume "run_steps (f # fs) (c, s, w) = Some (c', s', w')"
    then obtain c1 s1 w1 where 1: "f (c, s, w) = Some (c1, s1, w1)" "run_steps fs (c1, s1, w1) = Some (c', s', w')"
      by (auto simp: run_steps_Cons bind_eq_Some_conv)
    have "fresh w \<le> fresh w1" using 1(1) Cons.prems by (auto simp: step_goes_on_def dest: goes_onD)
    also have "\<dots> \<le> fresh w'" using 1(2) Cons by (auto simp: step_goes_on_def dest: goes_onD)
    finally show "fresh w \<le> fresh w'" .
  qed
qed (simp add: step_goes_on_def goes_on_def)

lemma run_steps_goes_on:
  "run_steps fs (c, s, w) = Some (c', s', w') \<Longrightarrow> list_all step_goes_on fs \<Longrightarrow> fresh w \<le> fresh w'"
  using goes_on_run_steps unfolding step_goes_on_def by (metis (mono_tags, lifting) goes_onD)

lemma list_all_optional [goes_on_intros]: "(\<And>y. step_goes_on (f y)) \<Longrightarrow> list_all step_goes_on (optional x f)"
  by (cases x) (simp_all add: optional_def)

lemma goes_on_time_series [goes_on_intros]: "goes_on (time_series_initialize v c r)"
proof (rule goes_onI)
  fix w code t w'
  assume run: "time_series_initialize v c r w = Some (code, t, w')"
  have all: "list_all step_goes_on (time_series_meta_steps v c r)"
    by (auto simp: time_series_meta_steps_def intro!: goes_on_intros)
  show "fresh w \<le> fresh w'"
    using run
    by (auto simp: time_series_initialize_def time_series_initialize_meta_def bind_eq_Some_conv Let_def
        dest!: fresh_memory_allocate run_steps_goes_on [OF _ all] goes_onD [OF goes_on_items]
        split: option.splits prod.splits if_splits)
qed

lemma goes_on_event_list [goes_on_intros]: "goes_on (event_list_initialize v)"
proof (rule goes_onI)
  fix w code t w'
  assume run: "event_list_initialize v w = Some (code, t, w')"
  have all: "list_all step_goes_on (event_list_meta_steps v)"
    by (auto simp: event_list_meta_steps_def intro!: goes_on_intros)
  show "fresh w \<le> fresh w'"
    using run
    by (auto simp: event_list_initialize_def event_list_initialize_meta_def bind_eq_Some_conv Let_def
        dest!: fresh_memory_allocate run_steps_goes_on [OF _ all [unfolded event_list_meta_steps_def]] goes_onD [OF goes_on_items]
        split: option.splits prod.splits if_splits)
qed

lemma goes_on_custom_data [goes_on_intros]: "goes_on (custom_data_initialize v t r)"
proof (rule goes_onI)
  fix w code c w'
  assume run: "custom_data_initialize v t r w = Some (code, c, w')"
  have all: "list_all step_goes_on (custom_meta_steps t v r)"
    by (auto simp: custom_meta_steps_def intro!: goes_on_intros)
  have defs: "initialize_custom_data_meta_fields t v r w1
      = run_steps (custom_meta_steps t v r) (MCL_OK, empty_meta (Custom_Details None), w1)" for w1
    by (simp add: initialize_custom_data_meta_fields_def custom_meta_steps_def)
  show "fresh w \<le> fresh w'"
    using run
    by (auto simp: custom_data_initialize_def defs bind_eq_Some_conv Let_def
        dest!: fresh_memory_allocate run_steps_goes_on [OF _ all]
        split: option.splits prod.splits if_splits)
qed
section \<open>What a store holds\<close>

text \<open>The kinds of items as their initializations leave them; a list of events knows its version.\<close>

definition event_list_version :: "event_list_t \<Rightarrow> string \<Rightarrow> bool" where
  "event_list_version l v \<longleftrightarrow> is_text v \<and> length v + 1 < 2 ^ 64 \<and> event_list_events l \<noteq> None
    \<and> event_list_meta l = meta_for (string_constant ''businessEvent'') v None Unset_Details"

definition item_ok :: "store_item \<Rightarrow> bool" where
  "item_ok i = (case i of
      Time_Series t \<Rightarrow> \<not> is_custom_details (meta_details (time_series_meta t))
    | Event_List l \<Rightarrow> \<exists>v. event_list_version l v
    | File f \<Rightarrow> \<not> is_custom_details (meta_details (file_meta f))
    | Custom c \<Rightarrow> is_custom_details (meta_details (custom_meta c))
    | Stream s \<Rightarrow> False
    | Data_Source_Configuration c \<Rightarrow> meta_details (dsc_meta c) = Unset_Details \<and> meta_routing (dsc_meta c) = None)"

definition data_ok :: "store_data_t \<Rightarrow> bool" where
  "data_ok d \<longleftrightarrow> item_ok (store_item d) \<and> store_state d \<noteq> DATA_STATE_STREAMING \<and> store_stream_info d = None
    \<and> (store_state d = DATA_STATE_INITIAL \<longleftrightarrow> store_meta d = None)
    \<and> (store_state d = DATA_STATE_INITIAL \<longrightarrow> store_payload_buffer d = None \<and> store_payload_size d = 0)"

definition content_blocks :: "store_item \<Rightarrow> int" where
  "content_blocks i = (case i of
      Time_Series t \<Rightarrow> time_series_blocks t
    | Event_List l \<Rightarrow> event_list_blocks l
    | File f \<Rightarrow> file_blocks f
    | Custom c \<Rightarrow> custom_blocks c
    | Stream s \<Rightarrow> 0
    | Data_Source_Configuration c \<Rightarrow> dsc_blocks c)"

definition data_blocks :: "store_data_t \<Rightarrow> int" where
  "data_blocks d = 1 + string_blocks (store_meta d) + (if owns_payload d then 1 else 0) + content_blocks (store_item d)"

definition entries :: "(addr \<times> 'd) list \<Rightarrow> 'd entry list" where
  "entries ds = map (map_prod id Some) ds"

text \<open>The items are in the list of high priority, whose cursor is at its head; that of low priority is not
  used.\<close>

definition store_holds :: "store_t \<Rightarrow> store_heap \<Rightarrow> world \<Rightarrow> (addr \<times> store_data_t) list \<Rightarrow> bool" where
  "store_holds s h w ds \<longleftrightarrow> (\<exists>high low. store_high s = Some high \<and> store_low s = Some low
    \<and> represents high h [] (entries ds) \<and> represents low h [] [] \<and> heap_fresh h w
    \<and> \<not> store_streamable s \<and> (\<forall>d \<in> snd ` set ds. data_ok d))"

definition store_blocks :: "(addr \<times> store_data_t) list \<Rightarrow> int" where
  "store_blocks ds = 3 + (\<Sum>d\<leftarrow>map snd ds. 1 + data_blocks d)"

lemma entries_simps [simp]:
  "entries [] = []" "entries ((a, d) # ds) = (a, Some d) # entries ds" "entries (ds @ es) = entries ds @ entries es"
  "length (entries ds) = length ds" "map fst (entries ds) = map fst ds" "fst ` set (entries ds) = fst ` set ds"
  by (simp_all add: entries_def image_image comp_def case_prod_unfold)

lemma live_destroy_item: "item_ok i \<Longrightarrow> live (destroy_item i w) = live w - content_blocks i"
  by (cases i) (auto simp: item_ok_def destroy_item_def content_blocks_def live_time_series_destroy live_event_list_destroy
      live_file_destroy live_custom_data_destroy live_dsc_destroy event_list_version_def meta_for_def)

lemma live_store_list_destroy_callback:
  "data_ok d \<Longrightarrow> live (store_list_destroy_callback d w) = live w - data_blocks d"
  by (simp add: store_list_destroy_callback_def data_blocks_def live_destroy_item Let_def data_ok_def)

lemma represents_other_heap: "represents l h [] [] \<Longrightarrow> represents l h' [] []"
  by (simp add: represents_def)

lemma heap_fresh_later: "heap_fresh h w \<Longrightarrow> fresh w \<le> fresh w' \<Longrightarrow> heap_fresh h w'"
  by (auto simp: heap_fresh_def)

lemma store_holds_later: "store_holds s h w ds \<Longrightarrow> fresh w \<le> fresh w' \<Longrightarrow> store_holds s h w' ds"
  by (auto simp: store_holds_def dest: heap_fresh_later)

lemma live_destroy_entries:
  "\<forall>d \<in> snd ` set ds. data_ok d \<Longrightarrow>
    live (fold (\<lambda>e w. memory_free (destroy_data (Some store_list_destroy_callback) (snd e) w)) (entries ds) w)
      = live w - (\<Sum>d\<leftarrow>map snd ds. 1 + data_blocks d)"
  by (induction ds arbitrary: w)
    (auto simp: destroy_data_def live_store_list_destroy_callback)

lemma list_destroy_entries:
  "represents l h visited ahead \<Longrightarrow> list_destroy_with_content (Some l) callback h w =
    Some (None, \<lambda>a. if a \<in> fst ` set (visited @ ahead) then None else h a,
      memory_free (fold (\<lambda>e w1. memory_free (destroy_data callback (snd e) w1)) (visited @ ahead) w))"
  using destroy_nodes_linked [of h None "visited @ ahead" callback w]
  by (simp add: list_destroy_with_content_def represents_def)

text \<open>C13: destroying a store takes its nodes out of the heap and gives back every block of it: the two lists, the
  nodes, and the items with their prepared texts.\<close>

theorem mcl_store_destroy_correct:
  assumes "store_holds s h w ds"
  shows "\<exists>w'. mcl_store_destroy (Some s) h w =
      Some (MCL_OK, None, \<lambda>a. if a \<in> fst ` set ds then None else h a, w')
    \<and> live w' = live w - store_blocks ds"
proof -
  obtain high low where s: "store_high s = Some high" "store_low s = Some low"
      "represents high h [] (entries ds)" "represents low h [] []" "\<forall>d \<in> snd ` set ds. data_ok d"
    using assms unfolding store_holds_def by blast
  let ?h = "\<lambda>a. if a \<in> fst ` set ds then None else h a"
  let ?w = "memory_free (fold (\<lambda>e w. memory_free (destroy_data (Some store_list_destroy_callback) (snd e) w)) (entries ds) w)"
  have 1: "list_destroy_with_content (Some high) (Some store_list_destroy_callback) h w = Some (None, ?h, ?w)"
    using list_destroy_entries [OF s(3)] by simp
  have 2: "list_destroy_with_content (Some low) (Some store_list_destroy_callback) ?h ?w = Some (None, ?h, memory_free ?w)"
    using list_destroy_entries [OF represents_other_heap [OF s(4), where h' = ?h]] by simp
  show ?thesis
    using s(1,2) 1 2 live_destroy_entries [OF s(5), of w] by (simp add: mcl_store_destroy_def store_blocks_def)
qed

section \<open>New items\<close>

lemma data_ok_new: "item_ok i \<Longrightarrow> data_ok (new_store_data i)"
  by (simp add: data_ok_def new_store_data_def)

lemma data_blocks_new: "data_blocks (new_store_data i) = 1 + content_blocks i"
  by (simp add: data_blocks_def new_store_data_def owns_payload_def)

lemma list_add_at_head:
  assumes "represents l h [] (entries ds)" "heap_fresh h w" "length ds < 2 ^ 64 - 1"
    and "memory_allocate sizeof_list_node w = (Some a, w1)"
  obtains l' h' where "list_add l (Some d) h w = Some (MCL_OK, l', h', w1)"
    "represents l' h' [] (entries (ds @ [(a, d)]))" "heap_fresh h' w1" "list_last l' = Some a"
proof -
  obtain l' h' where 1: "list_add l (Some d) h w = Some (MCL_OK, l', h', w1)"
      "represents l' h' [] (entries ds @ [(a, Some d)])" "heap_fresh h' w1"
    using list_add_granted [OF assms(1,2) _ assms(4), of "Some d"] assms(3) by auto
  then show thesis using that by (simp add: represents_def)
qed

lemma store_add_data_holds:
  assumes "store_holds s h w ds" "item_ok i" "length ds < 2 ^ 64 - 1"
  shows "\<exists>code node s' h' w'. store_add_data s i PRIORITY_HIGH h w = Some (code, node, s', h', w')
    \<and> (code = MCL_OK \<and> (\<exists>a. node = Some a \<and> store_holds s' h' w' (ds @ [(a, new_store_data i)]))
        \<and> live w' = live w + 2 \<and> (upcoming w = [] \<longrightarrow> upcoming w' = [])
      \<or> code \<noteq> MCL_OK \<and> node = None \<and> store_holds s' h' w' ds \<and> live w' = live w \<and> upcoming w \<noteq> [])"
proof -
  obtain high low where s: "store_high s = Some high" "store_low s = Some low"
      "represents high h [] (entries ds)" "represents low h [] []" "heap_fresh h w"
      "\<not> store_streamable s" "\<forall>d \<in> snd ` set ds. data_ok d"
    using assms(1) unfolding store_holds_def by blast
  have nz: "sizeof_store_data \<noteq> 0" "sizeof_list_node \<noteq> 0" by (simp_all add: sizeof_store_data_def sizeof_list_node_def)
  show ?thesis
  proof (cases rule: allocE [OF nz(1), of w])
    case (1 w')
    then show ?thesis
      using store_holds_later [OF assms(1) fresh_memory_allocate] by (auto simp: store_add_data_def)
  next
    case a: (2 a w1)
    have fr: "heap_fresh h w1" using heap_fresh_later [OF s(5) fresh_memory_allocate] a by blast
    show ?thesis
    proof (cases rule: allocE [OF nz(2), of w1])
      case (1 w2)
      have "list_count high < MCL_SIZE_MAX"
        using represents_count [OF s(3)] assms(3) by (simp add: size_less_iff unat_MCL_SIZE_MAX)
      then have "list_add high (Some (new_store_data i)) h w1 = Some (MCL_OUT_OF_MEMORY, high, h, w2)"
        using 1 by (simp add: list_add_refused)
      then show ?thesis
        using a 1 s heap_fresh_later [OF fr fresh_memory_allocate [OF 1(1)]]
        by (auto simp: store_add_data_def store_holds_def heap_fresh_def)
    next
      case (2 b w2)
      obtain l' h' where l: "list_add high (Some (new_store_data i)) h w1 = Some (MCL_OK, l', h', w2)"
          "represents l' h' [] (entries (ds @ [(b, new_store_data i)]))" "heap_fresh h' w2" "list_last l' = Some b"
        using list_add_at_head [OF s(3) fr assms(3) 2(1)] by blast
      have "store_holds (s\<lparr>store_high := Some l'\<rparr>) h' w2 (ds @ [(b, new_store_data i)])"
        using l s data_ok_new [OF assms(2)] represents_other_heap [OF s(4)] by (auto simp: store_holds_def)
      then show ?thesis using a 2 l s by (auto simp: store_add_data_def)
    qed
  qed
qed

lemma add_new_item_holds:
  assumes "store_holds s h w ds" "makes f v (content_blocks (wrap v))" "goes_on f" "item_ok (wrap v)"
    and "length ds < 2 ^ 64 - 1"
  shows "\<exists>code node s' h' w'. add_new_item s h wrap (f w) = Some (code, node, Some s', h', w')
    \<and> (code = MCL_OK \<and> (\<exists>a. node = Some a \<and> store_holds s' h' w' (ds @ [(a, new_store_data (wrap v))])
          \<and> live w' - store_blocks (ds @ [(a, new_store_data (wrap v))]) = live w - store_blocks ds
          \<and> (upcoming w = [] \<longrightarrow> upcoming w' = []))
      \<or> code \<noteq> MCL_OK \<and> node = None \<and> store_holds s' h' w' ds \<and> live w' = live w \<and> upcoming w \<noteq> [])"
proof -
  have m: "made (f w) v (content_blocks (wrap v)) w" using assms(2) by (simp add: makes_made)
  show ?thesis
  proof (cases rule: madeE [OF m])
    case (1 code w')
    then show ?thesis
      using store_holds_later [OF assms(1) goes_onD [OF assms(3)]] by (auto simp: add_new_item_def)
  next
    case (2 w1)
    have h1: "store_holds s h w1 ds" using store_holds_later [OF assms(1) goes_onD [OF assms(3) 2(1)]] .
    obtain code node s' h' w' where 3: "store_add_data s (wrap v) PRIORITY_HIGH h w1 = Some (code, node, s', h', w')"
      "(code = MCL_OK \<and> (\<exists>a. node = Some a \<and> store_holds s' h' w' (ds @ [(a, new_store_data (wrap v))]))
          \<and> live w' = live w1 + 2 \<and> (upcoming w1 = [] \<longrightarrow> upcoming w' = [])
        \<or> code \<noteq> MCL_OK \<and> node = None \<and> store_holds s' h' w' ds \<and> live w' = live w1 \<and> upcoming w1 \<noteq> [])"
      using store_add_data_holds [OF h1 assms(4,5)] by blast
    from 3(2) show ?thesis
    proof (elim disjE conjE exE)
      fix a assume ok: "code = MCL_OK" "node = Some a" "store_holds s' h' w' (ds @ [(a, new_store_data (wrap v))])"
        "live w' = live w1 + 2" "upcoming w1 = [] \<longrightarrow> upcoming w' = []"
      then show ?thesis using 2 3(1) by (auto simp: add_new_item_def store_blocks_def data_blocks_new)
    next
      assume bad: "code \<noteq> MCL_OK" "node = None" "store_holds s' h' w' ds" "live w' = live w1" "upcoming w1 \<noteq> []"
      show ?thesis
        using 2 3(1) bad store_holds_later [OF bad(3)] live_destroy_item [OF assms(4)]
        by (auto simp: add_new_item_def)
    qed
  qed
qed
text \<open>What adding an item may do: the item is the last one of the store, or the store is as it was.\<close>

definition adds_item :: "new_result \<Rightarrow> store_item \<Rightarrow> (addr \<times> store_data_t) list \<Rightarrow> world \<Rightarrow> bool" where
  "adds_item x i ds w \<longleftrightarrow> (\<exists>code node s' h' w'. x = Some (code, node, Some s', h', w')
    \<and> (code = MCL_OK \<and> (\<exists>a. node = Some a \<and> store_holds s' h' w' (ds @ [(a, new_store_data i)])
          \<and> live w' - store_blocks (ds @ [(a, new_store_data i)]) = live w - store_blocks ds
          \<and> (upcoming w = [] \<longrightarrow> upcoming w' = []))
      \<or> code \<noteq> MCL_OK \<and> node = None \<and> store_holds s' h' w' ds \<and> live w' = live w \<and> upcoming w \<noteq> []))"

lemma adds_item_ok: "adds_item x i ds w \<Longrightarrow> upcoming w = [] \<Longrightarrow> \<exists>a s' h' w'. x = Some (MCL_OK, Some a, Some s', h', w')"
  by (auto simp: adds_item_def)

lemma item_ok_of [simp]:
  "item_ok (Time_Series (time_series_of v c r))" "item_ok (Custom (custom_data_of v t r))"
  by (simp_all add: item_ok_def time_series_of_def custom_data_of_def meta_for_def is_custom_details_def)

text \<open>C12: a new item becomes the last item of the store, in its initial state, or, when memory runs out, the store
  is as it was and nothing is lost; the store stays in good order.  A time series of an ill-formed
  version is refused.\<close>

theorem mcl_store_new_items_correct:
  assumes "store_holds s h w ds" "length ds < 2 ^ 64 - 1"
    and "text_arg v version" "text_arg c configuration" "text_arg t type" "rel_option text_arg r routing"
  shows "(if version_ok v
      then adds_item (mcl_store_new_time_series (Some s) (Some version) (Some configuration) routing True h w)
        (Time_Series (time_series_of v c r)) ds w
      else mcl_store_new_time_series (Some s) (Some version) (Some configuration) routing True h w
        = Some (MCL_INVALID_PARAMETER, None, Some s, h, w))
    \<and> adds_item (mcl_store_new_custom_data (Some s) (Some version) (Some type) routing True h w)
        (Custom (custom_data_of v t r)) ds w"
proof
  obtain rest where v: "version = v @ NUL # rest" "is_text v" "length v + 1 < 2 ^ 64"
    using assms(3) by (auto simp: text_arg_def)
  have valid: "is_valid_version version = Some (version_ok v)"
    using is_valid_version_text [OF v(2,3), of rest] by (simp add: v(1))
  have "adds_item (add_new_item s h Time_Series (time_series_initialize version configuration routing w))
      (Time_Series (time_series_of v c r)) ds w"
    unfolding adds_item_def
    by (rule add_new_item_holds [OF assms(1) _ goes_on_time_series _ assms(2)])
      (use makes_time_series [OF assms(3,4,6)] in \<open>simp_all add: content_blocks_def\<close>)
  then show "if version_ok v
      then adds_item (mcl_store_new_time_series (Some s) (Some version) (Some configuration) routing True h w)
        (Time_Series (time_series_of v c r)) ds w
      else mcl_store_new_time_series (Some s) (Some version) (Some configuration) routing True h w
        = Some (MCL_INVALID_PARAMETER, None, Some s, h, w)"
    using valid by (simp add: mcl_store_new_time_series_def)
  have "adds_item (add_new_item s h Custom (custom_data_initialize version type routing w))
      (Custom (custom_data_of v t r)) ds w"
    unfolding adds_item_def
    by (rule add_new_item_holds [OF assms(1) _ goes_on_custom_data _ assms(2)])
      (use makes_custom_data [OF assms(3,5,6)] in \<open>simp_all add: content_blocks_def\<close>)
  then show "adds_item (mcl_store_new_custom_data (Some s) (Some version) (Some type) routing True h w)
        (Custom (custom_data_of v t r)) ds w"
    by (simp add: mcl_store_new_custom_data_def)
qed

text \<open>A new store is empty.\<close>

definition no_entries :: list_t where
  "no_entries = \<lparr>list_head = None, list_last = None, list_current = None, list_count = 0\<rparr>"

definition empty_store :: store_t where
  "empty_store = \<lparr>store_streamable = False, store_high = Some no_entries, store_low = Some no_entries\<rparr>"

lemma store_holds_empty: "heap_fresh h w \<Longrightarrow> store_holds empty_store h w []"
  by (simp add: store_holds_def empty_store_def no_entries_def represents_def)

lemma mcl_store_initialize_empty:
  "upcoming w = [] \<Longrightarrow> \<exists>w'. mcl_store_initialize False True h w = Some (MCL_OK, Some empty_store, h, w')
    \<and> live w' = live w + store_blocks [] \<and> upcoming w' = [] \<and> fresh w \<le> fresh w'"
  by (simp add: mcl_store_initialize_def memory_allocate_unbounded list_initialize_def sizeof_store_def sizeof_list_def
      empty_store_def no_entries_def store_blocks_def)

lemma mcl_store_new_items_correct_witness:
  "\<exists>a s' h' w'. mcl_store_new_time_series (Some empty_store) (Some (cstring ''1.0'')) (Some (cstring ''abc'')) None True
      Map.empty quiet_world = Some (MCL_OK, Some a, Some s', h', w')"
proof -
  have "store_holds empty_store Map.empty quiet_world []"
    by (rule store_holds_empty) (simp add: heap_fresh_def)
  moreover have "version_ok ''1.0''"
    unfolding version_ok_def by (rule exI [of _ "''1''"], rule exI [of _ "''0''"]) (simp add: is_digit_def)
  ultimately have "adds_item (mcl_store_new_time_series (Some empty_store) (Some (cstring ''1.0''))
      (Some (cstring ''abc'')) None True Map.empty quiet_world) (Time_Series (time_series_of ''1.0'' ''abc'' None)) [] quiet_world"
    using mcl_store_new_items_correct [of empty_store Map.empty quiet_world "[]" "''1.0''" "cstring ''1.0''"
        "''abc''" "cstring ''abc''" "''t''" "cstring ''t''" None None]
    by (simp add: text_arg_cstring is_text_def)
  then show ?thesis by (rule adds_item_ok) (simp add: quiet_world_def)
qed

end
