(* ===== verification/MCL_Http_Response.thy ===== *)
theory MCL_Http_Response
  imports MCL_Http_Request
begin

text \<open>
  \<^verbatim>\<open>http_response.c\<close> and the translation of status codes of \<^verbatim>\<open>http_processor.c\<close>.  The status is whatever number
  the server sent: the client converts it without a check.
\<close>

section \<open>Status codes\<close>

type_synonym E_MCL_HTTP_RESULT_CODE = int

definition MCL_HTTP_RESULT_CODE_SUCCESS :: E_MCL_HTTP_RESULT_CODE where "MCL_HTTP_RESULT_CODE_SUCCESS = 200"
definition MCL_HTTP_RESULT_CODE_CREATED :: E_MCL_HTTP_RESULT_CODE where "MCL_HTTP_RESULT_CODE_CREATED = 201"
definition MCL_HTTP_RESULT_CODE_PARTIAL_CONTENT :: E_MCL_HTTP_RESULT_CODE where "MCL_HTTP_RESULT_CODE_PARTIAL_CONTENT = 206"
definition MCL_HTTP_RESULT_CODE_BAD_REQUEST :: E_MCL_HTTP_RESULT_CODE where "MCL_HTTP_RESULT_CODE_BAD_REQUEST = 400"
definition MCL_HTTP_RESULT_CODE_UNAUTHORIZED :: E_MCL_HTTP_RESULT_CODE where "MCL_HTTP_RESULT_CODE_UNAUTHORIZED = 401"
definition MCL_HTTP_RESULT_CODE_FORBIDDEN :: E_MCL_HTTP_RESULT_CODE where "MCL_HTTP_RESULT_CODE_FORBIDDEN = 403"
definition MCL_HTTP_RESULT_CODE_NOT_FOUND :: E_MCL_HTTP_RESULT_CODE where "MCL_HTTP_RESULT_CODE_NOT_FOUND = 404"
definition MCL_HTTP_RESULT_CODE_CONFLICT :: E_MCL_HTTP_RESULT_CODE where "MCL_HTTP_RESULT_CODE_CONFLICT = 409"
definition MCL_HTTP_RESULT_CODE_PRECONDITION_FAILED :: E_MCL_HTTP_RESULT_CODE where "MCL_HTTP_RESULT_CODE_PRECONDITION_FAILED = 412"
definition MCL_HTTP_RESULT_CODE_PAYLOAD_TOO_LARGE :: E_MCL_HTTP_RESULT_CODE where "MCL_HTTP_RESULT_CODE_PAYLOAD_TOO_LARGE = 413"
definition MCL_HTTP_RESULT_CODE_INTERNAL_SERVER_ERR :: E_MCL_HTTP_RESULT_CODE where "MCL_HTTP_RESULT_CODE_INTERNAL_SERVER_ERR = 500"

lemmas status_codes = MCL_HTTP_RESULT_CODE_SUCCESS_def MCL_HTTP_RESULT_CODE_CREATED_def
  MCL_HTTP_RESULT_CODE_PARTIAL_CONTENT_def MCL_HTTP_RESULT_CODE_BAD_REQUEST_def
  MCL_HTTP_RESULT_CODE_UNAUTHORIZED_def MCL_HTTP_RESULT_CODE_FORBIDDEN_def
  MCL_HTTP_RESULT_CODE_NOT_FOUND_def MCL_HTTP_RESULT_CODE_CONFLICT_def
  MCL_HTTP_RESULT_CODE_PRECONDITION_FAILED_def MCL_HTTP_RESULT_CODE_PAYLOAD_TOO_LARGE_def
  MCL_HTTP_RESULT_CODE_INTERNAL_SERVER_ERR_def

section \<open>The response\<close>

record http_response_t =
  response_header :: "string_array_t option"
  response_payload :: "char list option"
  response_payload_size :: mcl_size_t
  response_result_code :: E_MCL_HTTP_RESULT_CODE

definition sizeof_http_response :: mcl_size_t where "sizeof_http_response = 32"

definition http_response_initialize ::
    "string_array_t option \<Rightarrow> char list option \<Rightarrow> mcl_size_t \<Rightarrow> E_MCL_HTTP_RESULT_CODE \<Rightarrow> world
      \<Rightarrow> E_MCL_ERROR_CODE \<times> http_response_t option \<times> world" where
  "http_response_initialize header1 payload1 size1 result_code w =
    (case memory_allocate sizeof_http_response w of
      (None, w1) \<Rightarrow> (MCL_OUT_OF_MEMORY, None, w1)
    | (Some a, w1) \<Rightarrow> (MCL_OK, Some \<lparr>response_header = header1, response_payload = payload1,
        response_payload_size = size1, response_result_code = result_code\<rparr>, w1))"

text \<open>What is done with the first header line that contains the name: it is split at the colons, and must
  give two parts.\<close>

definition header_value ::
    "string_t \<Rightarrow> string_t list_heap \<Rightarrow> world \<Rightarrow> (E_MCL_ERROR_CODE \<times> string_t option \<times> world) option" where
  "header_value line h w = do {
    (code, tokens, h1, w1) \<leftarrow> string_split line CHR '':'' h w;
    if code \<noteq> MCL_OK then Some (code, None, w1)
    else do {
      l \<leftarrow> tokens;
      (code1, r, w2) \<leftarrow>
        (if list_count l \<noteq> 2 then Some (MCL_FAIL, None, w1)
         else do {
           first \<leftarrow> list_head l; n \<leftarrow> h1 first;
           second \<leftarrow> node_next n; m \<leftarrow> h1 second;
           s \<leftarrow> node_data m;
           string_initialize s w1
         });
      (l1, h2, w3) \<leftarrow> list_destroy_with_content (Some l) (Some destroy_string) h1 w2;
      Some (code1, r, w3)
    }
  }"

fun find_header ::
    "string_array_t option \<Rightarrow> char list \<Rightarrow> nat list \<Rightarrow> string_t list_heap \<Rightarrow> world
      \<Rightarrow> (E_MCL_ERROR_CODE \<times> string_t option \<times> world) option" where
  "find_header array header_name [] h w = Some (MCL_FAIL, None, w)"
| "find_header array header_name (i # is) h w = do {
    line \<leftarrow> string_array_get array (size_of_nat i);
    (case line of
      None \<Rightarrow> Some (MCL_FAIL, None, w)
    | Some s \<Rightarrow> do {
        b \<leftarrow> string_buffer s;
        found \<leftarrow> string_util_find_case_insensitive b header_name;
        if found \<noteq> None then header_value s h w
        else find_header array header_name is h w
      })
  }"

definition http_response_get_header ::
    "http_response_t \<Rightarrow> char list \<Rightarrow> string_t list_heap \<Rightarrow> world
      \<Rightarrow> (E_MCL_ERROR_CODE \<times> string_t option \<times> world) option" where
  "http_response_get_header r header_name h w = do {
    a \<leftarrow> response_header r;
    find_header (Some a) header_name [0..<unat (array_index a)] h w
  }"

definition http_response_get_payload :: "http_response_t \<Rightarrow> char list option" where
  "http_response_get_payload r = response_payload r"

definition http_response_get_result_code :: "http_response_t \<Rightarrow> E_MCL_HTTP_RESULT_CODE" where
  "http_response_get_result_code r = response_result_code r"

definition http_response_destroy :: "http_response_t option \<Rightarrow> world \<Rightarrow> (http_response_t option \<times> world) option" where
  "http_response_destroy response w = (case response of
      None \<Rightarrow> Some (None, w)
    | Some r \<Rightarrow> do {
        (gone, w1) \<leftarrow> string_array_destroy (response_header r) w;
        Some (None, memory_free (release_block (response_payload r) w1))
      })"

definition evaluate_response_codes :: "http_response_t \<Rightarrow> E_MCL_ERROR_CODE" where
  "evaluate_response_codes r = (let c = response_result_code r in
    if c = MCL_HTTP_RESULT_CODE_SUCCESS then MCL_OK
    else if c = MCL_HTTP_RESULT_CODE_CREATED then MCL_CREATED
    else if c = MCL_HTTP_RESULT_CODE_PARTIAL_CONTENT then MCL_PARTIAL_CONTENT
    else if c = MCL_HTTP_RESULT_CODE_BAD_REQUEST then MCL_BAD_REQUEST
    else if c = MCL_HTTP_RESULT_CODE_UNAUTHORIZED then MCL_UNAUTHORIZED
    else if c = MCL_HTTP_RESULT_CODE_FORBIDDEN then MCL_FORBIDDEN
    else if c = MCL_HTTP_RESULT_CODE_NOT_FOUND then MCL_NOT_FOUND
    else if c = MCL_HTTP_RESULT_CODE_INTERNAL_SERVER_ERR then MCL_SERVER_FAIL
    else if c = MCL_HTTP_RESULT_CODE_CONFLICT then MCL_CONFLICT
    else if c = MCL_HTTP_RESULT_CODE_PRECONDITION_FAILED then MCL_PRECONDITION_FAIL
    else if c = MCL_HTTP_RESULT_CODE_PAYLOAD_TOO_LARGE then MCL_REQUEST_PAYLOAD_TOO_LARGE
    else MCL_UNEXPECTED_RESULT_CODE)"

lemma evaluate_response_codes_ok:
  "evaluate_response_codes r = MCL_OK \<longleftrightarrow> response_result_code r = MCL_HTTP_RESULT_CODE_SUCCESS"
  by (simp add: evaluate_response_codes_def Let_def)

end
