(* ===== verification/MCL_Jwt.thy ===== *)
theory MCL_Jwt
  imports MCL_Security MCL_String_Array
begin

text \<open>
  The making of a token in \<^verbatim>\<open>jwt.c\<close>, and the signing with RSA of \<^verbatim>\<open>security_libcrypto.c\<close>.  The
  RSA functions of OpenSSL are a record of parameters over its own types \<open>'bio\<close> and \<open>'rsa\<close>.
\<close>

section \<open>Signing with RSA\<close>

record ('bio, 'rsa) openssl =
  BIO_new_mem_buf :: "char list \<Rightarrow> mcl_size_t \<Rightarrow> world \<Rightarrow> 'bio option \<times> world"
  PEM_read_bio_RSAPrivateKey :: "'bio \<Rightarrow> world \<Rightarrow> 'rsa option \<times> world"
  RSA_size :: "'rsa \<Rightarrow> mcl_size_t"
  RSA_sign :: "'rsa \<Rightarrow> bytes \<Rightarrow> bytes option"
  RSA_free :: "'rsa \<Rightarrow> world \<Rightarrow> world"
  BIO_free :: "'bio \<Rightarrow> world \<Rightarrow> world"

text \<open>The three calls of the condition \<^verbatim>\<open>ok\<close> run until one of them fails.  The results are
  \<^verbatim>\<open>ok\<close>, the signature buffer, the size of the signature and \<^verbatim>\<open>hash\<close>.\<close>

definition rsa_sign_steps ::
    "('bio, 'rsa) openssl \<Rightarrow> (bytes \<Rightarrow> bytes) \<Rightarrow> 'rsa \<Rightarrow> bytes \<Rightarrow> mcl_size_t \<Rightarrow> world
      \<Rightarrow> (bool \<times> bytes option \<times> mcl_size_t \<times> bytes option \<times> world) option" where
  "rsa_sign_steps ssl sha key data data_size w =
    (case memory_allocate (RSA_size ssl key) w of
      (None, w1) \<Rightarrow> Some (False, None, 0, None, w1)
    | (Some a, w1) \<Rightarrow> do {
        let signature = unwritten_bytes w (unat (RSA_size ssl key));
        (code, (hash, hash_size), w2) \<leftarrow> security_hash_sha256 sha data data_size w1;
        if MCL_OK \<noteq> code then Some (False, Some signature, 0, hash, w2)
        else do {
          h \<leftarrow> hash;
          guard (unat hash_size \<le> length h);
          (case RSA_sign ssl key (take (unat hash_size) h) of
            None \<Rightarrow> Some (False, Some signature, 0, hash, w2)
          | Some s \<Rightarrow> do {
              signature1 \<leftarrow> write_at signature 0 s;
              Some (True, Some signature1, size_of_nat (length s), hash, w2)
            })
        }
      })"

definition security_rsa_sign ::
    "('bio, 'rsa) openssl \<Rightarrow> (bytes \<Rightarrow> bytes) \<Rightarrow> char list \<Rightarrow> bytes \<Rightarrow> mcl_size_t \<Rightarrow> bytes option \<times> mcl_size_t
      \<Rightarrow> world \<Rightarrow> (E_MCL_ERROR_CODE \<times> (bytes option \<times> mcl_size_t) \<times> world) option" where
  "security_rsa_sign ssl sha rsa_key data data_size out w = do {
    key_length \<leftarrow> string_util_strlen rsa_key;
    (case BIO_new_mem_buf ssl rsa_key key_length w of
      (None, w1) \<Rightarrow> Some (MCL_OUT_OF_MEMORY, out, w1)
    | (Some bio, w1) \<Rightarrow>
        (case PEM_read_bio_RSAPrivateKey ssl bio w1 of
          (None, w2) \<Rightarrow> Some (MCL_FAIL, out, BIO_free ssl bio w2)
        | (Some key, w2) \<Rightarrow> do {
            (ok, signature, sign_length, hash, w3) \<leftarrow> rsa_sign_steps ssl sha key data data_size w2;
            let w4 = (if ok then w3 else release_block signature w3);
            Some (if ok then MCL_OK else MCL_FAIL, (if ok then signature else None, sign_length),
              BIO_free ssl bio (RSA_free ssl key (release_block hash w4)))
          }))
  }"

definition security_handler_rsa_sign ::
    "('bio, 'rsa) openssl \<Rightarrow> (bytes \<Rightarrow> bytes) \<Rightarrow> char list \<Rightarrow> bytes \<Rightarrow> mcl_size_t \<Rightarrow> bytes option \<times> mcl_size_t
      \<Rightarrow> world \<Rightarrow> (E_MCL_ERROR_CODE \<times> (bytes option \<times> mcl_size_t) \<times> world) option" where
  "security_handler_rsa_sign ssl sha rsa_key data data_size out w =
    security_rsa_sign ssl sha rsa_key data data_size out w"

section \<open>Making a token\<close>

text \<open>The field of a configuration is an integer in C, and may hold another value than those of the two constants: two, or \<open>n\<close> more than that.\<close>

datatype E_MCL_SECURITY_PROFILE = MCL_SECURITY_SHARED_SECRET | MCL_SECURITY_RSA_3072 | MCL_SECURITY_other nat

definition profile_value :: "E_MCL_SECURITY_PROFILE \<Rightarrow> nat" where
  "profile_value p = (case p of MCL_SECURITY_SHARED_SECRET \<Rightarrow> 0 | MCL_SECURITY_RSA_3072 \<Rightarrow> 1 | MCL_SECURITY_other n \<Rightarrow> n + 2)"

text \<open>\<open>'j\<close> is the type of JSON objects, which the making of a token does not look into.\<close>

record 'j jwt_t =
  jwt_header :: "'j option"
  jwt_payload :: "'j option"
  jwt_security_handler :: security_handler_t
  jwt_security_profile :: E_MCL_SECURITY_PROFILE
  jwt_issued_at :: int

definition dot :: string_t where
  "dot = \<lparr>string_buffer = Some (cstring ''.''), string_length = 1,
    string_type = MCL_STRING_NOT_COPY_NOT_DESTROY\<rparr>"

text \<open>The characters of a string, as bytes.\<close>

definition buffer_bytes :: "string_t \<Rightarrow> bytes" where
  "buffer_bytes s = (case string_buffer s of None \<Rightarrow> [] | Some b \<Rightarrow> map of_char b)"

text \<open>The result is the code, \<^verbatim>\<open>header_encoded\<close> and \<^verbatim>\<open>payload_encoded\<close>.\<close>

definition get_header_and_payload_encoded_base64_url ::
    "string_t \<Rightarrow> string_t \<Rightarrow> world
      \<Rightarrow> (E_MCL_ERROR_CODE \<times> string_t option \<times> string_t option \<times> world) option" where
  "get_header_and_payload_encoded_base64_url header payload w = do {
    (result, header_encoded, w1) \<leftarrow>
      security_handler_base64_url_encode (buffer_bytes header) (string_length header) w;
    if MCL_OK \<noteq> result then Some (MCL_FAIL, header_encoded, None, w1)
    else do {
      (result1, payload_encoded, w2) \<leftarrow>
        security_handler_base64_url_encode (buffer_bytes payload) (string_length payload) w1;
      if MCL_OK \<noteq> result1
      then (let (header1, w3) = string_destroy header_encoded w2 in Some (MCL_FAIL, header1, payload_encoded, w3))
      else Some (MCL_OK, header_encoded, payload_encoded, w2)
    }
  }"

text \<open>Both arguments are destroyed on every way out.  The results of the three additions are not
  looked at, only \<^verbatim>\<open>index\<close>; an addition of \<^verbatim>\<open>NULL\<close> is undefined.\<close>

definition join_with_dot ::
    "string_t option \<Rightarrow> string_t option \<Rightarrow> string_t option \<Rightarrow> world
      \<Rightarrow> (E_MCL_ERROR_CODE \<times> string_t option \<times> world) option" where
  "join_with_dot string_a string_b joined w = do {
    let released = (\<lambda>w. snd (string_destroy string_b (snd (string_destroy string_a w))));
    (code, string_array, w1) \<leftarrow> string_array_initialize 3 w;
    if MCL_OK \<noteq> code then Some (code, joined, released w1)
    else do {
      array \<leftarrow> string_array;
      a \<leftarrow> string_a;
      (c1, array1, w2) \<leftarrow> string_array_add array a False w1;
      (c2, array2, w3) \<leftarrow> string_array_add array1 dot False w2;
      b \<leftarrow> string_b;
      (c3, array3, w4) \<leftarrow> string_array_add array2 b False w3;
      (joined1, w5) \<leftarrow>
        (if array_index array3 = 3 then string_array_to_string (Some array3) w4 else Some (joined, w4));
      (gone, w6) \<leftarrow> string_array_destroy (Some array3) w5;
      let w7 = released w6;
      Some (if joined1 = None then MCL_FAIL else MCL_OK, joined1, w7)
    }
  }"

definition calculate_signature ::
    "('bio, 'rsa) openssl \<Rightarrow> (bytes \<Rightarrow> bytes) \<Rightarrow> 'j jwt_t \<Rightarrow> string_t \<Rightarrow> world
      \<Rightarrow> (E_MCL_ERROR_CODE \<times> string_t option \<times> world) option" where
  "calculate_signature ssl sha jwt header_and_payload w = do {
    let data = buffer_bytes header_and_payload;
    (code, (hash, hash_size), w1) \<leftarrow>
      (if MCL_SECURITY_SHARED_SECRET = jwt_security_profile jwt
       then security_handler_hmac_sha256 sha (jwt_security_handler jwt) data
         (string_length header_and_payload) (None, 0) w
       else do {
         key \<leftarrow> private_key (rsa (jwt_security_handler jwt));
         security_handler_rsa_sign ssl sha key data (string_length header_and_payload) (None, 0) w
       });
    if MCL_OK \<noteq> code then Some (MCL_FAIL, None, w1)
    else do {
      h \<leftarrow> hash;
      (code1, signature, w2) \<leftarrow> security_handler_base64_url_encode h hash_size w1;
      let w3 = release_block hash w2;
      Some (if MCL_OK \<noteq> code1 then MCL_FAIL else MCL_OK, signature, w3)
    }
  }"

definition generate_token ::
    "('bio, 'rsa) openssl \<Rightarrow> (bytes \<Rightarrow> bytes) \<Rightarrow> 'j jwt_t \<Rightarrow> string_t \<Rightarrow> string_t \<Rightarrow> world
      \<Rightarrow> (E_MCL_ERROR_CODE \<times> string_t option \<times> world) option" where
  "generate_token ssl sha jwt header payload w = do {
    (code, header_encoded, payload_encoded, w1) \<leftarrow>
      get_header_and_payload_encoded_base64_url header payload w;
    if MCL_OK \<noteq> code then Some (MCL_FAIL, None, w1)
    else do {
      (code1, header_and_payload, w2) \<leftarrow> join_with_dot header_encoded payload_encoded None w1;
      if MCL_OK \<noteq> code1 then Some (MCL_FAIL, None, w2)
      else do {
        joined \<leftarrow> header_and_payload;
        (code2, signature, w3) \<leftarrow> calculate_signature ssl sha jwt joined w2;
        if MCL_OK \<noteq> code2
        then Some (MCL_FAIL, None, snd (string_destroy header_and_payload w3))
        else do {
          (code3, token, w4) \<leftarrow> join_with_dot header_and_payload signature None w3;
          if MCL_OK \<noteq> code3 then Some (MCL_FAIL, token, w4) else Some (MCL_OK, token, w4)
        }
      }
    }
  }"
section \<open>The parts of a token\<close>

lemma says_bytes:
  assumes "says str s"
  obtains xs where "buffer_bytes str = map of_char s @ xs" "string_length str = size_of_nat (length s)"
  using assms by (auto simp: says_def buffer_bytes_def)

text \<open>With memory left, encoding gives the text.\<close>

definition b64url :: "bytes \<Rightarrow> string" where
  "b64url bs = base64_text base64_url_encode_table bs"

lemma length_b64url: "length (b64url bs) = 4 * ((length bs + 2) div 3)"
  by (simp add: b64url_def length_base64_text)

lemma b64url_calm:
  assumes "upcoming w = []" "length bs < 2 ^ 60"
  shows "\<exists>str w'. security_handler_base64_url_encode (bs @ xs) (size_of_nat (length bs)) w
      = Some (MCL_OK, Some str, w')
    \<and> says str (b64url bs) \<and> blocks_of str = 2 \<and> upcoming w' = [] \<and> live w' = live w + 2"
proof -
  have pos: "encode_bytes (length bs) \<noteq> 0"
    using unat_encode_bytes [OF assms(2)] by (metis add_is_0 unsigned_0 zero_neq_numeral)
  show ?thesis
    unfolding security_handler_base64_url_encode_def base64_url_encode_def
      url.encode_with_table_more [OF assms(2)] b64url_def
    using url.text_handle_says [OF assms(2)] url.blocks_of_text_handle assms(1)
    by (simp add: memory_allocate_unbounded pos sizeof_string_def)
qed

text \<open>The bytes behind the data and the key do not matter.\<close>

lemma security_hash_sha256_more:
  "security_hash_sha256 sha (d @ xs) n w = security_hash_sha256 sha d n w" if "unat n = length d"
  using that by (simp add: security_hash_sha256_def split: prod.splits option.splits)

lemma hmac_sha256_more:
  assumes "length data < 2 ^ 64" "length key < 2 ^ 64"
  shows "hmac_sha256 sha (data @ xs) (size_of_nat (length data)) (key @ ys) (size_of_nat (length key)) out w
    = hmac_sha256 sha data (size_of_nat (length data)) key (size_of_nat (length key)) out w"
proof -
  have n: "unat (size_of_nat (length data)) = length data" "unat (size_of_nat (length key)) = length key"
    using assms by (simp_all add: unat_size_of_nat)
  have copy: "string_util_memcpy d i (data @ xs) (size_of_nat (length data))
    = string_util_memcpy d i data (size_of_nat (length data))" for d i
    by (simp add: string_util_memcpy_def n)
  show ?thesis
  proof (cases "size_of_nat (length key) > HMAC_MAXIMUM_KEY_SIZE")
    case True
    let ?h = "security_hash_sha256 sha key (size_of_nat (length key)) w"
    show ?thesis
    proof (cases ?h)
      case None
      then show ?thesis
        using True by (simp add: hmac_sha256_def hmac_key_def security_hash_sha256_more [OF n(2)])
    next
      case (Some r)
      obtain code kr ks w1 where r: "r = (code, (kr, ks), w1)" by (cases r) auto
      show ?thesis
        using True Some unfolding r hmac_sha256_def hmac_key_def security_hash_sha256_more [OF n(2)] copy
        by (cases "code = MCL_OK"; cases "HMAC_SHA256_SIZE = ks"; cases kr) simp_all
    qed
  next
    case False
    have key: "guard (length key \<le> length (key @ ys)) = guard (length key \<le> length key)"
      "take (length key) (key @ ys) = take (length key) key" by simp_all
    show ?thesis
      unfolding hmac_sha256_def hmac_key_def if_not_P [OF False] Option.bind.bind_lunit prod.case
        n copy key ..
  qed
qed

lemma string_array_initialize_calm:
  assumes "upcoming w = []"
  shows "\<exists>a w'. string_array_initialize 3 w = Some (MCL_OK, Some a, w') \<and> array_holds a []
    \<and> array_count a = 3 \<and> live w' = live w + 2 \<and> upcoming w' = []"
proof -
  have "unat (3 * sizeof_string_array_item) = 48" by (simp add: sizeof_string_array_item_def)
  then show ?thesis
    using assms
    by (simp add: string_array_initialize_def memory_allocate_unbounded sizeof_string_array_def
        sizeof_string_array_item_def clear_items_def unwritten_items_def write_at_def array_holds_def)
qed

lemma string_array_add_room:
  assumes "array_holds a its" "length its < unat (array_count a)"
  shows "\<exists>a1. string_array_add a s d w = Some (MCL_OK, a1, w) \<and> array_holds a1 (its @ [(s, d)])
    \<and> array_count a1 = array_count a"
proof -
  note a = array_holdsD [OF assms(1)]
  have put: "write_at (map item_of its @ replicate (unat (array_count a) - length its) (Some empty_item))
      (length its) [Some \<lparr>item_string = Some s, item_destroy = d\<rparr>]
    = Some (map item_of (its @ [(s, d)]) @ replicate (unat (array_count a) - length (its @ [(s, d)])) (Some empty_item))"
    using assms(2) by (simp add: write_at_def item_of_def)
  have room: "\<not> array_index a \<ge> array_count a" using a(1) assms(2) by (simp add: size_le_iff)
  show ?thesis
    unfolding string_array_add_def if_not_P [OF room]
    using a assms put by (auto simp: array_holds_def)
qed

text \<open>Joining: the text of both with a dot between them, and both are gone.\<close>

lemma join_with_dot_calm:
  assumes "upcoming w = []" "says a s" "says b t" "length s + length t + 2 < 2 ^ 64"
  shows "\<exists>j w'. join_with_dot (Some a) (Some b) joined w = Some (MCL_OK, Some j, w')
    \<and> says j (s @ ''.'' @ t) \<and> blocks_of j = 2 \<and> upcoming w' = []
    \<and> live w' = live w + 2 - blocks_of a - blocks_of b"
proof -
  obtain r0 w0 where r0: "string_array_initialize 3 w = Some (MCL_OK, Some r0, w0)" "array_holds r0 []"
    "array_count r0 = 3" "live w0 = live w + 2" "upcoming w0 = []"
    using string_array_initialize_calm [OF assms(1)] by (elim exE conjE) (rule that)
  obtain r1 where r1: "string_array_add r0 a False w0 = Some (MCL_OK, r1, w0)"
    "array_holds r1 [(a, False)]" "array_count r1 = 3"
    using string_array_add_room [OF r0(2), of a False w0] r0(3) by auto
  obtain r2 where r2: "string_array_add r1 dot False w0 = Some (MCL_OK, r2, w0)"
    "array_holds r2 [(a, False), (dot, False)]" "array_count r2 = 3"
    using string_array_add_room [OF r1(2), of dot False w0] r1(3) by auto
  obtain r3 where r3: "string_array_add r2 b False w0 = Some (MCL_OK, r3, w0)"
    "array_holds r3 [(a, False), (dot, False), (b, False)]"
    using string_array_add_room [OF r2(2), of b False w0] r2(3) by auto
  have index: "array_index r3 = 3" using r3(2) by (simp add: array_holds_def)
  have dot: "says dot ''.''" by (auto simp: says_def dot_def cstring_def)
  have texts: "list_all2 (\<lambda>p t. says (fst p) t) [(a, False), (dot, False), (b, False)] [s, ''.'', t]"
    using assms(2,3) dot by simp
  have whole: "concat [s, ''.'', t] = s @ ''.'' @ t" by simp
  note run = string_array_to_string_run [OF r3(2) texts, unfolded whole]
  have pos: "size_of_nat (length (s @ ''.'' @ t)) + 1 \<noteq> (0 :: mcl_size_t)"
    using assms(4) by (intro succ_length_nonzero) simp
  obtain j w1 where j: "string_array_to_string (Some r3) w0 = Some (Some j, w1)" "says j (s @ ''.'' @ t)"
    "blocks_of j = 2" "live w1 = live w0 + 2" "upcoming w1 = []"
    using run assms(4) r0(5) pos
    by (simp add: memory_allocate_unbounded sizeof_string_def blocks_of_def says_def handle_of_def del: of_nat_add)
  obtain w2 where w2: "string_array_destroy (Some r3) w1 = Some (None, w2)" "live w2 = live w1 - 2"
    "upcoming w2 = upcoming w1"
    using string_array_destroy_holds [OF r3(2), of w1] by (auto simp: array_blocks_def)
  show ?thesis
    using r0(1) r1(1) r2(1) r3(1) index j w2 r0(4)
    by (simp add: join_with_dot_def upcoming_string_destroy string_blocks_def)
qed
section \<open>Correctness\<close>

text \<open>The token of RFC 7515 over the two texts, with the alphabet of the encoder.\<close>

definition token_text :: "(bytes \<Rightarrow> bytes) \<Rightarrow> string \<Rightarrow> string \<Rightarrow> string \<Rightarrow> string" where
  "token_text sha secret header payload =
    (let signed = b64url (map of_char header) @ ''.'' @ b64url (map of_char payload)
     in signed @ ''.'' @ b64url (hmac_text sha (map of_char secret) (map of_char signed)))"

lemma calculate_signature_calm:
  assumes "upcoming w = []" "is_sha256 sha" "says str s" "length s + 64 < 2 ^ 64"
    and "jwt_security_profile jwt = MCL_SECURITY_SHARED_SECRET"
    and "client_secret (jwt_security_handler jwt) = Some key" "says key secret" "secret \<noteq> []"
  shows "\<exists>g w'. calculate_signature ssl sha jwt str w = Some (MCL_OK, Some g, w')
    \<and> says g (b64url (hmac_text sha (map of_char secret) (map of_char s)))
    \<and> blocks_of g = 2 \<and> upcoming w' = [] \<and> live w' = live w + 2"
proof -
  obtain xs where xs: "buffer_bytes str = map of_char s @ xs" "string_length str = size_of_nat (length (map of_char s :: bytes))"
    using says_bytes [OF assms(3)] by (metis length_map)
  obtain ys where ys: "buffer_bytes key = map of_char secret @ ys"
    "string_length key = size_of_nat (length (map of_char secret :: bytes))"
    using says_bytes [OF assms(7)] by (metis length_map)
  have lens: "length (map of_char s :: bytes) < 2 ^ 64" "length (map of_char secret :: bytes) < 2 ^ 64"
    using assms(4,7) by (simp_all add: says_def)
  let ?mac = "hmac_text sha (map of_char secret) (map of_char s)"
  obtain w1 where mac: "hmac_sha256 sha (map of_char s) (size_of_nat (length (map of_char s :: bytes)))
      (map of_char secret) (size_of_nat (length (map of_char secret :: bytes))) (None, 0) w
    = Some (MCL_OK, (Some ?mac, 32), w1)" "live w1 = live w + 1" "upcoming w1 = []"
    using hmac_sha256_computes [OF assms(2), of "map of_char secret" "map of_char s" "(None, 0)" w] assms(1,4,8) lens
    by auto
  have hash: "security_handler_hmac_sha256 sha (jwt_security_handler jwt) (buffer_bytes str) (string_length str) (None, 0) w
    = Some (MCL_OK, (Some ?mac, 32), w1)"
    unfolding security_handler_hmac_sha256_def assms(6) Option.bind.bind_lunit buffer_bytes_def [symmetric]
      xs ys hmac_sha256_more [OF lens] by (rule mac(1))
  have len32: "length ?mac = 32" using assms(2) by (simp add: hmac_text_def is_sha256_def)
  have size32: "(32 :: mcl_size_t) = size_of_nat (length ?mac)" by (simp add: len32)
  obtain g w2 where g: "security_handler_base64_url_encode ?mac 32 w1 = Some (MCL_OK, Some g, w2)"
    "says g (b64url ?mac)" "blocks_of g = 2" "upcoming w2 = []" "live w2 = live w1 + 2"
    using b64url_calm [OF mac(3), of ?mac "[]"] unfolding size32 len32 by auto
  show ?thesis
    using hash g mac(2) by (simp add: calculate_signature_def assms(5) release_block_def)
qed

lemma generate_token_computes:
  assumes "upcoming w = []" "is_sha256 sha" "says header h" "says payload p"
    and "length h < 2 ^ 58" "length p < 2 ^ 58"
    and "jwt_security_profile jwt = MCL_SECURITY_SHARED_SECRET"
    and "client_secret (jwt_security_handler jwt) = Some key" "says key secret" "secret \<noteq> []"
  shows "\<exists>token w'. generate_token ssl sha jwt header payload w = Some (MCL_OK, Some token, w')
    \<and> says token (token_text sha secret h p) \<and> blocks_of token = 2 \<and> upcoming w' = [] \<and> live w' = live w + 2"
proof -
  obtain xs where xs: "buffer_bytes header = map of_char h @ xs" "string_length header = size_of_nat (length (map of_char h :: bytes))"
    using says_bytes [OF assms(3)] by (metis length_map)
  obtain ys where ys: "buffer_bytes payload = map of_char p @ ys" "string_length payload = size_of_nat (length (map of_char p :: bytes))"
    using says_bytes [OF assms(4)] by (metis length_map)
  obtain he w1 where he: "security_handler_base64_url_encode (buffer_bytes header) (string_length header) w
      = Some (MCL_OK, Some he, w1)" "says he (b64url (map of_char h))" "blocks_of he = 2"
      "upcoming w1 = []" "live w1 = live w + 2"
    using b64url_calm [OF assms(1), of "map of_char h" xs] assms(5) unfolding xs by auto
  obtain pe w2 where pe: "security_handler_base64_url_encode (buffer_bytes payload) (string_length payload) w1
      = Some (MCL_OK, Some pe, w2)" "says pe (b64url (map of_char p))" "blocks_of pe = 2"
      "upcoming w2 = []" "live w2 = live w1 + 2"
    using b64url_calm [OF he(4), of "map of_char p" ys] assms(6) unfolding ys by auto
  let ?signed = "b64url (map of_char h) @ ''.'' @ b64url (map of_char p)"
  have short: "length ?signed < 2 ^ 63"
    using assms(5,6) by (simp add: length_b64url)
  obtain j w3 where j: "join_with_dot (Some he) (Some pe) None w2 = Some (MCL_OK, Some j, w3)"
    "says j ?signed" "blocks_of j = 2" "upcoming w3 = []" "live w3 = live w2 - 2"
    using join_with_dot_calm [OF pe(4) he(2) pe(2), of None] short he(3) pe(3) by auto
  let ?mac = "hmac_text sha (map of_char secret) (map of_char ?signed)"
  obtain g w4 where g: "calculate_signature ssl sha jwt j w3 = Some (MCL_OK, Some g, w4)"
    "says g (b64url ?mac)" "blocks_of g = 2" "upcoming w4 = []" "live w4 = live w3 + 2"
    using calculate_signature_calm [OF j(4) assms(2) j(2) _ assms(7-10), of ssl] short by auto
  have "length ?mac = 32" using assms(2) by (simp add: hmac_text_def is_sha256_def)
  then have short2: "length ?signed + length (b64url ?mac) + 2 < 2 ^ 64"
    using short by (simp add: length_b64url)
  obtain t w5 where t: "join_with_dot (Some j) (Some g) None w4 = Some (MCL_OK, Some t, w5)"
    "says t (?signed @ ''.'' @ b64url ?mac)" "blocks_of t = 2" "live w5 = live w4 - 2" "upcoming w5 = []"
    using join_with_dot_calm [OF g(4) j(2) g(2) short2, of None] j(3) g(3) by auto
  show ?thesis
    using he pe j g t
    by (simp add: generate_token_def get_header_and_payload_encoded_base64_url_def token_text_def Let_def)
qed

text \<open>With a shared secret the token is the base64url text of the header, a dot, that of the
  payload, a dot, and the base64url text of the HMAC-SHA256 of all before it under the secret;
  all intermediate strings are gone when it is returned.\<close>

theorem generate_token_correct:
  assumes "upcoming w = []" "is_sha256 sha" "says header h" "says payload p"
    and "length h < 2 ^ 58" "length p < 2 ^ 58"
    and "jwt_security_profile jwt = MCL_SECURITY_SHARED_SECRET"
    and "client_secret (jwt_security_handler jwt) = Some key" "says key secret" "secret \<noteq> []"
  shows "\<exists>token w'. generate_token ssl sha jwt header payload w = Some (MCL_OK, Some token, w')
    \<and> says token (token_text sha secret h p) \<and> live w' = live w + blocks_of token"
  using generate_token_computes [OF assms, of ssl] by auto

definition no_ssl :: "(unit, unit) openssl" where
  "no_ssl = \<lparr>BIO_new_mem_buf = (\<lambda>_ _ w. (None, w)), PEM_read_bio_RSAPrivateKey = (\<lambda>_ w. (None, w)),
    RSA_size = (\<lambda>_. 0), RSA_sign = (\<lambda>_ _. None), RSA_free = (\<lambda>_ w. w), BIO_free = (\<lambda>_ w. w)\<rparr>"

definition blank_handler :: security_handler_t where
  "blank_handler = \<lparr>rsa = \<lparr>public_key = None, public_key_length = 0, private_key = None,
      private_key_length = 0, session_key = None, session_key_length = 0\<rparr>,
    hmac_key_bytes = None, onboarding_key = None, authentication_key = None,
    authentication_key_size = 0, registration_access_token = None, registration_client_uri = None,
    client_secret = None, access_token = None, last_token_time = None, client_id = None\<rparr>"

definition secret_jwt :: "unit jwt_t" where
  "secret_jwt = \<lparr>jwt_header = None, jwt_payload = None,
    jwt_security_handler = blank_handler\<lparr>client_secret := Some (handle_of ''key'')\<rparr>,
    jwt_security_profile = MCL_SECURITY_SHARED_SECRET, jwt_issued_at = 0\<rparr>"

lemma generate_token_correct_witness:
  "\<exists>token w'. generate_token no_ssl (\<lambda>d. replicate 32 (of_nat (length d))) secret_jwt
      (handle_of ''{a}'') (handle_of ''{b}'') quiet_world = Some (MCL_OK, Some token, w')
    \<and> says token (token_text (\<lambda>d. replicate 32 (of_nat (length d))) ''key'' ''{a}'' ''{b}'')
    \<and> live w' = live quiet_world + blocks_of token"
  by (rule generate_token_correct [where key = "handle_of ''key''"])
    (simp_all add: quiet_world_def is_sha256_def says_handle_of secret_jwt_def)

text \<open>When memory runs out just as the encoded header gets its handle, the encoder still reports
  success, and the joining that follows reads through the missing string.\<close>

theorem generate_token_null_header:
  "\<exists>w. upcoming w \<noteq> [] \<and> generate_token no_ssl (\<lambda>d. replicate 32 0) secret_jwt
      (handle_of ''{a}'') (handle_of ''{b}'') w = None"
proof (intro exI conjI)
  let ?w = "quiet_world\<lparr>upcoming := [True, False]\<rparr>"
  show "upcoming ?w \<noteq> []" by simp
  have bytes: "buffer_bytes (handle_of s) = map of_char s @ [0]"
    "string_length (handle_of s) = size_of_nat (length (map of_char s :: bytes))" for s
    by (simp_all add: buffer_bytes_def handle_of_def)
  have small: "length (map of_char ''{a}'' :: bytes) < 2 ^ 60" "length (map of_char ''{b}'' :: bytes) < 2 ^ 60"
    by simp_all
  have pos: "encode_bytes (length (map of_char ''{a}'' :: bytes)) \<noteq> 0"
    using unat_encode_bytes [OF small(1)] by (metis add_is_0 unsigned_0 zero_neq_numeral)
  obtain w1 where header: "security_handler_base64_url_encode (buffer_bytes (handle_of ''{a}''))
      (string_length (handle_of ''{a}'')) ?w = Some (MCL_OK, None, w1)" "upcoming w1 = []"
    unfolding bytes security_handler_base64_url_encode_def base64_url_encode_def
      url.encode_with_table_more [OF small(1)]
    using pos by (simp add: memory_allocate_def memory_malloc_def sizeof_string_def)
  obtain pe w2 where payload: "security_handler_base64_url_encode (buffer_bytes (handle_of ''{b}''))
      (string_length (handle_of ''{b}'')) w1 = Some (MCL_OK, Some pe, w2)" "upcoming w2 = []"
    using b64url_calm [OF header(2) small(2), of "[0]"] unfolding bytes by auto
  obtain r w3 where "string_array_initialize 3 w2 = Some (MCL_OK, Some r, w3)"
    using string_array_initialize_calm [OF payload(2)] by auto
  then have "join_with_dot None (Some pe) None w2 = None" by (simp add: join_with_dot_def)
  then show "generate_token no_ssl (\<lambda>d. replicate 32 0) secret_jwt (handle_of ''{a}'') (handle_of ''{b}'') ?w = None"
    using header(1) payload(1)
    by (simp add: generate_token_def get_header_and_payload_encoded_base64_url_def)
qed

end
