(* ===== verification/MCL_Configuration.thy ===== *)
theory MCL_Configuration
  imports MCL_Jwt
begin

text \<open>
  \<^verbatim>\<open>configuration.c\<close> with the limits of \<^verbatim>\<open>definitions.h\<close>: the configuration the agent fills in and the copy the library
  keeps.  The callbacks of the agent are arguments of the operations that call them.
\<close>

section \<open>Constants\<close>

datatype E_MCL_PROXY =
    MCL_PROXY_UNKNOWN | MCL_PROXY_HTTP | MCL_PROXY_HTTP_1_0 | MCL_PROXY_SOCKS4
  | MCL_PROXY_SOCKS5 | MCL_PROXY_SOCKS4A | MCL_PROXY_SOCKS5_HOSTNAME

definition MAXIMUM_HOST_NAME_LENGTH :: mcl_size_t where "MAXIMUM_HOST_NAME_LENGTH = 256"
definition MAXIMUM_PROXY_USER_NAME_LENGTH :: mcl_size_t where "MAXIMUM_PROXY_USER_NAME_LENGTH = 32"
definition MAXIMUM_PROXY_PASSWORD_LENGTH :: mcl_size_t where "MAXIMUM_PROXY_PASSWORD_LENGTH = 32"
definition MAXIMUM_PROXY_DOMAIN_LENGTH :: mcl_size_t where "MAXIMUM_PROXY_DOMAIN_LENGTH = 256"
definition MAXIMUM_USER_AGENT_LENGTH :: mcl_size_t where "MAXIMUM_USER_AGENT_LENGTH = 512"
definition MIN_HTTP_PAYLOAD_SIZE :: mcl_size_t where "MIN_HTTP_PAYLOAD_SIZE = 400"
definition DEFAULT_HTTP_PAYLOAD_SIZE :: mcl_size_t where "DEFAULT_HTTP_PAYLOAD_SIZE = 16384"
definition DEFAULT_HTTP_REQUEST_TIMEOUT :: "32 word" where "DEFAULT_HTTP_REQUEST_TIMEOUT = 300"

section \<open>The configuration of the agent\<close>

record mcl_configuration_t =
  mcl_mindsphere_hostname :: "char list option"
  mcl_mindsphere_port :: "16 word"
  mcl_mindsphere_certificate :: "char list option"
  mcl_proxy_hostname :: "char list option"
  mcl_proxy_port :: "16 word"
  mcl_proxy_type :: E_MCL_PROXY
  mcl_proxy_username :: "char list option"
  mcl_proxy_password :: "char list option"
  mcl_proxy_domain :: "char list option"
  mcl_security_profile :: E_MCL_SECURITY_PROFILE
  mcl_max_http_payload_size :: mcl_size_t
  mcl_http_request_timeout :: "32 word"
  mcl_user_agent :: "char list option"
  mcl_initial_access_token :: "char list option"
  mcl_tenant :: "char list option"
  mcl_store_path :: "char list option"

definition sizeof_mcl_configuration :: mcl_size_t where "sizeof_mcl_configuration = 160"

definition mcl_configuration_initialize ::
    "bool \<Rightarrow> world \<Rightarrow> E_MCL_ERROR_CODE \<times> mcl_configuration_t option \<times> world" where
  "mcl_configuration_initialize given w =
    (if \<not> given then (MCL_TRIGGERED_WITH_NULL, None, w)
     else case memory_allocate sizeof_mcl_configuration w of
        (None, w1) \<Rightarrow> (MCL_OUT_OF_MEMORY, None, w1)
      | (Some a, w1) \<Rightarrow> (MCL_OK, Some
          \<lparr>mcl_mindsphere_hostname = None, mcl_mindsphere_port = 0, mcl_mindsphere_certificate = None,
           mcl_proxy_hostname = None, mcl_proxy_port = 0, mcl_proxy_type = MCL_PROXY_UNKNOWN,
           mcl_proxy_username = None, mcl_proxy_password = None, mcl_proxy_domain = None,
           mcl_security_profile = MCL_SECURITY_SHARED_SECRET,
           mcl_max_http_payload_size = DEFAULT_HTTP_PAYLOAD_SIZE,
           mcl_http_request_timeout = DEFAULT_HTTP_REQUEST_TIMEOUT,
           mcl_user_agent = None, mcl_initial_access_token = None, mcl_tenant = None,
           mcl_store_path = None\<rparr>, w1))"

definition mcl_new_configuration :: "world \<Rightarrow> mcl_configuration_t option \<times> world" where
  "mcl_new_configuration w = snd (mcl_configuration_initialize True w)"

definition mcl_configuration_destroy ::
    "bool \<Rightarrow> mcl_configuration_t option \<Rightarrow> world \<Rightarrow> E_MCL_ERROR_CODE \<times> mcl_configuration_t option \<times> world" where
  "mcl_configuration_destroy given configuration w =
    (if \<not> given then (MCL_TRIGGERED_WITH_NULL, configuration, w)
     else case configuration of
        None \<Rightarrow> (MCL_OK, None, w)
      | Some c \<Rightarrow> (MCL_OK, None, memory_free w))"

section \<open>The copy of the library\<close>

record configuration_t =
  mindsphere_hostname :: "string_t option"
  mindsphere_port :: "16 word"
  mindsphere_certificate :: "string_t option"
  proxy_hostname :: "string_t option"
  proxy_port :: "16 word"
  proxy_type :: E_MCL_PROXY
  proxy_username :: "string_t option"
  proxy_password :: "string_t option"
  proxy_domain :: "string_t option"
  security_profile :: E_MCL_SECURITY_PROFILE
  max_payload_size :: mcl_size_t
  http_request_timeout :: "32 word"
  user_agent :: "string_t option"
  initial_access_token :: "string_t option"
  registration_endpoint :: "string_t option"
  access_token_endpoint :: "string_t option"
  exchange_endpoint :: "string_t option"
  tenant :: "string_t option"
  store_path :: "string_t option"

end
