(* ===== verification/MCL_Exchange.thy ===== *)
theory MCL_Exchange
  imports MCL_Store MCL_Http_Response MCL_Configuration
begin

text \<open>
  The exchange of \<^verbatim>\<open>http_processor.c\<close>: requests are filled with the items of a store, sent, and the items of a
  request that was accepted are removed.  The heap is that of the store; the loops are the code's, over
  the nodes.  What sends a request and gives the response (\<^verbatim>\<open>http_client_send\<close>, which hands it to libcurl)
  is the parameter \<open>client\<close>; \<open>reader\<close> is the callback the application gave for stream data.
\<close>

section \<open>State\<close>

type_synonym http_client = "http_request_t \<Rightarrow> world \<Rightarrow> E_MCL_ERROR_CODE \<times> http_response_t option \<times> world"

record http_processor_t =
  processor_configuration :: configuration_t
  processor_security_handler :: security_handler_t

type_synonym stream_reader = "stream_data_t \<Rightarrow> payload_copy_callback_t"

datatype E_ENDPOINT_URI =
    ENDPOINT_URI_EXCHANGE | ENDPOINT_URI_DOWNLOAD | ENDPOINT_URI_EVENT | ENDPOINT_URI_ACK_EVENT
  | ENDPOINT_URI_ACCESS_TOKEN | ENDPOINT_URI_REGISTER

definition endpoint_indices :: "E_ENDPOINT_URI list" where
  "endpoint_indices = [ENDPOINT_URI_EXCHANGE, ENDPOINT_URI_DOWNLOAD, ENDPOINT_URI_EVENT, ENDPOINT_URI_ACK_EVENT,
    ENDPOINT_URI_ACCESS_TOKEN, ENDPOINT_URI_REGISTER]"

definition endpoint_uri :: "string list" where
  "endpoint_uri =
    [''api/mindconnect/v3/exchange'', ''api/mindconnect/v3/files'', ''api/mindconnect/v3/events'',
     ''api/mindconnect/v3/events/acknowledge'', ''api/agentmanagement/v3/oauth/token'',
     ''api/agentmanagement/v3/register'']"

definition CORRELATION_ID_BYTE_LENGTH :: mcl_size_t where "CORRELATION_ID_BYTE_LENGTH = 16"

definition concatenate_host_and_endpoint ::
    "string_t \<Rightarrow> string_t \<Rightarrow> world \<Rightarrow> (E_MCL_ERROR_CODE \<times> string_t option \<times> world) option" where
  "concatenate_host_and_endpoint host endpoint w = do {
    let uri_length = string_length host + string_length endpoint + 1;
    (code, r, w1) \<leftarrow> string_initialize_new None uri_length w;
    if MCL_OK \<noteq> code then Some (code, r, w1)
    else do {
      s \<leftarrow> r; b \<leftarrow> string_buffer s;
      hb \<leftarrow> string_buffer host; h \<leftarrow> chars_of hb;
      eb \<leftarrow> string_buffer endpoint; e \<leftarrow> chars_of eb;
      (code1, b1) \<leftarrow> string_util_snprintf b (uri_length + 1) (h @ ''/'' @ e);
      let s1 = s\<lparr>string_buffer := Some b1\<rparr>;
      if MCL_OK \<noteq> code1 then (let (gone, w2) = string_destroy (Some s1) w1 in Some (code1, gone, w2))
      else Some (MCL_OK, Some s1, w1)
    }
  }"

text \<open>The identifier that goes with a request: the digits of 16 random bytes, printed one byte after the other.\<close>

fun print_bytes :: "nat \<Rightarrow> bytes \<Rightarrow> char list \<Rightarrow> (E_MCL_ERROR_CODE \<times> char list) option" where
  "print_bytes start [] buffer = Some (MCL_OK, buffer)"
| "print_bytes start (x # xs) buffer = do {
    guard (start \<le> length buffer);
    (code, rest) \<leftarrow> string_util_snprintf (drop start buffer) 3 (hex_digits 2 (unat x));
    let buffer1 = take start buffer @ rest;
    if code \<noteq> MCL_OK then Some (code, buffer1) else print_bytes (start + 2) xs buffer1
  }"

definition generate_correlation_id_string ::
    "random_source \<Rightarrow> world \<Rightarrow> (E_MCL_ERROR_CODE \<times> string_t option \<times> world) option" where
  "generate_correlation_id_string rand w = do {
    (code, random_bytes, w1) \<leftarrow>
      security_generate_random_bytes rand (replicate 16 0) CORRELATION_ID_BYTE_LENGTH w;
    if MCL_OK \<noteq> code then Some (code, None, w1)
    else do {
      (code1, r, w2) \<leftarrow> string_initialize_new None (CORRELATION_ID_BYTE_LENGTH * 2) w1;
      if MCL_OK \<noteq> code1 then Some (code1, r, w2)
      else do {
        s \<leftarrow> r; b \<leftarrow> string_buffer s;
        (code2, b1) \<leftarrow> print_bytes 0 random_bytes b;
        let s1 = s\<lparr>string_buffer := Some b1\<rparr>;
        if MCL_OK \<noteq> code2 then (let (gone, w3) = string_destroy (Some s1) w2 in Some (code2, gone, w3))
        else Some (MCL_OK, Some s1, w2)
      }
    }
  }"

section \<open>Payloads\<close>

definition get_payload_from_buffer :: "char list \<Rightarrow> payload_copy_callback_t" where
  "get_payload_from_buffer source destination n = do {
    d \<leftarrow> string_util_memcpy destination 0 source n;
    Some (d, n)
  }"

definition get_payload_from_file :: "open_file \<Rightarrow> payload_copy_callback_t" where
  "get_payload_from_file f destination n = do {
    let bytes = fst (file_util_fread n f);
    d \<leftarrow> write_at destination 0 bytes;
    Some (d, size_of_nat (length bytes))
  }"

text \<open>The types of the contents and the identifier of an item.\<close>

definition item_meta :: "store_item \<Rightarrow> item_meta_t option" where
  "item_meta i = (case i of
      Time_Series t \<Rightarrow> Some (time_series_meta t)
    | Event_List l \<Rightarrow> Some (event_list_meta l)
    | File f \<Rightarrow> Some (file_meta f)
    | Custom c \<Rightarrow> Some (custom_meta c)
    | Stream s \<Rightarrow> map_option custom_meta (stream_base s)
    | Data_Source_Configuration c \<Rightarrow> Some (dsc_meta c))"

definition exchange_store_data_get_content_info ::
    "store_data_t \<Rightarrow> (string_t \<times> string_t option \<times> string_t) option" where
  "exchange_store_data_get_content_info d = do {
    m \<leftarrow> item_meta (store_item d);
    Some (content_type_value CONTENT_TYPE_META_JSON, meta_content_id m,
      content_type_value
        (if item_type (store_item d) \<in> {STORE_DATA_FILE, STORE_DATA_CUSTOM, STORE_DATA_STREAM}
         then CONTENT_TYPE_APPLICATION_OCTET_STREAM else CONTENT_TYPE_APPLICATION_JSON))
  }"

section \<open>Preparing an item\<close>

text \<open>The payload of three kinds is made; only its characters are kept and the handle is freed.  The others
  have theirs.\<close>

definition prepare_payload ::
    "(world \<Rightarrow> (E_MCL_ERROR_CODE \<times> string_t option \<times> world) option) \<Rightarrow> store_data_t \<Rightarrow> world
      \<Rightarrow> (E_MCL_ERROR_CODE \<times> store_data_t \<times> world) option" where
  "prepare_payload f d w = do {
    (code, payload_string, w1) \<leftarrow> f w;
    if MCL_OK \<noteq> code then
      (let (gone, w2) = string_destroy (store_meta d) w1 in Some (MCL_FAIL, d\<lparr>store_meta := gone\<rparr>, w2))
    else do {
      s \<leftarrow> payload_string;
      Some (MCL_OK, d\<lparr>store_payload_buffer := string_buffer s, store_payload_size := string_length s\<rparr>, memory_free w1)
    }
  }"

definition exchange_prepare_data ::
    "(rat \<Rightarrow> string) \<Rightarrow> store_data_t \<Rightarrow> world \<Rightarrow> (E_MCL_ERROR_CODE \<times> store_data_t \<times> world) option" where
  "exchange_prepare_data other d w = do {
    m \<leftarrow> item_meta (store_item d);
    (code, meta, w1) \<leftarrow> json_from_item_meta other m w;
    let d1 = d\<lparr>store_meta := meta\<rparr>;
    if MCL_OK \<noteq> code then Some (MCL_FAIL, d1, w1)
    else do {
      (code1, d2, w2) \<leftarrow> (case store_item d of
          Time_Series t \<Rightarrow> prepare_payload (json_from_time_series_payload other (time_series_value_sets t)) d1 w1
        | Event_List l \<Rightarrow> prepare_payload (json_from_event_payload other (event_list_events l)) d1 w1
        | File f \<Rightarrow> Some (MCL_OK, d1\<lparr>store_payload_size := file_size f\<rparr>, w1)
        | Custom c \<Rightarrow> Some (MCL_OK, d1\<lparr>store_payload_buffer := custom_buffer c, store_payload_size := custom_size c\<rparr>, w1)
        | Stream s \<Rightarrow> Some (MCL_OK, d1, w1)
        | Data_Source_Configuration c \<Rightarrow> prepare_payload (json_from_data_source_configuration_payload other c) d1 w1);
      if MCL_OK \<noteq> code1 then Some (code1, d2, w2)
      else Some (MCL_OK, store_data_set_state DATA_STATE_PREPARED d2, w2)
    }
  }"
section \<open>Adding an item to a request\<close>

text \<open>A file moves on by what the callback has read from it, which it does exactly when the tuple is complete: what
  follows in \<^verbatim>\<open>http_request_add_tuple\<close> writes into the reserved space only.\<close>

definition move_file :: "mcl_size_t \<Rightarrow> store_item \<Rightarrow> store_item" where
  "move_file n i = (case i of
      File f \<Rightarrow> File (f\<lparr>file_descriptor := map_option (\<lambda>s. snd (file_util_fread n s)) (file_descriptor f)\<rparr>)
    | _ \<Rightarrow> i)"

definition payload_callback :: "store_data_t \<Rightarrow> payload_copy_callback_t option" where
  "payload_callback d = (case store_item d of
      File f \<Rightarrow> map_option get_payload_from_file (file_descriptor f)
    | _ \<Rightarrow> Some (get_payload_from_buffer (case store_payload_buffer d of None \<Rightarrow> [] | Some b \<Rightarrow> b)))"

definition exchange_add_current_data_to_request ::
    "random_source \<Rightarrow> store_data_t \<Rightarrow> http_request_t \<Rightarrow> world
      \<Rightarrow> (E_MCL_ERROR_CODE \<times> store_data_t \<times> http_request_t \<times> world) option" where
  "exchange_add_current_data_to_request rand d r w =
    (if item_type (store_item d) = STORE_DATA_STREAM then Some (MCL_HTTP_REQUEST_NO_MORE_SPACE, d, r, w)
     else do {
       (meta_content_type, meta_content_id, payload_content_type) \<leftarrow> exchange_store_data_get_content_info d;
       meta \<leftarrow> store_meta d;
       copy \<leftarrow> payload_callback d;
       (result, r1, w1) \<leftarrow>
         http_request_add_tuple rand r meta meta_content_type copy (store_payload_size d) payload_content_type w;
       Some (result,
         (if MCL_OK = result
          then store_data_set_state DATA_STATE_WRITTEN (d\<lparr>store_item := move_file (store_payload_size d) (store_item d)\<rparr>)
          else d), r1, w1)
     })"

text \<open>The part of an item that is written now, when the item does not fit as a whole.  The state of the writing is
  kept in the item; the steps are the parts of the function, an error of a step ends it.\<close>

definition new_stream_info :: store_data_stream_info_t where
  "new_stream_info = \<lparr>meta_stream_index = 0, payload_stream_index = 0, tuple_subboundary = None,
    meta_state = -2, payload_state = -1\<rparr>"

type_synonym streaming = "bool \<times> E_MCL_ERROR_CODE \<times> store_data_t \<times> http_request_t \<times> world"

definition set_info :: "store_data_stream_info_t \<Rightarrow> store_data_t \<Rightarrow> store_data_t" where
  "set_info i d = d\<lparr>store_stream_info := Some i\<rparr>"

definition left_meta_size :: "store_data_t \<Rightarrow> mcl_size_t option" where
  "left_meta_size d = do { i \<leftarrow> store_stream_info d; m \<leftarrow> store_meta d; Some (string_length m - meta_stream_index i) }"

definition left_payload_size :: "store_data_t \<Rightarrow> mcl_size_t option" where
  "left_payload_size d = do { i \<leftarrow> store_stream_info d; Some (store_payload_size d - payload_stream_index i) }"

definition stream_start_tuple :: "streaming \<Rightarrow> streaming option" where
  "stream_start_tuple st = (case st of (returned, code, d, r, w) \<Rightarrow> do {
    i \<leftarrow> store_stream_info d;
    if returned \<or> meta_state i \<noteq> -2 then Some st
    else do {
      (result, r1, w1) \<leftarrow> http_request_start_tuple r w;
      if MCL_OK \<noteq> result then Some (True, result, d, r1, w1)
      else Some (False, result, set_info (i\<lparr>meta_state := -1\<rparr>) d, r1, w1)
    }
  })"

definition stream_start_meta :: "random_source \<Rightarrow> string_t \<Rightarrow> streaming \<Rightarrow> streaming option" where
  "stream_start_meta rand content_type st = (case st of (returned, code, d, r, w) \<Rightarrow> do {
    i \<leftarrow> store_stream_info d;
    if returned \<or> meta_state i \<noteq> -1 then Some st
    else do {
      (result, r1, sb, w1) \<leftarrow> http_request_start_tuple_sub_section rand r content_type (tuple_subboundary i) w;
      let i1 = i\<lparr>tuple_subboundary := sb\<rparr>;
      if MCL_OK \<noteq> result then Some (True, result, set_info i1 d, r1, w1)
      else Some (False, result, set_info (i1\<lparr>meta_state := 0\<rparr>) d, r1, w1)
    }
  })"

text \<open>Without space the result is remembered, but the function goes on.\<close>

definition stream_write_meta :: "streaming \<Rightarrow> streaming option" where
  "stream_write_meta st = (case st of (returned, code, d, r, w) \<Rightarrow> do {
    i \<leftarrow> store_stream_info d;
    left \<leftarrow> left_meta_size d;
    if returned \<or> \<not> 0 < left then Some st
    else do {
      let available = http_request_get_available_space_for_raw_data r;
      if \<not> 0 < available then Some (False, MCL_HTTP_REQUEST_NO_MORE_SPACE, d, r, w)
      else do {
        let n = (if left > available then available else left);
        meta \<leftarrow> store_meta d; b \<leftarrow> string_buffer meta;
        (result, r1, actual, w1) \<leftarrow> http_request_add_raw_data r
          (get_payload_from_buffer (drop (unat (meta_stream_index i)) b)) n w;
        if MCL_OK \<noteq> result then Some (True, result, d, r1, w1)
        else Some (False, result, set_info (i\<lparr>meta_stream_index := meta_stream_index i + n\<rparr>) d, r1, w1)
      }
    }
  })"

text \<open>The payload is only begun when all of the meta data are written.\<close>

definition stream_start_payload :: "random_source \<Rightarrow> string_t \<Rightarrow> streaming \<Rightarrow> streaming option" where
  "stream_start_payload rand content_type st = (case st of (returned, code, d, r, w) \<Rightarrow> do {
    i \<leftarrow> store_stream_info d;
    left_meta \<leftarrow> left_meta_size d;
    if returned \<or> left_meta \<noteq> 0 \<or> payload_state i \<noteq> -1 then Some st
    else do {
      (result, r1, sb, w1) \<leftarrow> http_request_start_tuple_sub_section rand r content_type (tuple_subboundary i) w;
      let i1 = i\<lparr>tuple_subboundary := sb\<rparr>;
      if MCL_OK \<noteq> result then Some (True, result, set_info i1 d, r1, w1)
      else Some (False, result, set_info (i1\<lparr>payload_state := 0\<rparr>) d, r1, w1)
    }
  })"

text \<open>The parts of a payload come from the file, from the callback of the application, or from the buffer.\<close>

definition add_payload_part ::
    "stream_reader \<Rightarrow> mcl_size_t \<Rightarrow> mcl_size_t \<Rightarrow> store_data_t \<Rightarrow> http_request_t \<Rightarrow> world
      \<Rightarrow> (E_MCL_ERROR_CODE \<times> store_data_t \<times> http_request_t \<times> world) option" where
  "add_payload_part reader n available d r w = do {
    i \<leftarrow> store_stream_info d;
    (case store_item d of
      File f \<Rightarrow> do {
        s \<leftarrow> file_descriptor f;
        (result, r1, actual, w1) \<leftarrow> http_request_add_raw_data r (get_payload_from_file s) n w;
        Some (result, if MCL_OK = result then d\<lparr>store_item := move_file n (File f)\<rparr> else d, r1, w1)
      }
    | Stream s \<Rightarrow> do {
        (result, r1, actual, w1) \<leftarrow> http_request_add_raw_data r (reader s) available w;
        Some (result,
          if MCL_OK = result \<and> actual = 0
          then set_info (i\<lparr>payload_stream_index := 0\<rparr>) (d\<lparr>store_payload_size := 0\<rparr>) else d, r1, w1)
      }
    | _ \<Rightarrow> do {
        b \<leftarrow> store_payload_buffer d;
        (result, r1, actual, w1) \<leftarrow> http_request_add_raw_data r
          (get_payload_from_buffer (drop (unat (payload_stream_index i)) b)) n w;
        Some (result, d, r1, w1)
      })
  }"

definition stream_write_payload :: "stream_reader \<Rightarrow> streaming \<Rightarrow> streaming option" where
  "stream_write_payload reader st = (case st of (returned, code, d, r, w) \<Rightarrow> do {
    left_meta \<leftarrow> left_meta_size d;
    left \<leftarrow> left_payload_size d;
    if returned \<or> left_meta \<noteq> 0 \<or> \<not> (0 < left \<or> item_type (store_item d) = STORE_DATA_STREAM) then Some st
    else do {
      let available = http_request_get_available_space_for_raw_data r;
      if \<not> 0 < available then Some (False, MCL_HTTP_REQUEST_NO_MORE_SPACE, d, r, w)
      else do {
        let n = (if left > available then available else left);
        (result, d1, r1, w1) \<leftarrow> add_payload_part reader n available d r w;
        i \<leftarrow> store_stream_info d1;
        if MCL_OK \<noteq> result then Some (True, result, d1, r1, w1)
        else Some (False, result, set_info (i\<lparr>payload_stream_index := payload_stream_index i + n\<rparr>) d1, r1, w1)
      }
    }
  })"

definition stream_end_tuple :: "streaming \<Rightarrow> streaming option" where
  "stream_end_tuple st = (case st of (returned, code, d, r, w) \<Rightarrow> do {
    left_meta \<leftarrow> left_meta_size d;
    left \<leftarrow> left_payload_size d;
    if returned \<or> left_meta \<noteq> 0 \<or> left \<noteq> 0 then Some st
    else do {
      i \<leftarrow> store_stream_info d; sb \<leftarrow> tuple_subboundary i;
      (result, r1, w1) \<leftarrow> http_request_end_tuple_sub_section r sb w;
      if MCL_OK \<noteq> result then Some (True, result, d, r1, w1)
      else Some (False, result, store_data_set_state DATA_STATE_WRITTEN d, r1, w1)
    }
  })"

definition exchange_add_current_data_to_request_by_streaming ::
    "random_source \<Rightarrow> stream_reader \<Rightarrow> store_data_t \<Rightarrow> http_request_t \<Rightarrow> world
      \<Rightarrow> (E_MCL_ERROR_CODE \<times> store_data_t \<times> http_request_t \<times> world) option" where
  "exchange_add_current_data_to_request_by_streaming rand reader d r w = do {
    let (granted, w0) = (if store_stream_info d = None then memory_allocate sizeof_stream_info w else (Some 0, w));
    if granted = None then Some (MCL_OUT_OF_MEMORY, d, r, w0)
    else do {
      let d0 = (if store_stream_info d = None then set_info new_stream_info d else d);
      (meta_content_type, meta_content_id, payload_content_type) \<leftarrow> exchange_store_data_get_content_info d0;
      st1 \<leftarrow> stream_start_tuple (False, MCL_OK, d0, r, w0);
      st2 \<leftarrow> stream_start_meta rand meta_content_type st1;
      st3 \<leftarrow> stream_write_meta st2;
      st4 \<leftarrow> stream_start_payload rand payload_content_type st3;
      st5 \<leftarrow> stream_write_payload reader st4;
      (returned, result, d6, r6, w6) \<leftarrow> stream_end_tuple st5;
      Some (result, d6, r6, w6)
    }
  }"

section \<open>Headers and the end of a request\<close>

definition add_authentication_header_to_request ::
    "http_processor_t \<Rightarrow> http_request_t \<Rightarrow> bool \<Rightarrow> world \<Rightarrow> (E_MCL_ERROR_CODE \<times> http_request_t \<times> world) option" where
  "add_authentication_header_to_request p r with_authentication w =
    (if \<not> with_authentication then Some (MCL_OK, r, w)
     else do {
       (code, bearer, w1) \<leftarrow> string_initialize_static (Some (cstring ''Bearer '')) 0 w;
       if MCL_OK \<noteq> code then Some (code, r, w1)
       else do {
         s \<leftarrow> bearer;
         token \<leftarrow> access_token (processor_security_handler p);
         (code1, jwt_string, w2) \<leftarrow> string_concatenate s token w1;
         let w3 = snd (string_destroy bearer w2);
         if MCL_OK \<noteq> code1 then Some (code1, r, w3)
         else do {
           j \<leftarrow> jwt_string;
           (code2, r1, w4) \<leftarrow> http_request_add_header r (http_header_name HTTP_HEADER_AUTHORIZATION) j w3;
           let w5 = snd (string_destroy jwt_string w4);
           if MCL_OK \<noteq> code2 then Some (MCL_HTTP_REQUEST_FINALIZE_FAILED, r1, w5)
           else Some (MCL_OK, r1, w5)
         }
       }
     })"

definition exchange_initialize_http_request_headers ::
    "http_processor_t \<Rightarrow> http_request_t \<Rightarrow> bool \<Rightarrow> world \<Rightarrow> (E_MCL_ERROR_CODE \<times> http_request_t \<times> world) option" where
  "exchange_initialize_http_request_headers p r with_authentication w = do {
    (result, r1, w1) \<leftarrow> http_request_add_header r (http_header_name HTTP_HEADER_CONTENT_TYPE)
      (content_type_value CONTENT_TYPE_MULTIPART_MIXED) w;
    if MCL_OK \<noteq> result then Some (result, r1, w1)
    else do {
      (result1, r2, w2) \<leftarrow> http_request_add_header r1 (http_header_name HTTP_HEADER_ACCEPT)
        (content_type_value CONTENT_TYPE_APPLICATION_JSON) w1;
      if MCL_OK \<noteq> result1 then Some (result1, r2, w2)
      else do {
        (result2, r3, w3) \<leftarrow> add_authentication_header_to_request p r2 with_authentication w2;
        Some (if MCL_OK \<noteq> result2 then MCL_HTTP_REQUEST_FINALIZE_FAILED else result1, r3, w3)
      }
    }
  }"

definition exchange_finalize_http_request ::
    "http_processor_t \<Rightarrow> http_request_t \<Rightarrow> bool \<Rightarrow> world \<Rightarrow> (E_MCL_ERROR_CODE \<times> http_request_t \<times> world) option" where
  "exchange_finalize_http_request p r with_authentication w = do {
    (result, r1, w1) \<leftarrow> http_request_finalize r w;
    if MCL_OK \<noteq> result then Some (result, r1, w1)
    else do {
      (result1, r2, w2) \<leftarrow> add_authentication_header_to_request p r1 with_authentication w1;
      Some (if MCL_OK \<noteq> result1 then MCL_HTTP_REQUEST_FINALIZE_FAILED else MCL_OK, r2, w2)
    }
  }"

section \<open>Filling a request\<close>

text \<open>What the loop does with the item of a node: it is prepared, then added as a whole or a part of it.  The
  loop goes on to the next node or stays on this one, having added something or not, ends, or the
  function returns.\<close>

datatype fill_step = Next_Node bool | Same_Node bool | End_Loop | Return_With E_MCL_ERROR_CODE

definition exchange_add_item ::
    "random_source \<Rightarrow> stream_reader \<Rightarrow> (rat \<Rightarrow> string) \<Rightarrow> bool \<Rightarrow> store_data_t \<Rightarrow> http_request_t \<Rightarrow> world
      \<Rightarrow> (fill_step \<times> store_data_t \<times> http_request_t \<times> world) option" where
  "exchange_add_item rand reader other streamable d r w = do {
    (code, d1, w1) \<leftarrow>
      (if store_data_get_state d = DATA_STATE_INITIAL then exchange_prepare_data other d w else Some (MCL_OK, d, w));
    if MCL_OK \<noteq> code then Some (Return_With MCL_FAIL, d1, r, w1)
    else if store_data_get_state d1 \<notin> {DATA_STATE_PREPARED, DATA_STATE_STREAMING}
    then Some (Next_Node False, d1, r, w1)
    else do {
      (add_result, d2, r2, w2) \<leftarrow>
        (if store_data_get_state d1 = DATA_STATE_PREPARED
         then exchange_add_current_data_to_request rand d1 r w1
         else exchange_add_current_data_to_request_by_streaming rand reader d1 r w1);
      if add_result = MCL_OK \<or> add_result = MCL_PARTIALLY_WRITTEN then
        Some (if store_data_get_state d2 \<noteq> DATA_STATE_STREAMING then Next_Node True else Same_Node True, d2, r2, w2)
      else if add_result = MCL_HTTP_REQUEST_NO_MORE_SPACE then
        (if store_data_get_state d2 = DATA_STATE_STREAMING
         then Some (Return_With MCL_EXCHANGE_STREAMING_IS_ACTIVE, d2, r2, w2)
         else if streamable then Some (Same_Node False, store_data_set_state DATA_STATE_STREAMING d2, r2, w2)
         else Some (Next_Node False, d2, r2, w2))
      else Some (End_Loop, d2, r2, w2)
    }
  }"

text \<open>The loop over the nodes.  At the end of the list it starts again at the head when something was added since
  it was there last.\<close>

partial_function (option) fill_loop ::
    "(store_data_t \<Rightarrow> http_request_t \<Rightarrow> world \<Rightarrow> (fill_step \<times> store_data_t \<times> http_request_t \<times> world) option)
      \<Rightarrow> addr option \<Rightarrow> addr option \<Rightarrow> bool \<Rightarrow> bool \<Rightarrow> store_heap \<Rightarrow> http_request_t \<Rightarrow> world
      \<Rightarrow> (E_MCL_ERROR_CODE option \<times> bool \<times> store_heap \<times> http_request_t \<times> world) option" where
  "fill_loop add_item head current_list_node added_any added_any_at_all h r w =
    (case current_list_node of
      None \<Rightarrow>
        if \<not> added_any then Some (None, added_any_at_all, h, r, w)
        else fill_loop add_item head head False added_any_at_all h r w
    | Some a \<Rightarrow> do {
        n \<leftarrow> h a;
        d \<leftarrow> node_data n;
        (step1, d1, r1, w1) \<leftarrow> add_item d r w;
        (case step1 of
          Return_With code \<Rightarrow> Some (Some code, added_any_at_all, h(a \<mapsto> n\<lparr>node_data := Some d1\<rparr>), r1, w1)
        | End_Loop \<Rightarrow> Some (None, added_any_at_all, h(a \<mapsto> n\<lparr>node_data := Some d1\<rparr>), r1, w1)
        | Same_Node added \<Rightarrow> fill_loop add_item head (Some a)
            (added_any \<or> added) (added_any_at_all \<or> added) (h(a \<mapsto> n\<lparr>node_data := Some d1\<rparr>)) r1 w1
        | Next_Node added \<Rightarrow> fill_loop add_item head (node_next n)
            (added_any \<or> added) (added_any_at_all \<or> added) (h(a \<mapsto> n\<lparr>node_data := Some d1\<rparr>)) r1 w1)
      })"
text \<open>The loop begins at the cursor of the list of high priority.  Without any item in the request the error of the
  item is not reported, but that it does not fit.\<close>

definition exchange_fill_http_request ::
    "random_source \<Rightarrow> stream_reader \<Rightarrow> (rat \<Rightarrow> string) \<Rightarrow> http_processor_t \<Rightarrow> store_t \<Rightarrow> store_heap
      \<Rightarrow> http_request_t \<Rightarrow> world \<Rightarrow> (E_MCL_ERROR_CODE \<times> store_heap \<times> http_request_t \<times> world) option" where
  "exchange_fill_http_request rand reader other p store h r w = do {
    current_list \<leftarrow> store_high store;
    (returned, added_any_at_all, h1, r1, w1) \<leftarrow>
      fill_loop (exchange_add_item rand reader other (store_streamable store)) (list_head current_list)
        (list_current current_list) False False h r w;
    (case returned of
      Some code \<Rightarrow> Some (code, h1, r1, w1)
    | None \<Rightarrow>
        if \<not> added_any_at_all then Some (MCL_STORE_ITEM_EXCEEDS_MAX_HTTP_REQUEST_SIZE, h1, r1, w1)
        else do {
          (code, r2, w2) \<leftarrow> exchange_finalize_http_request p r1 False w1;
          Some (code, h1, r2, w2)
        })
  }"

section \<open>After sending\<close>

definition exchange_update_store_data_state :: "bool \<Rightarrow> store_data_t \<Rightarrow> store_data_t" where
  "exchange_update_store_data_state send_operation_successful d =
    (if store_data_get_state d = DATA_STATE_WRITTEN
     then store_data_set_state (if send_operation_successful then DATA_STATE_SENT else DATA_STATE_PREPARED) d
     else d)"

partial_function (option) update_states ::
    "bool \<Rightarrow> list_t \<Rightarrow> store_heap \<Rightarrow> (list_t \<times> store_heap) option" where
  "update_states successful l h = do {
    (current_node, l1) \<leftarrow> list_next l h;
    (case current_node of
      None \<Rightarrow> Some (l1, h)
    | Some a \<Rightarrow> do {
        n \<leftarrow> h a;
        d \<leftarrow> node_data n;
        update_states successful l1 (h(a \<mapsto> n\<lparr>node_data := Some (exchange_update_store_data_state successful d)\<rparr>))
      })
  }"

definition exchange_update_store_state :: "bool \<Rightarrow> store_t \<Rightarrow> store_heap \<Rightarrow> (store_t \<times> store_heap) option" where
  "exchange_update_store_state successful store h = do {
    high \<leftarrow> list_reset (store_high store);
    low \<leftarrow> list_reset (store_low store);
    (high1, h1) \<leftarrow> update_states successful high h;
    (low1, h2) \<leftarrow> update_states successful low h1;
    Some (store\<lparr>store_high := Some high1, store_low := Some low1\<rparr>, h2)
  }"

partial_function (option) clear_sent ::
    "list_t \<Rightarrow> store_heap \<Rightarrow> world \<Rightarrow> (list_t \<times> store_heap \<times> world) option" where
  "clear_sent l h w = do {
    (current_node, l1) \<leftarrow> list_next l h;
    (case current_node of
      None \<Rightarrow> Some (l1, h, w)
    | Some a \<Rightarrow> do {
        n \<leftarrow> h a;
        d \<leftarrow> node_data n;
        (if store_data_get_state d = DATA_STATE_SENT then do {
           (code, l2, h2, w2) \<leftarrow> store_data_remove l1 a h w;
           clear_sent l2 h2 w2
         }
         else clear_sent l1 h w)
      })
  }"

definition exchange_clear_sent_data_from_store ::
    "store_t \<Rightarrow> store_heap \<Rightarrow> world \<Rightarrow> (store_t \<times> store_heap \<times> world) option" where
  "exchange_clear_sent_data_from_store store h w = do {
    high \<leftarrow> store_high store;
    low \<leftarrow> store_low store;
    (high1, h1, w1) \<leftarrow> clear_sent high h w;
    (low1, h2, w2) \<leftarrow> clear_sent low h1 w1;
    Some (store\<lparr>store_high := Some high1, store_low := Some low1\<rparr>, h2, w2)
  }"

definition exchange_evaluate_response ::
    "store_t \<Rightarrow> E_MCL_ERROR_CODE \<Rightarrow> http_response_t option \<Rightarrow> store_heap \<Rightarrow> world
      \<Rightarrow> (E_MCL_ERROR_CODE \<times> store_t \<times> store_heap \<times> world) option" where
  "exchange_evaluate_response store send_result response h w = do {
    (result, w1) \<leftarrow>
      (if MCL_OK \<noteq> send_result then Some (send_result, w)
       else case response of
           None \<Rightarrow> Some (MCL_FAIL, w)
         | Some a \<Rightarrow> do {
             (gone, w1) \<leftarrow> http_response_destroy (Some a) w;
             Some (if response_result_code a = MCL_HTTP_RESULT_CODE_SUCCESS then MCL_OK
               else evaluate_response_codes a, w1)
           });
    (store1, h1) \<leftarrow> exchange_update_store_state (MCL_OK = result) store h;
    if MCL_OK = result then do {
      (store2, h2, w2) \<leftarrow> exchange_clear_sent_data_from_store store1 h1 w1;
      Some (result, store2, h2, w2)
    }
    else Some (result, store1, h1, w1)
  }"

section \<open>The exchange\<close>

text \<open>A round makes a request, fills it, sends it and evaluates the response.  It says whether the loop may go on;
  the loop does when items are left.\<close>

definition prepare_request ::
    "random_source \<Rightarrow> stream_reader \<Rightarrow> (rat \<Rightarrow> string) \<Rightarrow> http_processor_t \<Rightarrow> store_t \<Rightarrow> store_heap \<Rightarrow> http_request_t
      \<Rightarrow> world \<Rightarrow> (E_MCL_ERROR_CODE \<times> string_t option \<times> store_heap \<times> http_request_t \<times> world) option" where
  "prepare_request rand reader other p store h r w = do {
    (result, h1, r1, w1) \<leftarrow> exchange_fill_http_request rand reader other p store h r w;
    if MCL_OK \<noteq> result then Some (result, None, h1, r1, w1)
    else do {
      (result1, correlation_id, w2) \<leftarrow> generate_correlation_id_string rand w1;
      if MCL_OK \<noteq> result1 then Some (result1, correlation_id, h1, r1, w2)
      else do {
        c \<leftarrow> correlation_id;
        (result2, r2, w3) \<leftarrow> http_request_add_header r1 (http_header_name HTTP_HEADER_CORRELATION_ID) c w2;
        Some (result2, correlation_id, h1, r2, w3)
      }
    }
  }"

definition exchange_round ::
    "random_source \<Rightarrow> stream_reader \<Rightarrow> (rat \<Rightarrow> string) \<Rightarrow> http_client \<Rightarrow> http_processor_t \<Rightarrow> store_t \<Rightarrow> store_heap
      \<Rightarrow> world \<Rightarrow> (E_MCL_ERROR_CODE \<times> store_t \<times> store_heap \<times> world) option" where
  "exchange_round rand reader other client p store h w = do {
    uri \<leftarrow> exchange_endpoint (processor_configuration p);
    agent \<leftarrow> user_agent (processor_configuration p);
    (result, request, w1) \<leftarrow> http_request_initialize rand MCL_HTTP_POST uri 3 200 True agent
      (max_payload_size (processor_configuration p)) w;
    if MCL_OK \<noteq> result then Some (result, store, h, w1)
    else do {
      r \<leftarrow> request;
      (result1, r1, w2) \<leftarrow> exchange_initialize_http_request_headers p r True w1;
      if MCL_OK \<noteq> result1 then do {
        (gone, w3) \<leftarrow> http_request_destroy (Some r1) w2;
        Some (result1, store, h, w3)
      }
      else do {
        (result2, correlation_id, h1, r2, w3) \<leftarrow> prepare_request rand reader other p store h r1 w2;
        if MCL_OK \<noteq> result2 then do {
          (gone, w5) \<leftarrow> http_request_destroy (Some r2) (snd (string_destroy correlation_id w3));
          Some (result2, store, h1, w5)
        }
        else do {
          let (send_result, response, w4) = client r2 w3;
          (gone, w5) \<leftarrow> http_request_destroy (Some r2) w4;
          (result3, store1, h2, w6) \<leftarrow> exchange_evaluate_response store send_result response h1 w5;
          Some (result3, store1, h2, snd (string_destroy correlation_id w6))
        }
      }
    }
  }"

partial_function (option) exchange_loop ::
    "(store_t \<Rightarrow> store_heap \<Rightarrow> world \<Rightarrow> (E_MCL_ERROR_CODE \<times> store_t \<times> store_heap \<times> world) option)
      \<Rightarrow> store_t \<Rightarrow> store_heap \<Rightarrow> world \<Rightarrow> (E_MCL_ERROR_CODE \<times> store_t \<times> store_heap \<times> world) option" where
  "exchange_loop send_round store h w = do {
    (result, store1, h1, w1) \<leftarrow> send_round store h w;
    if MCL_OK \<noteq> result then Some (result, store1, h1, w1)
    else do {
      left \<leftarrow> store_get_data_count store1;
      if 0 < left then exchange_loop send_round store1 h1 w1 else Some (result, store1, h1, w1)
    }
  }"

definition http_processor_exchange ::
    "random_source \<Rightarrow> stream_reader \<Rightarrow> (rat \<Rightarrow> string) \<Rightarrow> http_client \<Rightarrow> http_processor_t \<Rightarrow> store_t \<Rightarrow> store_heap
      \<Rightarrow> world \<Rightarrow> (E_MCL_ERROR_CODE \<times> store_t \<times> store_heap \<times> world) option" where
  "http_processor_exchange rand reader other client p store h w = do {
    count \<leftarrow> store_get_data_count store;
    if \<not> 0 < count then Some (MCL_STORE_IS_EMPTY, store, h, w)
    else exchange_loop (exchange_round rand reader other client p) store h w
  }"

text \<open>Sending as a stream is not part of this build.\<close>

definition http_processor_stream :: "http_processor_t \<Rightarrow> store_t \<Rightarrow> E_MCL_ERROR_CODE" where
  "http_processor_stream p store = MCL_OPERATION_IS_NOT_SUPPORTED"

section \<open>The states of the items after sending\<close>

text \<open>The items of a store, without regard to the blocks that are still to come.\<close>

definition store_contents :: "store_t \<Rightarrow> store_heap \<Rightarrow> (addr \<times> store_data_t) list \<Rightarrow> bool" where
  "store_contents s h ds \<longleftrightarrow> (\<exists>high low. store_high s = Some high \<and> store_low s = Some low
    \<and> represents high h [] (entries ds) \<and> represents low h [] [] \<and> \<not> store_streamable s
    \<and> (\<forall>d \<in> snd ` set ds. data_ok d))"

lemma store_holds_contents: "store_holds s h w ds \<longleftrightarrow> store_contents s h ds \<and> heap_fresh h w"
  by (auto simp: store_holds_def store_contents_def)

lemma store_contents_empty: "store_contents empty_store h []"
  by (simp add: store_contents_def empty_store_def no_entries_def represents_def)

definition on_items :: "('d \<Rightarrow> 'd) \<Rightarrow> (addr \<times> 'd) list \<Rightarrow> (addr \<times> 'd) list" where
  "on_items f ds = map (\<lambda>(a, d). (a, f d)) ds"

lemma on_items_simps [simp]:
  "on_items f [] = []" "on_items f ((a, d) # ds) = (a, f d) # on_items f ds"
  "map fst (on_items f ds) = map fst ds" "snd ` set (on_items f ds) = f ` snd ` set ds"
  by (auto simp: on_items_def image_image case_prod_unfold)

text \<open>Changing the data of a node.\<close>

definition put :: "addr \<Rightarrow> 'd option \<Rightarrow> 'd entry list \<Rightarrow> 'd entry list" where
  "put a y es = map (\<lambda>e. if fst e = a then (a, y) else e) es"

lemma put_simps [simp]:
  "put a y [] = []" "put a y (e # es) = (if fst e = a then (a, y) else e) # put a y es"
  "put a y (es @ fs) = put a y es @ put a y fs" "length (put a y es) = length es"
  by (simp_all add: put_def)

lemma map_fst_put [simp]: "map fst (put a y es) = map fst es"
  by (simp add: put_def comp_def if_distrib cong: if_cong)

lemma first_of_put [simp]: "first_of (put a y es) p = first_of es p"
  by (cases es) auto

lemma last_of_put [simp]: "last_of p (put a y es) = last_of p es"
  by (induction es arbitrary: p) auto

lemma put_other: "a \<notin> fst ` set es \<Longrightarrow> put a y es = es"
  by (induction es) auto

lemma linked_put: "linked h p es q \<Longrightarrow> h a = Some n \<Longrightarrow> linked (h(a \<mapsto> n\<lparr>node_data := y\<rparr>)) p (put a y es) q"
  by (induction es arbitrary: p) auto

lemma represents_put:
  assumes "represents l h us vs" "h a = Some n"
  shows "represents l (h(a \<mapsto> n\<lparr>node_data := y\<rparr>)) (put a y us) (put a y vs)"
proof (rule representsI)
  show "linked (h(a \<mapsto> n\<lparr>node_data := y\<rparr>)) None (put a y us @ put a y vs) None"
    using linked_put [OF representsD(1) [OF assms(1)] assms(2), of y] by simp
qed (use representsD [OF assms(1)] in simp_all)

lemma represents_distinct: "represents l h us vs \<Longrightarrow> distinct (map fst (us @ vs))"
  by (rule representsD)

lemma represents_node:
  "represents l h us ((a, x) # vs) \<Longrightarrow> \<exists>n. h a = Some n \<and> node_data n = x"
  by (auto simp: represents_def)

lemma update_states_runs:
  "represents l h us (entries ds) \<Longrightarrow> \<exists>l' h'. update_states ok l h = Some (l', h')
    \<and> represents l' h' [] (us @ entries (on_items (exchange_update_store_data_state ok) ds))
    \<and> (\<forall>a. h' a = None \<longleftrightarrow> h a = None)"
proof (induction ds arbitrary: l h us)
  case Nil
  then obtain l1 where "list_next l h = Some (None, l1)" "represents l1 h [] us"
    using list_next_end [of l h us] by auto
  then show ?case by (subst update_states.simps) simp
next
  case (Cons ad ds)
  obtain a d where ad: "ad = (a, d)" by (cases ad)
  let ?d = "exchange_update_store_data_state ok d"
  have rep: "represents l h us ((a, Some d) # entries ds)" using Cons.prems ad by simp
  obtain n where n: "h a = Some n" "node_data n = Some d" using represents_node [OF rep] by blast
  obtain l1 where l1: "list_next l h = Some (Some a, l1)" "represents l1 h (us @ [(a, Some d)]) (entries ds)"
    using list_next_ahead [OF rep] by auto
  define h1 where "h1 = h(a \<mapsto> n\<lparr>node_data := Some ?d\<rparr>)"
  have "represents l1 h1 (us @ [(a, Some ?d)]) (entries ds)"
    unfolding h1_def using represents_put [OF l1(2) n(1), of "Some ?d"] represents_distinct [OF rep] by (simp add: put_other)
  from Cons.IH [OF this] obtain l' h' where run: "update_states ok l1 h1 = Some (l', h')"
    "represents l' h' [] ((us @ [(a, Some ?d)]) @ entries (on_items (exchange_update_store_data_state ok) ds))"
    "\<forall>a. h' a = None \<longleftrightarrow> h1 a = None" by blast
  have "update_states ok l h = Some (l', h')"
    using l1(1) n run(1) by (subst update_states.simps) (simp add: h1_def)
  moreover have "h' b = None \<longleftrightarrow> h b = None" for b using run(3) n(1) by (simp add: h1_def)
  ultimately show ?case using run(2) ad by auto
qed

lemma data_ok_update: "data_ok d \<Longrightarrow> data_ok (exchange_update_store_data_state ok d)"
  by (auto simp: data_ok_def exchange_update_store_data_state_def store_data_set_state_def store_data_get_state_def)

lemma exchange_update_store_state_runs:
  assumes "store_contents s h ds"
  obtains s' h' where "exchange_update_store_state ok s h = Some (s', h')"
    "store_contents s' h' (on_items (exchange_update_store_data_state ok) ds)" "\<And>a. h' a = None \<longleftrightarrow> h a = None"
proof -
  obtain high low where s: "store_high s = Some high" "store_low s = Some low"
      "represents high h [] (entries ds)" "represents low h [] []" "\<not> store_streamable s" "\<forall>d \<in> snd ` set ds. data_ok d"
    using assms unfolding store_contents_def by blast
  obtain high1 where r1: "list_reset (Some high) = Some high1" "represents high1 h [] (entries ds)"
    using list_reset_represents [OF s(3)] by auto
  obtain low1 where r2: "list_reset (Some low) = Some low1" "represents low1 h [] []"
    using list_reset_represents [OF s(4)] by auto
  obtain high2 h1 where u1: "update_states ok high1 h = Some (high2, h1)"
    "represents high2 h1 [] (entries (on_items (exchange_update_store_data_state ok) ds))" "\<forall>a. h1 a = None \<longleftrightarrow> h a = None"
    using update_states_runs [where us = "[]", simplified, OF r1(2), of ok] by auto
  have low1: "represents low1 h1 [] (entries [])" using represents_other_heap [OF r2(2)] by simp
  obtain low2 h2 where u2: "update_states ok low1 h1 = Some (low2, h2)" "represents low2 h2 [] []" "h2 = h1"
    using update_states_runs [OF low1, of ok] list_next_end [OF low1 [simplified]]
    by (force simp: update_states.simps [of ok low1])
  show thesis
    by (rule that [of "s\<lparr>store_high := Some high2, store_low := Some low2\<rparr>" h2])
      (use s r1 r2 u1 u2 data_ok_update in \<open>auto simp: exchange_update_store_state_def store_contents_def\<close>)
qed
section \<open>Removing what was sent\<close>

definition is_sent :: "store_data_t \<Rightarrow> bool" where
  "is_sent d \<longleftrightarrow> store_state d = DATA_STATE_SENT"

text \<open>What the items of a store that are given back take.\<close>

definition nodes_blocks :: "(addr \<times> store_data_t) list \<Rightarrow> int" where
  "nodes_blocks ds = (\<Sum>d\<leftarrow>map snd ds. 1 + data_blocks d)"

lemma nodes_blocks_simps [simp]:
  "nodes_blocks [] = 0" "nodes_blocks ((a, d) # ds) = 1 + data_blocks d + nodes_blocks ds"
  "nodes_blocks (ds @ es) = nodes_blocks ds + nodes_blocks es"
  by (simp_all add: nodes_blocks_def)

lemma store_blocks_items: "store_blocks ds = 3 + nodes_blocks ds"
  by (simp add: store_blocks_def nodes_blocks_def)

lemma store_data_remove_visited:
  assumes "represents l h (entries us @ [(a, Some d)]) vs" "data_ok d"
  obtains l' h' w' where "store_data_remove l a h w = Some (MCL_OK, l', h', w')" "represents l' h' (entries us) vs"
    "\<And>x. h' x = None \<longleftrightarrow> h x = None \<or> x = a"
    "live w' = live w - 1 - data_blocks d" "upcoming w' = upcoming w" "fresh w' = fresh w"
proof -
  obtain n where n: "h a = Some n" "node_data n = Some d"
    using assms(1) by (auto simp: represents_def)
  obtain l' h' where r: "list_remove l a h w = Some (MCL_OK, l', h', memory_free w)" "represents l' h' (entries us) vs"
    "\<And>x. h' x = None \<longleftrightarrow> h x = None \<or> x = a"
    by (rule list_remove_visited [of l h "entries us" a "Some d" "[]" vs w]) (use assms(1) in auto)
  show thesis
    by (rule that [of l' h' "store_list_destroy_callback d (memory_free w)", OF _ r(2,3)])
      (use n r(1) live_store_list_destroy_callback [OF assms(2)]
        in \<open>auto simp: store_data_remove_def list_remove_with_content_def\<close>)
qed

lemma clear_sent_runs:
  "represents l h (entries us) (entries ds) \<Longrightarrow> \<forall>d \<in> snd ` set ds. data_ok d \<Longrightarrow>
    \<exists>l' h' w'. clear_sent l h w = Some (l', h', w')
      \<and> represents l' h' [] (entries (us @ filter (\<lambda>(a, d). \<not> is_sent d) ds))
      \<and> (\<forall>a. h a = None \<longrightarrow> h' a = None) \<and> upcoming w' = upcoming w \<and> fresh w' = fresh w
      \<and> live w' = live w - nodes_blocks (filter (\<lambda>(a, d). is_sent d) ds)"
proof (induction ds arbitrary: l h us w)
  case Nil
  then obtain l1 where "list_next l h = Some (None, l1)" "represents l1 h [] (entries us)"
    using list_next_end [of l h "entries us"] by auto
  then show ?case by (subst clear_sent.simps) simp
next
  case (Cons ad ds)
  obtain a d where ad: "ad = (a, d)" by (cases ad)
  have rep: "represents l h (entries us) ((a, Some d) # entries ds)" using Cons.prems ad by simp
  have ok: "data_ok d" "\<forall>d \<in> snd ` set ds. data_ok d" using Cons.prems ad by auto
  obtain n where n: "h a = Some n" "node_data n = Some d" using represents_node [OF rep] by blast
  obtain l1 where l1: "list_next l h = Some (Some a, l1)" "represents l1 h (entries us @ [(a, Some d)]) (entries ds)"
    using list_next_ahead [OF rep] by auto
  show ?case
  proof (cases "is_sent d")
    case True
    obtain l2 h2 w2 where r: "store_data_remove l1 a h w = Some (MCL_OK, l2, h2, w2)" "represents l2 h2 (entries us) (entries ds)"
      "\<And>x. h2 x = None \<longleftrightarrow> h x = None \<or> x = a"
      "live w2 = live w - 1 - data_blocks d" "upcoming w2 = upcoming w" "fresh w2 = fresh w"
      by (rule store_data_remove_visited [OF l1(2) ok(1), of w]) blast
    have step: "clear_sent l h w = clear_sent l2 h2 w2"
      using l1(1) n r(1) True by (subst clear_sent.simps) (simp add: is_sent_def store_data_get_state_def)
    show ?thesis
      using Cons.IH [OF r(2) ok(2), of w2] r(3-6) True ad unfolding step by auto
  next
    case False
    have step: "clear_sent l h w = clear_sent l1 h w"
      using l1(1) n False by (subst clear_sent.simps) (simp add: is_sent_def store_data_get_state_def)
    have "represents l1 h (entries (us @ [(a, d)])) (entries ds)" using l1(2) by simp
    from Cons.IH [OF this ok(2), of w] show ?thesis using False ad unfolding step by auto
  qed
qed

lemma represents_empty_list: "represents l h [] [] \<Longrightarrow> l = no_entries"
  by (simp add: represents_def no_entries_def)

lemma clear_sent_empty: "clear_sent no_entries h w = Some (no_entries, h, w)"
  by (subst clear_sent.simps) (simp add: list_next_def no_entries_def)

lemma exchange_clear_sent_runs:
  assumes "store_contents s h ds"
  obtains s' h' w' where "exchange_clear_sent_data_from_store s h w = Some (s', h', w')"
    "store_contents s' h' (filter (\<lambda>(a, d). \<not> is_sent d) ds)" "\<And>a. h a = None \<Longrightarrow> h' a = None"
    "live w' = live w - nodes_blocks (filter (\<lambda>(a, d). is_sent d) ds)" "upcoming w' = upcoming w" "fresh w' = fresh w"
proof -
  obtain high low where s: "store_high s = Some high" "store_low s = Some low"
      "represents high h [] (entries ds)" "represents low h [] []" "\<not> store_streamable s" "\<forall>d \<in> snd ` set ds. data_ok d"
    using assms unfolding store_contents_def by blast
  have high: "represents high h (entries []) (entries ds)" using s(3) by simp
  obtain high1 h1 w1 where c: "clear_sent high h w = Some (high1, h1, w1)"
    "represents high1 h1 [] (entries (filter (\<lambda>(a, d). \<not> is_sent d) ds))"
    "\<forall>a. h a = None \<longrightarrow> h1 a = None" "upcoming w1 = upcoming w" "fresh w1 = fresh w"
    "live w1 = live w - nodes_blocks (filter (\<lambda>(a, d). is_sent d) ds)"
    using clear_sent_runs [OF high s(6), of w] by auto
  have low: "low = no_entries" "represents low h1 [] []"
    using represents_empty_list [OF s(4)] represents_other_heap [OF s(4)] by auto
  show thesis
    by (rule that [of "s\<lparr>store_high := Some high1, store_low := Some low\<rparr>" h1 w1])
      (use s c low clear_sent_empty in \<open>auto simp: exchange_clear_sent_data_from_store_def store_contents_def\<close>)
qed
section \<open>Evaluating the response\<close>

text \<open>Whether the server has accepted what was sent.\<close>

definition accepted :: "E_MCL_ERROR_CODE \<Rightarrow> http_response_t option \<Rightarrow> bool" where
  "accepted send_result response \<longleftrightarrow> send_result = MCL_OK
    \<and> (\<exists>r. response = Some r \<and> response_result_code r = MCL_HTTP_RESULT_CODE_SUCCESS)"

text \<open>The items that stay: what was written or sent goes when it is accepted, and is to be written again
  otherwise.\<close>

definition leaves :: "store_data_t \<Rightarrow> bool" where
  "leaves d \<longleftrightarrow> store_state d \<in> {DATA_STATE_WRITTEN, DATA_STATE_SENT}"

definition after_sending :: "bool \<Rightarrow> (addr \<times> store_data_t) list \<Rightarrow> (addr \<times> store_data_t) list" where
  "after_sending ok ds = (if ok then filter (\<lambda>(a, d). \<not> leaves d) ds
    else on_items (exchange_update_store_data_state False) ds)"

lemma is_sent_update: "is_sent (exchange_update_store_data_state True d) \<longleftrightarrow> leaves d"
  by (simp add: is_sent_def leaves_def exchange_update_store_data_state_def store_data_set_state_def
      store_data_get_state_def)

lemma update_keeps: "\<not> leaves d \<Longrightarrow> exchange_update_store_data_state ok d = d"
  by (simp add: leaves_def exchange_update_store_data_state_def store_data_get_state_def)

lemma data_blocks_update [simp]: "data_blocks (exchange_update_store_data_state ok d) = data_blocks d"
  by (simp add: data_blocks_def exchange_update_store_data_state_def store_data_set_state_def owns_payload_def)

lemma nodes_blocks_update [simp]: "nodes_blocks (on_items (exchange_update_store_data_state ok) ds) = nodes_blocks ds"
  by (induction ds) auto

lemma sent_leaves: "is_sent d \<Longrightarrow> leaves d"
  by (simp add: is_sent_def leaves_def)

lemma filter_updated:
  "filter (\<lambda>(a, d). \<not> is_sent d) (on_items (exchange_update_store_data_state True) ds) = filter (\<lambda>(a, d). \<not> leaves d) ds"
  "nodes_blocks (filter (\<lambda>(a, d). is_sent d) (on_items (exchange_update_store_data_state True) ds))
    = nodes_blocks (filter (\<lambda>(a, d). leaves d) ds)"
  by (induction ds) (auto simp: is_sent_update update_keeps dest: sent_leaves)

lemma nodes_blocks_split: "nodes_blocks (filter P ds) + nodes_blocks (filter (\<lambda>x. \<not> P x) ds) = nodes_blocks ds"
  by (induction ds) auto

lemma response_codes_not_ok:
  "response_result_code r \<noteq> MCL_HTTP_RESULT_CODE_SUCCESS \<Longrightarrow> evaluate_response_codes r \<noteq> MCL_OK"
  by (simp add: evaluate_response_codes_ok)

text \<open>A response the client hands over can be given back.\<close>

definition response_ok :: "http_response_t option \<Rightarrow> int \<Rightarrow> bool" where
  "response_ok response n \<longleftrightarrow> (\<forall>r. response = Some r \<longrightarrow>
    (\<forall>w. \<exists>w'. http_response_destroy response w = Some (None, w') \<and> live w' = live w - n \<and> upcoming w' = upcoming w))
    \<and> (response = None \<longrightarrow> n = 0)"

lemma exchange_evaluate_response_runs:
  assumes "store_contents s h ds" "response_ok response n" "send_result \<noteq> MCL_OK \<longrightarrow> response = None"
  obtains code s' h' w' where "exchange_evaluate_response s send_result response h w = Some (code, s', h', w')"
    "code = MCL_OK \<longleftrightarrow> accepted send_result response"
    "store_contents s' h' (after_sending (accepted send_result response) ds)" "\<And>a. h a = None \<Longrightarrow> h' a = None"
    "live w' - nodes_blocks (after_sending (accepted send_result response) ds) = live w - n - nodes_blocks ds"
    "upcoming w' = upcoming w"
proof -
  obtain code w1 where r: "(if MCL_OK \<noteq> send_result then Some (send_result, w)
       else case response of
           None \<Rightarrow> Some (MCL_FAIL, w)
         | Some a \<Rightarrow> do {
             (gone, w1) \<leftarrow> http_response_destroy (Some a) w;
             Some (if response_result_code a = MCL_HTTP_RESULT_CODE_SUCCESS then MCL_OK
               else evaluate_response_codes a, w1)
           }) = Some (code, w1)" "code = MCL_OK \<longleftrightarrow> accepted send_result response"
      "live w1 = live w - n" "upcoming w1 = upcoming w"
  proof (cases response)
    case None
    then show thesis using that [of "if send_result = MCL_OK then MCL_FAIL else send_result" w] assms(2)
      by (auto simp: accepted_def response_ok_def)
  next
    case (Some a)
    obtain w1 where "http_response_destroy (Some a) w = Some (None, w1)" "live w1 = live w - n" "upcoming w1 = upcoming w"
      using assms(2) Some unfolding response_ok_def by blast
    moreover have "send_result = MCL_OK" using assms(3) Some by blast
    ultimately show thesis
      using that [of "if response_result_code a = MCL_HTTP_RESULT_CODE_SUCCESS then MCL_OK else evaluate_response_codes a" w1]
        Some by (simp add: accepted_def evaluate_response_codes_ok)
  qed
  let ?ok = "accepted send_result response"
  obtain s1 h1 where u: "exchange_update_store_state ?ok s h = Some (s1, h1)"
    "store_contents s1 h1 (on_items (exchange_update_store_data_state ?ok) ds)" "\<And>a. h1 a = None \<longleftrightarrow> h a = None"
    by (rule exchange_update_store_state_runs [OF assms(1), of ?ok]) blast
  have ok: "(MCL_OK = code) = ?ok" using r(2) by auto
  show thesis
  proof (cases ?ok)
    case False
    show thesis
      by (rule that [of code s1 h1 w1])
        (use r u ok False in \<open>simp_all add: exchange_evaluate_response_def after_sending_def\<close>)
  next
    case True
    obtain s2 h2 w2 where c: "exchange_clear_sent_data_from_store s1 h1 w1 = Some (s2, h2, w2)"
      "store_contents s2 h2 (filter (\<lambda>(a, d). \<not> leaves d) ds)" "\<And>a. h1 a = None \<Longrightarrow> h2 a = None"
      "live w2 = live w1 - nodes_blocks (filter (\<lambda>(a, d). leaves d) ds)" "upcoming w2 = upcoming w1"
      by (rule exchange_clear_sent_runs [OF u(2), of w1]) (use True filter_updated in auto)
    have "nodes_blocks (filter (\<lambda>(a, d). leaves d) ds) + nodes_blocks (filter (\<lambda>(a, d). \<not> leaves d) ds) = nodes_blocks ds"
      using nodes_blocks_split [of "\<lambda>(a, d). leaves d" ds] by (simp add: case_prod_unfold)
    then show thesis
      by (intro that [of code s2 h2 w2])
        (use r u ok c True in \<open>simp_all add: exchange_evaluate_response_def after_sending_def\<close>)
  qed
qed

end
