(* ===== verification/MCL_Exchange_Fill.thy ===== *)
theory MCL_Exchange_Fill
  imports MCL_Exchange
begin

text \<open>
  Filling a request, of \<^verbatim>\<open>http_processor.c\<close>: the loop over the items of a store ends, and the request then
  holds exactly the items that have been written.
\<close>

section \<open>While memory lasts\<close>

text \<open>From here on the allocator refuses nothing, and the random source and the client leave it like that.\<close>

definition calm_source :: "random_source \<Rightarrow> bool" where
  "calm_source rand \<longleftrightarrow> fills_buffers rand \<and> (\<forall>n w. upcoming w = [] \<longrightarrow> upcoming (snd (rand n w)) = [])"

lemma calm_allocate:
  "memory_allocate n w = (p, w') \<Longrightarrow> upcoming w = [] \<Longrightarrow> upcoming w' = [] \<and> (n \<noteq> 0 \<longrightarrow> p \<noteq> None)"
  by (auto simp: memory_allocate_def memory_malloc_def split: if_splits)

lemma calm_initialize_buffer:
  "initialize_buffer s v n w = Some (c, s', w') \<Longrightarrow> upcoming w = [] \<Longrightarrow> upcoming w' = []"
  by (auto simp: initialize_buffer_def bind_eq_Some_conv dest: calm_allocate split: option.splits if_splits prod.splits)

lemma calm_initialize_typed:
  "initialize_typed t v n w = Some (c, s', w') \<Longrightarrow> upcoming w = [] \<Longrightarrow> upcoming w' = []"
  by (auto simp: initialize_typed_def bind_eq_Some_conv dest!: calm_allocate dest: calm_initialize_buffer
      split: option.splits if_splits prod.splits)

lemma calm_strings:
  "string_initialize_new v n w = Some (c, s', w') \<Longrightarrow> upcoming w = [] \<Longrightarrow> upcoming w' = []"
  "string_initialize_static v n w = Some (c, s', w') \<Longrightarrow> upcoming w = [] \<Longrightarrow> upcoming w' = []"
  "string_initialize s w = Some (c, s', w') \<Longrightarrow> upcoming w = [] \<Longrightarrow> upcoming w' = []"
  "string_destroy d w = (g, w') \<Longrightarrow> upcoming w = [] \<Longrightarrow> upcoming w' = []"
  using fresh_string_destroy [of d w]
  by (auto simp: string_initialize_new_def string_initialize_static_def string_initialize_def dest: calm_initialize_typed)

lemma calm_random_bytes:
  "security_generate_random_bytes rand b n w = Some (c, b', w') \<Longrightarrow> calm_source rand \<Longrightarrow> upcoming w = [] \<Longrightarrow> upcoming w' = []"
  by (cases "rand (nat (sint (ucast n :: 32 word))) w")
    (auto simp: security_generate_random_bytes_def Let_def bind_eq_Some_conv calm_source_def split: if_splits option.splits,
      metis snd_conv, metis snd_conv)

lemma calm_random_number:
  "random_generate_number rand z w = Some (c, x, w') \<Longrightarrow> calm_source rand \<Longrightarrow> upcoming w = [] \<Longrightarrow> upcoming w' = []"
  by (auto simp: random_generate_number_def bind_eq_Some_conv dest: calm_random_bytes)

lemma calm_boundary_loop:
  "boundary_loop rand n i b w = Some (c, b', w') \<Longrightarrow> calm_source rand \<Longrightarrow> upcoming w = [] \<Longrightarrow> upcoming w' = []"
proof (induction n arbitrary: i b w)
  case (Suc n)
  then show ?case
    by (auto simp: bind_eq_Some_conv dest: calm_random_number split: if_splits prod.splits)
qed simp

lemma calm_boundary:
  "generate_random_boundary rand w = Some (c, s, w') \<Longrightarrow> calm_source rand \<Longrightarrow> upcoming w = [] \<Longrightarrow> upcoming w' = []"
  by (auto simp: generate_random_boundary_def bind_eq_Some_conv Let_def dest: calm_strings
      calm_boundary_loop split: if_splits prod.splits)

lemma calm_add_tuple:
  assumes "http_request_add_tuple rand r m mt copy n pt w = Some (c, r', w')" "calm_source rand" "upcoming w = []"
  shows "upcoming w' = []"
  using assms by (auto simp: http_request_add_tuple_def bind_eq_Some_conv Let_def
      dest: calm_resize calm_boundary split: if_splits prod.splits)

lemma calm_finalize: "http_request_finalize r w = Some (c, r', w') \<Longrightarrow> upcoming w = [] \<Longrightarrow> upcoming w' = []"
  by (auto simp: http_request_finalize_def bind_eq_Some_conv Let_def dest: calm_resize split: if_splits prod.splits)

section \<open>The loop over the items\<close>

text \<open>An item that waits for its place in a request.\<close>

definition waits :: "store_data_t \<Rightarrow> bool" where
  "waits d \<longleftrightarrow> store_state d \<in> {DATA_STATE_INITIAL, DATA_STATE_PREPARED}"

definition waiting :: "(addr \<times> store_data_t) list \<Rightarrow> nat" where
  "waiting ds = length (filter (\<lambda>(a, d). waits d) ds)"

lemma waiting_simps [simp]:
  "waiting [] = 0" "waiting ((a, d) # ds) = (if waits d then 1 else 0) + waiting ds"
  "waiting (ds @ es) = waiting ds + waiting es"
  by (simp_all add: waiting_def)

text \<open>How the items of a store change when those at the addresses \<open>as\<close> are written into a request.\<close>

definition evolves :: "addr list \<Rightarrow> addr \<times> store_data_t \<Rightarrow> addr \<times> store_data_t \<Rightarrow> bool" where
  "evolves as e e' \<longleftrightarrow> fst e' = fst e
    \<and> (if fst e \<in> set as then waits (snd e) \<and> \<not> waits (snd e')
       else waits (snd e') = waits (snd e) \<and> (\<not> waits (snd e) \<longrightarrow> snd e' = snd e))"

definition filled :: "addr list \<Rightarrow> (addr \<times> store_data_t) list \<Rightarrow> (addr \<times> store_data_t) list \<Rightarrow> bool" where
  "filled as ds ds' \<longleftrightarrow> distinct as \<and> set as \<subseteq> fst ` set ds \<and> list_all2 (evolves as) ds ds'"

lemma evolves_refl: "fst e \<notin> set as \<Longrightarrow> evolves as e e"
  by (simp add: evolves_def)

lemma filled_refl: "filled [] ds ds"
  by (simp add: filled_def list.rel_refl_strong evolves_def)

lemma evolves_addresses: "list_all2 (evolves as) ds ds' \<Longrightarrow> map fst ds' = map fst ds"
  by (induction ds ds' rule: list_all2_induct) (auto simp: evolves_def)

lemma filled_addresses: "filled as ds ds' \<Longrightarrow> map fst ds' = map fst ds"
  by (auto simp: filled_def dest: evolves_addresses)

lemma filled_step:
  assumes "distinct (map fst (us @ (a, d) # vs))"
    and "as = (if added then [a] else [])"
    and "if added then waits d \<and> \<not> waits d' else waits d' = waits d \<and> (\<not> waits d \<longrightarrow> d' = d)"
  shows "filled as (us @ (a, d) # vs) (us @ (a, d') # vs)"
proof -
  have "list_all2 (evolves as) us us" "list_all2 (evolves as) vs vs"
    using assms(1,2) by (force intro!: list.rel_refl_strong evolves_refl split: if_splits)+
  moreover have "evolves as (a, d) (a, d')" using assms(2,3) by (auto simp: evolves_def split: if_splits)
  ultimately have "list_all2 (evolves as) (us @ (a, d) # vs) (us @ (a, d') # vs)"
    by (intro list_all2_appendI) simp_all
  then show ?thesis using assms(2) by (auto simp: filled_def)
qed

lemma list_all2_compose:
  "list_all2 P xs ys \<Longrightarrow> list_all2 Q ys zs \<Longrightarrow> (\<And>x y z. x \<in> set xs \<Longrightarrow> P x y \<Longrightarrow> Q y z \<Longrightarrow> R x z) \<Longrightarrow> list_all2 R xs zs"
  by (induction xs ys arbitrary: zs rule: list_all2_induct) (auto simp: list_all2_Cons1)

lemma list_all2_member: "list_all2 P xs ys \<Longrightarrow> x \<in> set xs \<Longrightarrow> \<exists>y \<in> set ys. P x y"
  by (induction xs ys rule: list_all2_induct) auto

lemma filled_trans:
  assumes "filled as ds ds1" "filled bs ds1 ds2" "distinct (map fst ds)"
  shows "filled (as @ bs) ds ds2"
proof -
  have all: "list_all2 (evolves as) ds ds1" "list_all2 (evolves bs) ds1 ds2" using assms(1,2) by (simp_all add: filled_def)
  have dist: "distinct (map fst ds1)" using filled_addresses [OF assms(1)] assms(3) by simp
  have "a \<notin> set bs" if a: "a \<in> set as" for a
  proof
    assume b: "a \<in> set bs"
    obtain d where d: "(a, d) \<in> set ds" using assms(1) a unfolding filled_def by fastforce
    then obtain e1 where e1: "e1 \<in> set ds1" "evolves as (a, d) e1" using list_all2_member [OF all(1)] by blast
    then obtain e2 where "evolves bs e1 e2" using list_all2_member [OF all(2)] by blast
    then show False using e1(2) a b by (auto simp: evolves_def)
  qed
  then have disj: "set as \<inter> set bs = {}" by blast
  have "list_all2 (evolves (as @ bs)) ds ds2"
    using all by (rule list_all2_compose) (use disj in \<open>auto simp: evolves_def split: if_splits\<close>)
  moreover have "fst ` set ds1 = fst ` set ds"
    using filled_addresses [OF assms(1)] by (metis list.set_map)
  ultimately show ?thesis using assms(1,2) disj by (auto simp: filled_def)
qed

text \<open>How the loop may end: \<open>good t d\<close> are the items with the text \<open>t\<close>, \<open>part t x\<close> the forms the text may take in a
  request, \<open>fine r w\<close> the requests that may grow.\<close>

definition fills_to ::
    "('t \<Rightarrow> store_data_t \<Rightarrow> bool) \<Rightarrow> ('t \<Rightarrow> string \<Rightarrow> bool) \<Rightarrow> (http_request_t \<Rightarrow> world \<Rightarrow> bool)
      \<Rightarrow> (addr \<Rightarrow> 't) \<Rightarrow> (addr \<times> store_data_t) list \<Rightarrow> bool \<Rightarrow> store_heap \<Rightarrow> http_request_t \<Rightarrow> world
      \<Rightarrow> (E_MCL_ERROR_CODE option \<times> bool \<times> store_heap \<times> http_request_t \<times> world) option \<Rightarrow> bool" where
  "fills_to good part fine T ds at_all h r w res \<longleftrightarrow> (\<exists>h' r' w' ds' as xs. res = Some (None, at_all \<or> as \<noteq> [], h', r', w')
    \<and> linked h' None (entries ds') None \<and> (\<forall>a. h' a = None \<longleftrightarrow> h a = None)
    \<and> filled as ds ds' \<and> (\<forall>(a, d) \<in> set ds'. good (T a) d) \<and> fine r' w'
    \<and> list_all2 (\<lambda>a. part (T a)) as xs \<and> body r' = body r @ concat xs
    \<and> live w' - payload_blocks r' - nodes_blocks ds' = live w - payload_blocks r - nodes_blocks ds)"

text \<open>What adding an item has to keep for the loop to end with a request that holds exactly the items that are
  written.\<close>

locale filling =
  fixes add_item :: "store_data_t \<Rightarrow> http_request_t \<Rightarrow> world
      \<Rightarrow> (fill_step \<times> store_data_t \<times> http_request_t \<times> world) option"
    and good :: "'t \<Rightarrow> store_data_t \<Rightarrow> bool"
    and part :: "'t \<Rightarrow> string \<Rightarrow> bool"
    and fine :: "http_request_t \<Rightarrow> world \<Rightarrow> bool"
  assumes adds: "good t d \<Longrightarrow> fine r w \<Longrightarrow> \<exists>step1 d' r' w'. add_item d r w = Some (step1, d', r', w')
    \<and> good t d' \<and> fine r' w'
    \<and> live w' - payload_blocks r' - data_blocks d' = live w - payload_blocks r - data_blocks d
    \<and> (step1 = Next_Node True \<and> waits d \<and> \<not> waits d' \<and> (\<exists>x. part t x \<and> body r' = body r @ x)
      \<or> step1 \<in> {Next_Node False, End_Loop} \<and> waits d' = waits d \<and> (\<not> waits d \<longrightarrow> d' = d) \<and> body r' = body r)"
begin

lemma fills_to_here:
  assumes "linked h None (entries ds) None" "\<forall>(a, d) \<in> set ds. good (T a) d" "fine r w"
  shows "fills_to good part fine T ds at_all h r w (Some (None, at_all, h, r, w))"
  unfolding fills_to_def
  by (rule exI [of _ h], rule exI [of _ r], rule exI [of _ w], rule exI [of _ ds], rule exI [of _ "[]"], rule exI [of _ "[]"])
    (use assms filled_refl in auto)

lemma fills_to_step:
  assumes "fills_to good part fine T ds1 (at_all \<or> as \<noteq> []) h1 r1 w1 res" "filled as ds ds1" "distinct (map fst ds)"
    and "\<forall>a. h1 a = None \<longleftrightarrow> h a = None" "list_all2 (\<lambda>a. part (T a)) as xs" "body r1 = body r @ concat xs"
    and "live w1 - payload_blocks r1 - nodes_blocks ds1 = live w - payload_blocks r - nodes_blocks ds"
  shows "fills_to good part fine T ds at_all h r w res"
proof -
  obtain h' r' w' ds' bs ys where e: "res = Some (None, (at_all \<or> as \<noteq> []) \<or> bs \<noteq> [], h', r', w')"
    "linked h' None (entries ds') None" "\<forall>a. h' a = None \<longleftrightarrow> h1 a = None"
    "filled bs ds1 ds'" "\<forall>(a, d) \<in> set ds'. good (T a) d" "fine r' w'"
    "list_all2 (\<lambda>a. part (T a)) bs ys" "body r' = body r1 @ concat ys"
    "live w' - payload_blocks r' - nodes_blocks ds' = live w1 - payload_blocks r1 - nodes_blocks ds1"
    using assms(1) unfolding fills_to_def by blast
  show ?thesis
    unfolding fills_to_def
    by (rule exI [of _ h'], rule exI [of _ r'], rule exI [of _ w'], rule exI [of _ ds'], rule exI [of _ "as @ bs"],
        rule exI [of _ "xs @ ys"])
      (use e assms filled_trans [OF assms(2) e(4) assms(3)] in \<open>auto intro: list_all2_appendI\<close>)
qed

theorem fill_loop_runs:
  assumes "linked h None (entries (us @ vs)) None" "distinct (map fst (us @ vs))"
    and "\<forall>(a, d) \<in> set (us @ vs). good (T a) d" "fine r w" "head = first_of (entries (us @ vs)) None"
  shows "fills_to good part fine T (us @ vs) at_all h r w
    (fill_loop add_item head (first_of (entries vs) None) added_any at_all h r w)"
  using assms
proof (induction "(waiting (us @ vs) + (if added_any then 1 else 0)) * (length (us @ vs) + 1) + length vs"
    arbitrary: us vs added_any at_all h r w rule: less_induct)
  case less
  note good = less.prems(3)
  show ?case
  proof (cases vs)
    case Nil
    show ?thesis
    proof (cases added_any)
      case False
      then have "fill_loop add_item head (first_of (entries vs) None) added_any at_all h r w = Some (None, at_all, h, r, w)"
        using Nil by (subst fill_loop.simps) simp
      then show ?thesis using fills_to_here [OF less.prems(1,3,4)] by simp
    next
      case True
      then have again: "fill_loop add_item head (first_of (entries vs) None) added_any at_all h r w
          = fill_loop add_item head (first_of (entries us) None) False at_all h r w"
        using Nil less.prems(5) by (subst fill_loop.simps) simp
      have "fills_to good part fine T ([] @ us) at_all h r w (fill_loop add_item head (first_of (entries us) None) False at_all h r w)"
        by (rule less.hyps) (use Nil True less.prems in auto)
      then show ?thesis using Nil again by simp
    qed
  next
    case (Cons ad vs')
    obtain a d where ad: "vs = (a, d) # vs'" using Cons by (cases ad) simp
    define n where "n = \<lparr>node_data = Some d, node_prev = last_of None (entries us), node_next = first_of (entries vs') None\<rparr>"
    have n: "h a = Some n" using less.prems(1) by (simp add: ad n_def)
    have gd: "good (T a) d" using good ad by auto
    obtain step1 d' r' w' where s: "add_item d r w = Some (step1, d', r', w')" "good (T a) d'" "fine r' w'"
      "live w' - payload_blocks r' - data_blocks d' = live w - payload_blocks r - data_blocks d"
      "step1 = Next_Node True \<and> waits d \<and> \<not> waits d' \<and> (\<exists>x. part (T a) x \<and> body r' = body r @ x)
      \<or> step1 \<in> {Next_Node False, End_Loop} \<and> waits d' = waits d \<and> (\<not> waits d \<longrightarrow> d' = d) \<and> body r' = body r"
      using adds [OF gd less.prems(4)] by blast
    define added where "added \<longleftrightarrow> step1 = Next_Node True"
    define h1 where "h1 = h(a \<mapsto> n\<lparr>node_data := Some d'\<rparr>)"
    have dist: "distinct (map fst (us @ (a, d) # vs'))" using less.prems(2) ad by simp
    have linked1: "linked h1 None (entries (us @ (a, d') # vs')) None"
      using linked_put [OF less.prems(1) n, of "Some d'"] dist unfolding h1_def ad by (simp add: put_other n_def)
    let ?as = "if added then [a] else []"
    obtain xs where x: "list_all2 (\<lambda>a. part (T a)) ?as xs" "body r' = body r @ concat xs"
      using s(5) that [of "[]"] that [of "[x]" for x] unfolding added_def by fastforce
    have f: "filled ?as (us @ vs) (us @ (a, d') # vs')"
      unfolding ad by (rule filled_step [OF dist refl]) (use s(5) in \<open>auto simp: added_def\<close>)
    have good1: "\<forall>(a, d) \<in> set (us @ (a, d') # vs'). good (T a) d" using good s(2) ad by auto
    have dom1: "\<forall>b. h1 b = None \<longleftrightarrow> h b = None" using n by (simp add: h1_def)
    have bal: "live w' - payload_blocks r' - nodes_blocks (us @ (a, d') # vs') = live w - payload_blocks r - nodes_blocks (us @ vs)"
      using s(4) by (simp add: ad)
    note go = fills_to_step [OF _ f less.prems(2) dom1 x bal]
    show ?thesis
    proof (cases "step1 = End_Loop")
      case True
      then have "fill_loop add_item head (first_of (entries vs) None) added_any at_all h r w = Some (None, at_all, h1, r', w')"
        using s(1) n ad by (subst fill_loop.simps) (simp add: n_def h1_def)
      moreover have "fills_to good part fine T (us @ (a, d') # vs') at_all h1 r' w' (Some (None, at_all, h1, r', w'))"
        by (rule fills_to_here [OF linked1 good1 s(3)])
      ultimately show ?thesis using go [of at_all] True by (simp add: added_def)
    next
      case False
      then have st: "step1 = Next_Node added" using s(5) added_def by auto
      have next1: "fill_loop add_item head (first_of (entries vs) None) added_any at_all h r w
          = fill_loop add_item head (first_of (entries vs') None) (added_any \<or> added) (at_all \<or> added) h1 r' w'"
        using s(1) n ad st by (subst fill_loop.simps) (simp add: n_def h1_def)
      have w1: "waiting (us @ vs) = waiting (us @ (a, d') # vs') + (if added then 1 else 0)"
        using s(5) by (auto simp: ad added_def)
      have "fills_to good part fine T ((us @ [(a, d')]) @ vs') (at_all \<or> added) h1 r' w'
          (fill_loop add_item head (first_of (entries vs') None) (added_any \<or> added) (at_all \<or> added) h1 r' w')"
        by (rule less.hyps) (use w1 linked1 good1 s(3) dist less.prems(5) ad in \<open>auto simp: algebra_simps\<close>)
      then show ?thesis using go [of at_all] next1 by (cases added) simp_all
    qed
  qed
qed

end


section \<open>The texts of an item\<close>

definition META_TYPE :: string where "META_TYPE = ''application/vnd.siemens.mindsphere.meta+json''"

definition payload_type_text :: "store_item \<Rightarrow> string" where
  "payload_type_text i = (if item_type i \<in> {STORE_DATA_FILE, STORE_DATA_CUSTOM, STORE_DATA_STREAM}
    then ''application/octet-stream'' else ''application/json'')"

lemma says_content_types:
  "says (content_type_value CONTENT_TYPE_META_JSON) META_TYPE"
  "says (content_type_value (if item_type i \<in> {STORE_DATA_FILE, STORE_DATA_CUSTOM, STORE_DATA_STREAM}
     then CONTENT_TYPE_APPLICATION_OCTET_STREAM else CONTENT_TYPE_APPLICATION_JSON)) (payload_type_text i)"
  by (auto simp: content_type_value_def content_type_values_def content_type_indices_def META_TYPE_def
      payload_type_text_def intro!: says_constant)

text \<open>An item that is prepared has the text \<open>m\<close> of its meta data, and its callback copies the payload \<open>xs\<close> for the size \<open>n\<close>.\<close>

definition item_texts :: "store_data_t \<Rightarrow> string \<Rightarrow> mcl_size_t \<Rightarrow> string \<Rightarrow> bool" where
  "item_texts d m n xs \<longleftrightarrow> (\<exists>meta copy. store_meta d = Some meta \<and> says meta m \<and> length m < 2 ^ 30
    \<and> store_payload_size d = n \<and> payload_callback d = Some copy \<and> copies copy n xs \<and> unat n < 2 ^ 60)"

text \<open>An item that is not prepared yet, but whose texts can be made.\<close>

definition prepares :: "(rat \<Rightarrow> string) \<Rightarrow> store_data_t \<Rightarrow> string \<Rightarrow> mcl_size_t \<Rightarrow> string \<Rightarrow> bool" where
  "prepares other d m n xs \<longleftrightarrow> (\<forall>w. upcoming w = [] \<longrightarrow> (\<exists>d1 w1. exchange_prepare_data other d w = Some (MCL_OK, d1, w1)
    \<and> upcoming w1 = [] \<and> data_ok d1 \<and> store_state d1 = DATA_STATE_PREPARED \<and> store_item d1 = store_item d
    \<and> item_texts d1 m n xs \<and> live w1 - data_blocks d1 = live w - data_blocks d))"

type_synonym texts = "string \<times> string \<times> mcl_size_t \<times> string"

definition has_texts :: "(rat \<Rightarrow> string) \<Rightarrow> texts \<Rightarrow> store_data_t \<Rightarrow> bool" where
  "has_texts other t d \<longleftrightarrow> (case t of (pt, m, n, xs) \<Rightarrow> data_ok d \<and> pt = payload_type_text (store_item d)
    \<and> (store_state d = DATA_STATE_INITIAL \<longrightarrow> prepares other d m n xs)
    \<and> (store_state d = DATA_STATE_PREPARED \<longrightarrow> item_texts d m n xs))"

text \<open>The tuple of an item in a request with the boundary \<open>b\<close>; the boundary of its sections is random.\<close>

definition tuple_of :: "string \<Rightarrow> texts \<Rightarrow> string \<Rightarrow> bool" where
  "tuple_of b t x \<longleftrightarrow> (case t of (pt, m, n, xs) \<Rightarrow>
    \<exists>sb. length sb = 22 \<and> set sb \<subseteq> set boundary_characters \<and> x = tuple_text b sb META_TYPE m pt xs)"

text \<open>However its own boundary is drawn, the tuple of an item has one length: 213 characters are put around its texts.\<close>

definition tuple_length :: "texts \<Rightarrow> nat" where
  "tuple_length t = (case t of (pt, m, n, xs) \<Rightarrow> 213 + length META_TYPE + length m + length pt + length xs)"

lemma tuple_of_length: "tuple_of b t x \<Longrightarrow> length b = 22 \<Longrightarrow> length x = tuple_length t"
  by (cases t) (auto simp: tuple_of_def tuple_length_def tuple_text_def sections_text_def open_line_def close_line_def content_line_def)

definition message_length :: "(addr \<Rightarrow> texts) \<Rightarrow> addr list \<Rightarrow> nat" where
  "message_length T as = sum_list (map (\<lambda>a. tuple_length (T a)) as)"

lemma message_length_pos: "as \<noteq> [] \<Longrightarrow> 0 < message_length T as"
  by (cases as; cases "T (hd as)") (simp_all add: message_length_def tuple_length_def)

lemma tuples_length:
  "list_all2 (\<lambda>a. tuple_of b (T a)) as xs \<Longrightarrow> length b = 22 \<Longrightarrow> length (concat xs) = message_length T as"
  by (induction as xs rule: list_all2_induct) (simp_all add: message_length_def tuple_of_length)

text \<open>What adding to a request leaves alone.\<close>

definition frame :: "http_request_t \<Rightarrow> http_request_t" where
  "frame r = r\<lparr>payload := None, payload_size := 0, payload_offset := 0\<rparr>"

text \<open>A request that was filled has 19 characters left, which is what a tuple asks for and does not use.\<close>

definition fillable :: "random_source \<Rightarrow> string \<Rightarrow> http_request_t \<Rightarrow> http_request_t \<Rightarrow> world \<Rightarrow> bool" where
  "fillable rand b f r w \<longleftrightarrow> calm_source rand \<and> request_ok r b \<and> upcoming w = [] \<and> frame r = f
    \<and> (body r \<noteq> [] \<longrightarrow> length (body r) + 19 \<le> unat (payload_size r))"

lemma frame_resize:
  "resize_payload_buffer_if_necessary req r fin w = Some (c, r', w') \<Longrightarrow> frame r' = frame r"
  by (auto simp: resize_payload_buffer_if_necessary_def Let_def bind_eq_Some_conv resize_payload_def frame_def
      split: if_splits prod.splits option.splits)

lemma frame_written: "written r m = Some (c, r') \<Longrightarrow> frame r' = frame r"
  by (auto simp: written_def bind_eq_Some_conv frame_def split: if_splits prod.splits)

lemma frame_payload [simp]: "frame (r\<lparr>payload := p\<rparr>) = frame r" "frame (r\<lparr>payload := p, payload_offset := k\<rparr>) = frame r"
  by (simp_all add: frame_def)

lemma frame_add_tuple:
  "http_request_add_tuple rand r m mt copy n pt w = Some (c, r', w') \<Longrightarrow> frame r' = frame r"
  by (auto simp: http_request_add_tuple_def bind_eq_Some_conv Let_def
      dest!: frame_resize frame_written split: if_splits prod.splits)

lemma frame_finalize: "http_request_finalize r w = Some (c, r', w') \<Longrightarrow> frame r' = frame r"
  by (auto simp: http_request_finalize_def bind_eq_Some_conv Let_def dest!: frame_resize split: if_splits prod.splits)

section \<open>Adding an item\<close>

lemma data_ok_item_meta: "data_ok d \<Longrightarrow> \<exists>m. item_meta (store_item d) = Some m"
  by (cases "store_item d") (auto simp: data_ok_def item_ok_def item_meta_def)

lemma data_ok_no_stream: "data_ok d \<Longrightarrow> item_type (store_item d) \<noteq> STORE_DATA_STREAM"
  by (cases "store_item d") (auto simp: data_ok_def item_ok_def)

lemma move_file_simps [simp]:
  "item_type (move_file n i) = item_type i" "payload_type_text (move_file n i) = payload_type_text i"
  "item_ok (move_file n i) = item_ok i" "content_blocks (move_file n i) = content_blocks i"
  by (cases i; simp add: move_file_def payload_type_text_def item_ok_def content_blocks_def file_blocks_def)+

definition written_item :: "store_data_t \<Rightarrow> store_data_t" where
  "written_item d = store_data_set_state DATA_STATE_WRITTEN (d\<lparr>store_item := move_file (store_payload_size d) (store_item d)\<rparr>)"

lemma written_item_simps [simp]:
  "store_state (written_item d) = DATA_STATE_WRITTEN" "data_blocks (written_item d) = data_blocks d"
  by (simp_all add: written_item_def store_data_set_state_def data_blocks_def owns_payload_def)

lemma has_texts_written:
  "data_ok d \<Longrightarrow> store_state d = DATA_STATE_PREPARED \<Longrightarrow> pt = payload_type_text (store_item d)
    \<Longrightarrow> has_texts other (pt, m, n, xs) (written_item d)"
  by (simp add: has_texts_def data_ok_def written_item_def store_data_set_state_def)

text \<open>The random source gives the four bytes of a number; there is room for an item in a request.\<close>

definition gives_numbers :: "random_source \<Rightarrow> bool" where
  "gives_numbers rand \<longleftrightarrow> (\<forall>w. fst (rand 4 w) \<noteq> None)"

lemma reliable_number:
  "random_generate_number rand z w = Some (c, x, w') \<Longrightarrow> gives_numbers rand \<Longrightarrow> c = MCL_OK"
proof -
  assume run: "random_generate_number rand z w = Some (c, x, w')" and "gives_numbers rand"
  then have "fst (rand 4 w) \<noteq> None" by (simp add: gives_numbers_def)
  with run show "c = MCL_OK"
    by (cases "rand 4 w") (auto simp: random_generate_number_def security_generate_random_bytes_def bind_eq_Some_conv
        split: option.splits)
qed

lemma reliable_loop: "boundary_loop rand n i b w = Some (c, b', w') \<Longrightarrow> gives_numbers rand \<Longrightarrow> c = MCL_OK"
proof (induction n arbitrary: i b w)
  case (Suc n)
  then show ?case
    by (auto simp: bind_eq_Some_conv dest: reliable_number split: if_splits prod.splits)
qed simp

lemma reliable_boundary:
  assumes "generate_random_boundary rand w = Some (c, s, w')" "gives_numbers rand" "upcoming w = []"
  shows "s \<noteq> None"
  using assms string_initialize_new_space [of BOUNDARY_LENGTH w] two_blocks_granted [OF assms(3), of BOUNDARY_LENGTH]
  by (auto simp: generate_random_boundary_def bind_eq_Some_conv Let_def BOUNDARY_LENGTH_def dest: reliable_loop
      split: if_splits prod.splits)

definition room_for :: "texts \<Rightarrow> http_request_t \<Rightarrow> bool" where
  "room_for t r \<longleftrightarrow> (case t of (pt, m, n, xs) \<Rightarrow>
    length META_TYPE + length pt + unat n + length m \<le> unat (http_request_get_available_space_for_tuple r))"

lemma room_for_simp:
  "\<not> room_for (pt, m, n, xs) r \<longleftrightarrow>
    unat (http_request_get_available_space_for_tuple r) < length META_TYPE + length pt + unat n + length m
    \<or> http_request_get_available_space_for_tuple r = 0"
proof -
  have "0 < length META_TYPE" by (simp add: META_TYPE_def)
  then show ?thesis by (auto simp: room_for_def not_le)
qed

text \<open>Adding an item that is prepared.\<close>

lemma add_current_data_runs:
  assumes "fillable rand b f r w" "data_ok d" "item_texts d m n xs"
  obtains code d' r' w' where "exchange_add_current_data_to_request rand d r w = Some (code, d', r', w')"
    "fillable rand b f r' w'" "live w' - payload_blocks r' = live w - payload_blocks r"
    "code = MCL_OK \<and> d' = written_item d \<and> (\<exists>x. tuple_of b (payload_type_text (store_item d), m, n, xs) x \<and> body r' = body r @ x)
      \<or> code \<notin> {MCL_OK, MCL_PARTIALLY_WRITTEN} \<and> d' = d \<and> body r' = body r"
    "gives_numbers rand \<Longrightarrow> room_for (payload_type_text (store_item d), m, n, xs) r \<Longrightarrow> code = MCL_OK"
proof -
  have calm: "calm_source rand" "fills_buffers rand" "request_ok r b" "upcoming w = []" "frame r = f"
    "body r \<noteq> [] \<longrightarrow> length (body r) + 19 \<le> unat (payload_size r)" "length b = 22"
    using assms(1) by (auto simp: fillable_def calm_source_def request_ok_def)
  obtain meta copy where t: "store_meta d = Some meta" "says meta m" "length m < 2 ^ 30"
    "payload_callback d = Some copy" "copies copy (store_payload_size d) xs" "unat (store_payload_size d) < 2 ^ 60"
    "store_payload_size d = n"
    using assms(3) unfolding item_texts_def by blast
  obtain im where im: "item_meta (store_item d) = Some im" using data_ok_item_meta [OF assms(2)] by blast
  let ?pt = "content_type_value (if item_type (store_item d) \<in> {STORE_DATA_FILE, STORE_DATA_CUSTOM, STORE_DATA_STREAM}
     then CONTENT_TYPE_APPLICATION_OCTET_STREAM else CONTENT_TYPE_APPLICATION_JSON)"
  have short: "length META_TYPE < 2 ^ 30" "length (payload_type_text (store_item d)) < 2 ^ 30"
    by (simp_all add: META_TYPE_def payload_type_text_def)
  obtain code r1 w1 where run: "http_request_add_tuple rand r meta (content_type_value CONTENT_TYPE_META_JSON) copy
      (store_payload_size d) ?pt w = Some (code, r1, w1)"
    "live w1 - payload_blocks r1 = live w - payload_blocks r"
    "code = MCL_OK \<and> request_ok r1 b \<and> (\<exists>sb. length sb = 22 \<and> set sb \<subseteq> set boundary_characters
          \<and> body r1 = body r @ tuple_text b sb META_TYPE m (payload_type_text (store_item d)) xs)
      \<or> code \<in> {MCL_HTTP_REQUEST_NO_MORE_SPACE, MCL_OUT_OF_MEMORY, MCL_FAIL} \<and> request_ok r1 b \<and> body r1 = body r
        \<and> (\<not> room_for (payload_type_text (store_item d), m, n, xs) r
          \<or> (\<exists>w2 w3. generate_random_boundary rand w2 = Some (code, None, w3) \<and> upcoming w2 = []))"
    "(r1 = r \<or> length (body r) + 232 \<le> unat (payload_size r1)) \<and> (code = MCL_OK \<longrightarrow>
      length (body r) + 232 + length META_TYPE + length (payload_type_text (store_item d)) + unat n + length m \<le> unat (payload_size r1))"
    unfolding room_for_simp
    using http_request_add_tuple_runs [OF calm(2,3) t(2) says_content_types(1) says_content_types(2) t(5,3) short t(6), of w]
      calm(3,4) t(7) by (elim exE conjE disjE) auto
  have next1: "upcoming w1 = []" "frame r1 = f" "request_ok r1 b"
    using calm_add_tuple [OF run(1) calm(1,4)] frame_add_tuple [OF run(1)] calm(5) run(3) by auto
  have room: "body r1 \<noteq> [] \<longrightarrow> length (body r1) + 19 \<le> unat (payload_size r1)"
  proof (cases "code = MCL_OK")
    case True
    then obtain x where x: "tuple_of b (payload_type_text (store_item d), m, n, xs) x" "body r1 = body r @ x"
      using run(3) by (auto simp: tuple_of_def)
    have "length xs \<le> unat n" using t(5,7) by (simp add: copies_def)
    then show ?thesis using run(4) True x(2) tuple_of_length [OF x(1) calm(7)] by (simp add: tuple_length_def)
  next
    case False
    then show ?thesis using run(3,4) calm(6) by auto
  qed
  show thesis
  proof (rule that)
    show "exchange_add_current_data_to_request rand d r w = Some (code, if code = MCL_OK then written_item d else d, r1, w1)"
      using run(1) t(1,4) im data_ok_no_stream [OF assms(2)]
      by (auto simp: exchange_add_current_data_to_request_def exchange_store_data_get_content_info_def written_item_def)
    show "fillable rand b f r1 w1" using calm(1) next1 room by (simp add: fillable_def)
    show "code = MCL_OK \<and> (if code = MCL_OK then written_item d else d) = written_item d
        \<and> (\<exists>x. tuple_of b (payload_type_text (store_item d), m, n, xs) x \<and> body r1 = body r @ x)
      \<or> code \<notin> {MCL_OK, MCL_PARTIALLY_WRITTEN} \<and> (if code = MCL_OK then written_item d else d) = d \<and> body r1 = body r"
      using run(3) by (auto simp: tuple_of_def)
    show "code = MCL_OK" if "gives_numbers rand" "room_for (payload_type_text (store_item d), m, n, xs) r"
      using run(3) that reliable_boundary [of rand] by blast
  qed (rule run(2))
qed

text \<open>Adding an item in any state.\<close>

lemma waits_simps [simp]:
  "store_state d = DATA_STATE_INITIAL \<Longrightarrow> waits d" "store_state d = DATA_STATE_PREPARED \<Longrightarrow> waits d"
  "store_state d = DATA_STATE_WRITTEN \<Longrightarrow> \<not> waits d" "store_state d = DATA_STATE_SENT \<Longrightarrow> \<not> waits d"
  by (simp_all add: waits_def)

lemma add_prepared_item:
  assumes "fillable rand b f r w" "has_texts other t d" "store_state d = DATA_STATE_PREPARED"
    and "(if store_data_get_state d0 = DATA_STATE_INITIAL then exchange_prepare_data other d0 w0 else Some (MCL_OK, d0, w0))
      = Some (MCL_OK, d, w)"
  shows "\<exists>step1 d' r' w'. exchange_add_item rand reader other False d0 r w0 = Some (step1, d', r', w')
    \<and> has_texts other t d' \<and> fillable rand b f r' w'
    \<and> live w' - payload_blocks r' - data_blocks d' = live w - payload_blocks r - data_blocks d
    \<and> (step1 = Next_Node True \<and> \<not> waits d' \<and> (\<exists>x. tuple_of b t x \<and> body r' = body r @ x)
      \<or> step1 \<in> {Next_Node False, End_Loop} \<and> waits d' \<and> body r' = body r)"
proof -
  obtain pt m n xs where t: "t = (pt, m, n, xs)" by (rule prod_cases4)
  have d: "data_ok d" "pt = payload_type_text (store_item d)" "item_texts d m n xs"
    using assms(2,3) by (simp_all add: has_texts_def t)
  obtain code d' r' w' where run: "exchange_add_current_data_to_request rand d r w = Some (code, d', r', w')"
    "fillable rand b f r' w'" "live w' - payload_blocks r' = live w - payload_blocks r"
    "code = MCL_OK \<and> d' = written_item d \<and> (\<exists>x. tuple_of b (pt, m, n, xs) x \<and> body r' = body r @ x)
      \<or> code \<notin> {MCL_OK, MCL_PARTIALLY_WRITTEN} \<and> d' = d \<and> body r' = body r"
    using add_current_data_runs [OF assms(1) d(1,3)] d(2) by metis
  have step1: "exchange_add_item rand reader other False d0 r w0 = Some (
      if code = MCL_OK then Next_Node True else if code = MCL_HTTP_REQUEST_NO_MORE_SPACE then Next_Node False else End_Loop,
      d', r', w')"
    using assms(3,4) run(1,4) by (auto simp: exchange_add_item_def store_data_get_state_def)
  have good: "has_texts other t d'"
    using run(4) has_texts_written [OF d(1) assms(3) d(2)] assms(2) by (auto simp: t)
  have bal: "live w' - payload_blocks r' - data_blocks d' = live w - payload_blocks r - data_blocks d"
    using run(3,4) by auto
  show ?thesis
    using step1 good run(2) bal run(4) assms(3) by (cases "code = MCL_OK") (auto simp: t)
qed

interpretation fl: filling "exchange_add_item rand reader other False" "has_texts other" "tuple_of b" "fillable rand b f"
  for rand reader other b f
proof
  fix t d r w
  assume good: "has_texts other t d" and fine: "fillable rand b f r w"
  obtain pt m n xs where t: "t = (pt, m, n, xs)" by (rule prod_cases4)
  have d: "data_ok d" "pt = payload_type_text (store_item d)" using good by (simp_all add: has_texts_def t)
  have calm: "upcoming w = []" using fine by (simp add: fillable_def)
  consider "store_state d = DATA_STATE_INITIAL" | "store_state d = DATA_STATE_PREPARED"
    | "store_state d = DATA_STATE_WRITTEN \<or> store_state d = DATA_STATE_SENT"
    using d(1) by (cases "store_state d") (auto simp: data_ok_def)
  then show "\<exists>step1 d' r' w'. exchange_add_item rand reader other False d r w = Some (step1, d', r', w')
    \<and> has_texts other t d' \<and> fillable rand b f r' w'
    \<and> live w' - payload_blocks r' - data_blocks d' = live w - payload_blocks r - data_blocks d
    \<and> (step1 = Next_Node True \<and> waits d \<and> \<not> waits d' \<and> (\<exists>x. tuple_of b t x \<and> body r' = body r @ x)
      \<or> step1 \<in> {Next_Node False, End_Loop} \<and> waits d' = waits d \<and> (\<not> waits d \<longrightarrow> d' = d) \<and> body r' = body r)"
  proof cases
    case 1
    then obtain d1 w1 where p: "exchange_prepare_data other d w = Some (MCL_OK, d1, w1)"
      "upcoming w1 = []" "data_ok d1" "store_state d1 = DATA_STATE_PREPARED" "store_item d1 = store_item d"
      "item_texts d1 m n xs" "live w1 - data_blocks d1 = live w - data_blocks d"
      using good calm by (auto simp: has_texts_def t prepares_def)
    have "has_texts other t d1" using p d by (simp add: has_texts_def t)
    moreover have "fillable rand b f r w1" using fine p(2) by (simp add: fillable_def)
    ultimately show ?thesis
      using add_prepared_item [of rand b f r w1 other t d1 d w reader] p(1,4,7) 1
      by (fastforce simp: store_data_get_state_def)
  next
    case 2
    then show ?thesis
      using add_prepared_item [OF fine good 2, of d w reader] by (fastforce simp: store_data_get_state_def)
  next
    case 3
    then have "exchange_add_item rand reader other False d r w = Some (Next_Node False, d, r, w)"
      by (auto simp: exchange_add_item_def store_data_get_state_def)
    moreover have "\<not> waits d" using 3 by auto
    ultimately show ?thesis using good fine by blast
  qed
qed

section \<open>Filling\<close>

lemma exchange_fill_loop_runs:
  assumes "store_contents s h ds" "\<forall>(a, d) \<in> set ds. has_texts other (T a) d" "fillable rand b f r w"
    and "store_high s = Some high"
  shows "fills_to (has_texts other) (tuple_of b) (fillable rand b f) T ds at_all h r w
    (fill_loop (exchange_add_item rand reader other False) (list_head high) (list_current high) added_any at_all h r w)"
proof -
  have rep: "represents high h [] (entries ds)" using assms(1,4) by (auto simp: store_contents_def)
  have "list_head high = first_of (entries ds) None" "list_current high = first_of (entries ds) None"
    using representsD(4,6) [OF rep] by simp_all
  then show ?thesis
    using fl.fill_loop_runs [of h "[]" ds other T rand b f r w "list_head high" at_all reader added_any]
      representsD(1,2) [OF rep] assms(2,3) by simp
qed

section \<open>An item that fits is sent\<close>

lemma fill_loop_keeps:
  assumes "fill_loop add_item head cur any1 at_all h r w = Some y" "at_all"
  shows "fst (snd y)"
  using assms
proof (induction add_item head cur any1 at_all h r w y rule: fill_loop.raw_induct [rotated, consumes 1, case_names step])
  case (step loop add_item head cur any1 at_all h r w y)
  show ?case
  proof (cases cur)
    case None
    then show ?thesis using step.IH step.prems step.hyps by (auto split: if_splits)
  next
    case (Some x)
    then obtain n d st d1 r1 w1 where 1: "h x = Some n" "node_data n = Some d" "add_item d r w = Some (st, d1, r1, w1)"
      using step.hyps by (auto simp: bind_eq_Some_conv)
    show ?thesis
      by (cases st) (use step.IH step.prems step.hyps Some 1 in auto)
  qed
qed

lemma add_item_with_room:
  assumes "fillable rand b f r w" "has_texts other t d" "waits d" "gives_numbers rand" "room_for t r"
  obtains d' r' w' where "exchange_add_item rand reader other False d r w = Some (Next_Node True, d', r', w')"
proof -
  obtain pt m n xs where t: "t = (pt, m, n, xs)" by (rule prod_cases4)
  have d: "data_ok d" "pt = payload_type_text (store_item d)" using assms(2) by (simp_all add: has_texts_def t)
  have calm: "upcoming w = []" using assms(1) by (simp add: fillable_def)
  obtain d1 w1 where p: "(if store_data_get_state d = DATA_STATE_INITIAL then exchange_prepare_data other d w else Some (MCL_OK, d, w))
      = Some (MCL_OK, d1, w1)" "fillable rand b f r w1" "data_ok d1" "item_texts d1 m n xs" "store_item d1 = store_item d"
      "store_state d1 = DATA_STATE_PREPARED"
  proof (cases "store_state d = DATA_STATE_INITIAL")
    case True
    then obtain d1 w1 where "exchange_prepare_data other d w = Some (MCL_OK, d1, w1)" "upcoming w1 = []" "data_ok d1"
      "store_state d1 = DATA_STATE_PREPARED" "store_item d1 = store_item d" "item_texts d1 m n xs"
      using assms(2) calm by (auto simp: has_texts_def t prepares_def)
    then show thesis using that [of d1 w1] assms(1) True by (simp add: fillable_def store_data_get_state_def)
  next
    case False
    then have "store_state d = DATA_STATE_PREPARED" using assms(3) by (simp add: waits_def)
    then show thesis using that [of d w] assms(1,2) d False by (simp add: has_texts_def t store_data_get_state_def)
  qed
  obtain code d' r' w' where run: "exchange_add_current_data_to_request rand d1 r w1 = Some (code, d', r', w')"
    "code = MCL_OK \<and> d' = written_item d1 \<or> code \<noteq> MCL_OK"
    "gives_numbers rand \<Longrightarrow> room_for (payload_type_text (store_item d1), m, n, xs) r \<Longrightarrow> code = MCL_OK"
    by (rule add_current_data_runs [OF p(2-4)]) auto
  have "code = MCL_OK" using run(3) assms(4,5) p(5) d(2) t by simp
  then show thesis
    using that [of d' r' w'] p(1,6) run by (simp add: exchange_add_item_def store_data_get_state_def)
qed

lemma fill_loop_adds:
  assumes "store_contents s h ((a, d) # ds)" "store_high s = Some high" "fillable rand b f r w" "has_texts other t d" "waits d"
    and "gives_numbers rand" "room_for t r"
    and "fill_loop (exchange_add_item rand reader other False) (list_head high) (list_current high) any1 at_all h r w
      = Some (c, added, h', r', w')"
  shows "added"
proof -
  have rep: "represents high h [] (entries ((a, d) # ds))" using assms(1,2) by (auto simp: store_contents_def)
  have cur: "list_current high = Some a" using representsD(6) [OF rep] by simp
  obtain n where n: "h a = Some n" "node_data n = Some d" using represents_node rep by fastforce
  obtain d1 r1 w1 where step1: "exchange_add_item rand reader other False d r w = Some (Next_Node True, d1, r1, w1)"
    by (rule add_item_with_room [OF assms(3-7)])
  have "fill_loop (exchange_add_item rand reader other False) (list_head high) (list_current high) any1 at_all h r w
      = fill_loop (exchange_add_item rand reader other False) (list_head high) (node_next n) True True
          (h(a \<mapsto> n\<lparr>node_data := Some d1\<rparr>)) r1 w1"
    using n step1 cur by (subst fill_loop.simps) simp
  with assms(8) have "fst (snd (c, added, h', r', w'))" by (intro fill_loop_keeps) simp_all
  then show ?thesis by simp
qed

text \<open>The items that a limit leaves room for in an empty request, which is what is written around the texts.\<close>

definition fits :: "mcl_size_t \<Rightarrow> texts \<Rightarrow> bool" where
  "fits limit t \<longleftrightarrow> (case t of (pt, m, n, xs) \<Rightarrow> 232 + length META_TYPE + length pt + unat n + length m < unat limit)"

lemma fits_room:
  assumes "fits (max_http_payload_size r) t" "resize_enabled r" "request_ok r b" "body r = []"
  shows "room_for t r"
proof -
  obtain pt m n xs where t: "t = (pt, m, n, xs)" by (rule prod_cases4)
  let ?limit = "max_http_payload_size r"
  have size1: "unat (payload_offset r) \<le> unat (payload_size r)" "case payload r of None \<Rightarrow> payload_size r = 0 | Some p \<Rightarrow> length p = unat (payload_size r)"
    using assms(3) by (simp_all add: request_ok_def)
  have "unat (payload_offset r) = 0"
    using size1 assms(4) by (cases "payload r") (auto simp: body_def)
  then have off: "payload_offset r = 0" by (simp only: unat_eq_0)
  have over: "OVERHEAD_FOR_TUPLE = 232" by (simp add: request_sizes)
  have big: "232 < ?limit" "unat (?limit - 232) = unat ?limit - 232"
    using assms(1) by (auto simp: fits_def t word_less_nat_alt unat_sub word_le_nat_alt)
  have "get_available_space r 232 = ?limit - 232"
    using big(1) assms(2) by (simp add: get_available_space_def off Let_def MCL_SIZE_MAX_def)
  then show ?thesis
    using assms(1) big(2) by (simp add: room_for_def t fits_def http_request_get_available_space_for_tuple_def over)
qed

text \<open>The first item of a store waits and fits.\<close>

definition first_fits :: "mcl_size_t \<Rightarrow> (addr \<Rightarrow> texts) \<Rightarrow> (addr \<times> store_data_t) list \<Rightarrow> bool" where
  "first_fits limit T ds \<longleftrightarrow> (\<exists>a d ds'. ds = (a, d) # ds' \<and> waits d \<and> fits limit (T a))"

section \<open>An example\<close>

lemma http_request_add_tuple_correct_witness:
  "\<exists>r1 w1 sb. http_request_add_tuple counting_source sample_request (handle_of ''{}'') (handle_of ''{}'')
      (copy_sample ''data'') 4 (handle_of ''{}'') quiet_world = Some (MCL_OK, r1, w1)
    \<and> live w1 - payload_blocks r1 = live quiet_world - payload_blocks sample_request
    \<and> request_ok r1 sample_boundary \<and> length sb = 22
    \<and> body r1 = body sample_request @ tuple_text sample_boundary sb ''{}'' ''{}'' ''{}'' ''data''"
proof -
  have small: "length ''{}'' < 2 ^ 30" "unat (4 :: mcl_size_t) < 2 ^ 60" by simp_all
  have fills: "fills_buffers counting_source" "gives_numbers counting_source"
    by (simp_all add: fills_buffers_def gives_numbers_def counting_source_def)
  have copy: "copies (copy_sample ''data'') 4 ''data''" by (rule copies_copy_sample) simp
  have calm: "upcoming quiet_world = []" by (simp add: quiet_world_def)
  have space: "\<not> (unat (http_request_get_available_space_for_tuple sample_request)
      < length ''{}'' + length ''{}'' + unat (4 :: mcl_size_t) + length ''{}''
    \<or> http_request_get_available_space_for_tuple sample_request = 0)"
    using sample_available(2) by auto
  show ?thesis
    using http_request_add_tuple_correct [OF fills(1) sample_request_ok says_sample(1) says_sample(1) says_sample(1)
      copy small(1) small(1) small(1) small(2), of quiet_world] space calm reliable_boundary [OF _ fills(2)] by blast
qed

end
