(* ===== verification/MCL_Exchange_Loop.thy ===== *)
theory MCL_Exchange_Loop
  imports MCL_Exchange_Fill
begin

text \<open>
  The rounds of the exchange, of \<^verbatim>\<open>http_processor.c\<close>: a request is made with its header lines, filled, sent, and the
  response evaluated, until the store is empty or a round fails.
\<close>

section \<open>The parts of a request\<close>

text \<open>How far the array of header lines may grow; a few lines never come near to the limit.\<close>

definition array_reach :: "string_array_t \<Rightarrow> nat" where
  "array_reach a = unat (array_count a) + unat (array_increment a) + 10"

lemma string_array_add_reach:
  assumes "string_array_add a s d w = Some (c, a1, w1)" "2 * array_reach a < 2 ^ 60"
  shows "array_reach a1 \<le> 2 * array_reach a"
proof -
  have "unat (array_count a + array_increment a) \<le> unat (array_count a) + unat (array_increment a)"
    "unat (array_count a + 5) \<le> unat (array_count a) + 5"
    by (simp_all add: unat_word_ariths)
  then show ?thesis
    using assms(1) by (auto simp: string_array_add_def grow_array_def Let_def bind_eq_Some_conv array_reach_def
        DEFAULT_INCREMENT_VALUE_def split: if_splits option.splits prod.splits)
qed

text \<open>A request whose lines are \<open>its\<close>.\<close>

definition lines_held :: "http_request_t \<Rightarrow> (string_t \<times> bool) list \<Rightarrow> nat \<Rightarrow> bool" where
  "lines_held r its n \<longleftrightarrow> (\<exists>a. header r = Some a \<and> array_holds a its \<and> array_reach a \<le> n)"

definition request_blocks :: "http_request_t \<Rightarrow> (string_t \<times> bool) list \<Rightarrow> int" where
  "request_blocks r its = 1 + array_blocks its + string_blocks (uri r) + string_blocks (boundary r) + payload_blocks r"

lemma lines_held_frame:
  "frame r' = frame r \<Longrightarrow> lines_held r' its n = lines_held r its n \<and>
    request_blocks r' its - payload_blocks r' = request_blocks r its - payload_blocks r"
  by (cases r; cases r') (simp add: frame_def lines_held_def request_blocks_def)

lemma destroy_request:
  assumes "lines_held r its n"
  shows "\<exists>w'. http_request_destroy (Some r) w = Some (None, w') \<and> live w' = live w - request_blocks r its
    \<and> upcoming w' = upcoming w"
proof -
  obtain a where r: "header r = Some a" "array_holds a its" using assms by (auto simp: lines_held_def)
  obtain w1 where "string_array_destroy (Some a) w = Some (None, w1)" "live w1 = live w - array_blocks its" "upcoming w1 = upcoming w"
    using string_array_destroy_holds [OF r(2), of w] by blast
  then show ?thesis
    using r by (cases "payload r")
      (auto simp: http_request_destroy_def request_blocks_def payload_blocks_def release_block_def)
qed

section \<open>Header lines\<close>

lemma compare_texts:
  "says a s \<Longrightarrow> says b t \<Longrightarrow> string_compare False (Some a) (Some b) = Some (if s = t then MCL_OK else MCL_FAIL)"
  using string_compare_correct [of a s b t] by blast

lemma calm_two_blocks:
  "upcoming w = [] \<Longrightarrow> n + 1 \<noteq> 0 \<Longrightarrow> two_blocks n w = (True, w\<lparr>live := live w + 2, fresh := fresh w + 2\<rparr>)"
  by (rule two_blocks_granted)

lemma calm_array_add:
  "string_array_add a s d w = Some (c, a1, w1) \<Longrightarrow> upcoming w = [] \<Longrightarrow> upcoming w1 = []"
  by (auto simp: string_array_add_def grow_array_def Let_def bind_eq_Some_conv dest: calm_reallocate
      split: if_splits prod.splits option.splits)

lemma array_add_granted:
  assumes "array_holds a its" "array_reach a \<le> n" "n \<le> 2 ^ 50" "upcoming w = []"
  shows "\<exists>a1 w1. string_array_add a s d w = Some (MCL_OK, a1, w1) \<and> array_holds a1 (its @ [(s, d)])
    \<and> array_reach a1 \<le> 2 * n \<and> live w1 = live w \<and> upcoming w1 = []"
proof -
  have small: "unat (array_count a) + unat (array_increment a) + 5 < 2 ^ 60" "2 * array_reach a < 2 ^ 60"
    using assms(2,3) by (simp_all add: array_reach_def)
  obtain c a1 w1 where add: "string_array_add a s d w = Some (c, a1, w1)"
    "c = MCL_OK \<and> array_holds a1 (its @ [(s, d)]) \<and> live w1 = live w
      \<or> c = MCL_OUT_OF_MEMORY \<and> array_items a1 = None \<and> live w1 = live w - 1"
    using string_array_add_holds [OF assms(1) small(1), of s d w] by blast
  have "c \<noteq> MCL_OUT_OF_MEMORY"
  proof
    assume "c = MCL_OUT_OF_MEMORY"
    then have oom: "array_index a \<ge> array_count a" "\<exists>a1 w1. grow_array a w = Some (False, a1, w1)"
      using add(1) by (auto simp: string_array_add_def bind_eq_Some_conv split: if_splits)
    let ?inc = "if 0 = array_increment a then DEFAULT_INCREMENT_VALUE else array_increment a"
    have inc: "unat (array_count a) + unat ?inc < 2 ^ 60" "0 < unat ?inc"
      using small(1) by (auto simp: DEFAULT_INCREMENT_VALUE_def unat_gt_0)
    then have "unat (array_count a + ?inc) = unat (array_count a) + unat ?inc" by (intro unat_add_less) simp
    then have "unat ((array_count a + ?inc) * sizeof_string_array_item) \<noteq> 0" using inc by (subst unat_item_size) auto
    then have "(array_count a + ?inc) * sizeof_string_array_item \<noteq> 0" by (metis unat_0)
    then show False
      using oom(2) assms(4) by (auto simp: grow_array_def Let_def bind_eq_Some_conv split: option.splits prod.splits
          dest!: calm_reallocate)
  qed
  then show ?thesis
    using add string_array_add_reach [OF add(1) small(2)] calm_array_add [OF add(1) assms(4)] assms(2) by auto
qed

definition header_line :: "string \<Rightarrow> string \<Rightarrow> string \<Rightarrow> string" where
  "header_line b n v = n @ '': '' @ v
    @ (if n = ''Content-Type'' \<and> v = ''multipart/mixed'' then '';boundary='' @ b @ '';charset=utf-8'' else [])"

lemma says_constants:
  "says (http_header_name HTTP_HEADER_CONTENT_TYPE) ''Content-Type''"
  "says (http_header_name HTTP_HEADER_ACCEPT) ''Accept''"
  "says (http_header_name HTTP_HEADER_AUTHORIZATION) ''Authorization''"
  "says (http_header_name HTTP_HEADER_USER_AGENT) ''User-Agent''"
  "says (http_header_name HTTP_HEADER_CORRELATION_ID) ''Correlation-ID''"
  "says (content_type_value CONTENT_TYPE_MULTIPART_MIXED) ''multipart/mixed''"
  "says (content_type_value CONTENT_TYPE_APPLICATION_JSON) ''application/json''"
  by (simp_all add: http_header_name_def http_header_names_def header_indices_def content_type_value_def
      content_type_values_def content_type_indices_def says_constant)

lemma add_header_runs:
  assumes "header r = Some a" "array_holds a its" "array_reach a \<le> n" "n \<le> 2 ^ 50" "upcoming w = []"
    and "says name nt" "says val vt" "length nt < 2 ^ 20" "length vt < 2 ^ 20"
    and "nt = ''Content-Type'' \<and> vt = ''multipart/mixed'' \<Longrightarrow> \<exists>s. boundary r = Some s \<and> says s b" "length b = 22"
  shows "\<exists>a1 s w1. http_request_add_header r name val w = Some (MCL_OK, r\<lparr>header := Some a1\<rparr>, w1)
    \<and> array_holds a1 (its @ [(s, True)]) \<and> array_reach a1 \<le> 2 * n \<and> says s (header_line b nt vt) \<and> blocks_of s = 2
    \<and> live w1 = live w + 2 \<and> upcoming w1 = []"
proof -
  obtain nr where n: "string_buffer name = Some (nt @ NUL # nr)" "is_text nt" "string_length name = size_of_nat (length nt)"
    using assms(6) by (auto simp: says_def)
  obtain vr where v: "string_buffer val = Some (vt @ NUL # vr)" "is_text vt" "string_length val = size_of_nat (length vt)"
    using assms(7) by (auto simp: says_def)
  let ?out = "header_line b nt vt"
  let ?mixed = "nt = ''Content-Type'' \<and> vt = ''multipart/mixed''"
  have c: "string_compare False (Some name) (Some (http_header_name HTTP_HEADER_CONTENT_TYPE))
      = Some (if nt = ''Content-Type'' then MCL_OK else MCL_FAIL)"
    "string_compare False (Some val) (Some (content_type_value CONTENT_TYPE_MULTIPART_MIXED))
      = Some (if vt = ''multipart/mixed'' then MCL_OK else MCL_FAIL)"
    by (rule compare_texts [OF assms(6) says_constants(1)], rule compare_texts [OF assms(7) says_constants(6)])
  have short: "?out \<noteq> []" "length ?out < 2 ^ 31" using assms(8,9,11) by (simp_all add: header_line_def)
  have words: "is_text ?out"
  proof (cases ?mixed)
    case True
    then obtain s where "says s b" using assms(10) by blast
    then show ?thesis using n(2) v(2) by (simp add: header_line_def says_def)
  qed (use n(2) v(2) in \<open>auto simp: header_line_def\<close>)
  have line: "header_format r name val = Some (size_of_nat (length ?out), ?out)"
  proof (cases ?mixed)
    case True
    then obtain s br where s: "boundary r = Some s" "string_buffer s = Some (b @ NUL # br)" "is_text b" "string_length s = size_of_nat (length b)"
      using assms(10) by (auto simp: says_def)
    then show ?thesis using True n v assms(11) by (simp add: header_format_def c header_line_def chars_of_text)
  qed (use n v in \<open>auto simp: header_format_def c header_line_def chars_of_text\<close>)
  let ?n = "size_of_nat (length ?out) :: mcl_size_t"
  have un: "unat ?n = length ?out" using short(2) by (intro unat_size_of_nat) simp
  have pos: "0 < ?n" "?n + 1 \<noteq> 0"
    using short by (simp_all only: size_pos_iff un) (simp, intro succ_length_nonzero, simp)
  have new: "string_initialize_new None ?n w = Some (MCL_OK,
      Some \<lparr>string_buffer = Some (unwritten w (length ?out) @ [NUL]), string_length = ?n, string_type = MCL_STRING_COPY_DESTROY\<rparr>,
      w\<lparr>live := live w + 2, fresh := fresh w + 2\<rparr>)"
    using string_initialize_new_space [OF pos, of w] calm_two_blocks [OF assms(5) pos(2)] un by simp
  have print: "string_util_snprintf (unwritten w (length ?out) @ [NUL]) (?n + 1) ?out = Some (MCL_OK, ?out @ [NUL])"
    by (rule snprintf_exact [OF short]) simp
  define s where "s = \<lparr>string_buffer = Some (?out @ [NUL]), string_length = ?n, string_type = MCL_STRING_COPY_DESTROY\<rparr>"
  obtain a1 w1 where add: "string_array_add a s True (w\<lparr>live := live w + 2, fresh := fresh w + 2\<rparr>) = Some (MCL_OK, a1, w1)"
    "array_holds a1 (its @ [(s, True)])" "array_reach a1 \<le> 2 * n" "live w1 = live w + 2" "upcoming w1 = []"
    using array_add_granted [OF assms(2-4), of "w\<lparr>live := live w + 2, fresh := fresh w + 2\<rparr>" s True] assms(5) by auto
  have "http_request_add_header r name val w = Some (MCL_OK, r\<lparr>header := Some a1\<rparr>, w1)"
    using line new print add(1) assms(1) by (simp add: http_request_add_header_def s_def)
  moreover have "says s ?out" "blocks_of s = 2" using words short(2) by (simp_all add: s_def says_def blocks_of_def)
  ultimately show ?thesis using add by blast
qed

lemma add_line:
  assumes "lines_held r its n" "n \<le> 2 ^ 50" "upcoming w = []"
    and "says name nt" "says val vt" "length nt < 2 ^ 20" "length vt < 2 ^ 20"
    and "nt = ''Content-Type'' \<and> vt = ''multipart/mixed'' \<Longrightarrow> \<exists>s. boundary r = Some s \<and> says s b" "length b = 22"
  obtains a1 s w1 where "http_request_add_header r name val w = Some (MCL_OK, r\<lparr>header := Some a1\<rparr>, w1)"
    "lines_held (r\<lparr>header := Some a1\<rparr>) (its @ [(s, True)]) (2 * n)" "says s (header_line b nt vt)"
    "request_blocks (r\<lparr>header := Some a1\<rparr>) (its @ [(s, True)]) = request_blocks r its + 2" "live w1 = live w + 2" "upcoming w1 = []"
proof -
  obtain a where a: "header r = Some a" "array_holds a its" "array_reach a \<le> n" using assms(1) by (auto simp: lines_held_def)
  obtain a1 s w1 where "http_request_add_header r name val w = Some (MCL_OK, r\<lparr>header := Some a1\<rparr>, w1)"
    "array_holds a1 (its @ [(s, True)])" "array_reach a1 \<le> 2 * n" "says s (header_line b nt vt)" "blocks_of s = 2"
    "live w1 = live w + 2" "upcoming w1 = []"
    using add_header_runs [OF a assms(2-9)] by blast
  then show thesis
    by (intro that) (auto simp: lines_held_def request_blocks_def payload_blocks_def array_blocks_def)
qed

lemma header_unchanged [simp]:
  "request_ok (r\<lparr>header := h\<rparr>) b = request_ok r b" "body (r\<lparr>header := h\<rparr>) = body r" "boundary (r\<lparr>header := h\<rparr>) = boundary r"
  by (simp_all add: request_ok_def body_def cong: option.case_cong)

lemma calm_static:
  assumes "upcoming w = []" "is_text s" "length s + 1 < 2 ^ 64"
  shows "\<exists>str w1. string_initialize_static (Some (cstring s)) 0 w = Some (MCL_OK, Some str, w1) \<and> says str s
    \<and> blocks_of str = 1 \<and> live w1 = live w + 1 \<and> upcoming w1 = []"
  using assms
  by (auto simp: string_initialize_static_def initialize_typed_def initialize_buffer_def memory_allocate_unbounded
      sizeof_string_def cstring_def string_util_strlen_text says_def blocks_of_def)

lemma calm_concatenate:
  assumes "upcoming w = []" "says a s" "says b t" "length s + length t < 2 ^ 31" "s @ t \<noteq> []"
  shows "\<exists>w1. string_concatenate a b w = Some (MCL_OK, Some (handle_of (s @ t)), w1) \<and> live w1 = live w + 2 \<and> upcoming w1 = []"
proof -
  have "size_of_nat (length (s @ t)) + 1 \<noteq> (0 :: mcl_size_t)" using assms(4) by (intro succ_length_nonzero) simp
  then show ?thesis
    using string_concatenate_text [OF assms(2-5), of w] calm_two_blocks [OF assms(1)] assms(1) by simp
qed

lemma authentication_runs:
  assumes "lines_held r its n" "n \<le> 2 ^ 50" "upcoming w = []" "length b = 22"
    and "access_token (processor_security_handler p) = Some token" "says token t" "length t < 2 ^ 18"
  obtains a1 s w1 where "add_authentication_header_to_request p r True w = Some (MCL_OK, r\<lparr>header := Some a1\<rparr>, w1)"
    "lines_held (r\<lparr>header := Some a1\<rparr>) (its @ [(s, True)]) (2 * n)" "says s (header_line b ''Authorization'' (''Bearer '' @ t))"
    "request_blocks (r\<lparr>header := Some a1\<rparr>) (its @ [(s, True)]) = request_blocks r its + 2" "live w1 = live w + 2" "upcoming w1 = []"
proof -
  obtain bearer w1 where 1: "string_initialize_static (Some (cstring ''Bearer '')) 0 w = Some (MCL_OK, Some bearer, w1)"
    "says bearer ''Bearer ''" "blocks_of bearer = 1" "live w1 = live w + 1" "upcoming w1 = []"
    using calm_static [OF assms(3), of "''Bearer ''"] by auto
  obtain w2 where 2: "string_concatenate bearer token w1 = Some (MCL_OK, Some (handle_of (''Bearer '' @ t)), w2)"
    "live w2 = live w1 + 2" "upcoming w2 = []"
    using calm_concatenate [OF 1(5,2) assms(6)] assms(7) by auto
  define w3 where "w3 = snd (string_destroy (Some bearer) w2)"
  have w3: "live w3 = live w + 2" "upcoming w3 = []" using 1 2 by (simp_all add: w3_def string_blocks_def)
  have says: "says (handle_of (''Bearer '' @ t)) (''Bearer '' @ t)"
    using assms(6,7) by (intro says_handle_of) (auto simp: says_def is_text_def)
  obtain a1 s w4 where 3: "http_request_add_header r (http_header_name HTTP_HEADER_AUTHORIZATION) (handle_of (''Bearer '' @ t)) w3
      = Some (MCL_OK, r\<lparr>header := Some a1\<rparr>, w4)"
    "lines_held (r\<lparr>header := Some a1\<rparr>) (its @ [(s, True)]) (2 * n)" "says s (header_line b ''Authorization'' (''Bearer '' @ t))"
    "request_blocks (r\<lparr>header := Some a1\<rparr>) (its @ [(s, True)]) = request_blocks r its + 2" "live w4 = live w3 + 2" "upcoming w4 = []"
    by (rule add_line [OF assms(1,2) w3(2) says_constants(3) says _ _ _ assms(4)]) (use assms(7) in auto)
  show thesis
  proof (rule that [OF _ 3(2-4)])
    show "add_authentication_header_to_request p r True w
        = Some (MCL_OK, r\<lparr>header := Some a1\<rparr>, snd (string_destroy (Some (handle_of (''Bearer '' @ t))) w4))"
      using 1(1) 2(1) 3(1) assms(5) by (simp add: add_authentication_header_to_request_def w3_def)
  qed (use 3 w3 in \<open>simp_all add: string_blocks_def\<close>)
qed

section \<open>A new request\<close>

lemma calm_boundary_runs:
  assumes "calm_source rand" "upcoming w = []"
  shows "\<exists>code bnd w'. generate_random_boundary rand w = Some (code, bnd, w') \<and> upcoming w' = []
    \<and> (case bnd of
        Some s \<Rightarrow> code = MCL_OK \<and> blocks_of s = 2 \<and> live w' = live w + 2 \<and> (\<exists>b. says s b \<and> length b = 22)
      | None \<Rightarrow> code \<in> {MCL_OUT_OF_MEMORY, MCL_FAIL} \<and> live w' = live w)"
proof -
  have "fills_buffers rand" using assms(1) by (simp add: calm_source_def)
  from generate_random_boundary_runs [OF this, of w] obtain code bnd w' where r:
    "generate_random_boundary rand w = Some (code, bnd, w')"
    "case bnd of
        Some s \<Rightarrow> code = MCL_OK \<and> blocks_of s = 2 \<and> live w' = live w + 2
          \<and> (\<exists>t. string_buffer s = Some (t @ [NUL]) \<and> says s t \<and> length t = 22 \<and> set t \<subseteq> set boundary_characters)
      | None \<Rightarrow> code \<in> {MCL_OUT_OF_MEMORY, MCL_FAIL} \<and> live w' = live w" by blast
  then show ?thesis using calm_boundary [OF r(1) assms] by (auto split: option.splits)
qed

lemma calm_copy:
  assumes "upcoming w = []" "says s t"
  shows "\<exists>w1. string_initialize s w = Some (MCL_OK, Some (handle_of t), w1) \<and> live w1 = live w + 2 \<and> upcoming w1 = []"
proof -
  obtain rest where s: "string_buffer s = Some (t @ NUL # rest)" "string_length s = size_of_nat (length t)"
    "is_text t" "length t + 1 < 2 ^ 64" using assms(2) by (auto simp: says_def)
  have "size_of_nat (length t) + 1 \<noteq> (0 :: mcl_size_t)" using s(4) by (rule succ_length_nonzero)
  then show ?thesis
    using string_initialize_new_text [OF s(3,4), of "size_of_nat (length t)" "NUL # rest" w] calm_two_blocks [OF assms(1)] assms(1) s
    by (cases "t = []") (auto simp: string_initialize_def string_initialize_new_def)
qed

lemma calm_array_initialize:
  assumes "upcoming w = []"
  shows "\<exists>a w1. string_array_initialize 4 w = Some (MCL_OK, Some a, w1) \<and> array_holds a [] \<and> array_reach a \<le> 32
    \<and> live w1 = live w + 2 \<and> upcoming w1 = []"
proof -
  obtain code r w' where i: "string_array_initialize 4 w = Some (code, r, w')"
    "case r of
        Some a \<Rightarrow> code = MCL_OK \<and> array_holds a [] \<and> array_count a = 4 \<and> live w' = live w + 2
      | None \<Rightarrow> code = MCL_OUT_OF_MEMORY \<and> live w' = live w"
    using string_array_initialize_holds [of 4 w] by auto
  show ?thesis
    using i assms
    by (auto simp: string_array_initialize_def memory_allocate_unbounded sizeof_string_array_def sizeof_string_array_item_def
        bind_eq_Some_conv array_reach_def DEFAULT_INCREMENT_VALUE_def split: option.splits)
qed

text \<open>A new request for the exchange, unless the random source fails.\<close>

lemma request_initialize_runs:
  assumes "calm_source rand" "upcoming w = []" "says endpoint ut" "says agent ag" "length ag < 2 ^ 20"
    and "200 \<le> unat limit" "unat limit < 2 ^ 62"
  obtains (refused) code w1 where
      "http_request_initialize rand MCL_HTTP_POST endpoint 3 200 True agent limit w = Some (code, None, w1)"
      "code \<noteq> MCL_OK" "live w1 = live w" "upcoming w1 = []" "\<not> gives_numbers rand"
  | (granted) r b its w1 where
      "http_request_initialize rand MCL_HTTP_POST endpoint 3 200 True agent limit w = Some (MCL_OK, Some r, w1)"
      "request_ok r b" "lines_held r its 64" "body r = []" "upcoming w1 = []" "max_http_payload_size r = limit" "resize_enabled r"
      "live w1 = live w + request_blocks r its"
proof -
  obtain w1 where a1: "memory_allocate sizeof_http_request w = (Some (fresh w), w1)" "live w1 = live w + 1" "upcoming w1 = []"
    using assms(2) by (simp add: memory_allocate_unbounded sizeof_http_request_def)
  obtain a w2 where a2: "string_array_initialize 4 w1 = Some (MCL_OK, Some a, w2)" "array_holds a []" "array_reach a \<le> 32"
    "live w2 = live w1 + 2" "upcoming w2 = []" using calm_array_initialize [OF a1(3)] by blast
  define r1 where "r1 = \<lparr>header = Some a, payload = None, payload_size = 200, payload_offset = 0,
          http_method = MCL_HTTP_POST, uri = None, boundary = None, max_http_payload_size = limit,
          resize_enabled = True, finalized = False\<rparr>"
  have held: "lines_held r1 [] 32" using a2(2,3) by (simp add: lines_held_def r1_def)
  obtain a3 s w3 where l: "http_request_add_header r1 (http_header_name HTTP_HEADER_USER_AGENT) agent w2
      = Some (MCL_OK, r1\<lparr>header := Some a3\<rparr>, w3)"
    "lines_held (r1\<lparr>header := Some a3\<rparr>) ([] @ [(s, True)]) (2 * 32)"
    "request_blocks (r1\<lparr>header := Some a3\<rparr>) ([] @ [(s, True)]) = request_blocks r1 [] + 2" "live w3 = live w2 + 2" "upcoming w3 = []"
    by (rule add_line [OF held _ a2(5) says_constants(4) assms(4), of "replicate 22 CHR ''b''"]) (use assms(5) in auto)
  obtain w4 where a4: "memory_allocate 200 w3 = (Some (fresh w3), w4)" "live w4 = live w3 + 1" "upcoming w4 = []"
    using l(5) by (simp add: memory_allocate_unbounded)
  obtain w5 where u: "string_initialize endpoint w4 = Some (MCL_OK, Some (handle_of ut), w5)" "live w5 = live w4 + 2" "upcoming w5 = []"
    using calm_copy [OF a4(3) assms(3)] by blast
  define r4 where "r4 = r1\<lparr>header := Some a3, payload := Some (unwritten w3 200), uri := Some (handle_of ut)\<rparr>"
  obtain code bnd w6 where g: "generate_random_boundary rand w5 = Some (code, bnd, w6)" "upcoming w6 = []"
    "case bnd of
        Some s \<Rightarrow> code = MCL_OK \<and> blocks_of s = 2 \<and> live w6 = live w5 + 2 \<and> (\<exists>b. says s b \<and> length b = 22)
      | None \<Rightarrow> code \<in> {MCL_OUT_OF_MEMORY, MCL_FAIL} \<and> live w6 = live w5"
    using calm_boundary_runs [OF assms(1) u(3)] by blast
  have live: "live w5 = live w + 8" using a1 a2 l a4 u by simp
  have blocks: "request_blocks (r4\<lparr>boundary := bnd\<rparr>) [(s, True)] = 8 + string_blocks bnd"
    using l(3) by (simp add: request_blocks_def r4_def r1_def payload_blocks_def string_blocks_def array_blocks_def)
  have held4: "lines_held (r4\<lparr>boundary := bnd\<rparr>) [(s, True)] 64"
    using l(2) by (simp add: lines_held_def r4_def)
  have run: "http_request_initialize rand MCL_HTTP_POST endpoint 3 200 True agent limit w =
      (if MCL_OK \<noteq> code then give_up code (r4\<lparr>boundary := bnd\<rparr>) w6 else Some (MCL_OK, Some (r4\<lparr>boundary := bnd\<rparr>), w6))"
    using a1(1) a2(1) l(1) a4(1) u(1) g(1) by (simp add: http_request_initialize_def r4_def r1_def)
  show thesis
  proof (cases bnd)
    case None
    obtain w7 where d: "http_request_destroy (Some (r4\<lparr>boundary := bnd\<rparr>)) w6 = Some (None, w7)" "live w7 = live w6 - 8" "upcoming w7 = []"
      using destroy_request [OF held4, of w6] blocks g(2) None by (auto simp: string_blocks_def)
    show thesis
      by (rule refused [of code w7]) (use run d g(1,3) None live u(3) reliable_boundary [of rand w5]
        in \<open>auto simp: give_up_def\<close>)
  next
    case (Some sb)
    then obtain b where b: "says sb b" "length b = 22" using g(3) by auto
    show thesis
    proof (rule granted)
      show "http_request_initialize rand MCL_HTTP_POST endpoint 3 200 True agent limit w = Some (MCL_OK, Some (r4\<lparr>boundary := bnd\<rparr>), w6)"
        using run Some g(3) by simp
      show "request_ok (r4\<lparr>boundary := bnd\<rparr>) b"
        using b Some assms(6,7) by (simp add: request_ok_def r4_def r1_def word_le_nat_alt)
      show "body (r4\<lparr>boundary := bnd\<rparr>) = []" by (simp add: body_def r4_def r1_def)
      show "lines_held (r4\<lparr>boundary := bnd\<rparr>) [(s, True)] 64" by (rule held4)
    qed (use g blocks live Some in \<open>auto simp: r4_def r1_def string_blocks_def\<close>)
  qed
qed

text \<open>The lines every request of the exchange begins with.\<close>

lemma initialize_headers_runs:
  assumes "request_ok r b" "lines_held r its n" "n \<le> 2 ^ 40" "upcoming w = []"
    and "access_token (processor_security_handler p) = Some token" "says token t" "length t < 2 ^ 18"
  obtains h1 its1 w1 where "exchange_initialize_http_request_headers p r True w = Some (MCL_OK, r\<lparr>header := h1\<rparr>, w1)"
    "lines_held (r\<lparr>header := h1\<rparr>) its1 (8 * n)" "upcoming w1 = []"
    "live w1 - request_blocks (r\<lparr>header := h1\<rparr>) its1 = live w - request_blocks r its"
proof -
  obtain sb where b: "boundary r = Some sb" "says sb b" "length b = 22" using assms(1) by (auto simp: request_ok_def)
  obtain a1 s1 w1 where 1: "http_request_add_header r (http_header_name HTTP_HEADER_CONTENT_TYPE)
      (content_type_value CONTENT_TYPE_MULTIPART_MIXED) w = Some (MCL_OK, r\<lparr>header := Some a1\<rparr>, w1)"
    "lines_held (r\<lparr>header := Some a1\<rparr>) (its @ [(s1, True)]) (2 * n)"
    "request_blocks (r\<lparr>header := Some a1\<rparr>) (its @ [(s1, True)]) = request_blocks r its + 2" "live w1 = live w + 2" "upcoming w1 = []"
    by (rule add_line [OF assms(2) _ assms(4) says_constants(1,6), of b]) (use assms(3) b in auto)
  obtain a2 s2 w2 where 2: "http_request_add_header (r\<lparr>header := Some a1\<rparr>) (http_header_name HTTP_HEADER_ACCEPT)
      (content_type_value CONTENT_TYPE_APPLICATION_JSON) w1 = Some (MCL_OK, r\<lparr>header := Some a2\<rparr>, w2)"
    "lines_held (r\<lparr>header := Some a2\<rparr>) ((its @ [(s1, True)]) @ [(s2, True)]) (2 * (2 * n))"
    "request_blocks (r\<lparr>header := Some a2\<rparr>) ((its @ [(s1, True)]) @ [(s2, True)])
      = request_blocks (r\<lparr>header := Some a1\<rparr>) (its @ [(s1, True)]) + 2" "live w2 = live w1 + 2" "upcoming w2 = []"
    by (rule add_line [OF 1(2) _ 1(5) says_constants(2,7), of b]) (use assms(3) b in auto)
  obtain a3 s3 w3 where 3: "add_authentication_header_to_request p (r\<lparr>header := Some a2\<rparr>) True w2
      = Some (MCL_OK, r\<lparr>header := Some a3\<rparr>, w3)"
    "lines_held (r\<lparr>header := Some a3\<rparr>) (((its @ [(s1, True)]) @ [(s2, True)]) @ [(s3, True)]) (2 * (2 * (2 * n)))"
    "request_blocks (r\<lparr>header := Some a3\<rparr>) (((its @ [(s1, True)]) @ [(s2, True)]) @ [(s3, True)])
      = request_blocks (r\<lparr>header := Some a2\<rparr>) ((its @ [(s1, True)]) @ [(s2, True)]) + 2" "live w3 = live w2 + 2" "upcoming w3 = []"
    by (rule authentication_runs [OF 2(2) _ 2(5) b(3) assms(5-7)]) (use assms(3) in auto)
  show thesis
    by (rule that [of "Some a3" w3 "((its @ [(s1, True)]) @ [(s2, True)]) @ [(s3, True)]"])
      (use 1 2 3 in \<open>simp_all add: exchange_initialize_http_request_headers_def algebra_simps\<close>)
qed

section \<open>The identifier of a request\<close>

lemma print_bytes_runs:
  "length rest = 2 * length xs + 1 \<Longrightarrow> rest' = (if xs = [] then rest else [NUL]) \<Longrightarrow>
    print_bytes (length start) xs (start @ rest)
      = Some (MCL_OK, start @ concat (map (\<lambda>x. hex_digits 2 (unat x)) xs) @ rest')"
proof (induction xs arbitrary: start rest rest')
  case (Cons x xs)
  let ?h = "hex_digits 2 (unat x)"
  have "string_util_snprintf rest 3 ?h = Some (MCL_OK, ?h @ NUL # drop (length ?h + 1) rest)"
    by (rule string_util_snprintf_fits) (use Cons.prems in simp_all)
  then have step1: "print_bytes (length start) (x # xs) (start @ rest)
      = print_bytes (length (start @ ?h)) xs ((start @ ?h) @ NUL # drop 3 rest)"
    by simp
  have "print_bytes (length (start @ ?h)) xs ((start @ ?h) @ NUL # drop 3 rest)
      = Some (MCL_OK, (start @ ?h) @ concat (map (\<lambda>x. hex_digits 2 (unat x)) xs) @ [NUL])"
    by (rule Cons.IH) (use Cons.prems in auto)
  then show ?case using step1 Cons.prems by simp
qed simp

text \<open>The random source never fails.\<close>

definition reliable :: "random_source \<Rightarrow> bool" where
  "reliable rand \<longleftrightarrow> (\<forall>n w. fst (rand n w) \<noteq> None)"

lemma reliable_source: "reliable rand \<Longrightarrow> fst (rand n w) \<noteq> None" "reliable rand \<Longrightarrow> gives_numbers rand"
  by (simp_all add: reliable_def gives_numbers_def)

text \<open>It gives the bytes of an identifier at some time.\<close>

definition gives_identifiers :: "random_source \<Rightarrow> bool" where
  "gives_identifiers rand \<longleftrightarrow> (\<exists>w. fst (rand 16 w) \<noteq> None)"

lemma correlation_id_runs:
  assumes "calm_source rand" "upcoming w = []"
  obtains (refused) code w1 where "generate_correlation_id_string rand w = Some (code, None, w1)" "code \<noteq> MCL_OK"
      "live w1 = live w" "upcoming w1 = []" "\<not> reliable rand"
  | (granted) s t w1 where "generate_correlation_id_string rand w = Some (MCL_OK, Some s, w1)" "says s t" "length t = 32"
      "blocks_of s = 2" "live w1 = live w + 2" "upcoming w1 = []" "gives_identifiers rand"
proof -
  obtain r w1 where r: "rand 16 w = (r, w1)" by (cases "rand 16 w")
  have fills: "\<forall>bs. r = Some bs \<longrightarrow> length bs = 16" "live w1 = live w" "upcoming w1 = []"
    using assms(1) [unfolded calm_source_def fills_buffers_def] assms(2) r
    by (auto dest: spec [of _ 16] simp: case_prod_unfold) (metis (no_types, lifting) fst_conv snd_conv)+
  show thesis
  proof (cases r)
    case None
    show thesis
      by (rule refused [of MCL_FAIL w1])
        (use r None fills reliable_source(1) [of rand 16 w] in \<open>auto simp: generate_correlation_id_string_def security_generate_random_bytes_def
          CORRELATION_ID_BYTE_LENGTH_def\<close>)
  next
    case (Some bs)
    have bytes: "length bs = 16" using fills(1) Some by simp
    have full: "write_at (replicate 16 0) 0 bs = Some bs" using bytes by (simp add: write_at_def)
    have new: "string_initialize_new None 32 w1 = Some (MCL_OK, Some \<lparr>string_buffer = Some (unwritten w1 32 @ [NUL]),
        string_length = 32, string_type = MCL_STRING_COPY_DESTROY\<rparr>, w1\<lparr>live := live w1 + 2, fresh := fresh w1 + 2\<rparr>)"
      using string_initialize_new_space [of 32 w1] calm_two_blocks [OF fills(3), of 32] by simp
    let ?t = "concat (map (\<lambda>x. hex_digits 2 (unat x)) bs)"
    have print: "print_bytes 0 bs (unwritten w1 32 @ [NUL]) = Some (MCL_OK, ?t @ [NUL])"
      using print_bytes_runs [of "unwritten w1 32 @ [NUL]" bs "[NUL]" "[]"] bytes by (cases bs) auto
    have len: "length ?t = 32"
    proof -
      have "length (concat (map (\<lambda>x. hex_digits 2 (unat x)) ys)) = 2 * length ys" for ys :: bytes
        by (induction ys) simp_all
      then show ?thesis using bytes by simp
    qed
    have "is_text (hex_digits n v)" for n v
      using set_hex_digits [of n v] by (auto simp: is_text_def lower_hex_def)
    then have words: "is_text ?t" by (auto simp: is_text_def)
    have "gives_identifiers rand" unfolding gives_identifiers_def by (rule exI [of _ w]) (simp add: r Some)
    then show thesis
      by (intro granted [of "\<lparr>string_buffer = Some (?t @ [NUL]), string_length = 32, string_type = MCL_STRING_COPY_DESTROY\<rparr>"
            "w1\<lparr>live := live w1 + 2, fresh := fresh w1 + 2\<rparr>" ?t])
        (use r Some full new print len words fills in \<open>simp_all add: generate_correlation_id_string_def
          security_generate_random_bytes_def CORRELATION_ID_BYTE_LENGTH_def says_def blocks_of_def\<close>)
  qed
qed

section \<open>Filling a request from a store\<close>

lemma first_of_fst: "first_of es p = (if map fst es = [] then p else Some (hd (map fst es)))"
  by (cases es) auto

lemma last_of_fst: "last_of p es = (if map fst es = [] then p else Some (last (map fst es)))"
  by (simp add: last_of_def last_map)

lemma store_contents_filled:
  assumes "store_contents s h ds" "filled as ds ds'" "linked h' None (entries ds') None" "\<forall>(a, d) \<in> set ds'. has_texts other (T a) d"
  shows "store_contents s h' ds'"
proof -
  obtain high low where s: "store_high s = Some high" "store_low s = Some low"
      "represents high h [] (entries ds)" "represents low h [] []" "\<not> store_streamable s"
    using assms(1) unfolding store_contents_def by blast
  have adr: "map fst (entries ds') = map fst (entries ds)" using filled_addresses [OF assms(2)] by simp
  then have ends: "first_of (entries ds') None = first_of (entries ds) None" "last_of None (entries ds') = last_of None (entries ds)"
    by (simp_all only: first_of_fst last_of_fst)
  have len: "length ds' = length ds" using filled_addresses [OF assms(2)] by (metis length_map)
  have "represents high h' [] (entries ds')"
  proof (rule representsI)
    show "distinct (map fst ([] @ entries ds'))" using representsD(2) [OF s(3)] adr by simp
  qed (use assms(3) representsD [OF s(3)] ends len in simp_all)
  moreover have "\<forall>d \<in> snd ` set ds'. data_ok d" using assms(4) by (fastforce simp: has_texts_def)
  ultimately show ?thesis using s represents_other_heap [OF s(4)] by (auto simp: store_contents_def)
qed

text \<open>What a request that was filled holds: the tuples of the items that were written, in the order in which they
  were, and the closing boundary.\<close>

definition message_of :: "(addr \<Rightarrow> texts) \<Rightarrow> string \<Rightarrow> addr list \<Rightarrow> string \<Rightarrow> bool" where
  "message_of T b as x \<longleftrightarrow> (\<exists>xs. list_all2 (\<lambda>a. tuple_of b (T a)) as xs \<and> x = concat xs @ ''--'' @ b @ ''--'')"

text \<open>The items in a request leave the room that each of them has left, but not that of the closing boundary.\<close>

definition leaves_no_room :: "mcl_size_t \<Rightarrow> nat \<Rightarrow> bool" where
  "leaves_no_room limit n \<longleftrightarrow> n + 19 \<le> unat limit \<and> unat limit < n + 26"

lemma message_of_length: "message_of T b as x \<Longrightarrow> length b = 22 \<Longrightarrow> length x = message_length T as + 26"
  by (auto simp: message_of_def tuples_length)

lemma frame_limits:
  "frame r' = frame r \<Longrightarrow> resize_enabled r' = resize_enabled r \<and> max_http_payload_size r' = max_http_payload_size r"
  unfolding frame_def by (metis http_request_t.select_convs(8,9) http_request_t.surjective http_request_t.update_convs(2,3,4))

lemma fill_request_runs:
  assumes "store_contents s h ds" "\<forall>(a, d) \<in> set ds. has_texts other (T a) d" "fillable rand b f r w" "body r = []"
    and "resize_enabled r" "max_http_payload_size r = limit"
  obtains code h' r' w' ds' as where "exchange_fill_http_request rand reader other p s h r w = Some (code, h', r', w')"
    "store_contents s h' ds'" "\<And>a. h' a = None \<longleftrightarrow> h a = None" "filled as ds ds'" "\<forall>(a, d) \<in> set ds'. has_texts other (T a) d"
    "frame r' = f" "request_ok r' b" "upcoming w' = []"
    "live w' - payload_blocks r' - nodes_blocks ds' = live w - payload_blocks r - nodes_blocks ds"
    "code = MCL_OK \<and> as \<noteq> [] \<and> message_of T b as (body r') \<and> message_length T as + 26 \<le> unat limit
      \<or> code = MCL_STORE_ITEM_EXCEEDS_MAX_HTTP_REQUEST_SIZE \<and> as = [] \<and> \<not> (gives_numbers rand \<and> first_fits limit T ds)
      \<or> code = MCL_HTTP_REQUEST_FINALIZE_FAILED \<and> as \<noteq> [] \<and> leaves_no_room limit (message_length T as)"
proof -
  obtain high where s: "store_high s = Some high" "\<not> store_streamable s" using assms(1) by (auto simp: store_contents_def)
  obtain h' r1 w1 ds' as xs where l: "fill_loop (exchange_add_item rand reader other False) (list_head high) (list_current high)
      False False h r w = Some (None, as \<noteq> [], h', r1, w1)"
    "linked h' None (entries ds') None" "\<forall>a. h' a = None \<longleftrightarrow> h a = None" "filled as ds ds'"
    "\<forall>(a, d) \<in> set ds'. has_texts other (T a) d" "fillable rand b f r1 w1"
    "list_all2 (\<lambda>a. tuple_of b (T a)) as xs" "body r1 = body r @ concat xs"
    "live w1 - payload_blocks r1 - nodes_blocks ds' = live w - payload_blocks r - nodes_blocks ds"
    using exchange_fill_loop_runs [OF assms(1-3) s(1), of False reader False] by (auto simp: fills_to_def)
  note held = store_contents_filled [OF assms(1) l(4,2,5)]
  have ok: "request_ok r b" using assms(3) by (simp add: fillable_def)
  have none: "\<not> (gives_numbers rand \<and> first_fits limit T ds)" if "as = []"
  proof
    assume "gives_numbers rand \<and> first_fits limit T ds"
    then obtain a d rest where 1: "gives_numbers rand" "ds = (a, d) # rest" "waits d" "fits limit (T a)"
      unfolding first_fits_def by blast
    have 2: "has_texts other (T a) d" "room_for (T a) r"
      using assms(2) 1(2) fits_room [OF _ assms(5) ok assms(4)] 1(4) assms(6) by auto
    have "as \<noteq> []"
      by (rule fill_loop_adds [OF assms(1) [unfolded 1(2)] s(1) assms(3) 2(1) 1(3,1) 2(2) l(1)])
    then show False using that by simp
  qed
  show thesis
  proof (cases "as = []")
    case True
    then show thesis
      by (intro that [OF _ held _ l(4,5) _ _ _ l(9)])
        (use l s none in \<open>auto simp: exchange_fill_http_request_def fillable_def\<close>)
  next
    case False
    have ok: "request_ok r1 b" "upcoming w1 = []" "frame r1 = f" "length b = 22"
      using l(6) by (simp_all add: fillable_def request_ok_def)
    have kept: "resize_enabled r1" "max_http_payload_size r1 = limit"
      using frame_limits [of r1 r] ok(3) assms(3,5,6) by (simp_all add: fillable_def)
    have len1: "length (body r1) = message_length T as"
      using tuples_length [OF l(7) ok(4)] l(8) assms(4) by simp
    then have some: "body r1 \<noteq> []" using message_length_pos [OF False, of T] by auto
    have sizes: "payload_size r1 \<le> limit" using ok(1) kept by (simp add: request_ok_def)
    have room: "message_length T as + 19 \<le> unat limit"
      using l(6) len1 some sizes by (simp add: fillable_def word_le_nat_alt)
    obtain code r2 w2 where fin: "http_request_finalize r1 w1 = Some (code, r2, w2)"
      "live w2 - payload_blocks r2 = live w1 - payload_blocks r1"
      "code = MCL_OK \<and> request_ok r2 b \<and> body r2 = body r1 @ ''--'' @ b @ ''--''
        \<or> code = MCL_HTTP_REQUEST_FINALIZE_FAILED \<and> r2 = r1 \<and> leaves_no_room limit (message_length T as)"
      using http_request_finalize_runs [OF ok(1), of w1] ok(2) room len1 kept raw_data_space [OF ok(1)]
      by (elim exE conjE disjE) (auto simp: leaves_no_room_def)
    have fill2: "frame r2 = f" "request_ok r2 b" "upcoming w2 = []"
      using fin(3) ok calm_finalize [OF fin(1) ok(2)] frame_finalize [OF fin(1)] by auto
    have within: "length (body r2) \<le> unat limit"
      using body_within_limit [OF fill2(2)] frame_limits [of r2 r1] fill2(1) ok(3) kept by simp
    have run: "exchange_fill_http_request rand reader other p s h r w = Some (code, h', r2, w2)"
      using l(1) s False fin(1,3)
      by (auto simp: exchange_fill_http_request_def exchange_finalize_http_request_def add_authentication_header_to_request_def)
    show thesis
    proof (rule that [OF run held _ l(4,5) fill2])
      show "code = MCL_OK \<and> as \<noteq> [] \<and> message_of T b as (body r2) \<and> message_length T as + 26 \<le> unat limit
        \<or> code = MCL_STORE_ITEM_EXCEEDS_MAX_HTTP_REQUEST_SIZE \<and> as = [] \<and> \<not> (gives_numbers rand \<and> first_fits limit T ds)
        \<or> code = MCL_HTTP_REQUEST_FINALIZE_FAILED \<and> as \<noteq> [] \<and> leaves_no_room limit (message_length T as)"
        using False fin(3) l(7,8) assms(4) within len1 ok(4) by (auto simp: message_of_def)
    qed (use l fin in auto)
  qed
qed

section \<open>A round\<close>

text \<open>What the exchange needs to begin: an address, a name, a token and a limit that is not too small.\<close>

definition able_to_exchange :: "random_source \<Rightarrow> http_processor_t \<Rightarrow> bool" where
  "able_to_exchange rand p \<longleftrightarrow> calm_source rand
    \<and> (\<exists>e u. exchange_endpoint (processor_configuration p) = Some e \<and> says e u)
    \<and> (\<exists>g u. user_agent (processor_configuration p) = Some g \<and> says g u \<and> length u < 2 ^ 20)
    \<and> (\<exists>t u. access_token (processor_security_handler p) = Some t \<and> says t u \<and> length u < 2 ^ 18)
    \<and> 200 \<le> unat (max_payload_size (processor_configuration p)) \<and> unat (max_payload_size (processor_configuration p)) < 2 ^ 62"

text \<open>A client gives a code and, when that is \<open>MCL_OK\<close>, possibly a response that can be destroyed.\<close>

definition client_ok :: "http_client \<Rightarrow> bool" where
  "client_ok client \<longleftrightarrow> (\<forall>r w code response w'. upcoming w = [] \<longrightarrow> client r w = (code, response, w') \<longrightarrow>
    upcoming w' = [] \<and> (\<exists>n. response_ok response n \<and> live w' = live w + n) \<and> (code \<noteq> MCL_OK \<longrightarrow> response = None))"

text \<open>Why a round fails although items were written into its request: there is no room to close it, or no identifier for it.\<close>

definition failed_late :: "random_source \<Rightarrow> mcl_size_t \<Rightarrow> nat \<Rightarrow> E_MCL_ERROR_CODE \<Rightarrow> bool" where
  "failed_late rand limit n code \<longleftrightarrow> code \<noteq> MCL_OK
    \<and> (code = MCL_HTTP_REQUEST_FINALIZE_FAILED \<and> leaves_no_room limit n \<or> \<not> reliable rand)"

lemma prepare_request_runs:
  assumes "store_contents s h ds" "\<forall>(a, d) \<in> set ds. has_texts other (T a) d" "fillable rand b (frame r) r w" "body r = []"
    and "lines_held r its n" "n \<le> 2 ^ 45" "resize_enabled r" "max_http_payload_size r = limit"
  obtains code cid h' r' its' w' ds' as where "prepare_request rand reader other p s h r w = Some (code, cid, h', r', w')"
    "store_contents s h' ds'" "\<And>a. h' a = None \<longleftrightarrow> h a = None" "filled as ds ds'" "\<forall>(a, d) \<in> set ds'. has_texts other (T a) d"
    "upcoming w' = []" "lines_held r' its' (2 * n)"
    "live w' - request_blocks r' its' - string_blocks cid - nodes_blocks ds' = live w - request_blocks r its - nodes_blocks ds"
    "code = MCL_OK \<and> as \<noteq> [] \<and> message_of T b as (body r') \<and> message_length T as + 26 \<le> unat limit \<and> gives_identifiers rand
      \<or> code = MCL_STORE_ITEM_EXCEEDS_MAX_HTTP_REQUEST_SIZE \<and> as = [] \<and> \<not> (gives_numbers rand \<and> first_fits limit T ds)
      \<or> as \<noteq> [] \<and> failed_late rand limit (message_length T as) code"
proof -
  have calm: "calm_source rand" using assms(3) by (simp add: fillable_def)
  obtain code h' r' w' ds' as where fill: "exchange_fill_http_request rand reader other p s h r w = Some (code, h', r', w')"
    "store_contents s h' ds'" "\<And>a. h' a = None \<longleftrightarrow> h a = None" "filled as ds ds'" "\<forall>(a, d) \<in> set ds'. has_texts other (T a) d"
    and r': "frame r' = frame r" "request_ok r' b" "upcoming w' = []"
    and bal: "live w' - payload_blocks r' - nodes_blocks ds' = live w - payload_blocks r - nodes_blocks ds"
    and ends: "code = MCL_OK \<and> as \<noteq> [] \<and> message_of T b as (body r') \<and> message_length T as + 26 \<le> unat limit
      \<or> code = MCL_STORE_ITEM_EXCEEDS_MAX_HTTP_REQUEST_SIZE \<and> as = [] \<and> \<not> (gives_numbers rand \<and> first_fits limit T ds)
      \<or> code = MCL_HTTP_REQUEST_FINALIZE_FAILED \<and> as \<noteq> [] \<and> leaves_no_room limit (message_length T as)"
    using fill_request_runs [OF assms(1-4,7,8), of reader p] by blast
  have held: "lines_held r' its n" "lines_held r' its (2 * n)"
    "request_blocks r' its - payload_blocks r' = request_blocks r its - payload_blocks r"
    using lines_held_frame [OF r'(1), of its n] assms(5) by (auto simp: lines_held_def)
  note result = that [OF _ fill(2,3,4,5)]
  show thesis
  proof (cases "code = MCL_OK")
    case False
    show thesis
      by (rule result [of code None r' w' its])
        (use fill(1) bal ends r' held False in \<open>auto simp: prepare_request_def string_blocks_def failed_late_def\<close>)
  next
    case True
    note good = ends [unfolded True, simplified]
    from calm r'(3) show thesis
    proof (cases rule: correlation_id_runs)
      case (refused code1 w1)
      show thesis
        by (rule result [of code1 None r' w1 its])
          (use fill(1) bal good r' held True refused in \<open>simp_all add: prepare_request_def string_blocks_def failed_late_def\<close>)
    next
      case (granted c t w1)
      have b: "length b = 22" using r'(2) by (simp add: request_ok_def)
      obtain a1 sl w2 where l: "http_request_add_header r' (http_header_name HTTP_HEADER_CORRELATION_ID) c w1
          = Some (MCL_OK, r'\<lparr>header := Some a1\<rparr>, w2)"
        "lines_held (r'\<lparr>header := Some a1\<rparr>) (its @ [(sl, True)]) (2 * n)"
        "request_blocks (r'\<lparr>header := Some a1\<rparr>) (its @ [(sl, True)]) = request_blocks r' its + 2" "live w2 = live w1 + 2" "upcoming w2 = []"
        by (rule add_line [OF held(1) _ granted(6) says_constants(5) granted(2) _ _ _ b]) (use assms(6) granted(3) in auto)
      show thesis
        by (rule result [of MCL_OK "Some c" "r'\<lparr>header := Some a1\<rparr>" w2 "its @ [(sl, True)]"])
          (use fill(1) bal good True granted l held in \<open>simp_all add: prepare_request_def string_blocks_def\<close>)
    qed
  qed
qed

text \<open>How a round may end: nothing was sent, or the client was given a request with the items \<open>as\<close>.\<close>

definition round_ends ::
    "random_source \<Rightarrow> http_processor_t \<Rightarrow> http_client \<Rightarrow> (rat \<Rightarrow> string) \<Rightarrow> (addr \<Rightarrow> texts) \<Rightarrow> (addr \<times> store_data_t) list \<Rightarrow> store_heap \<Rightarrow> world
      \<Rightarrow> (E_MCL_ERROR_CODE \<times> store_t \<times> store_heap \<times> world) option \<Rightarrow> bool" where
  "round_ends rand p client other T ds h w res \<longleftrightarrow> (\<exists>code s' h' w' ds' as ds1. res = Some (code, s', h', w')
    \<and> store_contents s' h' ds' \<and> (\<forall>a. h a = None \<longrightarrow> h' a = None) \<and> upcoming w' = []
    \<and> live w' - nodes_blocks ds' = live w - nodes_blocks ds
    \<and> filled as ds ds1 \<and> (\<forall>(a, d) \<in> set ds1. has_texts other (T a) d)
    \<and> (code \<noteq> MCL_OK \<and> ds' = ds1
        \<and> (if as = [] then \<not> (gives_numbers rand \<and> first_fits (max_payload_size (processor_configuration p)) T ds)
           else failed_late rand (max_payload_size (processor_configuration p)) (message_length T as) code)
      \<or> as \<noteq> [] \<and> gives_identifiers rand \<and> ds' = after_sending (code = MCL_OK) ds1
        \<and> message_length T as + 26 \<le> unat (max_payload_size (processor_configuration p))
        \<and> (\<exists>b r w3 send_result response w4. client r w3 = (send_result, response, w4)
          \<and> message_of T b as (body r) \<and> (code = MCL_OK \<longleftrightarrow> accepted send_result response))))"

lemma round_ends_early:
  assumes "store_contents s h ds" "\<forall>(a, d) \<in> set ds. has_texts other (T a) d" "code \<noteq> MCL_OK" "upcoming w' = []" "live w' = live w" "\<not> gives_numbers rand"
  shows "round_ends rand p client other T ds h w (Some (code, s, h, w'))"
  unfolding round_ends_def
  by (rule exI [of _ code], rule exI [of _ s], rule exI [of _ h], rule exI [of _ w'], rule exI [of _ ds], rule exI [of _ "[]"],
      rule exI [of _ ds]) (use assms filled_refl in auto)

lemma exchange_round_runs:
  assumes "store_contents s h ds" "\<forall>(a, d) \<in> set ds. has_texts other (T a) d" "able_to_exchange rand p" "client_ok client" "upcoming w = []"
  shows "round_ends rand p client other T ds h w (exchange_round rand reader other client p s h w)"
proof -
  obtain e u g gu tk tu where p: "calm_source rand" "exchange_endpoint (processor_configuration p) = Some e" "says e u"
    "user_agent (processor_configuration p) = Some g" "says g gu" "length gu < 2 ^ 20"
    "access_token (processor_security_handler p) = Some tk" "says tk tu" "length tu < 2 ^ 18"
    "200 \<le> unat (max_payload_size (processor_configuration p))" "unat (max_payload_size (processor_configuration p)) < 2 ^ 62"
    using assms(3) unfolding able_to_exchange_def by blast
  from p(1) assms(5) p(3,5,6,10,11) show ?thesis
  proof (cases rule: request_initialize_runs)
    case (refused code w1)
    then show ?thesis
      using p(2,4) round_ends_early [OF assms(1,2)] by (simp add: exchange_round_def)
  next
    case (granted r b its w1)
    obtain h1 its1 w2 where hd: "exchange_initialize_http_request_headers p r True w1 = Some (MCL_OK, r\<lparr>header := h1\<rparr>, w2)"
      "lines_held (r\<lparr>header := h1\<rparr>) its1 (8 * 64)" "upcoming w2 = []"
      "live w2 - request_blocks (r\<lparr>header := h1\<rparr>) its1 = live w1 - request_blocks r its"
      by (rule initialize_headers_runs [OF granted(2,3) _ granted(5) p(7-9)]) auto
    define r1 where "r1 = r\<lparr>header := h1\<rparr>"
    have r1: "fillable rand b (frame r1) r1 w2" "body r1 = []" "lines_held r1 its1 512"
      and limits: "resize_enabled r1" "max_http_payload_size r1 = max_payload_size (processor_configuration p)"
      using granted(2,4,6,7) hd(2,3) p(1) by (simp_all add: fillable_def r1_def)
    obtain code cid h2 r2 its2 w3 ds1 as where pr: "prepare_request rand reader other p s h r1 w2 = Some (code, cid, h2, r2, w3)"
      "store_contents s h2 ds1" "\<And>a. h2 a = None \<longleftrightarrow> h a = None" "filled as ds ds1" "\<forall>(a, d) \<in> set ds1. has_texts other (T a) d"
      "upcoming w3 = []" "lines_held r2 its2 (2 * 512)"
      "live w3 - request_blocks r2 its2 - string_blocks cid - nodes_blocks ds1 = live w2 - request_blocks r1 its1 - nodes_blocks ds"
      "code = MCL_OK \<and> as \<noteq> [] \<and> message_of T b as (body r2)
        \<and> message_length T as + 26 \<le> unat (max_payload_size (processor_configuration p)) \<and> gives_identifiers rand
      \<or> code = MCL_STORE_ITEM_EXCEEDS_MAX_HTTP_REQUEST_SIZE \<and> as = []
        \<and> \<not> (gives_numbers rand \<and> first_fits (max_payload_size (processor_configuration p)) T ds)
      \<or> as \<noteq> [] \<and> failed_late rand (max_payload_size (processor_configuration p)) (message_length T as) code"
      by (rule prepare_request_runs [OF assms(1,2) r1 _ limits, of reader p]) (simp, rule that)
    have bal: "live w3 - request_blocks r2 its2 - string_blocks cid - nodes_blocks ds1 = live w - nodes_blocks ds"
      using pr(8) hd(4) granted(8) by (simp add: r1_def)
    show ?thesis
    proof (cases "code = MCL_OK")
      case False
      obtain w5 where d: "http_request_destroy (Some r2) (snd (string_destroy cid w3)) = Some (None, w5)"
        "live w5 = live (snd (string_destroy cid w3)) - request_blocks r2 its2" "upcoming w5 = upcoming (snd (string_destroy cid w3))"
        using destroy_request [OF pr(7)] by blast
      have run: "exchange_round rand reader other client p s h w = Some (code, s, h2, w5)"
        using p(2,4) granted(1) hd(1) pr(1) False d(1) by (simp add: exchange_round_def r1_def)
      show ?thesis
        unfolding round_ends_def run
        by (rule exI [of _ code], rule exI [of _ s], rule exI [of _ h2], rule exI [of _ w5], rule exI [of _ ds1],
            rule exI [of _ as], rule exI [of _ ds1])
          (use pr(2-6,9) d bal False in auto)
    next
      case True
      then have good: "as \<noteq> []" "message_of T b as (body r2)" "gives_identifiers rand"
        "message_length T as + 26 \<le> unat (max_payload_size (processor_configuration p))"
        using pr(9) by (auto simp: failed_late_def)
      obtain send_result response w4 where c: "client r2 w3 = (send_result, response, w4)" by (rule prod_cases3)
      then obtain n where n: "upcoming w4 = []" "response_ok response n" "live w4 = live w3 + n" "send_result \<noteq> MCL_OK \<longrightarrow> response = None"
        using assms(4) pr(6) unfolding client_ok_def by blast
      obtain w5 where d: "http_request_destroy (Some r2) w4 = Some (None, w5)" "live w5 = live w4 - request_blocks r2 its2" "upcoming w5 = []"
        using destroy_request [OF pr(7), of w4] n(1) by auto
      obtain code1 s' h' w6 where ev: "exchange_evaluate_response s send_result response h2 w5 = Some (code1, s', h', w6)"
        "code1 = MCL_OK \<longleftrightarrow> accepted send_result response"
        "store_contents s' h' (after_sending (accepted send_result response) ds1)" "\<And>a. h2 a = None \<Longrightarrow> h' a = None"
        "live w6 - nodes_blocks (after_sending (accepted send_result response) ds1) = live w5 - n - nodes_blocks ds1"
        "upcoming w6 = upcoming w5"
        using exchange_evaluate_response_runs [OF pr(2) n(2,4), of w5] by blast
      have run: "exchange_round rand reader other client p s h w = Some (code1, s', h', snd (string_destroy cid w6))"
        using p(2,4) granted(1) hd(1) pr(1) True c d(1) ev(1) by (simp add: exchange_round_def r1_def)
      have sent: "\<exists>b r w3 send_result response w4. client r w3 = (send_result, response, w4)
          \<and> message_of T b as (body r) \<and> (code1 = MCL_OK \<longleftrightarrow> accepted send_result response)"
        by (rule exI [of _ b], rule exI [of _ r2], rule exI [of _ w3], rule exI [of _ send_result], rule exI [of _ response],
            rule exI [of _ w4])
          (use c good ev(2) in blast)
      show ?thesis
        unfolding round_ends_def run
        by (rule exI [of _ code1], rule exI [of _ s'], rule exI [of _ h'], rule exI [of _ "snd (string_destroy cid w6)"],
            rule exI [of _ "after_sending (accepted send_result response) ds1"], rule exI [of _ as], rule exI [of _ ds1])
          (use sent pr(3-5) good ev d n bal in auto)
    qed
  qed
qed

section \<open>The exchange\<close>

lemma filled_leaves:
  assumes "filled as ds ds1" "as \<noteq> []" "\<forall>(a, d) \<in> set ds1. has_texts other (T a) d"
  shows "length (after_sending True ds1) < length ds"
proof -
  obtain a where a: "a \<in> set as" using assms(2) by (cases as) auto
  have "set as \<subseteq> fst ` set ds" "list_all2 (evolves as) ds ds1" using assms(1) by (simp_all add: filled_def)
  note all = this
  have "a \<in> fst ` set ds" using all(1) a by (rule subsetD)
  then obtain e where e: "e \<in> set ds" "fst e = a" by (elim imageE) simp
  obtain e1 where e1: "e1 \<in> set ds1" "evolves as e e1" using list_all2_member [OF all(2) e(1)] by blast
  have "data_ok (snd e1)" using assms(3) e1(1) by (cases e1) (auto simp: has_texts_def)
  then have "leaves (snd e1)"
    using e1(2) e(2) a by (cases "store_state (snd e1)") (auto simp: evolves_def waits_def leaves_def data_ok_def)
  then have "length (filter (\<lambda>(a, d). \<not> leaves d) ds1) < length ds1"
    using e1(1) by (intro length_filter_less) auto
  moreover have "length ds1 = length ds" using filled_addresses [OF assms(1)] by (metis length_map)
  ultimately show ?thesis by (simp add: after_sending_def)
qed

lemma after_sending_texts:
  "\<forall>(a, d) \<in> set ds. P a d \<Longrightarrow> \<forall>(a, d) \<in> set (after_sending True ds). P a d"
  by (auto simp: after_sending_def)

lemma on_items_addresses: "fst ` set (on_items f ds) = fst ` set ds"
  by (metis list.set_map on_items_simps(3))

lemma after_sending_addresses: "fst ` set (after_sending ok ds) \<subseteq> fst ` set ds"
  by (auto simp: after_sending_def on_items_addresses)

lemma data_count:
  assumes "store_contents s h ds"
  shows "store_get_data_count s = Some (size_of_nat (length ds))" "0 < size_of_nat (length ds) \<longleftrightarrow> ds \<noteq> []"
proof -
  obtain high low where s: "store_high s = Some high" "store_low s = Some low"
      "represents high h [] (entries ds)" "represents low h [] []"
    using assms unfolding store_contents_def by blast
  show "store_get_data_count s = Some (size_of_nat (length ds))"
    using s representsD(7) [OF s(3)] representsD(7) [OF s(4)] by (simp add: store_get_data_count_def)
  have "length ds < 2 ^ 64" using representsD(3) [OF s(3)] by simp
  then show "0 < size_of_nat (length ds) \<longleftrightarrow> ds \<noteq> []"
    by (subst size_pos_iff) (simp add: unat_size_of_nat)
qed

text \<open>How an exchange may end.\<close>

definition exchange_ends ::
    "(addr \<times> store_data_t) list \<Rightarrow> store_heap \<Rightarrow> world \<Rightarrow> (E_MCL_ERROR_CODE \<times> store_t \<times> store_heap \<times> world) option \<Rightarrow> bool" where
  "exchange_ends ds h w res \<longleftrightarrow> (\<exists>code s' h' w' ds'. res = Some (code, s', h', w')
    \<and> store_contents s' h' ds' \<and> (\<forall>a. h a = None \<longrightarrow> h' a = None) \<and> upcoming w' = []
    \<and> live w' - nodes_blocks ds' = live w - nodes_blocks ds \<and> fst ` set ds' \<subseteq> fst ` set ds
    \<and> (code = MCL_OK \<longrightarrow> ds' = []))"

lemma exchange_ends_later:
  assumes "exchange_ends ds1 h1 w1 res" "\<forall>a. h a = None \<longrightarrow> h1 a = None"
    and "live w1 - nodes_blocks ds1 = live w - nodes_blocks ds" "fst ` set ds1 \<subseteq> fst ` set ds"
  shows "exchange_ends ds h w res"
proof -
  obtain code s' h' w' ds' where e: "res = Some (code, s', h', w')" "store_contents s' h' ds'"
    "\<forall>a. h1 a = None \<longrightarrow> h' a = None" "upcoming w' = []"
    "live w' - nodes_blocks ds' = live w1 - nodes_blocks ds1" "fst ` set ds' \<subseteq> fst ` set ds1" "code = MCL_OK \<longrightarrow> ds' = []"
    using assms(1) unfolding exchange_ends_def by blast
  show ?thesis
    unfolding exchange_ends_def
    by (rule exI [of _ code], rule exI [of _ s'], rule exI [of _ h'], rule exI [of _ w'], rule exI [of _ ds'])
      (use e(1,2,4,5,7) assms(2,3) e(3) order_trans [OF e(6) assms(4)] in simp)
qed

lemma exchange_loop_runs:
  assumes "store_contents s h ds" "\<forall>(a, d) \<in> set ds. has_texts other (T a) d" "able_to_exchange rand p" "client_ok client" "upcoming w = []"
  shows "exchange_ends ds h w (exchange_loop (exchange_round rand reader other client p) s h w)"
  using assms(1,2,5)
proof (induction "length ds" arbitrary: s h ds w rule: less_induct)
  case less
  obtain code s' h' w' ds' as ds1 where r: "exchange_round rand reader other client p s h w = Some (code, s', h', w')"
    "store_contents s' h' ds'" "\<forall>a. h a = None \<longrightarrow> h' a = None" "upcoming w' = []"
    "live w' - nodes_blocks ds' = live w - nodes_blocks ds" "filled as ds ds1" "\<forall>(a, d) \<in> set ds1. has_texts other (T a) d"
    "code \<noteq> MCL_OK \<and> ds' = ds1 \<or> as \<noteq> [] \<and> ds' = after_sending (code = MCL_OK) ds1"
    using exchange_round_runs [OF less.prems(1,2) assms(3,4) less.prems(3), of reader] unfolding round_ends_def by blast
  have adr: "fst ` set ds' \<subseteq> fst ` set ds"
    using r(8) after_sending_addresses [of "code = MCL_OK" ds1] filled_addresses [OF r(6)]
    by (metis list.set_map order_refl)
  show ?case
  proof (cases "code = MCL_OK \<and> ds' \<noteq> []")
    case False
    then have "exchange_loop (exchange_round rand reader other client p) s h w = Some (code, s', h', w')"
      using r(1) data_count [OF r(2)] by (subst exchange_loop.simps) auto
    then show ?thesis using r(2-5) adr False by (auto simp: exchange_ends_def)
  next
    case True
    then have ds': "ds' = after_sending True ds1" "as \<noteq> []" using r(8) by auto
    have step1: "exchange_loop (exchange_round rand reader other client p) s h w
        = exchange_loop (exchange_round rand reader other client p) s' h' w'"
      using r(1) data_count [OF r(2)] True by (subst exchange_loop.simps) simp
    have "exchange_ends ds' h' w' (exchange_loop (exchange_round rand reader other client p) s' h' w')"
    proof (rule less.hyps)
      show "length ds' < length ds" unfolding ds'(1) by (rule filled_leaves [OF r(6) ds'(2) r(7)])
      show "\<forall>(a, d) \<in> set ds'. has_texts other (T a) d"
        unfolding ds'(1) by (rule after_sending_texts [OF r(7)])
    qed (use r in auto)
    then show ?thesis unfolding step1 by (rule exchange_ends_later [OF _ r(3,5) adr])
  qed
qed

text \<open>C5: an exchange ends, whatever the server answers, with all that is left in a store in good order: each round
  that is accepted removes an item.  When it reports success nothing is left; no block is lost.\<close>

theorem http_processor_exchange_terminates:
  assumes "store_contents s h ds" "\<forall>(a, d) \<in> set ds. has_texts other (T a) d" "able_to_exchange rand p" "client_ok client" "upcoming w = []"
  shows "if ds = [] then http_processor_exchange rand reader other client p s h w = Some (MCL_STORE_IS_EMPTY, s, h, w)
    else exchange_ends ds h w (http_processor_exchange rand reader other client p s h w)"
  using exchange_loop_runs [OF assms, of reader] data_count [OF assms(1)] by (simp add: http_processor_exchange_def)

text \<open>C6: a round gives the client one message, with exactly the tuples of the items that were written for it and the
  closing boundary; these items are removed when the server accepts it, and are to be written again when
  it does not.\<close>

theorem exchange_round_correct:
  assumes "store_contents s h ds" "\<forall>(a, d) \<in> set ds. has_texts other (T a) d" "able_to_exchange rand p" "client_ok client" "upcoming w = []"
  shows "round_ends rand p client other T ds h w (exchange_round rand reader other client p s h w)"
  by (rule exchange_round_runs [OF assms])

section \<open>Delivery\<close>

text \<open>A client whose server accepts every request.\<close>

definition accepting :: "http_client \<Rightarrow> bool" where
  "accepting client \<longleftrightarrow> (\<forall>r w. accepted (fst (client r w)) (fst (snd (client r w))))"

text \<open>All of the items wait and fit into a request, and no choice of them fills a request so far that it cannot be closed.\<close>

definition deliverable :: "http_processor_t \<Rightarrow> (addr \<Rightarrow> texts) \<Rightarrow> (addr \<times> store_data_t) list \<Rightarrow> bool" where
  "deliverable p T ds \<longleftrightarrow> (\<forall>(a, d) \<in> set ds. waits d \<and> fits (max_payload_size (processor_configuration p)) (T a))
    \<and> (\<forall>A \<subseteq> fst ` set ds. \<not> leaves_no_room (max_payload_size (processor_configuration p)) (\<Sum>a\<in>A. tuple_length (T a)))"

lemma deliverable_first:
  "deliverable p T ds \<Longrightarrow> ds \<noteq> [] \<Longrightarrow> first_fits (max_payload_size (processor_configuration p)) T ds"
  by (cases ds) (auto simp: deliverable_def first_fits_def)

lemma message_length_set: "distinct as \<Longrightarrow> message_length T as = (\<Sum>a\<in>set as. tuple_length (T a))"
  by (simp add: message_length_def sum_list_distinct_conv_sum_set)

lemma deliverable_closes:
  assumes "deliverable p T ds" "filled as ds ds1"
  shows "\<not> leaves_no_room (max_payload_size (processor_configuration p)) (message_length T as)"
  using assms by (simp add: deliverable_def filled_def message_length_set)

lemma not_leaving_waits: "has_texts other t d \<Longrightarrow> \<not> leaves d \<Longrightarrow> waits d"
  by (cases "store_state d") (auto simp: has_texts_def data_ok_def leaves_def waits_def)

lemma deliverable_after:
  assumes "deliverable p T ds" "filled as ds ds1" "\<forall>(a, d) \<in> set ds1. has_texts other (T a) d"
  shows "deliverable p T (after_sending True ds1)"
proof -
  have adr: "fst ` set (after_sending True ds1) \<subseteq> fst ` set ds"
    using after_sending_addresses [of True ds1] filled_addresses [OF assms(2)] by (metis list.set_map)
  have "waits d \<and> fits (max_payload_size (processor_configuration p)) (T a)" if e: "(a, d) \<in> set (after_sending True ds1)" for a d
  proof -
    have d: "(a, d) \<in> set ds1" "\<not> leaves d" using e by (auto simp: after_sending_def)
    have "a \<in> fst ` set ds" using adr e by (metis fst_conv imageI subsetD)
    then obtain e where "e \<in> set ds" "fst e = a" by (elim imageE) simp
    then have "fits (max_payload_size (processor_configuration p)) (T a)" using assms(1) by (cases e) (auto simp: deliverable_def)
    moreover have "has_texts other (T a) d" using assms(3) d(1) by blast
    ultimately show ?thesis using not_leaving_waits d(2) by blast
  qed
  then show ?thesis using assms(1) adr unfolding deliverable_def by (auto dest: subset_trans)
qed

lemma round_delivers:
  assumes "store_contents s h ds" "\<forall>(a, d) \<in> set ds. has_texts other (T a) d" "able_to_exchange rand p" "client_ok client" "upcoming w = []"
    and "reliable rand" "accepting client" "deliverable p T ds" "ds \<noteq> []"
  obtains s' h' w' ds' where "exchange_round rand reader other client p s h w = Some (MCL_OK, s', h', w')"
    "store_contents s' h' ds'" "\<forall>(a, d) \<in> set ds'. has_texts other (T a) d" "upcoming w' = []" "deliverable p T ds'" "length ds' < length ds"
proof -
  obtain code s' h' w' ds' as ds1 where r: "exchange_round rand reader other client p s h w = Some (code, s', h', w')"
    "store_contents s' h' ds'" "upcoming w' = []" "filled as ds ds1" "\<forall>(a, d) \<in> set ds1. has_texts other (T a) d"
    "code \<noteq> MCL_OK \<and> ds' = ds1
        \<and> (if as = [] then \<not> (gives_numbers rand \<and> first_fits (max_payload_size (processor_configuration p)) T ds)
           else failed_late rand (max_payload_size (processor_configuration p)) (message_length T as) code)
      \<or> as \<noteq> [] \<and> gives_identifiers rand \<and> ds' = after_sending (code = MCL_OK) ds1
        \<and> message_length T as + 26 \<le> unat (max_payload_size (processor_configuration p))
        \<and> (\<exists>b r w3 send_result response w4. client r w3 = (send_result, response, w4)
          \<and> message_of T b as (body r) \<and> (code = MCL_OK \<longleftrightarrow> accepted send_result response))"
    using exchange_round_runs [OF assms(1-5), of reader] unfolding round_ends_def by blast
  have "\<not> failed_late rand (max_payload_size (processor_configuration p)) (message_length T as) code"
    using deliverable_closes [OF assms(8) r(4)] assms(6) by (simp add: failed_late_def)
  then obtain b r w3 send_result response w4 where c: "client r w3 = (send_result, response, w4)" "as \<noteq> []"
    "code = MCL_OK \<longleftrightarrow> accepted send_result response" "ds' = after_sending (code = MCL_OK) ds1"
    using r(6) reliable_source(2) [OF assms(6)] deliverable_first [OF assms(8,9)] by (auto split: if_splits)
  have "accepted (fst (client r w3)) (fst (snd (client r w3)))" using assms(7) by (simp add: accepting_def)
  then have ok: "code = MCL_OK" "ds' = after_sending True ds1" using c by simp_all
  show thesis
    by (rule that [of s' h' w' ds', OF _ r(2) _ r(3)])
      (use r(1) ok after_sending_texts [OF r(5)] deliverable_after [OF assms(8) r(4,5)] filled_leaves [OF r(4) c(2) r(5)] in simp_all)
qed

lemma loop_delivers:
  assumes "able_to_exchange rand p" "client_ok client" "reliable rand" "accepting client"
  shows "store_contents s h ds \<Longrightarrow> \<forall>(a, d) \<in> set ds. has_texts other (T a) d \<Longrightarrow> upcoming w = [] \<Longrightarrow> deliverable p T ds \<Longrightarrow> ds \<noteq> [] \<Longrightarrow>
    \<exists>s' h' w'. exchange_loop (exchange_round rand reader other client p) s h w = Some (MCL_OK, s', h', w') \<and> store_contents s' h' []"
proof (induction "length ds" arbitrary: s h ds w rule: less_induct)
  case less
  obtain s' h' w' ds' where sent: "exchange_round rand reader other client p s h w = Some (MCL_OK, s', h', w')"
    "store_contents s' h' ds'" "\<forall>(a, d) \<in> set ds'. has_texts other (T a) d" "upcoming w' = []" "deliverable p T ds'" "length ds' < length ds"
    by (rule round_delivers [OF less.prems(1,2) assms(1,2) less.prems(3) assms(3,4) less.prems(4,5), of reader])
  show ?case
  proof (cases "ds' = []")
    case True
    then show ?thesis using sent data_count [OF sent(2)] by (subst exchange_loop.simps) simp
  next
    case False
    then show ?thesis
      using sent(1) data_count [OF sent(2)] less.hyps [OF sent(6,2,3,4,5)] by (subst exchange_loop.simps) simp
  qed
qed

lemma exchange_delivers:
  assumes "store_contents s h ds" "\<forall>(a, d) \<in> set ds. has_texts other (T a) d" "able_to_exchange rand p" "client_ok client" "upcoming w = []"
    and "reliable rand" "accepting client" "deliverable p T ds" "ds \<noteq> []"
  shows "\<exists>s' h' w'. http_processor_exchange rand reader other client p s h w = Some (MCL_OK, s', h', w') \<and> store_contents s' h' []"
  using loop_delivers [OF assms(3,4,6,7,1,2,5,8,9), of reader] data_count [OF assms(1)] assms(9)
  by (simp add: http_processor_exchange_def)

text \<open>C1: when the random source works and the server accepts every request, an exchange of a store whose items
  fit, each for itself, into a request sends all of them, in as many requests as it takes, reports success and leaves the
  store empty.  The only thing it needs beyond that is that no items fill a request up to its last 19 to 25 characters: these
  are too few for the closing boundary, but enough for the items.\<close>

theorem http_processor_exchange_delivers:
  assumes "store_contents s h ds" "\<forall>(a, d) \<in> set ds. has_texts other (T a) d" "able_to_exchange rand p" "client_ok client" "upcoming w = []"
    and "reliable rand" "accepting client" "deliverable p T ds" "ds \<noteq> []"
  shows "\<exists>s' h' w'. http_processor_exchange rand reader other client p s h w = Some (MCL_OK, s', h', w') \<and> store_contents s' h' []"
  using assms by (rule exchange_delivers)

text \<open>C33: the room a tuple asks for has no place for the boundary that closes the message.  Items that leave 19 to 25
  characters of a request are written into it and marked, then the request cannot be closed: nothing is sent, the exchange
  fails, and the item stays behind as one that was written, which the next exchange passes over.\<close>

theorem exchange_round_cannot_close:
  assumes "store_contents s h [(a, d)]" "has_texts other (T a) d" "able_to_exchange rand p" "client_ok client" "upcoming w = []"
    and "reliable rand" "waits d" "fits (max_payload_size (processor_configuration p)) (T a)"
    and "leaves_no_room (max_payload_size (processor_configuration p)) (tuple_length (T a))"
  shows "\<exists>s' h' w' d'. http_processor_exchange rand reader other client p s h w = Some (MCL_HTTP_REQUEST_FINALIZE_FAILED, s', h', w')
    \<and> store_contents s' h' [(a, d')] \<and> \<not> waits d'"
proof -
  have texts: "\<forall>(b, d) \<in> set [(a, d)]. has_texts other (T b) d" using assms(2) by simp
  obtain code s' h' w' ds' as ds1 where r: "exchange_round rand reader other client p s h w = Some (code, s', h', w')"
    "store_contents s' h' ds'" "filled as [(a, d)] ds1"
    "code \<noteq> MCL_OK \<and> ds' = ds1
        \<and> (if as = [] then \<not> (gives_numbers rand \<and> first_fits (max_payload_size (processor_configuration p)) T [(a, d)])
           else failed_late rand (max_payload_size (processor_configuration p)) (message_length T as) code)
      \<or> as \<noteq> [] \<and> message_length T as + 26 \<le> unat (max_payload_size (processor_configuration p))"
    using exchange_round_runs [OF assms(1) texts assms(3-5), of reader] unfolding round_ends_def by blast
  have "first_fits (max_payload_size (processor_configuration p)) T [(a, d)]" using assms(7,8) by (simp add: first_fits_def)
  then have "as \<noteq> []" using r(4) reliable_source(2) [OF assms(6)] by auto
  moreover have "distinct as" "set as \<subseteq> {a}" using r(3) by (simp_all add: filled_def)
  ultimately have as: "as = [a]" by (cases as; cases "tl as") auto
  then have fails: "code = MCL_HTTP_REQUEST_FINALIZE_FAILED" "ds' = ds1"
    using r(4) assms(6,9) by (auto simp: failed_late_def leaves_no_room_def message_length_def)
  obtain d' where "ds1 = [(a, d')]" "\<not> waits d'"
    using r(3) as by (auto simp: filled_def evolves_def list_all2_Cons1)
  moreover have "http_processor_exchange rand reader other client p s h w = Some (code, s', h', w')"
    using r(1) fails(1) data_count [OF assms(1)] by (subst http_processor_exchange_def, subst exchange_loop.simps) simp
  ultimately show ?thesis using r(2) fails by blast
qed

end
