(* ===== verification/MCL_Exchange_Items.thy ===== *)
theory MCL_Exchange_Items
  imports MCL_Exchange_Loop
begin

text \<open>
  The items of an exchange, of \<^verbatim>\<open>http_processor.c\<close>: the texts of an item that is new, the states an item goes through,
  and what becomes of an item whose request could not be sent.
\<close>

section \<open>The texts of new items\<close>

lemma copies_from_buffer:
  assumes "length xs < 2 ^ 60" "n = size_of_nat (length xs)"
  shows "copies (get_payload_from_buffer (xs @ rest)) n xs"
proof -
  have n: "unat n = length xs" using assms by (simp add: unat_size_of_nat)
  show ?thesis
    using n by (auto simp: copies_def get_payload_from_buffer_def assms(2) string_util_memcpy_def write_at_def)
qed

definition payload_text :: "(rat \<Rightarrow> string) \<Rightarrow> (string \<times> (string \<times> string \<times> string) list) list \<Rightarrow> string" where
  "payload_text other xs = text_of other (array_of (map value_set_tree xs))"

definition meta_text :: "(rat \<Rightarrow> string) \<Rightarrow> string \<Rightarrow> string option \<Rightarrow> string \<Rightarrow> string" where
  "meta_text other v r c = text_of other (meta_tree ''standardTimeSeries'' v r [(''configurationId'', json_string c)])"

lemma prepare_payload_granted:
  assumes "f w = Some (MCL_OK, Some (json_handle t), w1)" "is_text t"
  shows "prepare_payload f d w = Some (MCL_OK, d\<lparr>store_payload_buffer := Some (cstring t), store_payload_size := size_of_nat (length t)\<rparr>,
    memory_free w1)"
  using assms by (simp add: prepare_payload_def json_handle_def handle_of_def cstring_def)

lemma time_series_prepares:
  assumes "data_ok d" "store_state d = DATA_STATE_INITIAL"
    and "store_item d = Time_Series ((time_series_of v c r)\<lparr>time_series_value_sets := Some sets\<rparr>)" "list_all2 value_set_says sets xs"
    and "is_text v" "is_text c" "c \<noteq> []" "\<forall>s. r = Some s \<longrightarrow> is_text s \<and> length s + 1 < 2 ^ 64" "length v + 1 < 2 ^ 64" "length c + 1 < 2 ^ 64"
    and "length (meta_text other v r c) < 2 ^ 30" "length (payload_text other xs) < 2 ^ 60"
  shows "prepares other d (meta_text other v r c) (size_of_nat (length (payload_text other xs))) (payload_text other xs)"
  unfolding prepares_def
proof (intro allI impI)
  fix w :: world
  assume calm: "upcoming w = []"
  let ?m = "meta_text other v r c" and ?p = "payload_text other xs"
  have len: "length ?m < 2 ^ 64" "length ?p < 2 ^ 64" using assms(11,12) by simp_all
  have words: "is_text ?m" "is_text ?p"
    using time_series_meta_runs(1) [OF assms(5-10) calm refl, of other] len(1) is_text_text_of [OF clean_payload [OF assms(4)]]
    by (simp_all add: meta_text_def payload_text_def)
  obtain w1 where 1: "json_from_item_meta other (time_series_meta (time_series_of v c r)) w = Some (MCL_OK, Some (json_handle ?m), w1)"
    "calm w 2 w1"
    using time_series_meta_runs(2) [OF assms(5-10) calm refl, of other] len(1) unfolding meta_text_def by blast
  have calm1: "upcoming w1 = []" using 1(2) by (simp add: calm_def)
  obtain w2 where 2: "json_from_time_series_payload other (Some sets) w1 = Some (MCL_OK, Some (json_handle ?p), w2)" "calm w1 2 w2"
    using json_from_time_series_payload_runs [OF assms(4) calm1] len(2) unfolding payload_text_def by blast
  define d1 where "d1 = d\<lparr>store_meta := Some (json_handle ?m), store_payload_buffer := Some (cstring ?p),
    store_payload_size := size_of_nat (length ?p), store_state := DATA_STATE_PREPARED\<rparr>"
  have run: "exchange_prepare_data other d w = Some (MCL_OK, d1, memory_free w2)"
    using 1(1) prepare_payload_granted [where f = "json_from_time_series_payload other (Some sets)", OF 2(1) words(2)] assms(3)
    by (simp add: exchange_prepare_data_def item_meta_def d1_def store_data_set_state_def)
  have "says (json_handle ?m) ?m" using words(1) len(1) assms(11) by (simp add: says_def json_handle_def handle_of_def)
  moreover have "copies (get_payload_from_buffer (cstring ?p)) (size_of_nat (length ?p)) ?p"
    unfolding cstring_def by (rule copies_from_buffer [OF assms(12) refl])
  moreover have "unat (size_of_nat (length ?p)) < 2 ^ 60" using assms(12) by (simp add: unat_size_of_nat)
  ultimately have texts: "item_texts d1 ?m (size_of_nat (length ?p)) ?p"
    using assms(3,11) by (simp add: item_texts_def d1_def payload_callback_def)
  have ok: "data_ok d1" using assms(1,2) by (auto simp: data_ok_def d1_def)
  have "data_blocks d1 = data_blocks d + 3"
    using assms(1-3) by (simp add: data_blocks_def data_ok_def d1_def owns_payload_def string_blocks_def json_handle_def
        handle_of_def blocks_of_def)
  then have bal: "live (memory_free w2) - data_blocks d1 = live w - data_blocks d"
    using 1(2) 2(2) by (simp add: calm_def memory_free_def)
  show "\<exists>d1 w1. exchange_prepare_data other d w = Some (MCL_OK, d1, w1)
    \<and> upcoming w1 = [] \<and> data_ok d1 \<and> store_state d1 = DATA_STATE_PREPARED \<and> store_item d1 = store_item d
    \<and> item_texts d1 ?m (size_of_nat (length ?p)) ?p \<and> live w1 - data_blocks d1 = live w - data_blocks d"
    by (rule exI [of _ d1], rule exI [of _ "memory_free w2"])
      (use run ok texts bal 2(2) in \<open>simp_all add: d1_def calm_def memory_free_def\<close>)
qed

section \<open>The states of an item\<close>

text \<open>The life of an item that is not streamed: it is prepared once, written into a request, and is sent with it, or
  waits for the next one.\<close>

inductive item_step :: "E_STORE_DATA_STATE \<Rightarrow> E_STORE_DATA_STATE \<Rightarrow> bool" where
  prepared: "item_step DATA_STATE_INITIAL DATA_STATE_PREPARED"
| written: "item_step DATA_STATE_PREPARED DATA_STATE_WRITTEN"
| accepted: "item_step DATA_STATE_WRITTEN DATA_STATE_SENT"
| refused: "item_step DATA_STATE_WRITTEN DATA_STATE_PREPARED"

inductive_simps item_step_from [simp]:
  "item_step DATA_STATE_INITIAL s" "item_step DATA_STATE_PREPARED s" "item_step DATA_STATE_WRITTEN s" "item_step DATA_STATE_SENT s"

inductive_cases item_step_to: "item_step s DATA_STATE_SENT" "item_step s DATA_STATE_WRITTEN"

lemma sent_is_last: "item_step\<^sup>*\<^sup>* DATA_STATE_SENT s \<Longrightarrow> s = DATA_STATE_SENT"
  by (induction rule: rtranclp_induct) auto

text \<open>Nothing is sent that was not written.\<close>

lemma sent_was_written:
  assumes "item_step\<^sup>*\<^sup>* s DATA_STATE_SENT" "s \<noteq> DATA_STATE_SENT"
  shows "item_step\<^sup>*\<^sup>* s DATA_STATE_WRITTEN"
  using assms by (cases rule: rtranclp.cases) (auto elim: item_step_to)

lemma dynamic_string_ok:
  "string_initialize_dynamic b n w = Some (code, r, w1) \<Longrightarrow> code = MCL_OK \<longleftrightarrow> r \<noteq> None"
  by (auto simp: string_initialize_dynamic_def initialize_typed_def initialize_buffer_def bind_eq_Some_conv
      split: if_splits option.splits prod.splits)

lemma finish_json_ok:
  "finish_json other st = Some (code, r, w1) \<Longrightarrow> code = MCL_OK \<longleftrightarrow> r \<noteq> None"
  by (auto simp: finish_json_def json_util_to_string_def bind_eq_Some_conv dest: dynamic_string_ok
      split: if_splits option.splits prod.splits)

lemma json_from_item_meta_ok:
  "json_from_item_meta other m w = Some (code, r, w1) \<Longrightarrow> code = MCL_OK \<longleftrightarrow> r \<noteq> None"
  by (auto simp: json_from_item_meta_def json_util_initialize_def bind_eq_Some_conv dest: finish_json_ok
      split: option.splits prod.splits)

text \<open>Every step of the exchange keeps an item in good order, follows its life, and changes of its content only how far
  a file has been read.\<close>

definition proceeds :: "store_data_t \<Rightarrow> store_data_t \<Rightarrow> bool" where
  "proceeds d d' \<longleftrightarrow> data_ok d' \<and> item_step\<^sup>*\<^sup>* (store_state d) (store_state d')
    \<and> (store_item d' = store_item d \<or> (\<exists>n. store_item d' = move_file n (store_item d)))"

lemma prepare_payload_outcome:
  assumes "prepare_payload f d w = Some (code, d1, w1)"
  shows "code = MCL_OK \<and> (\<exists>b n. d1 = d\<lparr>store_payload_buffer := b, store_payload_size := n\<rparr>)
    \<or> code = MCL_FAIL \<and> d1 = d\<lparr>store_meta := None\<rparr>"
proof -
  obtain c s w2 where f: "f w = Some (c, s, w2)" using assms by (auto simp: prepare_payload_def bind_eq_Some_conv)
  have "fst (string_destroy (store_meta d) w2) = None" by (simp add: string_destroy_def split: option.split)
  then show ?thesis
    using assms f by (cases "string_destroy (store_meta d) w2") (auto simp: prepare_payload_def bind_eq_Some_conv split: if_splits)
qed

lemma exchange_prepare_data_outcome:
  assumes "exchange_prepare_data other d w = Some (code, d1, w1)"
  shows "code = MCL_FAIL \<and> d1 = d\<lparr>store_meta := None\<rparr>
    \<or> (\<exists>m b n. code = MCL_OK \<and> d1 = d\<lparr>store_meta := Some m, store_payload_buffer := b, store_payload_size := n,
          store_state := DATA_STATE_PREPARED\<rparr>)"
proof -
  obtain m c meta w2 where j: "item_meta (store_item d) = Some m" "json_from_item_meta other m w = Some (c, meta, w2)"
    using assms by (auto simp: exchange_prepare_data_def bind_eq_Some_conv)
  show ?thesis
  proof (cases meta)
    case None
    then show ?thesis using assms j json_from_item_meta_ok [OF j(2)] by (auto simp: exchange_prepare_data_def)
  next
    case (Some s)
    let ?d = "d\<lparr>store_meta := Some s\<rparr>"
    have ok: "c = MCL_OK" using json_from_item_meta_ok [OF j(2)] Some by simp
    define payload_step where "payload_step = (case store_item d of
          Time_Series t \<Rightarrow> prepare_payload (json_from_time_series_payload other (time_series_value_sets t)) ?d w2
        | Event_List l \<Rightarrow> prepare_payload (json_from_event_payload other (event_list_events l)) ?d w2
        | File f \<Rightarrow> Some (MCL_OK, ?d\<lparr>store_payload_size := file_size f\<rparr>, w2)
        | Custom c \<Rightarrow> Some (MCL_OK, ?d\<lparr>store_payload_buffer := custom_buffer c, store_payload_size := custom_size c\<rparr>, w2)
        | Stream s \<Rightarrow> Some (MCL_OK, ?d, w2)
        | Data_Source_Configuration c \<Rightarrow> prepare_payload (json_from_data_source_configuration_payload other c) ?d w2)"
    have run: "exchange_prepare_data other d w = do {
        (code1, d2, w3) \<leftarrow> payload_step;
        if MCL_OK \<noteq> code1 then Some (code1, d2, w3)
        else Some (MCL_OK, store_data_set_state DATA_STATE_PREPARED d2, w3)
      }"
      using j ok Some by (simp add: exchange_prepare_data_def Let_def payload_step_def)
    obtain c2 d2 w3 where p: "payload_step = Some (c2, d2, w3)"
      "if c2 = MCL_OK then code = MCL_OK \<and> d1 = store_data_set_state DATA_STATE_PREPARED d2 else code = c2 \<and> d1 = d2"
      using assms unfolding run by (cases payload_step) (auto split: if_splits)
    have "c2 = MCL_OK \<and> (\<exists>b n. d2 = ?d\<lparr>store_payload_buffer := b, store_payload_size := n\<rparr>)
      \<or> c2 = MCL_FAIL \<and> d2 = ?d\<lparr>store_meta := None\<rparr>"
    proof (cases "store_item d")
      case (File f)
      then have "d2 = ?d\<lparr>store_payload_buffer := store_payload_buffer d, store_payload_size := file_size f\<rparr>" "c2 = MCL_OK"
        using p(1) by (simp_all add: payload_step_def)
      then show ?thesis by blast
    next
      case (Stream f)
      then have "d2 = ?d\<lparr>store_payload_buffer := store_payload_buffer d, store_payload_size := store_payload_size d\<rparr>" "c2 = MCL_OK"
        using p(1) by (cases d; auto simp: payload_step_def)+
      then show ?thesis by blast
    qed (use p(1) in \<open>auto simp: payload_step_def dest!: prepare_payload_outcome\<close>)
    then show ?thesis
    proof (elim disjE conjE exE)
      fix b n assume "c2 = MCL_OK" "d2 = ?d\<lparr>store_payload_buffer := b, store_payload_size := n\<rparr>"
      then have "code = MCL_OK \<and> d1 = d\<lparr>store_meta := Some s, store_payload_buffer := b, store_payload_size := n,
          store_state := DATA_STATE_PREPARED\<rparr>" using p(2) by (simp add: store_data_set_state_def)
      then show ?thesis by blast
    qed (use p(2) in simp)
  qed
qed

lemma exchange_prepare_data_proceeds:
  assumes "exchange_prepare_data other d w = Some (code, d1, w1)" "data_ok d" "store_state d = DATA_STATE_INITIAL"
  shows "proceeds d d1" "store_item d1 = store_item d" "store_state d1 \<in> {DATA_STATE_INITIAL, DATA_STATE_PREPARED}"
  using exchange_prepare_data_outcome [OF assms(1)] assms(2,3) r_into_rtranclp [of item_step, OF item_step.prepared]
  by (auto simp: proceeds_def data_ok_def)

lemma proceeds_refl: "data_ok d \<Longrightarrow> proceeds d d"
  by (simp add: proceeds_def)

lemma add_current_data_proceeds:
  assumes "exchange_add_current_data_to_request rand d r w = Some (code, d', r', w')" "data_ok d" "store_state d = DATA_STATE_PREPARED"
  shows "proceeds d d'" "store_state d' \<in> {DATA_STATE_PREPARED, DATA_STATE_WRITTEN}"
  using assms data_ok_no_stream [OF assms(2)] r_into_rtranclp [of item_step, OF item_step.written]
  by (auto simp: exchange_add_current_data_to_request_def bind_eq_Some_conv proceeds_def data_ok_def store_data_set_state_def
      split: if_splits prod.splits)

lemma exchange_add_item_proceeds:
  assumes "exchange_add_item rand reader other False d r w = Some (st, d', r', w')" "data_ok d"
  shows "proceeds d d'" "store_state d' = DATA_STATE_SENT \<Longrightarrow> store_state d = DATA_STATE_SENT"
proof -
  obtain code d1 w1 where p: "(if store_data_get_state d = DATA_STATE_INITIAL then exchange_prepare_data other d w else Some (MCL_OK, d, w))
      = Some (code, d1, w1)" using assms(1) by (auto simp: exchange_add_item_def bind_eq_Some_conv split: if_splits)
  have d1: "proceeds d d1" "store_item d1 = store_item d" "store_state d1 = DATA_STATE_SENT \<longrightarrow> store_state d = DATA_STATE_SENT"
    using p exchange_prepare_data_proceeds [of other d w code d1 w1] assms(2)
    by (auto simp: store_data_get_state_def proceeds_refl split: if_splits)
  have ok1: "data_ok d1" using d1(1) by (simp add: proceeds_def)
  have "proceeds d d' \<and> (store_state d' = DATA_STATE_SENT \<longrightarrow> store_state d = DATA_STATE_SENT)"
  proof (cases "code = MCL_OK \<and> store_state d1 = DATA_STATE_PREPARED")
    case False
    then have "d' = d1" using assms(1) p ok1 by (auto simp: exchange_add_item_def store_data_get_state_def data_ok_def split: if_splits)
    then show ?thesis using d1 by simp
  next
    case True
    obtain c d2 r2 w2 where a: "exchange_add_current_data_to_request rand d1 r w1 = Some (c, d2, r2, w2)"
      using assms(1) p True by (auto simp: exchange_add_item_def store_data_get_state_def bind_eq_Some_conv)
    note next1 = add_current_data_proceeds [OF a ok1 True [THEN conjunct2]]
    have "d' = d2" using assms(1) p True a next1(2)
      by (auto simp: exchange_add_item_def store_data_get_state_def split: if_splits)
    then show ?thesis
      using d1 next1 by (auto simp: proceeds_def intro: rtranclp_trans)
  qed
  then show "proceeds d d'" "store_state d' = DATA_STATE_SENT \<Longrightarrow> store_state d = DATA_STATE_SENT" by auto
qed

lemma update_proceeds: "data_ok d \<Longrightarrow> proceeds d (exchange_update_store_data_state ok d)"
  using r_into_rtranclp [of item_step, OF item_step.accepted] r_into_rtranclp [of item_step, OF item_step.refused]
  by (auto simp: proceeds_def data_ok_def exchange_update_store_data_state_def store_data_get_state_def store_data_set_state_def)

text \<open>C8: preparing an item, adding it to a request and evaluating the response keep it in good order, whatever the allocator and
  the random source do; its state moves along the life of an item only, it is sent only when a request it was
  written into is accepted, and its content stays, but for the position in a file.\<close>

theorem exchange_items_proceed:
  assumes "data_ok d" "exchange_add_item rand reader other False d r w = Some (st, d', r', w')"
  shows "proceeds d d' \<and> (store_state d' = DATA_STATE_SENT \<longrightarrow> store_state d = DATA_STATE_SENT)
    \<and> proceeds d (exchange_update_store_data_state ok d)
    \<and> (store_state (exchange_update_store_data_state ok d) = DATA_STATE_SENT
      \<longrightarrow> store_state d = DATA_STATE_SENT \<or> ok \<and> store_state d = DATA_STATE_WRITTEN)"
  using exchange_add_item_proceeds [OF assms(2,1)] update_proceeds [OF assms(1)]
  by (auto simp: exchange_update_store_data_state_def store_data_get_state_def store_data_set_state_def split: if_splits)

section \<open>Items that are lost\<close>

lemma contents_distinct: "store_contents s h ds \<Longrightarrow> distinct (map fst ds)"
  unfolding store_contents_def by (elim exE conjE) (drule represents_distinct, simp)

lemma round_drops_written:
  assumes "store_contents s h ds" "\<forall>(a, d) \<in> set ds. has_texts other (T a) d" "able_to_exchange rand p" "client_ok client" "upcoming w = []"
    and "exchange_round rand reader other client p s h w = Some (MCL_OK, s', h', w')"
  obtains ds' bs b r w3 send_result response w4 where "store_contents s' h' ds'" "client r w3 = (send_result, response, w4)"
    "message_of T b bs (body r)" "\<And>a d. (a, d) \<in> set ds \<Longrightarrow> \<not> waits d \<Longrightarrow> a \<notin> set bs \<and> a \<notin> fst ` set ds'"
proof -
  have ends: "round_ends rand p client other T ds h w (Some (MCL_OK, s', h', w'))"
    using exchange_round_runs [OF assms(1-5), of reader] unfolding assms(6) .
  obtain code s1 h1 w1 ds' bs ds1 where e: "Some (MCL_OK, s', h', w') = Some (code, s1, h1, w1)" "store_contents s1 h1 ds'" "filled bs ds ds1"
    "\<forall>(a, d) \<in> set ds1. has_texts other (T a) d"
    "code \<noteq> MCL_OK \<or> ds' = after_sending (code = MCL_OK) ds1
      \<and> (\<exists>b r w3 send_result response w4. client r w3 = (send_result, response, w4) \<and> message_of T b bs (body r))"
    using ends unfolding round_ends_def by blast
  obtain b r0 w3 send_result response w4 where r: "store_contents s' h' ds'" "filled bs ds ds1"
    "ds' = after_sending True ds1" "client r0 w3 = (send_result, response, w4)" "message_of T b bs (body r0)"
    "\<forall>(a, d) \<in> set ds1. has_texts other (T a) d"
    using e by auto
  have dist: "distinct (map fst ds1)"
    using filled_addresses [OF r(2)] contents_distinct [OF assms(1)] by simp
  have all: "list_all2 (evolves bs) ds ds1" using r(2) by (simp add: filled_def)
  have drops: "a \<notin> set bs \<and> a \<notin> fst ` set ds'" if d: "(a, d) \<in> set ds" "\<not> waits d" for a d
  proof -
    obtain e where e: "e \<in> set ds1" "evolves bs (a, d) e" using list_all2_member [OF all d(1)] by blast
    then have "a \<notin> set bs" "e = (a, d)" using d(2) by (auto simp: evolves_def prod_eq_iff split: if_splits)
    then have here: "a \<notin> set bs" "(a, d) \<in> set ds1" using e(1) by simp_all
    have "leaves d" using d(2) here(2) r(6) not_leaving_waits by blast
    then have "(a, d') \<notin> set ds'" for d'
      using here(2) dist unfolding r(3) after_sending_def by (auto dest: eq_key_imp_eq_value)
    then show ?thesis using here(1) by auto
  qed
  show thesis by (rule that [OF r(1,4,5) drops])
qed

text \<open>C34: when the identifier of a request cannot be drawn after the items were written into it, the request is given up
  and the items stay written; no later request holds them, and they are removed with the next one that
  is accepted, though the server never saw them.\<close>

theorem exchange_round_loses_items:
  assumes "store_contents s h ds" "\<forall>(a, d) \<in> set ds. has_texts other (T a) d" "able_to_exchange rand p" "client_ok client" "upcoming w = []"
    and "gives_numbers rand" "\<not> gives_identifiers rand" "first_fits (max_payload_size (processor_configuration p)) T ds"
    and "able_to_exchange rand2 p"
  shows "\<exists>code s1 h1 w1 as. exchange_round rand reader other client p s h w = Some (code, s1, h1, w1) \<and> code \<noteq> MCL_OK \<and> as \<noteq> []
    \<and> (\<forall>s2 h2 w2. exchange_round rand2 reader other client p s1 h1 w1 = Some (MCL_OK, s2, h2, w2) \<longrightarrow>
      (\<exists>ds2 bs b r w3 send_result response w4. store_contents s2 h2 ds2 \<and> client r w3 = (send_result, response, w4)
        \<and> message_of T b bs (body r) \<and> (\<forall>a \<in> set as. a \<notin> set bs \<and> a \<notin> fst ` set ds2)))"
proof -
  obtain code s1 h1 w1 as ds1 where r: "exchange_round rand reader other client p s h w = Some (code, s1, h1, w1)" "code \<noteq> MCL_OK"
    "store_contents s1 h1 ds1" "upcoming w1 = []" "filled as ds ds1" "\<forall>(a, d) \<in> set ds1. has_texts other (T a) d" "as \<noteq> []"
  proof -
    obtain code s1 h1 w1 ds2 as ds1 where r: "exchange_round rand reader other client p s h w = Some (code, s1, h1, w1)"
      "store_contents s1 h1 ds2" "upcoming w1 = []" "filled as ds ds1" "\<forall>(a, d) \<in> set ds1. has_texts other (T a) d"
      "code \<noteq> MCL_OK \<and> ds2 = ds1 \<and> (as = [] \<longrightarrow> \<not> (gives_numbers rand \<and> first_fits (max_payload_size (processor_configuration p)) T ds))"
      using exchange_round_runs [OF assms(1-5), of reader] assms(7) unfolding round_ends_def by (auto split: if_splits)
    then show thesis using that assms(6,8) by blast
  qed
  have kept: "\<exists>d. (a, d) \<in> set ds1 \<and> \<not> waits d" if a: "a \<in> set as" for a
  proof -
    have "set as \<subseteq> fst ` set ds" "list_all2 (evolves as) ds ds1" using r(5) by (simp_all add: filled_def)
    note all = this
    have "a \<in> fst ` set ds" using all(1) a by (rule subsetD)
    then obtain e where e: "e \<in> set ds" "fst e = a" by (elim imageE) simp
    obtain e1 where "e1 \<in> set ds1" "evolves as e e1" using list_all2_member [OF all(2) e(1)] by blast
    moreover from this have "(a, snd e1) = e1" using e(2) by (simp add: prod_eq_iff evolves_def)
    ultimately have "(a, snd e1) \<in> set ds1 \<and> \<not> waits (snd e1)" using e(2) a by (simp add: evolves_def)
    then show ?thesis ..
  qed
  have "\<exists>ds2 bs b r w3 send_result response w4. store_contents s2 h2 ds2 \<and> client r w3 = (send_result, response, w4)
        \<and> message_of T b bs (body r) \<and> (\<forall>a \<in> set as. a \<notin> set bs \<and> a \<notin> fst ` set ds2)"
    if again: "exchange_round rand2 reader other client p s1 h1 w1 = Some (MCL_OK, s2, h2, w2)" for s2 h2 w2
  proof (rule round_drops_written [OF r(3,6) assms(9,4) r(4) again])
    fix ds2 bs b r0 w3 send_result response w4
    assume 1: "store_contents s2 h2 ds2" "client r0 w3 = (send_result, response, w4)" "message_of T b bs (body r0)"
      and "\<And>a d. (a, d) \<in> set ds1 \<Longrightarrow> \<not> waits d \<Longrightarrow> a \<notin> set bs \<and> a \<notin> fst ` set ds2"
    then have "\<forall>a \<in> set as. a \<notin> set bs \<and> a \<notin> fst ` set ds2" using kept by metis
    then show ?thesis using 1 by metis
  qed
  then show ?thesis using r(1,2,7) by blast
qed

section \<open>An example\<close>

text \<open>A store with one time series that is new.\<close>

definition sample_sets :: "time_series_value_set_t list" where
  "sample_sets = [\<lparr>value_set_timestamp = Some (handle_of ''2016''), value_set_values =
    Some [\<lparr>value_data_point_id = Some (handle_of ''dp''), value_value = Some (handle_of ''1''),
      value_quality_code = Some (handle_of ''0'')\<rparr>]\<rparr>]"

definition sample_item :: store_data_t where
  "sample_item = new_store_data (Time_Series ((time_series_of ''1.0'' ''abc'' None)\<lparr>time_series_value_sets := Some sample_sets\<rparr>))"

definition sample_store :: store_t where
  "sample_store = \<lparr>store_streamable = False,
    store_high = Some \<lparr>list_head = Some 5, list_last = Some 5, list_current = Some 5, list_count = 1\<rparr>,
    store_low = Some no_entries\<rparr>"

definition sample_heap :: store_heap where
  "sample_heap = Map.empty(5 \<mapsto> \<lparr>node_data = Some sample_item, node_prev = None, node_next = None\<rparr>)"

definition no_other :: "rat \<Rightarrow> string" where
  "no_other x = []"

definition sample_texts :: texts where
  "sample_texts = (''application/json'', meta_text no_other ''1.0'' None ''abc'',
    size_of_nat (length (payload_text no_other [(''2016'', [(''dp'', ''1'', ''0'')])])),
    payload_text no_other [(''2016'', [(''dp'', ''1'', ''0'')])])"

definition sample_processor :: http_processor_t where
  "sample_processor = \<lparr>processor_configuration =
    \<lparr>mindsphere_hostname = Some (handle_of ''h''), mindsphere_port = 443, mindsphere_certificate = None,
     proxy_hostname = None, proxy_port = 0, proxy_type = MCL_PROXY_UNKNOWN, proxy_username = None, proxy_password = None,
     proxy_domain = None, security_profile = MCL_SECURITY_SHARED_SECRET, max_payload_size = DEFAULT_HTTP_PAYLOAD_SIZE,
     http_request_timeout = DEFAULT_HTTP_REQUEST_TIMEOUT, user_agent = Some (handle_of ''agent''), initial_access_token = None,
     registration_endpoint = None, access_token_endpoint = None, exchange_endpoint = Some (handle_of ''h/x''),
     tenant = None, store_path = None\<rparr>,
    processor_security_handler = blank_handler\<lparr>access_token := Some (handle_of ''token'')\<rparr>\<rparr>"

definition sample_client :: http_client where
  "sample_client r w = (MCL_OK, Some \<lparr>response_header = None, response_payload = None, response_payload_size = 0,
    response_result_code = MCL_HTTP_RESULT_CODE_SUCCESS\<rparr>, w\<lparr>live := live w + 1\<rparr>)"

lemma sample_contents: "store_contents sample_store sample_heap [(5, sample_item)]"
  by (simp add: store_contents_def sample_store_def sample_heap_def represents_def no_entries_def last_of_def first_of_def
      data_ok_def sample_item_def new_store_data_def item_ok_def time_series_of_def meta_for_def is_custom_details_def)

lemma sample_sizes:
  "length (meta_text no_other ''1.0'' None ''abc'') = 123" "length (payload_text no_other [(''2016'', [(''dp'', ''1'', ''0'')])]) = 84"
  by (simp_all add: meta_text_def payload_text_def meta_tree_def with_routing_def with_details_def object_of_def json_string_def
      quoted_def escape_char_def Let_def array_of_def value_set_tree_def value_tree_def)

lemma sample_has_texts: "has_texts no_other sample_texts sample_item"
proof -
  have "data_ok sample_item" using sample_contents by (auto simp: store_contents_def)
  moreover have "prepares no_other sample_item (meta_text no_other ''1.0'' None ''abc'')
      (size_of_nat (length (payload_text no_other [(''2016'', [(''dp'', ''1'', ''0'')])]))) (payload_text no_other [(''2016'', [(''dp'', ''1'', ''0'')])])"
    by (rule time_series_prepares [where sets = sample_sets])
      (use calculation sample_sizes in \<open>simp_all add: sample_item_def new_store_data_def sample_sets_def
        value_set_says_def value_says_def says_handle_of is_text_def\<close>)
  ultimately show ?thesis
    by (simp add: has_texts_def sample_texts_def sample_item_def new_store_data_def payload_type_text_def)
qed

lemma sample_able: "able_to_exchange counting_source sample_processor" "reliable counting_source"
proof -
  have says: "says (handle_of s) s" if "is_text s" "length s < 100" for s
    using that by (intro says_handle_of) simp_all
  have "calm_source counting_source" by (simp add: calm_source_def fills_buffers_def counting_source_def)
  then show "able_to_exchange counting_source sample_processor"
    using says [of "''h/x''"] says [of "''agent''"] says [of "''token''"]
    by (auto simp: able_to_exchange_def sample_processor_def is_text_def DEFAULT_HTTP_PAYLOAD_SIZE_def)
  show "reliable counting_source" by (simp add: reliable_def counting_source_def)
qed

lemma sample_client_ok: "client_ok sample_client" "accepting sample_client"
  by (auto simp: client_ok_def sample_client_def response_ok_def http_response_destroy_def string_array_destroy_def
      release_block_def accepting_def accepted_def memory_free_def intro!: exI [of _ 1])

lemma sample_payload_size: "unat (size_of_nat (length (payload_text no_other [(''2016'', [(''dp'', ''1'', ''0'')])]))) = 84"
  using sample_sizes(2) by simp

lemma sample_tuple_length: "tuple_length sample_texts = 480"
  by (simp add: tuple_length_def sample_texts_def sample_sizes META_TYPE_def)

lemma sample_fits: "480 + 19 < unat limit \<Longrightarrow> fits limit sample_texts"
  by (simp add: fits_def sample_texts_def sample_sizes sample_payload_size META_TYPE_def)

lemma sample_deliverable: "deliverable sample_processor (\<lambda>_. sample_texts) [(5, sample_item)]"
  using sample_fits
  by (auto simp: deliverable_def sample_item_def new_store_data_def sample_processor_def DEFAULT_HTTP_PAYLOAD_SIZE_def
      leaves_no_room_def sample_tuple_length subset_singleton_iff)

lemmas sample_exchange = sample_contents sample_has_texts sample_able sample_client_ok sample_deliverable

lemma http_processor_exchange_terminates_witness:
  "exchange_ends [(5, sample_item)] sample_heap quiet_world
    (http_processor_exchange counting_source (\<lambda>_ _ _. None) no_other sample_client sample_processor sample_store sample_heap quiet_world)"
  using http_processor_exchange_terminates [OF sample_contents, of no_other "\<lambda>_. sample_texts" counting_source sample_processor
      sample_client quiet_world "\<lambda>_ _ _. None"] sample_exchange
  by (simp add: quiet_world_def)

lemma exchange_round_correct_witness:
  "round_ends counting_source sample_processor sample_client no_other (\<lambda>_. sample_texts) [(5, sample_item)] sample_heap quiet_world
    (exchange_round counting_source (\<lambda>_ _ _. None) no_other sample_client sample_processor sample_store sample_heap quiet_world)"
  by (rule exchange_round_correct [OF sample_contents]) (use sample_exchange in \<open>simp_all add: quiet_world_def\<close>)

lemma http_processor_exchange_delivers_witness:
  "\<exists>s' h' w'. http_processor_exchange counting_source (\<lambda>_ _ _. None) no_other sample_client sample_processor
      sample_store sample_heap quiet_world = Some (MCL_OK, s', h', w') \<and> store_contents s' h' []"
  by (rule http_processor_exchange_delivers [OF sample_contents _ _ _ _ _ _ sample_deliverable])
    (use sample_exchange in \<open>simp_all add: quiet_world_def\<close>)

text \<open>With a limit of 500 characters the same item leaves 20 of them.\<close>

definition tight_processor :: http_processor_t where
  "tight_processor = sample_processor\<lparr>processor_configuration := (processor_configuration sample_processor)\<lparr>max_payload_size := 500\<rparr>\<rparr>"

lemma exchange_round_cannot_close_witness:
  "\<exists>s' h' w' d'. http_processor_exchange counting_source (\<lambda>_ _ _. None) no_other sample_client tight_processor
      sample_store sample_heap quiet_world = Some (MCL_HTTP_REQUEST_FINALIZE_FAILED, s', h', w')
    \<and> store_contents s' h' [(5, d')] \<and> \<not> waits d'"
proof -
  have "able_to_exchange counting_source tight_processor"
    using sample_able(1) by (simp add: able_to_exchange_def tight_processor_def)
  moreover have "max_payload_size (processor_configuration tight_processor) = 500" by (simp add: tight_processor_def)
  moreover have "waits sample_item" by (simp add: sample_item_def new_store_data_def)
  ultimately show ?thesis
    using sample_exchange sample_fits [of 500]
    by (intro exchange_round_cannot_close [where T = "\<lambda>_. sample_texts"])
      (simp_all add: quiet_world_def leaves_no_room_def sample_tuple_length)
qed

section \<open>What the exchange shows\<close>

text \<open>Preparing a new time series makes the texts of its meta data and of its value sets, which its handle then keeps, in
  the three blocks that are given back with the item, and no others.\<close>

theorem exchange_prepare_data_correct:
  assumes "data_ok d" "store_state d = DATA_STATE_INITIAL"
    and "store_item d = Time_Series ((time_series_of v c r)\<lparr>time_series_value_sets := Some sets\<rparr>)" "list_all2 value_set_says sets xs"
    and "is_text v" "is_text c" "c \<noteq> []" "\<forall>s. r = Some s \<longrightarrow> is_text s \<and> length s + 1 < 2 ^ 64" "length v + 1 < 2 ^ 64" "length c + 1 < 2 ^ 64"
    and "length (meta_text other v r c) < 2 ^ 30" "length (payload_text other xs) < 2 ^ 60"
  shows "prepares other d (meta_text other v r c) (size_of_nat (length (payload_text other xs))) (payload_text other xs)"
  by (rule time_series_prepares [OF assms])

lemma exchange_prepare_data_correct_witness:
  "prepares no_other sample_item (meta_text no_other ''1.0'' None ''abc'')
    (size_of_nat (length (payload_text no_other [(''2016'', [(''dp'', ''1'', ''0'')])]))) (payload_text no_other [(''2016'', [(''dp'', ''1'', ''0'')])])"
proof -
  have "data_ok sample_item" using sample_contents by (auto simp: store_contents_def)
  then show ?thesis
    by (rule exchange_prepare_data_correct [where sets = sample_sets])
      (use sample_sizes in \<open>simp_all add: sample_item_def new_store_data_def sample_sets_def
        value_set_says_def value_says_def says_handle_of is_text_def\<close>)
qed

text \<open>C7: evaluating a response gives back the response and reports success exactly when the server accepted the request; the
  items that were written are removed with all of their blocks when it did, and wait again when it did not,
  while the other items stay as they are.\<close>

theorem exchange_evaluate_response_correct:
  assumes "store_contents s h ds" "response_ok response n" "send_result \<noteq> MCL_OK \<longrightarrow> response = None"
  shows "\<exists>code s' h' w'. exchange_evaluate_response s send_result response h w = Some (code, s', h', w')
    \<and> (code = MCL_OK \<longleftrightarrow> accepted send_result response)
    \<and> store_contents s' h' (after_sending (accepted send_result response) ds)
    \<and> live w' - nodes_blocks (after_sending (accepted send_result response) ds) = live w - n - nodes_blocks ds"
  by (rule exchange_evaluate_response_runs [OF assms, of w]) blast

text \<open>The item was written, and the server accepts.\<close>

definition sample_written :: store_data_t where
  "sample_written = sample_item\<lparr>store_meta := Some (handle_of ''{}''), store_payload_buffer := Some (cstring ''[]''),
    store_payload_size := 2, store_state := DATA_STATE_WRITTEN\<rparr>"

lemma exchange_evaluate_response_correct_witness:
  "\<exists>s' h' w'. exchange_evaluate_response sample_store MCL_OK (Some \<lparr>response_header = None, response_payload = None,
        response_payload_size = 0, response_result_code = MCL_HTTP_RESULT_CODE_SUCCESS\<rparr>)
      (sample_heap(5 \<mapsto> \<lparr>node_data = Some sample_written, node_prev = None, node_next = None\<rparr>)) quiet_world
      = Some (MCL_OK, s', h', w') \<and> store_contents s' h' []
    \<and> live w' = live quiet_world - 1 - nodes_blocks [(5, sample_written)]"
proof -
  let ?h = "sample_heap(5 \<mapsto> \<lparr>node_data = Some sample_written, node_prev = None, node_next = None\<rparr>)"
  let ?r = "Some \<lparr>response_header = None, response_payload = None, response_payload_size = 0,
    response_result_code = MCL_HTTP_RESULT_CODE_SUCCESS\<rparr>"
  have "data_ok sample_item" using sample_contents by (auto simp: store_contents_def)
  then have "data_ok sample_written"
    by (simp add: data_ok_def sample_written_def sample_item_def new_store_data_def)
  then have held: "store_contents sample_store ?h [(5, sample_written)]"
    by (simp add: store_contents_def sample_store_def sample_heap_def represents_def no_entries_def last_of_def first_of_def)
  have response: "response_ok ?r 1" "MCL_OK \<noteq> MCL_OK \<longrightarrow> ?r = None"
    by (auto simp: response_ok_def http_response_destroy_def string_array_destroy_def release_block_def memory_free_def)
  have "accepted MCL_OK ?r" "after_sending True [(5, sample_written)] = []"
    by (simp_all add: accepted_def after_sending_def leaves_def sample_written_def)
  then show ?thesis using exchange_evaluate_response_correct [OF held response, of quiet_world] by auto
qed

text \<open>The store of the example, with its list at the addresses from 7 on not yet given out.\<close>

lemma mcl_store_destroy_correct_witness:
  "\<exists>w'. mcl_store_destroy (Some sample_store) sample_heap (quiet_world\<lparr>fresh := 7\<rparr>) = Some (MCL_OK, None, Map.empty, w')
    \<and> live w' = live quiet_world - store_blocks [(5, sample_item)]"
proof -
  have "store_holds sample_store sample_heap (quiet_world\<lparr>fresh := 7\<rparr>) [(5, sample_item)]"
    using sample_contents by (simp add: store_holds_contents heap_fresh_def sample_heap_def)
  from mcl_store_destroy_correct [OF this] show ?thesis by (auto simp: sample_heap_def fun_eq_iff)
qed

lemma exchange_items_proceed_witness:
  "\<exists>st d' r' w'. exchange_add_item counting_source (\<lambda>_ _ _. None) no_other False sample_item sample_request quiet_world
      = Some (st, d', r', w') \<and> proceeds sample_item d'"
proof -
  have "fillable counting_source sample_boundary (frame sample_request) sample_request quiet_world"
    using sample_able(1) sample_request_ok by (simp add: fillable_def able_to_exchange_def quiet_world_def body_def)
      (simp add: sample_request_def)
  from fl.adds [OF sample_has_texts this] obtain st d' r' w' where run:
    "exchange_add_item counting_source (\<lambda>_ _ _. None) no_other False sample_item sample_request quiet_world = Some (st, d', r', w')"
    by blast
  have "data_ok sample_item" using sample_contents by (auto simp: store_contents_def)
  then show ?thesis using exchange_items_proceed [OF _ run, of True] run by blast
qed

definition forgetful_source :: random_source where
  "forgetful_source n w = (if n = 16 then (None, w) else counting_source n w)"

lemma exchange_round_loses_items_witness:
  "\<exists>code s1 h1 w1. exchange_round forgetful_source (\<lambda>_ _ _. None) no_other sample_client sample_processor sample_store sample_heap quiet_world
      = Some (code, s1, h1, w1) \<and> code \<noteq> MCL_OK"
proof -
  have "able_to_exchange forgetful_source sample_processor"
    using sample_able(1) by (simp add: able_to_exchange_def calm_source_def fills_buffers_def forgetful_source_def counting_source_def)
  moreover have "first_fits (max_payload_size (processor_configuration sample_processor)) (\<lambda>_. sample_texts) [(5, sample_item)]"
    by (rule deliverable_first [OF sample_deliverable]) simp
  ultimately show ?thesis
    using exchange_round_loses_items [OF sample_contents, of no_other "\<lambda>_. sample_texts" forgetful_source sample_processor
        sample_client quiet_world counting_source "\<lambda>_ _ _. None"] sample_exchange
    by (simp add: gives_numbers_def gives_identifiers_def forgetful_source_def counting_source_def quiet_world_def) blast
qed

end
