(* ===== verification/MCL_Cjson_Parse.thy ===== *)
theory MCL_Cjson_Parse
  imports MCL_Json
begin

text \<open>
  The parser of \<^verbatim>\<open>lib/cJSON/cJSON.c\<close> and \<^verbatim>\<open>json_util_parse\<close>.  A pointer into the text is the list of the characters from
  there to the end of its buffer, a read behind that end has no result.  A function of the parser gives the item
  it has filled in and the place behind what it has read, or no place where the code returns 0; the item then
  holds what was allocated for it so far.  The position of an error, which the library never asks for, is left out,
  and so is the depth of the C stack.  \<open>pow10\<close> is how the C library raises ten to a power.
\<close>

section \<open>Reading\<close>

definition look :: "char list \<Rightarrow> char option" where
  "look s = (case s of [] \<Rightarrow> None | c # t \<Rightarrow> Some c)"

fun skip :: "char list \<Rightarrow> char list option" where
  "skip [] = None"
| "skip (c # s) = (if c \<noteq> NUL \<and> of_char c \<le> (32 :: nat) then skip s else Some (c # s))"

text \<open>The comparison with a word ends at the first difference.\<close>

fun matches :: "string \<Rightarrow> char list \<Rightarrow> bool option" where
  "matches [] s = Some True"
| "matches (x # xs) [] = None"
| "matches (x # xs) (c # s) = (if c = x then matches xs s else Some False)"

definition is_figure :: "char \<Rightarrow> bool" where
  "is_figure c \<longleftrightarrow> 48 \<le> (of_char c :: nat) \<and> (of_char c :: nat) \<le> 57"

section \<open>Numbers\<close>

fun take_figures :: "char list \<Rightarrow> (string \<times> char list) option" where
  "take_figures [] = None"
| "take_figures (c # s) =
    (if is_figure c then do { (ds, r) \<leftarrow> take_figures s; Some (c # ds, r) } else Some ([], c # s))"

definition figure_value :: "char \<Rightarrow> int" where
  "figure_value c = int (of_char c) - 48"

text \<open>The digits are summed up as a double; the exponent is an \<^verbatim>\<open>int\<close>, whose overflow is undefined.\<close>

definition sum_figures :: "string \<Rightarrow> rat" where
  "sum_figures ds = fold (\<lambda>c n. fl (fl (n * 10) + of_int (figure_value c))) ds 0"

fun sum_exponent :: "int \<Rightarrow> string \<Rightarrow> int option" where
  "sum_exponent n [] = Some n"
| "sum_exponent n (c # ds) =
    (let m = n * 10 + figure_value c in if m < 2 ^ 31 then sum_exponent m ds else None)"

definition skip_if :: "char \<Rightarrow> char list \<Rightarrow> (bool \<times> char list) option" where
  "skip_if x s = do { c \<leftarrow> look s; Some (if c = x then (True, tl s) else (False, s)) }"

definition parse_fraction :: "char list \<Rightarrow> (string \<times> char list) option" where
  "parse_fraction s = do {
    c \<leftarrow> look s;
    if c \<noteq> CHR ''.'' then Some ([], s)
    else do { d \<leftarrow> look (tl s); if is_figure d then take_figures (tl s) else Some ([], s) }
  }"

definition parse_exponent :: "char list \<Rightarrow> (int \<times> char list) option" where
  "parse_exponent s = do {
    c \<leftarrow> look s;
    if c \<noteq> CHR ''e'' \<and> c \<noteq> CHR ''E'' then Some (0, s)
    else do {
      (plus, s1) \<leftarrow> skip_if CHR ''+'' (tl s);
      (minus, s2) \<leftarrow> (if plus then Some (False, s1) else skip_if CHR ''-'' s1);
      (ds, s3) \<leftarrow> take_figures s2;
      n \<leftarrow> sum_exponent 0 ds;
      Some (if minus then - n else n, s3)
    }
  }"

type_synonym parsed = "(cjson \<times> char list option \<times> world) option"

fun with_number :: "int \<Rightarrow> rat \<Rightarrow> cjson \<Rightarrow> cjson" where
  "with_number n d (Cjson t vs vi vd nm cs) = Cjson cJSON_Number vs n d nm cs"

definition parse_number :: "(int \<Rightarrow> rat) \<Rightarrow> cjson \<Rightarrow> char list \<Rightarrow> (cjson \<times> char list) option" where
  "parse_number pow10 item num = do {
    (negative, s1) \<leftarrow> skip_if CHR ''-'' num;
    (zero, s2) \<leftarrow> skip_if CHR ''0'' s1;
    c \<leftarrow> look s2;
    (ds, s3) \<leftarrow> (if is_figure c \<and> c \<noteq> CHR ''0'' then take_figures s2 else Some ([], s2));
    (fs, s4) \<leftarrow> parse_fraction s3;
    (e, s5) \<leftarrow> parse_exponent s4;
    let m = fl (sum_figures (ds @ fs) * pow10 (e - int (length fs)));
    let n = (if negative then - m else m);
    i \<leftarrow> int_of_double n;
    Some (with_number i n item, s5)
  }"

section \<open>Texts\<close>

definition hex_value :: "char \<Rightarrow> nat option" where
  "hex_value c = (let n = of_char c :: nat in
    if 48 \<le> n \<and> n \<le> 57 then Some (n - 48)
    else if 65 \<le> n \<and> n \<le> 70 then Some (10 + (n - 65))
    else if 97 \<le> n \<and> n \<le> 102 then Some (10 + (n - 97)) else None)"

text \<open>Four digits; at the first character that is none the value is 0.\<close>

fun parse_hex :: "nat \<Rightarrow> nat \<Rightarrow> char list \<Rightarrow> nat option" where
  "parse_hex 0 h s = Some h"
| "parse_hex (Suc k) h s = do {
    c \<leftarrow> look s;
    (case hex_value c of None \<Rightarrow> Some 0 | Some v \<Rightarrow> parse_hex k (h * 16 + v) (tl s))
  }"

definition parse_hex4 :: "char list \<Rightarrow> nat option" where
  "parse_hex4 s = parse_hex 4 0 s"

text \<open>Where the text ends and how many characters are counted for it: an escaped character is passed over with its
  backslash, whatever it is.\<close>

fun scan_string :: "char list \<Rightarrow> (nat \<times> nat) option" where
  "scan_string [] = None"
| "scan_string (c # s) =
    (if c = CHR 0x22 \<or> c = NUL then Some (0, 0)
     else if c = CHR 0x5C then (case s of
         [] \<Rightarrow> None
       | e # t \<Rightarrow> do { (len, n) \<leftarrow> scan_string t; Some (Suc len, n + 2) })
     else do { (len, n) \<leftarrow> scan_string s; Some (Suc len, Suc n) })"

definition firstByteMark :: "nat list" where
  "firstByteMark = [0x00, 0x00, 0xC0, 0xE0, 0xF0, 0xF8, 0xFC]"

definition utf8 :: "nat \<Rightarrow> string" where
  "utf8 uc = (let tail = (\<lambda>k. char_of (128 + uc div 64 ^ k mod 64)) in
    if uc < 0x80 then [char_of uc]
    else if uc < 0x800 then [char_of (firstByteMark ! 2 + uc div 64), tail 0]
    else if uc < 0x10000 then [char_of (firstByteMark ! 3 + uc div 64 ^ 2), tail 1, tail 0]
    else [char_of (firstByteMark ! 4 + uc div 64 ^ 3), tail 2, tail 1, tail 0])"

definition unescaped :: "char \<Rightarrow> char" where
  "unescaped e =
    (if e = CHR ''b'' then char_of (8 :: nat) else if e = CHR ''f'' then char_of (12 :: nat)
     else if e = CHR ''n'' then char_of (10 :: nat) else if e = CHR ''r'' then char_of (13 :: nat)
     else if e = CHR ''t'' then char_of (9 :: nat) else e)"

text \<open>The character behind \<^verbatim>\<open>\u\<close>: the digits are at \<open>p\<close>, and \<open>n\<close> characters are left before the end of the text,
  counted from the \<^verbatim>\<open>u\<close>.  It gives what is written and how far it goes.\<close>

definition parse_unicode :: "nat \<Rightarrow> char list \<Rightarrow> (string \<times> nat) option option" where
  "parse_unicode n p = do {
    uc \<leftarrow> parse_hex4 p;
    if n \<le> 4 then Some None
    else if 0xDC00 \<le> uc \<and> uc \<le> 0xDFFF \<or> uc = 0 then Some None
    else if 0xD800 \<le> uc \<and> uc \<le> 0xDBFF then
      (if n < 10 then Some None
       else do {
         c \<leftarrow> look (drop 4 p); d \<leftarrow> look (drop 5 p);
         if c \<noteq> CHR 0x5C \<or> d \<noteq> CHR ''u'' then Some None
         else do {
           uc2 \<leftarrow> parse_hex4 (drop 6 p);
           Some (if uc2 < 0xDC00 \<or> 0xDFFF < uc2 then None
             else Some (utf8 (0x10000 + (uc mod 0x400 * 0x400 + uc2 mod 0x400)), 10))
         }
       })
    else Some (Some (utf8 uc, 4))
  }"

text \<open>\<open>n\<close> characters are left before the end of the text.\<close>

function unescape :: "nat \<Rightarrow> char list \<Rightarrow> (string \<times> char list) option option" where
  "unescape n p =
    (if n = 0 then Some (Some ([], p))
     else do {
       c \<leftarrow> look p;
       if c \<noteq> CHR 0x5C then do { r \<leftarrow> unescape (n - 1) (tl p); Some (map_option (map_prod ((#) c) id) r) }
       else do {
         e \<leftarrow> look (tl p);
         if e = CHR ''u'' then do {
           u \<leftarrow> parse_unicode (n - 1) (tl (tl p));
           (case u of
             None \<Rightarrow> Some None
           | Some (t, k) \<Rightarrow> do {
               r \<leftarrow> unescape (n - 2 - k) (drop k (tl (tl p)));
               Some (map_option (map_prod ((@) t) id) r)
             })
         }
         else do { r \<leftarrow> unescape (n - 2) (tl (tl p)); Some (map_option (map_prod ((#) (unescaped e)) id) r) }
       }
     })"
  by pat_completeness auto
termination by (relation "measure fst") auto

declare unescape.simps [simp del]

fun with_string :: "string \<Rightarrow> cjson \<Rightarrow> cjson" where
  "with_string s (Cjson t vs vi vd nm cs) = Cjson cJSON_String (Some s) vi vd nm cs"

text \<open>A text ends at the first zero, as every C string; a text that is refused half way is a block without contents.\<close>

definition parse_string :: "cjson \<Rightarrow> char list \<Rightarrow> world \<Rightarrow> parsed" where
  "parse_string item str w = do {
    c \<leftarrow> look str;
    if c \<noteq> CHR 0x22 then Some (item, None, w)
    else do {
      (len, n) \<leftarrow> scan_string (tl str);
      guard (len + 1 < 2 ^ 31);
      (case memory_malloc (size_of_nat (len + 1)) w of
        (None, w1) \<Rightarrow> Some (item, None, w1)
      | (Some a, w1) \<Rightarrow> do {
          r \<leftarrow> unescape n (tl str);
          (case r of
            None \<Rightarrow> Some (with_string [] item, None, w1)
          | Some (text1, p) \<Rightarrow> do {
              d \<leftarrow> look p;
              Some (with_string (takeWhile (\<lambda>x. x \<noteq> NUL) text1) item, Some (if d = CHR 0x22 then tl p else p), w1)
            })
        })
    }
  }"

section \<open>Values\<close>

fun with_type :: "cjson_type \<Rightarrow> cjson \<Rightarrow> cjson" where
  "with_type u (Cjson t vs vi vd nm cs) = Cjson u vs vi vd nm cs"

fun with_valueint :: "int \<Rightarrow> cjson \<Rightarrow> cjson" where
  "with_valueint n (Cjson t vs vi vd nm cs) = Cjson t vs n vd nm cs"

fun string_to_name :: "cjson \<Rightarrow> cjson" where
  "string_to_name (Cjson t vs vi vd nm cs) = Cjson t None vi vd vs cs"

text \<open>What follows a child: another one, the end, or an error.\<close>

definition after_child ::
    "char \<Rightarrow> (cjson \<Rightarrow> char list \<Rightarrow> world \<Rightarrow> parsed) \<Rightarrow> cjson \<Rightarrow> char list option \<Rightarrow> world \<Rightarrow> parsed" where
  "after_child close again item r w = (case r of
      None \<Rightarrow> Some (item, None, w)
    | Some s \<Rightarrow> do {
        s1 \<leftarrow> skip s; c \<leftarrow> look s1;
        if c = CHR '','' then again item (tl s1) w
        else if c = close then Some (item, Some (tl s1), w)
        else Some (item, None, w)
      })"

text \<open>The functions with what they call as an argument.\<close>

type_synonym parser = "cjson \<Rightarrow> char list \<Rightarrow> world \<Rightarrow> parsed"

definition opened :: "char \<Rightarrow> cjson_type \<Rightarrow> parser \<Rightarrow> parser" where
  "opened close t children item s w = do {
    s1 \<leftarrow> skip (tl s); d \<leftarrow> look s1;
    if d = close then Some (with_type t item, Some (tl s1), w) else children (with_type t item) s1 w
  }"

definition parse_value_with :: "(int \<Rightarrow> rat) \<Rightarrow> parser \<Rightarrow> parser \<Rightarrow> parser" where
  "parse_value_with pow10 elements members item s w = do {
    is_null \<leftarrow> matches ''null'' s;
    if is_null then Some (with_type cJSON_NULL item, Some (drop 4 s), w)
    else do {
      is_false \<leftarrow> matches ''false'' s;
      if is_false then Some (with_type cJSON_False item, Some (drop 5 s), w)
      else do {
        is_true \<leftarrow> matches ''true'' s;
        if is_true then Some (with_valueint 1 (with_type cJSON_True item), Some (drop 4 s), w)
        else do {
          c \<leftarrow> look s;
          if c = CHR 0x22 then parse_string item s w
          else if c = CHR ''-'' \<or> is_figure c then do { (item1, r) \<leftarrow> parse_number pow10 item s; Some (item1, Some r, w) }
          else if c = CHR ''['' then opened CHR '']'' cJSON_Array elements item s w
          else if c = CHR 0x7B then opened CHR 0x7D cJSON_Object members item s w
          else Some (item, None, w)
        }
      }
    }
  }"

definition parse_element_with :: "parser \<Rightarrow> parser \<Rightarrow> parser" where
  "parse_element_with element again item s w = (case cJSON_New_Item w of
      (None, w1) \<Rightarrow> Some (item, None, w1)
    | (Some a, w1) \<Rightarrow> do {
        s1 \<leftarrow> skip s;
        (child, r, w2) \<leftarrow> element (new_item cJSON_False) s1 w1;
        after_child CHR '']'' again (cJSON_AddItemToArray item (Some child)) r w2
      })"

definition parse_member_with :: "parser \<Rightarrow> parser \<Rightarrow> parser" where
  "parse_member_with element again item s w = (case cJSON_New_Item w of
      (None, w1) \<Rightarrow> Some (item, None, w1)
    | (Some a, w1) \<Rightarrow> do {
        s1 \<leftarrow> skip s;
        (child, r, w2) \<leftarrow> parse_string (new_item cJSON_False) s1 w1;
        (case r of
          None \<Rightarrow> Some (cJSON_AddItemToArray item (Some child), None, w2)
        | Some s2 \<Rightarrow> do {
            s3 \<leftarrow> skip s2; c \<leftarrow> look s3;
            if c \<noteq> CHR '':'' then Some (cJSON_AddItemToArray item (Some (string_to_name child)), None, w2)
            else do {
              s4 \<leftarrow> skip (tl s3);
              (child1, r1, w3) \<leftarrow> element (string_to_name child) s4 w2;
              after_child CHR 0x7D again (cJSON_AddItemToArray item (Some child1)) r1 w3
            }
          })
      })"

text \<open>The recursion and the loops over the children are bounded by the first number: it is shown below that twice the
  length of the text is enough.\<close>

fun parse_value :: "(int \<Rightarrow> rat) \<Rightarrow> nat \<Rightarrow> parser"
  and parse_elements :: "(int \<Rightarrow> rat) \<Rightarrow> nat \<Rightarrow> parser"
  and parse_members :: "(int \<Rightarrow> rat) \<Rightarrow> nat \<Rightarrow> parser" where
  "parse_value pow10 0 = (\<lambda>item s w. None)"
| "parse_value pow10 (Suc n) = parse_value_with pow10 (parse_elements pow10 n) (parse_members pow10 n)"
| "parse_elements pow10 0 = (\<lambda>item s w. None)"
| "parse_elements pow10 (Suc n) = parse_element_with (parse_value pow10 n) (parse_elements pow10 n)"
| "parse_members pow10 0 = (\<lambda>item s w. None)"
| "parse_members pow10 (Suc n) = parse_member_with (parse_value pow10 n) (parse_members pow10 n)"

definition parse_bound :: "char list \<Rightarrow> nat" where
  "parse_bound s = 2 * length s + 2"

definition cJSON_Parse :: "(int \<Rightarrow> rat) \<Rightarrow> char list \<Rightarrow> world \<Rightarrow> (cjson option \<times> world) option" where
  "cJSON_Parse pow10 value w = (case cJSON_New_Item w of
      (None, w1) \<Rightarrow> Some (None, w1)
    | (Some a, w1) \<Rightarrow> do {
        s \<leftarrow> skip value;
        (c, r, w2) \<leftarrow> parse_value pow10 (parse_bound value) (new_item cJSON_False) s w1;
        Some (if r = None then (None, cJSON_Delete c w2) else (Some c, w2))
      })"

definition json_util_parse ::
    "(int \<Rightarrow> rat) \<Rightarrow> char list \<Rightarrow> world \<Rightarrow> (E_MCL_ERROR_CODE \<times> cjson option \<times> world) option" where
  "json_util_parse pow10 source w =
    (case memory_allocate sizeof_json w of
      (None, w1) \<Rightarrow> Some (MCL_OUT_OF_MEMORY, None, w1)
    | (Some a, w1) \<Rightarrow> do {
        (root_handle, w2) \<leftarrow> cJSON_Parse pow10 source w1;
        Some (if root_handle = None then (MCL_FAIL, None, memory_free w2) else (MCL_OK, root_handle, w2))
      })"

definition mcl_json_util_parse ::
    "(int \<Rightarrow> rat) \<Rightarrow> char list option \<Rightarrow> bool \<Rightarrow> world \<Rightarrow> (E_MCL_ERROR_CODE \<times> cjson option \<times> world) option" where
  "mcl_json_util_parse pow10 source given w =
    (case source of
      None \<Rightarrow> Some (MCL_TRIGGERED_WITH_NULL, None, w)
    | Some s \<Rightarrow> if given then json_util_parse pow10 s w else Some (MCL_TRIGGERED_WITH_NULL, None, w))"

section \<open>What every parser keeps\<close>

text \<open>It goes forward, and what it has allocated belongs to the item.\<close>

definition well_behaved :: "parser \<Rightarrow> bool" where
  "well_behaved f \<longleftrightarrow> (\<forall>item s w item' r w'. f item s w = Some (item', r, w') \<longrightarrow> valuestring item = None \<longrightarrow>
    (\<forall>t. r = Some t \<longrightarrow> length t \<le> length s) \<and> live w' - item_blocks item' = live w - item_blocks item
    \<and> cjson_name item' = cjson_name item)"

lemma well_behavedD:
  assumes "well_behaved f" "f item s w = Some (item', r, w')" "valuestring item = None"
  shows "r = Some t \<Longrightarrow> length t \<le> length s" "live w' - item_blocks item' = live w - item_blocks item"
    "cjson_name item' = cjson_name item"
  using assms unfolding well_behaved_def by blast+

lemma look_Some [simp]: "look s = Some c \<longleftrightarrow> (\<exists>t. s = c # t)"
  by (cases s) (auto simp: look_def)

lemma look_Cons [simp]: "look (c # s) = Some c"
  by (simp add: look_def)

lemma skip_shortens: "skip s = Some t \<Longrightarrow> length t \<le> length s"
  by (induction s) (auto split: if_splits)

lemma take_figures_shortens: "take_figures s = Some (ds, t) \<Longrightarrow> length t \<le> length s"
  by (induction s arbitrary: ds) (force simp: bind_eq_Some_conv split: if_splits)+

lemma skip_if_shortens: "skip_if x s = Some (b, t) \<Longrightarrow> length t \<le> length s"
  by (auto simp: skip_if_def bind_eq_Some_conv split: if_splits)

lemma parse_fraction_shortens: "parse_fraction s = Some (ds, t) \<Longrightarrow> length t \<le> length s"
  by (auto simp: parse_fraction_def bind_eq_Some_conv split: if_splits dest!: take_figures_shortens)

lemma parse_exponent_shortens:
  assumes "parse_exponent s = Some (e, t)"
  shows "length t \<le> length s"
proof -
  obtain c s0 where s: "s = c # s0" using assms by (auto simp: parse_exponent_def bind_eq_Some_conv)
  show ?thesis
  proof (cases "c \<noteq> CHR ''e'' \<and> c \<noteq> CHR ''E''")
    case False
    obtain plus s1 minus s2 ds where "skip_if CHR ''+'' s0 = Some (plus, s1)"
      "(if plus then Some (False, s1) else skip_if CHR ''-'' s1) = Some (minus, s2)" "take_figures s2 = Some (ds, t)"
      using assms s False by (auto simp: parse_exponent_def bind_eq_Some_conv)
    then have "length s1 \<le> length s0" "length s2 \<le> length s1" "length t \<le> length s2"
      by (auto dest: skip_if_shortens take_figures_shortens split: if_splits)
    then show ?thesis using s by simp
  qed (use assms s in \<open>simp add: parse_exponent_def look_def\<close>)
qed

lemma parse_number_runs:
  assumes "parse_number pow10 item s = Some (item', t)"
  shows "length t \<le> length s" "\<exists>i n. item' = with_number i n item"
proof -
  obtain neg s1 zero s2 c s3' ds s3 fs s4 e where "skip_if CHR ''-'' s = Some (neg, s1)" "skip_if CHR ''0'' s1 = Some (zero, s2)"
    "(if is_figure c \<and> c \<noteq> CHR ''0'' then take_figures s2 else Some ([], s2)) = Some (ds, s3)"
    "parse_fraction s3 = Some (fs, s4)" "parse_exponent s4 = Some (e, t)"
    using assms by (auto simp: parse_number_def bind_eq_Some_conv Let_def)
  then have "length s1 \<le> length s" "length s2 \<le> length s1" "length s3 \<le> length s2" "length s4 \<le> length s3" "length t \<le> length s4"
    by (auto dest: skip_if_shortens take_figures_shortens parse_fraction_shortens parse_exponent_shortens split: if_splits)
  then show "length t \<le> length s" by linarith
  show "\<exists>i n. item' = with_number i n item" using assms by (auto simp: parse_number_def bind_eq_Some_conv Let_def)
qed

lemma unescape_shortens: "unescape n p = Some (Some (t, q)) \<Longrightarrow> length q \<le> length p"
proof (induction n p arbitrary: t q rule: unescape.induct)
  case (1 n p)
  show ?case
  proof (cases "n = 0")
    case True
    then show ?thesis using "1.prems" by (simp add: unescape.simps)
  next
    case False
    then obtain c p1 where p: "p = c # p1"
      using "1.prems" by (subst (asm) unescape.simps) (auto simp: bind_eq_Some_conv)
    show ?thesis
    proof (cases "c = CHR 0x5C")
      case plain: False
      then obtain t1 where "unescape (n - 1) p1 = Some (Some (t1, q))"
        using "1.prems" False p by (subst (asm) unescape.simps) (auto simp: bind_eq_Some_conv look_def)
      then show ?thesis using "1.IH"(1) [of c t1 q] False plain p by (simp add: look_def)
    next
      case escaped: True
      then obtain e p2 where p1: "p1 = e # p2"
        using "1.prems" False p by (subst (asm) unescape.simps) (auto simp: bind_eq_Some_conv look_def split: list.splits)
      show ?thesis
      proof (cases "e = CHR ''u''")
        case u: False
        then obtain t1 where "unescape (n - 2) p2 = Some (Some (t1, q))"
          using "1.prems" False p p1 escaped by (subst (asm) unescape.simps) (auto simp: bind_eq_Some_conv look_def)
        then show ?thesis using "1.IH"(3) [of c e t1 q] False escaped p p1 u by (simp add: look_def)
      next
        case u: True
        obtain v k where v: "parse_unicode (n - 1) p2 = Some (Some (v, k))"
          using "1.prems" False p p1 escaped u
          by (subst (asm) unescape.simps) (auto simp: bind_eq_Some_conv look_def split: option.splits)
        then obtain t1 where "unescape (n - 2 - k) (drop k p2) = Some (Some (t1, q))"
          using "1.prems" False p p1 escaped u by (subst (asm) unescape.simps) (auto simp: bind_eq_Some_conv look_def)
        then show ?thesis using "1.IH"(2) [of c e "Some (v, k)" "(v, k)" v k t1 q] False escaped p p1 u v by (simp add: look_def)
      qed
    qed
  qed
qed

lemma with_fields [simp]:
  "valuestring (with_type t c) = valuestring c" "cjson_name (with_type t c) = cjson_name c"
  "item_blocks (with_type t c) = item_blocks c" "cjson_name (with_valueint n c) = cjson_name c"
  "item_blocks (with_valueint n c) = item_blocks c" "cjson_name (with_number n d c) = cjson_name c"
  "item_blocks (with_number n d c) = item_blocks c" "cjson_name (with_string s c) = cjson_name c"
  "valuestring (string_to_name c) = None"
  by (cases c; simp)+

lemma added_fields [simp]:
  "cjson_name (cJSON_AddItemToArray c x) = cjson_name c" "valuestring (cJSON_AddItemToArray c x) = valuestring c"
  "item_blocks (cJSON_AddItemToArray c (Some e)) = item_blocks c + item_blocks e"
  by (cases c; cases x; simp add: cJSON_AddItemToArray_def)+

lemma new_fields [simp]:
  "valuestring (new_item t) = None" "cjson_name (new_item t) = None" "item_blocks (new_item t) = 1"
  by (simp_all add: new_item_def text_blocks_def)

lemma with_string_blocks [simp]: "valuestring c = None \<Longrightarrow> item_blocks (with_string s c) = item_blocks c + 1"
  by (cases c) (simp add: text_blocks_def)

lemma string_to_name_blocks [simp]: "cjson_name c = None \<Longrightarrow> item_blocks (string_to_name c) = item_blocks c"
  by (cases c) simp

lemma malloc_live: "memory_malloc n w = (r, w1) \<Longrightarrow> live w1 = live w + (if r = None then 0 else 1)"
  by (cases r) (auto dest: memory_malloc_Some memory_malloc_None)

lemma parse_string_behaves: "well_behaved parse_string"
  unfolding well_behaved_def
proof (intro allI impI)
  fix item s w item' r w'
  assume run: "parse_string item s w = Some (item', r, w')" and vs: "valuestring item = None"
  then obtain c str where s: "s = c # str" by (auto simp: parse_string_def bind_eq_Some_conv)
  show "(\<forall>t. r = Some t \<longrightarrow> length t \<le> length s) \<and> live w' - item_blocks item' = live w - item_blocks item
    \<and> cjson_name item' = cjson_name item"
  proof (cases "c = CHR 0x22")
    case True
    then obtain len n where sc: "scan_string str = Some (len, n)" "len + 1 < 2 ^ 31"
      using run s by (auto simp: parse_string_def bind_eq_Some_conv look_def guard_def split: if_splits)
    obtain a w1 where a: "memory_malloc (size_of_nat (len + 1)) w = (a, w1)" by fastforce
    show ?thesis
    proof (cases a)
      case None
      then show ?thesis using run s True sc a malloc_live [OF a] by (simp add: parse_string_def look_def guard_def)
    next
      case (Some x)
      obtain u where u: "unescape n str = Some u"
        using run s True sc a Some by (auto simp: parse_string_def look_def guard_def bind_eq_Some_conv)
      show ?thesis
      proof (cases u)
        case None
        then show ?thesis using run s True sc a Some u malloc_live [OF a] vs by (auto simp: parse_string_def guard_def)
      next
        case (Some v)
        obtain text1 p where v: "v = (text1, p)" by (cases v)
        have "length p \<le> length str" using unescape_shortens [of n str text1 p] u Some v by simp
        then show ?thesis using run s True sc a \<open>a = Some x\<close> u Some v malloc_live [OF a] vs
          by (auto simp: parse_string_def look_def guard_def split: list.splits)
      qed
    qed
  qed (use run s in \<open>simp add: parse_string_def look_def\<close>)
qed

lemma after_child_behaves:
  assumes "well_behaved again" "after_child close again item r w = Some (item', r', w')" "valuestring item = None"
    and "\<forall>t. r = Some t \<longrightarrow> length t \<le> n"
  shows "(\<forall>t. r' = Some t \<longrightarrow> length t \<le> n) \<and> live w' - item_blocks item' = live w - item_blocks item
    \<and> cjson_name item' = cjson_name item"
proof (cases r)
  case (Some s)
  obtain c t where t: "skip s = Some (c # t)" using assms(2) Some by (auto simp: after_child_def bind_eq_Some_conv)
  have less: "length t < n" using skip_shortens [OF t] assms(4) Some by auto
  show ?thesis
  proof (cases "c = CHR '',''")
    case True
    then have "again item t w = Some (item', r', w')" using assms(2) Some t by (simp add: after_child_def)
    then show ?thesis using well_behavedD [OF assms(1) _ assms(3)] less by fastforce
  qed (use assms(2) Some t less in \<open>auto simp: after_child_def split: if_splits\<close>)
qed (use assms(2,4) in \<open>auto simp: after_child_def\<close>)

lemma parse_value_with_behaves:
  assumes "well_behaved elements" "well_behaved members"
  shows "well_behaved (parse_value_with pow10 elements members)"
  unfolding well_behaved_def
proof (intro allI impI)
  fix item s w item' r w'
  assume run: "parse_value_with pow10 elements members item s w = Some (item', r, w')" and vs: "valuestring item = None"
  have opens: "(\<forall>t. r = Some t \<longrightarrow> length t \<le> length s) \<and> live w' - item_blocks item' = live w - item_blocks item
    \<and> cjson_name item' = cjson_name item"
    if o: "opened close t f item s w = Some (item', r, w')" "well_behaved f" for close t f
  proof -
    obtain q where q: "skip (tl s) = Some q" using o(1) by (auto simp: opened_def bind_eq_Some_conv)
    obtain d q1 where d: "q = d # q1" using o(1) q by (cases q) (auto simp: opened_def look_def)
    have less: "length q \<le> length s" using skip_shortens [OF q] by simp
    show ?thesis
    proof (cases "d = close")
      case True
      then show ?thesis using o(1) q d less by (auto simp: opened_def)
    next
      case False
      then have "f (with_type t item) q w = Some (item', r, w')" using o(1) q d by (simp add: opened_def)
      then show ?thesis using well_behavedD [OF o(2), of "with_type t item"] less vs by fastforce
    qed
  qed
  have number: "(\<forall>t. r = Some t \<longrightarrow> length t \<le> length s) \<and> live w' - item_blocks item' = live w - item_blocks item
    \<and> cjson_name item' = cjson_name item"
    if "do { (item1, q) \<leftarrow> parse_number pow10 item s; Some (item1, Some q, w) } = Some (item', r, w')"
    using that parse_number_runs [of pow10 item s] by (force simp: bind_eq_Some_conv)
  obtain is_null where m1: "matches ''null'' s = Some is_null" using run by (auto simp: parse_value_with_def bind_eq_Some_conv)
  show "(\<forall>t. r = Some t \<longrightarrow> length t \<le> length s) \<and> live w' - item_blocks item' = live w - item_blocks item
    \<and> cjson_name item' = cjson_name item"
  proof (cases is_null)
    case n1: False
    obtain is_false where m2: "matches ''false'' s = Some is_false"
      using run m1 n1 by (auto simp: parse_value_with_def bind_eq_Some_conv)
    show ?thesis
    proof (cases is_false)
      case n2: False
      obtain is_true where m3: "matches ''true'' s = Some is_true"
        using run m1 m2 n1 n2 by (auto simp: parse_value_with_def bind_eq_Some_conv)
      show ?thesis
      proof (cases is_true)
        case n3: False
        obtain c t where s: "s = c # t"
          using run m1 m2 m3 n1 n2 n3 by (auto simp: parse_value_with_def bind_eq_Some_conv)
        note rest = run [unfolded parse_value_with_def m1 m2 m3 bind.bind_lunit, simplified n1 n2 n3 if_False, unfolded s look_Cons bind.bind_lunit,
            folded s]
        consider "c = CHR 0x22" | "c \<noteq> CHR 0x22" "c = CHR ''-'' \<or> is_figure c"
          | "c \<noteq> CHR 0x22" "\<not> (c = CHR ''-'' \<or> is_figure c)" "c = CHR ''[''"
          | "c \<noteq> CHR 0x22" "\<not> (c = CHR ''-'' \<or> is_figure c)" "c \<noteq> CHR ''[''" "c = CHR 0x7B"
          | "c \<noteq> CHR 0x22" "\<not> (c = CHR ''-'' \<or> is_figure c)" "c \<noteq> CHR ''[''" "c \<noteq> CHR 0x7B"
          by blast
        then show ?thesis
        proof cases
          case 1
          then have "parse_string item s w = Some (item', r, w')" using rest by simp
          then show ?thesis using well_behavedD [OF parse_string_behaves _ vs] by blast
        next
          case 2
          then show ?thesis using rest by (intro number) (simp only: if_True if_False)
        next
          case 3
          then have "opened CHR '']'' cJSON_Array elements item s w = Some (item', r, w')" using rest by simp
          then show ?thesis by (rule opens [OF _ assms(1)])
        next
          case 4
          then have "opened CHR 0x7D cJSON_Object members item s w = Some (item', r, w')" using rest by simp
          then show ?thesis by (rule opens [OF _ assms(2)])
        next
          case 5
          then show ?thesis using rest by simp
        qed
      qed (use run m1 m2 m3 n1 n2 in \<open>auto simp: parse_value_with_def\<close>)
    qed (use run m1 m2 n1 in \<open>auto simp: parse_value_with_def\<close>)
  qed (use run m1 in \<open>auto simp: parse_value_with_def\<close>)
qed

lemma parse_element_with_behaves:
  assumes "well_behaved element" "well_behaved again"
  shows "well_behaved (parse_element_with element again)"
  unfolding well_behaved_def
proof (intro allI impI)
  fix item s w item' r w'
  assume run: "parse_element_with element again item s w = Some (item', r, w')" and vs: "valuestring item = None"
  obtain a w1 where a: "cJSON_New_Item w = (a, w1)" "live w1 = live w + (if a = None then 0 else 1)"
    by (cases "cJSON_New_Item w") (auto simp: cJSON_New_Item_def malloc_live)
  show "(\<forall>t. r = Some t \<longrightarrow> length t \<le> length s) \<and> live w' - item_blocks item' = live w - item_blocks item
    \<and> cjson_name item' = cjson_name item"
  proof (cases a)
    case (Some x)
    obtain s1 child q w2 where c: "skip s = Some s1" "element (new_item cJSON_False) s1 w1 = Some (child, q, w2)"
      "after_child CHR '']'' again (cJSON_AddItemToArray item (Some child)) q w2 = Some (item', r, w')"
      using run a Some by (auto simp: parse_element_with_def bind_eq_Some_conv)
    have q: "\<forall>t. q = Some t \<longrightarrow> length t \<le> length s"
      using well_behavedD(1) [OF assms(1) c(2)] skip_shortens [OF c(1)] by fastforce
    show ?thesis
      using after_child_behaves [OF assms(2) c(3) _ q] well_behavedD(2) [OF assms(1) c(2)] a(2) Some vs by simp
  qed (use run a in \<open>auto simp: parse_element_with_def\<close>)
qed

lemma parse_member_with_behaves:
  assumes "well_behaved element" "well_behaved again"
  shows "well_behaved (parse_member_with element again)"
  unfolding well_behaved_def
proof (intro allI impI)
  fix item s w item' r w'
  assume run: "parse_member_with element again item s w = Some (item', r, w')" and vs: "valuestring item = None"
  obtain a w1 where a: "cJSON_New_Item w = (a, w1)" "live w1 = live w + (if a = None then 0 else 1)"
    by (cases "cJSON_New_Item w") (auto simp: cJSON_New_Item_def malloc_live)
  show "(\<forall>t. r = Some t \<longrightarrow> length t \<le> length s) \<and> live w' - item_blocks item' = live w - item_blocks item
    \<and> cjson_name item' = cjson_name item"
  proof (cases a)
    case (Some x)
    obtain s1 child q w2 where c: "skip s = Some s1" "parse_string (new_item cJSON_False) s1 w1 = Some (child, q, w2)"
      using run a Some by (auto simp: parse_member_with_def bind_eq_Some_conv)
    have child: "cjson_name child = None" "live w2 - item_blocks child = live w1 - 1"
      using well_behavedD(2,3) [OF parse_string_behaves c(2)] by simp_all
    show ?thesis
    proof (cases q)
      case None
      then show ?thesis using run a Some c child by (auto simp: parse_member_with_def)
    next
      case (Some s2)
      obtain d s3 where d: "skip s2 = Some (d # s3)"
        using run a \<open>a = Some x\<close> c Some by (auto simp: parse_member_with_def bind_eq_Some_conv)
      show ?thesis
      proof (cases "d = CHR '':''")
        case False
        then show ?thesis using run a \<open>a = Some x\<close> c child Some d by (auto simp: parse_member_with_def)
      next
        case True
        obtain s4 child1 q1 w3 where e: "skip s3 = Some s4" "element (string_to_name child) s4 w2 = Some (child1, q1, w3)"
          "after_child CHR 0x7D again (cJSON_AddItemToArray item (Some child1)) q1 w3 = Some (item', r, w')"
          using run a \<open>a = Some x\<close> c Some d True by (auto simp: parse_member_with_def bind_eq_Some_conv)
        have "length s4 \<le> length s"
          using skip_shortens [OF c(1)] skip_shortens [OF d] skip_shortens [OF e(1)]
            well_behavedD(1) [OF parse_string_behaves c(2)] Some by fastforce
        then have short: "\<forall>t. q1 = Some t \<longrightarrow> length t \<le> length s"
          using well_behavedD(1) [OF assms(1) e(2)] by fastforce
        have "live w3 - item_blocks child1 = live w2 - item_blocks child"
          using well_behavedD(2) [OF assms(1) e(2)] child by simp
        then show ?thesis
          using after_child_behaves [OF assms(2) e(3) _ short] a(2) \<open>a = Some x\<close> child vs by simp
      qed
    qed
  qed (use run a in \<open>auto simp: parse_member_with_def\<close>)
qed

lemma parsers_behave:
  "well_behaved (parse_value pow10 n)" "well_behaved (parse_elements pow10 n)" "well_behaved (parse_members pow10 n)"
proof -
  have "well_behaved (parse_value pow10 n) \<and> well_behaved (parse_elements pow10 n) \<and> well_behaved (parse_members pow10 n)"
  proof (induction n)
    case 0
    then show ?case by (simp add: well_behaved_def)
  next
    case (Suc n)
    then show ?case
      by (simp add: parse_value_with_behaves parse_element_with_behaves parse_member_with_behaves)
  qed
  then show "well_behaved (parse_value pow10 n)" "well_behaved (parse_elements pow10 n)" "well_behaved (parse_members pow10 n)"
    by simp_all
qed

section \<open>The memory of a parse\<close>

lemma cJSON_Parse_blocks:
  assumes "cJSON_Parse pow10 s w = Some (c, w')"
  shows "live w' = live w + (case c of None \<Rightarrow> 0 | Some x \<Rightarrow> item_blocks x)"
proof -
  obtain a w1 where a: "cJSON_New_Item w = (a, w1)" "live w1 = live w + (if a = None then 0 else 1)"
    by (cases "cJSON_New_Item w") (auto simp: cJSON_New_Item_def malloc_live)
  show ?thesis
  proof (cases a)
    case (Some x)
    obtain t d r w2 where d: "parse_value pow10 (parse_bound s) (new_item cJSON_False) t w1 = Some (d, r, w2)"
      "(c, w') = (if r = None then (None, cJSON_Delete d w2) else (Some d, w2))"
      using assms a Some by (auto simp: cJSON_Parse_def bind_eq_Some_conv)
    show ?thesis
      using well_behavedD(2) [OF parsers_behave(1) d(1)] d(2) a(2) Some by (auto split: if_splits)
  qed (use assms a in \<open>auto simp: cJSON_Parse_def\<close>)
qed

text \<open>C25: Parsing a text is balanced: a text that is refused leaves no block behind, wherever the parser or the
  allocator has failed, and an accepted one leaves the blocks of the tree it gives.\<close>

theorem cJSON_Parse_balanced:
  assumes "cJSON_Parse pow10 s w = Some (c, w')"
  shows "live w' = live w + (case c of None \<Rightarrow> 0 | Some x \<Rightarrow> item_blocks x)"
  using assms by (rule cJSON_Parse_blocks)

section \<open>The bound of the recursion\<close>

definition same_below :: "nat \<Rightarrow> parser \<Rightarrow> parser \<Rightarrow> bool" where
  "same_below k f g \<longleftrightarrow> (\<forall>item s w. valuestring item = None \<longrightarrow> length s \<le> k \<longrightarrow> f item s w = g item s w)"

lemma same_belowD: "same_below k f g \<Longrightarrow> valuestring item = None \<Longrightarrow> length s \<le> k \<Longrightarrow> f item s w = g item s w"
  by (simp add: same_below_def)

lemma same_opened:
  assumes "same_below k f g" "valuestring item = None" "length s \<le> Suc k"
  shows "opened close t f item s w = opened close t g item s w"
proof (cases "skip (tl s)")
  case (Some q)
  have "length q \<le> k" using skip_shortens [OF Some] assms(3) by simp
  then have "f (with_type t item) q w = g (with_type t item) q w" using assms(1,2) by (intro same_belowD) simp_all
  then show ?thesis using Some by (simp add: opened_def cong: if_cong)
qed (simp add: opened_def)

lemma same_value:
  assumes "same_below k elements elements'" "same_below k members members'"
  shows "same_below (Suc k) (parse_value_with pow10 elements members) (parse_value_with pow10 elements' members')"
  unfolding same_below_def
proof (intro allI impI)
  fix item :: cjson and s :: "char list" and w :: world
  assume "valuestring item = None" "length s \<le> Suc k"
  note same = same_opened [OF assms(1) this] same_opened [OF assms(2) this]
  show "parse_value_with pow10 elements members item s w = parse_value_with pow10 elements' members' item s w"
    unfolding parse_value_with_def same ..
qed

lemma same_after:
  assumes "same_below k again again'" "valuestring item = None" "\<And>s. r = Some s \<Longrightarrow> length s \<le> Suc k"
  shows "after_child close again item r w = after_child close again' item r w"
proof (cases r)
  case (Some s)
  show ?thesis
  proof (cases "skip s")
    case t: (Some t)
    have "length (tl t) \<le> k" using skip_shortens [OF t] assms(3) [OF Some] by simp
    then have "again item (tl t) w = again' item (tl t) w" using assms(1,2) by (intro same_belowD)
    then show ?thesis using Some t by (simp add: after_child_def cong: if_cong)
  qed (simp add: after_child_def Some)
qed (simp add: after_child_def)

lemma same_element:
  assumes "same_below (Suc k) element element'" "well_behaved element" "same_below k again again'"
  shows "same_below (Suc k) (parse_element_with element again) (parse_element_with element' again')"
  unfolding same_below_def
proof (intro allI impI)
  fix item :: cjson and s :: "char list" and w :: world
  assume item: "valuestring item = None" "length s \<le> Suc k"
  obtain a w1 where a: "cJSON_New_Item w = (a, w1)" by fastforce
  show "parse_element_with element again item s w = parse_element_with element' again' item s w"
  proof (cases "skip s")
    case (Some s1)
    have less: "length s1 \<le> Suc k" using skip_shortens [OF Some] item by simp
    have eq: "element' (new_item cJSON_False) s1 w1 = element (new_item cJSON_False) s1 w1"
      using same_belowD [OF assms(1) _ less] by simp
    show ?thesis
    proof (cases "element (new_item cJSON_False) s1 w1")
      case (Some y)
      obtain child r w2 where y: "y = (child, r, w2)" by (cases y)
      have "length t \<le> Suc k" if "r = Some t" for t
        using well_behavedD(1) [OF assms(2) Some [unfolded y] _ that] less by simp
      then show ?thesis
        using same_after [OF assms(3), of "cJSON_AddItemToArray item (Some child)" r "CHR '']''" w2] item a \<open>skip s = Some s1\<close> eq Some y
        by (simp add: parse_element_with_def split: option.split)
    qed (simp add: parse_element_with_def a \<open>skip s = Some s1\<close> eq split: option.split)
  qed (simp add: parse_element_with_def a split: option.split)
qed

lemma same_member:
  assumes "same_below (Suc k) element element'" "well_behaved element" "same_below k again again'"
  shows "same_below (Suc k) (parse_member_with element again) (parse_member_with element' again')"
  unfolding same_below_def
proof (intro allI impI)
  fix item :: cjson and s :: "char list" and w :: world
  assume item: "valuestring item = None" "length s \<le> Suc k"
  obtain a w1 where a: "cJSON_New_Item w = (a, w1)" by fastforce
  have tail: "after_child CHR 0x7D again (cJSON_AddItemToArray item (Some child)) r w3
      = after_child CHR 0x7D again' (cJSON_AddItemToArray item (Some child)) r w3"
    if "element (string_to_name c) t w2 = Some (child, r, w3)" "length t \<le> Suc k" for c and t :: "char list" and w2 child r w3
  proof (rule same_after [OF assms(3)])
    note run = that
    show "valuestring (cJSON_AddItemToArray item (Some child)) = None" using item by simp
    show "length q \<le> Suc k" if r: "r = Some q" for q
      using well_behavedD(1) [OF assms(2) run(1) _ r] run(2) by simp
  qed
  have "(\<lambda>c. do { s4 \<leftarrow> skip (tl s3); (child1, r1, w3) \<leftarrow> element (string_to_name c) s4 w2;
        after_child CHR 0x7D again (cJSON_AddItemToArray item (Some child1)) r1 w3 })
      = (\<lambda>c. do { s4 \<leftarrow> skip (tl s3); (child1, r1, w3) \<leftarrow> element' (string_to_name c) s4 w2;
        after_child CHR 0x7D again' (cJSON_AddItemToArray item (Some child1)) r1 w3 })"
    if "length s3 \<le> Suc k" for s3 w2
  proof (rule ext)
    fix c
    show "do { s4 \<leftarrow> skip (tl s3); (child1, r1, w3) \<leftarrow> element (string_to_name c) s4 w2;
        after_child CHR 0x7D again (cJSON_AddItemToArray item (Some child1)) r1 w3 }
      = do { s4 \<leftarrow> skip (tl s3); (child1, r1, w3) \<leftarrow> element' (string_to_name c) s4 w2;
        after_child CHR 0x7D again' (cJSON_AddItemToArray item (Some child1)) r1 w3 }"
    proof (cases "skip (tl s3)")
      case (Some s4)
      have less: "length s4 \<le> Suc k" using skip_shortens [OF Some] that by simp
      have eq: "element' (string_to_name c) s4 w2 = element (string_to_name c) s4 w2"
        using same_belowD [OF assms(1) _ less] by simp
      show ?thesis
        using tail [OF _ less, of c w2] by (cases "element (string_to_name c) s4 w2") (auto simp: Some eq)
    qed simp
  qed
  note rest = this
  show "parse_member_with element again item s w = parse_member_with element' again' item s w"
  proof (cases "skip s")
    case (Some s1)
    show ?thesis
    proof (cases "parse_string (new_item cJSON_False) s1 w1")
      case y: (Some y)
      obtain child r w2 where yy: "y = (child, r, w2)" by (cases y)
      show ?thesis
      proof (cases r)
        case s2: (Some s2)
        show ?thesis
        proof (cases "skip s2")
          case s3: (Some s3)
          have "length s3 \<le> Suc k"
            using well_behavedD(1) [OF parse_string_behaves y [unfolded yy] _ s2] skip_shortens [OF Some] skip_shortens [OF s3] item
            by simp
          from rest [OF this, of w2] have "do { s4 \<leftarrow> skip (tl s3); (child1, r1, w3) \<leftarrow> element (string_to_name child) s4 w2;
              after_child CHR 0x7D again (cJSON_AddItemToArray item (Some child1)) r1 w3 }
            = do { s4 \<leftarrow> skip (tl s3); (child1, r1, w3) \<leftarrow> element' (string_to_name child) s4 w2;
              after_child CHR 0x7D again' (cJSON_AddItemToArray item (Some child1)) r1 w3 }" by (rule fun_cong)
          then show ?thesis using a Some y yy s2 s3 by (simp add: parse_member_with_def split: option.split cong: if_cong)
        qed (simp add: parse_member_with_def a Some y yy s2 split: option.split)
      qed (simp add: parse_member_with_def a Some y yy split: option.split)
    qed (simp add: parse_member_with_def a Some split: option.split)
  qed (simp add: parse_member_with_def a split: option.split)
qed

lemma parsers_of_nothing:
  "parse_value pow10 n item [] w = None"
  "n > 0 \<Longrightarrow> parse_elements pow10 n item [] w = (case cJSON_New_Item w of (None, w1) \<Rightarrow> Some (item, None, w1) | _ \<Rightarrow> None)"
  "n > 0 \<Longrightarrow> parse_members pow10 n item [] w = (case cJSON_New_Item w of (None, w1) \<Rightarrow> Some (item, None, w1) | _ \<Rightarrow> None)"
  by (cases n; auto simp: parse_value_with_def parse_element_with_def parse_member_with_def split: option.split prod.split)+

lemma bound_suffices:
  "2 * k + 1 \<le> m \<Longrightarrow> 2 * k + 1 \<le> n \<Longrightarrow> same_below k (parse_value pow10 m) (parse_value pow10 n)"
  "2 * k + 2 \<le> m \<Longrightarrow> 2 * k + 2 \<le> n \<Longrightarrow> same_below k (parse_elements pow10 m) (parse_elements pow10 n)"
  "2 * k + 2 \<le> m \<Longrightarrow> 2 * k + 2 \<le> n \<Longrightarrow> same_below k (parse_members pow10 m) (parse_members pow10 n)"
proof (induction k arbitrary: m n)
  case 0
  {
    case 1
    show ?case by (simp add: same_below_def parsers_of_nothing)
  next
    case 2
    then show ?case by (simp add: same_below_def parsers_of_nothing)
  next
    case 3
    then show ?case by (simp add: same_below_def parsers_of_nothing)
  }
next
  case (Suc k)
  have vals: "same_below (Suc k) (parse_value pow10 m) (parse_value pow10 n)" if mn: "2 * Suc k + 1 \<le> m" "2 * Suc k + 1 \<le> n" for m n
  proof -
    obtain m' n' where "m = Suc m'" "n = Suc n'" using mn by (cases m; cases n) auto
    then show ?thesis using same_value [OF Suc.IH(2) Suc.IH(3)] mn by simp
  qed
  {
    case 1
    then show ?case by (rule vals)
  next
    case 2
    then obtain m' n' where "m = Suc m'" "n = Suc n'" by (cases m; cases n) auto
    then show ?case using same_element [OF vals parsers_behave(1) Suc.IH(2)] 2 by simp
  next
    case 3
    then obtain m' n' where "m = Suc m'" "n = Suc n'" by (cases m; cases n) auto
    then show ?case using same_member [OF vals parsers_behave(1) Suc.IH(3)] 3 by simp
  }
qed

text \<open>C26: The bound of the parser's recursion is large enough: with any greater one, it does the same with the text
  and gives the same, so a text without a result is one whose reading is undefined, not one the bound has cut off.\<close>

theorem cJSON_Parse_bound:
  assumes "parse_bound s \<le> n"
  shows "cJSON_Parse pow10 s w = (case cJSON_New_Item w of
      (None, w1) \<Rightarrow> Some (None, w1)
    | (Some a, w1) \<Rightarrow> do {
        t \<leftarrow> skip s;
        (c, r, w2) \<leftarrow> parse_value pow10 n (new_item cJSON_False) t w1;
        Some (if r = None then (None, cJSON_Delete c w2) else (Some c, w2))
      })"
proof -
  have "parse_value pow10 (parse_bound s) (new_item cJSON_False) t w1 = parse_value pow10 n (new_item cJSON_False) t w1"
    if "skip s = Some t" for t w1
    using bound_suffices(1) [of "length s" "parse_bound s" n pow10] assms skip_shortens [OF that]
    by (intro same_belowD [of "length s"]) (simp_all add: parse_bound_def)
  then show ?thesis by (cases "skip s") (auto simp: cJSON_Parse_def split: option.split prod.split)
qed

section \<open>Numbers are read back\<close>

lemma round_even_of_int [simp]: "round_even (of_int k) = k"
  by (simp add: round_even_def Let_def)

lemma quotient_of_of_nat: "quotient_of (of_nat n) = (int n, 1)"
  using quotient_of_int [of "int n"] by simp

lemma bit_length_small [simp]: "bit_length 0 = 0" "bit_length (Suc 0) = 1"
  by (simp_all add: bit_length.simps)

lemma bit_length_le: "n < 2 ^ k \<Longrightarrow> bit_length n \<le> k"
proof (rule ccontr)
  assume n: "n < 2 ^ k" and "\<not> bit_length n \<le> k"
  then have "k \<le> bit_length n - 1" "0 < n" by (auto intro!: gr0I)
  then have "2 ^ k \<le> (2 :: nat) ^ (bit_length n - 1)" "2 ^ (bit_length n - 1) \<le> n"
    using bit_length_bounds [of n] power_increasing [of k "bit_length n - 1" "2 :: nat"] by simp_all
  then show False using n by linarith
qed

lemma fl_of_nat: "n < 2 ^ 53 \<Longrightarrow> fl (of_nat n) = of_nat n"
proof (cases "n = 0")
  case False
  assume n: "n < 2 ^ 53"
  have e: "exponent_of (of_nat n) \<le> 0"
    using bit_length_le [OF n] by (simp add: exponent_of_def quotient_of_of_nat Let_def)
  define k where "k = nat (- exponent_of (of_nat n))"
  have k: "exponent_of (of_nat n) = - int k" using e by (simp add: k_def)
  have "of_nat n / 2 powi (- int k) = (of_int (int n * 2 ^ k) :: rat)"
    by (simp add: power_int_minus field_simps)
  then show ?thesis using False by (simp add: fl_def k power_int_minus field_simps del: of_int_mult)
qed (simp add: fl_def)

lemma is_figure_digit [simp]: "d < 10 \<Longrightarrow> is_figure (char_of (48 + d))" "d < 10 \<Longrightarrow> figure_value (char_of (48 + d)) = int d"
  by (simp_all add: is_figure_def figure_value_def)

lemma nat_digits_figures: "list_all is_figure (nat_digits n)"
  by (induction n rule: nat_digits.induct) (subst nat_digits.simps, simp)

lemma nat_digits_not_empty [simp]: "nat_digits n \<noteq> []"
  by (subst nat_digits.simps) simp

lemma nat_digits_leading: "0 < n \<Longrightarrow> hd (nat_digits n) \<noteq> CHR ''0''"
proof (induction n rule: nat_digits.induct)
  case (1 n)
  show ?case
  proof (cases "n < 10")
    case True
    then have "(of_char (char_of (48 + n) :: char) :: nat) \<noteq> of_char CHR ''0''" using "1.prems" by simp
    then show ?thesis using True by (metis list.sel(1) nat_digits.simps)
  next
    case False
    then show ?thesis using "1.IH" by (subst nat_digits.simps) simp
  qed
qed

lemma sum_figures_nat_digits: "n < 2 ^ 53 \<Longrightarrow> sum_figures (nat_digits n) = of_nat n"
proof (induction n rule: nat_digits.induct)
  case (1 n)
  show ?case
  proof (cases "n < 10")
    case True
    then show ?thesis using fl_of_nat [of n] by (subst nat_digits.simps) (simp add: sum_figures_def fl_def [of 0])
  next
    case False
    have less: "10 * (n div 10) < 2 ^ 53" using "1.prems" by linarith
    have "fl (of_nat (n div 10) * 10) = of_nat (10 * (n div 10))"
      using fl_of_nat [OF less] by (simp add: mult.commute)
    moreover have "fl (of_nat (10 * (n div 10)) + of_nat (n mod 10)) = of_nat n"
      using fl_of_nat [OF "1.prems"] by (metis mult_div_mod_eq of_nat_add)
    ultimately show ?thesis using False "1.IH" less
      by (subst nat_digits.simps) (simp add: sum_figures_def)
  qed
qed

lemma take_figures_all: "list_all is_figure ds \<Longrightarrow> \<not> is_figure x \<Longrightarrow> take_figures (ds @ x # r) = Some (ds, x # r)"
  by (induction ds) auto

definition ends_value :: "char \<Rightarrow> bool" where
  "ends_value x \<longleftrightarrow> x = CHR '','' \<or> x = CHR '']'' \<or> x = CHR 0x7D \<or> x = NUL"

lemma ends_value_cases: "ends_value x \<Longrightarrow> \<not> is_figure x \<and> x \<noteq> CHR ''.'' \<and> x \<noteq> CHR ''e'' \<and> x \<noteq> CHR ''E''"
  by (auto simp: ends_value_def is_figure_def)

lemma parse_figures:
  assumes "pow10 0 = 1" "n < 2 ^ 31" "0 < n" "ends_value x"
  shows "parse_number pow10 item (nat_digits n @ x # r) = Some (with_number (int n) (of_nat n) item, x # r)"
    and "parse_number pow10 item (''-'' @ nat_digits n @ x # r) = Some (with_number (- int n) (- of_nat n) item, x # r)"
proof -
  obtain d ds where d: "nat_digits n = d # ds" by (cases "nat_digits n") auto
  have f: "is_figure d" "d \<noteq> CHR ''0''" "d \<noteq> CHR ''-''"
    using nat_digits_figures [of n] nat_digits_leading [OF assms(3)] by (auto simp: d is_figure_def)
  note x = ends_value_cases [OF assms(4)]
  have take: "take_figures (ds @ x # r) = Some (ds, x # r)"
    using take_figures_all [of ds x r] nat_digits_figures [of n] x by (simp add: d)
  have tail: "parse_fraction (x # r) = Some ([], x # r)" "parse_exponent (x # r) = Some (0, x # r)"
    using x by (simp_all add: parse_fraction_def parse_exponent_def)
  have big: "n < 2 ^ 53" using assms(2) by simp
  have sum: "sum_figures (d # ds) = of_nat n" "fl (of_nat n) = of_nat n"
    using sum_figures_nat_digits [OF big] fl_of_nat [OF big] by (simp_all add: d)
  have skips: "skip_if CHR ''-'' (d # ds @ x # r) = Some (False, d # ds @ x # r)"
    "skip_if CHR ''-'' (CHR ''-'' # d # ds @ x # r) = Some (True, d # ds @ x # r)"
    "skip_if CHR ''0'' (d # ds @ x # r) = Some (False, d # ds @ x # r)"
    using f by (simp_all add: skip_if_def)
  have ints: "int_of_double (of_nat n) = Some (int n)" "int_of_double (- of_nat n) = Some (- int n)"
    using assms(2) by (simp_all add: int_of_double_def Let_def ceiling_minus)
  show "parse_number pow10 item (nat_digits n @ x # r) = Some (with_number (int n) (of_nat n) item, x # r)"
    by (simp add: parse_number_def d skips f take tail sum assms(1) ints)
  show "parse_number pow10 item (''-'' @ nat_digits n @ x # r) = Some (with_number (- int n) (- of_nat n) item, x # r)"
    by (simp add: parse_number_def d skips f take tail sum assms(1) ints)
qed

lemma parse_zero:
  assumes "pow10 0 = 1" "ends_value x"
  shows "parse_number pow10 item (''0'' @ x # r) = Some (with_number 0 0 item, x # r)"
proof -
  note x = ends_value_cases [OF assms(2)]
  have "skip_if CHR ''-'' (CHR ''0'' # x # r) = Some (False, CHR ''0'' # x # r)"
    "skip_if CHR ''0'' (CHR ''0'' # x # r) = Some (True, x # r)" by (simp_all add: skip_if_def)
  moreover have "parse_fraction (x # r) = Some ([], x # r)" "parse_exponent (x # r) = Some (0, x # r)"
    using x by (simp_all add: parse_fraction_def parse_exponent_def)
  moreover have "sum_figures [] = 0" "fl 0 = 0" "int_of_double 0 = Some 0"
    by (simp_all add: sum_figures_def fl_def int_of_double_def)
  ultimately show ?thesis using x by (simp add: parse_number_def assms(1))
qed

lemma parse_number_text:
  assumes "pow10 0 = 1" "- (2 ^ 31) < k" "k < 2 ^ 31" "ends_value x"
  shows "parse_number pow10 item (number_text other k (of_int k) @ x # r) = Some (with_number k (of_int k) item, x # r)"
proof (cases "k = 0")
  case True
  then show ?thesis using parse_zero [of pow10 x item r] assms(1,4) by (simp add: number_text_def)
next
  case False
  have "(of_int k :: rat) \<le> of_int (2 ^ 31 - 1)" "of_int (- (2 ^ 31)) \<le> (of_int k :: rat)"
    using assms(2,3) by (simp_all only: of_int_le_iff)
  then have t: "number_text other k (of_int k) = decimal k" using False by (simp add: number_text_def)
  show ?thesis
  proof (cases "k < 0")
    case True
    then obtain n where n: "k = - int n" "0 < n" by (metis zero_less_imp_eq_int neg_0_less_iff_less minus_equation_iff)
    then have "n < 2 ^ 31" using assms(2) by simp
    then show ?thesis using parse_figures(2) [of pow10 n x item r] assms(1,4) n(2) unfolding t unfolding n(1) by (simp add: decimal_def)
  next
    case pos: False
    then obtain n where n: "k = int n" "0 < n" using False by (metis not_less nat_0_iff zero_less_imp_eq_int linorder_neqE_linordered_idom)
    then have "n < 2 ^ 31" using assms(3) by simp
    then show ?thesis using parse_figures(1) [of pow10 n x item r] assms(1,4) n(2) unfolding t unfolding n(1) by (simp add: decimal_def)
  qed
qed

section \<open>Texts are read back\<close>

definition escaped_text :: "string \<Rightarrow> string" where
  "escaped_text s = concat (map escape_char s)"

lemma escaped_text_simps [simp]: "escaped_text [] = []" "escaped_text (c # s) = escape_char c @ escaped_text s"
  by (simp_all add: escaped_text_def)

text \<open>The ways a character is written.\<close>

lemma escape_char_cases:
  obtains (short) e where "escape_char c = [CHR 0x5C, e]" "e \<noteq> CHR ''u''" "unescaped e = c"
  | (digits) "escape_char c = [CHR 0x5C, CHR ''u''] @ hex4 (of_char c)" "(of_char c :: nat) < 32"
  | (plain) "escape_char c = [c]" "c \<noteq> CHR 0x22" "c \<noteq> CHR 0x5C" "(32 :: nat) \<le> of_char c"
proof -
  have n: "c = char_of k" if "of_char c = k" for k :: nat using that by (metis char_of_char)
  show thesis
  proof (cases "c = CHR 0x22 \<or> c = CHR 0x5C")
    case True
    then show thesis by (intro short [of c]) (auto simp: escape_char_def unescaped_def Let_def)
  next
    case False
    consider "(of_char c :: nat) \<in> {8, 9, 10, 12, 13}" | "(of_char c :: nat) \<notin> {8, 9, 10, 12, 13}" "(of_char c :: nat) < 32"
      | "(32 :: nat) \<le> of_char c" by linarith
    then show thesis
    proof cases
      case 1
      then have "c = char_of (8 :: nat) \<or> c = char_of (9 :: nat) \<or> c = char_of (10 :: nat)
          \<or> c = char_of (12 :: nat) \<or> c = char_of (13 :: nat)" using n by blast
      then have "\<exists>e. escape_char c = [CHR 0x5C, e] \<and> e \<noteq> CHR ''u'' \<and> unescaped e = c"
        by (elim disjE) (simp_all add: escape_char_def unescaped_def Let_def)
      then show thesis using short by blast
    next
      case 2
      then show thesis using False by (intro digits) (auto simp: escape_char_def Let_def)
    next
      case 3
      then show thesis using False by (intro plain) (auto simp: escape_char_def Let_def)
    qed
  qed
qed

lemma hex_value_digit: "d < 16 \<Longrightarrow> hex_value (''0123456789abcdef'' ! d) = Some d"
proof -
  assume d: "d < 16"
  have "\<forall>d \<in> set [0..<16]. hex_value (''0123456789abcdef'' ! d) = Some d" by code_simp
  then show ?thesis using d by simp
qed

lemma parse_hex4_digits:
  "hex_value a = Some i \<Longrightarrow> hex_value b = Some j \<Longrightarrow> hex_value c = Some k \<Longrightarrow> hex_value d = Some l
    \<Longrightarrow> parse_hex4 (a # b # c # d # t) = Some (((i * 16 + j) * 16 + k) * 16 + l)"
  by (simp add: parse_hex4_def numeral_eq_Suc)

lemma parse_hex4_hex4: "n < 32 \<Longrightarrow> parse_hex4 (hex4 n @ t) = Some n"
proof -
  assume n: "n < 32"
  have h: "hex4 n = [''0123456789abcdef'' ! 0, ''0123456789abcdef'' ! 0, ''0123456789abcdef'' ! (n div 16), ''0123456789abcdef'' ! (n mod 16)]"
    using n by (simp add: hex4_def)
  have "n div 16 < 16" using n by simp
  then have "parse_hex4 (hex4 n @ t) = Some (((0 * 16 + 0) * 16 + n div 16) * 16 + n mod 16)"
    unfolding h append.simps by (intro parse_hex4_digits hex_value_digit) simp_all
  then show ?thesis by simp
qed

lemma length_hex4 [simp]: "length (hex4 n) = 4"
  by (simp add: hex4_def)

lemma hex4_plain: "set (hex4 n) \<subseteq> set ''0123456789abcdef''"
  unfolding hex4_def set_map by (intro image_subsetI nth_mem) simp

lemma scan_escape_char:
  "\<exists>k \<le> length (escape_char c). scan_string (escape_char c @ t)
    = map_option (\<lambda>(len, n). (len + k, n + length (escape_char c))) (scan_string t)"
proof (cases rule: escape_char_cases [of c])
  case (short e)
  then show ?thesis by (intro exI [of _ 1]) (cases "scan_string t"; auto)
next
  case digits
  have plain: "scan_string (ds @ t) = map_option (\<lambda>(len, n). (len + length ds, n + length ds)) (scan_string t)"
    if "set ds \<subseteq> set ''0123456789abcdef''" for ds
    using that by (induction ds) (cases "scan_string t"; auto simp: case_prod_beta)+
  show ?thesis using plain [OF hex4_plain] digits(1)
    by (intro exI [of _ 5]) (cases "scan_string t"; auto simp: case_prod_beta)
next
  case plain
  then have "c \<noteq> NUL" by auto
  then show ?thesis using plain by (intro exI [of _ 1]) (cases "scan_string t"; auto)
qed

lemma scan_escaped_text:
  "\<exists>len \<le> length (escaped_text s). scan_string (escaped_text s @ CHR 0x22 # t) = Some (len, length (escaped_text s))"
proof (induction s)
  case (Cons c s)
  obtain len where "len \<le> length (escaped_text s)"
    "scan_string (escaped_text s @ CHR 0x22 # t) = Some (len, length (escaped_text s))" using Cons.IH by blast
  moreover obtain k where "k \<le> length (escape_char c)" "scan_string (escape_char c @ escaped_text s @ CHR 0x22 # t)
      = map_option (\<lambda>(len, n). (len + k, n + length (escape_char c))) (scan_string (escaped_text s @ CHR 0x22 # t))"
    using scan_escape_char by blast
  ultimately show ?case by (intro exI [of _ "len + k"]) simp
qed simp

lemma unescape_char:
  assumes "c \<noteq> NUL"
  shows "unescape (length (escape_char c) + m) (escape_char c @ t)
    = do { r \<leftarrow> unescape m t; Some (map_option (map_prod ((#) c) id) r) }"
proof (cases rule: escape_char_cases [of c])
  case (short e)
  then show ?thesis by (subst unescape.simps) simp
next
  case digits
  have "of_char c \<noteq> (0 :: nat)"
  proof
    assume "of_char c = (0 :: nat)"
    then have "c = char_of (0 :: nat)" by (metis char_of_char)
    then show False using assms by (simp add: char_of_def)
  qed
  then have "parse_unicode (5 + m) (hex4 (of_char c) @ t) = Some (Some ([c], 4))"
    using digits(2) parse_hex4_hex4 [OF digits(2)] by (simp add: parse_unicode_def utf8_def)
  then show ?thesis using digits(1) by (subst unescape.simps) (simp add: map_prod_def)
next
  case plain
  then show ?thesis by (subst unescape.simps) simp
qed

lemma unescape_escaped_text: "is_text s \<Longrightarrow> unescape (length (escaped_text s)) (escaped_text s @ t) = Some (Some (s, t))"
proof (induction s)
  case Nil
  then show ?case by (subst unescape.simps) simp
next
  case (Cons c s)
  then show ?case using unescape_char [of c "length (escaped_text s)" "escaped_text s @ t"] by simp
qed

lemma takeWhile_text [simp]: "is_text s \<Longrightarrow> takeWhile (\<lambda>x. x \<noteq> NUL) s = s"
  by (auto simp: is_text_def takeWhile_eq_all_conv)

lemma parse_string_quoted:
  assumes "is_text s" "length (quoted s) < 2 ^ 31" "upcoming w = []"
  shows "\<exists>w1. parse_string item (quoted s @ t) w = Some (with_string s item, Some t, w1) \<and> upcoming w1 = []"
proof -
  obtain len where len: "len \<le> length (escaped_text s)"
    "scan_string (escaped_text s @ CHR 0x22 # t) = Some (len, length (escaped_text s))" using scan_escaped_text by blast
  have q: "quoted s @ t = CHR 0x22 # escaped_text s @ CHR 0x22 # t" by (simp add: quoted_def escaped_text_def)
  have "len + 1 < 2 ^ 31" using assms(2) len(1) by (simp add: quoted_def escaped_text_def)
  then show ?thesis
    using len(2) unescape_escaped_text [OF assms(1)] assms(1,3)
    by (simp add: parse_string_def q malloc_calm guard_def)
qed

section \<open>Trees are read back\<close>

text \<open>The trees the parser gives for what the printer prints: the fields a value has no use for are those of a new item.\<close>

fun canonical :: "cjson \<Rightarrow> bool" where
  "canonical (Cjson t vs vi vd nm cs) \<longleftrightarrow> (case t of
      cJSON_Number \<Rightarrow> vs = None \<and> cs = [] \<and> vd = of_int vi \<and> - (2 ^ 31) < vi \<and> vi < 2 ^ 31
    | cJSON_String \<Rightarrow> (case vs of None \<Rightarrow> False | Some s \<Rightarrow> is_text s) \<and> vi = 0 \<and> vd = 0 \<and> cs = []
    | cJSON_Array \<Rightarrow> vs = None \<and> vi = 0 \<and> vd = 0 \<and> list_all (\<lambda>c. cjson_name c = None \<and> canonical c) cs
    | cJSON_Object \<Rightarrow> vs = None \<and> vi = 0 \<and> vd = 0
        \<and> list_all (\<lambda>c. (case cjson_name c of None \<Rightarrow> False | Some n \<Rightarrow> is_text n) \<and> canonical c) cs
    | cJSON_True \<Rightarrow> vs = None \<and> vi = 1 \<and> vd = 0 \<and> cs = []
    | _ \<Rightarrow> vs = None \<and> vi = 0 \<and> vd = 0 \<and> cs = [])"

definition named_text :: "(rat \<Rightarrow> string) \<Rightarrow> cjson \<Rightarrow> string" where
  "named_text other c = quoted (case cjson_name c of None \<Rightarrow> [] | Some s \<Rightarrow> s) @ '':'' @ text_of other c"

definition visible :: "string \<Rightarrow> bool" where
  "visible s \<longleftrightarrow> (case s of [] \<Rightarrow> False | d # t \<Rightarrow> (32 :: nat) < of_char d \<and> d \<noteq> CHR '']'' \<and> d \<noteq> CHR 0x7D)"

lemma skip_visible: "visible s \<Longrightarrow> skip (s @ t) = Some (s @ t)"
  by (cases s) (auto simp: visible_def)

lemma visible_quoted [simp]: "visible (quoted s)" "visible (quoted s @ t)"
  by (simp_all add: visible_def quoted_def)

lemma visible_nat_digits: "visible (nat_digits n)"
proof -
  obtain d ds where "nat_digits n = d # ds" by (cases "nat_digits n") auto
  then show ?thesis using nat_digits_figures [of n] by (auto simp: visible_def is_figure_def)
qed

lemma number_text_starts:
  assumes "- (2 ^ 31) < k" "k < 2 ^ 31"
  shows "visible (number_text other k (of_int k))"
    and "\<exists>d t. number_text other k (of_int k) = d # t \<and> (d = CHR ''-'' \<or> is_figure d)"
proof -
  have "(of_int k :: rat) \<le> of_int (2 ^ 31 - 1)" "of_int (- (2 ^ 31)) \<le> (of_int k :: rat)"
    using assms by (simp_all only: of_int_le_iff)
  moreover have "decimal 0 = ''0''" by code_simp
  ultimately have t: "number_text other k (of_int k) = decimal k" by (auto simp: number_text_def)
  show "visible (number_text other k (of_int k))"
    unfolding t using visible_nat_digits by (auto simp: decimal_def visible_def)
  show "\<exists>d t. number_text other k (of_int k) = d # t \<and> (d = CHR ''-'' \<or> is_figure d)"
    unfolding t using nat_digits_figures [of "nat k"] by (cases "nat_digits (nat k)") (auto simp: decimal_def)
qed

lemma visible_text: "canonical c \<Longrightarrow> visible (text_of other c)"
  using number_text_starts by (cases c) (auto simp: visible_def [of "_ # _"] split: cjson_type.splits)

definition reads_back :: "(int \<Rightarrow> rat) \<Rightarrow> (rat \<Rightarrow> string) \<Rightarrow> cjson \<Rightarrow> bool" where
  "reads_back pow10 other c \<longleftrightarrow> (\<forall>u nm x t n w. ends_value x \<longrightarrow> 2 * length (text_of other c @ x # t) + 1 \<le> n \<longrightarrow>
    length (text_of other c) < 2 ^ 31 \<longrightarrow> upcoming w = [] \<longrightarrow>
    (\<exists>w1. parse_value pow10 n (Cjson u None 0 0 nm []) (text_of other c @ x # t) w
      = Some (set_name nm c, Some (x # t), w1) \<and> upcoming w1 = []))"

lemma reads_backD:
  assumes "reads_back pow10 other c" "ends_value x" "2 * length (text_of other c @ x # t) + 1 \<le> n"
    "length (text_of other c) < 2 ^ 31" "upcoming w = []"
  obtains w1 where "parse_value pow10 n (Cjson u None 0 0 nm []) (text_of other c @ x # t) w
    = Some (set_name nm c, Some (x # t), w1)" "upcoming w1 = []"
  using assms unfolding reads_back_def by blast

lemma set_name_same [simp]: "cjson_name c = nm \<Longrightarrow> set_name nm c = c"
  by (cases c) auto

lemma comma_list_Cons: "comma_list (s # ss) = s @ (if ss = [] then [] else CHR '','' # comma_list ss)"
  by (cases ss) simp_all

lemma new_item_calm: "upcoming w = [] \<Longrightarrow> cJSON_New_Item w = (Some (fresh w), w\<lparr>live := live w + 1, fresh := fresh w + 1\<rparr>)"
  by (simp add: cJSON_New_Item_def malloc_calm)

lemma added_child: "cJSON_AddItemToArray (Cjson t vs vi vd nm cs) (Some c) = Cjson t vs vi vd nm (cs @ [c])"
  by (simp add: cJSON_AddItemToArray_def)

lemma elements_read_back:
  assumes "\<forall>c\<in>set cs. reads_back pow10 other c \<and> cjson_name c = None \<and> canonical c" "cs \<noteq> []"
    "2 * length (comma_list (map (text_of other) cs) @ CHR '']'' # t) + 2 \<le> n"
    "length (comma_list (map (text_of other) cs)) < 2 ^ 31" "upcoming w = []"
  shows "\<exists>w1. parse_elements pow10 n (Cjson cJSON_Array None 0 0 nm ds) (comma_list (map (text_of other) cs) @ CHR '']'' # t) w
    = Some (Cjson cJSON_Array None 0 0 nm (ds @ cs), Some t, w1) \<and> upcoming w1 = []"
  using assms
proof (induction cs arbitrary: n w ds)
  case (Cons c cs)
  obtain m where m: "n = Suc m" using Cons.prems(3) by (cases n) auto
  let ?w = "w\<lparr>live := live w + 1, fresh := fresh w + 1\<rparr>"
  define rest where "rest = (if cs = [] then CHR '']'' # t else CHR '','' # comma_list (map (text_of other) cs) @ CHR '']'' # t)"
  obtain x r where x: "rest = x # r" "ends_value x" "(32 :: nat) < of_char x" by (cases "cs = []") (auto simp: rest_def ends_value_def)
  have s: "comma_list (map (text_of other) (c # cs)) @ CHR '']'' # t = text_of other c @ x # r"
    by (simp add: comma_list_Cons rest_def flip: x(1))
  have c: "reads_back pow10 other c" "cjson_name c = None" "visible (text_of other c)"
    using Cons.prems(1) visible_text by auto
  have small: "length (text_of other c) < 2 ^ 31" "2 * length (text_of other c @ x # r) + 1 \<le> m"
    using Cons.prems(3,4) m arg_cong [OF s, of length] by (simp_all add: comma_list_Cons)
  obtain w1 where w1: "parse_value pow10 m (new_item cJSON_False) (text_of other c @ x # r) ?w = Some (c, Some (x # r), w1)"
    "upcoming w1 = []"
    using reads_backD [OF c(1) x(2) small(2,1), of ?w cJSON_False None] c(2) Cons.prems(5) by (auto simp: new_item_def)
  have step: "parse_elements pow10 n (Cjson cJSON_Array None 0 0 nm ds) (text_of other c @ x # r) w
      = after_child CHR '']'' (parse_elements pow10 m) (Cjson cJSON_Array None 0 0 nm (ds @ [c])) (Some (x # r)) w1"
    using w1 by (simp add: m parse_element_with_def new_item_calm Cons.prems(5) skip_visible [OF c(3)] added_child)
  show ?case
  proof (cases "cs = []")
    case True
    then have "x = CHR '']''" "r = t" using x(1) by (simp_all add: rest_def)
    then show ?thesis using step w1(2) True unfolding s by (simp add: after_child_def)
  next
    case False
    then have r: "x = CHR '',''" "r = comma_list (map (text_of other) cs) @ CHR '']'' # t" using x(1) by (simp_all add: rest_def)
    have "\<exists>w1'. parse_elements pow10 m (Cjson cJSON_Array None 0 0 nm (ds @ [c])) r w1
        = Some (Cjson cJSON_Array None 0 0 nm ((ds @ [c]) @ cs), Some t, w1') \<and> upcoming w1' = []"
      unfolding r(2) using Cons.prems(1,3,4) False w1(2) m by (intro Cons.IH) (simp_all add: comma_list_Cons)
    then show ?thesis unfolding s step using r(1) by (simp add: after_child_def)
  qed
qed simp

lemma members_read_back:
  assumes "\<forall>c\<in>set cs. reads_back pow10 other c \<and> (\<exists>k. cjson_name c = Some k \<and> is_text k) \<and> canonical c" "cs \<noteq> []"
    "2 * length (comma_list (map (named_text other) cs) @ CHR 0x7D # t) + 2 \<le> n"
    "length (comma_list (map (named_text other) cs)) < 2 ^ 31" "upcoming w = []"
  shows "\<exists>w1. parse_members pow10 n (Cjson cJSON_Object None 0 0 nm ds) (comma_list (map (named_text other) cs) @ CHR 0x7D # t) w
    = Some (Cjson cJSON_Object None 0 0 nm (ds @ cs), Some t, w1) \<and> upcoming w1 = []"
  using assms
proof (induction cs arbitrary: n w ds)
  case (Cons c cs)
  obtain m where m: "n = Suc m" using Cons.prems(3) by (cases n) auto
  let ?w = "w\<lparr>live := live w + 1, fresh := fresh w + 1\<rparr>"
  define rest where "rest = (if cs = [] then CHR 0x7D # t else CHR '','' # comma_list (map (named_text other) cs) @ CHR 0x7D # t)"
  obtain x r where x: "rest = x # r" "ends_value x" "(32 :: nat) < of_char x" by (cases "cs = []") (auto simp: rest_def ends_value_def)
  obtain k where k: "cjson_name c = Some k" "is_text k" and c: "reads_back pow10 other c" "visible (text_of other c)"
    using Cons.prems(1) visible_text by auto
  have s: "comma_list (map (named_text other) (c # cs)) @ CHR 0x7D # t = quoted k @ CHR '':'' # text_of other c @ x # r"
    by (simp add: comma_list_Cons rest_def named_text_def k(1) flip: x(1))
  have small: "length (text_of other c) < 2 ^ 31" "2 * length (text_of other c @ x # r) + 1 \<le> m" "length (quoted k) < 2 ^ 31"
    using Cons.prems(3,4) m arg_cong [OF s, of length] by (simp_all add: comma_list_Cons named_text_def [of other c] k(1))
  obtain w2 where w2: "parse_string (new_item cJSON_False) (quoted k @ CHR '':'' # text_of other c @ x # r) ?w
      = Some (with_string k (new_item cJSON_False), Some (CHR '':'' # text_of other c @ x # r), w2)" "upcoming w2 = []"
    using parse_string_quoted [OF k(2) small(3), of ?w] Cons.prems(5) by fastforce
  obtain w3 where w3: "parse_value pow10 m (Cjson cJSON_String None 0 0 (Some k) []) (text_of other c @ x # r) w2
      = Some (c, Some (x # r), w3)" "upcoming w3 = []"
    using reads_backD [OF c(1) x(2) small(2,1) w2(2), of cJSON_String "Some k"] k(1) by auto
  have moved: "string_to_name (with_string k (new_item cJSON_False)) = Cjson cJSON_String None 0 0 (Some k) []"
    by (simp add: new_item_def)
  have step: "parse_members pow10 n (Cjson cJSON_Object None 0 0 nm ds) (quoted k @ CHR '':'' # text_of other c @ x # r) w
      = after_child CHR 0x7D (parse_members pow10 m) (Cjson cJSON_Object None 0 0 nm (ds @ [c])) (Some (x # r)) w3"
    using w2 w3 by (simp add: m parse_member_with_def new_item_calm Cons.prems(5) skip_visible [OF visible_quoted(1)]
        skip_visible [OF c(2)] added_child moved)
  show ?case
  proof (cases "cs = []")
    case True
    then have "x = CHR 0x7D" "r = t" using x(1) by (simp_all add: rest_def)
    then show ?thesis using step w3(2) True unfolding s by (simp add: after_child_def)
  next
    case False
    then have r: "x = CHR '',''" "r = comma_list (map (named_text other) cs) @ CHR 0x7D # t" using x(1) by (simp_all add: rest_def)
    have "\<exists>w1'. parse_members pow10 m (Cjson cJSON_Object None 0 0 nm (ds @ [c])) r w3
        = Some (Cjson cJSON_Object None 0 0 nm ((ds @ [c]) @ cs), Some t, w1') \<and> upcoming w1' = []"
      unfolding r(2) using Cons.prems(1,3,4) False w3(2) m by (intro Cons.IH) (simp_all add: comma_list_Cons)
    then show ?thesis unfolding s step using r(1) by (simp add: after_child_def)
  qed
qed simp

lemma text_of_named:
  "text_of other (Cjson cJSON_Object vs vi vd nm cs) = [CHR 0x7B] @ comma_list (map (named_text other) cs) @ [CHR 0x7D]"
  by (simp add: named_text_def [abs_def])

lemma visible_append: "visible s \<Longrightarrow> visible (s @ t)"
  by (cases s) (simp_all add: visible_def)

lemma first_visible: "cs \<noteq> [] \<Longrightarrow> (\<And>c. c \<in> set cs \<Longrightarrow> visible (f c)) \<Longrightarrow> visible (comma_list (map f cs) @ t)"
  by (cases cs) (simp_all add: comma_list_Cons visible_append)

lemma visible_head: "visible s \<Longrightarrow> \<exists>d t. s = d # t \<and> d \<noteq> CHR '']'' \<and> d \<noteq> CHR 0x7D"
  by (cases s) (auto simp: visible_def)

lemma all_read_back:
  assumes "pow10 0 = 1"
  shows "canonical c \<Longrightarrow> reads_back pow10 other c"
proof (induction c)
  case (Cjson t vs vi vd nm cs)
  show ?case unfolding reads_back_def
  proof (intro allI impI)
    fix u k x r n and w :: world
    assume x: "ends_value x" and n: "2 * length (text_of other (Cjson t vs vi vd nm cs) @ x # r) + 1 \<le> n"
      and small: "length (text_of other (Cjson t vs vi vd nm cs)) < 2 ^ 31" and w: "upcoming w = []"
    obtain m where m: "n = Suc m" using n by (cases n) auto
    show "\<exists>w1. parse_value pow10 n (Cjson u None 0 0 k []) (text_of other (Cjson t vs vi vd nm cs) @ x # r) w
      = Some (set_name k (Cjson t vs vi vd nm cs), Some (x # r), w1) \<and> upcoming w1 = []"
    proof (cases t)
      case cJSON_Number
      then have v: "vs = None" "cs = []" "vd = of_int vi" "- (2 ^ 31) < vi" "vi < 2 ^ 31" using Cjson.prems by simp_all
      obtain d s where d: "number_text other vi (of_int vi) = d # s" "d = CHR ''-'' \<or> is_figure d"
        using number_text_starts(2) [OF v(4,5)] by blast
      moreover from d(2) have "d \<noteq> CHR ''n''" "d \<noteq> CHR ''f''" "d \<noteq> CHR ''t''" "d \<noteq> CHR 0x22" by (auto simp: is_figure_def)
      ultimately show ?thesis
        using parse_number_text [of pow10 vi x "Cjson u None 0 0 k []" other r] assms v x w cJSON_Number
        by (auto simp: m parse_value_with_def)
    next
      case cJSON_String
      then obtain s where s: "vs = Some s" "is_text s" "vi = 0" "vd = 0" "cs = []"
        using Cjson.prems by (auto split: option.splits)
      have "length (quoted s) < 2 ^ 31" using small s cJSON_String by simp
      from parse_string_quoted [OF s(2) this w, of "Cjson u None 0 0 k []" "x # r"] show ?thesis
        using s cJSON_String by (auto simp: m parse_value_with_def quoted_def)
    next
      case cJSON_Array
      then have v: "vs = None" "vi = 0" "vd = 0" "\<forall>c\<in>set cs. cjson_name c = None \<and> canonical c"
        using Cjson.prems by (simp_all add: list_all_iff)
      show ?thesis
      proof (cases "cs = []")
        case True
        then show ?thesis using v cJSON_Array w by (simp add: m parse_value_with_def opened_def is_figure_def)
      next
        case False
        let ?s = "comma_list (map (text_of other) cs)"
        have vis: "visible (?s @ CHR '']'' # x # r)" using v(4) visible_text by (intro first_visible False) blast
        have "\<forall>c\<in>set cs. reads_back pow10 other c \<and> cjson_name c = None \<and> canonical c" using v(4) Cjson.IH by blast
        moreover have "2 * length (?s @ CHR '']'' # x # r) + 2 \<le> m" "length ?s < 2 ^ 31"
          using n small cJSON_Array m by simp_all
        ultimately obtain w1 where "parse_elements pow10 m (Cjson cJSON_Array None 0 0 k []) (?s @ CHR '']'' # x # r) w
            = Some (Cjson cJSON_Array None 0 0 k cs, Some (x # r), w1)" "upcoming w1 = []"
          using elements_read_back [OF _ False _ _ w, of pow10 other "x # r" m k "[]"] by auto
        then show ?thesis using v cJSON_Array skip_visible [OF vis, of "[]"] visible_head [OF vis]
          by (auto simp: m parse_value_with_def opened_def is_figure_def)
      qed
    next
      case cJSON_Object
      then have v: "vs = None" "vi = 0" "vd = 0" "\<forall>c\<in>set cs. (\<exists>k. cjson_name c = Some k \<and> is_text k) \<and> canonical c"
        using Cjson.prems by (auto simp: list_all_iff split: option.splits)
      show ?thesis
      proof (cases "cs = []")
        case True
        then show ?thesis using v cJSON_Object w by (simp add: m parse_value_with_def opened_def is_figure_def)
      next
        case False
        let ?s = "comma_list (map (named_text other) cs)"
        have vis: "visible (?s @ CHR 0x7D # x # r)" by (intro first_visible False) (simp add: named_text_def)
        have "\<forall>c\<in>set cs. reads_back pow10 other c \<and> (\<exists>k. cjson_name c = Some k \<and> is_text k) \<and> canonical c"
          using v(4) Cjson.IH by blast
        moreover have "2 * length (?s @ CHR 0x7D # x # r) + 2 \<le> m" "length ?s < 2 ^ 31"
          using n small m unfolding cJSON_Object text_of_named by simp_all
        ultimately obtain w1 where "parse_members pow10 m (Cjson cJSON_Object None 0 0 k []) (?s @ CHR 0x7D # x # r) w
            = Some (Cjson cJSON_Object None 0 0 k cs, Some (x # r), w1)" "upcoming w1 = []"
          using members_read_back [OF _ False _ _ w, of pow10 other "x # r" m k "[]"] by auto
        then show ?thesis using v skip_visible [OF vis, of "[]"] visible_head [OF vis] unfolding cJSON_Object text_of_named
          by (auto simp: m parse_value_with_def opened_def is_figure_def)
      qed
    qed (use Cjson.prems w in \<open>simp_all add: m parse_value_with_def\<close>)
  qed
qed

lemma parse_text_of_calm:
  assumes "canonical c" "cjson_name c = None" "pow10 0 = 1" "upcoming w = []" "length (text_of other c) < 2 ^ 31"
  shows "\<exists>w1. cJSON_Parse pow10 (cstring (text_of other c)) w = Some (Some c, w1) \<and> upcoming w1 = []"
proof -
  let ?w = "w\<lparr>live := live w + 1, fresh := fresh w + 1\<rparr>"
  obtain w1 where "parse_value pow10 (parse_bound (text_of other c @ [NUL])) (Cjson cJSON_False None 0 0 None [])
      (text_of other c @ [NUL]) ?w = Some (set_name None c, Some [NUL], w1)" "upcoming w1 = []"
    by (rule reads_backD [OF all_read_back [of pow10 c other, OF assms(3,1)], of NUL "[]" "parse_bound (text_of other c @ [NUL])" ?w cJSON_False None])
      (use assms in \<open>simp_all add: ends_value_def parse_bound_def\<close>)
  then show ?thesis
    using assms(2,4) skip_visible [OF visible_text [OF assms(1)], of other "[NUL]"]
    by (simp add: cJSON_Parse_def cstring_def new_item_calm new_item_def)
qed

lemma parse_text_of:
  assumes "canonical c" "cjson_name c = None" "pow10 0 = 1" "upcoming w = []" "length (text_of other c) < 2 ^ 31"
  shows "\<exists>w1. cJSON_Parse pow10 (cstring (text_of other c)) w = Some (Some c, w1)"
  using parse_text_of_calm [of c pow10 w other] assms by blast

lemma parse_text_of_handle:
  assumes "canonical c" "cjson_name c = None" "pow10 0 = 1" "upcoming w = []" "length (text_of other c) < 2 ^ 31"
  shows "\<exists>w1. mcl_json_util_parse pow10 (Some (cstring (text_of other c))) True w = Some (MCL_OK, Some c, w1)"
proof -
  obtain w0 where w0: "memory_allocate sizeof_json w = (Some (fresh w), w0)" "upcoming w0 = []"
    using assms(4) by (simp add: memory_allocate_def malloc_calm sizeof_json_def)
  obtain w1 where "cJSON_Parse pow10 (cstring (text_of other c)) w0 = Some (Some c, w1)"
    using parse_text_of [of c pow10 w0 other] assms w0(2) by blast
  then show ?thesis using w0(1) by (simp add: mcl_json_util_parse_def json_util_parse_def)
qed

text \<open>C24: What the printer writes the parser reads: parsing the text of a tree gives the tree back, whatever texts, names
  and nesting it has, when its numbers are whole and fit into 32 bits.\<close>

theorem json_util_parse_roundtrip:
  assumes "canonical c" "cjson_name c = None" "pow10 0 = 1" "upcoming w = []" "length (text_of other c) < 2 ^ 31"
  shows "\<exists>s w1 w2. json_util_to_string other c w = (MCL_OK, Some s, w1)
    \<and> mcl_json_util_parse pow10 (Some s) True w1 = Some (MCL_OK, Some c, w2)"
proof -
  have "one_block (cJSON_PrintUnformatted other c w) (text_of other c) w"
    by (simp add: cJSON_PrintUnformatted_def print_value_ok)
  then obtain w1 where "cJSON_PrintUnformatted other c w = (Some (text_of other c), w1)" "upcoming w1 = []"
    using assms(4) by (auto simp: one_block_def split: prod.splits)
  moreover from this obtain w2 where "mcl_json_util_parse pow10 (Some (cstring (text_of other c))) True w1 = Some (MCL_OK, Some c, w2)"
    using parse_text_of_handle [of c pow10 w1 other] assms by blast
  ultimately show ?thesis by (simp add: json_util_to_string_def)
qed

definition sample_tree :: cjson where
  "sample_tree = Cjson cJSON_Array None 0 0 None
    [Cjson cJSON_Number None (- 7) (- 7) None [], Cjson cJSON_Object None 0 0 None
      [Cjson cJSON_String (Some [CHR ''a'', CHR 0x22, CHR 0x07]) 0 0 (Some ''k'') []]]"

lemma json_util_parse_roundtrip_witness:
  "\<exists>s w1 w2. json_util_to_string (\<lambda>_. []) sample_tree quiet_world = (MCL_OK, Some s, w1)
    \<and> mcl_json_util_parse (\<lambda>_. 1) (Some s) True w1 = Some (MCL_OK, Some sample_tree, w2)"
proof (rule json_util_parse_roundtrip)
  show "length (text_of (\<lambda>_. []) sample_tree) < 2 ^ 31"
    by (simp add: sample_tree_def quoted_def escape_char_def number_text_def decimal_def nat_digits.simps hex4_def Let_def)
qed (simp_all add: sample_tree_def quiet_world_def)

lemma value_set_tree_canonical:
  assumes "list_all2 value_set_says sets xs"
  shows "canonical (array_of (map value_set_tree xs))"
proof -
  have says: "is_text s" if "says h s" for h s using that by (simp add: says_def)
  have val: "canonical (value_tree v) \<and> cjson_name (value_tree v) = None" if "value_says x v" for x v
    using that says by (auto simp: value_says_def value_tree_def object_of_def json_string_def split: prod.split)
  have vals: "list_all (\<lambda>c. cjson_name c = None \<and> canonical c) (map value_tree ys)" if "list_all2 value_says vs ys" for vs ys
    using that by (induction rule: list_all2_induct) (auto dest: val)
  have vset: "canonical (value_set_tree t) \<and> cjson_name (value_set_tree t) = None" if "value_set_says s t" for s t
    using that says vals by (auto simp: value_set_says_def value_set_tree_def object_of_def json_string_def array_of_def)
  have "list_all (\<lambda>c. cjson_name c = None \<and> canonical c) (map value_set_tree xs)"
    using assms by (induction rule: list_all2_induct) (auto dest: vset)
  then show ?thesis by (simp add: array_of_def)
qed

text \<open>C23: What the library sends can be read: the payload of a time series that the library composes, for any identifiers,
  values and times, is parsed to the tree of exactly its value sets.\<close>

theorem time_series_payload_roundtrip:
  assumes "list_all2 value_set_says sets xs" "upcoming w = []" "pow10 0 = 1"
    and "length (text_of other (array_of (map value_set_tree xs))) < 2 ^ 31"
  shows "\<exists>s w1 w2. json_from_time_series_payload other (Some sets) w = Some (MCL_OK, Some s, w1)
    \<and> mcl_json_util_parse pow10 (string_buffer s) True w1 = Some (MCL_OK, Some (array_of (map value_set_tree xs)), w2)"
proof -
  have small: "length (text_of other (array_of (map value_set_tree xs))) < 2 ^ 64" using assms(4) by simp
  obtain w1 where w1: "json_from_time_series_payload other (Some sets) w
      = Some (MCL_OK, Some (json_handle (text_of other (array_of (map value_set_tree xs)))), w1)" "upcoming w1 = []"
    using json_from_time_series_payload_runs [OF assms(1,2) small] unfolding calm_def by blast
  have "string_buffer (json_handle (text_of other (array_of (map value_set_tree xs))))
      = Some (cstring (text_of other (array_of (map value_set_tree xs))))"
    by (simp add: json_handle_def handle_of_def cstring_def)
  moreover obtain w2 where "mcl_json_util_parse pow10 (Some (cstring (text_of other (array_of (map value_set_tree xs))))) True w1
      = Some (MCL_OK, Some (array_of (map value_set_tree xs)), w2)"
    using parse_text_of_handle [of "array_of (map value_set_tree xs)" pow10 w1 other] value_set_tree_canonical [OF assms(1)]
      assms(3,4) w1(2) by (auto simp: array_of_def)
  ultimately show ?thesis using w1(1) by simp
qed

lemma time_series_payload_roundtrip_witness:
  "\<exists>s w1 w2. json_from_time_series_payload (\<lambda>_. [])
      (Some [\<lparr>value_set_timestamp = Some (handle_of ''2016''), value_set_values =
        Some [\<lparr>value_data_point_id = Some (handle_of ''dp''), value_value = Some (handle_of ''1''),
          value_quality_code = Some (handle_of ''0'')\<rparr>]\<rparr>]) quiet_world = Some (MCL_OK, Some s, w1)
    \<and> mcl_json_util_parse (\<lambda>_. 1) (string_buffer s) True w1
      = Some (MCL_OK, Some (array_of (map value_set_tree [(''2016'', [(''dp'', ''1'', ''0'')])])), w2)"
proof (rule time_series_payload_roundtrip)
  show "list_all2 value_set_says [\<lparr>value_set_timestamp = Some (handle_of ''2016''), value_set_values =
        Some [\<lparr>value_data_point_id = Some (handle_of ''dp''), value_value = Some (handle_of ''1''),
          value_quality_code = Some (handle_of ''0'')\<rparr>]\<rparr>] [(''2016'', [(''dp'', ''1'', ''0'')])]"
    by (simp add: value_set_says_def value_says_def says_handle_of)
  show "length (text_of (\<lambda>_. []) (array_of (map value_set_tree [(''2016'', [(''dp'', ''1'', ''0'')])]))) < 2 ^ 31"
    by (simp add: array_of_def value_set_tree_def value_tree_def object_of_def json_string_def quoted_def
        escape_char_def Let_def)
qed (simp_all add: quiet_world_def)

section \<open>A text that ends in a backslash\<close>

lemma scan_string_backslash:
  "\<forall>c\<in>set s. c \<noteq> CHR 0x22 \<and> c \<noteq> CHR 0x5C \<and> c \<noteq> NUL \<Longrightarrow> scan_string (s @ [CHR 0x5C, NUL]) = None"
  by (induction s) auto

text \<open>C40: The scan for the end of a string passes over the character behind a backslash without a look at it, so a text
  that ends with a backslash in an open string makes the parser read behind its terminator, where the model has no value.\<close>

theorem cJSON_Parse_overreads:
  assumes "\<forall>c\<in>set s. c \<noteq> CHR 0x22 \<and> c \<noteq> CHR 0x5C \<and> c \<noteq> NUL" "upcoming w = []"
  shows "cJSON_Parse pow10 (cstring ([CHR 0x22] @ s @ [CHR 0x5C])) w = None"
proof -
  let ?s = "CHR 0x22 # s @ [CHR 0x5C, NUL]"
  have bound: "parse_bound ?s = Suc (2 * length ?s + 1)" by (simp add: parse_bound_def)
  have "parse_string item ?s w = None" for item w
    using scan_string_backslash [OF assms(1)] by (simp add: parse_string_def)
  then have "parse_value pow10 (parse_bound ?s) item ?s w = None" for item w
    unfolding bound by (simp add: parse_value_with_def)
  then show ?thesis using assms(2) by (simp add: cJSON_Parse_def cstring_def new_item_calm)
qed

lemma cJSON_Parse_overreads_witness:
  "cJSON_Parse (\<lambda>_. 1) (cstring ([CHR 0x22] @ ''abc'' @ [CHR 0x5C])) quiet_world = None"
  by (rule cJSON_Parse_overreads) (simp_all add: quiet_world_def)

lemma cJSON_Parse_balanced_witness:
  "\<exists>w1. cJSON_Parse (\<lambda>_. 1) (cstring ''[7'') quiet_world = Some (None, w1) \<and> live w1 = live quiet_world"
proof -
  have "map_option fst (cJSON_Parse (\<lambda>_. 1) (cstring ''[7'') quiet_world) = Some None" by code_simp
  then obtain w1 where w1: "cJSON_Parse (\<lambda>_. 1) (cstring ''[7'') quiet_world = Some (None, w1)" by auto
  show ?thesis using cJSON_Parse_balanced [OF w1] w1 by simp
qed

lemma cJSON_Parse_bound_witness:
  "cJSON_Parse (\<lambda>_. 1) (cstring ''[7]'') quiet_world = (case cJSON_New_Item quiet_world of
      (None, w1) \<Rightarrow> Some (None, w1)
    | (Some a, w1) \<Rightarrow> do {
        t \<leftarrow> skip (cstring ''[7]'');
        (c, r, w2) \<leftarrow> parse_value (\<lambda>_. 1) 1000 (new_item cJSON_False) t w1;
        Some (if r = None then (None, cJSON_Delete c w2) else (Some c, w2))
      })"
  by (rule cJSON_Parse_bound) (simp add: parse_bound_def cstring_def)

end
