(* ===== verification/MCL_Claims.thy ===== *)
theory MCL_Claims
  imports MCL_Exchange_Items MCL_Cjson_Parse MCL_Storage
begin

text \<open>
  The rest of \<^verbatim>\<open>jwt.c\<close>, the header and the claims of a token, and of \<^verbatim>\<open>http_processor.c\<close> the payload of the request
  that asks for an access token.  A token holds JSON objects; the time is the second that \<^verbatim>\<open>time\<close> gives.
\<close>

section \<open>Names\<close>

definition JWT_HEADER_NAME_ALG :: string where "JWT_HEADER_NAME_ALG = ''alg''"
definition JWT_HEADER_NAME_TYPE :: string where "JWT_HEADER_NAME_TYPE = ''typ''"
definition JWT_PAYLOAD_NAME_ISS :: string where "JWT_PAYLOAD_NAME_ISS = ''iss''"
definition JWT_PAYLOAD_NAME_SUB :: string where "JWT_PAYLOAD_NAME_SUB = ''sub''"
definition JWT_PAYLOAD_NAME_AUD :: string where "JWT_PAYLOAD_NAME_AUD = ''aud''"
definition JWT_PAYLOAD_NAME_IAT :: string where "JWT_PAYLOAD_NAME_IAT = ''iat''"
definition JWT_PAYLOAD_NAME_NBF :: string where "JWT_PAYLOAD_NAME_NBF = ''nbf''"
definition JWT_PAYLOAD_NAME_EXP :: string where "JWT_PAYLOAD_NAME_EXP = ''exp''"
definition JWT_PAYLOAD_NAME_SCHEMAS :: string where "JWT_PAYLOAD_NAME_SCHEMAS = ''schemas''"
definition JWT_PAYLOAD_NAME_TEN :: string where "JWT_PAYLOAD_NAME_TEN = ''ten''"
definition JWT_PAYLOAD_NAME_JTI :: string where "JWT_PAYLOAD_NAME_JTI = ''jti''"
definition JWT_HEADER_VALUE_ALG_SHARED_SECRET :: string where "JWT_HEADER_VALUE_ALG_SHARED_SECRET = ''HS256''"
definition JWT_HEADER_VALUE_ALG_RSA_3072 :: string where "JWT_HEADER_VALUE_ALG_RSA_3072 = ''RS256''"
definition JWT_HEADER_VALUE_TYP :: string where "JWT_HEADER_VALUE_TYP = ''JWT''"
definition JWT_PAYLOAD_VALUE_SCHEMAS :: string where "JWT_PAYLOAD_VALUE_SCHEMAS = ''urn:siemens:mindsphere:v1''"
definition JWT_PAYLOAD_VALUE_AUD :: string where "JWT_PAYLOAD_VALUE_AUD = ''southgate''"
definition JWT_EXPIRATION_TIME :: int where "JWT_EXPIRATION_TIME = 86400"

lemmas jwt_names = JWT_HEADER_NAME_ALG_def JWT_HEADER_NAME_TYPE_def JWT_PAYLOAD_NAME_ISS_def JWT_PAYLOAD_NAME_SUB_def
  JWT_PAYLOAD_NAME_AUD_def JWT_PAYLOAD_NAME_IAT_def JWT_PAYLOAD_NAME_NBF_def JWT_PAYLOAD_NAME_EXP_def
  JWT_PAYLOAD_NAME_SCHEMAS_def JWT_PAYLOAD_NAME_TEN_def JWT_PAYLOAD_NAME_JTI_def

section \<open>Header and payload\<close>

definition create_self_issued_jwt_header ::
    "E_MCL_SECURITY_PROFILE \<Rightarrow> world \<Rightarrow> (E_MCL_ERROR_CODE \<times> cjson option \<times> world) option" where
  "create_self_issued_jwt_header profile w =
    (case json_util_initialize JSON_OBJECT w of
      (code, None, w1) \<Rightarrow> Some (code, None, w1)
    | (code, Some t, w1) \<Rightarrow> do {
        (code1, t1, w2) \<leftarrow> run_steps
          [if_ok (\<lambda>t. json_util_add_string t [] (Some JWT_HEADER_NAME_TYPE) JWT_HEADER_VALUE_TYP),
           if_ok (\<lambda>t. json_util_add_string t [] (Some JWT_HEADER_NAME_ALG)
             (if MCL_SECURITY_SHARED_SECRET = profile then JWT_HEADER_VALUE_ALG_SHARED_SECRET
              else JWT_HEADER_VALUE_ALG_RSA_3072))] (code, t, w1);
        Some (if MCL_OK \<noteq> code1 then (code1, None, json_util_destroy (Some t1) w2) else (code1, Some t1, w2))
      })"

definition add_schema_to_jwt :: "cjson \<Rightarrow> world \<Rightarrow> (E_MCL_ERROR_CODE \<times> cjson \<times> world) option" where
  "add_schema_to_jwt t w = do {
    (code, t1, schemas_array, w1) \<leftarrow> json_util_start_array t [] JWT_PAYLOAD_NAME_SCHEMAS w;
    (case schemas_array of
      None \<Rightarrow> Some (code, t1, w1)
    | Some p \<Rightarrow> do {
        (code1, t2, w2) \<leftarrow> json_util_add_string t1 p None JWT_PAYLOAD_VALUE_SCHEMAS w1;
        Some (code1, t2, json_util_finish_array schemas_array w2)
      })
  }"

text \<open>The clock is the number of seconds that \<^verbatim>\<open>time\<close> gives.  The names and the texts of the payload are C strings;
  the result holds what becomes of \<^verbatim>\<open>jwt->payload\<close>.\<close>

definition create_self_issued_jwt_payload ::
    "random_source \<Rightarrow> int \<Rightarrow> security_handler_t \<Rightarrow> string_t option \<Rightarrow> cjson jwt_t \<Rightarrow> world
      \<Rightarrow> (E_MCL_ERROR_CODE \<times> cjson jwt_t \<times> world) option" where
  "create_self_issued_jwt_payload rand clock handler tenant0 jwt w = do {
    (code, jti, w1) \<leftarrow> security_handler_generate_jti rand w;
    if MCL_OK \<noteq> code then Some (code, jwt, w1)
    else (case json_util_initialize JSON_OBJECT w1 of
        (code1, None, w2) \<Rightarrow> Some (code1, jwt, snd (string_destroy jti w2))
      | (code1, Some t, w2) \<Rightarrow> do {
          (code2, t1, w3) \<leftarrow> run_steps
            [if_ok (\<lambda>t. add_text t [] JWT_PAYLOAD_NAME_ISS (client_id handler)),
             if_ok (\<lambda>t. add_text t [] JWT_PAYLOAD_NAME_SUB (client_id handler)),
             if_ok (\<lambda>t. json_util_add_string t [] (Some JWT_PAYLOAD_NAME_AUD) JWT_PAYLOAD_VALUE_AUD),
             if_ok (\<lambda>t. json_util_add_double t [] (Some JWT_PAYLOAD_NAME_IAT) (fl (of_int clock))),
             if_ok (\<lambda>t. json_util_add_double t [] (Some JWT_PAYLOAD_NAME_NBF) (fl (of_int clock))),
             if_ok (\<lambda>t. json_util_add_double t [] (Some JWT_PAYLOAD_NAME_EXP) (fl (of_int (clock + JWT_EXPIRATION_TIME)))),
             if_ok add_schema_to_jwt,
             if_ok (\<lambda>t. add_text t [] JWT_PAYLOAD_NAME_TEN tenant0),
             if_ok (\<lambda>t. add_text t [] JWT_PAYLOAD_NAME_JTI jti)] (MCL_OK, t, w2);
          let (jwt1, w4) = (if MCL_OK = code2 then (jwt\<lparr>jwt_payload := Some t1, jwt_issued_at := clock\<rparr>, w3)
            else (jwt, json_util_destroy (Some t1) w3));
          Some (code2, jwt1, snd (string_destroy jti w4))
        })
  }"

section \<open>The token\<close>

definition sizeof_jwt :: mcl_size_t where "sizeof_jwt = 40"

definition jwt_destroy :: "cjson jwt_t option \<Rightarrow> world \<Rightarrow> cjson jwt_t option \<times> world" where
  "jwt_destroy jwt w = (case jwt of
      None \<Rightarrow> (None, w)
    | Some j \<Rightarrow> (None, memory_free (json_util_destroy (jwt_payload j) (json_util_destroy (jwt_header j) w))))"

text \<open>The time of issue is not set before the payload is made; \<open>old\<close> is what was in that memory.\<close>

definition jwt_initialize ::
    "random_source \<Rightarrow> int \<Rightarrow> int \<Rightarrow> security_handler_t \<Rightarrow> E_MCL_SECURITY_PROFILE \<Rightarrow> string_t option \<Rightarrow> world
      \<Rightarrow> (E_MCL_ERROR_CODE \<times> cjson jwt_t option \<times> world) option" where
  "jwt_initialize rand clock old handler profile tenant0 w =
    (case memory_allocate sizeof_jwt w of
      (None, w1) \<Rightarrow> Some (MCL_OUT_OF_MEMORY, None, w1)
    | (Some a, w1) \<Rightarrow> do {
        let jwt = \<lparr>jwt_header = None, jwt_payload = None, jwt_security_handler = handler,
          jwt_security_profile = profile, jwt_issued_at = old\<rparr>;
        (code, header0, w2) \<leftarrow> create_self_issued_jwt_header profile w1;
        let jwt1 = jwt\<lparr>jwt_header := header0\<rparr>;
        if MCL_OK \<noteq> code then (let (gone, w3) = jwt_destroy (Some jwt1) w2 in Some (code, gone, w3))
        else do {
          (code1, jwt2, w3) \<leftarrow> create_self_issued_jwt_payload rand clock handler tenant0 jwt1 w2;
          if MCL_OK \<noteq> code1 then (let (gone, w4) = jwt_destroy (Some jwt2) w3 in Some (code1, gone, w4))
          else Some (MCL_OK, Some jwt2, w3)
        }
      })"

text \<open>One of the two parts as a string.\<close>

definition part_string ::
    "(rat \<Rightarrow> string) \<Rightarrow> cjson option \<Rightarrow> world \<Rightarrow> (E_MCL_ERROR_CODE \<times> string_t option \<times> world) option" where
  "part_string other item w = do {
    t \<leftarrow> item;
    let (code, json, w1) = json_util_to_string other t w;
    if MCL_OK = code then string_initialize_dynamic json 0 w1 else Some (code, None, w1)
  }"

definition jwt_get_token ::
    "('bio, 'rsa) openssl \<Rightarrow> (bytes \<Rightarrow> bytes) \<Rightarrow> (rat \<Rightarrow> string) \<Rightarrow> cjson jwt_t \<Rightarrow> world \<Rightarrow> (string_t option \<times> world) option" where
  "jwt_get_token ssl sha other jwt w = do {
    (code, header0, w1) \<leftarrow> part_string other (jwt_header jwt) w;
    (code1, payload0, w2) \<leftarrow> (if MCL_OK = code then part_string other (jwt_payload jwt) w1 else Some (code, None, w1));
    (token, w3) \<leftarrow> (if MCL_OK = code1 then do {
        h \<leftarrow> header0; p \<leftarrow> payload0;
        (code2, token, w3) \<leftarrow> generate_token ssl sha jwt h p w2;
        Some (token, w3)
      } else Some (None, w2));
    Some (token, snd (string_destroy payload0 (snd (string_destroy header0 w3))))
  }"

section \<open>The request for an access token\<close>

definition token_request_head :: string where
  "token_request_head = ''grant_type=client_credentials&client_assertion_type='' @
    ''urn:ietf:params:oauth:client-assertion-type:jwt-bearer&client_assertion=''"

definition compose_access_token_request_payload ::
    "('bio, 'rsa) openssl \<Rightarrow> (bytes \<Rightarrow> bytes) \<Rightarrow> (rat \<Rightarrow> string) \<Rightarrow> random_source \<Rightarrow> int \<Rightarrow> int \<Rightarrow> security_handler_t
      \<Rightarrow> E_MCL_SECURITY_PROFILE \<Rightarrow> string_t option \<Rightarrow> world \<Rightarrow> (E_MCL_ERROR_CODE \<times> string_t option \<times> world) option" where
  "compose_access_token_request_payload ssl sha other rand clock old handler profile tenant0 w = do {
    (code, jwt, w1) \<leftarrow> jwt_initialize rand clock old handler profile tenant0 w;
    (code1, jwt_string, w2) \<leftarrow> (if MCL_OK = code then do {
        j \<leftarrow> jwt;
        (token, w2) \<leftarrow> jwt_get_token ssl sha other j w1;
        let (gone, w3) = jwt_destroy jwt w2;
        Some (if token = None then MCL_FAIL else code, token, w3)
      } else Some (code, None, w1));
    (code2, head, w3) \<leftarrow> (if MCL_OK = code1 then string_initialize_static (Some (cstring token_request_head)) 0 w2
      else Some (code1, None, w2));
    (code3, request_payload, w4) \<leftarrow> (if MCL_OK = code2 then do {
        h \<leftarrow> head; t \<leftarrow> jwt_string;
        string_concatenate h t w3
      } else Some (code2, None, w3));
    Some (code3, request_payload, snd (string_destroy jwt_string (snd (string_destroy head w4))))
  }"

section \<open>What is put into a token\<close>

definition number_tree :: "int \<Rightarrow> cjson" where "number_tree k = Cjson cJSON_Number None k (of_int k) None []"

definition header_tree :: "E_MCL_SECURITY_PROFILE \<Rightarrow> cjson" where
  "header_tree profile = object_of [(''typ'', json_string ''JWT''),
    (''alg'', json_string (if MCL_SECURITY_SHARED_SECRET = profile then ''HS256'' else ''RS256''))]"

definition claims_tree :: "string \<Rightarrow> int \<Rightarrow> string \<Rightarrow> string \<Rightarrow> cjson" where
  "claims_tree agent clock tenant0 jti = object_of
    [(''iss'', json_string agent), (''sub'', json_string agent), (''aud'', json_string ''southgate''),
     (''iat'', number_tree clock), (''nbf'', number_tree clock), (''exp'', number_tree (clock + 86400)),
     (''schemas'', array_of [json_string ''urn:siemens:mindsphere:v1'']), (''ten'', json_string tenant0), (''jti'', json_string jti)]"

lemma plain_add_double:
  assumes "item_at t p = Some c" "cjson_type c = cJSON_Object" "index_of_name name (cjson_child c) = None"
    "0 \<le> k" "k < 2 ^ 31" "u = change_at t p (add_member name (number_tree k) c)"
  shows "plain (\<lambda>t. json_util_add_double t p (Some name) (fl (of_int k))) t u"
proof (rule plainI)
  fix w :: world assume w: "upcoming w = []"
  have "fl (of_int k) = of_int k" using fl_of_nat [of "nat k"] assms(4,5) by (simp add: of_nat_nat)
  moreover have "int_of_double (of_int k) = Some k" using assms(4,5) by (simp add: int_of_double_def)
  ultimately obtain w1 where "add_created (cJSON_CreateNumber (fl (of_int k))) t p (Some name) w = Some (MCL_OK, u, w1)" "calm w 2 w1"
    using add_number_calm [OF w assms(1-3), of "of_int k" k] assms(6) by (auto simp: number_tree_def)
  then show "\<exists>w1. json_util_add_double t p (Some name) (fl (of_int k)) w = Some (MCL_OK, u, w1)
      \<and> calm w (item_blocks u - item_blocks t) w1"
    using assms(1,6) by (simp add: json_util_add_double_def number_tree_def text_blocks_def)
qed

lemma plain_add_element:
  assumes "item_at t p = Some c" "cjson_type c = cJSON_Array" "u = change_at t p (set_children (cjson_child c @ [json_string v]) c)"
  shows "plain (\<lambda>t. json_util_add_string t p None v) t u"
proof (rule plainI)
  fix w :: world assume w: "upcoming w = []"
  obtain w1 where "cJSON_CreateString v w = (Some (json_string v), w1)" "calm w 2 w1"
    using calm_item [OF one_item_CreateString [of v w] w] by (auto simp: json_string_def text_blocks_def)
  then show "\<exists>w1. json_util_add_string t p None v w = Some (MCL_OK, u, w1) \<and> calm w (item_blocks u - item_blocks t) w1"
    using assms by (simp add: json_util_add_string_def add_created_def cJSON_AddItemToArray_def)
qed

lemma schema_plain:
  assumes "index_of_name ''schemas'' (cjson_child t) = None"
    "u = add_member ''schemas'' (array_of [json_string ''urn:siemens:mindsphere:v1'']) t"
  shows "plain add_schema_to_jwt t u"
proof -
  let ?p = "[length (cjson_child t)]" and ?s = "''urn:siemens:mindsphere:v1''"
  have filled: "set_children [json_string ?s] (set_name (Some ''schemas'') (new_item cJSON_Array))
      = set_name (Some ''schemas'') (array_of [json_string ?s])"
    by (simp add: array_of_def new_item_def)
  have "plain (\<lambda>t. json_util_add_string t ?p None ?s) (add_member ''schemas'' (new_item cJSON_Array) t) u"
    by (rule plain_add_element [where c = "set_name (Some ''schemas'') (new_item cJSON_Array)"])
      (simp_all add: assms(2) filled del: item_at.simps change_at.simps)
  then have "plain (\<lambda>t w. do {
      (code, t1, pl, w1) \<leftarrow> start_item JSON_ARRAY t [] ''schemas'' w;
      (case pl of None \<Rightarrow> Some (code, t1, w1)
        | Some p \<Rightarrow> do { (code1, t2, w2) \<leftarrow> json_util_add_string t1 p None ?s w1; Some (code1, t2, finish_json_item (Some p) w2) })
    }) t u" unfolding assms(2)
    by (intro plain_started [where k = cJSON_Array and f = "\<lambda>t. json_util_add_string t ?p None ?s"])
      (simp_all add: assms(1) array_of_def)
  moreover have "add_schema_to_jwt = (\<lambda>t w. do {
      (code, t1, pl, w1) \<leftarrow> start_item JSON_ARRAY t [] ''schemas'' w;
      (case pl of None \<Rightarrow> Some (code, t1, w1)
        | Some p \<Rightarrow> do { (code1, t2, w2) \<leftarrow> json_util_add_string t1 p None ?s w1; Some (code1, t2, finish_json_item (Some p) w2) })
    })"
    by (intro ext) (simp add: add_schema_to_jwt_def json_util_start_array_def json_util_finish_array_def
        jwt_names JWT_PAYLOAD_VALUE_SCHEMAS_def cong: option.case_cong)
  ultimately show ?thesis by simp
qed

lemma claim_names [simp]:
  "\<not> cJSON_strcasecmp_equal (Some ''typ'') ''alg''" by code_simp

lemma header_runs:
  assumes "upcoming w = []"
  obtains w1 where "create_self_issued_jwt_header profile w = Some (MCL_OK, Some (header_tree profile), w1)"
    "calm w (1 + item_blocks (header_tree profile)) w1" "upcoming w1 = []"
proof -
  obtain w1 where 1: "json_util_initialize JSON_OBJECT w = (MCL_OK, Some (new_item cJSON_Object), w1)"
      "calm w 2 w1" "upcoming w1 = []"
    using initialize_calm [of w JSON_OBJECT cJSON_Object] assms by blast
  define alg where "alg = (if MCL_SECURITY_SHARED_SECRET = profile then JWT_HEADER_VALUE_ALG_SHARED_SECRET
              else JWT_HEADER_VALUE_ALG_RSA_3072)"
  have h: "header_tree profile = object_of [(''typ'', json_string ''JWT''), (''alg'', json_string alg)]"
    by (cases profile) (simp_all add: header_tree_def alg_def JWT_HEADER_VALUE_ALG_SHARED_SECRET_def JWT_HEADER_VALUE_ALG_RSA_3072_def)
  have "plain_steps [if_ok (\<lambda>t. json_util_add_string t [] (Some ''typ'') ''JWT''),
      if_ok (\<lambda>t. json_util_add_string t [] (Some ''alg'') alg)] (new_item cJSON_Object) (header_tree profile)"
    unfolding h by ((rule plain_steps_Cons plain_steps_Nil plain_add_string
        | simp add: object_of_def add_member_def new_item_def json_string_def)+)
  then obtain w2 where 2: "run_steps [if_ok (\<lambda>t. json_util_add_string t [] (Some ''typ'') ''JWT''),
      if_ok (\<lambda>t. json_util_add_string t [] (Some ''alg'') alg)] (MCL_OK, new_item cJSON_Object, w1) = Some (MCL_OK, header_tree profile, w2)"
      "calm w1 (item_blocks (header_tree profile) - item_blocks (new_item cJSON_Object)) w2" "upcoming w2 = []"
    using 1(3) unfolding plain_steps_def by (elim plainE)
  show thesis
    by (rule that [of w2]) (use 1 2 calm_trans [OF 1(2) 2(2)] in
      \<open>simp_all add: create_self_issued_jwt_header_def jwt_names JWT_HEADER_VALUE_TYP_def alg_def new_item_def text_blocks_def\<close>)
qed

definition claim_names :: "string list" where
  "claim_names = [''iss'', ''sub'', ''aud'', ''iat'', ''nbf'', ''exp'', ''schemas'', ''ten'', ''jti'']"

lemma claims_apart [simp]:
  assumes "m \<noteq> n" "m \<in> set claim_names" "n \<in> set claim_names"
  shows "\<not> cJSON_strcasecmp_equal (Some m) n"
proof -
  have "\<forall>m \<in> set claim_names. \<forall>n \<in> set claim_names. cJSON_strcasecmp_equal (Some m) n \<longrightarrow> m = n" by code_simp
  then show ?thesis using assms by blast
qed

lemma claim_names_set [simp]:
  "set claim_names = {''iss'', ''sub'', ''aud'', ''iat'', ''nbf'', ''exp'', ''schemas'', ''ten'', ''jti''}"
  by (simp add: claim_names_def)

lemma claims_plain:
  assumes "says agent a" "says tenant0 t" "says jti j" "0 \<le> clock" "clock + 86400 < 2 ^ 31"
  shows "plain_steps
    [if_ok (\<lambda>t. add_text t [] ''iss'' (Some agent)), if_ok (\<lambda>t. add_text t [] ''sub'' (Some agent)),
     if_ok (\<lambda>t. json_util_add_string t [] (Some ''aud'') ''southgate''),
     if_ok (\<lambda>t. json_util_add_double t [] (Some ''iat'') (fl (of_int clock))),
     if_ok (\<lambda>t. json_util_add_double t [] (Some ''nbf'') (fl (of_int clock))),
     if_ok (\<lambda>t. json_util_add_double t [] (Some ''exp'') (fl (of_int (clock + 86400)))),
     if_ok add_schema_to_jwt, if_ok (\<lambda>t. add_text t [] ''ten'' (Some tenant0)),
     if_ok (\<lambda>t. add_text t [] ''jti'' (Some jti))] (new_item cJSON_Object) (claims_tree a clock t j)"
proof -
  have later: "0 \<le> clock + 86400" "clock < 2 ^ 31" using assms(4,5) by simp_all
  show ?thesis unfolding claims_tree_def
    by ((rule plain_steps_Cons plain_steps_Nil plain_add_text assms later plain_add_string plain_add_double schema_plain
        | simp add: object_of_def add_member_def new_item_def json_string_def number_tree_def array_of_def)+)
qed

lemma canonical_is_text: "canonical c \<Longrightarrow> is_text (text_of other c)"
proof (induction c)
  case (Cjson t vs vi vd nm cs)
  have figures: "is_text (nat_digits n)" for n
    using nat_digits_figures [of n] by (auto simp: is_text_def list_all_iff is_figure_def)
  have number: "is_text (number_text other vi (of_int vi))" if "- (2 ^ 31) < vi" "vi < 2 ^ 31"
  proof -
    have "(of_int vi :: rat) \<le> of_int (2 ^ 31 - 1)" "of_int (- (2 ^ 31)) \<le> (of_int vi :: rat)"
      using that by (simp_all only: of_int_le_iff)
    then show ?thesis using figures by (auto simp: number_text_def decimal_def)
  qed
  have element: "is_text (text_of other c)" if "c \<in> set cs" "list_all (\<lambda>c. P c \<and> canonical c) cs" for c P
    using that Cjson.IH by (auto simp: list_all_iff)
  have member: "is_text (quoted (case cjson_name c of None \<Rightarrow> [] | Some s \<Rightarrow> s) @ '':'' @ text_of other c)"
    if "c \<in> set cs" "list_all (\<lambda>c. (case cjson_name c of None \<Rightarrow> False | Some n \<Rightarrow> is_text n) \<and> canonical c) cs" for c
    using element [OF that] that by (auto simp: list_all_iff is_text_quoted split: option.splits)
  show ?case using Cjson.prems number element member
    by (cases t) (auto simp: is_text_quoted intro!: is_text_comma_list split: option.splits)
qed

lemma length_quoted: "length (quoted s) \<le> 6 * length s + 2"
proof -
  have "length (escape_char c) \<le> 6" for c by (auto simp: escape_char_def Let_def)
  then have "length (concat (map escape_char s)) \<le> 6 * length s"
    by (induction s) (auto simp: algebra_simps intro: add_mono)
  then show ?thesis by (simp add: quoted_def)
qed

lemma length_nat_digits: "n < 10 ^ k \<Longrightarrow> 0 < k \<Longrightarrow> length (nat_digits n) \<le> k"
proof (induction n arbitrary: k rule: nat_digits.induct)
  case (1 n)
  show ?case
  proof (cases "n < 10")
    case False
    then obtain m where m: "k = Suc m" "0 < m" using "1.prems" by (cases k; cases "k - 1") auto
    then have "n div 10 < 10 ^ m" using "1.prems" by (simp add: less_mult_imp_div_less mult.commute)
    then show ?thesis using "1.IH" [OF False _ m(2)] False m by (simp add: nat_digits.simps [of n])
  qed (use "1.prems" in \<open>simp add: nat_digits.simps\<close>)
qed

lemma length_number_tree:
  assumes "0 \<le> k" "k < 2 ^ 31"
  shows "length (text_of other (number_tree k)) \<le> 10"
proof -
  have "(of_int k :: rat) \<le> of_int (2 ^ 31 - 1)" "of_int (- (2 ^ 31)) \<le> (of_int k :: rat)"
    using assms by (simp_all only: of_int_le_iff)
  then have "number_text other k (of_int k) = decimal k \<or> number_text other k (of_int k) = ''0''"
    by (auto simp: number_text_def)
  moreover have "length (nat_digits (nat k)) \<le> 10" using assms by (intro length_nat_digits) auto
  ultimately show ?thesis using assms by (auto simp: number_tree_def decimal_def)
qed

lemma claims_canonical:
  assumes "is_text a" "is_text t" "is_text j" "0 \<le> clock" "clock + 86400 < 2 ^ 31"
  shows "canonical (claims_tree a clock t j)"
  using assms by (simp add: claims_tree_def object_of_def number_tree_def json_string_def array_of_def)

lemma header_canonical: "canonical (header_tree profile)"
  by (cases profile) (simp_all add: header_tree_def object_of_def json_string_def)

lemma text_of_string: "text_of other (set_name n (json_string s)) = quoted s"
  by (simp add: json_string_def)

lemma text_of_number: "text_of other (set_name n (number_tree k)) = text_of other (number_tree k)"
  by (simp add: number_tree_def)

lemma length_claims:
  assumes "0 \<le> clock" "clock + 86400 < 2 ^ 31"
  shows "length (text_of other (claims_tree a clock t j)) \<le> 12 * length a + 6 * length t + 6 * length j + 300"
proof -
  have "length (text_of other (claims_tree a clock t j)) \<le> 2 * length (quoted a) + length (quoted t) + length (quoted j)
      + 2 * length (text_of other (number_tree clock)) + length (text_of other (number_tree (clock + 86400))) + 200"
    by (simp add: claims_tree_def object_of_def text_of_string text_of_number array_of_def)
      (simp add: json_string_def quoted_def escape_char_def)
  also have "... \<le> 12 * length a + 6 * length t + 6 * length j + 300"
    using length_quoted [of a] length_quoted [of t] length_quoted [of j] length_number_tree [of clock other]
      length_number_tree [of "clock + 86400" other] assms by simp
  finally show ?thesis .
qed

lemma guid_runs:
  assumes "calm_source rand" "reliable rand" "upcoming w = []"
  obtains s t w1 where "random_generate_guid rand w = Some (MCL_OK, Some s, w1)" "says s t" "guid_shape t"
    "blocks_of s = 2" "live w1 = live w + 2" "upcoming w1 = []"
proof -
  obtain a w2 where a: "memory_allocate (GUID_LENGTH + 1) w = (Some a, w2)" "upcoming w2 = []" "live w2 = live w + 1"
    using memory_allocate_unbounded [OF assms(3), of "GUID_LENGTH + 1"] assms(3) by (simp add: GUID_LENGTH_def)
  obtain r w3 where r: "rand 16 w2 = (r, w3)" by (cases "rand 16 w2")
  have r2: "upcoming w3 = []" "live w3 = live w2" "\<forall>bs. r = Some bs \<longrightarrow> length bs = 16" "r \<noteq> None"
    using assms(1) [unfolded calm_source_def fills_buffers_def] a(2) r reliable_source(1) [OF assms(2), of 16 w2]
    by (auto dest: spec [of _ 16] simp: case_prod_unfold) (metis (no_types, lifting) fst_conv snd_conv)+
  obtain bs where bs: "r = Some bs" "length bs = 16" using r2(3,4) by auto
  obtain t where t: "guid_shape t" "is_text t" "length t = 36" "random_generate_guid rand w =
        (case memory_allocate sizeof_string w3 of
          (None, w3) \<Rightarrow> Some (MCL_OUT_OF_MEMORY, None, memory_free w3)
        | (Some a, w3) \<Rightarrow> Some (MCL_OK, Some ((handle_of t)\<lparr>string_type := MCL_STRING_NOT_COPY_DESTROY\<rparr>), w3))"
    using random_generate_guid_runs [of w a w2 rand bs w3] a(1) r bs by blast
  show thesis
    by (rule that [of "(handle_of t)\<lparr>string_type := MCL_STRING_NOT_COPY_DESTROY\<rparr>" "w3\<lparr>live := live w3 + 1, fresh := fresh w3 + 1\<rparr>" t])
      (use t a(3) r2(1,2) in \<open>simp_all add: memory_allocate_unbounded sizeof_string_def says_def handle_of_def blocks_of_def\<close>)
qed

lemma string_destroy_calm:
  "upcoming w = [] \<Longrightarrow> calm w (- string_blocks s) (snd (string_destroy s w))"
  using calm_strings(4) [of s w "fst (string_destroy s w)" "snd (string_destroy s w)"] by (simp add: calm_def)

lemma json_destroy_calm: "upcoming w = [] \<Longrightarrow> calm w (- 1 - item_blocks c) (json_util_destroy (Some c) w)"
  by (simp add: calm_def json_util_destroy_def memory_free_def)

definition token_of :: "security_handler_t \<Rightarrow> E_MCL_SECURITY_PROFILE \<Rightarrow> int \<Rightarrow> cjson \<Rightarrow> cjson jwt_t" where
  "token_of handler profile clock claims = \<lparr>jwt_header = Some (header_tree profile), jwt_payload = Some claims,
    jwt_security_handler = handler, jwt_security_profile = profile, jwt_issued_at = clock\<rparr>"

lemma jwt_initialize_runs:
  assumes "upcoming w = []" "calm_source rand" "reliable rand" "client_id handler = Some agent" "says agent a" "says tenant0 t"
    and "0 \<le> clock" "clock + 86400 < 2 ^ 31"
  obtains j w1 where "guid_shape j" "is_text j"
    "jwt_initialize rand clock old handler profile (Some tenant0) w
      = Some (MCL_OK, Some (token_of handler profile clock (claims_tree a clock t j)), w1)"
    "calm w (3 + item_blocks (header_tree profile) + item_blocks (claims_tree a clock t j)) w1"
proof -
  obtain x w1 where 1: "memory_allocate sizeof_jwt w = (Some x, w1)" "calm w 1 w1" "upcoming w1 = []"
    using memory_allocate_unbounded [OF assms(1), of sizeof_jwt] assms(1) by (simp add: sizeof_jwt_def calm_def)
  obtain w2 where 2: "create_self_issued_jwt_header profile w1 = Some (MCL_OK, Some (header_tree profile), w2)"
      "calm w1 (1 + item_blocks (header_tree profile)) w2" "upcoming w2 = []"
    using 1(3) by (rule header_runs)
  obtain jti j w3 where 3: "random_generate_guid rand w2 = Some (MCL_OK, Some jti, w3)" "says jti j" "guid_shape j"
      "blocks_of jti = 2" "live w3 = live w2 + 2" "upcoming w3 = []"
    using assms(2,3) 2(3) by (rule guid_runs)
  obtain w4 where 4: "json_util_initialize JSON_OBJECT w3 = (MCL_OK, Some (new_item cJSON_Object), w4)"
      "calm w3 2 w4" "upcoming w4 = []"
    using initialize_calm [of w3 JSON_OBJECT cJSON_Object] 3(6) by blast
  note steps = claims_plain [OF assms(5,6) 3(2) assms(7,8), unfolded plain_steps_def]
  obtain w5 where 5: "run_steps [if_ok (\<lambda>t. add_text t [] ''iss'' (Some agent)), if_ok (\<lambda>t. add_text t [] ''sub'' (Some agent)),
     if_ok (\<lambda>t. json_util_add_string t [] (Some ''aud'') ''southgate''),
     if_ok (\<lambda>t. json_util_add_double t [] (Some ''iat'') (fl (of_int clock))),
     if_ok (\<lambda>t. json_util_add_double t [] (Some ''nbf'') (fl (of_int clock))),
     if_ok (\<lambda>t. json_util_add_double t [] (Some ''exp'') (fl (of_int (clock + 86400)))),
     if_ok add_schema_to_jwt, if_ok (\<lambda>t. add_text t [] ''ten'' (Some tenant0)),
     if_ok (\<lambda>t. add_text t [] ''jti'' (Some jti))] (MCL_OK, new_item cJSON_Object, w4) = Some (MCL_OK, claims_tree a clock t j, w5)"
      "calm w4 (item_blocks (claims_tree a clock t j) - item_blocks (new_item cJSON_Object)) w5" "upcoming w5 = []"
    using plainE [OF steps 4(3)] by blast
  have 6: "calm w5 (- string_blocks (Some jti)) (snd (string_destroy (Some jti) w5))" using 5(3) by (rule string_destroy_calm)
  show thesis
  proof (rule that [of j "snd (string_destroy (Some jti) w5)"])
    show "jwt_initialize rand clock old handler profile (Some tenant0) w = Some (MCL_OK,
        Some (token_of handler profile clock (claims_tree a clock t j)), snd (string_destroy (Some jti) w5))"
      using 1(1) 2(1) 3(1) 4(1) 5(1) assms(4)
      by (simp add: jwt_initialize_def create_self_issued_jwt_payload_def security_handler_generate_jti_def jwt_names
          JWT_EXPIRATION_TIME_def JWT_PAYLOAD_VALUE_AUD_def token_of_def Let_def)
    show "calm w (3 + item_blocks (header_tree profile) + item_blocks (claims_tree a clock t j)) (snd (string_destroy (Some jti) w5))"
      using 1(2) 2(2) 3(4,5) 4(2) 5(2) 6 by (simp add: calm_def string_blocks_def new_item_def text_blocks_def)
  qed (use 3(2,3) in \<open>auto simp: says_def\<close>)
qed

lemma part_runs:
  assumes "upcoming w = []" "canonical c" "length (text_of other c) < 2 ^ 64"
  obtains w1 where "part_string other (Some c) w = Some (MCL_OK, Some (json_handle (text_of other c)), w1)"
    "calm w 2 w1" "upcoming w1 = []"
proof -
  obtain w1 where 1: "json_util_to_string other c w = (MCL_OK, Some (cstring (text_of other c)), w1)"
      "calm w 1 w1" "upcoming w1 = []"
    using json_util_to_string_calm [OF assms(1), of other c] by blast
  have words: "is_text (text_of other c)" using assms(2) by (rule canonical_is_text)
  have a: "memory_allocate sizeof_string w1 = (Some (fresh w1), w1\<lparr>live := live w1 + 1, fresh := fresh w1 + 1\<rparr>)"
    using 1(3) by (simp add: memory_allocate_unbounded sizeof_string_def)
  have s: "string_initialize_dynamic (Some (cstring (text_of other c))) 0 w1
      = Some (MCL_OK, Some (json_handle (text_of other c)), w1\<lparr>live := live w1 + 1, fresh := fresh w1 + 1\<rparr>)"
    using words assms(3) a string_util_strlen_text [OF words, of "[]"]
    by (simp add: string_initialize_dynamic_def initialize_typed_def initialize_buffer_def cstring_def
        json_handle_def handle_of_def)
  show thesis
    by (rule that [of "w1\<lparr>live := live w1 + 1, fresh := fresh w1 + 1\<rparr>"])
      (use 1 s in \<open>simp_all add: part_string_def calm_def\<close>)
qed

lemma says_json_handle: "is_text s \<Longrightarrow> length s < 2 ^ 64 - 1 \<Longrightarrow> says (json_handle s) s"
  by (simp add: says_def json_handle_def handle_of_def)

lemma json_handle_blocks [simp]: "blocks_of (json_handle s) = 2" "string_blocks (Some (json_handle s)) = 2"
  by (simp_all add: json_handle_def handle_of_def blocks_of_def string_blocks_def)

lemma jwt_get_token_runs:
  assumes "upcoming w = []" "is_sha256 sha" "client_secret handler = Some key" "says key secret" "secret \<noteq> []"
    and "canonical claims" "length (text_of other claims) < 2 ^ 58"
  obtains s w1 where "jwt_get_token ssl sha other (token_of handler MCL_SECURITY_SHARED_SECRET clock claims) w = Some (Some s, w1)"
    "says s (token_text sha secret (text_of other (header_tree MCL_SECURITY_SHARED_SECRET)) (text_of other claims))"
    "blocks_of s = 2" "calm w 2 w1"
proof -
  let ?h = "text_of other (header_tree MCL_SECURITY_SHARED_SECRET)" and ?p = "text_of other claims"
  have short: "length ?h < 2 ^ 58" by (simp add: header_tree_def object_of_def json_string_def quoted_def escape_char_def)
  then have short64: "length ?h < 2 ^ 64" "length ?p < 2 ^ 64" using assms(7) by simp_all
  have words: "is_text ?h" "is_text ?p" using header_canonical assms(6) by (simp_all add: canonical_is_text)
  have parts: "says (json_handle ?h) ?h" "says (json_handle ?p) ?p"
    using words short assms(7) by (simp_all add: says_json_handle)
  obtain w1 where 1: "part_string other (Some (header_tree MCL_SECURITY_SHARED_SECRET)) w = Some (MCL_OK, Some (json_handle ?h), w1)"
      "calm w 2 w1" "upcoming w1 = []"
    using part_runs [OF assms(1) header_canonical short64(1)] by blast
  obtain w2 where 2: "part_string other (Some claims) w1 = Some (MCL_OK, Some (json_handle ?p), w2)"
      "calm w1 2 w2" "upcoming w2 = []"
    using part_runs [OF 1(3) assms(6) short64(2)] by blast
  let ?j = "token_of handler MCL_SECURITY_SHARED_SECRET clock claims"
  obtain s w3 where 3: "generate_token ssl sha ?j (json_handle ?h) (json_handle ?p) w2 = Some (MCL_OK, Some s, w3)"
      "says s (token_text sha secret ?h ?p)" "blocks_of s = 2" "upcoming w3 = []" "live w3 = live w2 + 2"
    using generate_token_computes [OF 2(3) assms(2) parts short assms(7), of ?j key secret ssl] assms(3-5)
    by (auto simp: token_of_def)
  have "calm w3 (- 2) (snd (string_destroy (Some (json_handle ?h)) w3))"
    using string_destroy_calm [OF 3(4), of "Some (json_handle ?h)"] by simp
  moreover from this have "calm (snd (string_destroy (Some (json_handle ?h)) w3)) (- 2)
      (snd (string_destroy (Some (json_handle ?p)) (snd (string_destroy (Some (json_handle ?h)) w3))))"
    using string_destroy_calm [of _ "Some (json_handle ?p)"] by (simp add: calm_def)
  ultimately have 4: "calm w 2 (snd (string_destroy (Some (json_handle ?p)) (snd (string_destroy (Some (json_handle ?h)) w3))))"
    using 1(2) 2(2) 3(5) by (simp add: calm_def)
  show thesis
    by (rule that [OF _ 3(2,3) 4]) (use 1(1) 2(1) 3(1) in \<open>simp add: jwt_get_token_def token_of_def\<close>)
qed

section \<open>The request that asks for a token\<close>

lemma static_runs:
  assumes "upcoming w = []" "is_text s" "length s < 2 ^ 64 - 1"
  obtains r w1 where "string_initialize_static (Some (cstring s)) 0 w = Some (MCL_OK, Some r, w1)" "says r s"
    "blocks_of r = 1" "calm w 1 w1" "upcoming w1 = []"
proof -
  have a: "memory_allocate sizeof_string w = (Some (fresh w), w\<lparr>live := live w + 1, fresh := fresh w + 1\<rparr>)"
    using assms(1) by (simp add: memory_allocate_unbounded sizeof_string_def)
  let ?r = "(handle_of s)\<lparr>string_type := MCL_STRING_NOT_COPY_NOT_DESTROY\<rparr>"
  have "string_initialize_static (Some (cstring s)) 0 w
      = Some (MCL_OK, Some ?r, w\<lparr>live := live w + 1, fresh := fresh w + 1\<rparr>)"
    using assms(2,3) a string_util_strlen_text [OF assms(2), of "[]"]
    by (simp add: string_initialize_static_def initialize_typed_def initialize_buffer_def cstring_def handle_of_def)
  then show thesis using that assms
    by (simp add: says_def handle_of_def blocks_of_def calm_def)
qed

lemma concatenate_runs:
  assumes "upcoming w = []" "says a s" "says b t" "length s + length t < 2 ^ 31" "s @ t \<noteq> []"
  obtains w1 where "string_concatenate a b w = Some (MCL_OK, Some (handle_of (s @ t)), w1)" "calm w 2 w1" "upcoming w1 = []"
proof -
  have "size_of_nat (length (s @ t)) + 1 \<noteq> (0 :: mcl_size_t)" using assms(4) by (intro succ_length_nonzero) simp
  then have "two_blocks (size_of_nat (length (s @ t))) w = (True, w\<lparr>live := live w + 2, fresh := fresh w + 2\<rparr>)"
    using assms(1) by (intro two_blocks_granted)
  then show thesis using that string_concatenate_text [OF assms(2-5), of w] assms(1) by (simp add: calm_def)
qed

text \<open>C14: with a shared secret and a working random source, the request for an access token is the form with one
  assertion: a token whose claims name the agent as issuer and subject, the tenant, a fresh identifier and a day of
  validity from the present second on, signed with the secret; nothing but that text stays allocated.\<close>

theorem compose_access_token_request_payload_correct:
  assumes "upcoming w = []" "calm_source rand" "reliable rand" "is_sha256 sha"
    and "client_id handler = Some agent" "says agent a" "says tenant0 t" "length a < 2 ^ 20" "length t < 2 ^ 20"
    and "client_secret handler = Some key" "says key secret" "secret \<noteq> []"
    and "0 \<le> clock" "clock + 86400 < 2 ^ 31"
  shows "\<exists>s j w1. compose_access_token_request_payload ssl sha other rand clock old handler MCL_SECURITY_SHARED_SECRET (Some tenant0) w
      = Some (MCL_OK, Some s, w1) \<and> guid_shape j
    \<and> says s (token_request_head @ token_text sha secret (text_of other (header_tree MCL_SECURITY_SHARED_SECRET))
        (text_of other (claims_tree a clock t j)))
    \<and> upcoming w1 = [] \<and> live w1 = live w + blocks_of s"
proof -
  obtain j w1 where 1: "guid_shape j" "is_text j"
    "jwt_initialize rand clock old handler MCL_SECURITY_SHARED_SECRET (Some tenant0) w
      = Some (MCL_OK, Some (token_of handler MCL_SECURITY_SHARED_SECRET clock (claims_tree a clock t j)), w1)"
    "calm w (3 + item_blocks (header_tree MCL_SECURITY_SHARED_SECRET) + item_blocks (claims_tree a clock t j)) w1"
    using jwt_initialize_runs [OF assms(1-3,5-7,13,14)] by blast
  let ?c = "claims_tree a clock t j" and ?h = "header_tree MCL_SECURITY_SHARED_SECRET"
  let ?text = "token_text sha secret (text_of other ?h) (text_of other ?c)"
  have up1: "upcoming w1 = []" using 1(4) by (simp add: calm_def)
  have words: "is_text a" "is_text t" using assms(6,7) by (simp_all add: says_def)
  have short: "length (text_of other ?c) < 2 ^ 25"
    using length_claims [OF assms(13,14), of other a t j] 1(1) assms(8,9) by (simp add: guid_shape_def)
  have canon: "canonical ?c" using words 1(2) assms(13,14) by (intro claims_canonical)
  have h: "length (text_of other ?h) < 100" by (simp add: header_tree_def object_of_def json_string_def quoted_def escape_char_def)
  have "length (hmac_text sha k d) = 32" for k d using assms(4) by (simp add: hmac_text_def is_sha256_def)
  then have small: "length ?text < 2 ^ 28" using short h by (simp add: token_text_def Let_def length_b64url)
  obtain s w2 where 2: "jwt_get_token ssl sha other (token_of handler MCL_SECURITY_SHARED_SECRET clock ?c) w1 = Some (Some s, w2)"
      "says s ?text" "blocks_of s = 2" "calm w1 2 w2"
    using jwt_get_token_runs [OF up1 assms(4,10-12) canon, of other ssl clock] short by auto
  let ?d = "snd (jwt_destroy (Some (token_of handler MCL_SECURITY_SHARED_SECRET clock ?c)) w2)"
  have 3: "calm w2 (- 3 - item_blocks ?h - item_blocks ?c) ?d"
    using 2(4) by (simp add: calm_def jwt_destroy_def token_of_def json_util_destroy_def memory_free_def)
  then have up3: "upcoming ?d = []" by (simp add: calm_def)
  have head: "is_text token_request_head" "length token_request_head < 200" "token_request_head \<noteq> []"
    by (simp_all add: token_request_head_def)
  obtain r w4 where 4: "string_initialize_static (Some (cstring token_request_head)) 0 ?d = Some (MCL_OK, Some r, w4)"
      "says r token_request_head" "blocks_of r = 1" "calm ?d 1 w4" "upcoming w4 = []"
    using static_runs [OF up3 head(1)] head(2) by auto
  obtain w5 where 5: "string_concatenate r s w4 = Some (MCL_OK, Some (handle_of (token_request_head @ ?text)), w5)"
      "calm w4 2 w5" "upcoming w5 = []"
    using concatenate_runs [OF 4(5,2) 2(2)] small head by auto
  let ?w6 = "snd (string_destroy (Some r) w5)"
  have 6: "calm w5 (- 1) ?w6" using string_destroy_calm [OF 5(3), of "Some r"] 4(3) by (simp add: string_blocks_def)
  then have 7: "calm ?w6 (- 2) (snd (string_destroy (Some s) ?w6))"
    using string_destroy_calm [of ?w6 "Some s"] 2(3) by (simp add: string_blocks_def calm_def)
  have says: "says (handle_of (token_request_head @ ?text)) (token_request_head @ ?text)"
    using small head 2(2) by (intro says_handle_of) (simp_all add: says_def)
  have run: "compose_access_token_request_payload ssl sha other rand clock old handler MCL_SECURITY_SHARED_SECRET (Some tenant0) w
      = Some (MCL_OK, Some (handle_of (token_request_head @ ?text)), snd (string_destroy (Some s) ?w6))"
    using 1(3) 2(1) 4(1) 5(1)
    by (cases "jwt_destroy (Some (token_of handler MCL_SECURITY_SHARED_SECRET clock ?c)) w2")
      (simp add: compose_access_token_request_payload_def)
  show ?thesis using run 1(1,4) 2(4) 3 4(4) 5(2) 6 7 says by (auto simp: calm_def)
qed

lemma compose_access_token_request_payload_correct_witness:
  "\<exists>s j w1. compose_access_token_request_payload no_ssl (\<lambda>d. replicate 32 (of_nat (length d))) (\<lambda>_. []) counting_source 1500000000 0
      (blank_handler\<lparr>client_id := Some (handle_of ''agent''), client_secret := Some (handle_of ''key'')\<rparr>)
      MCL_SECURITY_SHARED_SECRET (Some (handle_of ''tenant'')) quiet_world = Some (MCL_OK, Some s, w1) \<and> guid_shape j
    \<and> says s (token_request_head @ token_text (\<lambda>d. replicate 32 (of_nat (length d))) ''key''
        (text_of (\<lambda>_. []) (header_tree MCL_SECURITY_SHARED_SECRET)) (text_of (\<lambda>_. []) (claims_tree ''agent'' 1500000000 ''tenant'' j)))
    \<and> upcoming w1 = [] \<and> live w1 = live quiet_world + blocks_of s"
  by (rule compose_access_token_request_payload_correct [where agent = "handle_of ''agent''" and key = "handle_of ''key''"])
    (simp_all add: quiet_world_def is_sha256_def says_handle_of calm_source_def fills_buffers_def reliable_def counting_source_def)

end
