(* ===== verification/MCL_Keys.thy ===== *)
theory MCL_Keys
  imports MCL_Claims
begin

text \<open>
  RSA keys: of \<^verbatim>\<open>security_libcrypto.c\<close> the making of a key pair and the reading of its numbers, of
  \<^verbatim>\<open>security_handler.c\<close> the call that fills the handler, and of \<^verbatim>\<open>http_processor.c\<close> the payloads that announce a new key.
  The objects of OpenSSL are values of the types \<open>'bio\<close>, \<open>'rsa\<close> and \<open>'bn\<close>, its calls the fields of \<open>rsa_tools\<close>.
\<close>

section \<open>Keys\<close>

text \<open>The calls of OpenSSL that make a key pair, write it as text and read its numbers.  The first result of
  \<^verbatim>\<open>RSA_generate_key_ex\<close> and of the two that write says whether they succeeded.\<close>

record ('bio, 'rsa, 'bn) rsa_tools =
  RSA_new :: "world \<Rightarrow> 'rsa option \<times> world"
  BN_new :: "world \<Rightarrow> 'bn option \<times> world"
  BN_set_word :: "'bn \<Rightarrow> int \<Rightarrow> 'bn"
  RSA_generate_key_ex :: "'rsa \<Rightarrow> int \<Rightarrow> 'bn \<Rightarrow> world \<Rightarrow> bool \<times> 'rsa \<times> world"
  BN_free :: "'bn \<Rightarrow> world \<Rightarrow> world"
  BIO_new :: "world \<Rightarrow> 'bio option \<times> world"
  PEM_write_bio_RSAPrivateKey :: "'bio \<Rightarrow> 'rsa \<Rightarrow> world \<Rightarrow> bool \<times> 'bio \<times> world"
  PEM_write_bio_RSA_PUBKEY :: "'bio \<Rightarrow> 'rsa \<Rightarrow> world \<Rightarrow> bool \<times> 'bio \<times> world"
  BIO_pending :: "'bio \<Rightarrow> nat"
  BIO_read :: "'bio \<Rightarrow> nat \<Rightarrow> string"
  BIO_free_all :: "'bio \<Rightarrow> world \<Rightarrow> world"
  PEM_read_bio_RSA_PUBKEY :: "'bio \<Rightarrow> world \<Rightarrow> 'rsa option \<times> world"
  rsa_n :: "'rsa \<Rightarrow> 'bn"
  rsa_e :: "'rsa \<Rightarrow> 'bn"
  BN_num_bytes :: "'bn \<Rightarrow> nat"
  BN_bn2bin :: "'bn \<Rightarrow> bytes"

definition KEY_LENGTH_BITS :: int where "KEY_LENGTH_BITS = 3072"
definition RSA_F4 :: int where "RSA_F4 = 0x10001"

text \<open>A number as text: only the characters of the encoded string are kept.\<close>

definition base64_encode_big_number ::
    "('bio, 'rsa, 'bn) rsa_tools \<Rightarrow> 'bn \<Rightarrow> world \<Rightarrow> (E_MCL_ERROR_CODE \<times> char list option \<times> world) option" where
  "base64_encode_big_number tools big_number w =
    (case memory_allocate (size_of_nat (BN_num_bytes tools big_number)) w of
      (None, w1) \<Rightarrow> Some (MCL_OUT_OF_MEMORY, None, w1)
    | (Some a, w1) \<Rightarrow> do {
        binary \<leftarrow> write_at (map of_char (unwritten w (BN_num_bytes tools big_number))) 0 (BN_bn2bin tools big_number);
        (code, binary_encoded, w2) \<leftarrow> base64_url_encode binary (size_of_nat (length (BN_bn2bin tools big_number))) w1;
        encoded \<leftarrow> (if MCL_OK = code then do { s \<leftarrow> binary_encoded; Some (string_buffer s) } else Some None);
        Some (code, encoded, memory_free (release_block binary_encoded w2))
      })"

definition security_rsa_get_modulus_and_exponent ::
    "('bio, 'rsa) openssl \<Rightarrow> ('bio, 'rsa, 'bn) rsa_tools \<Rightarrow> char list option \<Rightarrow> world
      \<Rightarrow> (E_MCL_ERROR_CODE \<times> char list option \<times> char list option \<times> world) option" where
  "security_rsa_get_modulus_and_exponent ssl tools key w = do {
    k \<leftarrow> key;
    len \<leftarrow> string_util_strlen k;
    (case BIO_new_mem_buf ssl k len w of
      (None, w1) \<Rightarrow> Some (MCL_OUT_OF_MEMORY, None, None, w1)
    | (Some bio, w1) \<Rightarrow>
       (case PEM_read_bio_RSA_PUBKEY tools bio w1 of
         (None, w2) \<Rightarrow> Some (MCL_FAIL, None, None, BIO_free ssl bio w2)
       | (Some r, w2) \<Rightarrow> do {
           (code, modulus, w3) \<leftarrow> base64_encode_big_number tools (rsa_n tools r) w2;
           (code1, exponent, w4) \<leftarrow> (if MCL_OK = code then base64_encode_big_number tools (rsa_e tools r) w3
             else Some (code, None, w3));
           let (modulus1, exponent1, w5) = (if MCL_OK \<noteq> code1
             then (None, None, release_block exponent (release_block modulus w4)) else (modulus, exponent, w4));
           Some (code1, modulus1, exponent1, BIO_free ssl bio (RSA_free ssl r w5))
         }))
  }"

text \<open>The text of a key.  When it cannot be read back its buffer is freed, and the terminator is then written through
  the pointer that was cleared.\<close>

definition get_rsa_key ::
    "('bio, 'rsa, 'bn) rsa_tools \<Rightarrow> ('bio \<Rightarrow> 'rsa \<Rightarrow> world \<Rightarrow> bool \<times> 'bio \<times> world) \<Rightarrow> 'rsa \<Rightarrow> char list option \<Rightarrow> world
      \<Rightarrow> (E_MCL_ERROR_CODE \<times> char list option \<times> world) option" where
  "get_rsa_key tools write_key r old w =
    (case BIO_new tools w of
      (None, w1) \<Rightarrow> Some (MCL_OUT_OF_MEMORY, old, w1)
    | (Some bio, w1) \<Rightarrow>
       (case write_key bio r w1 of
         (False, bio1, w2) \<Rightarrow> Some (MCL_FAIL, old, BIO_free_all tools bio1 w2)
       | (True, bio1, w2) \<Rightarrow> (let key_length = BIO_pending tools bio1 in
          case memory_allocate (size_of_nat (key_length + 1)) w2 of
            (None, w3) \<Rightarrow> Some (MCL_OUT_OF_MEMORY, None, BIO_free_all tools bio1 w3)
          | (Some a, w3) \<Rightarrow> do {
              guard (length (BIO_read tools bio1 key_length) = key_length);
              key \<leftarrow> write_at (unwritten w2 (key_length + 1)) 0 (BIO_read tools bio1 key_length @ [NUL]);
              Some (MCL_OK, Some key, BIO_free_all tools bio1 w3)
            })))"

definition get_rsa_private_key ::
    "('bio, 'rsa, 'bn) rsa_tools \<Rightarrow> 'rsa \<Rightarrow> char list option \<Rightarrow> world \<Rightarrow> (E_MCL_ERROR_CODE \<times> char list option \<times> world) option" where
  "get_rsa_private_key tools r old w = get_rsa_key tools (PEM_write_bio_RSAPrivateKey tools) r old w"

definition get_rsa_public_key ::
    "('bio, 'rsa, 'bn) rsa_tools \<Rightarrow> 'rsa \<Rightarrow> char list option \<Rightarrow> world \<Rightarrow> (E_MCL_ERROR_CODE \<times> char list option \<times> world) option" where
  "get_rsa_public_key tools r old w = get_rsa_key tools (PEM_write_bio_RSA_PUBKEY tools) r old w"

text \<open>After a failure the arguments are freed, which are the places of the pointers in the handler and no blocks:
  that has no result.\<close>

definition security_generate_rsa_key ::
    "('bio, 'rsa) openssl \<Rightarrow> ('bio, 'rsa, 'bn) rsa_tools \<Rightarrow> char list option \<Rightarrow> char list option \<Rightarrow> world
      \<Rightarrow> (E_MCL_ERROR_CODE \<times> char list option \<times> char list option \<times> world) option" where
  "security_generate_rsa_key ssl tools public0 private0 w =
    (case RSA_new tools w of
      (None, w1) \<Rightarrow> Some (MCL_OUT_OF_MEMORY, public0, private0, w1)
    | (Some r, w1) \<Rightarrow>
       (case BN_new tools w1 of
         (None, w2) \<Rightarrow> Some (MCL_OUT_OF_MEMORY, public0, private0, RSA_free ssl r w2)
       | (Some exponent, w2) \<Rightarrow> do {
           let e = BN_set_word tools exponent RSA_F4;
           let (result, r1, w3) = RSA_generate_key_ex tools r KEY_LENGTH_BITS e w2;
           let w4 = BN_free tools e w3;
           (code, private1, w5) \<leftarrow> (if result then get_rsa_private_key tools r1 private0 w4 else Some (MCL_FAIL, private0, w4));
           (code1, public1, w6) \<leftarrow> (if MCL_OK = code then get_rsa_public_key tools r1 public0 w5 else Some (code, public0, w5));
           guard (MCL_OK = code1);
           Some (code1, public1, private1, RSA_free ssl r1 w6)
         }))"

definition security_handler_generate_rsa_key ::
    "('bio, 'rsa) openssl \<Rightarrow> ('bio, 'rsa, 'bn) rsa_tools \<Rightarrow> security_handler_t \<Rightarrow> world
      \<Rightarrow> (E_MCL_ERROR_CODE \<times> security_handler_t \<times> world) option" where
  "security_handler_generate_rsa_key ssl tools h w = do {
    (code, public1, private1, w1) \<leftarrow> security_generate_rsa_key ssl tools (public_key (rsa h)) (private_key (rsa h)) w;
    Some (code, h\<lparr>rsa := (rsa h)\<lparr>public_key := public1, private_key := private1\<rparr>\<rparr>, w1)
  }"

section \<open>The payloads that announce a key\<close>

definition add_key_to_keys_array ::
    "cjson \<Rightarrow> place \<Rightarrow> world \<Rightarrow> (E_MCL_ERROR_CODE \<times> cjson \<times> place option \<times> world) option" where
  "add_key_to_keys_array t p w =
    (case json_util_initialize JSON_OBJECT w of
      (code, None, w1) \<Rightarrow> Some (code, t, None, w1)
    | (code, Some object, w1) \<Rightarrow> do {
        array \<leftarrow> item_at t p;
        t1 \<leftarrow> json_util_add_item_to_array t p object;
        Some (code, t1, Some (p @ [length (cjson_child array)]), w1)
      })"

text \<open>The handles that have been started, the last one first; without one the root is meant.\<close>

type_synonym composing = "(cjson \<times> place list) step"

definition here :: "place list \<Rightarrow> place" where
  "here ps = (case ps of [] \<Rightarrow> [] | p # qs \<Rightarrow> p)"

definition start_in ::
    "(cjson \<Rightarrow> place \<Rightarrow> world \<Rightarrow> (E_MCL_ERROR_CODE \<times> cjson \<times> place option \<times> world) option) \<Rightarrow> composing" where
  "start_in f st = (case st of (code, (t, ps), w) \<Rightarrow>
    if MCL_OK \<noteq> code then Some st
    else do {
      (code1, t1, p, w1) \<leftarrow> f t (here ps) w;
      Some (code1, (t1, case p of None \<Rightarrow> ps | Some q \<Rightarrow> q # ps), w1)
    })"

definition add_in :: "string \<Rightarrow> char list option \<Rightarrow> composing" where
  "add_in name v st = (case st of (code, (t, ps), w) \<Rightarrow>
    if MCL_OK \<noteq> code then Some st
    else do {
      b \<leftarrow> v; s \<leftarrow> chars_of b;
      (code1, t1, w1) \<leftarrow> json_util_add_string t (here ps) (Some name) s w;
      Some (code1, (t1, ps), w1)
    })"

definition key_steps :: "char list option \<Rightarrow> char list option \<Rightarrow> composing list" where
  "key_steps modulus exponent =
    [start_in (\<lambda>t p. json_util_start_object t p ''jwks''), start_in (\<lambda>t p. json_util_start_array t p ''keys''),
     start_in add_key_to_keys_array, add_in ''e'' exponent, add_in ''n'' modulus,
     add_in ''kty'' (Some (cstring ''RSA'')), add_in ''kid'' (Some (cstring ''key-1''))]"

text \<open>What follows when the numbers are there: \<open>steps\<close> fill the object, its text becomes the payload, the handles are
  finished and the object is destroyed.\<close>

definition compose_key_json ::
    "(rat \<Rightarrow> string) \<Rightarrow> composing list \<Rightarrow> world \<Rightarrow> (E_MCL_ERROR_CODE \<times> string_t option \<times> world) option" where
  "compose_key_json other steps w =
    (case json_util_initialize JSON_OBJECT w of
      (code, None, w1) \<Rightarrow> Some (code, None, w1)
    | (code, Some t, w1) \<Rightarrow> do {
        (code1, (t1, ps), w2) \<leftarrow> run_steps steps (code, (t, []), w1);
        (code2, payload0, w3) \<leftarrow> (if MCL_OK \<noteq> code1 then Some (code1, None, w2)
          else case json_util_to_string other t1 w2 of
            (c, None, w3) \<Rightarrow> Some (c, None, w3)
          | (c, Some s, w3) \<Rightarrow> do {
              (c1, r, w4) \<leftarrow> string_initialize_dynamic (Some s) 0 w3;
              Some (c1, r, if MCL_OK \<noteq> c1 then memory_free w4 else w4)
            });
        Some (code2, payload0, json_util_destroy (Some t1) (fold (\<lambda>p. memory_free) ps w3))
      })"

definition compose_rsa_onboarding_json ::
    "('bio, 'rsa) openssl \<Rightarrow> ('bio, 'rsa, 'bn) rsa_tools \<Rightarrow> (rat \<Rightarrow> string) \<Rightarrow> security_handler_t \<Rightarrow> world
      \<Rightarrow> (E_MCL_ERROR_CODE \<times> string_t option \<times> world) option" where
  "compose_rsa_onboarding_json ssl tools other h w = do {
    (code, modulus, public_exponent, w1) \<leftarrow> security_rsa_get_modulus_and_exponent ssl tools (public_key (rsa h)) w;
    (code1, payload0, w2) \<leftarrow> (if MCL_OK \<noteq> code then Some (code, None, w1)
      else compose_key_json other (key_steps modulus public_exponent) w1);
    Some (code1, payload0, release_block public_exponent (release_block modulus w2))
  }"

text \<open>For a rotation the old keys are given up first.\<close>

definition compose_rsa_key_rotation_json ::
    "('bio, 'rsa) openssl \<Rightarrow> ('bio, 'rsa, 'bn) rsa_tools \<Rightarrow> (rat \<Rightarrow> string) \<Rightarrow> security_handler_t \<Rightarrow> world
      \<Rightarrow> (E_MCL_ERROR_CODE \<times> string_t option \<times> security_handler_t \<times> world) option" where
  "compose_rsa_key_rotation_json ssl tools other h w = do {
    let w1 = release_block (private_key (rsa h)) (release_block (public_key (rsa h)) w);
    (code, h1, w2) \<leftarrow> security_handler_generate_rsa_key ssl tools
      (h\<lparr>rsa := (rsa h)\<lparr>public_key := None, private_key := None\<rparr>\<rparr>) w1;
    (code1, modulus, public_exponent, w3) \<leftarrow> (if MCL_OK \<noteq> code then Some (code, None, None, w2)
      else security_rsa_get_modulus_and_exponent ssl tools (public_key (rsa h1)) w2);
    (code2, payload0, w4) \<leftarrow> (if MCL_OK \<noteq> code1 then Some (code1, None, w3)
      else compose_key_json other (add_in ''client_id'' (buffer_of (client_id h1)) # key_steps modulus public_exponent) w3);
    Some (code2, payload0, h1, release_block public_exponent (release_block modulus w4))
  }"

end
