(* ===== verification/MCL_Registration.thy ===== *)
theory MCL_Registration
  imports MCL_Keys
begin

text \<open>
  Registration: of \<^verbatim>\<open>http_processor.c\<close> \<open>http_processor_register\<close>, the processing of the answers of the server and the
  saving of what they hold.  A registration is the four strings of the security handler that \<open>registration_strings\<close>
  gives; the first group of lemmas shows that an answer replaces them as a whole, the second that a registration the server
  grants is what the next start of the library loads.
\<close>

section \<open>What the processor works with\<close>

text \<open>The functions an application may give to load and to save its registration; each of the two places is a union.
  \<open>platform\<close> holds what is not part of the library: OpenSSL, libcurl, the clock, the printing of numbers that are not
  whole and the powers of ten of the C library.\<close>

datatype load_function =
    Load_Shared_Secret "world \<Rightarrow> E_MCL_ERROR_CODE \<times> (char list option \<times> char list option \<times> char list option \<times> char list option) \<times> world"
  | Load_Rsa "world \<Rightarrow> E_MCL_ERROR_CODE \<times> (char list option \<times> char list option \<times> char list option \<times> char list option \<times> char list option) \<times> world"

datatype save_function =
    Save_Shared_Secret "char list option \<Rightarrow> char list option \<Rightarrow> char list option \<Rightarrow> char list option \<Rightarrow> world \<Rightarrow> E_MCL_ERROR_CODE \<times> world"
  | Save_Rsa "char list option \<Rightarrow> char list option \<Rightarrow> char list option \<Rightarrow> char list option \<Rightarrow> char list option \<Rightarrow> world
      \<Rightarrow> E_MCL_ERROR_CODE \<times> world"

record ('bio, 'rsa, 'bn) platform =
  ssl :: "('bio, 'rsa) openssl"
  tools :: "('bio, 'rsa, 'bn) rsa_tools"
  sha256 :: "bytes \<Rightarrow> bytes"
  random_bytes :: random_source
  seconds :: "world \<Rightarrow> int"
  other_number :: "rat \<Rightarrow> string"
  power_of_ten :: "int \<Rightarrow> rat"
  client_initialize :: "world \<Rightarrow> E_MCL_ERROR_CODE \<times> world"
  client :: http_client
  client_destroy :: "world \<Rightarrow> world"
  load_callback :: "load_function option"
  save_callback :: "save_function option"
  enter_critical_section :: "(world \<Rightarrow> E_MCL_ERROR_CODE \<times> world) option"
  leave_critical_section :: "(world \<Rightarrow> world) option"

definition callbacks_are_used :: "('bio, 'rsa, 'bn) platform \<Rightarrow> bool" where
  "callbacks_are_used e \<longleftrightarrow> load_callback e \<noteq> None \<and> save_callback e \<noteq> None"

definition call_load_shared_secret where
  "call_load_shared_secret e w = (case load_callback e of Some (Load_Shared_Secret f) \<Rightarrow> Some (f w) | _ \<Rightarrow> None)"

definition call_load_rsa where
  "call_load_rsa e w = (case load_callback e of Some (Load_Rsa f) \<Rightarrow> Some (f w) | _ \<Rightarrow> None)"

section \<open>The answer to a registration\<close>

text \<open>The payload of an answer is parsed; the parser of cJSON fails on one that is not there.\<close>

definition parse_payload ::
    "(int \<Rightarrow> rat) \<Rightarrow> char list option \<Rightarrow> world \<Rightarrow> (E_MCL_ERROR_CODE \<times> cjson option \<times> world) option" where
  "parse_payload pow10 payload0 w = (case payload0 of
      Some s \<Rightarrow> json_util_parse pow10 s w
    | None \<Rightarrow> (case memory_allocate sizeof_json w of
          (None, w1) \<Rightarrow> Some (MCL_OUT_OF_MEMORY, None, w1)
        | (Some a, w1) \<Rightarrow> (case cJSON_New_Item w1 of
              (None, w2) \<Rightarrow> Some (MCL_FAIL, None, memory_free w2)
            | (Some b, w2) \<Rightarrow> Some (MCL_FAIL, None, memory_free (memory_free w2)))))"

text \<open>The members are looked up one after the other, the rest is left when one is missing.\<close>

fun look_up :: "cjson \<Rightarrow> string list \<Rightarrow> world \<Rightarrow> (E_MCL_ERROR_CODE \<times> place list \<times> world) option" where
  "look_up t [] w = Some (MCL_OK, [], w)"
| "look_up t (n # ns) w = do {
    (code, p, w1) \<leftarrow> json_util_get_object_item t [] n w;
    (case p of
      None \<Rightarrow> Some (code, [], w1)
    | Some q \<Rightarrow> do { (code1, ps, w2) \<leftarrow> look_up t ns w1; Some (code1, q # ps, w2) })
  }"

fun read_texts :: "cjson \<Rightarrow> place list \<Rightarrow> world \<Rightarrow> (E_MCL_ERROR_CODE \<times> string_t option list \<times> world) option" where
  "read_texts t [] w = Some (MCL_OK, [], w)"
| "read_texts t (p # ps) w = do {
    (code, s, w1) \<leftarrow> json_util_get_string t p w;
    if MCL_OK \<noteq> code then Some (code, s # map (\<lambda>_. None) ps, w1)
    else do { (code1, ss, w2) \<leftarrow> read_texts t ps w1; Some (code1, s # ss, w2) }
  }"

definition free_handles :: "'a list \<Rightarrow> world \<Rightarrow> world" where
  "free_handles ps w = fold (\<lambda>p. memory_free) ps w"

text \<open>The texts \<open>old\<close> of the handler are replaced by the members \<open>names\<close> of the payload, or lost when one of these cannot
  be copied; the result says what the handler holds then.\<close>

definition replace_by_response ::
    "(int \<Rightarrow> rat) \<Rightarrow> string list \<Rightarrow> string_t option list \<Rightarrow> http_response_t \<Rightarrow> world
      \<Rightarrow> (E_MCL_ERROR_CODE \<times> string_t option list \<times> world) option" where
  "replace_by_response pow10 names old response w = do {
    (code, json_root, w1) \<leftarrow> parse_payload pow10 (http_response_get_payload response) w;
    if MCL_OK \<noteq> code then Some (code, old, w1)
    else do {
      t \<leftarrow> json_root;
      (code1, ps, w2) \<leftarrow> look_up t names w1;
      (code2, texts, w3) \<leftarrow> (if MCL_OK \<noteq> code1 then Some (code1, old, w2)
        else do {
          (code2, texts, w3) \<leftarrow> read_texts t ps (destroy_strings old w2);
          Some (if MCL_OK \<noteq> code2 then (code2, map (\<lambda>_. None) old, destroy_strings texts w3) else (code2, texts, w3))
        });
      Some (code2, texts, json_util_destroy json_root (free_handles ps w3))
    }
  }"

definition process_registration_response_shared_secret ::
    "(int \<Rightarrow> rat) \<Rightarrow> security_handler_t \<Rightarrow> http_response_t \<Rightarrow> world \<Rightarrow> (E_MCL_ERROR_CODE \<times> security_handler_t \<times> world) option" where
  "process_registration_response_shared_secret pow10 h response w = do {
    (code, texts, w1) \<leftarrow> replace_by_response pow10
      [''client_id'', ''client_secret'', ''registration_access_token'', ''registration_client_uri'']
      [client_id h, client_secret h, registration_access_token h, registration_client_uri h] response w;
    Some (code, h\<lparr>client_id := texts ! 0, client_secret := texts ! 1, registration_access_token := texts ! 2,
      registration_client_uri := texts ! 3\<rparr>, w1)
  }"

definition process_registration_response_rsa_3072 ::
    "(int \<Rightarrow> rat) \<Rightarrow> security_handler_t \<Rightarrow> http_response_t \<Rightarrow> world \<Rightarrow> (E_MCL_ERROR_CODE \<times> security_handler_t \<times> world) option" where
  "process_registration_response_rsa_3072 pow10 h response w = do {
    (code, texts, w1) \<leftarrow> replace_by_response pow10
      [''client_id'', ''registration_access_token'', ''registration_client_uri'']
      [client_id h, registration_access_token h, registration_client_uri h] response w;
    Some (code, h\<lparr>client_id := texts ! 0, registration_access_token := texts ! 1, registration_client_uri := texts ! 2\<rparr>, w1)
  }"

section \<open>Keeping the registration\<close>

definition save_registration_information ::
    "('bio, 'rsa, 'bn) platform \<Rightarrow> http_processor_t \<Rightarrow> file_system \<Rightarrow> world
      \<Rightarrow> (E_MCL_ERROR_CODE \<times> file_system \<times> world) option" where
  "save_registration_information e p fs w = (let c = processor_configuration p; h = processor_security_handler p in
    if callbacks_are_used e then
      (if MCL_SECURITY_SHARED_SECRET = security_profile c then do {
         agent \<leftarrow> client_id h; secret \<leftarrow> client_secret h; token \<leftarrow> registration_access_token h; u \<leftarrow> registration_client_uri h;
         (case save_callback e of
           Some (Save_Shared_Secret f) \<Rightarrow>
             (let (code, w1) = f (string_buffer agent) (string_buffer secret) (string_buffer token) (string_buffer u) w
              in Some (code, fs, w1))
         | _ \<Rightarrow> None)
       }
       else do {
         agent \<leftarrow> client_id h; token \<leftarrow> registration_access_token h; u \<leftarrow> registration_client_uri h;
         (case save_callback e of
           Some (Save_Rsa f) \<Rightarrow>
             (let (code, w1) = f (string_buffer agent) (public_key (rsa h)) (private_key (rsa h)) (string_buffer token) (string_buffer u) w
              in Some (code, fs, w1))
         | _ \<Rightarrow> None)
       })
    else if store_path c \<noteq> None then
      (if MCL_SECURITY_SHARED_SECRET = security_profile c then do {
         (code, fs1) \<leftarrow> storage_save_shared_secret_registration_information (store_path c) (client_id h) (client_secret h)
           (registration_access_token h) (registration_client_uri h) fs;
         Some (code, fs1, w)
       }
       else do {
         (code, fs1) \<leftarrow> storage_save_rsa_registration_information (store_path c) (client_id h) (public_key (rsa h))
           (private_key (rsa h)) (registration_access_token h) (registration_client_uri h) fs;
         Some (code, fs1, w)
       })
    else Some (MCL_OK, fs, w))"

definition check_file_path :: "string_t option \<Rightarrow> file_system \<Rightarrow> (E_MCL_ERROR_CODE \<times> file_system) option" where
  "check_file_path path fs = do {
    name0 \<leftarrow> buffer_of path;
    (code, f, fs1) \<leftarrow> file_util_open name0 Appending fs;
    Some (code, if MCL_OK = code then snd (file_util_fclose f fs1) else fs1)
  }"

text \<open>The texts of the application become strings; whether that succeeds is not looked at.\<close>

definition take_text :: "char list option \<Rightarrow> world \<Rightarrow> (string_t option \<times> world) option" where
  "take_text v w = do { (code, s, w1) \<leftarrow> string_initialize_dynamic v 0 w; Some (s, w1) }"

definition custom_load_register_info ::
    "('bio, 'rsa, 'bn) platform \<Rightarrow> E_MCL_SECURITY_PROFILE \<Rightarrow> security_handler_t \<Rightarrow> world
      \<Rightarrow> (E_MCL_ERROR_CODE \<times> security_handler_t \<times> world) option" where
  "custom_load_register_info e profile h w = do {
    (code, agent, token, u, h1, w1) \<leftarrow>
      (if MCL_SECURITY_SHARED_SECRET = profile then do {
         (code, (agent, secret, token, u), w1) \<leftarrow> call_load_shared_secret e w;
         if MCL_OK = code then do {
           (s, w2) \<leftarrow> take_text secret w1;
           Some (code, agent, token, u, h\<lparr>client_secret := s\<rparr>, w2)
         }
         else Some (code, agent, token, u, h, w1)
       }
       else do {
         (code, (agent, public1, private1, token, u), w1) \<leftarrow> call_load_rsa e w;
         Some (code, agent, token, u, h\<lparr>rsa := (rsa h)\<lparr>public_key := public1, private_key := private1\<rparr>\<rparr>, w1)
       });
    if MCL_OK = code then do {
      (s1, w2) \<leftarrow> take_text agent w1;
      (s2, w3) \<leftarrow> take_text token w2;
      (s3, w4) \<leftarrow> take_text u w3;
      Some (code, h1\<lparr>client_id := s1, registration_access_token := s2, registration_client_uri := s3\<rparr>, w4)
    }
    else Some (code, h1, w1)
  }"

section \<open>Registering\<close>

text \<open>\<^verbatim>\<open>"Bearer %s"\<close>.\<close>

definition bearer_string :: "string_t option \<Rightarrow> world \<Rightarrow> (E_MCL_ERROR_CODE \<times> string_t option \<times> world) option" where
  "bearer_string token w = do {
    t \<leftarrow> token;
    (code, r, w1) \<leftarrow> string_initialize_new None (7 + string_length t) w;
    if MCL_OK \<noteq> code then Some (code, r, w1)
    else do {
      s \<leftarrow> r; b \<leftarrow> string_buffer s;
      v \<leftarrow> buffer_of token; x \<leftarrow> chars_of v;
      (code1, b1) \<leftarrow> string_util_snprintf b (string_length s + 1) (''Bearer '' @ x);
      Some (code1, Some (s\<lparr>string_buffer := Some b1\<rparr>), w1)
    }
  }"

definition client_id_payload :: "string_t option \<Rightarrow> world \<Rightarrow> (E_MCL_ERROR_CODE \<times> string_t option \<times> world) option" where
  "client_id_payload agent w = do {
    a \<leftarrow> agent;
    (code, r, w1) \<leftarrow> string_initialize_new None (16 + string_length a) w;
    if MCL_OK \<noteq> code then Some (code, r, w1)
    else do {
      s \<leftarrow> r; b \<leftarrow> string_buffer s;
      v \<leftarrow> buffer_of agent; x \<leftarrow> chars_of v;
      (code1, b1) \<leftarrow> string_util_snprintf b (string_length s + 1) (''{\"client_id\":\"'' @ x @ ''\"}'');
      Some (code1, Some (s\<lparr>string_buffer := Some b1\<rparr>), w1)
    }
  }"

text \<open>The payload, the handler (which a key rotation gives new keys), the method, the address and the authorization.
  Without the memory for the latter the payload is destroyed.\<close>

definition prepare_registration ::
    "('bio, 'rsa, 'bn) platform \<Rightarrow> configuration_t \<Rightarrow> security_handler_t \<Rightarrow> world
      \<Rightarrow> (E_MCL_ERROR_CODE \<times> string_t option \<times> security_handler_t \<times> E_MCL_HTTP_METHOD \<times> string_t option \<times> string_t option \<times> world) option" where
  "prepare_registration e c h w = do {
    (result, payload0, h1, w1) \<leftarrow>
      (if registration_access_token h = None then
         (if MCL_SECURITY_SHARED_SECRET = security_profile c then do {
            (code, s, w1) \<leftarrow> string_initialize_new (Some (cstring ''{}'')) 2 w;
            Some (code, s, h, w1)
          }
          else do {
            (code, s, w1) \<leftarrow> compose_rsa_onboarding_json (ssl e) (tools e) (other_number e) h w;
            Some (code, s, h, w1)
          })
       else
         (if MCL_SECURITY_SHARED_SECRET = security_profile c then do {
            (code, s, w1) \<leftarrow> client_id_payload (client_id h) w;
            Some (code, s, h, w1)
          }
          else compose_rsa_key_rotation_json (ssl e) (tools e) (other_number e) h w));
    let http_method0 = (if registration_access_token h = None then MCL_HTTP_POST else MCL_HTTP_PUT);
    if MCL_OK \<noteq> result then Some (result, None, h1, http_method0, None, None, snd (string_destroy payload0 w1))
    else do {
      (code, access_token0, w2) \<leftarrow> bearer_string
        (if registration_access_token h = None then initial_access_token c else registration_access_token h) w1;
      Some (code, payload0, h1, http_method0,
        if registration_access_token h = None then registration_endpoint c else registration_client_uri h, access_token0, w2)
    }
  }"

definition in_payload :: "string_t \<Rightarrow> http_request_t \<Rightarrow> http_request_t option" where
  "in_payload s r = do {
    p \<leftarrow> payload r; b \<leftarrow> string_buffer s;
    p1 \<leftarrow> string_util_memcpy p 0 b (string_length s);
    Some (r\<lparr>payload := Some p1\<rparr>)
  }"

definition header_step :: "E_HTTP_HEADER_NAMES \<Rightarrow> string_t \<Rightarrow> http_request_t step" where
  "header_step name1 value1 st = (case st of (code, r, w) \<Rightarrow>
    if MCL_OK \<noteq> code then Some st else http_request_add_header r (http_header_name name1) value1 w)"

text \<open>A correlation identifier is made and added, when all went well before.\<close>

definition add_correlation_id ::
    "random_source \<Rightarrow> E_MCL_ERROR_CODE \<times> http_request_t \<times> world
      \<Rightarrow> (E_MCL_ERROR_CODE \<times> string_t option \<times> http_request_t \<times> world) option" where
  "add_correlation_id rand st = (case st of (code, r, w) \<Rightarrow>
    if MCL_OK \<noteq> code then Some (code, None, r, w)
    else do {
      (code1, correlation_id, w1) \<leftarrow> generate_correlation_id_string rand w;
      if MCL_OK \<noteq> code1 then Some (code1, correlation_id, r, w1)
      else do {
        s \<leftarrow> correlation_id;
        (code2, r1, w2) \<leftarrow> http_request_add_header r (http_header_name HTTP_HEADER_CORRELATION_ID) s w1;
        Some (code2, correlation_id, r1, w2)
      }
    })"

text \<open>The code that the answer is taken for: an onboarding must have created something.\<close>

definition registration_result :: "bool \<Rightarrow> E_MCL_ERROR_CODE \<Rightarrow> E_MCL_ERROR_CODE" where
  "registration_result onboarding server_response =
    (if onboarding then
       (if MCL_CREATED = server_response then MCL_OK
        else if MCL_OK = server_response then MCL_UNEXPECTED_RESULT_CODE else server_response)
     else server_response)"

definition accept_registration ::
    "('bio, 'rsa, 'bn) platform \<Rightarrow> http_processor_t \<Rightarrow> http_response_t \<Rightarrow> file_system \<Rightarrow> world
      \<Rightarrow> (E_MCL_ERROR_CODE \<times> http_processor_t \<times> file_system \<times> world) option" where
  "accept_registration e p response fs w = (let h = processor_security_handler p in
    do {
      let result = registration_result (registration_access_token h = None) (evaluate_response_codes response);
      if MCL_OK \<noteq> result then Some (result, p, fs, w)
      else do {
        (code, h1, w1) \<leftarrow>
          (if MCL_SECURITY_SHARED_SECRET = security_profile (processor_configuration p)
           then process_registration_response_shared_secret (power_of_ten e) h response w
           else process_registration_response_rsa_3072 (power_of_ten e) h response w);
        let p1 = p\<lparr>processor_security_handler := h1\<rparr>;
        if MCL_OK \<noteq> code then Some (code, p1, fs, w1)
        else do {
          (code1, fs1, w2) \<leftarrow> save_registration_information e p1 fs w1;
          Some (code1, p1, fs1, w2)
        }
      }
    })"

definition http_processor_register ::
    "('bio, 'rsa, 'bn) platform \<Rightarrow> http_processor_t \<Rightarrow> file_system \<Rightarrow> world
      \<Rightarrow> (E_MCL_ERROR_CODE \<times> http_processor_t \<times> file_system \<times> world) option" where
  "http_processor_register e p fs w = (let c = processor_configuration p in do {
    (code, payload0, h, http_method0, u, access_token0, w1) \<leftarrow> prepare_registration e c (processor_security_handler p) w;
    let p1 = p\<lparr>processor_security_handler := h\<rparr>;
    if payload0 = None \<or> access_token0 = None then Some (code, p1, fs, snd (string_destroy payload0 w1))
    else do {
      data \<leftarrow> payload0;
      authorization \<leftarrow> access_token0;
      (code1, request, w2) \<leftarrow> (if MCL_OK \<noteq> code then Some (code, None, w1)
        else do {
          u1 \<leftarrow> u; agent \<leftarrow> user_agent c;
          http_request_initialize (random_bytes e) http_method0 u1 6 (string_length data) True agent (max_payload_size c) w1
        });
      if MCL_OK \<noteq> code1 then do {
        let w3 = snd (string_destroy access_token0 (snd (string_destroy payload0 w2)));
        (gone, w4) \<leftarrow> http_request_destroy request w3;
        Some (code1, p1, fs, w4)
      }
      else do {
        r \<leftarrow> request;
        r1 \<leftarrow> in_payload data r;
        st \<leftarrow> run_steps
          [header_step HTTP_HEADER_CONTENT_TYPE (content_type_value CONTENT_TYPE_APPLICATION_JSON),
           header_step HTTP_HEADER_ACCEPT (content_type_value CONTENT_TYPE_APPLICATION_JSON),
           header_step HTTP_HEADER_AUTHORIZATION authorization] (MCL_OK, r1, w2);
        (code2, correlation_id, r2, w3) \<leftarrow> add_correlation_id (random_bytes e) st;
        (result, p2, fs1, response, w4) \<leftarrow> (if MCL_OK \<noteq> code2 then Some (code2, p1, fs, None, w3)
          else (case client e r2 w3 of
            (sent, response, w4) \<Rightarrow>
              if MCL_OK \<noteq> sent then Some (sent, p1, fs, response, w4)
              else do {
                answer \<leftarrow> response;
                (code3, p2, fs1, w5) \<leftarrow> accept_registration e p1 answer fs w4;
                Some (code3, p2, fs1, response, w5)
              }));
        let w5 = snd (string_destroy access_token0 (snd (string_destroy payload0 (snd (string_destroy correlation_id w4)))));
        (gone, w6) \<leftarrow> http_request_destroy (Some r2) w5;
        (gone1, w7) \<leftarrow> http_response_destroy response w6;
        Some (result, p2, fs1, w7)
      }
    }
  })"

section \<open>A registration is replaced as a whole\<close>

abbreviation blocks_of_all :: "string_t option list \<Rightarrow> int" where
  "blocks_of_all ss \<equiv> (\<Sum>s\<leftarrow>ss. string_blocks s)"

lemma blocks_of_all_None [simp]:
  "blocks_of_all (map (\<lambda>_. None) xs) = 0" "sum_list (map (string_blocks \<circ> (\<lambda>_. None)) xs) = 0"
  by (induction xs) simp_all

lemma live_free_handles [simp]: "live (free_handles ps w) = live w - int (length ps)"
  unfolding free_handles_def by (induction ps arbitrary: w) simp_all

lemma get_object_item_live:
  assumes "json_util_get_object_item t p n w = Some (code, q, w')"
  shows "live w' = live w + (if q = None then 0 else 1)" "code = MCL_OK \<longleftrightarrow> q \<noteq> None"
proof -
  obtain a w1 where a: "memory_allocate sizeof_json w = (a, w1)" by fastforce
  then show "live w' = live w + (if q = None then 0 else 1)" "code = MCL_OK \<longleftrightarrow> q \<noteq> None"
    using assms by (cases a; auto simp: json_util_get_object_item_def bind_eq_Some_conv dest!: allocation_dests
        split: option.splits)+
qed

lemma initialize_new_given:
  "string_initialize_new v n w = Some (code, s, w') \<Longrightarrow> code = MCL_OK \<Longrightarrow> s \<noteq> None"
  by (auto simp: string_initialize_new_def initialize_typed_def bind_eq_Some_conv split: prod.splits option.splits if_splits)

lemma get_string_live:
  assumes "json_util_get_string t p w = Some (code, s, w')"
  shows "live w' = live w + string_blocks s" "code = MCL_OK \<Longrightarrow> s \<noteq> None"
  using assms string_initialize_new_blocks initialize_new_given
  by (auto simp: json_util_get_string_def bind_eq_Some_conv split: if_splits)

lemma look_up_live:
  "look_up t ns w = Some (code, ps, w') \<Longrightarrow>
    live w' = live w + int (length ps) \<and> (code = MCL_OK \<longrightarrow> length ps = length ns)"
proof (induction ns arbitrary: code ps w w')
  case (Cons n ns)
  obtain c q w1 where q: "json_util_get_object_item t [] n w = Some (c, q, w1)"
    using Cons.prems by (auto simp: bind_eq_Some_conv)
  note live = get_object_item_live [OF q]
  show ?case
  proof (cases q)
    case (Some x)
    then obtain c1 qs where "look_up t ns w1 = Some (c1, qs, w')" "code = c1" "ps = x # qs"
      using Cons.prems q by (auto simp: bind_eq_Some_conv)
    then show ?thesis using Cons.IH live Some by fastforce
  qed (use Cons.prems q live in auto)
qed simp

lemma read_texts_live:
  "read_texts t ps w = Some (code, ss, w') \<Longrightarrow>
    live w' = live w + blocks_of_all ss \<and> length ss = length ps \<and> (code = MCL_OK \<longrightarrow> None \<notin> set ss)"
proof (induction ps arbitrary: code ss w w')
  case (Cons p ps)
  obtain c s w1 where s: "json_util_get_string t p w = Some (c, s, w1)"
    using Cons.prems by (auto simp: bind_eq_Some_conv)
  note live = get_string_live [OF s]
  show ?case
  proof (cases "c = MCL_OK")
    case True
    then obtain c1 ss1 where "read_texts t ps w1 = Some (c1, ss1, w')" "code = c1" "ss = s # ss1"
      using Cons.prems s by (auto simp: bind_eq_Some_conv)
    then show ?thesis using Cons.IH live True by fastforce
  qed (use Cons.prems s live in auto)
qed simp

lemma json_util_parse_live:
  assumes "json_util_parse pow10 s w = Some (code, c, w')"
  shows "live w' = live w + (case c of None \<Rightarrow> 0 | Some x \<Rightarrow> 1 + item_blocks x)" "code = MCL_OK \<longleftrightarrow> c \<noteq> None"
proof -
  obtain a w1 where a: "memory_allocate sizeof_json w = (a, w1)" by fastforce
  show "live w' = live w + (case c of None \<Rightarrow> 0 | Some x \<Rightarrow> 1 + item_blocks x)" "code = MCL_OK \<longleftrightarrow> c \<noteq> None"
    using assms a by (cases a; auto simp: json_util_parse_def bind_eq_Some_conv dest!: allocation_dests cJSON_Parse_blocks split: if_splits option.splits)+
qed

lemma parse_payload_live:
  assumes "parse_payload pow10 payload0 w = Some (code, c, w')"
  shows "live w' = live w + (case c of None \<Rightarrow> 0 | Some x \<Rightarrow> 1 + item_blocks x)" "code = MCL_OK \<longleftrightarrow> c \<noteq> None"
proof -
  have "live w' = live w + (case c of None \<Rightarrow> 0 | Some x \<Rightarrow> 1 + item_blocks x) \<and> (code = MCL_OK \<longleftrightarrow> c \<noteq> None)"
  proof (cases payload0)
    case None
    then show ?thesis using assms
      by (auto simp: parse_payload_def cJSON_New_Item_def memory_malloc_def dest!: allocation_dests
          split: prod.splits option.splits if_splits)
  next
    case (Some s)
    then show ?thesis using assms json_util_parse_live by (auto simp: parse_payload_def)
  qed
  then show "live w' = live w + (case c of None \<Rightarrow> 0 | Some x \<Rightarrow> 1 + item_blocks x)" "code = MCL_OK \<longleftrightarrow> c \<noteq> None" by simp_all
qed

lemma replace_by_response_keeps:
  assumes "replace_by_response pow10 names old response w = Some (code, texts, w')" "length names = length old"
  shows "live w' - blocks_of_all texts = live w - blocks_of_all old" "length texts = length old"
    "code = MCL_OK \<Longrightarrow> None \<notin> set texts" "code \<noteq> MCL_OK \<Longrightarrow> texts = old \<or> texts = map (\<lambda>_. None) old"
proof -
  obtain c root0 w1 where parse: "parse_payload pow10 (http_response_get_payload response) w = Some (c, root0, w1)"
    using assms(1) by (auto simp: replace_by_response_def bind_eq_Some_conv)
  note live1 = parse_payload_live [OF parse]
  have "live w' - blocks_of_all texts = live w - blocks_of_all old \<and> length texts = length old
    \<and> (code = MCL_OK \<longrightarrow> None \<notin> set texts) \<and> (code \<noteq> MCL_OK \<longrightarrow> texts = old \<or> texts = map (\<lambda>_. None) old)"
  proof (cases "c = MCL_OK")
    case False
    then show ?thesis using assms parse live1 by (auto simp: replace_by_response_def split: option.splits)
  next
    case True
    then obtain t where t: "root0 = Some t" "live w1 = live w + 1 + item_blocks t" using live1 by auto
    obtain c1 ps w2 where look: "look_up t names w1 = Some (c1, ps, w2)"
      using assms(1) parse True t by (auto simp: replace_by_response_def bind_eq_Some_conv)
    note live2 = look_up_live [OF look]
    show ?thesis
    proof (cases "c1 = MCL_OK")
      case False
      then show ?thesis using assms parse True t look live2
        by (auto simp: replace_by_response_def json_blocks_def)
    next
      case ok: True
      obtain c2 ss w3 where texts: "read_texts t ps (destroy_strings old w2) = Some (c2, ss, w3)"
        using assms(1) parse True t look ok by (auto simp: replace_by_response_def bind_eq_Some_conv split: if_splits)
      then show ?thesis using read_texts_live [OF texts] assms parse True t look ok live2
        by (cases "c2 = MCL_OK") (auto simp: replace_by_response_def json_blocks_def)
    qed
  qed
  then show "live w' - blocks_of_all texts = live w - blocks_of_all old" "length texts = length old"
    "code = MCL_OK \<Longrightarrow> None \<notin> set texts" "code \<noteq> MCL_OK \<Longrightarrow> texts = old \<or> texts = map (\<lambda>_. None) old" by simp_all
qed

definition registration_strings :: "security_handler_t \<Rightarrow> string_t option list" where
  "registration_strings h = [client_id h, client_secret h, registration_access_token h, registration_client_uri h]"

lemma four: "length xs = 4 \<Longrightarrow> [xs ! 0, xs ! 1, xs ! 2, xs ! 3] = xs"
  by (auto simp: length_Suc_conv eval_nat_numeral)

lemma registration_replaced:
  assumes "process_registration_response_shared_secret pow10 h response w = Some (code, h', w')"
  shows "live w' - blocks_of_all (registration_strings h') = live w - blocks_of_all (registration_strings h)
    \<and> (if code = MCL_OK then None \<notin> set (registration_strings h')
       else registration_strings h' = registration_strings h \<or> registration_strings h' = [None, None, None, None])
    \<and> access_token h' = access_token h \<and> rsa h' = rsa h"
proof -
  obtain texts where texts: "replace_by_response pow10
      [''client_id'', ''client_secret'', ''registration_access_token'', ''registration_client_uri'']
      (registration_strings h) response w = Some (code, texts, w')"
    "h' = h\<lparr>client_id := texts ! 0, client_secret := texts ! 1, registration_access_token := texts ! 2,
      registration_client_uri := texts ! 3\<rparr>"
    using assms by (auto simp: process_registration_response_shared_secret_def registration_strings_def bind_eq_Some_conv)
  note keeps = replace_by_response_keeps [OF texts(1)]
  have "length texts = 4" using keeps(2) by (simp add: registration_strings_def)
  then have "registration_strings h' = texts" using four [of texts] by (simp add: registration_strings_def texts(2))
  moreover have "map (\<lambda>_. None) (registration_strings h) = [None, None, None, None]" by (simp add: registration_strings_def)
  ultimately show ?thesis using keeps texts(2) by (auto simp: registration_strings_def)
qed

text \<open>C20: the answer to a registration replaces the whole registration or, when memory runs out in the middle, leaves none
  of it; an answer that is no JSON object with the four members changes nothing.  The blocks of the handler are always
  accounted for, wherever the allocator fails.\<close>

theorem process_registration_response_shared_secret_whole:
  assumes "process_registration_response_shared_secret pow10 h response w = Some (code, h', w')"
  shows "live w' - blocks_of_all (registration_strings h') = live w - blocks_of_all (registration_strings h)
    \<and> (if code = MCL_OK then None \<notin> set (registration_strings h')
       else registration_strings h' = registration_strings h \<or> registration_strings h' = [None, None, None, None])
    \<and> access_token h' = access_token h \<and> rsa h' = rsa h"
  using assms by (rule registration_replaced)

section \<open>What the server has sent is what is kept\<close>

definition registration_tree :: "cjson \<Rightarrow> cjson \<Rightarrow> cjson \<Rightarrow> cjson \<Rightarrow> cjson" where
  "registration_tree agent secret token u = object_of [(''client_id'', agent), (''client_secret'', secret),
    (''registration_access_token'', token), (''registration_client_uri'', u)]"

lemma registration_names:
  "index_of_name ''client_id'' (cjson_child (registration_tree a s t u)) = Some 0"
  "index_of_name ''client_secret'' (cjson_child (registration_tree a s t u)) = Some 1"
  "index_of_name ''registration_access_token'' (cjson_child (registration_tree a s t u)) = Some 2"
  "index_of_name ''registration_client_uri'' (cjson_child (registration_tree a s t u)) = Some 3"
proof -
  let ?names = "[''client_id'', ''client_secret'', ''registration_access_token'', ''registration_client_uri'']"
  have "\<forall>m \<in> set ?names. \<forall>n \<in> set ?names. cJSON_strcasecmp_equal (Some m) n \<longleftrightarrow> m = n" by code_simp
  then show "index_of_name ''client_id'' (cjson_child (registration_tree a s t u)) = Some 0"
    "index_of_name ''client_secret'' (cjson_child (registration_tree a s t u)) = Some 1"
    "index_of_name ''registration_access_token'' (cjson_child (registration_tree a s t u)) = Some 2"
    "index_of_name ''registration_client_uri'' (cjson_child (registration_tree a s t u)) = Some 3"
    by (simp_all add: registration_tree_def object_of_def)
qed

lemma get_object_item_calm:
  assumes "upcoming w = []" "index_of_name n (cjson_child t) = Some k"
  obtains w1 where "json_util_get_object_item t [] n w = Some (MCL_OK, Some [k], w1)" "upcoming w1 = []"
proof -
  obtain a w1 where "memory_allocate sizeof_json w = (Some a, w1)" "upcoming w1 = []"
    using assms(1) by (rule calm_handle)
  then show thesis using that assms(2) by (simp add: json_util_get_object_item_def cJSON_GetObjectItem_def)
qed

text \<open>What a string holds that is made of a member: the text of a string, nothing of anything else.\<close>

definition member_string :: "cjson \<Rightarrow> string_t" where
  "member_string c = (case valuestring c of
      Some s \<Rightarrow> handle_of s
    | None \<Rightarrow> \<lparr>string_buffer = None, string_length = 0, string_type = MCL_STRING_COPY_DESTROY\<rparr>)"

definition short_text :: "cjson \<Rightarrow> bool" where
  "short_text c \<longleftrightarrow> (case valuestring c of Some s \<Rightarrow> is_text s \<and> length s + 1 < 2 ^ 64 | None \<Rightarrow> True)"

lemma get_string_calm:
  assumes "upcoming w = []" "item_at t p = Some c" "short_text c"
  obtains w1 where "json_util_get_string t p w = Some (MCL_OK, Some (member_string c), w1)" "upcoming w1 = []"
proof (cases "valuestring c")
  case None
  have "memory_allocate sizeof_string w = (Some (fresh w), w\<lparr>live := live w + 1, fresh := fresh w + 1\<rparr>)"
    using assms(1) by (simp add: memory_allocate_unbounded sizeof_string_def)
  then show thesis using that None assms(1,2)
    by (simp add: json_util_get_string_def string_initialize_new_def initialize_typed_def initialize_buffer_def member_string_def)
next
  case (Some s)
  then have s: "is_text s" "length s + 1 < 2 ^ 64" using assms(3) by (simp_all add: short_text_def)
  have "two_blocks (size_of_nat (length s)) w = (True, w\<lparr>live := live w + 2, fresh := fresh w + 2\<rparr>)"
    using assms(1) succ_length_nonzero [OF s(2)] by (rule two_blocks_granted)
  then show thesis
    using that Some assms(1,2) string_initialize_new_text [OF s, of 0 "[NUL]" w]
    by (simp add: json_util_get_string_def cstring_def member_string_def)
qed

lemma upcoming_destroy_strings [simp]: "upcoming (destroy_strings ss w) = upcoming w"
proof (induction ss arbitrary: w)
  case (Cons s ss)
  have "upcoming (snd (string_destroy s w)) = upcoming w"
    by (cases s) (simp_all add: string_destroy_def string_release_def memory_free_def)
  then show ?case using Cons by (simp add: destroy_strings_def)
qed (simp add: destroy_strings_def)

lemma upcoming_free_handles [simp]: "upcoming (free_handles ps w) = upcoming w"
  unfolding free_handles_def by (induction ps arbitrary: w) (simp_all add: memory_free_def)

lemma upcoming_json_destroy [simp]: "upcoming (json_util_destroy j w) = upcoming w"
  by (cases j) (simp_all add: json_util_destroy_def memory_free_def)

lemma set_name_fields [simp]: "valuestring (set_name n c) = valuestring c" "short_text (set_name n c) = short_text c"
  "member_string (set_name n c) = member_string c"
  by (cases c; simp add: short_text_def member_string_def)+

lemma registration_read:
  assumes "upcoming w = []" "canonical (registration_tree a s t u)" "pow10 0 = 1"
    and "length (text_of other (registration_tree a s t u)) < 2 ^ 31"
    and "short_text a" "short_text s" "short_text t" "short_text u"
    and "response_payload response = Some (cstring (text_of other (registration_tree a s t u)))"
  obtains w1 where "process_registration_response_shared_secret pow10 h response w = Some (MCL_OK,
      h\<lparr>client_id := Some (member_string a), client_secret := Some (member_string s),
        registration_access_token := Some (member_string t), registration_client_uri := Some (member_string u)\<rparr>, w1)"
    "upcoming w1 = []"
proof -
  let ?tree = "registration_tree a s t u" and ?old = "[client_id h, client_secret h, registration_access_token h, registration_client_uri h]"
  obtain x w0 where w0: "memory_allocate sizeof_json w = (Some x, w0)" "upcoming w0 = []"
    using assms(1) by (rule calm_handle)
  have "cjson_name ?tree = None" by (simp add: registration_tree_def object_of_def)
  then obtain w1 where w1: "json_util_parse pow10 (cstring (text_of other ?tree)) w = Some (MCL_OK, Some ?tree, w1)" "upcoming w1 = []"
    using parse_text_of_calm [of ?tree pow10 w0 other] assms(2-4) w0 by (auto simp: json_util_parse_def)
  obtain w2 where w2: "json_util_get_object_item ?tree [] ''client_id'' w1 = Some (MCL_OK, Some [0], w2)" "upcoming w2 = []"
    using get_object_item_calm [OF w1(2) registration_names(1)] by blast
  obtain w3 where w3: "json_util_get_object_item ?tree [] ''client_secret'' w2 = Some (MCL_OK, Some [1], w3)" "upcoming w3 = []"
    using get_object_item_calm [OF w2(2) registration_names(2)] by blast
  obtain w4 where w4: "json_util_get_object_item ?tree [] ''registration_access_token'' w3 = Some (MCL_OK, Some [2], w4)" "upcoming w4 = []"
    using get_object_item_calm [OF w3(2) registration_names(3)] by blast
  obtain w5 where w5: "json_util_get_object_item ?tree [] ''registration_client_uri'' w4 = Some (MCL_OK, Some [3], w5)" "upcoming w5 = []"
    using get_object_item_calm [OF w4(2) registration_names(4)] by blast
  have items: "item_at ?tree [0] = Some (set_name (Some ''client_id'') a)" "item_at ?tree [1] = Some (set_name (Some ''client_secret'') s)"
    "item_at ?tree [2] = Some (set_name (Some ''registration_access_token'') t)" "item_at ?tree [3] = Some (set_name (Some ''registration_client_uri'') u)"
    by (simp_all add: registration_tree_def object_of_def)
  have up: "upcoming (destroy_strings ?old w5) = []" using w5(2) by simp
  obtain v1 where v1: "json_util_get_string ?tree [0] (destroy_strings ?old w5) = Some (MCL_OK, Some (member_string a), v1)" "upcoming v1 = []"
    using get_string_calm [OF up items(1)] assms(5) by auto
  obtain v2 where v2: "json_util_get_string ?tree [1] v1 = Some (MCL_OK, Some (member_string s), v2)" "upcoming v2 = []"
    using get_string_calm [OF v1(2) items(2)] assms(6) by auto
  obtain v3 where v3: "json_util_get_string ?tree [2] v2 = Some (MCL_OK, Some (member_string t), v3)" "upcoming v3 = []"
    using get_string_calm [OF v2(2) items(3)] assms(7) by auto
  obtain v4 where v4: "json_util_get_string ?tree [3] v3 = Some (MCL_OK, Some (member_string u), v4)" "upcoming v4 = []"
    using get_string_calm [OF v3(2) items(4)] assms(8) by auto
  let ?w = "json_util_destroy (Some ?tree) (free_handles [[0], [1], [2], [3 :: nat]] v4)"
  have "replace_by_response pow10 [''client_id'', ''client_secret'', ''registration_access_token'', ''registration_client_uri'']
      ?old response w = Some (MCL_OK, [Some (member_string a), Some (member_string s), Some (member_string t), Some (member_string u)], ?w)"
    using w1(1) w2(1) w3(1) w4(1) w5(1) v1(1) v2(1) v3(1) v4(1) assms(9)
    by (simp add: replace_by_response_def http_response_get_payload_def parse_payload_def)
  then show thesis using that [of ?w] v4(2) by (simp add: process_registration_response_shared_secret_def)
qed

text \<open>C4: a registration survives a restart.  When the server answers the onboarding of an agent with \<open>Created\<close> and the
  four texts of its registration, the library accepts them and writes them to the file, and the next start loads exactly
  these texts from it.\<close>

theorem registration_survives_restart:
  assumes "upcoming w = []" "outcomes fs = []" "power_of_ten e 0 = 1"
    and "\<not> callbacks_are_used e" "store_path (processor_configuration p) = Some f" "says f path"
    and "security_profile (processor_configuration p) = MCL_SECURITY_SHARED_SECRET"
    and "registration_access_token (processor_security_handler p) = None" "response_result_code response = MCL_HTTP_RESULT_CODE_CREATED"
    and "\<forall>x \<in> {agent, secret, token, u}. is_text x \<and> fits_line 1024 x"
    and "response_payload response
      = Some (cstring (text_of other (registration_tree (json_string agent) (json_string secret) (json_string token) (json_string u))))"
  shows "\<exists>p1 fs1 w1 w2. accept_registration e p response fs w = Some (MCL_OK, p1, fs1, w1)
    \<and> registration_strings (processor_security_handler p1)
      = [Some (handle_of agent), Some (handle_of secret), Some (handle_of token), Some (handle_of u)]
    \<and> storage_load_shared_secret_registration_information (Some f) (None, None, None, None) fs1 w1
      = Some (MCL_OK, (Some (handle_of agent), Some (handle_of secret), Some (handle_of token), Some (handle_of u)), fs1, w2)"
proof -
  let ?tree = "registration_tree (json_string agent) (json_string secret) (json_string token) (json_string u)"
  let ?h = "processor_security_handler p"
  have words: "is_text agent" "is_text secret" "is_text token" "is_text u"
    and lines: "fits_line 1024 agent" "fits_line 1024 secret" "fits_line 1024 token" "fits_line 1024 u"
    using assms(10) by simp_all
  have canon: "canonical ?tree" using words by (simp add: registration_tree_def object_of_def json_string_def)
  have few: "length x < 1024" if "fits_line 1024 x" for x using that by (simp add: fits_line_def)
  have "length (text_of other ?tree) \<le> length (quoted agent) + length (quoted secret) + length (quoted token) + length (quoted u) + 200"
    by (simp add: registration_tree_def object_of_def text_of_string) (simp add: quoted_def escape_char_def)
  then have len: "length (text_of other ?tree) < 2 ^ 31"
    using length_quoted [of agent] length_quoted [of secret] length_quoted [of token] length_quoted [of u]
      few [OF lines(1)] few [OF lines(2)] few [OF lines(3)] few [OF lines(4)] by simp
  have short: "short_text (json_string agent)" "short_text (json_string secret)" "short_text (json_string token)" "short_text (json_string u)"
    using words few [OF lines(1)] few [OF lines(2)] few [OF lines(3)] few [OF lines(4)] by (simp_all add: short_text_def json_string_def)
  have member: "member_string (json_string s) = handle_of s" for s by (simp add: member_string_def json_string_def)
  let ?h1 = "?h\<lparr>client_id := Some (handle_of agent), client_secret := Some (handle_of secret),
      registration_access_token := Some (handle_of token), registration_client_uri := Some (handle_of u)\<rparr>"
  obtain w1 where read: "process_registration_response_shared_secret (power_of_ten e) ?h response w = Some (MCL_OK, ?h1, w1)" "upcoming w1 = []"
    using registration_read [of w "json_string agent" "json_string secret" "json_string token" "json_string u"
        "power_of_ten e" other response ?h] assms(1,3,11) canon len short unfolding member by blast
  have says: "says (handle_of x) x" if "is_text x" "fits_line 1024 x" for x
    using that few [of x] by (intro says_handle_of) simp_all
  obtain fs1 w2 where saved: "storage_save_shared_secret_registration_information (Some f) (Some (handle_of agent)) (Some (handle_of secret))
        (Some (handle_of token)) (Some (handle_of u)) fs = Some (MCL_OK, fs1)"
      "storage_load_shared_secret_registration_information (Some f) (None, None, None, None) fs1 w1
        = Some (MCL_OK, (Some (handle_of agent), Some (handle_of secret), Some (handle_of token), Some (handle_of u)), fs1, w2)"
    using saved_is_loaded [OF assms(6) says [OF words(1) lines(1)] says [OF words(2) lines(2)] says [OF words(3) lines(3)]
        says [OF words(4) lines(4)] lines assms(2) read(2)] by blast
  have "evaluate_response_codes response = MCL_CREATED" using assms(9)
    by (simp add: evaluate_response_codes_def Let_def status_codes)
  then have "accept_registration e p response fs w = Some (MCL_OK, p\<lparr>processor_security_handler := ?h1\<rparr>, fs1, w1)"
    using read(1) saved(1) assms(4,5,7,8)
    by (simp add: accept_registration_def registration_result_def save_registration_information_def Let_def)
  then show ?thesis using saved(2) by (auto simp: registration_strings_def)
qed

section \<open>What a registration does to the handler\<close>

lemma initialize_dynamic_given [simp]: "string_initialize_dynamic v n w \<noteq> Some (MCL_OK, None, w')"
  by (auto simp: string_initialize_dynamic_def initialize_typed_def bind_eq_Some_conv split: prod.splits option.splits if_splits)

lemma get_string_given [simp]: "json_util_get_string t p w \<noteq> Some (MCL_OK, None, w')"
  using get_string_live(2) by blast

lemma accept_registration_handler:
  assumes "accept_registration e p response fs w = Some (code, p1, fs1, w1)"
    and "security_profile (processor_configuration p) = MCL_SECURITY_SHARED_SECRET"
  shows "processor_configuration p1 = processor_configuration p"
    "processor_security_handler p1 = processor_security_handler p \<or>
      (\<exists>c w2. process_registration_response_shared_secret (power_of_ten e) (processor_security_handler p) response w
        = Some (c, processor_security_handler p1, w2))"
  using assms by (auto simp: accept_registration_def Let_def bind_eq_Some_conv split: if_splits)

lemma prepare_registration_handler:
  assumes "prepare_registration e c h w = Some (code, s, h1, method0, u, a, w1)" "security_profile c = MCL_SECURITY_SHARED_SECRET"
  shows "h1 = h"
  using assms by (auto simp: prepare_registration_def Let_def bind_eq_Some_conv split: if_splits)

lemma http_processor_register_handler:
  assumes "http_processor_register e p fs w = Some (code, p1, fs1, w1)"
    and "security_profile (processor_configuration p) = MCL_SECURITY_SHARED_SECRET"
  shows "processor_configuration p1 = processor_configuration p \<and>
    (processor_security_handler p1 = processor_security_handler p \<or>
      (\<exists>c response w2 w3. process_registration_response_shared_secret (power_of_ten e) (processor_security_handler p) response w2
        = Some (c, processor_security_handler p1, w3)))"
proof -
  obtain c s h1 m u a v where prepared: "prepare_registration e (processor_configuration p) (processor_security_handler p) w
      = Some (c, s, h1, m, u, a, v)"
    using assms(1) by (auto simp: http_processor_register_def Let_def bind_eq_Some_conv)
  have h1: "p\<lparr>processor_security_handler := h1\<rparr> = p" using prepare_registration_handler [OF prepared assms(2)] by simp
  show ?thesis
  proof (cases "s = None \<or> a = None")
    case True
    then show ?thesis using assms(1) prepared h1 by (auto simp: http_processor_register_def Let_def)
  next
    case False
    then obtain data authorization where given: "s = Some data" "a = Some authorization" by auto
    note run = assms(1) [unfolded http_processor_register_def Let_def prepared bind.bind_lunit prod.case h1 given, simplified]
    obtain c1 r v1 where made: "(if MCL_OK \<noteq> c then Some (c, None, v) else do {
          u1 \<leftarrow> u; agent \<leftarrow> user_agent (processor_configuration p);
          http_request_initialize (random_bytes e) m u1 6 (string_length data) True agent (max_payload_size (processor_configuration p)) v
        }) = Some (c1, r, v1)"
      using run by (cases "MCL_OK = c") (auto simp: bind_eq_Some_conv)
    show ?thesis
    proof (cases "MCL_OK = c1")
      case False
      then show ?thesis using run made by (auto simp: bind_eq_Some_conv split: if_splits)
    next
      case True
      have "p1 = p \<or> (\<exists>answer w4 k f2 w5. accept_registration e p answer fs w4 = Some (k, p1, f2, w5))"
        using run True made by (auto simp: bind_eq_Some_conv split: if_splits prod.splits)
      then consider "p1 = p" | answer w4 k f2 w5 where "accept_registration e p answer fs w4 = Some (k, p1, f2, w5)" by blast
      then show ?thesis
      proof cases
        case 2
        then show ?thesis using accept_registration_handler [OF 2 assms(2)] by auto
      qed simp
    qed
  qed
qed

definition bare_tools :: "(unit, unit, unit) rsa_tools" where
  "bare_tools = \<lparr>RSA_new = (\<lambda>w. (None, w)), BN_new = (\<lambda>w. (None, w)), BN_set_word = (\<lambda>_ _. ()),
    RSA_generate_key_ex = (\<lambda>_ _ _ w. (False, (), w)), BN_free = (\<lambda>_ w. w), BIO_new = (\<lambda>w. (None, w)),
    PEM_write_bio_RSAPrivateKey = (\<lambda>_ _ w. (False, (), w)), PEM_write_bio_RSA_PUBKEY = (\<lambda>_ _ w. (False, (), w)),
    BIO_pending = (\<lambda>_. 0), BIO_read = (\<lambda>_ _. []), BIO_free_all = (\<lambda>_ w. w), PEM_read_bio_RSA_PUBKEY = (\<lambda>_ w. (None, w)),
    rsa_n = (\<lambda>_. ()), rsa_e = (\<lambda>_. ()), BN_num_bytes = (\<lambda>_. 0), BN_bn2bin = (\<lambda>_. [])\<rparr>"

text \<open>A platform without OpenSSL, whose client sends nothing, for the examples.\<close>

definition bare_platform :: "(unit, unit, unit) platform" where
  "bare_platform = \<lparr>ssl = no_ssl, tools = bare_tools, sha256 = (\<lambda>d. replicate 32 0), random_bytes = counting_source,
    seconds = (\<lambda>w. 0), other_number = (\<lambda>_. []), power_of_ten = (\<lambda>n. if n = 0 then 1 else 10),
    client_initialize = (\<lambda>w. (MCL_OK, w)), client = (\<lambda>r w. (MCL_SERVER_FAIL, None, w)), client_destroy = (\<lambda>w. w),
    load_callback = None, save_callback = None, enter_critical_section = None, leave_critical_section = None\<rparr>"

definition granted_response :: http_response_t where
  "granted_response = \<lparr>response_header = None, response_payload = Some (cstring (text_of (\<lambda>_. []) (registration_tree
      (json_string ''id'') (json_string ''secret'') (json_string ''token'') (json_string ''uri'')))), response_payload_size = 0,
    response_result_code = MCL_HTTP_RESULT_CODE_CREATED\<rparr>"

definition new_agent :: http_processor_t where
  "new_agent = sample_processor\<lparr>processor_configuration := (processor_configuration sample_processor)
      \<lparr>security_profile := MCL_SECURITY_SHARED_SECRET, store_path := Some (handle_of ''f'')\<rparr>\<rparr>"

lemma sample_texts_ok: "\<forall>x \<in> {''id'', ''secret'', ''token'', ''uri''}. is_text x \<and> fits_line 1024 x"
  by (simp add: is_text_def fits_line_def newline_def)

lemma registration_survives_restart_witness:
  "\<exists>p1 fs1 w1 w2. accept_registration bare_platform new_agent granted_response empty_disk quiet_world = Some (MCL_OK, p1, fs1, w1)
    \<and> registration_strings (processor_security_handler p1)
      = [Some (handle_of ''id''), Some (handle_of ''secret''), Some (handle_of ''token''), Some (handle_of ''uri'')]
    \<and> storage_load_shared_secret_registration_information (Some (handle_of ''f'')) (None, None, None, None) fs1 w1
      = Some (MCL_OK, (Some (handle_of ''id''), Some (handle_of ''secret''), Some (handle_of ''token''), Some (handle_of ''uri'')), fs1, w2)"
  by (rule registration_survives_restart [where path = "''f''" and other = "\<lambda>_. []", OF _ _ _ _ _ _ _ _ _ sample_texts_ok])
    (simp_all add: quiet_world_def empty_disk_def bare_platform_def callbacks_are_used_def new_agent_def sample_processor_def
      granted_response_def blank_handler_def says_handle_of)

lemma sample_registration_read:
  obtains h1 w1 where "process_registration_response_shared_secret (power_of_ten bare_platform) blank_handler granted_response quiet_world
      = Some (MCL_OK, h1, w1)"
proof -
  let ?t = "registration_tree (json_string ''id'') (json_string ''secret'') (json_string ''token'') (json_string ''uri'')"
  have "canonical ?t" using sample_texts_ok by (simp add: registration_tree_def object_of_def json_string_def)
  moreover have "length (text_of (\<lambda>_. []) ?t) < 2 ^ 31"
    by (simp add: registration_tree_def object_of_def json_string_def quoted_def escape_char_def)
  moreover have "short_text (json_string ''id'')" "short_text (json_string ''secret'')" "short_text (json_string ''token'')"
    "short_text (json_string ''uri'')"
    using sample_texts_ok by (simp_all add: short_text_def json_string_def)
  ultimately show thesis
    using registration_read [of quiet_world "json_string ''id''" "json_string ''secret''" "json_string ''token''" "json_string ''uri''"
        "power_of_ten bare_platform" "\<lambda>_. []" granted_response blank_handler] that
    by (auto simp: quiet_world_def bare_platform_def granted_response_def)
qed

lemma process_registration_response_shared_secret_whole_witness:
  "\<exists>code h1 w1. process_registration_response_shared_secret (power_of_ten bare_platform) blank_handler granted_response quiet_world
      = Some (code, h1, w1)
    \<and> live w1 - blocks_of_all (registration_strings h1) = live quiet_world - blocks_of_all (registration_strings blank_handler)
    \<and> None \<notin> set (registration_strings h1)"
proof -
  obtain h1 w1 where run: "process_registration_response_shared_secret (power_of_ten bare_platform) blank_handler granted_response
      quiet_world = Some (MCL_OK, h1, w1)" by (rule sample_registration_read)
  then show ?thesis using process_registration_response_shared_secret_whole [OF run] by auto
qed

section \<open>Members that are no texts\<close>

text \<open>C38: an answer whose members are not all texts is accepted all the same: the string that is made of a number has no
  buffer, and writing it to the file reads through the missing buffer.\<close>

theorem registration_with_number_crashes:
  assumes "upcoming w = []" "outcomes fs = []" "power_of_ten e 0 = 1" "0 \<le> k" "k < 2 ^ 31"
    and "\<not> callbacks_are_used e" "store_path (processor_configuration p) = Some f" "says f path"
    and "security_profile (processor_configuration p) = MCL_SECURITY_SHARED_SECRET"
    and "registration_access_token (processor_security_handler p) = None" "response_result_code response = MCL_HTTP_RESULT_CODE_CREATED"
    and "\<forall>x \<in> {secret, token, u}. is_text x \<and> length x < 1024"
    and "response_payload response
      = Some (cstring (text_of other (registration_tree (number_tree k) (json_string secret) (json_string token) (json_string u))))"
  shows "accept_registration e p response fs w = None
    \<and> (\<exists>h1 w1. process_registration_response_shared_secret (power_of_ten e) (processor_security_handler p) response w = Some (MCL_OK, h1, w1))"
proof -
  let ?tree = "registration_tree (number_tree k) (json_string secret) (json_string token) (json_string u)"
  have words: "is_text secret" "is_text token" "is_text u" "length secret < 1024" "length token < 1024" "length u < 1024"
    using assms(12) by simp_all
  have canon: "canonical ?tree" using words assms(4,5)
    by (simp add: registration_tree_def object_of_def json_string_def number_tree_def)
  have "length (text_of other ?tree) \<le> length (text_of other (number_tree k)) + length (quoted secret) + length (quoted token) + length (quoted u) + 200"
    by (simp add: registration_tree_def object_of_def text_of_string) (simp add: quoted_def escape_char_def number_tree_def)
  then have len: "length (text_of other ?tree) < 2 ^ 31"
    using length_quoted [of secret] length_quoted [of token] length_quoted [of u] words length_number_tree [OF assms(4,5), of other] by simp
  have short: "short_text (number_tree k)" "short_text (json_string secret)" "short_text (json_string token)" "short_text (json_string u)"
    using words by (simp_all add: short_text_def json_string_def number_tree_def)
  obtain h1 w1 where read: "process_registration_response_shared_secret (power_of_ten e) (processor_security_handler p) response w
      = Some (MCL_OK, h1, w1)" "client_id h1 = Some (member_string (number_tree k))"
    by (rule registration_read [of w "number_tree k" "json_string secret" "json_string token" "json_string u" "power_of_ten e" other
          response "processor_security_handler p"]) (use assms(1,3,13) canon len short in simp_all)
  have "buffer_of (client_id h1) = None" by (simp add: read(2) buffer_of_def member_string_def number_tree_def)
  moreover obtain b where "buffer_of (Some f) = Some b" "chars_of b = Some path"
    using says_chars [OF assms(8)] by blast
  ultimately have "storage_save_shared_secret_registration_information (Some f) (client_id h1) (client_secret h1)
      (registration_access_token h1) (registration_client_uri h1) fs = None"
    using assms(2) by (simp add: storage_save_shared_secret_registration_information_def save_texts_def file_util_open_def next_outcome_def)
  moreover have "evaluate_response_codes response = MCL_CREATED" using assms(11)
    by (simp add: evaluate_response_codes_def Let_def status_codes)
  ultimately show ?thesis using read assms(6,7,9,10)
    by (simp add: accept_registration_def registration_result_def save_registration_information_def Let_def)
qed

definition odd_response :: http_response_t where
  "odd_response = granted_response\<lparr>response_payload := Some (cstring (text_of (\<lambda>_. []) (registration_tree
      (number_tree 7) (json_string ''secret'') (json_string ''token'') (json_string ''uri''))))\<rparr>"

lemma registration_with_number_crashes_witness:
  "accept_registration bare_platform new_agent odd_response empty_disk quiet_world = None"
  by (rule registration_with_number_crashes [where path = "''f''" and other = "\<lambda>_. []" and k = 7 and secret = "''secret''"
        and token = "''token''" and u = "''uri''" and f = "handle_of ''f''", THEN conjunct1])
    (simp_all add: quiet_world_def empty_disk_def bare_platform_def callbacks_are_used_def new_agent_def sample_processor_def
      odd_response_def granted_response_def blank_handler_def says_handle_of)

end
