(* ===== verification/MCL_Processor.thy ===== *)
theory MCL_Processor
  imports MCL_Registration
begin

text \<open>
  The rest of \<^verbatim>\<open>http_processor.c\<close>: asking for an access token, taking over a registration that another process has
  renewed, and the life of the processor.
\<close>

section \<open>Access tokens\<close>

text \<open>The server may tell its time in a header, which is kept; the old access token is destroyed in any case.\<close>

definition http_processor_get_access_token ::
    "('bio, 'rsa, 'bn) platform \<Rightarrow> http_processor_t \<Rightarrow> world \<Rightarrow> (E_MCL_ERROR_CODE \<times> http_processor_t \<times> world) option" where
  "http_processor_get_access_token e p w = (let c = processor_configuration p; h = processor_security_handler p in do {
    (code, request_payload, w1) \<leftarrow> compose_access_token_request_payload (ssl e) (sha256 e) (other_number e)
      (random_bytes e) (seconds e w) 0 h (security_profile c) (tenant c) w;
    (code1, request, w2) \<leftarrow> (if MCL_OK \<noteq> code then Some (code, None, w1)
      else do {
        u \<leftarrow> access_token_endpoint c; data \<leftarrow> request_payload; agent \<leftarrow> user_agent c;
        http_request_initialize (random_bytes e) MCL_HTTP_POST u 2 (string_length data) True agent (max_payload_size c) w1
      });
    (code2, correlation_id, request1, w3) \<leftarrow> (if MCL_OK \<noteq> code1 then Some (code1, None, request, w2)
      else do {
        r \<leftarrow> request;
        st \<leftarrow> header_step HTTP_HEADER_CONTENT_TYPE (content_type_value CONTENT_TYPE_URL_ENCODED) (MCL_OK, r, w2);
        (code2, correlation_id, r1, w3) \<leftarrow> add_correlation_id (random_bytes e) st;
        if MCL_OK \<noteq> code2 then Some (code2, correlation_id, Some r1, w3)
        else do {
          data \<leftarrow> request_payload;
          r2 \<leftarrow> in_payload data r1;
          Some (code2, correlation_id, Some r2, w3)
        }
      });
    let w4 = snd (string_destroy request_payload w3);
    (code3, response, w5) \<leftarrow> (if MCL_OK \<noteq> code2 then Some (code2, None, w4)
      else do { r \<leftarrow> request1; Some (client e r w4) });
    (gone, w6) \<leftarrow> http_request_destroy request1 w5;
    (code4, h1, w7) \<leftarrow> (if MCL_OK \<noteq> code3 then Some (code3, h, w6)
      else do {
        answer \<leftarrow> response;
        time_name \<leftarrow> string_buffer (http_header_name HTTP_HEADER_SERVER_TIME);
        (optional_field_code, server_time, w7) \<leftarrow> http_response_get_header answer time_name Map.empty w6;
        Some (if MCL_OK = optional_field_code
          then (evaluate_response_codes answer, h\<lparr>last_token_time := server_time\<rparr>, snd (string_destroy (last_token_time h) w7))
          else (evaluate_response_codes answer, h, w7))
      });
    let w8 = snd (string_destroy correlation_id w7);
    (code5, response_payload0, w9) \<leftarrow> (if MCL_OK \<noteq> code4 then Some (code4, None, w8)
      else do {
        answer \<leftarrow> response;
        parse_payload (power_of_ten e) (http_response_get_payload answer) w8
      });
    (gone1, w10) \<leftarrow> http_response_destroy response w9;
    (code6, place0, w11) \<leftarrow> (if MCL_OK \<noteq> code5 then Some (code5, None, w10)
      else do { t \<leftarrow> response_payload0; json_util_get_object_item t [] ''access_token'' w10 });
    let w12 = snd (string_destroy (access_token h1) w11);
    (code7, token, w13) \<leftarrow> (if MCL_OK \<noteq> code6 then Some (code6, None, w12)
      else do { t \<leftarrow> response_payload0; q \<leftarrow> place0; json_util_get_string t q w12 });
    Some (code7, p\<lparr>processor_security_handler := h1\<lparr>access_token := token\<rparr>\<rparr>,
      json_util_destroy response_payload0 (release_block place0 w13))
  })"

section \<open>Taking over a registration from outside\<close>

text \<open>What has been loaded: the texts, and the strings they belong to when they come from the file.\<close>

record loaded_information =
  loaded_id :: "char list option"
  loaded_secret :: "char list option"
  loaded_public :: "char list option"
  loaded_private :: "char list option"
  loaded_token :: "char list option"
  loaded_uri :: "char list option"
  id_string :: "string_t option"
  secret_string :: "string_t option"
  token_string :: "string_t option"
  uri_string :: "string_t option"

definition nothing_loaded :: loaded_information where
  "nothing_loaded = \<lparr>loaded_id = None, loaded_secret = None, loaded_public = None, loaded_private = None,
    loaded_token = None, loaded_uri = None, id_string = None, secret_string = None, token_string = None, uri_string = None\<rparr>"

text \<open>The strings that a load from the file gives are read without a look at its result.\<close>

definition load_information ::
    "('bio, 'rsa, 'bn) platform \<Rightarrow> configuration_t \<Rightarrow> file_system \<Rightarrow> world
      \<Rightarrow> (E_MCL_ERROR_CODE \<times> loaded_information \<times> file_system \<times> world) option" where
  "load_information e c fs w =
    (if callbacks_are_used e then
       (if MCL_SECURITY_SHARED_SECRET = security_profile c then do {
          (code, (agent, secret, token, u), w1) \<leftarrow> call_load_shared_secret e w;
          Some (code, nothing_loaded\<lparr>loaded_id := agent, loaded_secret := secret, loaded_token := token, loaded_uri := u\<rparr>, fs, w1)
        }
        else do {
          (code, (agent, public1, private1, token, u), w1) \<leftarrow> call_load_rsa e w;
          Some (code, nothing_loaded\<lparr>loaded_id := agent, loaded_public := public1, loaded_private := private1,
            loaded_token := token, loaded_uri := u\<rparr>, fs, w1)
        })
     else
       (if MCL_SECURITY_SHARED_SECRET = security_profile c then do {
          (code, (s1, s2, s3, s4), fs1, w1) \<leftarrow>
            storage_load_shared_secret_registration_information (store_path c) (None, None, None, None) fs w;
          agent \<leftarrow> s1; secret \<leftarrow> s2; token \<leftarrow> s3;
          Some (code, nothing_loaded\<lparr>loaded_id := string_buffer agent, loaded_secret := string_buffer secret,
            loaded_token := string_buffer token, id_string := s1, secret_string := s2, token_string := s3, uri_string := s4\<rparr>, fs1, w1)
        }
        else do {
          (code, (s1, public1, private1, s3, s4), fs1, w1) \<leftarrow> storage_load_rsa_registration_information (store_path c) fs w;
          agent \<leftarrow> s1; token \<leftarrow> s3;
          Some (code, nothing_loaded\<lparr>loaded_id := string_buffer agent, loaded_public := public1, loaded_private := private1,
            loaded_token := string_buffer token, id_string := s1, token_string := s3, uri_string := s4\<rparr>, fs1, w1)
        }))"

text \<open>Whether the loaded information is that of the handler: the client, then the secrets.\<close>

definition compare_information ::
    "E_MCL_SECURITY_PROFILE \<Rightarrow> security_handler_t \<Rightarrow> loaded_information \<Rightarrow> E_MCL_ERROR_CODE option" where
  "compare_information profile h i =
    (if MCL_SECURITY_SHARED_SECRET = profile then do {
       code \<leftarrow> string_compare_with_cstr False (client_secret h) (loaded_secret i);
       if MCL_OK \<noteq> code then Some code
       else string_compare_with_cstr False (registration_access_token h) (loaded_token i)
     }
     else do {
       mine \<leftarrow> private_key (rsa h); len \<leftarrow> string_util_strlen mine;
       other \<leftarrow> loaded_private i; other_len \<leftarrow> string_util_strlen other;
       if len = other_len then string_util_strncmp other mine len else Some MCL_FAIL
     })"

definition release_text :: "string_t option \<Rightarrow> char list option \<Rightarrow> world \<Rightarrow> world" where
  "release_text s v w = (if s = None then release_block v w else snd (string_destroy s w))"

definition http_processor_update_security_information ::
    "('bio, 'rsa, 'bn) platform \<Rightarrow> http_processor_t \<Rightarrow> file_system \<Rightarrow> world
      \<Rightarrow> (E_MCL_ERROR_CODE \<times> http_processor_t \<times> file_system \<times> world) option" where
  "http_processor_update_security_information e p fs w = (let c = processor_configuration p; h = processor_security_handler p in
    if \<not> callbacks_are_used e \<and> store_path c = None then Some (MCL_FAIL, p, fs, w)
    else do {
      (code, i, fs1, w1) \<leftarrow> load_information e c fs w;
      if MCL_OK \<noteq> code then Some (code, p, fs1, w1)
      else do {
        let w2 = release_text (uri_string i) (loaded_uri i) w1;
        code1 \<leftarrow> string_compare_with_cstr False (client_id h) (loaded_id i);
        let w3 = release_text (id_string i) (loaded_id i) w2;
        code2 \<leftarrow> (if MCL_OK \<noteq> code1 then Some code1
          else do {
            same \<leftarrow> compare_information (security_profile c) h i;
            Some (if MCL_OK = same then MCL_SECURITY_UP_TO_DATE else MCL_OK)
          });
        (code3, token, secret, w4) \<leftarrow> (if MCL_OK = code2 \<and> callbacks_are_used e then do {
            (code3, token, w4) \<leftarrow> string_initialize_dynamic (loaded_token i) 0 w3;
            if MCL_OK = code3 \<and> MCL_SECURITY_SHARED_SECRET = security_profile c then do {
              (code4, secret, w5) \<leftarrow> string_initialize_dynamic (loaded_secret i) 0 w4;
              Some (code4, token, secret, w5)
            }
            else Some (code3, token, secret_string i, w4)
          }
          else Some (code2, token_string i, secret_string i, w3));
        if MCL_OK = code3 then do {
          let w5 = snd (string_destroy (client_secret h) (snd (string_destroy (registration_access_token h) w4)));
          let w6 = release_block (private_key (rsa h)) (release_block (public_key (rsa h)) w5);
          Some (MCL_OK, p\<lparr>processor_security_handler := h\<lparr>registration_access_token := token, client_secret := secret,
            rsa := (rsa h)\<lparr>public_key := loaded_public i, private_key := loaded_private i\<rparr>\<rparr>\<rparr>, fs1, w6)
        }
        else do {
          let w5 = release_text secret (loaded_secret i) (release_text token (loaded_token i) w4);
          Some (code3, p, fs1, release_block (loaded_private i) (release_block (loaded_public i) w5))
        }
      }
    })"

section \<open>The life of the processor\<close>

definition sizeof_http_processor :: mcl_size_t where "sizeof_http_processor = 24"

text \<open>\<open>client_made\<close> and \<open>handler\<close> say which of its members the processor has already; the endpoints are those of the
  configuration, which it only points to.\<close>

definition http_processor_destroy ::
    "('bio, 'rsa, 'bn) platform \<Rightarrow> bool \<Rightarrow> security_handler_t option \<Rightarrow> configuration_t \<Rightarrow> world \<Rightarrow> configuration_t \<times> world" where
  "http_processor_destroy e client_made handler c w =
    (let w1 = (if client_made then client_destroy e w else w);
         w2 = snd (security_handler_destroy handler w1);
         w3 = snd (string_destroy (access_token_endpoint c) w2);
         w4 = snd (string_destroy (exchange_endpoint c) w3);
         w5 = snd (string_destroy (registration_endpoint c) w4)
     in (c\<lparr>access_token_endpoint := None, exchange_endpoint := None, registration_endpoint := None\<rparr>, memory_free w5))"

text \<open>Without a registration the agent starts with an initial access token, and with new keys if it needs them.\<close>

definition start_without_registration ::
    "('bio, 'rsa, 'bn) platform \<Rightarrow> configuration_t \<Rightarrow> security_handler_t \<Rightarrow> world
      \<Rightarrow> (E_MCL_ERROR_CODE \<times> security_handler_t \<times> world) option" where
  "start_without_registration e c h w =
    (if initial_access_token c = None then Some (MCL_NO_ACCESS_TOKEN_PROVIDED, h, w)
     else if MCL_SECURITY_RSA_3072 = security_profile c then security_handler_generate_rsa_key (ssl e) (tools e) h w
     else Some (MCL_OK, h, w))"

definition load_registration ::
    "('bio, 'rsa, 'bn) platform \<Rightarrow> configuration_t \<Rightarrow> security_handler_t \<Rightarrow> file_system \<Rightarrow> world
      \<Rightarrow> (E_MCL_ERROR_CODE \<times> security_handler_t \<times> file_system \<times> world) option" where
  "load_registration e c h fs w =
    (if callbacks_are_used e then do {
       (code, h1, w1) \<leftarrow> custom_load_register_info e (security_profile c) h w;
       Some (code, h1, fs, w1)
     }
     else do {
       (accessible, fs1) \<leftarrow> check_file_path (store_path c) fs;
       if MCL_OK \<noteq> accessible then Some (MCL_PATH_NOT_ACCESSIBLE, h, fs1, w)
       else if MCL_SECURITY_SHARED_SECRET = security_profile c then do {
         (code, (s1, s2, s3, s4), fs2, w1) \<leftarrow> storage_load_shared_secret_registration_information (store_path c)
           (client_id h, client_secret h, registration_access_token h, registration_client_uri h) fs1 w;
         Some (code, h\<lparr>client_id := s1, client_secret := s2, registration_access_token := s3, registration_client_uri := s4\<rparr>, fs2, w1)
       }
       else do {
         (code, (s1, public1, private1, s3, s4), fs2, w1) \<leftarrow> storage_load_rsa_registration_information (store_path c) fs1 w;
         Some (code, h\<lparr>client_id := s1, rsa := (rsa h)\<lparr>public_key := public1, private_key := private1\<rparr>,
           registration_access_token := s3, registration_client_uri := s4\<rparr>, fs2, w1)
       }
     })"

definition find_registration ::
    "('bio, 'rsa, 'bn) platform \<Rightarrow> configuration_t \<Rightarrow> security_handler_t \<Rightarrow> file_system \<Rightarrow> world
      \<Rightarrow> (E_MCL_ERROR_CODE \<times> security_handler_t \<times> file_system \<times> world) option" where
  "find_registration e c h fs w =
    (if callbacks_are_used e \<or> store_path c \<noteq> None then do {
       (code, h1, fs1, w1) \<leftarrow> load_registration e c h fs w;
       if MCL_REGISTRATION_INFO_IS_NOT_LOADED = code then do {
         (code1, h2, w2) \<leftarrow> start_without_registration e c h1 w1;
         Some (code1, h2, fs1, w2)
       }
       else Some (code, h1, fs1, w1)
     }
     else do {
       (code, h1, w1) \<leftarrow> start_without_registration e c h w;
       Some (code, h1, fs, w1)
     })"

definition endpoint_string :: "E_ENDPOINT_URI \<Rightarrow> string_t" where
  "endpoint_string i = string_constant (endpoint_uri ! index_in i endpoint_indices)"

text \<open>One endpoint of the configuration is filled in, when all went well before.\<close>

definition populate ::
    "E_ENDPOINT_URI \<Rightarrow> (string_t option \<Rightarrow> configuration_t \<Rightarrow> configuration_t) \<Rightarrow> configuration_t step" where
  "populate i set_endpoint st = (case st of (code, c, w) \<Rightarrow>
    if MCL_OK \<noteq> code then Some st
    else do {
      host \<leftarrow> mindsphere_hostname c;
      (code1, u, w1) \<leftarrow> concatenate_host_and_endpoint host (endpoint_string i) w;
      Some (code1, set_endpoint u c, w1)
    })"

text \<open>The result holds the processor if there is one, and the configuration.  A processor whose endpoints could not be
  made is left to the caller; \<open>old\<close> is what was in the memory of the handler.\<close>

definition http_processor_initialize ::
    "('bio, 'rsa, 'bn) platform \<Rightarrow> security_handler_t \<Rightarrow> configuration_t \<Rightarrow> file_system \<Rightarrow> world
      \<Rightarrow> (E_MCL_ERROR_CODE \<times> security_handler_t option \<times> configuration_t \<times> file_system \<times> world) option" where
  "http_processor_initialize e old c fs w =
    (case memory_allocate sizeof_http_processor w of
      (None, w1) \<Rightarrow> Some (MCL_OUT_OF_MEMORY, None, c, fs, w1)
    | (Some a, w1) \<Rightarrow>
       (case client_initialize e w1 of (code, w2) \<Rightarrow>
          if MCL_OK \<noteq> code then (let (c1, w3) = http_processor_destroy e False None c w2 in Some (code, None, c1, fs, w3))
          else (case security_handler_initialize old w2 of
              (code1, None, w3) \<Rightarrow> (let (c1, w4) = http_processor_destroy e True None c w3 in Some (code1, None, c1, fs, w4))
            | (code1, Some h, w3) \<Rightarrow> do {
                (code2, h1, fs1, w4) \<leftarrow> find_registration e c h fs w3;
                if MCL_OK \<noteq> code2 then
                  (let (c1, w5) = http_processor_destroy e True (Some h1) c w4 in Some (code2, None, c1, fs1, w5))
                else do {
                  (code3, c1, w5) \<leftarrow> run_steps
                    [populate ENDPOINT_URI_REGISTER (\<lambda>u c. c\<lparr>registration_endpoint := u\<rparr>),
                     populate ENDPOINT_URI_EXCHANGE (\<lambda>u c. c\<lparr>exchange_endpoint := u\<rparr>),
                     populate ENDPOINT_URI_ACCESS_TOKEN (\<lambda>u c. c\<lparr>access_token_endpoint := u\<rparr>)] (MCL_OK, c, w4);
                  Some (code3, Some h1, c1, fs1, w5)
                }
              })))"

section \<open>What the other operations leave of a registration\<close>

lemma registration_strings_fields [simp]:
  "registration_strings (h\<lparr>access_token := a\<rparr>) = registration_strings h"
  "registration_strings (h\<lparr>last_token_time := a\<rparr>) = registration_strings h"
  "registration_strings (h\<lparr>rsa := k\<rparr>) = registration_strings h"
  by (simp_all add: registration_strings_def)

lemma http_processor_get_access_token_keeps:
  assumes "http_processor_get_access_token e p w = Some (code, p1, w1)"
  shows "processor_configuration p1 = processor_configuration p
    \<and> registration_strings (processor_security_handler p1) = registration_strings (processor_security_handler p)
    \<and> rsa (processor_security_handler p1) = rsa (processor_security_handler p)
    \<and> (code = MCL_OK \<longrightarrow> access_token (processor_security_handler p1) \<noteq> None)"
proof -
  let ?c = "processor_configuration p" and ?h = "processor_security_handler p"
  obtain k answer v k4 h1 v1 k6 place0 v2 k7 token response_payload0 v3 where
    time: "(if MCL_OK \<noteq> k then Some (k, ?h, v) else do {
        a \<leftarrow> answer;
        time_name \<leftarrow> string_buffer (http_header_name HTTP_HEADER_SERVER_TIME);
        (optional_field_code, server_time, w7) \<leftarrow> http_response_get_header a time_name Map.empty v;
        Some (if MCL_OK = optional_field_code
          then (evaluate_response_codes a, ?h\<lparr>last_token_time := server_time\<rparr>, snd (string_destroy (last_token_time ?h) w7))
          else (evaluate_response_codes a, ?h, w7))
      }) = Some (k4, h1, v1)"
    and token: "(if MCL_OK \<noteq> k6 then Some (k6, None, v2)
      else do { t \<leftarrow> response_payload0; q \<leftarrow> place0; json_util_get_string t q v2 }) = Some (k7, token, v3)"
    and result: "code = k7" "p1 = p\<lparr>processor_security_handler := h1\<lparr>access_token := token\<rparr>\<rparr>"
    using assms
    by (simp only: http_processor_get_access_token_def Let_def bind_eq_Some_conv split_paired_Ex prod.case option.inject prod.inject,
      elim exE conjE) (rule that, (assumption | rule sym, assumption)+)
  have "h1 = ?h \<or> (\<exists>s. h1 = ?h\<lparr>last_token_time := s\<rparr>)" using time by (auto simp: bind_eq_Some_conv split: if_splits)
  moreover have "k7 = MCL_OK \<longrightarrow> token \<noteq> None" using token by (cases token) (auto simp: bind_eq_Some_conv split: if_splits)
  ultimately show ?thesis using result by auto
qed

lemma load_information_given:
  assumes "load_information e c fs w = Some (code, i, fs1, w1)" "\<not> callbacks_are_used e"
  shows "token_string i \<noteq> None" "security_profile c = MCL_SECURITY_SHARED_SECRET \<Longrightarrow> secret_string i \<noteq> None"
  using assms by (auto simp: load_information_def bind_eq_Some_conv split: if_splits)

lemma http_processor_update_keeps:
  assumes "http_processor_update_security_information e p fs w = Some (code, p1, fs1, w1)"
    and "security_profile (processor_configuration p) = MCL_SECURITY_SHARED_SECRET"
    and "None \<notin> set (registration_strings (processor_security_handler p))"
  shows "processor_configuration p1 = processor_configuration p
    \<and> None \<notin> set (registration_strings (processor_security_handler p1))
    \<and> (code \<noteq> MCL_OK \<longrightarrow> p1 = p)"
proof (cases "\<not> callbacks_are_used e \<and> store_path (processor_configuration p) = None")
  case True
  then show ?thesis using assms by (simp add: http_processor_update_security_information_def)
next
  case False
  then obtain c i f1 v1 where load: "load_information e (processor_configuration p) fs w = Some (c, i, f1, v1)"
    using assms(1) by (auto simp: http_processor_update_security_information_def Let_def bind_eq_Some_conv)
  show ?thesis
  proof (cases "callbacks_are_used e")
    case True
    then show ?thesis
      using False assms load
      by (auto simp: http_processor_update_security_information_def Let_def bind_eq_Some_conv registration_strings_def split: if_splits)
  next
    case unused: False
    then show ?thesis
      using False assms load load_information_given [OF load unused]
      by (auto simp: http_processor_update_security_information_def Let_def bind_eq_Some_conv registration_strings_def split: if_splits)
  qed
qed

end
