(* ===== verification/MCL_Communication.thy ===== *)
theory MCL_Communication
  imports MCL_Processor
begin

text \<open>
  The public interface \<^verbatim>\<open>communication.c\<close>: the handle of an agent is made from a configuration that is checked and
  copied, and every operation checks the handle, enters the critical section and hands over to the HTTP processor.  An
  operation gives no result (\<open>None\<close>) where the C code has undefined behaviour.
\<close>

section \<open>State\<close>

text \<open>The processor is there when its handler is; it points to the configuration that is kept here.\<close>

record communication_t =
  configuration :: configuration_t
  handler :: "security_handler_t option"
  initialized :: bool

definition http_processor_of :: "communication_t \<Rightarrow> http_processor_t option" where
  "http_processor_of m = (case handler m of
      None \<Rightarrow> None
    | Some h \<Rightarrow> Some \<lparr>processor_configuration = configuration m, processor_security_handler = h\<rparr>)"

definition with_processor :: "http_processor_t \<Rightarrow> communication_t \<Rightarrow> communication_t" where
  "with_processor p m = m\<lparr>configuration := processor_configuration p, handler := Some (processor_security_handler p)\<rparr>"

definition sizeof_communication :: mcl_size_t where "sizeof_communication = 208"

section \<open>Making and destroying\<close>

definition configuration_strings :: "configuration_t \<Rightarrow> string_t option list" where
  "configuration_strings c = [mindsphere_hostname c, mindsphere_certificate c, proxy_hostname c, proxy_username c,
    proxy_password c, proxy_domain c, user_agent c, initial_access_token c, tenant c, store_path c]"

definition mcl_communication_destroy ::
    "('bio, 'rsa, 'bn) platform \<Rightarrow> communication_t option \<Rightarrow> world \<Rightarrow> communication_t option \<times> world" where
  "mcl_communication_destroy e m w = (case m of
      None \<Rightarrow> (None, w)
    | Some m1 \<Rightarrow>
       (let w1 = destroy_strings (configuration_strings (configuration m1)) w;
            w2 = (if handler m1 = None then w1 else snd (http_processor_destroy e True (handler m1) (configuration m1) w1))
        in (None, memory_free w2)))"

text \<open>A text is measured up to its limit and must not be empty.\<close>

definition check_text :: "char list option \<Rightarrow> mcl_size_t \<Rightarrow> E_MCL_ERROR_CODE \<Rightarrow> (E_MCL_ERROR_CODE \<times> mcl_size_t) option" where
  "check_text v limit wrong = (case v of
      None \<Rightarrow> Some (wrong, 0)
    | Some b \<Rightarrow> do {
        n \<leftarrow> string_util_strnlen b (limit + 1);
        Some (if 0 < n \<and> n \<le> limit then MCL_OK else wrong, n)
      })"

text \<open>The lengths of the host, the user, the password and the domain of the proxy.\<close>

definition validate_proxy ::
    "mcl_configuration_t \<Rightarrow> (E_MCL_ERROR_CODE \<times> mcl_size_t \<times> mcl_size_t \<times> mcl_size_t \<times> mcl_size_t) option" where
  "validate_proxy c =
    (if mcl_proxy_hostname c = None then Some (MCL_OK, 0, 0, 0, 0)
     else do {
       (code, host) \<leftarrow> check_text (mcl_proxy_hostname c) MAXIMUM_HOST_NAME_LENGTH MCL_INVALID_PROXY_HOST_NAME;
       if MCL_OK \<noteq> code \<or> mcl_proxy_username c = None then Some (code, host, 0, 0, 0)
       else do {
         (code1, user) \<leftarrow> check_text (mcl_proxy_username c) MAXIMUM_PROXY_USER_NAME_LENGTH MCL_INVALID_PROXY_USER_NAME;
         if MCL_OK \<noteq> code1 then Some (code1, host, user, 0, 0)
         else do {
           (code2, password) \<leftarrow> check_text (mcl_proxy_password c) MAXIMUM_PROXY_PASSWORD_LENGTH MCL_INVALID_PROXY_PASSWORD;
           if MCL_OK \<noteq> code2 \<or> mcl_proxy_domain c = None then Some (code2, host, user, password, 0)
           else do {
             (code3, domain) \<leftarrow> check_text (mcl_proxy_domain c) MAXIMUM_PROXY_DOMAIN_LENGTH MCL_INVALID_PROXY_DOMAIN;
             Some (code3, host, user, password, domain)
           }
         }
       }
     })"

record lengths =
  host_name_length :: mcl_size_t
  proxy_host_length :: mcl_size_t
  proxy_user_name_length :: mcl_size_t
  proxy_password_length :: mcl_size_t
  proxy_domain_length :: mcl_size_t
  user_agent_length :: mcl_size_t
  tenant_length :: mcl_size_t

definition MCL_MAXIMUM_HTTP_PAYLOAD_SIZE :: mcl_size_t where "MCL_MAXIMUM_HTTP_PAYLOAD_SIZE = 10485760"

definition no_lengths :: lengths where
  "no_lengths = \<lparr>host_name_length = 0, proxy_host_length = 0, proxy_user_name_length = 0, proxy_password_length = 0,
    proxy_domain_length = 0, user_agent_length = 0, tenant_length = 0\<rparr>"

definition validate_configuration :: "mcl_configuration_t \<Rightarrow> (E_MCL_ERROR_CODE \<times> lengths) option" where
  "validate_configuration c = do {
    (code, host) \<leftarrow> check_text (mcl_mindsphere_hostname c) MAXIMUM_HOST_NAME_LENGTH MCL_INVALID_HOST_NAME;
    if MCL_OK \<noteq> code then Some (code, no_lengths)
    else do {
      (code1, proxy, user, password, domain) \<leftarrow> validate_proxy c;
      if MCL_OK \<noteq> code1 then Some (code1, no_lengths)
      else if \<not> profile_value MCL_SECURITY_RSA_3072 \<ge> profile_value (mcl_security_profile c)
      then Some (MCL_INVALID_SECURITY_PROFILE, no_lengths)
      else do {
        (code2, agent) \<leftarrow> check_text (mcl_user_agent c) MAXIMUM_USER_AGENT_LENGTH MCL_INVALID_USER_AGENT;
        if MCL_OK \<noteq> code2 then Some (code2, no_lengths)
        else (case mcl_tenant c of
            None \<Rightarrow> Some (MCL_INVALID_TENANT, no_lengths)
          | Some t \<Rightarrow> do {
              n \<leftarrow> string_util_strlen t;
              if MIN_HTTP_PAYLOAD_SIZE \<le> mcl_max_http_payload_size c \<and> mcl_max_http_payload_size c \<le> MCL_MAXIMUM_HTTP_PAYLOAD_SIZE
              then Some (MCL_OK, \<lparr>host_name_length = host, proxy_host_length = proxy, proxy_user_name_length = user,
                proxy_password_length = password, proxy_domain_length = domain, user_agent_length = agent, tenant_length = n\<rparr>)
              else Some (MCL_INVALID_MAX_HTTP_PAYLOAD_SIZE, no_lengths)
            })
      }
    }
  }"

text \<open>The configuration a handle starts with; the timeout is not set.\<close>

definition blank_configuration :: "configuration_t \<Rightarrow> configuration_t" where
  "blank_configuration old = \<lparr>mindsphere_hostname = None, mindsphere_port = 0, mindsphere_certificate = None,
    proxy_hostname = None, proxy_port = 0, proxy_type = MCL_PROXY_UNKNOWN, proxy_username = None, proxy_password = None,
    proxy_domain = None, security_profile = MCL_SECURITY_SHARED_SECRET, max_payload_size = DEFAULT_HTTP_PAYLOAD_SIZE,
    http_request_timeout = http_request_timeout old, user_agent = None, initial_access_token = None,
    registration_endpoint = None, access_token_endpoint = None, exchange_endpoint = None, tenant = None, store_path = None\<rparr>"

definition copy_text ::
    "(string_t option \<Rightarrow> configuration_t \<Rightarrow> configuration_t) \<Rightarrow> char list option \<Rightarrow> mcl_size_t \<Rightarrow> configuration_t step" where
  "copy_text set_text v n st = (case st of (code, c, w) \<Rightarrow>
    if MCL_OK \<noteq> code \<or> v = None then Some st
    else do { (code1, s, w1) \<leftarrow> string_initialize_new v n w; Some (code1, set_text s c, w1) })"

definition copy_value :: "(configuration_t \<Rightarrow> configuration_t) \<Rightarrow> configuration_t step" where
  "copy_value f st = (case st of (code, c, w) \<Rightarrow> Some (if MCL_OK \<noteq> code then st else (code, f c, w)))"

text \<open>A text that may be left out or empty.\<close>

definition copy_optional ::
    "(string_t option \<Rightarrow> configuration_t \<Rightarrow> configuration_t) \<Rightarrow> char list option \<Rightarrow> configuration_t step" where
  "copy_optional set_text v st = (case st of (code, c, w) \<Rightarrow> (case v of
      None \<Rightarrow> Some st
    | Some b \<Rightarrow>
        if MCL_OK \<noteq> code then Some st
        else do {
          n \<leftarrow> string_util_strlen b;
          if 0 < n then copy_text set_text v n st else Some st
        }))"

text \<open>The copies that are made before the line for the agent, and those after it.  The user of the proxy is only looked at
  with a proxy, the password and the domain only with a user.\<close>

definition first_copies :: "mcl_configuration_t \<Rightarrow> lengths \<Rightarrow> configuration_t step list" where
  "first_copies g n =
    [copy_text (\<lambda>s c. c\<lparr>mindsphere_hostname := s\<rparr>) (mcl_mindsphere_hostname g) (host_name_length n),
     copy_value (\<lambda>c. c\<lparr>mindsphere_port := mcl_mindsphere_port g\<rparr>),
     copy_text (\<lambda>s c. c\<lparr>mindsphere_certificate := s\<rparr>) (mcl_mindsphere_certificate g) 0,
     copy_value (\<lambda>c. c\<lparr>security_profile := mcl_security_profile g, max_payload_size := mcl_max_http_payload_size g,
       http_request_timeout := mcl_http_request_timeout g\<rparr>)] @
    (if mcl_proxy_hostname g = None then []
     else [copy_text (\<lambda>s c. c\<lparr>proxy_hostname := s\<rparr>) (mcl_proxy_hostname g) (proxy_host_length n),
       copy_value (\<lambda>c. c\<lparr>proxy_port := mcl_proxy_port g, proxy_type := mcl_proxy_type g\<rparr>)] @
       (if mcl_proxy_username g = None then []
        else [copy_text (\<lambda>s c. c\<lparr>proxy_username := s\<rparr>) (mcl_proxy_username g) (proxy_user_name_length n),
          copy_text (\<lambda>s c. c\<lparr>proxy_password := s\<rparr>) (mcl_proxy_password g) (proxy_password_length n),
          copy_text (\<lambda>s c. c\<lparr>proxy_domain := s\<rparr>) (mcl_proxy_domain g) (proxy_domain_length n)]))"

definition last_copies :: "mcl_configuration_t \<Rightarrow> lengths \<Rightarrow> configuration_t step list" where
  "last_copies g n =
    [copy_optional (\<lambda>s c. c\<lparr>initial_access_token := s\<rparr>) (mcl_initial_access_token g),
     copy_text (\<lambda>s c. c\<lparr>tenant := s\<rparr>) (mcl_tenant g) (tenant_length n),
     copy_optional (\<lambda>s c. c\<lparr>store_path := s\<rparr>) (mcl_store_path g)]"

definition user_agent_line :: "string \<Rightarrow> string \<Rightarrow> string" where
  "user_agent_line version agent = ''MCL/'' @ version @ '' ('' @ agent @ '')''"

text \<open>The line of the agent: without memory for it the handle stays as it is, every other failure destroys it.\<close>

definition copy_user_agent ::
    "string \<Rightarrow> mcl_configuration_t \<Rightarrow> lengths \<Rightarrow> configuration_t \<Rightarrow> world
      \<Rightarrow> (E_MCL_ERROR_CODE \<times> bool \<times> configuration_t \<times> world) option" where
  "copy_user_agent version g n c w = do {
    let len = user_agent_length n + (4 + size_of_nat (length version) + 3);
    (code, r, w1) \<leftarrow> string_initialize_new None len w;
    if MCL_OK \<noteq> code then Some (code, False, c\<lparr>user_agent := r\<rparr>, w1)
    else do {
      s \<leftarrow> r; b \<leftarrow> string_buffer s;
      v \<leftarrow> mcl_user_agent g; agent \<leftarrow> chars_of v;
      (code1, b1) \<leftarrow> string_util_snprintf b (len + 1) (user_agent_line version agent);
      Some (code1, True, c\<lparr>user_agent := Some (s\<lparr>string_buffer := Some b1\<rparr>)\<rparr>, w1)
    }
  }"

definition give_up ::
    "('bio, 'rsa, 'bn) platform \<Rightarrow> E_MCL_ERROR_CODE \<Rightarrow> configuration_t \<Rightarrow> security_handler_t option \<Rightarrow> file_system \<Rightarrow> world
      \<Rightarrow> E_MCL_ERROR_CODE \<times> communication_t option \<times> file_system \<times> world" where
  "give_up e code c h fs w =
    (let (gone, w1) = mcl_communication_destroy e (Some \<lparr>configuration = c, handler = h, initialized = False\<rparr>) w
     in (code, gone, fs, w1))"

text \<open>\<open>given\<close> says whether the caller gave a place for the handle; \<open>old\<close> and \<open>old_handler\<close> are what was in the memory.\<close>

definition mcl_communication_initialize ::
    "('bio, 'rsa, 'bn) platform \<Rightarrow> string \<Rightarrow> configuration_t \<Rightarrow> security_handler_t \<Rightarrow> mcl_configuration_t option \<Rightarrow> bool
      \<Rightarrow> file_system \<Rightarrow> world \<Rightarrow> (E_MCL_ERROR_CODE \<times> communication_t option \<times> file_system \<times> world) option" where
  "mcl_communication_initialize e version old old_handler g given fs w = (case g of
      None \<Rightarrow> Some (MCL_TRIGGERED_WITH_NULL, None, fs, w)
    | Some g1 \<Rightarrow> if \<not> given then Some (MCL_TRIGGERED_WITH_NULL, None, fs, w)
        else do {
          (code, n) \<leftarrow> validate_configuration g1;
          if MCL_OK \<noteq> code then Some (code, None, fs, w)
          else (case memory_allocate sizeof_communication w of
              (None, w1) \<Rightarrow> Some (MCL_OUT_OF_MEMORY, None, fs, w1)
            | (Some a, w1) \<Rightarrow> do {
                (code1, c1, w2) \<leftarrow> run_steps (first_copies g1 n) (MCL_OK, blank_configuration old, w1);
                if MCL_OK \<noteq> code1 then Some (give_up e code1 c1 None fs w2)
                else do {
                  (code2, allocated, c2, w3) \<leftarrow> copy_user_agent version g1 n c1 w2;
                  if \<not> allocated then Some (code2, Some \<lparr>configuration = c2, handler = None, initialized = False\<rparr>, fs, w3)
                  else do {
                    (code3, c3, w4) \<leftarrow> run_steps (last_copies g1 n) (code2, c2, w3);
                    if MCL_OK \<noteq> code3 then Some (give_up e code3 c3 None fs w4)
                    else do {
                      (code4, h, c4, fs1, w5) \<leftarrow> http_processor_initialize e old_handler c3 fs w4;
                      if MCL_OK \<noteq> code4 then Some (give_up e code4 c4 h fs1 w5)
                      else Some (MCL_OK, Some \<lparr>configuration = c4, handler = h, initialized = True\<rparr>, fs1, w5)
                    }
                  }
                }
              })
        })"

section \<open>The state of the agent\<close>

text \<open>Both answer a \<^verbatim>\<open>mcl_bool_t\<close>; for NULL that is the number of the code.\<close>

definition MCL_TRUE :: "8 word" where "MCL_TRUE = 1"
definition MCL_FALSE :: "8 word" where "MCL_FALSE = 0"

definition mcl_communication_is_initialized :: "communication_t option \<Rightarrow> 8 word" where
  "mcl_communication_is_initialized m = (case m of
      None \<Rightarrow> of_nat (code_value MCL_TRIGGERED_WITH_NULL)
    | Some m1 \<Rightarrow> if initialized m1 then MCL_TRUE else MCL_FALSE)"

definition mcl_communication_is_onboarded :: "communication_t option \<Rightarrow> 8 word option" where
  "mcl_communication_is_onboarded m = (case m of
      None \<Rightarrow> Some (of_nat (code_value MCL_TRIGGERED_WITH_NULL))
    | Some m1 \<Rightarrow> do {
        h \<leftarrow> handler m1;
        Some (if registration_access_token h = None then MCL_FALSE else MCL_TRUE)
      })"

section \<open>Operations in the critical section\<close>

type_synonym operation =
  "communication_t \<Rightarrow> file_system \<Rightarrow> world \<Rightarrow> (E_MCL_ERROR_CODE \<times> communication_t \<times> file_system \<times> world) option"

definition in_critical_section :: "('bio, 'rsa, 'bn) platform \<Rightarrow> operation \<Rightarrow> operation" where
  "in_critical_section e operate m fs w = (case (enter_critical_section e, leave_critical_section e) of
      (Some enter, Some leave) \<Rightarrow>
        (case enter w of (entered, w1) \<Rightarrow>
          if MCL_OK \<noteq> entered then Some (entered, m, fs, w1)
          else do {
            (result, m1, fs1, w2) \<leftarrow> operate m fs w1;
            Some (result, m1, fs1, leave w2)
          })
    | _ \<Rightarrow> operate m fs w)"

definition on_communication ::
    "operation \<Rightarrow> communication_t option \<Rightarrow> file_system \<Rightarrow> world
      \<Rightarrow> (E_MCL_ERROR_CODE \<times> communication_t option \<times> file_system \<times> world) option" where
  "on_communication f m fs w = (case m of
      None \<Rightarrow> Some (MCL_TRIGGERED_WITH_NULL, None, fs, w)
    | Some m1 \<Rightarrow> do { (code, m2, fs1, w1) \<leftarrow> f m1 fs w; Some (code, Some m2, fs1, w1) })"

definition register_processor :: "('bio, 'rsa, 'bn) platform \<Rightarrow> operation" where
  "register_processor e m fs w = do {
    p \<leftarrow> http_processor_of m;
    (code, p1, fs1, w1) \<leftarrow> http_processor_register e p fs w;
    Some (code, with_processor p1 m, fs1, w1)
  }"

definition renew_access_token :: "('bio, 'rsa, 'bn) platform \<Rightarrow> operation" where
  "renew_access_token e m fs w = do {
    p \<leftarrow> http_processor_of m;
    (code, p1, w1) \<leftarrow> http_processor_get_access_token e p w;
    Some (code, with_processor p1 m, fs, w1)
  }"

text \<open>An access token is asked for after a success; whether it comes does not change the result.\<close>

definition and_renew :: "('bio, 'rsa, 'bn) platform \<Rightarrow> bool \<Rightarrow> E_MCL_ERROR_CODE \<Rightarrow> operation" where
  "and_renew e wanted result m fs w =
    (if wanted then do { (code, m1, fs1, w1) \<leftarrow> renew_access_token e m fs w; Some (result, m1, fs1, w1) }
     else Some (result, m, fs, w))"

definition onboard :: "('bio, 'rsa, 'bn) platform \<Rightarrow> operation" where
  "onboard e m fs w =
    (if mcl_communication_is_initialized (Some m) = MCL_FALSE then Some (MCL_NOT_INITIALIZED, m, fs, w)
     else do {
       onboarded \<leftarrow> mcl_communication_is_onboarded (Some m);
       (result, m1, fs1, w1) \<leftarrow> (if onboarded = MCL_FALSE then register_processor e m fs w
         else Some (MCL_ALREADY_ONBOARDED, m, fs, w));
       and_renew e (MCL_OK = result \<or> MCL_ALREADY_ONBOARDED = result) result m1 fs1 w1
     })"

definition rotate_key :: "('bio, 'rsa, 'bn) platform \<Rightarrow> operation" where
  "rotate_key e m fs w =
    (if mcl_communication_is_initialized (Some m) = MCL_FALSE then Some (MCL_NOT_INITIALIZED, m, fs, w)
     else do {
       onboarded \<leftarrow> mcl_communication_is_onboarded (Some m);
       if onboarded = MCL_FALSE then Some (MCL_NOT_ONBOARDED, m, fs, w)
       else do {
         (result, m1, fs1, w1) \<leftarrow> register_processor e m fs w;
         and_renew e (MCL_OK = result) result m1 fs1 w1
       }
     })"

definition update_information :: "('bio, 'rsa, 'bn) platform \<Rightarrow> operation" where
  "update_information e m fs w =
    (if mcl_communication_is_initialized (Some m) = MCL_FALSE then Some (MCL_NOT_INITIALIZED, m, fs, w)
     else do {
       onboarded \<leftarrow> mcl_communication_is_onboarded (Some m);
       if onboarded = MCL_FALSE then Some (MCL_NOT_ONBOARDED, m, fs, w)
       else do {
         p \<leftarrow> http_processor_of m;
         (result, p1, fs1, w1) \<leftarrow> http_processor_update_security_information e p fs w;
         and_renew e (MCL_OK = result) result (with_processor p1 m) fs1 w1
       }
     })"

definition mcl_communication_onboard where
  "mcl_communication_onboard e = on_communication (in_critical_section e (onboard e))"

definition mcl_communication_rotate_key where
  "mcl_communication_rotate_key e = on_communication (in_critical_section e (rotate_key e))"

definition mcl_communication_update_security_information where
  "mcl_communication_update_security_information e = on_communication (in_critical_section e (update_information e))"

text \<open>The checks that the operations without a critical section begin with.\<close>

definition check_ready :: "communication_t option \<Rightarrow> E_MCL_ERROR_CODE option" where
  "check_ready m = (case m of
      None \<Rightarrow> Some MCL_TRIGGERED_WITH_NULL
    | Some m1 \<Rightarrow>
        if mcl_communication_is_initialized m \<noteq> MCL_TRUE then Some MCL_NOT_INITIALIZED
        else do {
          onboarded \<leftarrow> mcl_communication_is_onboarded m;
          Some (if onboarded \<noteq> MCL_TRUE then MCL_NOT_ONBOARDED else MCL_OK)
        })"

definition mcl_communication_get_access_token ::
    "('bio, 'rsa, 'bn) platform \<Rightarrow> communication_t option \<Rightarrow> file_system \<Rightarrow> world
      \<Rightarrow> (E_MCL_ERROR_CODE \<times> communication_t option \<times> file_system \<times> world) option" where
  "mcl_communication_get_access_token e m fs w = do {
    code \<leftarrow> check_ready m;
    if MCL_OK \<noteq> code then Some (code, m, fs, w) else on_communication (renew_access_token e) m fs w
  }"

section \<open>Exchanging\<close>

definition mcl_communication_exchange ::
    "('bio, 'rsa, 'bn) platform \<Rightarrow> stream_reader \<Rightarrow> communication_t option \<Rightarrow> store_t option \<Rightarrow> store_heap \<Rightarrow> world
      \<Rightarrow> (E_MCL_ERROR_CODE \<times> store_t option \<times> store_heap \<times> world) option" where
  "mcl_communication_exchange e reader m s heap w =
    (if m = None \<or> s = None then Some (MCL_TRIGGERED_WITH_NULL, s, heap, w)
     else do {
       code \<leftarrow> check_ready m;
       if MCL_OK \<noteq> code then Some (code, s, heap, w)
       else do {
         m1 \<leftarrow> m; s1 \<leftarrow> s;
         p \<leftarrow> http_processor_of m1;
         if access_token (processor_security_handler p) = None then Some (MCL_NO_ACCESS_TOKEN_EXISTS, s, heap, w)
         else if store_streamable s1 then Some (http_processor_stream p s1, s, heap, w)
         else do {
           (result, s2, heap1, w1) \<leftarrow>
             http_processor_exchange (random_bytes e) reader (other_number e) (client e) p s1 heap w;
           Some (result, Some s2, heap1, w1)
         }
       }
     })"

text \<open>An exchange that lacks authorization is tried again with a new access token, or with new keys when the server does
  not accept the old ones for a token.\<close>

definition mcl_communication_process ::
    "('bio, 'rsa, 'bn) platform \<Rightarrow> stream_reader \<Rightarrow> communication_t option \<Rightarrow> file_system \<Rightarrow> store_t option \<Rightarrow> store_heap \<Rightarrow> world
      \<Rightarrow> (E_MCL_ERROR_CODE \<times> communication_t option \<times> file_system \<times> store_t option \<times> store_heap \<times> world) option" where
  "mcl_communication_process e reader m fs s heap w = do {
    (result, s1, heap1, w1) \<leftarrow> mcl_communication_exchange e reader m s heap w;
    if MCL_UNAUTHORIZED \<noteq> result \<and> MCL_NO_ACCESS_TOKEN_EXISTS \<noteq> result then Some (result, m, fs, s1, heap1, w1)
    else do {
      (result1, m1, fs1, w2) \<leftarrow> mcl_communication_get_access_token e m fs w1;
      if MCL_OK = result1 then do {
        (result2, s2, heap2, w3) \<leftarrow> mcl_communication_exchange e reader m1 s1 heap1 w2;
        Some (result2, m1, fs1, s2, heap2, w3)
      }
      else if MCL_BAD_REQUEST = result1 then do {
        (result2, m2, fs2, w3) \<leftarrow> mcl_communication_rotate_key e m1 fs1 w2;
        if MCL_OK \<noteq> result2 then Some (result2, m2, fs2, s1, heap1, w3)
        else do {
          (result3, s2, heap2, w4) \<leftarrow> mcl_communication_exchange e reader m2 s1 heap1 w3;
          Some (result3, m2, fs2, s2, heap2, w4)
        }
      }
      else Some (result1, m1, fs1, s1, heap1, w2)
    }
  }"

section \<open>What was received last\<close>

definition copy_out :: "string_t \<Rightarrow> world \<Rightarrow> (E_MCL_ERROR_CODE \<times> char list option \<times> world) option" where
  "copy_out s w = (let len = string_length s + 1 in
    case memory_allocate_with_zero len 1 w of
      (None, w1) \<Rightarrow> Some (MCL_OUT_OF_MEMORY, None, w1)
    | (Some a, w1) \<Rightarrow> do {
        b \<leftarrow> string_buffer s; t \<leftarrow> chars_of b;
        (code, out) \<leftarrow> string_util_snprintf (zeroed (unat len)) len t;
        Some (if MCL_OK \<noteq> code then (code, None, memory_free w1) else (MCL_OK, Some out, w1))
      })"

definition mcl_communication_get_last_access_token ::
    "communication_t option \<Rightarrow> bool \<Rightarrow> world \<Rightarrow> (E_MCL_ERROR_CODE \<times> char list option \<times> world) option" where
  "mcl_communication_get_last_access_token m given w = (case m of
      None \<Rightarrow> Some (MCL_TRIGGERED_WITH_NULL, None, w)
    | Some m1 \<Rightarrow> if \<not> given then Some (MCL_TRIGGERED_WITH_NULL, None, w)
        else do {
          h \<leftarrow> handler m1;
          (case access_token h of
            None \<Rightarrow> Some (MCL_NO_ACCESS_TOKEN_EXISTS, None, w)
          | Some s \<Rightarrow> do {
              (code, out, w1) \<leftarrow> copy_out s w;
              Some (if MCL_OK = code \<or> MCL_OUT_OF_MEMORY = code then code else MCL_FAIL, out, w1)
            })
        })"

definition mcl_communication_get_last_token_time ::
    "communication_t option \<Rightarrow> bool \<Rightarrow> world \<Rightarrow> (E_MCL_ERROR_CODE \<times> char list option \<times> world) option" where
  "mcl_communication_get_last_token_time m given w =
    (if \<not> given then Some (MCL_TRIGGERED_WITH_NULL, None, w)
     else case m of
        None \<Rightarrow> Some (MCL_TRIGGERED_WITH_NULL, None, w)
      | Some m1 \<Rightarrow> do {
          h \<leftarrow> handler m1;
          (case last_token_time h of
            None \<Rightarrow> Some (MCL_NO_SERVER_TIME, None, w)
          | Some s \<Rightarrow> copy_out s w)
        })"

section \<open>Which configurations are taken\<close>

definition terminated :: "char list option \<Rightarrow> bool" where
  "terminated v \<longleftrightarrow> (case v of None \<Rightarrow> True | Some b \<Rightarrow> chars_of b \<noteq> None)"

text \<open>A text that is there, is not empty and does not exceed its limit.\<close>

definition within_limit :: "nat \<Rightarrow> char list option \<Rightarrow> bool" where
  "within_limit limit v \<longleftrightarrow> (case v of None \<Rightarrow> False
    | Some b \<Rightarrow> (case chars_of b of None \<Rightarrow> False | Some t \<Rightarrow> t \<noteq> [] \<and> length t \<le> limit))"

lemma check_text_within:
  assumes "terminated v" "unat limit < 2 ^ 63"
  obtains n where "check_text v limit wrong = Some (if within_limit (unat limit) v then MCL_OK else wrong, n)"
proof (cases v)
  case None
  then show thesis using that by (simp add: check_text_def within_limit_def)
next
  case (Some b)
  then obtain t rest where t: "chars_of b = Some t" "is_text t" "b = t @ NUL # rest"
    using assms(1) chars_of_Some by (fastforce simp: terminated_def)
  have limit: "unat (limit + 1) = unat limit + 1" using assms(2) by (simp add: unat_word_ariths)
  show thesis
  proof (cases "length t \<le> unat limit")
    case True
    have len: "unat (size_of_nat (length t)) = length t" using True assms(2) by (intro unat_size_of_nat) simp
    have "string_util_strnlen b (limit + 1) = Some (size_of_nat (length t))"
      using strnlen_loop_text [OF t(2), of 0 "limit + 1" rest] True limit t(3) unat_less_64 [of limit] by (simp add: string_util_strnlen_def)
    moreover have "0 < size_of_nat (length t) \<longleftrightarrow> t \<noteq> []" using len by (simp add: word_less_nat_alt)
    moreover have "size_of_nat (length t) \<le> limit" using True len by (simp add: word_le_nat_alt)
    ultimately show thesis using that t(1) True Some by (simp add: check_text_def within_limit_def)
  next
    case False
    then have "string_util_strnlen b (limit + 1) = Some (limit + 1)"
      using strnlen_loop_limit [OF t(2), of "limit + 1" 0 "unat limit + 1" "NUL # rest"] limit t(3) by (simp add: string_util_strnlen_def)
    moreover have "\<not> limit + 1 \<le> limit" using limit by (simp add: word_le_nat_alt)
    ultimately show thesis using that t(1) False Some by (simp add: check_text_def within_limit_def)
  qed
qed

definition proxy_acceptable :: "mcl_configuration_t \<Rightarrow> bool" where
  "proxy_acceptable c \<longleftrightarrow> (mcl_proxy_hostname c \<noteq> None \<longrightarrow> within_limit 256 (mcl_proxy_hostname c)
        \<and> (mcl_proxy_username c \<noteq> None \<longrightarrow> within_limit 32 (mcl_proxy_username c) \<and> within_limit 32 (mcl_proxy_password c)
          \<and> (mcl_proxy_domain c \<noteq> None \<longrightarrow> within_limit 256 (mcl_proxy_domain c))))"

lemma profile_checked:
  "profile_value MCL_SECURITY_RSA_3072 \<ge> profile_value p \<longleftrightarrow> p \<in> {MCL_SECURITY_SHARED_SECRET, MCL_SECURITY_RSA_3072}"
  by (cases p) (simp_all add: profile_value_def)

text \<open>The configurations that \<open>mcl_communication_initialize\<close> accepts.  A user of the proxy counts with a proxy only, and needs
  a password.\<close>

definition acceptable :: "mcl_configuration_t \<Rightarrow> bool" where
  "acceptable c \<longleftrightarrow> within_limit 256 (mcl_mindsphere_hostname c)
    \<and> proxy_acceptable c \<and> mcl_security_profile c \<in> {MCL_SECURITY_SHARED_SECRET, MCL_SECURITY_RSA_3072}
    \<and> within_limit 512 (mcl_user_agent c) \<and> mcl_tenant c \<noteq> None
    \<and> 400 \<le> mcl_max_http_payload_size c \<and> mcl_max_http_payload_size c \<le> 10485760"

definition texts_terminated :: "mcl_configuration_t \<Rightarrow> bool" where
  "texts_terminated c \<longleftrightarrow> (\<forall>v \<in> {mcl_mindsphere_hostname c, mcl_proxy_hostname c, mcl_proxy_username c, mcl_proxy_password c,
      mcl_proxy_domain c, mcl_user_agent c, mcl_tenant c}. terminated v)"

lemmas limits = MAXIMUM_HOST_NAME_LENGTH_def MAXIMUM_PROXY_USER_NAME_LENGTH_def MAXIMUM_PROXY_PASSWORD_LENGTH_def
  MAXIMUM_PROXY_DOMAIN_LENGTH_def MAXIMUM_USER_AGENT_LENGTH_def MIN_HTTP_PAYLOAD_SIZE_def MCL_MAXIMUM_HTTP_PAYLOAD_SIZE_def

lemma validate_configuration_decides:
  assumes "texts_terminated c"
  obtains code n where "validate_configuration c = Some (code, n)" "code = MCL_OK \<longleftrightarrow> acceptable c"
proof -
  have given: "terminated (mcl_mindsphere_hostname c)" "terminated (mcl_proxy_hostname c)" "terminated (mcl_proxy_username c)"
    "terminated (mcl_proxy_password c)" "terminated (mcl_proxy_domain c)" "terminated (mcl_user_agent c)" "terminated (mcl_tenant c)"
    using assms by (simp_all add: texts_terminated_def)
  obtain n1 where 1: "check_text (mcl_mindsphere_hostname c) 256 MCL_INVALID_HOST_NAME
      = Some (if within_limit 256 (mcl_mindsphere_hostname c) then MCL_OK else MCL_INVALID_HOST_NAME, n1)"
    using check_text_within [OF given(1), of 256 MCL_INVALID_HOST_NAME] by auto
  obtain n2 where 2: "check_text (mcl_proxy_hostname c) 256 MCL_INVALID_PROXY_HOST_NAME
      = Some (if within_limit 256 (mcl_proxy_hostname c) then MCL_OK else MCL_INVALID_PROXY_HOST_NAME, n2)"
    using check_text_within [OF given(2), of 256 MCL_INVALID_PROXY_HOST_NAME] by auto
  obtain n3 where 3: "check_text (mcl_proxy_username c) 32 MCL_INVALID_PROXY_USER_NAME
      = Some (if within_limit 32 (mcl_proxy_username c) then MCL_OK else MCL_INVALID_PROXY_USER_NAME, n3)"
    using check_text_within [OF given(3), of 32 MCL_INVALID_PROXY_USER_NAME] by auto
  obtain n4 where 4: "check_text (mcl_proxy_password c) 32 MCL_INVALID_PROXY_PASSWORD
      = Some (if within_limit 32 (mcl_proxy_password c) then MCL_OK else MCL_INVALID_PROXY_PASSWORD, n4)"
    using check_text_within [OF given(4), of 32 MCL_INVALID_PROXY_PASSWORD] by auto
  obtain n5 where 5: "check_text (mcl_proxy_domain c) 256 MCL_INVALID_PROXY_DOMAIN
      = Some (if within_limit 256 (mcl_proxy_domain c) then MCL_OK else MCL_INVALID_PROXY_DOMAIN, n5)"
    using check_text_within [OF given(5), of 256 MCL_INVALID_PROXY_DOMAIN] by auto
  obtain n6 where 6: "check_text (mcl_user_agent c) 512 MCL_INVALID_USER_AGENT
      = Some (if within_limit 512 (mcl_user_agent c) then MCL_OK else MCL_INVALID_USER_AGENT, n6)"
    using check_text_within [OF given(6), of 512 MCL_INVALID_USER_AGENT] by auto
  obtain k p1 p2 p3 p4 where proxy: "validate_proxy c = Some (k, p1, p2, p3, p4)"
    "k = MCL_OK \<longleftrightarrow> proxy_acceptable c"
    by (cases "mcl_proxy_hostname c = None"; cases "mcl_proxy_username c = None"; cases "mcl_proxy_domain c = None";
        cases "within_limit 256 (mcl_proxy_hostname c)"; cases "within_limit 32 (mcl_proxy_username c)";
        cases "within_limit 32 (mcl_proxy_password c)") (simp_all add: validate_proxy_def proxy_acceptable_def limits 2 3 4 5)
  have tenant: "\<exists>len. string_util_strlen t = Some len" if "mcl_tenant c = Some t" for t
    using given(7) that by (auto simp: terminated_def string_util_strlen_def)
  show thesis
  proof (cases "mcl_tenant c")
    case None
    then show thesis using that 1 6 proxy
      by (cases "within_limit 256 (mcl_mindsphere_hostname c)"; cases "k = MCL_OK"; cases "mcl_security_profile c \<in> {MCL_SECURITY_SHARED_SECRET, MCL_SECURITY_RSA_3072}"; cases "within_limit 512 (mcl_user_agent c)")
        (simp_all add: validate_configuration_def acceptable_def limits profile_checked)
  next
    case (Some t)
    then obtain len where "string_util_strlen t = Some len" using tenant by blast
    then show thesis using that 1 6 proxy Some
      by (cases "within_limit 256 (mcl_mindsphere_hostname c)"; cases "k = MCL_OK"; cases "mcl_security_profile c \<in> {MCL_SECURITY_SHARED_SECRET, MCL_SECURITY_RSA_3072}"; cases "within_limit 512 (mcl_user_agent c)";
          cases "400 \<le> mcl_max_http_payload_size c"; cases "mcl_max_http_payload_size c \<le> 10485760")
        (simp_all add: validate_configuration_def acceptable_def limits profile_checked)
  qed
qed

text \<open>C22: making a handle takes exactly the configurations whose texts are there, not empty and within their limits, that name
  one of the two security profiles and a tenant, and whose payload size lies between 400 and 10485760; any other is refused
  before anything is allocated or a file is opened.\<close>

theorem mcl_communication_initialize_checks:
  assumes "texts_terminated c"
  shows "\<exists>code n. validate_configuration c = Some (code, n) \<and> (code = MCL_OK \<longleftrightarrow> acceptable c)
    \<and> (\<not> acceptable c \<longrightarrow> mcl_communication_initialize e version old old_handler (Some c) True fs w = Some (code, None, fs, w))"
proof -
  obtain code n where "validate_configuration c = Some (code, n)" "code = MCL_OK \<longleftrightarrow> acceptable c"
    using assms by (rule validate_configuration_decides)
  then show ?thesis by (auto simp: mcl_communication_initialize_def)
qed

definition sample_configuration :: mcl_configuration_t where
  "sample_configuration = \<lparr>mcl_mindsphere_hostname = Some (cstring ''h''), mcl_mindsphere_port = 443, mcl_mindsphere_certificate = None,
    mcl_proxy_hostname = None, mcl_proxy_port = 0, mcl_proxy_type = MCL_PROXY_UNKNOWN, mcl_proxy_username = None,
    mcl_proxy_password = None, mcl_proxy_domain = None, mcl_security_profile = MCL_SECURITY_SHARED_SECRET,
    mcl_max_http_payload_size = 16384, mcl_http_request_timeout = 300, mcl_user_agent = Some (cstring ''agent''),
    mcl_initial_access_token = Some (cstring ''token''), mcl_tenant = Some (cstring ''tenant''), mcl_store_path = None\<rparr>"

lemma mcl_communication_initialize_checks_witness:
  "(\<exists>n. validate_configuration sample_configuration = Some (MCL_OK, n))
    \<and> (\<exists>code. mcl_communication_initialize bare_platform ''3.1.3.0'' (processor_configuration sample_processor) blank_handler
      (Some (sample_configuration\<lparr>mcl_security_profile := MCL_SECURITY_other 0\<rparr>)) True empty_disk quiet_world
      = Some (code, None, empty_disk, quiet_world) \<and> code \<noteq> MCL_OK)"
proof -
  let ?odd = "sample_configuration\<lparr>mcl_security_profile := MCL_SECURITY_other 0\<rparr>"
  have "texts_terminated sample_configuration" "texts_terminated ?odd"
    by (simp_all add: texts_terminated_def terminated_def sample_configuration_def cstring_def)
  moreover have "acceptable sample_configuration" "\<not> acceptable ?odd"
    by (simp_all add: acceptable_def proxy_acceptable_def within_limit_def sample_configuration_def cstring_def)
  ultimately show ?thesis
    using mcl_communication_initialize_checks [of sample_configuration bare_platform "''3.1.3.0''" "processor_configuration sample_processor"
        blank_handler empty_disk quiet_world]
      mcl_communication_initialize_checks [of ?odd bare_platform "''3.1.3.0''" "processor_configuration sample_processor"
        blank_handler empty_disk quiet_world]
    by blast
qed

text \<open>When memory runs out at the line for the agent, the function leaves a handle that it reported as failed: asking
  it whether it is onboarded reads through the processor it does not have.\<close>

theorem mcl_communication_initialize_leaves_handle:
  "case mcl_communication_initialize bare_platform ''3.1.3.0'' (processor_configuration sample_processor) blank_handler
      (Some sample_configuration) True empty_disk (quiet_world\<lparr>upcoming := [True, True, True, False]\<rparr>) of
      Some (code, Some m, fs1, w1) \<Rightarrow> code = MCL_OUT_OF_MEMORY \<and> live w1 = live quiet_world + 3
        \<and> mcl_communication_is_initialized (Some m) = MCL_FALSE \<and> mcl_communication_is_onboarded (Some m) = None
    | _ \<Rightarrow> False"
  by code_simp

end
