(* ===== verification/MCL_Agent.thy ===== *)
theory MCL_Agent
  imports MCL_Communication
begin

text \<open>
  The agent over its life: the operations of \<^verbatim>\<open>communication.c\<close> as steps that follow each other in any order.  The locale
  \<open>agent_invariant\<close> says what an invariant needs, and is interpreted for the registration; the theorems about onboarding,
  updating and processing are those of the public interface.
\<close>

section \<open>A registration is whole\<close>

text \<open>A handle that has an access token for its registration has the rest of the registration as well.\<close>

definition registration_is_whole :: "communication_t \<Rightarrow> bool" where
  "registration_is_whole m \<longleftrightarrow> (\<forall>h. handler m = Some h \<longrightarrow> registration_access_token h \<noteq> None \<longrightarrow> None \<notin> set (registration_strings h))"

text \<open>The operations that may change the state of a handle; what the files and the memory are like when one is called is
  left open, so that other processes may change the files in between.\<close>

inductive agent_step :: "('bio, 'rsa, 'bn) platform \<Rightarrow> communication_t \<Rightarrow> communication_t \<Rightarrow> bool" for e where
  step_onboard: "mcl_communication_onboard e (Some m) fs w = Some (code, Some m1, fs1, w1) \<Longrightarrow> agent_step e m m1"
| step_rotate: "mcl_communication_rotate_key e (Some m) fs w = Some (code, Some m1, fs1, w1) \<Longrightarrow> agent_step e m m1"
| step_update: "mcl_communication_update_security_information e (Some m) fs w = Some (code, Some m1, fs1, w1) \<Longrightarrow> agent_step e m m1"
| step_token: "mcl_communication_get_access_token e (Some m) fs w = Some (code, Some m1, fs1, w1) \<Longrightarrow> agent_step e m m1"

inductive agent_runs :: "('bio, 'rsa, 'bn) platform \<Rightarrow> communication_t \<Rightarrow> communication_t \<Rightarrow> bool" for e m where
  runs_start: "agent_runs e m m"
| runs_step: "agent_runs e m m1 \<Longrightarrow> agent_step e m1 m2 \<Longrightarrow> agent_runs e m m2"

text \<open>What every operation shows of the handle it is given: its configuration stays, and its registration stays whole.\<close>

definition keeps_registration :: "communication_t \<Rightarrow> communication_t \<Rightarrow> bool" where
  "keeps_registration m m1 \<longleftrightarrow> (security_profile (configuration m) = MCL_SECURITY_SHARED_SECRET \<and> registration_is_whole m
    \<longrightarrow> configuration m1 = configuration m \<and> registration_is_whole m1)"

lemma keeps_registration_refl [simp]: "keeps_registration m m"
  by (simp add: keeps_registration_def)

lemma keeps_registration_trans: "keeps_registration m m1 \<Longrightarrow> keeps_registration m1 m2 \<Longrightarrow> keeps_registration m m2"
  by (simp add: keeps_registration_def)

lemma processor_of_with_processor [simp]: "http_processor_of (with_processor p m) = Some p"
  by (cases p) (simp add: http_processor_of_def with_processor_def)

lemma http_processor_of_given: "http_processor_of m = Some p \<Longrightarrow>
    handler m = Some (processor_security_handler p) \<and> configuration m = processor_configuration p"
  by (auto simp: http_processor_of_def split: option.splits)

lemma operation_cases:
  assumes "on_communication (in_critical_section e operate) (Some m) fs w = Some (code, Some m1, fs1, w1)"
    and "\<And>fs w code m1 fs1 w1. operate m fs w = Some (code, m1, fs1, w1) \<Longrightarrow> P m1" "P m"
  shows "P m1"
  using assms by (auto simp: on_communication_def in_critical_section_def bind_eq_Some_conv split: option.splits prod.splits if_splits)

lemma replaced_is_whole:
  assumes "process_registration_response_shared_secret pow10 h response w = Some (code, h1, w1)"
    and "registration_access_token h \<noteq> None \<Longrightarrow> None \<notin> set (registration_strings h)" "registration_access_token h1 \<noteq> None"
  shows "None \<notin> set (registration_strings h1)"
proof -
  have "registration_strings h1 = [None, None, None, None] \<Longrightarrow> False" using assms(3) by (simp add: registration_strings_def)
  moreover have "registration_strings h1 = registration_strings h \<Longrightarrow> registration_access_token h \<noteq> None"
    using assms(3) by (simp add: registration_strings_def)
  ultimately show ?thesis using registration_replaced [OF assms(1)] assms(2) by (auto split: if_splits)
qed

lemma register_processor_keeps:
  assumes "register_processor e m fs w = Some (code, m1, fs1, w1)"
  shows "keeps_registration m m1"
proof -
  obtain p p1 where p: "http_processor_of m = Some p" "http_processor_register e p fs w = Some (code, p1, fs1, w1)" "m1 = with_processor p1 m"
    using assms by (auto simp: register_processor_def bind_eq_Some_conv)
  note m = http_processor_of_given [OF p(1)]
  show ?thesis
  proof (cases "security_profile (configuration m) = MCL_SECURITY_SHARED_SECRET")
    case True
    then have "security_profile (processor_configuration p) = MCL_SECURITY_SHARED_SECRET" using m by simp
    note register = http_processor_register_handler [OF p(2) this]
    then have "None \<notin> set (registration_strings (processor_security_handler p1))"
      if "registration_access_token (processor_security_handler p1) \<noteq> None"
        "registration_access_token (processor_security_handler p) \<noteq> None \<Longrightarrow> None \<notin> set (registration_strings (processor_security_handler p))"
      using that replaced_is_whole [OF _ that(2,1)] by auto
    then show ?thesis using p(3) m register
      by (simp add: keeps_registration_def registration_is_whole_def with_processor_def)
  qed (simp add: keeps_registration_def)
qed

lemma renew_access_token_keeps:
  assumes "renew_access_token e m fs w = Some (code, m1, fs1, w1)"
  shows "keeps_registration m m1" "fs1 = fs"
    "map_option registration_strings (handler m1) = map_option registration_strings (handler m)"
proof -
  obtain p p1 where p: "http_processor_of m = Some p" "http_processor_get_access_token e p w = Some (code, p1, w1)"
      "m1 = with_processor p1 m" "fs1 = fs"
    using assms by (auto simp: renew_access_token_def bind_eq_Some_conv)
  note m = http_processor_of_given [OF p(1)]
  have "registration_strings (processor_security_handler p1) = registration_strings (processor_security_handler p)"
    and c: "processor_configuration p1 = processor_configuration p"
    using http_processor_get_access_token_keeps [OF p(2)] by simp_all
  moreover from this have "registration_access_token (processor_security_handler p1) = registration_access_token (processor_security_handler p)"
    by (simp add: registration_strings_def)
  ultimately show "keeps_registration m m1" "fs1 = fs"
    "map_option registration_strings (handler m1) = map_option registration_strings (handler m)"
    using p(3,4) m by (simp_all add: keeps_registration_def registration_is_whole_def with_processor_def)
qed

lemma and_renew_keeps:
  assumes "and_renew e wanted result m fs w = Some (code, m1, fs1, w1)"
  shows "keeps_registration m m1" "fs1 = fs" "code = result"
    "map_option registration_strings (handler m1) = map_option registration_strings (handler m)"
  using assms renew_access_token_keeps by (auto simp: and_renew_def bind_eq_Some_conv split: if_splits)

lemma onboard_keeps:
  assumes "onboard e m fs w = Some (code, m1, fs1, w1)"
  shows "keeps_registration m m1"
  using assms register_processor_keeps keeps_registration_trans [OF _ and_renew_keeps(1)] and_renew_keeps(1)
  by (fastforce simp: onboard_def bind_eq_Some_conv split: if_splits)

lemma rotate_key_keeps:
  assumes "rotate_key e m fs w = Some (code, m1, fs1, w1)"
  shows "keeps_registration m m1"
  using assms register_processor_keeps keeps_registration_trans [OF _ and_renew_keeps(1)]
  by (fastforce simp: rotate_key_def bind_eq_Some_conv split: if_splits)

lemma update_information_keeps:
  assumes "update_information e m fs w = Some (code, m1, fs1, w1)"
  shows "keeps_registration m m1"
proof (cases "m1 = m")
  case False
  then obtain p p1 c f1 v1 where p: "http_processor_of m = Some p" "mcl_communication_is_onboarded (Some m) \<noteq> Some MCL_FALSE"
      "http_processor_update_security_information e p fs w = Some (c, p1, f1, v1)"
      "and_renew e (MCL_OK = c) c (with_processor p1 m) f1 v1 = Some (code, m1, fs1, w1)"
    using assms by (auto simp: update_information_def bind_eq_Some_conv split: if_splits)
  note m = http_processor_of_given [OF p(1)]
  have "registration_access_token (processor_security_handler p) \<noteq> None"
    using p(2) m by (auto simp: mcl_communication_is_onboarded_def split: if_splits)
  then have "keeps_registration m (with_processor p1 m)"
    using m http_processor_update_keeps [OF p(3)]
    by (auto simp: keeps_registration_def registration_is_whole_def with_processor_def)
  then show ?thesis using and_renew_keeps(1) [OF p(4)] by (rule keeps_registration_trans)
qed simp

text \<open>What every operation keeps holds in every state an agent comes to.\<close>

locale agent_invariant =
  fixes e :: "('bio, 'rsa, 'bn) platform" and good :: "communication_t \<Rightarrow> bool"
  assumes onboard_good: "good m \<Longrightarrow> onboard e m fs w = Some (code, m1, fs1, w1) \<Longrightarrow> good m1"
    and rotate_good: "good m \<Longrightarrow> rotate_key e m fs w = Some (code, m1, fs1, w1) \<Longrightarrow> good m1"
    and update_good: "good m \<Longrightarrow> update_information e m fs w = Some (code, m1, fs1, w1) \<Longrightarrow> good m1"
    and renew_good: "good m \<Longrightarrow> renew_access_token e m fs w = Some (code, m1, fs1, w1) \<Longrightarrow> good m1"
begin

lemma step_good: "agent_step e m m1 \<Longrightarrow> good m \<Longrightarrow> good m1"
proof (induction rule: agent_step.induct)
  case (step_onboard m fs w code m1 fs1 w1)
  from step_onboard.hyps [unfolded mcl_communication_onboard_def] show ?case
    by (rule operation_cases) (use step_onboard.prems onboard_good in blast)+
next
  case (step_rotate m fs w code m1 fs1 w1)
  from step_rotate.hyps [unfolded mcl_communication_rotate_key_def] show ?case
    by (rule operation_cases) (use step_rotate.prems rotate_good in blast)+
next
  case (step_update m fs w code m1 fs1 w1)
  from step_update.hyps [unfolded mcl_communication_update_security_information_def] show ?case
    by (rule operation_cases) (use step_update.prems update_good in blast)+
next
  case (step_token m fs w code m1 fs1 w1)
  then show ?case
    by (auto simp: mcl_communication_get_access_token_def on_communication_def bind_eq_Some_conv
        intro: renew_good split: if_splits)
qed

lemma runs_good: "agent_runs e m m1 \<Longrightarrow> good m \<Longrightarrow> good m1"
  by (induction rule: agent_runs.induct) (auto intro: step_good)

end

definition registered_with :: "configuration_t \<Rightarrow> communication_t \<Rightarrow> bool" where
  "registered_with c m \<longleftrightarrow> configuration m = c \<and> security_profile c = MCL_SECURITY_SHARED_SECRET \<and> registration_is_whole m"

lemma keeps_registered: "registered_with c m \<Longrightarrow> keeps_registration m m1 \<Longrightarrow> registered_with c m1"
  by (auto simp: registered_with_def keeps_registration_def)

interpretation registered: agent_invariant e "registered_with c" for e c
  by unfold_locales (erule keeps_registered, erule onboard_keeps rotate_key_keeps update_information_keeps renew_access_token_keeps(1))+

text \<open>C3: whatever operations an agent with a shared secret goes through, in whatever order, with files that others may
  change in between and memory that may run out at any time, it never holds half a registration: with a registration access
  token it has the client, its secret and the address as well.\<close>

theorem registration_stays_whole:
  assumes "agent_runs e m m1" "security_profile (configuration m) = MCL_SECURITY_SHARED_SECRET" "registration_is_whole m"
  shows "registration_is_whole m1 \<and> configuration m1 = configuration m"
  using registered.runs_good [OF assms(1), of "configuration m"] assms(2,3) by (simp add: registered_with_def)

text \<open>C21: an agent that is onboarded is not registered again: onboarding it once more sends no registration, answers
  \<open>MCL_ALREADY_ONBOARDED\<close>, leaves the files and the registration as they are and only asks for a new access token, whose
  failure it does not report.\<close>

theorem onboarded_agent_registers_once:
  assumes "mcl_communication_is_initialized (Some m) = MCL_TRUE" "mcl_communication_is_onboarded (Some m) = Some MCL_TRUE"
    and "enter_critical_section e = None"
    and "mcl_communication_onboard e (Some m) fs w = Some (code, Some m1, fs1, w1)"
  shows "code = MCL_ALREADY_ONBOARDED \<and> fs1 = fs \<and> mcl_communication_is_onboarded (Some m1) = Some MCL_TRUE
    \<and> map_option registration_strings (handler m1) = map_option registration_strings (handler m)
    \<and> (\<exists>c. renew_access_token e m fs w = Some (c, m1, fs1, w1))"
proof -
  have "onboard e m fs w = Some (code, m1, fs1, w1)"
    using assms(3,4) by (auto simp: mcl_communication_onboard_def on_communication_def in_critical_section_def bind_eq_Some_conv)
  then have run: "and_renew e True MCL_ALREADY_ONBOARDED m fs w = Some (code, m1, fs1, w1)"
    using assms(1,2) by (simp add: onboard_def MCL_TRUE_def MCL_FALSE_def)
  note keeps = and_renew_keeps [OF run]
  then have "mcl_communication_is_onboarded (Some m1) = mcl_communication_is_onboarded (Some m)"
    by (cases "handler m"; cases "handler m1") (auto simp: mcl_communication_is_onboarded_def registration_strings_def)
  then show ?thesis using keeps run assms(2) by (auto simp: and_renew_def bind_eq_Some_conv)
qed

section \<open>Processing a store\<close>

text \<open>C2: an onboarded agent with an access token processes a store as the exchange does: when the server accepts every
  request and no items fill a request to its last characters, it reports success, all items are delivered and the store is empty;
  no token is asked for, no key is rotated, and the agent and the files stay as they are.\<close>

theorem mcl_communication_process_delivers:
  assumes "mcl_communication_is_initialized (Some m) = MCL_TRUE" "mcl_communication_is_onboarded (Some m) = Some MCL_TRUE"
    and "http_processor_of m = Some p" "able_to_exchange (random_bytes e) p" "reliable (random_bytes e)"
    and "client_ok (client e)" "accepting (client e)" "upcoming w = []"
    and "store_contents s h ds" "\<forall>(a, d) \<in> set ds. has_texts (other_number e) (T a) d" "deliverable p T ds" "ds \<noteq> []"
  shows "\<exists>s' h' w'. mcl_communication_process e reader (Some m) fs (Some s) h w = Some (MCL_OK, Some m, fs, Some s', h', w')
    \<and> store_contents s' h' []"
proof -
  obtain s' h' w' where run: "http_processor_exchange (random_bytes e) reader (other_number e) (client e) p s h w = Some (MCL_OK, s', h', w')"
      "store_contents s' h' []"
    using exchange_delivers [OF assms(9,10,4,6,8,5,7,11,12), of reader] by blast
  have "access_token (processor_security_handler p) \<noteq> None" using assms(4) by (auto simp: able_to_exchange_def)
  moreover have "\<not> store_streamable s" using assms(9) by (auto simp: store_contents_def)
  ultimately have "mcl_communication_exchange e reader (Some m) (Some s) h w = Some (MCL_OK, Some s', h', w')"
    using run(1) assms(1-3) by (auto simp: mcl_communication_exchange_def check_ready_def)
  then show ?thesis using run(2) by (auto simp: mcl_communication_process_def)
qed

section \<open>Taking over a registration from a file that is not there\<close>

text \<open>C39: an agent that keeps its registration in a file takes over what the file holds without a look at whether the file
  could be read: without the file it reads through the strings that were not loaded.\<close>

theorem update_without_file_crashes:
  assumes "mcl_communication_is_initialized (Some m) = MCL_TRUE" "mcl_communication_is_onboarded (Some m) = Some MCL_TRUE"
    and "enter_critical_section e = None" "\<not> callbacks_are_used e"
    and "security_profile (configuration m) = MCL_SECURITY_SHARED_SECRET"
    and "store_path (configuration m) = Some f" "says f path" "stored fs path = None"
  shows "mcl_communication_update_security_information e (Some m) fs w = None"
proof -
  obtain p where p: "http_processor_of m = Some p"
    using assms(2) by (auto simp: mcl_communication_is_onboarded_def http_processor_of_def bind_eq_Some_conv)
  then have c: "processor_configuration p = configuration m" using http_processor_of_given by simp
  obtain x where x: "buffer_of (Some f) = Some x" "chars_of x = Some path" using says_chars [OF assms(7)] by blast
  have "stored (snd (next_outcome fs)) path = None" using assms(8) by (auto simp: next_outcome_def split: list.splits)
  then obtain k fs1 where "file_util_open x Reading fs = Some (k, None, fs1)"
    using x(2) by (cases "next_outcome fs"; cases "fst (next_outcome fs)") (auto simp: file_util_open_def Let_def)
  then have "\<exists>code fs1 w1. storage_load_shared_secret_registration_information (Some f) (None, None, None, None) fs w
      = Some (code, (None, None, None, None), fs1, w1)"
    using x(1) by (simp add: storage_load_shared_secret_registration_information_def Let_def split: option.splits prod.splits)
  then have "load_information e (configuration m) fs w = None"
    using assms(4-6) by (auto simp: load_information_def)
  then have "update_information e m fs w = None"
    using assms(1,2,4,6) p c by (simp add: update_information_def http_processor_update_security_information_def MCL_TRUE_def MCL_FALSE_def)
  then show ?thesis using assms(3)
    by (simp add: mcl_communication_update_security_information_def on_communication_def in_critical_section_def)
qed

section \<open>Examples\<close>

definition sample_agent :: communication_t where
  "sample_agent = \<lparr>configuration = processor_configuration new_agent,
    handler = Some (blank_handler\<lparr>client_id := Some (handle_of ''id''), client_secret := Some (handle_of ''secret''),
      registration_access_token := Some (handle_of ''token''), registration_client_uri := Some (handle_of ''uri'')\<rparr>),
    initialized = True\<rparr>"

lemma sample_agent_onboarded:
  "mcl_communication_is_initialized (Some sample_agent) = MCL_TRUE"
  "mcl_communication_is_onboarded (Some sample_agent) = Some MCL_TRUE"
  by (simp_all add: mcl_communication_is_initialized_def mcl_communication_is_onboarded_def sample_agent_def)

lemma update_without_file_crashes_witness:
  "mcl_communication_update_security_information bare_platform (Some sample_agent) empty_disk quiet_world = None"
  by (rule update_without_file_crashes [OF sample_agent_onboarded, where f = "handle_of ''f''" and path = "''f''"])
    (simp_all add: bare_platform_def callbacks_are_used_def sample_agent_def new_agent_def sample_processor_def says_handle_of empty_disk_def)

text \<open>A world in which the next allocations fail, so that the agent does not come to send a request.\<close>

definition full_world :: world where
  "full_world = quiet_world\<lparr>upcoming := [False, False, False, False]\<rparr>"

lemma sample_renewal:
  obtains c m1 w1 where "renew_access_token bare_platform sample_agent fs full_world = Some (c, m1, fs, w1)"
proof -
  have "case renew_access_token bare_platform sample_agent empty_disk full_world of None \<Rightarrow> False | _ \<Rightarrow> True"
    by code_simp
  then show thesis using that by (auto simp: renew_access_token_def bind_eq_Some_conv split: option.splits)
qed

lemma sample_onboarding:
  obtains m1 w1 where "mcl_communication_onboard bare_platform (Some sample_agent) empty_disk full_world
    = Some (MCL_ALREADY_ONBOARDED, Some m1, empty_disk, w1)"
proof -
  obtain c m1 w1 where "renew_access_token bare_platform sample_agent empty_disk full_world = Some (c, m1, empty_disk, w1)"
    by (rule sample_renewal)
  then show thesis using that sample_agent_onboarded
    by (simp add: mcl_communication_onboard_def on_communication_def in_critical_section_def onboard_def and_renew_def
        bare_platform_def MCL_TRUE_def MCL_FALSE_def)
qed

lemma onboarded_agent_registers_once_witness:
  "\<exists>m1 w1. mcl_communication_onboard bare_platform (Some sample_agent) empty_disk full_world
      = Some (MCL_ALREADY_ONBOARDED, Some m1, empty_disk, w1)
    \<and> map_option registration_strings (handler m1) = map_option registration_strings (handler sample_agent)"
proof -
  obtain m1 w1 where run: "mcl_communication_onboard bare_platform (Some sample_agent) empty_disk full_world
    = Some (MCL_ALREADY_ONBOARDED, Some m1, empty_disk, w1)" by (rule sample_onboarding)
  have "enter_critical_section bare_platform = None" by (simp add: bare_platform_def)
  then show ?thesis using onboarded_agent_registers_once [OF sample_agent_onboarded _ run] run by blast
qed

lemma registration_stays_whole_witness:
  "\<exists>m1. agent_runs bare_platform sample_agent m1 \<and> registration_is_whole m1 \<and> configuration m1 = configuration sample_agent"
proof -
  obtain m1 w1 where "mcl_communication_onboard bare_platform (Some sample_agent) empty_disk full_world
    = Some (MCL_ALREADY_ONBOARDED, Some m1, empty_disk, w1)" by (rule sample_onboarding)
  then have run: "agent_runs bare_platform sample_agent m1" by (intro runs_step [OF runs_start]) (rule step_onboard)
  have "security_profile (configuration sample_agent) = MCL_SECURITY_SHARED_SECRET" "registration_is_whole sample_agent"
    by (simp_all add: sample_agent_def new_agent_def registration_is_whole_def registration_strings_def)
  then show ?thesis using registration_stays_whole [OF run] run by blast
qed

definition accepted_platform :: "(unit, unit, unit) platform" where
  "accepted_platform = bare_platform\<lparr>client := sample_client\<rparr>"

definition working_agent :: communication_t where
  "working_agent = \<lparr>configuration = processor_configuration sample_processor,
    handler = Some (blank_handler\<lparr>access_token := Some (handle_of ''token''), registration_access_token := Some (handle_of ''token'')\<rparr>),
    initialized = True\<rparr>"

lemma mcl_communication_process_delivers_witness:
  "\<exists>s' h' w'. mcl_communication_process accepted_platform (\<lambda>_ _ _. None) (Some working_agent) empty_disk (Some sample_store)
      sample_heap quiet_world = Some (MCL_OK, Some working_agent, empty_disk, Some s', h', w')
    \<and> store_contents s' h' []"
proof -
  let ?p = "\<lparr>processor_configuration = configuration working_agent,
    processor_security_handler = blank_handler\<lparr>access_token := Some (handle_of ''token''), registration_access_token := Some (handle_of ''token'')\<rparr>\<rparr>"
  have "able_to_exchange counting_source ?p"
    using sample_able(1) by (simp add: able_to_exchange_def working_agent_def sample_processor_def)
  moreover have "deliverable ?p (\<lambda>_. sample_texts) [(5, sample_item)]"
    using sample_deliverable by (simp add: deliverable_def working_agent_def sample_processor_def)
  moreover have "other_number accepted_platform = no_other" "random_bytes accepted_platform = counting_source" "client accepted_platform = sample_client"
    by (simp_all add: accepted_platform_def bare_platform_def no_other_def fun_eq_iff)
  moreover have "mcl_communication_is_initialized (Some working_agent) = MCL_TRUE" "http_processor_of working_agent = Some ?p"
    "mcl_communication_is_onboarded (Some working_agent) = Some MCL_TRUE"
    by (simp_all add: mcl_communication_is_initialized_def mcl_communication_is_onboarded_def http_processor_of_def working_agent_def)
  ultimately show ?thesis
    using sample_exchange by (intro mcl_communication_process_delivers [where p = ?p and T = "\<lambda>_. sample_texts" and ds = "[(5, sample_item)]"])
      (simp_all add: quiet_world_def)
qed

end
