(* ===== verification/MCL_Http_Client.thy ===== *)
theory MCL_Http_Client
  imports MCL_Registration
begin

text \<open>
  The HTTP client \<^verbatim>\<open>http_client_libcurl.c\<close>: how a request is handed to libcurl and how the response is made of what comes
  back.  libcurl is a parameter, the record \<open>libcurl\<close>: a request that is performed gives the calls that are made of the three
  callbacks, its result and the status.  The callback that gives the certificates to OpenSSL, the one that logs, and
  \<^verbatim>\<open>curl_global_init_mem\<close> are left out.
\<close>

section \<open>libcurl\<close>

datatype CURLcode =
    CURLE_OK | CURLE_COULDNT_RESOLVE_PROXY | CURLE_COULDNT_RESOLVE_HOST | CURLE_COULDNT_CONNECT | CURLE_OUT_OF_MEMORY
  | CURLE_SSL_CONNECT_ERROR | CURLE_PEER_FAILED_VERIFICATION | CURLE_SEND_ERROR | CURLE_RECV_ERROR | CURLE_SSL_CERTPROBLEM
  | CURLE_SSL_CACERT | CURLE_OPERATION_TIMEDOUT | CURLE_other nat

definition convert_to_mcl_error_code :: "CURLcode \<Rightarrow> E_MCL_ERROR_CODE" where
  "convert_to_mcl_error_code curl_code = (case curl_code of
      CURLE_OK \<Rightarrow> MCL_OK
    | CURLE_COULDNT_RESOLVE_PROXY \<Rightarrow> MCL_COULD_NOT_RESOLVE_PROXY
    | CURLE_COULDNT_RESOLVE_HOST \<Rightarrow> MCL_COULD_NOT_RESOLVE_HOST
    | CURLE_COULDNT_CONNECT \<Rightarrow> MCL_COULD_NOT_CONNECT
    | CURLE_OUT_OF_MEMORY \<Rightarrow> MCL_OUT_OF_MEMORY
    | CURLE_SSL_CONNECT_ERROR \<Rightarrow> MCL_SSL_HANDSHAKE_FAIL
    | CURLE_PEER_FAILED_VERIFICATION \<Rightarrow> MCL_SERVER_CERTIFICATE_NOT_VERIFIED
    | CURLE_SEND_ERROR \<Rightarrow> MCL_NETWORK_SEND_FAIL
    | CURLE_RECV_ERROR \<Rightarrow> MCL_NETWORK_RECEIVE_FAIL
    | CURLE_SSL_CERTPROBLEM \<Rightarrow> MCL_IMPROPER_CERTIFICATE
    | CURLE_SSL_CACERT \<Rightarrow> MCL_CA_CERTIFICATE_AUTHENTICATION_FAIL
    | CURLE_OPERATION_TIMEDOUT \<Rightarrow> MCL_REQUEST_TIMEOUT
    | CURLE_other n \<Rightarrow> MCL_FAIL)"

text \<open>The options that are set with \<^verbatim>\<open>curl_easy_setopt\<close>, and kept by libcurl from one request to the next.  A reader is the
  callback of the request, or the one given for a stream; the callbacks for what is received are always the same two.\<close>

datatype reader = No_Reader | Put_Reader | Stream_Reader

record curl_options =
  opt_port :: "16 word"
  opt_timeout :: "32 word"
  opt_connecttimeout :: "32 word"
  opt_sslcerttype :: string
  opt_cipher_list :: string
  opt_sslversion_tls12 :: bool
  opt_certificate :: "string_t option"
  opt_verify_host :: nat
  opt_verify_peer :: bool
  opt_header :: bool
  opt_header_unified :: bool
  opt_forbid_reuse :: bool
  opt_proxy :: "char list option"
  opt_proxy_port :: "16 word"
  opt_proxy_type :: E_MCL_PROXY
  opt_proxy_user :: "char list option"
  opt_proxy_password :: "char list option"
  opt_url :: "char list option"
  opt_httpget :: bool
  opt_post :: bool
  opt_upload :: bool
  opt_postfields :: "char list option"
  opt_postfieldsize :: "mcl_size_t option"
  opt_infilesize :: "mcl_size_t option"
  opt_reader :: reader
  opt_httpheader :: "string list option"

text \<open>What libcurl calls back with while a request is performed: a line of the header, a part of the payload, or a buffer
  of some size that is to be filled with what is left of the request.\<close>

datatype curl_call = Header_Call "char list" | Payload_Call "char list" | Read_Call mcl_size_t

text \<open>A request that is performed gives the calls it would make, its result, which may depend on whether all of them were
  taken, and the status of the response.  The blocks that libcurl has for itself are not counted.\<close>

record libcurl =
  curl_easy_init :: "world \<Rightarrow> curl_options option \<times> world"
  curl_easy_cleanup :: "curl_options option \<Rightarrow> world \<Rightarrow> world"
  curl_slist_append :: "string list option \<Rightarrow> string \<Rightarrow> world \<Rightarrow> string list option \<times> world"
  curl_slist_free_all :: "string list option \<Rightarrow> world \<Rightarrow> world"
  curl_easy_perform :: "curl_options \<Rightarrow> http_request_t \<Rightarrow> world \<Rightarrow> curl_call list \<times> (bool \<Rightarrow> CURLcode) \<times> int \<times> world"

section \<open>The callbacks\<close>

definition CARRIAGE_RETURN :: char where "CARRIAGE_RETURN = CHR 0x0D"
definition LINE_FEED :: char where "LINE_FEED = CHR 0x0A"
definition DOMAIN_SEPERATOR :: char where "DOMAIN_SEPERATOR = CHR 0x5C"

definition is_empty_line :: "char list \<Rightarrow> bool option" where
  "is_empty_line line = do {
    c \<leftarrow> read_at line 0;
    if CARRIAGE_RETURN = c then do { d \<leftarrow> read_at line 1; Some (LINE_FEED = d) } else Some False
  }"

definition response_header_callback ::
    "char list \<Rightarrow> string_array_t \<Rightarrow> world \<Rightarrow> (mcl_size_t \<times> string_array_t \<times> world) option" where
  "response_header_callback received_data headers w = do {
    let received_data_size = size_of_nat (length received_data);
    empty \<leftarrow> (if 2 = received_data_size then is_empty_line received_data else Some False);
    if empty then Some (received_data_size, headers, w)
    else do {
      (code, header_line, w1) \<leftarrow> string_initialize_new (Some received_data) (received_data_size - 2) w;
      if MCL_OK \<noteq> code then Some (0, headers, w1)
      else do {
        s \<leftarrow> header_line;
        (code1, headers1, w2) \<leftarrow> string_array_add headers s True w1;
        Some (if MCL_OK \<noteq> code1 then (0, headers1, snd (string_destroy header_line w2))
          else (received_data_size, headers1, w2))
      }
    }
  }"

record libcurl_payload_t =
  payload_data :: "char list option"
  payload_data_size :: mcl_size_t

definition response_payload_callback ::
    "char list \<Rightarrow> libcurl_payload_t \<Rightarrow> world \<Rightarrow> (mcl_size_t \<times> libcurl_payload_t \<times> world) option" where
  "response_payload_callback received_data p w = (let received_data_size = size_of_nat (length received_data);
      n = payload_data_size p + received_data_size in
    case (case payload_data p of
        Some b \<Rightarrow> (case memory_reallocate (Some 0) n w of
            (None, w1) \<Rightarrow> (None, w1)
          | (Some a, w1) \<Rightarrow> (Some (take (unat n) b @ drop (length b) (unwritten w (unat n))), w1))
      | None \<Rightarrow> (case memory_allocate received_data_size w of
            (None, w1) \<Rightarrow> (None, w1)
          | (Some a, w1) \<Rightarrow> (Some (unwritten w (unat received_data_size)), w1))) of
      (None, w1) \<Rightarrow> Some (0, p\<lparr>payload_data := None\<rparr>, w1)
    | (Some b, w1) \<Rightarrow> do {
        b1 \<leftarrow> string_util_memcpy b (unat (payload_data_size p)) received_data received_data_size;
        Some (received_data_size, p\<lparr>payload_data := Some b1, payload_data_size := n\<rparr>, w1)
      })"

text \<open>The result holds what is written to the buffer of libcurl.\<close>

definition request_payload_callback_for_put ::
    "mcl_size_t \<Rightarrow> http_request_t \<Rightarrow> (char list \<times> http_request_t) option" where
  "request_payload_callback_for_put buffer_size request = (let
      remaining_size = payload_size request - payload_offset request;
      n = (if buffer_size > remaining_size then remaining_size else buffer_size) in do {
    written \<leftarrow> (if n = 0 then Some []
      else do {
        b \<leftarrow> payload request;
        guard (unat (payload_offset request) + unat n \<le> length b);
        Some (take (unat n) (drop (unat (payload_offset request)) b))
      });
    Some (written, request\<lparr>payload_offset := payload_offset request + n\<rparr>)
  })"

text \<open>The calls are made until one of them does not take what it is given; the pieces of the request are gathered.\<close>

type_synonym transfer = "string_array_t \<times> libcurl_payload_t \<times> http_request_t \<times> string"

fun make_calls :: "curl_call list \<Rightarrow> transfer \<Rightarrow> world \<Rightarrow> (bool \<times> transfer \<times> world) option" where
  "make_calls [] t w = Some (True, t, w)"
| "make_calls (c # cs) (h, p, r, sent) w = (case c of
      Header_Call d \<Rightarrow> do {
        (n, h1, w1) \<leftarrow> response_header_callback d h w;
        if n = size_of_nat (length d) then make_calls cs (h1, p, r, sent) w1 else Some (False, (h1, p, r, sent), w1)
      }
    | Payload_Call d \<Rightarrow> do {
        (n, p1, w1) \<leftarrow> response_payload_callback d p w;
        if n = size_of_nat (length d) then make_calls cs (h, p1, r, sent) w1 else Some (False, (h, p1, r, sent), w1)
      }
    | Read_Call n \<Rightarrow> do {
        (piece, r1) \<leftarrow> request_payload_callback_for_put n r;
        make_calls cs (h, p, r1, sent @ piece) w
      })"

section \<open>The client\<close>

text \<open>\<open>curl\<close> is the handle of libcurl, when it could be made.\<close>

record http_client_t =
  curl :: "curl_options option"

definition sizeof_http_client :: mcl_size_t where "sizeof_http_client = 8"
definition sizeof_libcurl_payload :: mcl_size_t where "sizeof_libcurl_payload = 16"
definition CURL_READFUNC_ABORT :: mcl_size_t where "CURL_READFUNC_ABORT = 0x10000000"

definition http_client_get_callback_termination_code :: mcl_size_t where
  "http_client_get_callback_termination_code = CURL_READFUNC_ABORT"

definition proxy_user_with_domain ::
    "string_t \<Rightarrow> string_t \<Rightarrow> world \<Rightarrow> (E_MCL_ERROR_CODE \<times> char list option \<times> world) option" where
  "proxy_user_with_domain domain user w = do {
    let n = string_length domain + string_length user + 1;
    (code, r, w1) \<leftarrow> string_initialize_new None n w;
    (case r of
      None \<Rightarrow> Some (MCL_OUT_OF_MEMORY, None, w1)
    | Some s \<Rightarrow> do {
        b \<leftarrow> string_buffer s;
        d \<leftarrow> member_text (Some domain); u \<leftarrow> member_text (Some user);
        (code1, b1) \<leftarrow> string_util_snprintf b (n + 1) (d @ [DOMAIN_SEPERATOR] @ u);
        Some (code1, Some b1, snd (string_destroy r w1))
      })
  }"

text \<open>The options that hold for every request of the client.\<close>

definition SUPPORTED_CIPHERS_LIST :: string where
  "SUPPORTED_CIPHERS_LIST = ''DHE-DSS-AES128-GCM-SHA256:DHE-DSS-AES256-GCM-SHA384:DHE-RSA-AES128-GCM-SHA256:''
    @ ''DHE-RSA-AES256-GCM-SHA384:DHE-RSA-CHACHA20-POLY1305:''
    @ ''ECDHE-ECDSA-AES128-GCM-SHA256:ECDHE-ECDSA-AES256-GCM-SHA384:ECDHE-RSA-AES128-GCM-SHA256:''
    @ ''ECDHE-RSA-AES256-GCM-SHA384:ECDHE-ECDSA-CHACHA20-POLY1305:ECDHE-RSA-CHACHA20-POLY1305:''"

definition SSL_CERTIFICATE_TYPE_PEM :: string where "SSL_CERTIFICATE_TYPE_PEM = ''PEM''"

definition set_client_options :: "configuration_t \<Rightarrow> curl_options \<Rightarrow> curl_options" where
  "set_client_options c o0 = o0\<lparr>opt_port := mindsphere_port c, opt_timeout := http_request_timeout c,
    opt_connecttimeout := http_request_timeout c, opt_sslcerttype := SSL_CERTIFICATE_TYPE_PEM,
    opt_certificate := mindsphere_certificate c, opt_cipher_list := SUPPORTED_CIPHERS_LIST, opt_sslversion_tls12 := True,
    opt_verify_host := 2, opt_verify_peer := True, opt_header := False, opt_header_unified := True, opt_forbid_reuse := True\<rparr>"

definition http_client_initialize ::
    "libcurl \<Rightarrow> configuration_t \<Rightarrow> world \<Rightarrow> (E_MCL_ERROR_CODE \<times> http_client_t option \<times> world) option" where
  "http_client_initialize lc c w =
    (case memory_allocate sizeof_http_client w of
      (None, w1) \<Rightarrow> Some (MCL_OUT_OF_MEMORY, None, w1)
    | (Some a, w1) \<Rightarrow>
       (case curl_easy_init lc w1 of
         (None, w2) \<Rightarrow> Some (MCL_INITIALIZATION_FAIL, Some \<lparr>curl = None\<rparr>, w2)
       | (Some o0, w2) \<Rightarrow> (let o1 = set_client_options c o0 in
          case proxy_hostname c of
            None \<Rightarrow> Some (MCL_OK, Some \<lparr>curl = Some o1\<rparr>, w2)
          | Some host \<Rightarrow> (let o2 = o1\<lparr>opt_proxy := string_buffer host, opt_proxy_port := proxy_port c, opt_proxy_type := proxy_type c\<rparr> in
             case proxy_username c of
               None \<Rightarrow> Some (MCL_OK, Some \<lparr>curl = Some o2\<rparr>, w2)
             | Some user \<Rightarrow> do {
                 (code, u, w3) \<leftarrow> (case proxy_domain c of
                     None \<Rightarrow> Some (MCL_OK, string_buffer user, w2)
                   | Some domain \<Rightarrow> proxy_user_with_domain domain user w2);
                 if MCL_OK \<noteq> code then Some (code, Some \<lparr>curl = Some (if u = None then o2 else o2\<lparr>opt_proxy_user := u\<rparr>)\<rparr>, w3)
                 else do {
                   password \<leftarrow> proxy_password c;
                   Some (MCL_OK, Some \<lparr>curl = Some (o2\<lparr>opt_proxy_user := u, opt_proxy_password := string_buffer password\<rparr>)\<rparr>, w3)
                 }
               }))))"

definition http_client_destroy :: "libcurl \<Rightarrow> http_client_t option \<Rightarrow> world \<Rightarrow> http_client_t option \<times> world" where
  "http_client_destroy lc c w = (case c of
      None \<Rightarrow> (None, w)
    | Some c1 \<Rightarrow> (None, memory_free (curl_easy_cleanup lc (curl c1) w)))"

section \<open>Sending\<close>

text \<open>The lines of the header are appended one after the other.\<close>

fun append_lines ::
    "libcurl \<Rightarrow> string_array_t option \<Rightarrow> nat list \<Rightarrow> string list option \<Rightarrow> world \<Rightarrow> (string list option \<times> world) option" where
  "append_lines lc a [] l w = Some (l, w)"
| "append_lines lc a (i # is) l w = do {
    line \<leftarrow> string_array_get a (size_of_nat i);
    t \<leftarrow> member_text line;
    let (l1, w1) = curl_slist_append lc l t w;
    append_lines lc a is l1 w1
  }"

definition blank_request_options :: "char list option \<Rightarrow> curl_options \<Rightarrow> curl_options" where
  "blank_request_options url o0 = o0\<lparr>opt_url := url, opt_httpget := False, opt_post := False, opt_upload := False,
    opt_postfieldsize := None, opt_infilesize := None, opt_reader := No_Reader, opt_postfields := None\<rparr>"

text \<open>\<open>streamed\<close> says whether a callback is given.  The results are the options, the list of the header lines, which is also
  one of them, and the request.\<close>

definition set_request_options ::
    "libcurl \<Rightarrow> curl_options \<Rightarrow> http_request_t \<Rightarrow> bool \<Rightarrow> world
      \<Rightarrow> (curl_options \<times> string list option \<times> http_request_t \<times> world) option" where
  "set_request_options lc o0 request streamed w = do {
    u \<leftarrow> uri request;
    let o1 = blank_request_options (string_buffer u) o0;
    let (supported, o2, l1, r1, w1) = (case http_method request of
        MCL_HTTP_GET \<Rightarrow> (True, o1\<lparr>opt_httpget := True\<rparr>, None, request, w)
      | MCL_HTTP_POST \<Rightarrow>
          if \<not> streamed then
            (True, o1\<lparr>opt_post := True, opt_postfields := payload request, opt_postfieldsize := Some (payload_size request)\<rparr>, None, request, w)
          else (case curl_slist_append lc None (http_header_names ! index_in HTTP_HEADER_TRANSFER_ENCODING_CHUNKED header_indices) w of
              (l, w1) \<Rightarrow> (True, o1\<lparr>opt_post := True, opt_reader := Stream_Reader\<rparr>, l, request, w1))
      | MCL_HTTP_PUT \<Rightarrow> (True, o1\<lparr>opt_upload := True, opt_reader := Put_Reader, opt_infilesize := Some (payload_size request)\<rparr>, None,
            request\<lparr>payload_offset := 0\<rparr>, w)
      | _ \<Rightarrow> (False, o1, None, request, w));
    if \<not> supported then Some (o2, None, r1, w1)
    else do {
      a \<leftarrow> header r1;
      (l2, w2) \<leftarrow> append_lines lc (Some a) [0..<unat (array_index a)] l1 w1;
      let (l3, w3) = curl_slist_append lc l2 ''Expect:'' w2;
      Some (o2\<lparr>opt_header_unified := False, opt_httpheader := l3\<rparr>, l3, r1, w3)
    }
  }"

text \<open>The memory for the payload of the response is not checked.\<close>

definition http_client_send ::
    "libcurl \<Rightarrow> http_client_t \<Rightarrow> http_request_t \<Rightarrow> bool \<Rightarrow> world
      \<Rightarrow> (E_MCL_ERROR_CODE \<times> http_response_t option \<times> http_client_t \<times> http_request_t \<times> string \<times> world) option" where
  "http_client_send lc c request streamed w = do {
    o0 \<leftarrow> curl c;
    (o1, l, r1, w1) \<leftarrow> set_request_options lc o0 request streamed w;
    let c1 = \<lparr>curl = Some o1\<rparr>;
    (code, response_header0, w2) \<leftarrow> string_array_initialize 10 w1;
    if MCL_OK \<noteq> code then Some (code, None, c1, r1, [], curl_slist_free_all lc l w2)
    else do {
      h \<leftarrow> response_header0;
      (case memory_allocate sizeof_libcurl_payload w2 of
        (None, w3) \<Rightarrow> None
      | (Some a, w3) \<Rightarrow> do {
          let (calls, result, status, w4) = curl_easy_perform lc o1 r1 w3;
          (taken, (h1, p1, r2, sent), w5) \<leftarrow> make_calls calls (h, \<lparr>payload_data = None, payload_data_size = 0\<rparr>, r1, []) w4;
          let return_code = convert_to_mcl_error_code (result taken);
          let w6 = curl_slist_free_all lc l w5;
          let (return_code1, response, w7) = (if MCL_OK \<noteq> return_code then (return_code, None, w6)
            else http_response_initialize (Some h1) (payload_data p1) (payload_data_size p1) status w6);
          if MCL_OK \<noteq> return_code1 then do {
            (gone, w8) \<leftarrow> string_array_destroy (Some h1) w7;
            Some (return_code1, None, c1, r2, sent, memory_free (release_block (payload_data p1) w8))
          }
          else Some (MCL_OK, response, c1, r2, sent, memory_free w7)
        })
    }
  }"

section \<open>What the callbacks gather\<close>

lemma array_add_small_step:
  assumes "string_array_add a s d w = Some (c, a1, w1)" "array_increment a = 5"
  shows "array_increment a1 = 5" "unat (array_count a1) \<le> unat (array_count a) + 5"
proof -
  have "unat (array_count a + 5) \<le> unat (array_count a) + 5" by (simp add: unat_word_ariths)
  then show "array_increment a1 = 5" "unat (array_count a1) \<le> unat (array_count a) + 5"
    using assms by (auto simp: string_array_add_def grow_array_def Let_def bind_eq_Some_conv split: if_splits option.splits prod.splits)
qed

text \<open>A line of a header as it comes, with the end of the line, and the empty line behind the last of them.\<close>

definition crlf :: string where "crlf = [CARRIAGE_RETURN, LINE_FEED]"

definition call_ok :: "curl_call \<Rightarrow> bool" where
  "call_ok c \<longleftrightarrow> (case c of
      Header_Call d \<Rightarrow> d = crlf \<or> (\<exists>s. d = s @ crlf \<and> s \<noteq> [] \<and> is_text s \<and> length s < 2 ^ 32)
    | Payload_Call d \<Rightarrow> d \<noteq> []
    | Read_Call n \<Rightarrow> True)"

lemma length_crlf [simp]: "length crlf = 2"
  by (simp add: crlf_def)

text \<open>What a call adds to the lines of the header, and to the payload.\<close>

fun lines_of :: "curl_call \<Rightarrow> string list" where
  "lines_of (Header_Call d) = (if d = crlf then [] else [take (length d - 2) d])"
| "lines_of c = []"

fun chunk_of :: "curl_call \<Rightarrow> string" where
  "chunk_of (Payload_Call d) = d"
| "chunk_of c = []"

definition header_items :: "string list \<Rightarrow> (string_t \<times> bool) list" where
  "header_items ls = map (\<lambda>s. (handle_of s, True)) ls"

lemma response_header_callback_empty: "response_header_callback crlf h w = Some (2, h, w)"
  by (simp add: response_header_callback_def crlf_def is_empty_line_def CARRIAGE_RETURN_def LINE_FEED_def read_at_def)

lemma response_header_callback_line:
  assumes "s \<noteq> []" "is_text s" "length s < 2 ^ 32" "array_holds h its" "array_increment h = 5" "unat (array_count h) < 2 ^ 40" "upcoming w = []"
  obtains h1 w1 where "response_header_callback (s @ crlf) h w = Some (size_of_nat (length (s @ crlf)), h1, w1)"
    "array_holds h1 (its @ [(handle_of s, True)])" "array_increment h1 = 5" "unat (array_count h1) \<le> unat (array_count h) + 5"
    "live w1 = live w + 2" "upcoming w1 = []"
proof -
  have n: "unat (size_of_nat (length s + 2)) = length s + 2" using assms(3) by (intro unat_size_of_nat) simp
  have "size_of_nat (length s + 2) \<noteq> 2"
  proof
    assume "size_of_nat (length s + 2) = 2"
    then have "length s + 2 = unat (2 :: mcl_size_t)" using n by (simp only:)
    then show False using assms(1) by simp
  qed
  moreover have "size_of_nat (length s + 2) - 2 = size_of_nat (length s)" by simp
  moreover have "string_initialize_new (Some (s @ crlf)) (size_of_nat (length s)) w
      = Some (MCL_OK, Some (handle_of s), w\<lparr>live := live w + 2, fresh := fresh w + 2\<rparr>)" (is "_ = Some (_, _, ?w)")
    using string_initialize_new_text [OF assms(2), of "size_of_nat (length s)" crlf w] assms(1,3)
      two_blocks_granted [OF assms(7), of "size_of_nat (length s)"] succ_length_nonzero [of s] by simp
  moreover obtain h1 w1 where add: "string_array_add h (handle_of s) True ?w = Some (MCL_OK, h1, w1)"
      "array_holds h1 (its @ [(handle_of s, True)])" "live w1 = live ?w" "upcoming w1 = []"
  proof -
    have "array_reach h \<le> 2 ^ 50" "(2 :: nat) ^ 50 \<le> 2 ^ 50" "upcoming ?w = []"
      using assms(5-7) by (simp_all add: array_reach_def)
    from array_add_granted [OF assms(4) this, of "handle_of s" True] show thesis using that by blast
  qed
  ultimately show thesis
    using that [of h1 w1] array_add_small_step [OF add(1) assms(5)]
    by (simp add: response_header_callback_def Let_def)
qed

text \<open>The payload that has come so far.\<close>

definition gathered :: "string \<Rightarrow> libcurl_payload_t \<Rightarrow> bool" where
  "gathered t p \<longleftrightarrow> payload_data p = (if t = [] then None else Some t) \<and> payload_data_size p = size_of_nat (length t)"

lemma response_payload_callback_chunk:
  assumes "gathered t p" "d \<noteq> []" "length t + length d < 2 ^ 60" "upcoming w = []"
  obtains p1 w1 where "response_payload_callback d p w = Some (size_of_nat (length d), p1, w1)" "gathered (t @ d) p1"
    "live w1 = live w + (if t = [] then 1 else 0)" "upcoming w1 = []"
proof -
  have n: "unat (size_of_nat (length d)) = length d" "unat (size_of_nat (length t)) = length t"
    "unat (size_of_nat (length t) + size_of_nat (length d)) = length t + length d"
    "size_of_nat (length t) + size_of_nat (length d) = size_of_nat (length (t @ d))"
    using assms(3) by (simp_all add: unat_size_of_nat flip: of_nat_add)
  have nz: "size_of_nat (length d) \<noteq> 0" "size_of_nat (length t) + size_of_nat (length d) \<noteq> 0"
    using n assms(2) by (metis length_0_conv unat_0 add_is_0)+
  show thesis
  proof (cases "t = []")
    case True
    have "memory_allocate (size_of_nat (length d)) w = (Some (fresh w), w\<lparr>live := live w + 1, fresh := fresh w + 1\<rparr>)"
      using assms(4) nz(1) by (rule memory_allocate_unbounded)
    then show thesis
      using that [of "p\<lparr>payload_data := Some d, payload_data_size := size_of_nat (length d)\<rparr>"] True assms n
      by (simp add: response_payload_callback_def gathered_def string_util_memcpy_def write_at_def unwritten_def Let_def)
  next
    case False
    obtain a w1 where re: "memory_reallocate (Some 0) (size_of_nat (length t) + size_of_nat (length d)) w = (Some a, w1)" "upcoming w1 = []"
      using calm_reallocate [of "Some 0" "size_of_nat (length t) + size_of_nat (length d)" w] assms(4) nz(2)
      by (cases "memory_reallocate (Some 0) (size_of_nat (length t) + size_of_nat (length d)) w") auto
    have p: "payload_data p = Some t" "payload_data_size p = size_of_nat (length t)" using assms(1) False by (simp_all add: gathered_def)
    let ?b = "take (length t + length d) t @ drop (length t) (unwritten w (length t + length d))"
    have "string_util_memcpy ?b (length t) d (size_of_nat (length d)) = Some (t @ d)"
      by (simp add: string_util_memcpy_def write_at_def unwritten_def n(1))
    then have "response_payload_callback d p w = Some (size_of_nat (length d),
        p\<lparr>payload_data := Some (t @ d), payload_data_size := size_of_nat (length t) + size_of_nat (length d)\<rparr>, w1)"
      unfolding response_payload_callback_def Let_def p option.case re(1) prod.case n(2,3) Option.bind.bind_lunit by simp
    then show thesis
      using that [of "p\<lparr>payload_data := Some (t @ d), payload_data_size := size_of_nat (length t) + size_of_nat (length d)\<rparr>" w1]
        False re(2) memory_reallocate_granted [OF re(1)] by (simp add: gathered_def)
  qed
qed

text \<open>The request gives its payload, from the offset on.\<close>

definition readable :: "http_request_t \<Rightarrow> bool" where
  "readable r \<longleftrightarrow> unat (payload_offset r) \<le> unat (payload_size r)
    \<and> (payload_size r = 0 \<or> (\<exists>b. payload r = Some b \<and> unat (payload_size r) \<le> length b))"

definition request_bytes :: "http_request_t \<Rightarrow> string" where
  "request_bytes r = (case payload r of None \<Rightarrow> [] | Some b \<Rightarrow> take (unat (payload_size r)) b)"

lemma request_payload_callback_reads:
  assumes "readable r"
  obtains k r1 where "request_payload_callback_for_put n r = Some (take k (drop (unat (payload_offset r)) (request_bytes r)), r1)"
    "r1 = r\<lparr>payload_offset := payload_offset r + size_of_nat k\<rparr>" "k = min (unat n) (unat (payload_size r) - unat (payload_offset r))"
    "unat (payload_offset r1) = unat (payload_offset r) + k" "readable r1"
proof -
  let ?o = "unat (payload_offset r)" and ?s = "unat (payload_size r)"
  have o: "?o \<le> ?s" using assms by (simp add: readable_def)
  then have rest: "unat (payload_size r - payload_offset r) = ?s - ?o" by (simp add: unat_sub word_le_nat_alt)
  define m where "m = (if n > payload_size r - payload_offset r then payload_size r - payload_offset r else n)"
  have m: "unat m = min (unat n) (?s - ?o)" using rest by (auto simp: m_def word_less_nat_alt)
  have sum: "unat (payload_offset r + m) = ?o + unat m"
    using m o unat_less_64 [of "payload_size r"] by (intro unat_add_less) simp
  have m_size: "size_of_nat (unat m) = m" by simp
  have out: "request_payload_callback_for_put n r
      = Some (take (unat m) (drop ?o (request_bytes r)), r\<lparr>payload_offset := payload_offset r + m\<rparr>)"
  proof (cases "m = 0")
    case True
    then show ?thesis by (simp add: request_payload_callback_for_put_def Let_def flip: m_def)
  next
    case False
    then have "payload_size r \<noteq> 0" using m o by (auto simp: size_eq_iff)
    then obtain b where b: "payload r = Some b" "?s \<le> length b" using assms by (auto simp: readable_def)
    have "take (unat m) (drop ?o (take ?s b)) = take (unat m) (drop ?o b)"
      using m o by (simp add: drop_take min_def)
    moreover have "?o + unat m \<le> length b" using b(2) m o by simp
    ultimately show ?thesis using False b(1)
      by (simp add: request_payload_callback_for_put_def Let_def request_bytes_def guard_def flip: m_def)
  qed
  have "readable (r\<lparr>payload_offset := payload_offset r + m\<rparr>)" using assms sum m o by (simp add: readable_def)
  then show thesis using that [of "unat m" "r\<lparr>payload_offset := payload_offset r + m\<rparr>"] out m sum m_size by simp
qed

fun reads_of :: "curl_call \<Rightarrow> nat" where
  "reads_of (Read_Call n) = unat n"
| "reads_of c = 0"

text \<open>When memory does not run out every call is taken: the lines and the payload of the response are gathered in the order
  they come, and the request is read from its beginning on, each of its characters once.\<close>

lemma make_calls_runs:
  assumes "\<forall>c \<in> set calls. call_ok c" "array_holds h its" "array_increment h = 5" "unat (array_count h) + 5 * length calls < 2 ^ 40"
    and "gathered t p" "length t + length (concat (map chunk_of calls)) < 2 ^ 60" "readable r" "upcoming w = []"
  shows "\<exists>h1 p1 r1 w1. make_calls calls (h, p, r, sent) w
      = Some (True, (h1, p1, r1, sent @ take (sum_list (map reads_of calls)) (drop (unat (payload_offset r)) (request_bytes r))), w1)
    \<and> array_holds h1 (its @ header_items (concat (map lines_of calls))) \<and> gathered (t @ concat (map chunk_of calls)) p1
    \<and> live w1 = live w + 2 * int (length (concat (map lines_of calls)))
        + (if t = [] \<and> concat (map chunk_of calls) \<noteq> [] then 1 else 0)
    \<and> upcoming w1 = []"
  using assms
proof (induction calls arbitrary: h its t p r sent w)
  case Nil
  then show ?case by (simp add: header_items_def)
next
  case (Cons c cs)
  show ?case
  proof (cases c)
    case (Header_Call d)
    show ?thesis
    proof (cases "d = crlf")
      case True
      have "size_of_nat (length crlf) = 2" by (simp add: crlf_def)
      moreover obtain h1 p1 r1 w1 where "make_calls cs (h, p, r, sent) w
          = Some (True, (h1, p1, r1, sent @ take (sum_list (map reads_of cs)) (drop (unat (payload_offset r)) (request_bytes r))), w1)"
        "array_holds h1 (its @ header_items (concat (map lines_of cs)))" "gathered (t @ concat (map chunk_of cs)) p1"
        "live w1 = live w + 2 * int (length (concat (map lines_of cs))) + (if t = [] \<and> concat (map chunk_of cs) \<noteq> [] then 1 else 0)"
        "upcoming w1 = []"
        using Cons.IH [of h its t p r w sent] Cons.prems Header_Call by auto
      ultimately show ?thesis using Header_Call True response_header_callback_empty [of h w] by simp
    next
      case False
      then obtain s where s: "d = s @ crlf" "s \<noteq> []" "is_text s" "length s < 2 ^ 32"
        using Cons.prems(1) Header_Call by (auto simp: call_ok_def)
      obtain h2 w2 where line: "response_header_callback d h w = Some (size_of_nat (length d), h2, w2)"
        "array_holds h2 (its @ [(handle_of s, True)])" "array_increment h2 = 5" "unat (array_count h2) \<le> unat (array_count h) + 5"
        "live w2 = live w + 2" "upcoming w2 = []"
        unfolding s(1) by (rule response_header_callback_line [OF s(2-4) Cons.prems(2,3) _ Cons.prems(8)]) (use Cons.prems(4) in auto)
      have "lines_of c = [s]" using Header_Call False s(1) by (simp add: crlf_def)
      moreover obtain h1 p1 r1 w1 where "make_calls cs (h2, p, r, sent) w2
          = Some (True, (h1, p1, r1, sent @ take (sum_list (map reads_of cs)) (drop (unat (payload_offset r)) (request_bytes r))), w1)"
        "array_holds h1 ((its @ [(handle_of s, True)]) @ header_items (concat (map lines_of cs)))" "gathered (t @ concat (map chunk_of cs)) p1"
        "live w1 = live w2 + 2 * int (length (concat (map lines_of cs))) + (if t = [] \<and> concat (map chunk_of cs) \<noteq> [] then 1 else 0)"
        "upcoming w1 = []"
        using Cons.IH [OF _ line(2,3) _ Cons.prems(5) _ Cons.prems(7) line(6), of sent] Cons.prems(1,4,6) line(4) Header_Call by auto
      ultimately show ?thesis using Header_Call line(1,5) by (simp add: header_items_def)
    qed
  next
    case (Payload_Call d)
    then have d: "d \<noteq> []" using Cons.prems(1) by (simp add: call_ok_def)
    obtain p2 w2 where chunk: "response_payload_callback d p w = Some (size_of_nat (length d), p2, w2)" "gathered (t @ d) p2"
      "live w2 = live w + (if t = [] then 1 else 0)" "upcoming w2 = []"
      by (rule response_payload_callback_chunk [OF Cons.prems(5) d _ Cons.prems(8)]) (use Cons.prems(6) Payload_Call in auto)
    have "length (t @ d) + length (concat (map chunk_of cs)) < 2 ^ 60" using Cons.prems(6) Payload_Call by simp
    then obtain h1 p1 r1 w1 where "make_calls cs (h, p2, r, sent) w2
          = Some (True, (h1, p1, r1, sent @ take (sum_list (map reads_of cs)) (drop (unat (payload_offset r)) (request_bytes r))), w1)"
        "array_holds h1 (its @ header_items (concat (map lines_of cs)))" "gathered ((t @ d) @ concat (map chunk_of cs)) p1"
        "live w1 = live w2 + 2 * int (length (concat (map lines_of cs)))"
        "upcoming w1 = []"
      using Cons.IH [OF _ Cons.prems(2,3) _ chunk(2) _ Cons.prems(7) chunk(4), of sent] Cons.prems(1,4) d by auto
    then show ?thesis using Payload_Call chunk(1,3) d by simp
  next
    case (Read_Call n)
    obtain k r2 where read: "request_payload_callback_for_put n r = Some (take k (drop (unat (payload_offset r)) (request_bytes r)), r2)"
      "r2 = r\<lparr>payload_offset := payload_offset r + size_of_nat k\<rparr>" "k = min (unat n) (unat (payload_size r) - unat (payload_offset r))"
      "unat (payload_offset r2) = unat (payload_offset r) + k" "readable r2"
      using request_payload_callback_reads [OF Cons.prems(7)] by blast
    have same: "request_bytes r2 = request_bytes r" by (simp add: request_bytes_def read(2) cong: option.case_cong)
    let ?rest = "drop (unat (payload_offset r)) (request_bytes r)"
    have "take k ?rest @ take (sum_list (map reads_of cs)) (drop (unat (payload_offset r) + k) (request_bytes r))
        = take (unat n + sum_list (map reads_of cs)) ?rest"
    proof (cases "k = unat n")
      case True
      then show ?thesis by (simp add: take_add add.commute)
    next
      case False
      then have "length ?rest \<le> k" using read(3) by (auto simp: request_bytes_def split: option.splits)
      then show ?thesis using False read(3) by (simp add: add.commute)
    qed
    moreover obtain h1 p1 r1 w1 where "make_calls cs (h, p, r2, sent @ take k ?rest) w
          = Some (True, (h1, p1, r1, (sent @ take k ?rest) @ take (sum_list (map reads_of cs)) (drop (unat (payload_offset r2)) (request_bytes r2))), w1)"
        "array_holds h1 (its @ header_items (concat (map lines_of cs)))" "gathered (t @ concat (map chunk_of cs)) p1"
        "live w1 = live w + 2 * int (length (concat (map lines_of cs))) + (if t = [] \<and> concat (map chunk_of cs) \<noteq> [] then 1 else 0)"
        "upcoming w1 = []"
      using Cons.IH [OF _ Cons.prems(2,3) _ Cons.prems(5) _ read(5) Cons.prems(8), of "sent @ take k ?rest"] Cons.prems(1,4,6) Read_Call by auto
    ultimately show ?thesis using Read_Call read(1,4) same by simp
  qed
qed

section \<open>What is sent and what comes back\<close>

text \<open>What libcurl promises: a list is appended to, and its blocks are its own.\<close>

definition calm_curl :: "libcurl \<Rightarrow> bool" where
  "calm_curl lc \<longleftrightarrow> (\<forall>l s w. upcoming w = [] \<longrightarrow> (\<exists>w1. curl_slist_append lc l s w = (Some ((case l of None \<Rightarrow> [] | Some xs \<Rightarrow> xs) @ [s]), w1)
      \<and> calm w 0 w1))
    \<and> (\<forall>l w. upcoming w = [] \<longrightarrow> calm w 0 (curl_slist_free_all lc l w))"

lemma slist_append_runs:
  assumes "calm_curl lc" "upcoming w = []"
  obtains w1 where "curl_slist_append lc l s w = (Some ((case l of None \<Rightarrow> [] | Some xs \<Rightarrow> xs) @ [s]), w1)" "calm w 0 w1"
  using assms unfolding calm_curl_def by blast

text \<open>The options a request is performed with.\<close>

definition request_options :: "curl_options \<Rightarrow> http_request_t \<Rightarrow> char list option \<Rightarrow> string list \<Rightarrow> curl_options" where
  "request_options o0 r url ls = (let o1 = blank_request_options url o0 in (case http_method r of
      MCL_HTTP_GET \<Rightarrow> o1\<lparr>opt_httpget := True\<rparr>
    | MCL_HTTP_POST \<Rightarrow> o1\<lparr>opt_post := True, opt_postfields := payload r, opt_postfieldsize := Some (payload_size r)\<rparr>
    | MCL_HTTP_PUT \<Rightarrow> o1\<lparr>opt_upload := True, opt_reader := Put_Reader, opt_infilesize := Some (payload_size r)\<rparr>
    | _ \<Rightarrow> o1)\<lparr>opt_header_unified := False, opt_httpheader := Some (ls @ [''Expect:''])\<rparr>)"

definition started :: "http_request_t \<Rightarrow> http_request_t" where
  "started r = (if http_method r = MCL_HTTP_PUT then r\<lparr>payload_offset := 0\<rparr> else r)"

lemma append_lines_runs:
  assumes "calm_curl lc" "upcoming w = []"
    and "\<forall>i \<in> set ks. \<exists>s. string_array_get a (size_of_nat i) = Some (Some s) \<and> says s (f i)"
  shows "\<exists>w1. append_lines lc a ks l w = Some (if ks = [] then l else Some ((case l of None \<Rightarrow> [] | Some xs \<Rightarrow> xs) @ map f ks), w1)
    \<and> calm w 0 w1"
  using assms(2,3)
proof (induction ks arbitrary: l w)
  case Nil
  then show ?case by (simp add: calm_def)
next
  case (Cons i ks)
  obtain s where s: "string_array_get a (size_of_nat i) = Some (Some s)" "says s (f i)" using Cons.prems(2) by auto
  have line: "member_text (Some s) = Some (f i)" using s(2) by (auto simp: member_text_def says_def chars_of_text)
  obtain w1 where w1: "curl_slist_append lc l (f i) w = (Some ((case l of None \<Rightarrow> [] | Some xs \<Rightarrow> xs) @ [f i]), w1)" "calm w 0 w1"
    by (rule slist_append_runs [OF assms(1) Cons.prems(1)])
  then obtain w2 where "append_lines lc a ks (Some ((case l of None \<Rightarrow> [] | Some xs \<Rightarrow> xs) @ [f i])) w1
      = Some (Some (((case l of None \<Rightarrow> [] | Some xs \<Rightarrow> xs) @ [f i]) @ map f ks), w2)" "calm w1 0 w2"
    using Cons.IH [of w1 "Some ((case l of None \<Rightarrow> [] | Some xs \<Rightarrow> xs) @ [f i])"] Cons.prems(2) by (auto simp: calm_def)
  then show ?case using s(1) line w1 by (auto simp: calm_def)
qed

text \<open>The lines of a request are texts.\<close>

definition header_says :: "http_request_t \<Rightarrow> string list \<Rightarrow> bool" where
  "header_says r ls \<longleftrightarrow> (\<exists>a its. header r = Some a \<and> array_holds a its \<and> list_all2 (\<lambda>p t. says (fst p) t) its ls)"

lemma set_request_options_runs:
  assumes "calm_curl lc" "upcoming w = []" "uri r = Some u" "header_says r ls" "http_method r \<in> {MCL_HTTP_GET, MCL_HTTP_POST, MCL_HTTP_PUT}"
  obtains w1 where "set_request_options lc o0 r False w
      = Some (request_options o0 r (string_buffer u) ls, Some (ls @ [''Expect:'']), started r, w1)" "calm w 0 w1"
proof -
  obtain a its where a: "header r = Some a" "array_holds a its" "list_all2 (\<lambda>p t. says (fst p) t) its ls"
    using assms(4) by (auto simp: header_says_def)
  note held = array_holdsD [OF a(2)]
  have len: "length ls = length its" using a(3) by (simp add: list_all2_lengthD)
  have gets: "\<exists>s. string_array_get (Some a) (size_of_nat i) = Some (Some s) \<and> says s (ls ! i)" if "i < length its" for i
  proof -
    have "unat (size_of_nat i) = i" using that held(2,3) by (intro unat_size_of_nat) simp
    then show ?thesis using that held a(3) by (auto simp: string_array_get_def item_at_def read_at_def item_of_def nth_append
        word_less_nat_alt list_all2_conv_all_nth)
  qed
  obtain w1 where w1: "append_lines lc (Some a) [0..<length its] None w = Some (if ls = [] then None else Some ls, w1)" "calm w 0 w1"
  proof -
    have "map ((!) ls) [0..<length its] = ls" using map_nth [of ls] len by simp
    moreover have "[0..<length its] = [] \<longleftrightarrow> ls = []" using len by auto
    ultimately show thesis
      using that append_lines_runs [OF assms(1,2), of "[0..<length its]" "Some a" "(!) ls" None] gets by auto
  qed
  then obtain w2 where w2: "curl_slist_append lc (if ls = [] then None else Some ls) ''Expect:'' w1 = (Some (ls @ [''Expect:'']), w2)" "calm w1 0 w2"
    using slist_append_runs [OF assms(1), of w1 "if ls = [] then None else Some ls" "''Expect:''"] w1(2)
    by (cases "ls = []") (auto simp: calm_def)
  have "calm w 0 w2" using w1(2) w2(2) by (simp add: calm_def)
  moreover have "set_request_options lc o0 r False w
      = Some (request_options o0 r (string_buffer u) ls, Some (ls @ [''Expect:'']), started r, w2)"
    using assms(3,5) a(1) held(1) w1(1) w2(1)
    by (auto simp: set_request_options_def request_options_def started_def Let_def)
  ultimately show thesis using that by blast
qed

lemma ten_lines:
  assumes "upcoming w = []"
  obtains a w1 where "string_array_initialize 10 w = Some (MCL_OK, Some a, w1)" "array_holds a []" "array_increment a = 5"
    "unat (array_count a) = 10" "calm w 2 w1"
proof -
  obtain code r w' where i: "string_array_initialize 10 w = Some (code, r, w')"
    "case r of
        Some a \<Rightarrow> code = MCL_OK \<and> array_holds a [] \<and> array_count a = 10 \<and> live w' = live w + 2
      | None \<Rightarrow> code = MCL_OUT_OF_MEMORY \<and> live w' = live w"
    using string_array_initialize_holds [of 10 w] by auto
  show thesis
    using that i assms
    by (auto simp: string_array_initialize_def memory_allocate_unbounded sizeof_string_array_def sizeof_string_array_item_def
        bind_eq_Some_conv DEFAULT_INCREMENT_VALUE_def calm_def split: option.splits)
qed

lemma converted_OK: "convert_to_mcl_error_code x = MCL_OK \<longleftrightarrow> x = CURLE_OK"
  by (cases x) (simp_all add: convert_to_mcl_error_code_def)

text \<open>What libcurl does with a request: it makes the calls, and has no block left when it is done.\<close>

definition performs :: "libcurl \<Rightarrow> curl_options \<Rightarrow> http_request_t \<Rightarrow> curl_call list \<Rightarrow> (bool \<Rightarrow> CURLcode) \<Rightarrow> int \<Rightarrow> bool" where
  "performs lc o1 r calls result status \<longleftrightarrow>
    (\<forall>w. upcoming w = [] \<longrightarrow> (\<exists>w1. curl_easy_perform lc o1 r w = (calls, result, status, w1) \<and> calm w 0 w1))"

text \<open>The response that is made of the calls.\<close>

definition response_of :: "http_response_t \<Rightarrow> curl_call list \<Rightarrow> int \<Rightarrow> bool" where
  "response_of r calls status \<longleftrightarrow> (\<exists>a. response_header r = Some a \<and> array_holds a (header_items (concat (map lines_of calls))))
    \<and> (let t = concat (map chunk_of calls) in response_payload r = (if t = [] then None else Some t)
        \<and> response_payload_size r = size_of_nat (length t))
    \<and> response_result_code r = status"

definition response_blocks :: "curl_call list \<Rightarrow> int" where
  "response_blocks calls = 3 + 2 * int (length (concat (map lines_of calls))) + (if concat (map chunk_of calls) = [] then 0 else 1)"

lemma header_items_blocks: "array_blocks (header_items ls) = 2 + 2 * int (length ls)"
proof -
  have "sum_list (map (\<lambda>(s, d). if d then blocks_of s else 0) (header_items ls)) = 2 * int (length ls)"
    by (induction ls) (simp_all add: header_items_def blocks_of_def handle_of_def)
  then show ?thesis by (simp add: array_blocks_def)
qed


section \<open>Examples\<close>

definition sample_options :: curl_options where
  "sample_options = \<lparr>opt_port = 443, opt_timeout = 300, opt_connecttimeout = 300,
    opt_sslcerttype = ''PEM'', opt_cipher_list = SUPPORTED_CIPHERS_LIST, opt_sslversion_tls12 = True, opt_certificate = None,
    opt_verify_host = 2, opt_verify_peer = True, opt_header = False, opt_header_unified = True, opt_forbid_reuse = True,
    opt_proxy = None, opt_proxy_port = 0, opt_proxy_type = MCL_PROXY_UNKNOWN, opt_proxy_user = None, opt_proxy_password = None,
    opt_url = None, opt_httpget = False, opt_post = False, opt_upload = False, opt_postfields = None, opt_postfieldsize = None,
    opt_infilesize = None, opt_reader = No_Reader, opt_httpheader = None\<rparr>"

definition sample_calls :: "curl_call list" where
  "sample_calls = [Header_Call (''HTTP/1.1 200 OK'' @ crlf), Header_Call crlf, Read_Call 2, Payload_Call ''{'', Payload_Call ''}'', Read_Call 7]"

definition sample_curl :: libcurl where
  "sample_curl = \<lparr>curl_easy_init = (\<lambda>w. (Some sample_options, w)), curl_easy_cleanup = (\<lambda>c w. w),
    curl_slist_append = (\<lambda>l s w. (Some ((case l of None \<Rightarrow> [] | Some xs \<Rightarrow> xs) @ [s]), w)), curl_slist_free_all = (\<lambda>l w. w),
    curl_easy_perform = (\<lambda>c r w. (sample_calls, (\<lambda>taken. if taken then CURLE_OK else CURLE_other 23), 200, w))\<rparr>"

definition put_request :: http_request_t where
  "put_request = \<lparr>header = Some \<lparr>array_items = Some [Some \<lparr>item_string = Some (handle_of ''A: b''), item_destroy = True\<rparr>],
      array_count = 1, array_index = 1, array_increment = 5, array_total_length = 4\<rparr>,
    payload = Some ''abc'', payload_size = 3, payload_offset = 0, http_method = MCL_HTTP_PUT, uri = Some (handle_of ''h/x''),
    boundary = None, max_http_payload_size = 100, resize_enabled = True, finalized = True\<rparr>"

lemma sample_curl_performs: "calm_curl sample_curl"
  "performs sample_curl o1 r sample_calls (\<lambda>taken. if taken then CURLE_OK else CURLE_other 23) 200"
  by (simp_all add: calm_curl_def performs_def sample_curl_def calm_def)

lemma put_request_header: "header_says put_request [''A: b'']"
  unfolding header_says_def
  by (rule exI [of _ "the (header put_request)"], rule exI [of _ "[(handle_of ''A: b'', True)]"])
    (simp add: put_request_def array_holds_def item_of_def says_handle_of, simp add: handle_of_def)


text \<open>The memory for the payload of the response is written to without a look at whether there is any: when it runs out
  right there, the client writes through NULL.\<close>

theorem http_client_send_unchecked:
  "http_client_send sample_curl \<lparr>curl = Some sample_options\<rparr> put_request False (quiet_world\<lparr>upcoming := [True, True, False]\<rparr>) = None"
  by code_simp

end
