(* ===== verification/Spec2Isabelle.thy ===== *)
theory Spec2Isabelle
  imports MCL_Agent MCL_Http_Client
begin

text \<open>
  A model of the MindConnect Library 3.1.3.0, the C library with which a device (an agent) sends its data to MindSphere,
  and the proofs of what its components promise.  The sources are in
  \<^verbatim>\<open>src/MindConnect_Library_V3.1.3.0\<close>; file names below are relative to it.

  \<^bold>\<open>The program.\<close>  The application fills a configuration and makes a handle (\<^verbatim>\<open>src/communication.c\<close>).  The handle owns an
  HTTP processor (\<^verbatim>\<open>src/http_processor.c\<close>) with a security handler, which keeps the registration of the agent.  Onboarding
  sends a request with an initial token; the answer, a JSON object, becomes the registration and is written to a file or
  handed to the application.  With the registration the agent signs a token of its own (\<^verbatim>\<open>src/jwt.c\<close>) and gets an access
  token for it.  The application puts items (time series, events, files, custom data, data source configurations) into a
  store (\<^verbatim>\<open>src/store.c\<close>); processing the store writes as many items as fit into a multipart HTTP request
  (\<^verbatim>\<open>src/http_request.c\<close>), sends it, removes the items that the server has accepted, and goes on until the store is empty
  or a request fails.

  \<^bold>\<open>Conventions.\<close>
  \<^item> A function of the source is a definition of the same name (without a leading underscore), which returns the result code,
    the new values of what the C function writes through its pointers, and the new world.  \<open>None\<close> stands for undefined
    behaviour: a read through \<^verbatim>\<open>NULL\<close> or outside of a buffer, the use of a freed block, or a loop without end.  A theorem that gives
    \<open>Some\<close> therefore shows memory safety and termination as well.
  \<^item> The \<open>world\<close> (\<open>MCL_Memory\<close>) says which of the next allocations are granted (\<open>upcoming\<close>, any pattern; when it is used up
    everything is granted), counts the blocks in use (\<open>live\<close>), and holds the contents of fresh memory (\<open>junk\<close>).  Where a theorem
    has no hypothesis about \<open>upcoming\<close> it holds wherever the allocator fails.  Leaks show as a difference of \<open>live\<close>.
  \<^item> A buffer is the list of its characters, \<open>mcl_size_t\<close> a word of 64 bits, and arithmetic on it wraps around as it does in C.
    A \<^verbatim>\<open>double\<close> is the rational it stands for, rounded after each operation (\<open>MCL_Double\<close>).  Lists whose nodes are shared live in a
    heap from addresses to nodes.
  \<^item> Code outside of the repository is a parameter: \<open>random_source\<close> (\<^verbatim>\<open>RAND_bytes\<close>), \<open>openssl\<close> and \<open>rsa_tools\<close>, SHA-256 as a function
    on bytes, \<open>libcurl\<close> (the calls it makes and its result) and, for the HTTP processor, the whole \<open>http_client\<close>, the second of the clock, the printing of numbers that are not whole
    (\<open>other\<close>), the powers of ten (\<open>pow10\<close>), the readers of streams and files, and the outcomes of the calls of \<^verbatim>\<open>stdio\<close> (\<open>outcomes\<close>).
    \<open>platform\<close> collects those of the HTTP processor.  Hypotheses on them state what is documented: a digest has 32 bytes, a
    random source fills its buffer, a client that reports success gives a response.

  \<^bold>\<open>Theories, sources and what is shown.\<close>
  \<^item> \<open>MCL_Prelude\<close>: result codes with their order and names (\<^verbatim>\<open>include/mcl/mcl_common.h\<close>, \<^verbatim>\<open>src/log_util.c\<close>), collections of simplification
    rules, lemmas on words, lists and the option monad.  \<open>MCL_Memory\<close>: \<^verbatim>\<open>src/memory.c\<close>.  \<open>MCL_Double\<close>: rounding.
  \<^item> \<open>MCL_List\<close>: \<^verbatim>\<open>src/list.c\<close> over a heap of nodes, refined to a sequence with a cursor; the locale \<open>cursor\<close> gives iteration
    once, for the linked list.
  \<^item> \<open>MCL_String_Util\<close>, \<open>MCL_String\<close>, \<open>MCL_String_Array\<close>, \<open>MCL_Time\<close>: \<^verbatim>\<open>src/string_util.c\<close>, \<^verbatim>\<open>src/string_type.c\<close>, \<^verbatim>\<open>src/string_array.c\<close>, \<^verbatim>\<open>src/time_util.c\<close>.
    \<open>says h t\<close> relates a handle to the text it stands for.
  \<^item> \<open>MCL_Base64\<close>: \<^verbatim>\<open>src/base64.c\<close>; the locale \<open>block_codec\<close> is interpreted for both alphabets, with the round trip and the safety
    of decoding an arbitrary text.
  \<^item> \<open>MCL_Security\<close>, \<open>MCL_Jwt\<close>, \<open>MCL_Claims\<close>, \<open>MCL_Keys\<close>: \<^verbatim>\<open>src/hmac.c\<close>, \<^verbatim>\<open>src/random.c\<close>, \<^verbatim>\<open>src/security_handler.c\<close>, \<^verbatim>\<open>src/security_libcrypto.c\<close>,
    \<^verbatim>\<open>src/jwt.c\<close>: HMAC against its reference definition, and the text of the request for an access token, down to header, claims and signature.
  \<^item> \<open>MCL_Cjson\<close>, \<open>MCL_Cjson_Parse\<close>, \<open>MCL_Json_Util\<close>, \<open>MCL_Json\<close>: \<^verbatim>\<open>lib/cJSON/cJSON.c\<close>, \<^verbatim>\<open>src/json_util.c\<close>, \<^verbatim>\<open>src/json.c\<close>: printing and parsing give
    back every canonical tree, the parser ends, stays balanced and needs no more calls than its bound, and the texts of the items are those of the documentation.
  \<^item> \<open>MCL_Data\<close>, \<open>MCL_Store\<close>: the items (\<^verbatim>\<open>src/data_types.h\<close>, \<^verbatim>\<open>src/time_series.c\<close>, \<^verbatim>\<open>src/event.c\<close>, \<^verbatim>\<open>src/event_list.c\<close>, \<^verbatim>\<open>src/file.c\<close>,
    \<^verbatim>\<open>src/custom_data.c\<close>, \<^verbatim>\<open>src/data_source_configuration.c\<close>, \<^verbatim>\<open>src/stream_data.c\<close>) and \<^verbatim>\<open>src/store.c\<close>: filling and destroying with every block accounted for.
  \<^item> \<open>MCL_Http_Request\<close>, \<open>MCL_Http_Response\<close>: \<^verbatim>\<open>src/http_request.c\<close>, \<^verbatim>\<open>src/http_response.c\<close>: a tuple is written whole or not at all, and a finalized
    request is a multipart message.
  \<^item> \<open>MCL_Http_Client\<close>: \<^verbatim>\<open>src/http_client_libcurl.c\<close>: the options of libcurl, the three callbacks and the response that is made of what they
    are given, with its blocks.
  \<^item> \<open>MCL_Configuration\<close>, \<open>MCL_Exchange\<close>, \<open>MCL_Exchange_Fill\<close>, \<open>MCL_Exchange_Loop\<close>, \<open>MCL_Exchange_Items\<close>: \<^verbatim>\<open>src/configuration.c\<close> and the exchange of
    \<^verbatim>\<open>src/http_processor.c\<close>.  The locale \<open>filling\<close> states what adding one item promises to the loop over the items.  Every round ends,
    the items pass through their states in order, and a server that accepts everything empties the store, unless items fill a request up to
    its last characters: \<open>leaves_no_room\<close> says which, and that they fail is proved as well.
  \<^item> \<open>MCL_Storage\<close>: \<^verbatim>\<open>src/storage.c\<close> and \<^verbatim>\<open>src/file_util.c\<close> over a map from paths to contents: what is saved is loaded, for both profiles.
  \<^item> \<open>MCL_Registration\<close>, \<open>MCL_Processor\<close>, \<open>MCL_Communication\<close>, \<open>MCL_Agent\<close>: registration, key rotation, access tokens, the update of the
    security information and the public interface.  \<open>agent_step\<close> is the step relation of an agent, the locale \<open>agent_invariant\<close> reduces an
    invariant to the single operations, and its interpretation \<open>registered\<close> shows that a registration is never half there.

  \<^bold>\<open>Loops, bounds and fuel.\<close>  Recursion on lists is structural.  The rounds of an exchange (\<open>exchange_loop\<close>), the loop that reads
  a key from a file (\<open>key_loop\<close>) and the loops that follow the links of a heap (\<open>fill_loop\<close>, \<open>update_states\<close>, \<open>clear_sent\<close>, the search and the
  release of nodes) may run for ever and are \<open>partial_function (option)\<close>; that they return is proved, and
  where they do not (\<open>get_private_key_hangs\<close>) as well.  The recursion of the parser of JSON is bounded by \<open>parse_bound\<close>, twice the length
  of the text and two more; \<open>cJSON_Parse_bound\<close> proves that every greater bound gives the same.

  \<^bold>\<open>What the proofs found.\<close>  Some theorems state what the code does and does not mean to do: items that are lost when no correlation
  identifier can be drawn, or when they leave a request no room for its closing boundary, a request that overruns its payload by the closing boundary, a token that is cut when it is loaded, a read of a
  key that does not end, a read behind the end of a JSON text, a registration whose members are no texts, and an update from a
  file that is missing; and some examples of the same kind that are computed, among them a handle that is left behind without a processor and a
  timestamp with a blank that is accepted.

  \<^bold>\<open>Not modelled.\<close>  Of \<^verbatim>\<open>src/http_client_libcurl.c\<close> the callback that hands certificates to OpenSSL, the one that logs, and
  \<^verbatim>\<open>curl_global_init_mem\<close>; the logging of \<^verbatim>\<open>src/log_util.c\<close> and the vendored \<^verbatim>\<open>lib/zf_log\<close>, on which no state depends; the download of files and the callbacks for streaming, which
  \<^verbatim>\<open>MCL_FILE_DOWNLOAD_ENABLED\<close> and \<^verbatim>\<open>MCL_STREAM_ENABLED\<close> switch off in the build; of \<^verbatim>\<open>cJSON.c\<close> the formatted and the buffered printer
  and \<^verbatim>\<open>cJSON_Minify\<close>, which the library does not call; of \<^verbatim>\<open>file_util.c\<close> the calls that only the download and the logging use.  Examples, tests and
  the applications of the repository are not part of the library.
\<close>

end
